(* ===== verification/Firejail_Prelude.thy ===== *)
theory Firejail_Prelude
  imports Main "HOL-Library.Word" "HOL-Library.List_Lexorder" "HOL-Library.Multiset"
begin

text \<open>
  Shared vocabulary of the development: the widths of the C integers, the outcomes of a program
  that may call \<open>exit(1)\<close>, and the parts of the C library that the modelled files call
  (\<open>strtok\<close>, \<open>strchr\<close>, \<open>strcasecmp\<close>, \<open>strtol\<close>), with the lemmas on lists and strings that the
  component theories share.
\<close>

unbundle bit_operations_syntax

named_theorems c_lib "equations of the modelled C library functions"
named_theorems fold_results "folding fallible steps over a list"

subsection \<open>Machine integers\<close>

type_synonym u8 = "8 word"
type_synonym u16 = "16 word"
type_synonym u32 = "32 word"
type_synonym u64 = "64 word"

text \<open>The value a 32 bit \<open>int\<close> holds after an assignment of the mathematical integer.\<close>

definition c_int :: "int \<Rightarrow> int" where
  "c_int i = signed_take_bit 31 i"

definition INT_MAX :: int where
  "INT_MAX = 2147483647"

subsection \<open>Outcomes\<close>

text \<open>
  The command line helpers report a problem on stderr and call \<open>exit(1)\<close>. Each message is a
  constructor; \<open>ProfileError\<close> carries the message of a refused profile line and the line, \<open>ChildFailed\<close> the
  helper program whose exit code is passed on, \<open>ErrExit\<close> the system call that failed,
  and \<open>Exited\<close> what firejail does instead of going on. \<open>OutOfFuel\<close> is
  the outcome of a bounded recursion whose bound is too small, and
  \<open>BufferOverflow\<close> and \<open>AssertFailure\<close> are the outcomes of writing past an array and of a failed
  \<open>assert\<close>.
\<close>

datatype c_error =
    EmptyList
  | UnknownGroup string
  | InvalidEntry string
  | InvalidNamespace string
  | InvalidProtocol string
  | InvalidArguments
  | UnknownErrno
  | CannotOpen string
  | CannotRead string
  | CannotWrite
  | StrtokNull
  | CapNotFound string
  | PrctlFailed
  | AssertFailure
  | BufferOverflow
  | ArgumentListTooLong
  | InvalidEnv
  | EnvTooLong string
  | ProfileListTooLong
  | ProfileError string string
  | ChildFailed string
  | NotOwnedByRoot string
  | WorldWritable string
  | ErrExit string
  | Exited string
  | OutOfFuel

type_synonym 'a result = "c_error + 'a"

fun bind_result :: "'a result \<Rightarrow> ('a \<Rightarrow> 'b result) \<Rightarrow> 'b result" where
  "bind_result (Inl e) f = Inl e"
| "bind_result (Inr x) f = f x"

fun fold_result :: "('a \<Rightarrow> 's \<Rightarrow> 's result) \<Rightarrow> 'a list \<Rightarrow> 's \<Rightarrow> 's result" where
  "fold_result f [] s = Inr s"
| "fold_result f (x # xs) s = bind_result (f x s) (fold_result f xs)"

lemma fold_result_Nil: "fold_result f [] = Inr"
  by (rule ext) simp

lemma bind_result_assoc [fold_results]:
  "bind_result (bind_result x f) g = bind_result x (\<lambda>y. bind_result (f y) g)"
  by (cases x) auto

lemma bind_result_Inr [simp]: "bind_result x Inr = x"
  by (cases x) auto

lemma bind_result_eq_Inr_iff:
  "bind_result x f = Inr y \<longleftrightarrow> (\<exists>z. x = Inr z \<and> f z = Inr y)"
  by (cases x) auto

lemma bind_result_eq_Inl_iff:
  "bind_result x f = Inl e \<longleftrightarrow> x = Inl e \<or> (\<exists>z. x = Inr z \<and> f z = Inl e)"
  by (cases x) auto

lemma fold_result_append [fold_results]:
  "fold_result f (xs @ ys) s = bind_result (fold_result f xs s) (fold_result f ys)"
proof (induction xs arbitrary: s)
  case (Cons x xs)
  then show ?case by (cases "f x s") auto
qed simp

lemma fold_result_total [fold_results]:
  "(\<And>x s. x \<in> set xs \<Longrightarrow> f x s = Inr (g x s)) \<Longrightarrow> fold_result f xs s = Inr (fold g xs s)"
  by (induction xs arbitrary: s) auto

lemma fold_result_cong [fundef_cong]:
  "xs = ys \<Longrightarrow> s = t \<Longrightarrow> (\<And>x s. x \<in> set ys \<Longrightarrow> f x s = g x s) \<Longrightarrow>
   fold_result f xs s = fold_result g ys t"
proof -
  have "(\<And>x s. x \<in> set zs \<Longrightarrow> f x s = g x s) \<Longrightarrow> fold_result f zs s = fold_result g zs s" for zs s
  proof (induction zs arbitrary: s)
    case (Cons z zs)
    then show ?case by (cases "g z s") auto
  qed simp
  then show "xs = ys \<Longrightarrow> s = t \<Longrightarrow> (\<And>x s. x \<in> set ys \<Longrightarrow> f x s = g x s) \<Longrightarrow>
   fold_result f xs s = fold_result g ys t" by blast
qed

lemma fold_result_Inl: "fold_result f xs s = Inl e \<Longrightarrow> \<exists>x \<in> set xs. \<exists>t. f x t = Inl e"
  by (induction xs arbitrary: s) (auto simp: bind_result_eq_Inl_iff)

lemma fold_result_sim:
  assumes "\<And>x s. x \<in> set xs \<Longrightarrow> I s \<Longrightarrow> g x (h s) = bind_result (f x s) (\<lambda>t. Inr (h t))"
    and "\<And>x s t. x \<in> set xs \<Longrightarrow> I s \<Longrightarrow> f x s = Inr t \<Longrightarrow> I t"
    and "I s"
  shows "fold_result g xs (h s) = bind_result (fold_result f xs s) (\<lambda>t. Inr (h t))"
  using assms
proof (induction xs arbitrary: s)
  case (Cons x xs)
  have "fold_result g xs (h t) = bind_result (fold_result f xs t) (\<lambda>t. Inr (h t))" if "I t" for t
    using Cons.IH [OF _ _ that] Cons.prems(1,2) by (meson list.set_intros(2))
  moreover have "g x (h s) = bind_result (f x s) (\<lambda>t. Inr (h t))"
    using Cons.prems by simp
  moreover have "f x s = Inr t \<Longrightarrow> I t" for t
    using Cons.prems by (meson list.set_intros(1))
  ultimately show ?case by (cases "f x s") auto
qed simp

lemma fold_result_inv:
  assumes "\<And>x s t. x \<in> set xs \<Longrightarrow> I s \<Longrightarrow> f x s = Inr t \<Longrightarrow> I t" and "I s" and "fold_result f xs s = Inr t"
  shows "I t"
  using assms
proof (induction xs arbitrary: s)
  case (Cons x xs)
  from Cons.prems(3) obtain u where u: "f x s = Inr u" "fold_result f xs u = Inr t"
    by (auto simp: bind_result_eq_Inr_iff)
  have "I u" using Cons.prems(1) [of x s u] Cons.prems(2) u(1) by simp
  with u(2) show ?case using Cons.IH Cons.prems(1) by (meson list.set_intros(2))
qed simp

subsection \<open>Strings\<close>

text \<open>\<open>strtok(s, "c")\<close> called until it returns NULL: the maximal runs without \<open>c\<close>, in order.\<close>

fun split_on :: "char \<Rightarrow> string \<Rightarrow> string list" where
  "split_on c [] = [[]]"
| "split_on c (x # xs) =
     (if x = c then [] # split_on c xs
      else (case split_on c xs of [] \<Rightarrow> [[x]] | w # ws \<Rightarrow> (x # w) # ws))"

definition strtok :: "char \<Rightarrow> string \<Rightarrow> string list" where
  "strtok c s = filter (\<lambda>t. t \<noteq> []) (split_on c s)"

text \<open>\<open>strchr(s, c)\<close> followed by cutting the string there: the part before and the part after.\<close>

fun cut_at :: "char \<Rightarrow> string \<Rightarrow> string \<times> string option" where
  "cut_at c [] = ([], None)"
| "cut_at c (x # xs) =
     (if x = c then ([], Some xs) else (case cut_at c xs of (a, b) \<Rightarrow> (x # a, b)))"

fun c_tolower :: "char \<Rightarrow> char" where
  "c_tolower (Char a b c d e f g h) =
     (if Char a b c d e f g h \<in> set ''ABCDEFGHIJKLMNOPQRSTUVWXYZ''
      then Char a b c d e True g h else Char a b c d e f g h)"

definition strcaseeq :: "string \<Rightarrow> string \<Rightarrow> bool" where
  "strcaseeq s t \<longleftrightarrow> map c_tolower s = map c_tolower t"

lemma split_on_not_Nil [simp]: "split_on c s \<noteq> []"
  by (cases s) (auto split: list.splits)

lemma split_on_no_sep: "c \<notin> set s \<Longrightarrow> split_on c s = [s]"
  by (induction s) auto

lemma split_on_append_sep:
  "split_on c (xs @ c # ys) = split_on c xs @ split_on c ys"
proof (induction xs)
  case (Cons x xs)
  show ?case
  proof (cases "split_on c xs")
    case Nil
    then show ?thesis by simp
  next
    case (Cons w ws)
    with Cons.IH show ?thesis by simp
  qed
qed simp

lemma strtok_Nil [simp, c_lib]: "strtok c [] = []"
  by (simp add: strtok_def)

lemma strtok_append_sep [c_lib]:
  "strtok c (xs @ c # ys) = strtok c xs @ strtok c ys"
  by (simp add: strtok_def split_on_append_sep)

lemma strtok_word [c_lib]: "c \<notin> set s \<Longrightarrow> s \<noteq> [] \<Longrightarrow> strtok c s = [s]"
  by (simp add: strtok_def split_on_no_sep)

lemma strtok_word_sep [c_lib]:
  "c \<notin> set s \<Longrightarrow> s \<noteq> [] \<Longrightarrow> strtok c (s @ c # t) = s # strtok c t"
  by (simp add: strtok_append_sep strtok_word)

lemma strtok_nonempty: "t \<in> set (strtok c s) \<Longrightarrow> t \<noteq> []"
  by (simp add: strtok_def)

lemma split_on_chars: "t \<in> set (split_on c s) \<Longrightarrow> x \<in> set t \<Longrightarrow> x \<in> set s \<and> x \<noteq> c"
proof (induction s arbitrary: t)
  case (Cons y s)
  then show ?case
    by (cases "split_on c s") (force split: if_splits)+
qed simp

lemma strtok_no_sep: "t \<in> set (strtok c s) \<Longrightarrow> c \<notin> set t"
  by (auto simp: strtok_def dest: split_on_chars)

lemma cut_at_None_iff: "snd (cut_at c s) = None \<longleftrightarrow> c \<notin> set s"
  by (induction s) (auto split: prod.splits)

lemma cut_at_no_sep [c_lib]: "c \<notin> set s \<Longrightarrow> cut_at c s = (s, None)"
  by (induction s) auto

lemma cut_at_append [c_lib]: "c \<notin> set a \<Longrightarrow> cut_at c (a @ c # b) = (a, Some b)"
  by (induction a) auto

lemma strcaseeq_refl [simp]: "strcaseeq s s"
  by (simp add: strcaseeq_def)

subsection \<open>Plain names\<close>

text \<open>A name with no character that a list gives a meaning to.\<close>

fun plain_rest :: "string \<Rightarrow> bool" where
  "plain_rest [] \<longleftrightarrow> True"
| "plain_rest (c # s) \<longleftrightarrow> c \<noteq> CHR '','' \<and> c \<noteq> CHR '':'' \<and> plain_rest s"

fun plain_name :: "string \<Rightarrow> bool" where
  "plain_name [] \<longleftrightarrow> False"
| "plain_name (c # s) \<longleftrightarrow> 
     c \<noteq> CHR ''@'' \<and> c \<noteq> CHR ''!'' \<and> c \<noteq> CHR ''$'' \<and> plain_rest (c # s)"

lemma plain_rest_iff: "plain_rest s \<longleftrightarrow> CHR '','' \<notin> set s \<and> CHR '':'' \<notin> set s"
  by (induction s) auto

lemma plain_nameD:
  assumes "plain_name s"
  shows "s \<noteq> []" "CHR '','' \<notin> set s" "CHR '':'' \<notin> set s"
    "hd s \<noteq> CHR ''@''" "hd s \<noteq> CHR ''!''" "hd s \<noteq> CHR ''$''"
  using assms by (cases s; simp add: plain_rest_iff)+

subsection \<open>Numbers in strings\<close>

definition c_isspace :: "char \<Rightarrow> bool" where
  "c_isspace c \<longleftrightarrow> (let n = of_char c :: nat in n = 32 \<or> (9 \<le> n \<and> n \<le> 13))"

definition c_isdigit :: "char \<Rightarrow> bool" where
  "c_isdigit c \<longleftrightarrow> c \<in> set ''0123456789''"

text \<open>The value of a character as a digit of a base up to 36; 99 where it is none.\<close>

definition digit_value :: "char \<Rightarrow> nat" where
  "digit_value c = (let n = of_char c :: nat in
     if 48 \<le> n \<and> n \<le> 57 then n - 48
     else if 97 \<le> n \<and> n \<le> 122 then n - 87
     else if 65 \<le> n \<and> n \<le> 90 then n - 55
     else 99)"

fun digits_value :: "nat \<Rightarrow> nat \<Rightarrow> string \<Rightarrow> nat" where
  "digits_value b acc [] = acc"
| "digits_value b acc (c # cs) =
     (if digit_value c < b then digits_value b (acc * b + digit_value c) cs else acc)"

text \<open>
  \<open>strtol(s, NULL, 0)\<close> on a 64 bit \<open>long\<close>: white space, a sign, a base prefix, then the longest run
  of digits, clamped to the range of \<open>long\<close>.
\<close>

definition strtol_magnitude :: "string \<Rightarrow> nat" where
  "strtol_magnitude s =
     (case s of
        a # b # c # r \<Rightarrow>
          if a = CHR ''0'' \<and> (b = CHR ''x'' \<or> b = CHR ''X'') \<and> digit_value c < 16
          then digits_value 16 0 (c # r)
          else if a = CHR ''0'' then digits_value 8 0 s else digits_value 10 0 s
      | a # r \<Rightarrow> if a = CHR ''0'' then digits_value 8 0 s else digits_value 10 0 s
      | [] \<Rightarrow> 0)"

definition strtol0 :: "string \<Rightarrow> int" where
  "strtol0 s =
     (let t = dropWhile c_isspace s;
          v = (case t of
                 [] \<Rightarrow> 0
               | c # r \<Rightarrow> if c = CHR ''-'' then - int (strtol_magnitude r)
                         else if c = CHR ''+'' then int (strtol_magnitude r)
                         else int (strtol_magnitude t))
      in max (- (2 ^ 63)) (min (2 ^ 63 - 1) v))"

subsection \<open>Numbers as words\<close>

lemma word_of_int_c_int: "(word_of_int (c_int i) :: u32) = word_of_int i"
proof (rule bit_word_eqI)
  fix n assume "n < LENGTH(32)"
  then have "n < 32" by simp
  then show "bit (word_of_int (c_int i) :: u32) n \<longleftrightarrow> bit (word_of_int i :: u32) n"
    by (cases "n = 31") (simp_all add: bit_word_of_int_iff c_int_def bit_signed_take_bit_iff min_def)
qed

lemma c_int_range: "- (2 ^ 31) \<le> c_int i \<and> c_int i < 2 ^ 31"
  using signed_take_bit_int_greater_eq_minus_exp [of 31 i] signed_take_bit_int_less_exp [of 31 i]
  by (simp add: c_int_def)

lemma word_of_int_inj:
  assumes "(word_of_int t :: u32) = word_of_int s" "0 \<le> s" "s < 2 ^ 30" "- (2 ^ 31) \<le> t" "t \<le> 2 ^ 31"
  shows "t = s"
proof -
  from assms(1) have "t mod 2 ^ 32 = s mod 2 ^ 32"
    by (simp add: word_of_int_eq_iff take_bit_eq_mod)
  with assms(2-) have "t mod 4294967296 = s" by simp
  moreover have "t mod 4294967296 = (if t < 0 then t + 4294967296 else t)"
  proof (cases "t < 0")
    case True
    then have "(t + 4294967296) mod 4294967296 = t + 4294967296"
      using assms(4) by (intro mod_pos_pos_trivial) simp_all
    with True show ?thesis by simp
  next
    case False
    with assms(5) show ?thesis by simp
  qed
  ultimately show ?thesis using assms(2-) by (simp split: if_splits)
qed

subsection \<open>Lists\<close>

lemma map_of_append_eq:
  "map_of (xs @ ys) k = (case map_of xs k of None \<Rightarrow> map_of ys k | Some v \<Rightarrow> Some v)"
  by (simp add: map_add_def split: option.splits)

lemma map_of_const: "map_of (map (\<lambda>x. (x, v)) xs) k = (if k \<in> set xs then Some v else None)"
  by (induction xs) auto

subsection \<open>Deciding that the keys of a table are distinct\<close>

text \<open>
  Comparing every pair of keys is too slow for the kernel on a table of several hundred names.
  Sorting them and checking neighbours is not.
\<close>

fun ascending :: "'a::linorder list \<Rightarrow> bool" where
  "ascending (x # y # r) \<longleftrightarrow> x < y \<and> ascending (y # r)"
| "ascending _ \<longleftrightarrow> True"

fun merge_asc :: "'a::linorder list \<Rightarrow> 'a list \<Rightarrow> 'a list" where
  "merge_asc [] ys = ys"
| "merge_asc xs [] = xs"
| "merge_asc (x # xs) (y # ys) =
     (if x < y then x # merge_asc xs (y # ys) else y # merge_asc (x # xs) ys)"

fun merge_pairs :: "'a::linorder list list \<Rightarrow> 'a list list" where
  "merge_pairs (a # b # r) = merge_asc a b # merge_pairs r"
| "merge_pairs r = r"

fun merge_rounds :: "nat \<Rightarrow> 'a::linorder list list \<Rightarrow> 'a list" where
  "merge_rounds 0 r = concat r"
| "merge_rounds (Suc n) r = merge_rounds n (merge_pairs r)"

fun str_key :: "string \<Rightarrow> bool list" where
  "str_key [] = []"
| "str_key (Char a b c d e f g h # s) = a # b # c # d # e # f # g # h # str_key s"

definition names_ascending :: "string list \<Rightarrow> bool" where
  "names_ascending ns \<longleftrightarrow> ascending (merge_rounds 10 (map (\<lambda>n. [str_key n]) ns))"

lemma ascending_Cons_less: "ascending (x # xs) \<Longrightarrow> y \<in> set xs \<Longrightarrow> x < y"
  by (induction xs arbitrary: x) (auto dest: less_trans)

lemma ascending_Cons: "ascending (x # xs) \<Longrightarrow> ascending xs"
  by (cases xs) auto

lemma ascending_distinct: "ascending xs \<Longrightarrow> distinct xs"
proof (induction xs)
  case (Cons x xs)
  then show ?case by (auto dest: ascending_Cons ascending_Cons_less)
qed simp

lemma mset_merge_asc: "mset (merge_asc xs ys) = mset xs + mset ys"
  by (induction xs ys rule: merge_asc.induct) auto

lemma mset_merge_pairs: "mset (concat (merge_pairs r)) = mset (concat r)"
  by (induction r rule: merge_pairs.induct) (auto simp: mset_merge_asc)

lemma mset_merge_rounds: "mset (merge_rounds n r) = mset (concat r)"
  by (induction n arbitrary: r) (simp_all add: mset_merge_pairs)

lemma names_ascending_distinct:
  assumes "names_ascending ns"
  shows "distinct ns"
proof -
  have "distinct (merge_rounds 10 (map (\<lambda>n. [str_key n]) ns))"
    using assms by (simp add: names_ascending_def ascending_distinct)
  then have "distinct (map str_key ns)"
    by (metis mset_eq_imp_distinct_iff mset_merge_rounds concat_map_singleton)
  then show ?thesis by (simp add: distinct_map)
qed

end
