(* ===== verification/Syscall_Tables.thy ===== *)
theory Syscall_Tables
  imports Firejail_Prelude
begin

text \<open>
  The system call tables \<open>include/syscall_x86_64.h\<close> and \<open>include/syscall_i386.h\<close> and the arrays
  \<open>syslist\<close> and \<open>syslist32\<close> of \<open>lib/syscall.c\<close> in an x86-64 build, with the four lookups over
  them. The lemmas show that names and numbers determine each other, so that the lookups are inverse
  to each other.
\<close>

text \<open>\<open>SyscallEntry\<close>: the name and the number of a system call.\<close>

type_synonym SyscallEntry = "string \<times> int"

definition syscall_x86_64_1 :: "SyscallEntry list" where
  "syscall_x86_64_1 =
  [(''read'', 0), (''write'', 1), (''open'', 2), (''close'', 3), (''stat'', 4), (''fstat'', 5),
   (''lstat'', 6), (''poll'', 7), (''lseek'', 8), (''mmap'', 9), (''mprotect'', 10),
   (''munmap'', 11), (''brk'', 12), (''rt_sigaction'', 13), (''rt_sigprocmask'', 14),
   (''rt_sigreturn'', 15), (''ioctl'', 16), (''pread64'', 17), (''pwrite64'', 18), (''readv'', 19),
   (''writev'', 20), (''access'', 21), (''pipe'', 22), (''select'', 23), (''sched_yield'', 24),
   (''mremap'', 25), (''msync'', 26), (''mincore'', 27), (''madvise'', 28), (''shmget'', 29),
   (''shmat'', 30), (''shmctl'', 31), (''dup'', 32), (''dup2'', 33), (''pause'', 34),
   (''nanosleep'', 35), (''getitimer'', 36), (''alarm'', 37), (''setitimer'', 38), (''getpid'', 39),
   (''sendfile'', 40), (''socket'', 41), (''connect'', 42), (''accept'', 43), (''sendto'', 44),
   (''recvfrom'', 45), (''sendmsg'', 46), (''recvmsg'', 47), (''shutdown'', 48), (''bind'', 49),
   (''listen'', 50), (''getsockname'', 51), (''getpeername'', 52), (''socketpair'', 53),
   (''setsockopt'', 54), (''getsockopt'', 55), (''clone'', 56), (''fork'', 57), (''vfork'', 58),
   (''execve'', 59), (''exit'', 60), (''wait4'', 61), (''kill'', 62), (''uname'', 63),
   (''semget'', 64), (''semop'', 65), (''semctl'', 66), (''shmdt'', 67), (''msgget'', 68),
   (''msgsnd'', 69), (''msgrcv'', 70), (''msgctl'', 71), (''fcntl'', 72), (''flock'', 73),
   (''fsync'', 74), (''fdatasync'', 75), (''truncate'', 76), (''ftruncate'', 77),
   (''getdents'', 78), (''getcwd'', 79), (''chdir'', 80), (''fchdir'', 81), (''rename'', 82),
   (''mkdir'', 83), (''rmdir'', 84), (''creat'', 85), (''link'', 86), (''unlink'', 87),
   (''symlink'', 88), (''readlink'', 89), (''chmod'', 90), (''fchmod'', 91), (''chown'', 92),
   (''fchown'', 93), (''lchown'', 94), (''umask'', 95), (''gettimeofday'', 96), (''getrlimit'', 97),
   (''getrusage'', 98), (''sysinfo'', 99), (''times'', 100), (''ptrace'', 101), (''getuid'', 102),
   (''syslog'', 103), (''getgid'', 104), (''setuid'', 105), (''setgid'', 106), (''geteuid'', 107),
   (''getegid'', 108), (''setpgid'', 109), (''getppid'', 110), (''getpgrp'', 111),
   (''setsid'', 112), (''setreuid'', 113), (''setregid'', 114), (''getgroups'', 115),
   (''setgroups'', 116), (''setresuid'', 117), (''getresuid'', 118), (''setresgid'', 119),
   (''getresgid'', 120), (''getpgid'', 121), (''setfsuid'', 122), (''setfsgid'', 123),
   (''getsid'', 124), (''capget'', 125), (''capset'', 126), (''rt_sigpending'', 127),
   (''rt_sigtimedwait'', 128), (''rt_sigqueueinfo'', 129), (''rt_sigsuspend'', 130),
   (''sigaltstack'', 131), (''utime'', 132), (''mknod'', 133), (''uselib'', 134),
   (''personality'', 135), (''ustat'', 136), (''statfs'', 137), (''fstatfs'', 138),
   (''sysfs'', 139), (''getpriority'', 140), (''setpriority'', 141), (''sched_setparam'', 142),
   (''sched_getparam'', 143), (''sched_setscheduler'', 144)]"

definition syscall_x86_64_2 :: "SyscallEntry list" where
  "syscall_x86_64_2 =
  [(''sched_getscheduler'', 145), (''sched_get_priority_max'', 146),
   (''sched_get_priority_min'', 147), (''sched_rr_get_interval'', 148), (''mlock'', 149),
   (''munlock'', 150), (''mlockall'', 151), (''munlockall'', 152), (''vhangup'', 153),
   (''modify_ldt'', 154), (''pivot_root'', 155), (''_sysctl'', 156), (''prctl'', 157),
   (''arch_prctl'', 158), (''adjtimex'', 159), (''setrlimit'', 160), (''chroot'', 161),
   (''sync'', 162), (''acct'', 163), (''settimeofday'', 164), (''mount'', 165), (''umount2'', 166),
   (''swapon'', 167), (''swapoff'', 168), (''reboot'', 169), (''sethostname'', 170),
   (''setdomainname'', 171), (''iopl'', 172), (''ioperm'', 173), (''create_module'', 174),
   (''init_module'', 175), (''delete_module'', 176), (''get_kernel_syms'', 177),
   (''query_module'', 178), (''quotactl'', 179), (''nfsservctl'', 180), (''getpmsg'', 181),
   (''putpmsg'', 182), (''afs_syscall'', 183), (''tuxcall'', 184), (''security'', 185),
   (''gettid'', 186), (''readahead'', 187), (''setxattr'', 188), (''lsetxattr'', 189),
   (''fsetxattr'', 190), (''getxattr'', 191), (''lgetxattr'', 192), (''fgetxattr'', 193),
   (''listxattr'', 194), (''llistxattr'', 195), (''flistxattr'', 196), (''removexattr'', 197),
   (''lremovexattr'', 198), (''fremovexattr'', 199), (''tkill'', 200), (''time'', 201),
   (''futex'', 202), (''sched_setaffinity'', 203), (''sched_getaffinity'', 204),
   (''set_thread_area'', 205), (''io_setup'', 206), (''io_destroy'', 207), (''io_getevents'', 208),
   (''io_submit'', 209), (''io_cancel'', 210), (''get_thread_area'', 211),
   (''lookup_dcookie'', 212), (''epoll_create'', 213), (''epoll_ctl_old'', 214),
   (''epoll_wait_old'', 215), (''remap_file_pages'', 216), (''getdents64'', 217),
   (''set_tid_address'', 218), (''restart_syscall'', 219), (''semtimedop'', 220),
   (''fadvise64'', 221), (''timer_create'', 222), (''timer_settime'', 223),
   (''timer_gettime'', 224), (''timer_getoverrun'', 225), (''timer_delete'', 226),
   (''clock_settime'', 227), (''clock_gettime'', 228), (''clock_getres'', 229),
   (''clock_nanosleep'', 230), (''exit_group'', 231), (''epoll_wait'', 232), (''epoll_ctl'', 233),
   (''tgkill'', 234), (''utimes'', 235), (''vserver'', 236), (''mbind'', 237),
   (''set_mempolicy'', 238), (''get_mempolicy'', 239), (''mq_open'', 240), (''mq_unlink'', 241),
   (''mq_timedsend'', 242), (''mq_timedreceive'', 243), (''mq_notify'', 244),
   (''mq_getsetattr'', 245), (''kexec_load'', 246), (''waitid'', 247), (''add_key'', 248),
   (''request_key'', 249), (''keyctl'', 250), (''ioprio_set'', 251), (''ioprio_get'', 252),
   (''inotify_init'', 253), (''inotify_add_watch'', 254), (''inotify_rm_watch'', 255),
   (''migrate_pages'', 256), (''openat'', 257), (''mkdirat'', 258), (''mknodat'', 259),
   (''fchownat'', 260), (''futimesat'', 261), (''newfstatat'', 262), (''unlinkat'', 263),
   (''renameat'', 264), (''linkat'', 265), (''symlinkat'', 266), (''readlinkat'', 267),
   (''fchmodat'', 268), (''faccessat'', 269), (''pselect6'', 270), (''ppoll'', 271),
   (''unshare'', 272), (''set_robust_list'', 273), (''get_robust_list'', 274), (''splice'', 275),
   (''tee'', 276), (''sync_file_range'', 277), (''vmsplice'', 278), (''move_pages'', 279),
   (''utimensat'', 280), (''epoll_pwait'', 281), (''signalfd'', 282), (''timerfd_create'', 283),
   (''eventfd'', 284), (''fallocate'', 285), (''timerfd_settime'', 286), (''timerfd_gettime'', 287),
   (''accept4'', 288), (''signalfd4'', 289)]"

definition syscall_x86_64_3 :: "SyscallEntry list" where
  "syscall_x86_64_3 =
  [(''eventfd2'', 290), (''epoll_create1'', 291), (''dup3'', 292), (''pipe2'', 293),
   (''inotify_init1'', 294), (''preadv'', 295), (''pwritev'', 296), (''rt_tgsigqueueinfo'', 297),
   (''perf_event_open'', 298), (''recvmmsg'', 299), (''fanotify_init'', 300),
   (''fanotify_mark'', 301), (''prlimit64'', 302), (''name_to_handle_at'', 303),
   (''open_by_handle_at'', 304), (''clock_adjtime'', 305), (''syncfs'', 306), (''sendmmsg'', 307),
   (''setns'', 308), (''getcpu'', 309), (''process_vm_readv'', 310), (''process_vm_writev'', 311),
   (''kcmp'', 312), (''finit_module'', 313), (''sched_setattr'', 314), (''sched_getattr'', 315),
   (''renameat2'', 316), (''seccomp'', 317), (''getrandom'', 318), (''memfd_create'', 319),
   (''kexec_file_load'', 320), (''bpf'', 321), (''execveat'', 322), (''userfaultfd'', 323),
   (''membarrier'', 324), (''mlock2'', 325), (''copy_file_range'', 326), (''preadv2'', 327),
   (''pwritev2'', 328), (''pkey_mprotect'', 329), (''pkey_alloc'', 330), (''pkey_free'', 331),
   (''statx'', 332), (''io_pgetevents'', 333), (''rseq'', 334), (''pidfd_send_signal'', 424),
   (''io_uring_setup'', 425), (''io_uring_enter'', 426), (''io_uring_register'', 427),
   (''open_tree'', 428), (''move_mount'', 429), (''fsopen'', 430), (''fsconfig'', 431),
   (''fsmount'', 432), (''fspick'', 433), (''pidfd_open'', 434), (''clone3'', 435),
   (''close_range'', 436), (''openat2'', 437), (''pidfd_getfd'', 438), (''faccessat2'', 439),
   (''process_madvise'', 440)]"

definition syscall_i386_1 :: "SyscallEntry list" where
  "syscall_i386_1 =
  [(''exit'', 1), (''fork'', 2), (''read'', 3), (''write'', 4), (''open'', 5), (''close'', 6),
   (''waitpid'', 7), (''creat'', 8), (''link'', 9), (''unlink'', 10), (''execve'', 11),
   (''chdir'', 12), (''time'', 13), (''mknod'', 14), (''chmod'', 15), (''lchown'', 16),
   (''break'', 17), (''oldstat'', 18), (''lseek'', 19), (''getpid'', 20), (''mount'', 21),
   (''umount'', 22), (''setuid'', 23), (''getuid'', 24), (''stime'', 25), (''ptrace'', 26),
   (''alarm'', 27), (''oldfstat'', 28), (''pause'', 29), (''utime'', 30), (''stty'', 31),
   (''gtty'', 32), (''access'', 33), (''nice'', 34), (''ftime'', 35), (''sync'', 36),
   (''kill'', 37), (''rename'', 38), (''mkdir'', 39), (''rmdir'', 40), (''dup'', 41),
   (''pipe'', 42), (''times'', 43), (''prof'', 44), (''brk'', 45), (''setgid'', 46),
   (''getgid'', 47), (''signal'', 48), (''geteuid'', 49), (''getegid'', 50), (''acct'', 51),
   (''umount2'', 52), (''lock'', 53), (''ioctl'', 54), (''fcntl'', 55), (''mpx'', 56),
   (''setpgid'', 57), (''ulimit'', 58), (''oldolduname'', 59), (''umask'', 60), (''chroot'', 61),
   (''ustat'', 62), (''dup2'', 63), (''getppid'', 64), (''getpgrp'', 65), (''setsid'', 66),
   (''sigaction'', 67), (''sgetmask'', 68), (''ssetmask'', 69), (''setreuid'', 70),
   (''setregid'', 71), (''sigsuspend'', 72), (''sigpending'', 73), (''sethostname'', 74),
   (''setrlimit'', 75), (''getrlimit'', 76), (''getrusage'', 77), (''gettimeofday'', 78),
   (''settimeofday'', 79), (''getgroups'', 80), (''setgroups'', 81), (''select'', 82),
   (''symlink'', 83), (''oldlstat'', 84), (''readlink'', 85), (''uselib'', 86), (''swapon'', 87),
   (''reboot'', 88), (''readdir'', 89), (''mmap'', 90), (''munmap'', 91), (''truncate'', 92),
   (''ftruncate'', 93), (''fchmod'', 94), (''fchown'', 95), (''getpriority'', 96),
   (''setpriority'', 97), (''profil'', 98), (''statfs'', 99), (''fstatfs'', 100), (''ioperm'', 101),
   (''socketcall'', 102), (''syslog'', 103), (''setitimer'', 104), (''getitimer'', 105),
   (''stat'', 106), (''lstat'', 107), (''fstat'', 108), (''olduname'', 109), (''iopl'', 110),
   (''vhangup'', 111), (''idle'', 112), (''vm86old'', 113), (''wait4'', 114), (''swapoff'', 115),
   (''sysinfo'', 116), (''ipc'', 117), (''fsync'', 118), (''sigreturn'', 119), (''clone'', 120),
   (''setdomainname'', 121), (''uname'', 122), (''modify_ldt'', 123), (''adjtimex'', 124),
   (''mprotect'', 125), (''sigprocmask'', 126), (''create_module'', 127), (''init_module'', 128),
   (''delete_module'', 129), (''get_kernel_syms'', 130), (''quotactl'', 131), (''getpgid'', 132),
   (''fchdir'', 133), (''bdflush'', 134), (''sysfs'', 135), (''personality'', 136),
   (''afs_syscall'', 137), (''setfsuid'', 138), (''setfsgid'', 139), (''_llseek'', 140),
   (''getdents'', 141), (''_newselect'', 142), (''flock'', 143), (''msync'', 144), (''readv'', 145)]"

definition syscall_i386_2 :: "SyscallEntry list" where
  "syscall_i386_2 =
  [(''writev'', 146), (''getsid'', 147), (''fdatasync'', 148), (''_sysctl'', 149), (''mlock'', 150),
   (''munlock'', 151), (''mlockall'', 152), (''munlockall'', 153), (''sched_setparam'', 154),
   (''sched_getparam'', 155), (''sched_setscheduler'', 156), (''sched_getscheduler'', 157),
   (''sched_yield'', 158), (''sched_get_priority_max'', 159), (''sched_get_priority_min'', 160),
   (''sched_rr_get_interval'', 161), (''nanosleep'', 162), (''mremap'', 163), (''setresuid'', 164),
   (''getresuid'', 165), (''vm86'', 166), (''query_module'', 167), (''poll'', 168),
   (''nfsservctl'', 169), (''setresgid'', 170), (''getresgid'', 171), (''prctl'', 172),
   (''rt_sigreturn'', 173), (''rt_sigaction'', 174), (''rt_sigprocmask'', 175),
   (''rt_sigpending'', 176), (''rt_sigtimedwait'', 177), (''rt_sigqueueinfo'', 178),
   (''rt_sigsuspend'', 179), (''pread64'', 180), (''pwrite64'', 181), (''chown'', 182),
   (''getcwd'', 183), (''capget'', 184), (''capset'', 185), (''sigaltstack'', 186),
   (''sendfile'', 187), (''getpmsg'', 188), (''putpmsg'', 189), (''vfork'', 190),
   (''ugetrlimit'', 191), (''mmap2'', 192), (''truncate64'', 193), (''ftruncate64'', 194),
   (''stat64'', 195), (''lstat64'', 196), (''fstat64'', 197), (''lchown32'', 198),
   (''getuid32'', 199), (''getgid32'', 200), (''geteuid32'', 201), (''getegid32'', 202),
   (''setreuid32'', 203), (''setregid32'', 204), (''getgroups32'', 205), (''setgroups32'', 206),
   (''fchown32'', 207), (''setresuid32'', 208), (''getresuid32'', 209), (''setresgid32'', 210),
   (''getresgid32'', 211), (''chown32'', 212), (''setuid32'', 213), (''setgid32'', 214),
   (''setfsuid32'', 215), (''setfsgid32'', 216), (''pivot_root'', 217), (''mincore'', 218),
   (''madvise'', 219), (''getdents64'', 220), (''fcntl64'', 221), (''gettid'', 224),
   (''readahead'', 225), (''setxattr'', 226), (''lsetxattr'', 227), (''fsetxattr'', 228),
   (''getxattr'', 229), (''lgetxattr'', 230), (''fgetxattr'', 231), (''listxattr'', 232),
   (''llistxattr'', 233), (''flistxattr'', 234), (''removexattr'', 235), (''lremovexattr'', 236),
   (''fremovexattr'', 237), (''tkill'', 238), (''sendfile64'', 239), (''futex'', 240),
   (''sched_setaffinity'', 241), (''sched_getaffinity'', 242), (''set_thread_area'', 243),
   (''get_thread_area'', 244), (''io_setup'', 245), (''io_destroy'', 246), (''io_getevents'', 247),
   (''io_submit'', 248), (''io_cancel'', 249), (''fadvise64'', 250), (''exit_group'', 252),
   (''lookup_dcookie'', 253), (''epoll_create'', 254), (''epoll_ctl'', 255), (''epoll_wait'', 256),
   (''remap_file_pages'', 257), (''set_tid_address'', 258), (''timer_create'', 259),
   (''timer_settime'', 260), (''timer_gettime'', 261), (''timer_getoverrun'', 262),
   (''timer_delete'', 263), (''clock_settime'', 264), (''clock_gettime'', 265),
   (''clock_getres'', 266), (''clock_nanosleep'', 267), (''statfs64'', 268), (''fstatfs64'', 269),
   (''tgkill'', 270), (''utimes'', 271), (''fadvise64_64'', 272), (''vserver'', 273),
   (''mbind'', 274), (''get_mempolicy'', 275), (''set_mempolicy'', 276), (''mq_open'', 277),
   (''mq_unlink'', 278), (''mq_timedsend'', 279), (''mq_timedreceive'', 280), (''mq_notify'', 281),
   (''mq_getsetattr'', 282), (''kexec_load'', 283), (''waitid'', 284), (''add_key'', 286),
   (''request_key'', 287), (''keyctl'', 288), (''ioprio_set'', 289), (''ioprio_get'', 290),
   (''inotify_init'', 291), (''inotify_add_watch'', 292), (''inotify_rm_watch'', 293),
   (''migrate_pages'', 294)]"

definition syscall_i386_3 :: "SyscallEntry list" where
  "syscall_i386_3 =
  [(''openat'', 295), (''mkdirat'', 296), (''mknodat'', 297), (''fchownat'', 298),
   (''futimesat'', 299), (''fstatat64'', 300), (''unlinkat'', 301), (''renameat'', 302),
   (''linkat'', 303), (''symlinkat'', 304), (''readlinkat'', 305), (''fchmodat'', 306),
   (''faccessat'', 307), (''pselect6'', 308), (''ppoll'', 309), (''unshare'', 310),
   (''set_robust_list'', 311), (''get_robust_list'', 312), (''splice'', 313),
   (''sync_file_range'', 314), (''tee'', 315), (''vmsplice'', 316), (''move_pages'', 317),
   (''getcpu'', 318), (''epoll_pwait'', 319), (''utimensat'', 320), (''signalfd'', 321),
   (''timerfd_create'', 322), (''eventfd'', 323), (''fallocate'', 324), (''timerfd_settime'', 325),
   (''timerfd_gettime'', 326), (''signalfd4'', 327), (''eventfd2'', 328), (''epoll_create1'', 329),
   (''dup3'', 330), (''pipe2'', 331), (''inotify_init1'', 332), (''preadv'', 333),
   (''pwritev'', 334), (''rt_tgsigqueueinfo'', 335), (''perf_event_open'', 336),
   (''recvmmsg'', 337), (''fanotify_init'', 338), (''fanotify_mark'', 339), (''prlimit64'', 340),
   (''name_to_handle_at'', 341), (''open_by_handle_at'', 342), (''clock_adjtime'', 343),
   (''syncfs'', 344), (''sendmmsg'', 345), (''setns'', 346), (''process_vm_readv'', 347),
   (''process_vm_writev'', 348), (''kcmp'', 349), (''finit_module'', 350), (''sched_setattr'', 351),
   (''sched_getattr'', 352), (''renameat2'', 353), (''seccomp'', 354), (''getrandom'', 355),
   (''memfd_create'', 356), (''bpf'', 357), (''execveat'', 358), (''socket'', 359),
   (''socketpair'', 360), (''bind'', 361), (''connect'', 362), (''listen'', 363),
   (''accept4'', 364), (''getsockopt'', 365), (''setsockopt'', 366), (''getsockname'', 367),
   (''getpeername'', 368), (''sendto'', 369), (''sendmsg'', 370), (''recvfrom'', 371),
   (''recvmsg'', 372), (''shutdown'', 373), (''userfaultfd'', 374), (''membarrier'', 375),
   (''mlock2'', 376), (''copy_file_range'', 377), (''preadv2'', 378), (''pwritev2'', 379),
   (''pkey_mprotect'', 380), (''pkey_alloc'', 381), (''pkey_free'', 382), (''statx'', 383),
   (''arch_prctl'', 384), (''io_pgetevents'', 385), (''rseq'', 386), (''semget'', 393),
   (''semctl'', 394), (''shmget'', 395), (''shmctl'', 396), (''shmat'', 397), (''shmdt'', 398),
   (''msgget'', 399), (''msgsnd'', 400), (''msgrcv'', 401), (''msgctl'', 402),
   (''clock_gettime64'', 403), (''clock_settime64'', 404), (''clock_adjtime64'', 405),
   (''clock_getres_time64'', 406), (''clock_nanosleep_time64'', 407), (''timer_gettime64'', 408),
   (''timer_settime64'', 409), (''timerfd_gettime64'', 410), (''timerfd_settime64'', 411),
   (''utimensat_time64'', 412), (''pselect6_time64'', 413), (''ppoll_time64'', 414),
   (''io_pgetevents_time64'', 416), (''recvmmsg_time64'', 417), (''mq_timedsend_time64'', 418),
   (''mq_timedreceive_time64'', 419), (''semtimedop_time64'', 420),
   (''rt_sigtimedwait_time64'', 421), (''futex_time64'', 422),
   (''sched_rr_get_interval_time64'', 423), (''pidfd_send_signal'', 424), (''io_uring_setup'', 425),
   (''io_uring_enter'', 426), (''io_uring_register'', 427), (''open_tree'', 428),
   (''move_mount'', 429), (''fsopen'', 430), (''fsconfig'', 431), (''fsmount'', 432),
   (''fspick'', 433), (''pidfd_open'', 434), (''clone3'', 435), (''close_range'', 436),
   (''openat2'', 437), (''pidfd_getfd'', 438), (''faccessat2'', 439), (''process_madvise'', 440)]"

text \<open>Native system calls, and the 32 bit system calls of a 64 bit machine.\<close>

definition syslist :: "SyscallEntry list" where
  "syslist = syscall_x86_64_1 @ syscall_x86_64_2 @ syscall_x86_64_3"

definition syslist32 :: "SyscallEntry list" where
  "syslist32 = syscall_i386_1 @ syscall_i386_2 @ syscall_i386_3"

definition SYSCALL_ERROR :: int where
  "SYSCALL_ERROR = INT_MAX"

text \<open>The loops of the lookups: the first entry that matches.\<close>

fun table_find_name :: "SyscallEntry list \<Rightarrow> string \<Rightarrow> int" where
  "table_find_name [] name = SYSCALL_ERROR"
| "table_find_name ((n, nr) # t) name = (if name = n then nr else table_find_name t name)"

fun table_find_nr :: "SyscallEntry list \<Rightarrow> int \<Rightarrow> string" where
  "table_find_nr [] nr = ''unknown''"
| "table_find_nr ((n, m) # t) nr = (if nr = m then n else table_find_nr t nr)"

definition syscall_find_name :: "string \<Rightarrow> int" where
  "syscall_find_name name = table_find_name syslist name"

definition syscall_find_name_32 :: "string \<Rightarrow> int" where
  "syscall_find_name_32 name = table_find_name syslist32 name"

definition syscall_find_nr :: "int \<Rightarrow> string" where
  "syscall_find_nr nr = table_find_nr syslist nr"

definition syscall_find_nr_32 :: "int \<Rightarrow> string" where
  "syscall_find_nr_32 nr = table_find_nr syslist32 nr"

lemmas syslist_defs = syslist_def syscall_x86_64_1_def syscall_x86_64_2_def syscall_x86_64_3_def
lemmas syslist32_defs = syslist32_def syscall_i386_1_def syscall_i386_2_def syscall_i386_3_def

text \<open>What it takes to run a lookup on the literal tables.\<close>

lemmas table_eval = table_find_name.simps table_find_nr.simps append_Cons append_Nil list.inject
  char.inject list.distinct simp_thms if_True if_False
lemmas table_check = append_Cons append_Nil list.pred_inject fst_conv plain_rest.simps
  plain_name.simps char.inject simp_thms

subsection \<open>Names and numbers determine each other\<close>

lemma table_find_name_entry:
  "distinct (map fst t) \<Longrightarrow> (n, k) \<in> set t \<Longrightarrow> table_find_name t n = k"
  by (induction t) (force split: if_splits)+

lemma table_find_nr_entry:
  "distinct (map snd t) \<Longrightarrow> (n, k) \<in> set t \<Longrightarrow> table_find_nr t k = n"
  by (induction t) (force split: if_splits)+

lemma table_find_name_cases:
  "table_find_name t n = SYSCALL_ERROR \<or> (n, table_find_name t n) \<in> set t"
  by (induction t) (auto split: if_splits)

lemma table_find_nr_cases:
  "table_find_nr t k = ''unknown'' \<or> (table_find_nr t k, k) \<in> set t"
  by (induction t) (auto split: if_splits)

lemma syslist_names: "distinct (map fst syslist)"
proof (rule names_ascending_distinct)
  show "names_ascending (map fst syslist)" by code_simp
qed

lemma syslist32_names: "distinct (map fst syslist32)"
proof (rule names_ascending_distinct)
  show "names_ascending (map fst syslist32)" by code_simp
qed

lemma syslist_nrs: "distinct (map snd syslist)"
proof (rule ascending_distinct)
  show "ascending (map snd syslist)" by code_simp
qed

lemma syslist32_nrs: "distinct (map snd syslist32)"
proof (rule ascending_distinct)
  show "ascending (map snd syslist32)" by code_simp
qed

lemma syslist_range: "list_all (\<lambda>(n, k). 0 \<le> k \<and> k \<le> 440 \<and> n \<noteq> []) syslist"
  by code_simp

lemma syslist32_range: "list_all (\<lambda>(n, k). 0 \<le> k \<and> k \<le> 440 \<and> n \<noteq> []) syslist32"
  by code_simp

lemma syslist_plain: "list_all (\<lambda>e. plain_name (fst e)) syslist"
  by (simp only: syslist_defs table_check)

lemma syslist32_plain: "list_all (\<lambda>e. plain_name (fst e)) syslist32"
  by (simp only: syslist32_defs table_check)

lemma syscall_find_name_range:
  "syscall_find_name n \<noteq> SYSCALL_ERROR \<Longrightarrow> 0 \<le> syscall_find_name n \<and> syscall_find_name n \<le> 440"
  using table_find_name_cases [of syslist n] syslist_range
  by (auto simp: syscall_find_name_def list_all_iff)

lemma syscall_find_name_32_range:
  "syscall_find_name_32 n \<noteq> SYSCALL_ERROR \<Longrightarrow>
   0 \<le> syscall_find_name_32 n \<and> syscall_find_name_32 n \<le> 440"
  using table_find_name_cases [of syslist32 n] syslist32_range
  by (auto simp: syscall_find_name_32_def list_all_iff)

text \<open>
  The native table is a bijection between its names and its numbers for the lookups: a name is found
  with number \<open>k\<close> exactly when the entry is in the table, and looking its number up gives the name back.
\<close>

theorem syscall_find_roundtrip:
  "((n, k) \<in> set syslist \<longleftrightarrow> syscall_find_name n = k \<and> k \<noteq> SYSCALL_ERROR) \<and>
   ((n, k) \<in> set syslist \<longrightarrow> syscall_find_nr k = n \<and> 0 \<le> k \<and> k \<le> 440)"
  using table_find_name_entry [OF syslist_names, of n k] table_find_nr_entry [OF syslist_nrs, of n k]
    table_find_name_cases [of syslist n] syslist_range
  by (auto simp: syscall_find_name_def syscall_find_nr_def list_all_iff SYSCALL_ERROR_def INT_MAX_def)

theorem syscall_find_roundtrip_witness:
  "syscall_find_name ''read'' = 0 \<and> syscall_find_nr 0 = ''read''"
  using syscall_find_roundtrip [of "''read''" 0] by (simp add: syslist_defs)

text \<open>
  The same for the i386 table that a 64 bit build consults for 32 bit programs.
\<close>

theorem syscall_find_32_roundtrip:
  "((n, k) \<in> set syslist32 \<longleftrightarrow> syscall_find_name_32 n = k \<and> k \<noteq> SYSCALL_ERROR) \<and>
   ((n, k) \<in> set syslist32 \<longrightarrow> syscall_find_nr_32 k = n \<and> 0 \<le> k \<and> k \<le> 440)"
  using table_find_name_entry [OF syslist32_names, of n k] table_find_nr_entry [OF syslist32_nrs, of n k]
    table_find_name_cases [of syslist32 n] syslist32_range
  by (auto simp: syscall_find_name_32_def syscall_find_nr_32_def list_all_iff SYSCALL_ERROR_def INT_MAX_def)

theorem syscall_find_32_roundtrip_witness:
  "syscall_find_name_32 ''exit'' = 1 \<and> syscall_find_nr_32 1 = ''exit''"
  using syscall_find_32_roundtrip [of "''exit''" 1] by (simp add: syslist32_defs)

end
