(* ===== verification/Syscall_Groups.thy ===== *)
theory Syscall_Groups
  imports Firejail_Prelude
begin

text \<open>
  The system call groups \<open>sysgroups\<close> of \<open>lib/syscall.c\<close>. The text of a group is put together by the
  preprocessor: an item is there when the headers of the build machine define \<open>SYS_x\<close>. Which names
  they define is the parameter \<open>defd\<close>.

  The lemmas show that every group expands to the words of its present items whatever the headers
  define, and that the references between groups are well-founded: a group only names groups of lower
  rank, so that expanding a list ends.
\<close>

datatype guard =
    Always
  | Defined string
  | NoneDefined "string list"

type_synonym group_item = "guard \<times> string"

fun guard_holds :: "(string \<Rightarrow> bool) \<Rightarrow> guard \<Rightarrow> bool" where
  "guard_holds defd Always \<longleftrightarrow> True"
| "guard_holds defd (Defined n) \<longleftrightarrow> defd n"
| "guard_holds defd (NoneDefined ns) \<longleftrightarrow> list_all (\<lambda>n. \<not> defd n) ns"

text \<open>An item \<open>"x,"\<close> under \<open>#ifdef SYS_x\<close>, and an item \<open>"x"\<close> that ends a group.\<close>

definition sys :: "string \<Rightarrow> group_item" where
  "sys n = (Defined n, n @ '','')"

definition sys_last :: "string \<Rightarrow> group_item" where
  "sys_last n = (Defined n, n)"

definition group_text :: "(string \<Rightarrow> bool) \<Rightarrow> group_item list \<Rightarrow> string" where
  "group_text defd items = concat (map snd (filter (\<lambda>(g, t). guard_holds defd g) items))"

definition group_aio :: "group_item list" where
  "group_aio =
  [sys ''io_cancel'', sys ''io_destroy'', sys ''io_getevents'', sys ''io_pgetevents'',
   sys ''io_setup'', sys ''io_submit'', sys ''io_uring_enter'', sys ''io_uring_register'',
   sys_last ''io_uring_setup'']"

definition group_basic_io :: "group_item list" where
  "group_basic_io =
  [sys ''_llseek'', sys ''close'', sys ''close_range'', sys ''dup'', sys ''dup2'', sys ''dup3'',
   sys ''lseek'', sys ''pread64'', sys ''preadv'', sys ''preadv2'', sys ''pwrite64'',
   sys ''pwritev'', sys ''pwritev2'', sys ''read'', sys ''readv'', sys ''write'',
   sys_last ''writev'']"

definition group_chown :: "group_item list" where
  "group_chown =
  [sys ''chown'', sys ''chown32'', sys ''fchown'', sys ''fchown32'', sys ''fchownat'',
   sys ''lchown'', sys_last ''lchown32'']"

definition group_clock :: "group_item list" where
  "group_clock =
  [sys ''adjtimex'', sys ''clock_adjtime'', sys ''clock_settime'', sys ''settimeofday'',
   sys_last ''stime'']"

definition group_cpu_emulation :: "group_item list" where
  "group_cpu_emulation =
  [sys ''modify_ldt'', sys ''subpage_prot'', sys ''switch_endian'', sys ''vm86'',
   sys_last ''vm86old'',
   (NoneDefined [''modify_ldt'', ''subpage_prot'', ''switch_endian'', ''vm86'', ''vm86old''],
      ''__dummy_syscall__'')]"

definition group_debug :: "group_item list" where
  "group_debug =
  [sys ''lookup_dcookie'', sys ''perf_event_open'', sys ''pidfd_getfd'', sys ''process_vm_writev'',
   sys ''rtas'', sys ''s390_runtime_instr'', sys ''sys_debug_setcontext'']"

definition group_default :: "group_item list" where
  "group_default =
  [(Always, ''@clock,''), (Always, ''@cpu-emulation,''), (Always, ''@debug,''),
   (Always, ''@module,''), (Always, ''@mount,''), (Always, ''@obsolete,''), (Always, ''@raw-io,''),
   (Always, ''@reboot,''), (Always, ''@swap,''), sys ''open_by_handle_at'',
   sys ''name_to_handle_at'', sys ''ioprio_set'', sys ''ni_syscall'', sys ''syslog'',
   sys ''fanotify_init'', sys ''add_key'', sys ''request_key'', sys ''mbind'',
   sys ''migrate_pages'', sys ''move_pages'', sys ''keyctl'', sys ''io_setup'', sys ''io_destroy'',
   sys ''io_getevents'', sys ''io_submit'', sys ''io_cancel'', sys ''remap_file_pages'',
   sys ''set_mempolicy'', sys ''vmsplice'', sys ''userfaultfd'', sys ''acct'', sys ''bpf'',
   sys ''nfsservctl'', sys ''setdomainname'', sys ''sethostname'', sys_last ''vhangup'']"

definition group_default_nodebuggers :: "group_item list" where
  "group_default_nodebuggers =
  [(Always, ''@default,''), sys ''ptrace'', sys ''personality'', sys_last ''process_vm_readv'']"

definition group_default_keep :: "group_item list" where
  "group_default_keep =
  [(Always, ''execveat,''), (Always, ''execve,''), (Always, ''prctl'')]"

definition group_file_system_1 :: "group_item list" where
  "group_file_system_1 =
  [sys ''access'', sys ''chdir'', sys ''chmod'', sys ''close'', sys ''close_range'', sys ''creat'',
   sys ''faccessat'', sys ''faccessat2'', sys ''fallocate'', sys ''fchdir'', sys ''fchmod'',
   sys ''fchmodat'', sys ''fcntl'', sys ''fcntl64'', sys ''fgetxattr'', sys ''flistxattr'',
   sys ''fremovexattr'', sys ''fsetxattr'', sys ''fstat'', sys ''fstat64'', sys ''fstatat64'',
   sys ''fstatfs'', sys ''fstatfs64'', sys ''ftruncate'', sys ''ftruncate64'', sys ''futimesat'',
   sys ''getcwd'', sys ''getdents'', sys ''getdents64'', sys ''getxattr'',
   sys ''inotify_add_watch'', sys ''inotify_init'', sys ''inotify_init1'', sys ''inotify_rm_watch'',
   sys ''lgetxattr'', sys ''link'', sys ''linkat'', sys ''listxattr'', sys ''llistxattr'']"

definition group_file_system_2 :: "group_item list" where
  "group_file_system_2 =
  [sys ''lremovexattr'', sys ''lsetxattr'', sys ''lstat'', sys ''lstat64'', sys ''mkdir'',
   sys ''mkdirat'', sys ''mknod'', sys ''mknodat'', sys ''mmap'', sys ''mmap2'', sys ''munmap'',
   sys ''newfstatat'', sys ''oldfstat'', sys ''oldlstat'', sys ''oldstat'', sys ''open'',
   sys ''openat'', sys ''openat2'', sys ''readlink'', sys ''readlinkat'', sys ''removexattr'',
   sys ''rename'', sys ''renameat'', sys ''renameat2'', sys ''rmdir'', sys ''setxattr'',
   sys ''stat'', sys ''stat64'', sys ''statfs'', sys ''statfs64'', sys ''statx'', sys ''symlink'',
   sys ''symlinkat'', sys ''truncate'', sys ''truncate64'', sys ''unlink'', sys ''unlinkat'',
   sys ''utime'', sys ''utimensat'', sys_last ''utimes'']"

definition group_io_event :: "group_item list" where
  "group_io_event =
  [sys ''_newselect'', sys ''epoll_create'', sys ''epoll_create1'', sys ''epoll_ctl'',
   sys ''epoll_ctl_old'', sys ''epoll_pwait'', sys ''epoll_wait'', sys ''epoll_wait_old'',
   sys ''eventfd'', sys ''eventfd2'', sys ''poll'', sys ''ppoll'', sys ''pselect6'',
   sys_last ''select'']"

definition group_ipc :: "group_item list" where
  "group_ipc =
  [sys ''ipc'', sys ''memfd_create'', sys ''mq_getsetattr'', sys ''mq_notify'', sys ''mq_open'',
   sys ''mq_timedreceive'', sys ''mq_timedsend'', sys ''mq_unlink'', sys ''msgctl'', sys ''msgget'',
   sys ''msgrcv'', sys ''msgsnd'', sys ''pipe'', sys ''pipe2'', sys ''process_madvise'',
   sys ''process_vm_readv'', sys ''process_vm_writev'', sys ''semctl'', sys ''semget'',
   sys ''semop'', sys ''semtimedop'', sys ''shmat'', sys ''shmctl'', sys ''shmdt'',
   sys_last ''shmget'']"

definition group_keyring :: "group_item list" where
  "group_keyring =
  [sys ''add_key'', sys ''keyctl'', sys_last ''request_key'']"

definition group_memlock :: "group_item list" where
  "group_memlock =
  [sys ''mlock'', sys ''mlock2'', sys ''mlockall'', sys ''munlock'', sys_last ''munlockall'']"

definition group_module :: "group_item list" where
  "group_module =
  [sys ''delete_module'', sys ''finit_module'', sys_last ''init_module'']"

definition group_mount :: "group_item list" where
  "group_mount =
  [sys ''chroot'', sys ''fsconfig'', sys ''fsmount'', sys ''fsopen'', sys ''fspick'', sys ''mount'',
   sys ''move_mount'', sys ''open_tree'', sys ''pivot_root'', sys ''umount'', sys_last ''umount2'']"

definition group_network_io :: "group_item list" where
  "group_network_io =
  [sys ''accept'', sys ''accept4'', sys ''bind'', sys ''connect'', sys ''getpeername'',
   sys ''getsockname'', sys ''getsockopt'', sys ''listen'', sys ''recv'', sys ''recvfrom'',
   sys ''recvmmsg'', sys ''recvmsg'', sys ''send'', sys ''sendmmsg'', sys ''sendmsg'',
   sys ''sendto'', sys ''setsockopt'', sys ''shutdown'', sys ''socket'', sys ''socketcall'',
   sys_last ''socketpair'']"

definition group_obsolete :: "group_item list" where
  "group_obsolete =
  [sys ''_sysctl'', sys ''afs_syscall'', sys ''bdflush'', sys ''break'', sys ''create_module'',
   sys ''ftime'', sys ''get_kernel_syms'', sys ''getpmsg'', sys ''gtty'', sys ''idle'',
   sys ''lock'', sys ''mpx'', sys ''prof'', sys ''profil'', sys ''putpmsg'', sys ''query_module'',
   sys ''security'', sys ''sgetmask'', sys ''ssetmask'', sys ''stty'', sys ''sysfs'',
   sys ''tuxcall'', sys ''ulimit'', sys ''uselib'', sys ''ustat'', sys_last ''vserver'',
   (NoneDefined [''_sysctl'', ''afs_syscall'', ''bdflush'', ''break'', ''create_module'',
      ''ftime'', ''get_kernel_syms'', ''getpmsg'', ''gtty'', ''lock'', ''mpx'', ''prof'',
      ''profil'', ''putpmsg'', ''query_module'', ''security'', ''sgetmask'', ''ssetmask'',
      ''stty'', ''sysfs'', ''tuxcall'', ''ulimit'', ''uselib'', ''ustat'', ''vserver''],
      ''__dummy_syscall__'')]"

definition group_privileged :: "group_item list" where
  "group_privileged =
  [(Always, ''@chown,''), (Always, ''@clock,''), (Always, ''@module,''), (Always, ''@raw-io,''),
   (Always, ''@reboot,''), (Always, ''@swap,''), sys ''_sysctl'', sys ''acct'', sys ''bpf'',
   sys ''capset'', sys ''chroot'', sys ''fanotify_init'', sys ''mount'', sys ''nfsservctl'',
   sys ''open_by_handle_at'', sys ''pivot_root'', sys ''quotactl'', sys ''setdomainname'',
   sys ''setfsuid'', sys ''setfsuid32'', sys ''setgroups'', sys ''setgroups32'',
   sys ''sethostname'', sys ''setresuid'', sys ''setresuid32'', sys ''setreuid'',
   sys ''setreuid32'', sys ''setuid'', sys ''setuid32'', sys ''umount2'', sys_last ''vhangup'']"

definition group_process :: "group_item list" where
  "group_process =
  [sys ''arch_prctl'', sys ''capget'', sys ''clone'', sys ''clone3'', sys ''execveat'',
   sys ''fork'', sys ''getrusage'', sys ''kill'', sys ''pidfd_open'', sys ''pidfd_send_signal'',
   sys ''prctl'', sys ''rt_sigqueueinfo'', sys ''rt_tgsigqueueinfo'', sys ''setns'',
   sys ''swapcontext'', sys ''tgkill'', sys ''times'', sys ''tkill'', sys ''unshare'',
   sys ''vfork'', sys ''wait4'', sys ''waitid'', sys_last ''waitpid'']"

definition group_raw_io :: "group_item list" where
  "group_raw_io =
  [sys ''ioperm'', sys ''iopl'', sys ''pciconfig_iobase'', sys ''pciconfig_read'',
   sys ''pciconfig_write'', sys ''s390_pci_mmio_read'', sys_last ''s390_pci_mmio_write'',
   (NoneDefined [''ioperm'', ''iopl'', ''pciconfig_iobase'', ''pciconfig_read'',
      ''pciconfig_write'', ''s390_pci_mmio_read'', ''s390_pci_mmio_write''],
      ''__dummy_syscall__'')]"

definition group_reboot :: "group_item list" where
  "group_reboot =
  [sys ''kexec_load'', sys ''kexec_file_load'', sys ''reboot'']"

definition group_resources :: "group_item list" where
  "group_resources =
  [sys ''ioprio_set'', sys ''mbind'', sys ''migrate_pages'', sys ''move_pages'', sys ''nice'',
   sys ''sched_setaffinity'', sys ''sched_setattr'', sys ''sched_setparam'',
   sys ''sched_setscheduler'', sys_last ''set_mempolicy'']"

definition group_setuid :: "group_item list" where
  "group_setuid =
  [sys ''setgid'', sys ''setgid32'', sys ''setgroups'', sys ''setgroups32'', sys ''setregid'',
   sys ''setregid32'', sys ''setresgid'', sys ''setresgid32'', sys ''setresuid'',
   sys ''setresuid32'', sys ''setreuid'', sys ''setreuid32'', sys ''setuid'', sys_last ''setuid32'']"

definition group_signal :: "group_item list" where
  "group_signal =
  [sys ''rt_sigaction'', sys ''rt_sigpending'', sys ''rt_sigprocmask'', sys ''rt_sigsuspend'',
   sys ''rt_sigtimedwait'', sys ''sigaction'', sys ''sigaltstack'', sys ''signal'',
   sys ''signalfd'', sys ''signalfd4'', sys ''sigpending'', sys ''sigprocmask'',
   sys_last ''sigsuspend'']"

definition group_swap :: "group_item list" where
  "group_swap =
  [sys ''swapon'', sys_last ''swapoff'']"

definition group_sync :: "group_item list" where
  "group_sync =
  [sys ''fdatasync'', sys ''fsync'', sys ''msync'', sys ''sync'', sys ''sync_file_range'',
   sys ''sync_file_range2'', sys_last ''syncfs'']"

definition group_system_service_1 :: "group_item list" where
  "group_system_service_1 =
  [(Always, ''@aio,''), (Always, ''@basic-io,''), (Always, ''@chown,''), (Always, ''@default,''),
   (Always, ''@file-system,''), (Always, ''@io-event,''), (Always, ''@ipc,''),
   (Always, ''@keyring,''), (Always, ''@memlock,''), (Always, ''@network-io,''),
   (Always, ''@process,''), (Always, ''@resources,''), (Always, ''@setuid,''),
   (Always, ''@signal,''), (Always, ''@sync,''), (Always, ''@timer,''), sys ''brk'', sys ''capget'',
   sys ''capset'', sys ''copy_file_range'', sys ''fadvise64'', sys ''fadvise64_64'', sys ''flock'',
   sys ''get_mempolicy'', sys ''getcpu'', sys ''getpriority'', sys ''getrandom'', sys ''ioctl'',
   sys ''ioprio_get'', sys ''kcmp'', sys ''madvise'']"

definition group_system_service_2 :: "group_item list" where
  "group_system_service_2 =
  [sys ''mprotect'', sys ''mremap'', sys ''name_to_handle_at'', sys ''oldolduname'',
   sys ''olduname'', sys ''personality'', sys ''readahead'', sys ''readdir'',
   sys ''remap_file_pages'', sys ''sched_get_priority_max'', sys ''sched_get_priority_min'',
   sys ''sched_getaffinity'', sys ''sched_getattr'', sys ''sched_getparam'',
   sys ''sched_getscheduler'', sys ''sched_rr_get_interval'', sys ''sched_yield'', sys ''sendfile'',
   sys ''sendfile64'', sys ''setfsgid'', sys ''setfsgid32'', sys ''setfsuid'', sys ''setfsuid32'',
   sys ''setpgid'', sys ''setsid'', sys ''splice'', sys ''sysinfo'', sys ''tee'', sys ''umask'',
   sys ''uname'', sys ''userfaultfd'', sys_last ''vmsplice'']"

definition group_timer :: "group_item list" where
  "group_timer =
  [sys ''alarm'', sys ''getitimer'', sys ''setitimer'', sys ''timer_create'', sys ''timer_delete'',
   sys ''timer_getoverrun'', sys ''timer_gettime'', sys ''timer_settime'', sys ''timerfd_create'',
   sys ''timerfd_gettime'', sys ''timerfd_settime'', sys_last ''times'']"

definition sysgroups :: "(string \<times> group_item list) list" where
  "sysgroups =
  [(''@aio'', group_aio),
   (''@basic-io'', group_basic_io),
   (''@chown'', group_chown),
   (''@clock'', group_clock),
   (''@cpu-emulation'', group_cpu_emulation),
   (''@debug'', group_debug),
   (''@default'', group_default),
   (''@default-nodebuggers'', group_default_nodebuggers),
   (''@default-keep'', group_default_keep),
   (''@file-system'', group_file_system_1 @ group_file_system_2),
   (''@io-event'', group_io_event),
   (''@ipc'', group_ipc),
   (''@keyring'', group_keyring),
   (''@memlock'', group_memlock),
   (''@module'', group_module),
   (''@mount'', group_mount),
   (''@network-io'', group_network_io),
   (''@obsolete'', group_obsolete),
   (''@privileged'', group_privileged),
   (''@process'', group_process),
   (''@raw-io'', group_raw_io),
   (''@reboot'', group_reboot),
   (''@resources'', group_resources),
   (''@setuid'', group_setuid),
   (''@signal'', group_signal),
   (''@swap'', group_swap),
   (''@sync'', group_sync),
   (''@system-service'', group_system_service_1 @ group_system_service_2),
   (''@timer'', group_timer)]"

fun group_table_find :: "(string \<Rightarrow> bool) \<Rightarrow> (string \<times> group_item list) list \<Rightarrow> string \<Rightarrow> string option" where
  "group_table_find defd [] name = None"
| "group_table_find defd ((n, items) # t) name =
     (if name = n then Some (group_text defd items) else group_table_find defd t name)"

definition syscall_find_group :: "(string \<Rightarrow> bool) \<Rightarrow> string \<Rightarrow> string option" where
  "syscall_find_group defd name = group_table_find defd sysgroups name"

subsection \<open>The words of a group\<close>

definition item_word :: "string \<Rightarrow> string" where
  "item_word t = (if t \<noteq> [] \<and> last t = CHR '','' then butlast t else t)"

text \<open>
  An item ends with a comma, or it is the last one, or what follows it is there only where it is not.
\<close>

fun items_wf :: "group_item list \<Rightarrow> bool" where
  "items_wf [] \<longleftrightarrow> True"
| "items_wf ((g, t) # r) \<longleftrightarrow>
     item_word t \<noteq> [] \<and> CHR '','' \<notin> set (item_word t) \<and> items_wf r \<and>
     (item_word t \<noteq> t \<or> r = [] \<or>
      (case g of Defined n \<Rightarrow> list_all (\<lambda>(h, u). case h of NoneDefined ns \<Rightarrow> n \<in> set ns | _ \<Rightarrow> False) r
       | _ \<Rightarrow> False))"

lemma item_word_comma: "item_word t \<noteq> t \<Longrightarrow> t = item_word t @ '',''"
  by (auto simp: item_word_def split: if_splits) (metis append_butlast_last_id)

lemma group_text_excluded:
  "defd n \<Longrightarrow> list_all (\<lambda>(h, u). case h of NoneDefined ns \<Rightarrow> n \<in> set ns | _ \<Rightarrow> False) r \<Longrightarrow>
   filter (\<lambda>(g, t). guard_holds defd g) r = []"
  by (induction r) (auto simp: list_all_iff split: guard.splits)

lemma group_text_Cons:
  "group_text defd ((g, t) # r) =
     (if guard_holds defd g then t @ group_text defd r else group_text defd r)"
  by (simp add: group_text_def)

lemma strtok_group_text:
  "items_wf items \<Longrightarrow>
   strtok (CHR '','') (group_text defd items) =
   map (\<lambda>(g, t). item_word t) (filter (\<lambda>(g, t). guard_holds defd g) items)"
proof (induction items)
  case Nil
  then show ?case by (simp add: group_text_def)
next
  case (Cons i r)
  obtain g t where i: "i = (g, t)" by (cases i)
  let ?w = "item_word t"
  have w: "?w \<noteq> []" "CHR '','' \<notin> set ?w" and IH: "strtok (CHR '','') (group_text defd r) =
      map (\<lambda>(g, t). item_word t) (filter (\<lambda>(g, t). guard_holds defd g) r)"
    using Cons i by auto
  show ?case
  proof (cases "guard_holds defd g")
    case False
    with IH i show ?thesis by (simp add: group_text_def)
  next
    case g: True
    show ?thesis
    proof (cases "?w = t")
      case False
      then have "t = ?w @ '',''" by (rule item_word_comma)
      then have "t @ group_text defd r = ?w @ CHR '','' # group_text defd r"
        by (metis append.assoc append_Cons append_Nil)
      with g i have "group_text defd (i # r) = ?w @ CHR '','' # group_text defd r"
        by (simp add: group_text_Cons)
      with g i w IH show ?thesis by (simp add: strtok_word_sep)
    next
      case True
      have "filter (\<lambda>(g, t). guard_holds defd g) r = []"
        using Cons.prems g i True
        by (auto split: guard.splits dest: group_text_excluded [where defd = defd])
      with g i w True show ?thesis by (simp add: group_text_def strtok_word)
    qed
  qed
qed

lemmas group_defs =
  group_aio_def group_basic_io_def group_chown_def group_clock_def
  group_cpu_emulation_def group_debug_def group_default_def group_default_nodebuggers_def
  group_default_keep_def group_file_system_1_def group_file_system_2_def group_io_event_def
  group_ipc_def group_keyring_def group_memlock_def group_module_def
  group_mount_def group_network_io_def group_obsolete_def group_privileged_def
  group_process_def group_raw_io_def group_reboot_def group_resources_def
  group_setuid_def group_signal_def group_swap_def group_sync_def
  group_system_service_1_def group_system_service_2_def group_timer_def

fun word_ok :: "string \<Rightarrow> bool" where
  "word_ok [] \<longleftrightarrow> False"
| "word_ok [c] \<longleftrightarrow> c \<noteq> CHR '',''"
| "word_ok (c # s) \<longleftrightarrow> c \<noteq> CHR '','' \<and> word_ok s"

lemma word_ok_iff: "word_ok s \<longleftrightarrow> s \<noteq> [] \<and> CHR '','' \<notin> set s"
  by (induction s rule: word_ok.induct) auto

lemma item_word_sep [simp]: "item_word (s @ '','') = s"
  by (simp add: item_word_def)

lemma item_word_last: "word_ok s \<Longrightarrow> item_word s = s"
  by (auto simp: item_word_def word_ok_iff dest: last_in_set)

lemma items_wf_sys: "word_ok n \<Longrightarrow> items_wf (sys n # r) \<longleftrightarrow> items_wf r"
  by (simp add: sys_def word_ok_iff)

lemma items_wf_sys_last: "word_ok n \<Longrightarrow> items_wf [sys_last n]"
  by (simp add: sys_last_def item_word_last) (simp add: word_ok_iff)

lemma items_wf_sys_last_dummy:
  "word_ok n \<Longrightarrow> n \<in> set ns \<Longrightarrow> items_wf (sys_last n # [(NoneDefined ns, ''__dummy_syscall__'')])"
  by (simp add: sys_last_def item_word_last) (simp add: word_ok_iff)

lemma sysgroups_wf: "list_all (\<lambda>(n, items). items_wf items) sysgroups"
  by (simp add: sysgroups_def group_defs items_wf_sys items_wf_sys_last items_wf_sys_last_dummy
      item_word_def)

subsection \<open>References between groups are well-founded\<close>

text \<open>0 for a group without references, 1 for one that names only such groups, and so on.\<close>

definition group_rank :: "string \<Rightarrow> nat" where
  "group_rank n =
     (if n = ''@system-service'' \<or> n = ''@default-nodebuggers'' then 2
      else if n = ''@default'' \<or> n = ''@privileged'' then 1 else 0)"

definition is_group :: "string \<Rightarrow> bool" where
  "is_group t \<longleftrightarrow> t \<noteq> [] \<and> hd t = CHR ''@''"

definition refs_of :: "group_item list \<Rightarrow> string list" where
  "refs_of items = filter is_group (map (\<lambda>(g, t). item_word t) items)"

lemma refs_of_simps [simp]:
  "refs_of [] = []"
  "refs_of (sys n # r) = (if is_group n then n # refs_of r else refs_of r)"
  "word_ok n \<Longrightarrow> refs_of (sys_last n # r) = (if is_group n then n # refs_of r else refs_of r)"
  "refs_of ((g, t) # r) = (if is_group (item_word t) then item_word t # refs_of r else refs_of r)"
  by (simp_all add: refs_of_def sys_def sys_last_def item_word_last)

definition refs_ok :: "string \<times> group_item list \<Rightarrow> bool" where
  "refs_ok e = list_all (\<lambda>t. group_rank t < group_rank (fst e) \<and> t \<in> set (map fst sysgroups))
     (refs_of (snd e))"

lemma sysgroups_refs: "list_all refs_ok sysgroups"
  by (simp add: refs_ok_def sysgroups_def group_defs is_group_def item_word_def group_rank_def)

lemma group_table_find_Some:
  "group_table_find defd t name = Some l \<Longrightarrow> \<exists>items. (name, items) \<in> set t \<and> l = group_text defd items"
  by (induction t) (auto split: if_splits)

lemma group_table_find_ex:
  "name \<in> set (map fst t) \<Longrightarrow> group_table_find defd t name \<noteq> None"
  by (induction t) force+

lemma syscall_find_group_words:
  assumes "syscall_find_group defd name = Some l" and "t \<in> set (strtok (CHR '','') l)"
  shows "\<exists>items g u. (name, items) \<in> set sysgroups \<and> (g, u) \<in> set items \<and> guard_holds defd g \<and>
    t = item_word u"
proof -
  from assms(1) obtain items where i: "(name, items) \<in> set sysgroups" and l: "l = group_text defd items"
    unfolding syscall_find_group_def by (auto dest: group_table_find_Some)
  from i sysgroups_wf have "items_wf items" by (auto simp: list_all_iff)
  with assms(2) l have "t \<in> (\<lambda>(g, t). item_word t) ` {x \<in> set items. (\<lambda>(g, t). guard_holds defd g) x}"
    by (simp add: strtok_group_text)
  with i show ?thesis by auto
qed

lemma syscall_find_group_refs:
  assumes "syscall_find_group defd name = Some l" and "t \<in> set (strtok (CHR '','') l)" and "is_group t"
  shows "group_rank t < group_rank name" and "syscall_find_group defd t \<noteq> None"
proof -
  from syscall_find_group_words [OF assms(1,2)] obtain items g u where
    i: "(name, items) \<in> set sysgroups" "(g, u) \<in> set items" "t = item_word u" by blast
  with sysgroups_refs assms(3) have "group_rank t < group_rank name \<and> t \<in> set (map fst sysgroups)"
    by (fastforce simp: list_all_iff refs_ok_def refs_of_def)
  then show "group_rank t < group_rank name" and "syscall_find_group defd t \<noteq> None"
    by (simp_all add: syscall_find_group_def group_table_find_ex del: set_map)
qed

lemma group_rank_le: "group_rank n \<le> 2"
  by (simp add: group_rank_def)

end
