(* ===== verification/Errno_Table.thy ===== *)
theory Errno_Table
  imports Firejail_Prelude
begin

text \<open>
  The error number table \<open>errnolist\<close> of \<open>lib/errno.c\<close> with the values that \<open>errno.h\<close> gives the
  names on x86-64 Linux (where \<open>ENOATTR\<close> is not defined), and its two lookups. Names are compared
  without regard to case. Three names are aliases of earlier ones, so a number is printed with the
  first name it has, and reading that name back gives the number again.
\<close>

type_synonym ErrnoEntry = "string \<times> int"

definition errnolist :: "ErrnoEntry list" where
  "errnolist =
  [(''EPERM'', 1), (''ENOENT'', 2), (''ESRCH'', 3), (''EINTR'', 4), (''EIO'', 5), (''ENXIO'', 6),
   (''E2BIG'', 7), (''ENOEXEC'', 8), (''EBADF'', 9), (''ECHILD'', 10), (''EAGAIN'', 11),
   (''ENOMEM'', 12), (''EACCES'', 13), (''EFAULT'', 14), (''ENOTBLK'', 15), (''EBUSY'', 16),
   (''EEXIST'', 17), (''EXDEV'', 18), (''ENODEV'', 19), (''ENOTDIR'', 20), (''EISDIR'', 21),
   (''EINVAL'', 22), (''ENFILE'', 23), (''EMFILE'', 24), (''ENOTTY'', 25), (''ETXTBSY'', 26),
   (''EFBIG'', 27), (''ENOSPC'', 28), (''ESPIPE'', 29), (''EROFS'', 30), (''EMLINK'', 31),
   (''EPIPE'', 32), (''EDOM'', 33), (''ERANGE'', 34), (''EDEADLK'', 35), (''ENAMETOOLONG'', 36),
   (''ENOLCK'', 37), (''ENOSYS'', 38), (''ENOTEMPTY'', 39), (''ELOOP'', 40), (''EWOULDBLOCK'', 11),
   (''ENOMSG'', 42), (''EIDRM'', 43), (''ECHRNG'', 44), (''EL2NSYNC'', 45), (''EL3HLT'', 46),
   (''EL3RST'', 47), (''ELNRNG'', 48), (''EUNATCH'', 49), (''ENOCSI'', 50), (''EL2HLT'', 51),
   (''EBADE'', 52), (''EBADR'', 53), (''EXFULL'', 54), (''ENOANO'', 55), (''EBADRQC'', 56),
   (''EBADSLT'', 57), (''EDEADLOCK'', 35), (''EBFONT'', 59), (''ENOSTR'', 60), (''ENODATA'', 61),
   (''ETIME'', 62), (''ENOSR'', 63), (''ENONET'', 64), (''ENOPKG'', 65), (''EREMOTE'', 66),
   (''ENOLINK'', 67), (''EADV'', 68), (''ESRMNT'', 69), (''ECOMM'', 70), (''EPROTO'', 71),
   (''EMULTIHOP'', 72), (''EDOTDOT'', 73), (''EBADMSG'', 74), (''EOVERFLOW'', 75),
   (''ENOTUNIQ'', 76), (''EBADFD'', 77), (''EREMCHG'', 78), (''ELIBACC'', 79), (''ELIBBAD'', 80),
   (''ELIBSCN'', 81), (''ELIBMAX'', 82), (''ELIBEXEC'', 83), (''EILSEQ'', 84), (''ERESTART'', 85),
   (''ESTRPIPE'', 86), (''EUSERS'', 87), (''ENOTSOCK'', 88), (''EDESTADDRREQ'', 89),
   (''EMSGSIZE'', 90), (''EPROTOTYPE'', 91), (''ENOPROTOOPT'', 92), (''EPROTONOSUPPORT'', 93),
   (''ESOCKTNOSUPPORT'', 94), (''EOPNOTSUPP'', 95), (''EPFNOSUPPORT'', 96), (''EAFNOSUPPORT'', 97),
   (''EADDRINUSE'', 98), (''EADDRNOTAVAIL'', 99), (''ENETDOWN'', 100), (''ENETUNREACH'', 101),
   (''ENETRESET'', 102), (''ECONNABORTED'', 103), (''ECONNRESET'', 104), (''ENOBUFS'', 105),
   (''EISCONN'', 106), (''ENOTCONN'', 107), (''ESHUTDOWN'', 108), (''ETOOMANYREFS'', 109),
   (''ETIMEDOUT'', 110), (''ECONNREFUSED'', 111), (''EHOSTDOWN'', 112), (''EHOSTUNREACH'', 113),
   (''EALREADY'', 114), (''EINPROGRESS'', 115), (''ESTALE'', 116), (''EUCLEAN'', 117),
   (''ENOTNAM'', 118), (''ENAVAIL'', 119), (''EISNAM'', 120), (''EREMOTEIO'', 121),
   (''EDQUOT'', 122), (''ENOMEDIUM'', 123), (''EMEDIUMTYPE'', 124), (''ECANCELED'', 125),
   (''ENOKEY'', 126), (''EKEYEXPIRED'', 127), (''EKEYREVOKED'', 128), (''EKEYREJECTED'', 129),
   (''EOWNERDEAD'', 130), (''ENOTRECOVERABLE'', 131), (''ERFKILL'', 132), (''EHWPOISON'', 133),
   (''ENOTSUP'', 95)]"

fun errno_table_find_name :: "ErrnoEntry list \<Rightarrow> string \<Rightarrow> int" where
  "errno_table_find_name [] name = -1"
| "errno_table_find_name ((n, nr) # t) name =
     (if strcaseeq name n then nr else errno_table_find_name t name)"

fun errno_table_find_nr :: "ErrnoEntry list \<Rightarrow> int \<Rightarrow> string" where
  "errno_table_find_nr [] nr = ''unknown''"
| "errno_table_find_nr ((n, m) # t) nr = (if nr = m then n else errno_table_find_nr t nr)"

definition errno_find_name :: "string \<Rightarrow> int" where
  "errno_find_name name = errno_table_find_name errnolist name"

definition errno_find_nr :: "int \<Rightarrow> string" where
  "errno_find_nr nr = errno_table_find_nr errnolist nr"

lemma errno_table_find_name_entry:
  "distinct (map (\<lambda>(n, k). map c_tolower n) t) \<Longrightarrow> (n, k) \<in> set t \<Longrightarrow> strcaseeq m n \<Longrightarrow>
   errno_table_find_name t m = k"
  by (induction t) (force simp: strcaseeq_def split: if_splits)+

lemma errno_table_find_name_cases:
  "errno_table_find_name t m = -1 \<or>
   (\<exists>n. (n, errno_table_find_name t m) \<in> set t \<and> strcaseeq m n)"
proof (induction t)
  case (Cons e t)
  obtain a b where "e = (a, b)" by (cases e)
  with Cons show ?case by (cases "strcaseeq m a") auto
qed simp

lemma errno_table_find_nr_entry: "(n, k) \<in> set t \<Longrightarrow> (errno_table_find_nr t k, k) \<in> set t"
  by (induction t) (auto split: if_splits)

lemma errnolist_names: "distinct (map (\<lambda>(n, k). map c_tolower n) errnolist)"
proof (rule names_ascending_distinct)
  show "names_ascending (map (\<lambda>(n, k). map c_tolower n) errnolist)" by code_simp
qed

lemma errnolist_range: "list_all (\<lambda>(n, k). 1 \<le> k \<and> k \<le> 133) errnolist"
  by code_simp

lemma errno_not_kill: "list_all (\<lambda>e. fst e \<noteq> ''kill'') errnolist"
  by (simp only: errnolist_def list.pred_inject fst_conv list.inject char.inject list.distinct
      simp_thms)

lemma errno_find_name_range:
  "errno_find_name m = -1 \<or> (1 \<le> errno_find_name m \<and> errno_find_name m \<le> 133)"
  using errno_table_find_name_cases [of errnolist m] errnolist_range
  by (auto simp: errno_find_name_def list_all_iff)

lemma errno_find_name_entry: "(n, k) \<in> set errnolist \<Longrightarrow> strcaseeq m n \<Longrightarrow> errno_find_name m = k"
  unfolding errno_find_name_def by (rule errno_table_find_name_entry [OF errnolist_names])

lemma errno_find_nr_entry: "(n, k) \<in> set errnolist \<Longrightarrow> (errno_find_nr k, k) \<in> set errnolist"
  unfolding errno_find_nr_def by (rule errno_table_find_nr_entry)

lemma errno_pos: "v \<in> snd ` set errnolist \<Longrightarrow> 1 \<le> v \<and> (errno_find_nr v, v) \<in> set errnolist"
  using errnolist_range by (auto simp: list_all_iff intro: errno_find_nr_entry)

text \<open>
  The error number of every entry is printed as a name that is read back as the same number,
  aliases included, and names are found whatever their case.
\<close>

theorem errno_find_roundtrip:
  assumes "(n, k) \<in> set errnolist"
  shows "errno_find_name (errno_find_nr k) = k \<and> (strcaseeq m n \<longrightarrow> errno_find_name m = k)"
  using assms errno_find_name_entry errno_find_nr_entry [OF assms] by simp

theorem errno_find_roundtrip_witness:
  "errno_find_name (errno_find_nr 11) = 11 \<and> errno_find_name ''eWouldBlock'' = 11"
proof -
  have "(''EWOULDBLOCK'', 11) \<in> set errnolist" by (simp add: errnolist_def)
  from errno_find_roundtrip [OF this, of "''eWouldBlock''"] show ?thesis
    by (simp add: strcaseeq_def)
qed

end
