(* ===== verification/Bpf.thy ===== *)
theory Bpf
  imports Firejail_Prelude
begin

text \<open>
  The filter instructions of \<open>include/seccomp.h\<close>: \<open>struct sock_filter\<close>, the statement macros, and
  the macros that expand to several statements, as lists. The constants are those of the Linux
  headers for an x86-64 build (\<open>linux/filter.h\<close>, \<open>linux/seccomp.h\<close>, \<open>linux/audit.h\<close>).

  The kernel runs the filters. Its interpreter is not part of the repository, so it is a parameter:
  the locale \<open>bpf_vm\<close> fixes it as a function of the instructions that are still to run, the system
  call data and the accumulator, and assumes the documented effect of each instruction that firejail
  emits. Classic BPF jumps forward only, so the rest of the program is all the control state there
  is. \<open>bpf_run\<close> is an executable interpreter that satisfies the locale.
\<close>

subsection \<open>Constants of the system headers\<close>

abbreviation BPF_LD :: u16 where "BPF_LD \<equiv> 0x00"
abbreviation BPF_ALU :: u16 where "BPF_ALU \<equiv> 0x04"
abbreviation BPF_JMP :: u16 where "BPF_JMP \<equiv> 0x05"
abbreviation BPF_RET :: u16 where "BPF_RET \<equiv> 0x06"
abbreviation BPF_W :: u16 where "BPF_W \<equiv> 0x00"
abbreviation BPF_ABS :: u16 where "BPF_ABS \<equiv> 0x20"
abbreviation BPF_AND :: u16 where "BPF_AND \<equiv> 0x50"
abbreviation BPF_JA :: u16 where "BPF_JA \<equiv> 0x00"
abbreviation BPF_JEQ :: u16 where "BPF_JEQ \<equiv> 0x10"
abbreviation BPF_JGE :: u16 where "BPF_JGE \<equiv> 0x30"
abbreviation BPF_JSET :: u16 where "BPF_JSET \<equiv> 0x40"
abbreviation BPF_K :: u16 where "BPF_K \<equiv> 0x00"

abbreviation SECCOMP_RET_KILL :: u32 where "SECCOMP_RET_KILL \<equiv> 0x00000000"
abbreviation SECCOMP_RET_TRAP :: u32 where "SECCOMP_RET_TRAP \<equiv> 0x00030000"
abbreviation SECCOMP_RET_ERRNO :: u32 where "SECCOMP_RET_ERRNO \<equiv> 0x00050000"
abbreviation SECCOMP_RET_TRACE :: u32 where "SECCOMP_RET_TRACE \<equiv> 0x7ff00000"
abbreviation SECCOMP_RET_LOG :: u32 where "SECCOMP_RET_LOG \<equiv> 0x7ffc0000"
abbreviation SECCOMP_RET_ALLOW :: u32 where "SECCOMP_RET_ALLOW \<equiv> 0x7fff0000"

abbreviation AUDIT_ARCH_I386 :: u32 where "AUDIT_ARCH_I386 \<equiv> 0x40000003"
abbreviation AUDIT_ARCH_X86_64 :: u32 where "AUDIT_ARCH_X86_64 \<equiv> 0xC000003E"

subsection \<open>The macros of \<open>include/seccomp.h\<close>\<close>

record sock_filter =
  bpf_code :: u16
  bpf_jt :: u8
  bpf_jf :: u8
  bpf_k :: u32

definition BPF_STMT :: "u16 \<Rightarrow> u32 \<Rightarrow> sock_filter" where
  "BPF_STMT c v = \<lparr>bpf_code = c, bpf_jt = 0, bpf_jf = 0, bpf_k = v\<rparr>"

definition BPF_JUMP :: "u16 \<Rightarrow> u32 \<Rightarrow> u8 \<Rightarrow> u8 \<Rightarrow> sock_filter" where
  "BPF_JUMP c v t f = \<lparr>bpf_code = c, bpf_jt = t, bpf_jf = f, bpf_k = v\<rparr>"

definition ARCH_NR :: u32 where "ARCH_NR = AUDIT_ARCH_X86_64"
definition ARCH_32 :: u32 where "ARCH_32 = AUDIT_ARCH_I386"
definition ARCH_64 :: u32 where "ARCH_64 = AUDIT_ARCH_X86_64"
definition X32_SYSCALL_BIT :: u32 where "X32_SYSCALL_BIT = 0x40000000"

text \<open>\<open>offsetof(struct seccomp_data, \<dots>)\<close>: \<open>int nr; u32 arch; u64 instruction_pointer; u64 args[6]\<close>.\<close>

definition off_nr :: u32 where "off_nr = 0"
definition off_arch :: u32 where "off_arch = 4"
definition off_ip :: u32 where "off_ip = 8"
definition off_arg :: "nat \<Rightarrow> u32" where "off_arg n = of_nat (16 + 8 * n)"

definition KILL_OR_RETURN_ERRNO :: "u32 \<Rightarrow> sock_filter list" where
  "KILL_OR_RETURN_ERRNO action = [BPF_STMT (BPF_RET + BPF_K) action]"

definition RETURN_ALLOW :: "sock_filter list" where
  "RETURN_ALLOW = [BPF_STMT (BPF_RET + BPF_K) SECCOMP_RET_ALLOW]"

definition RETURN_ERRNO :: "u32 \<Rightarrow> sock_filter list" where
  "RETURN_ERRNO nr = [BPF_STMT (BPF_RET + BPF_K) (SECCOMP_RET_ERRNO OR nr)]"

definition VALIDATE_ARCHITECTURE :: "sock_filter list" where
  "VALIDATE_ARCHITECTURE =
     [BPF_STMT (BPF_LD + BPF_W + BPF_ABS) off_arch,
      BPF_JUMP (BPF_JMP + BPF_JEQ + BPF_K) ARCH_NR 1 0,
      BPF_STMT (BPF_RET + BPF_K) SECCOMP_RET_ALLOW]"

definition VALIDATE_ARCHITECTURE_KILL :: "u32 \<Rightarrow> sock_filter list" where
  "VALIDATE_ARCHITECTURE_KILL action =
     [BPF_STMT (BPF_LD + BPF_W + BPF_ABS) off_arch,
      BPF_JUMP (BPF_JMP + BPF_JEQ + BPF_K) ARCH_NR 1 0] @ KILL_OR_RETURN_ERRNO action"

definition VALIDATE_ARCHITECTURE_32 :: "sock_filter list" where
  "VALIDATE_ARCHITECTURE_32 =
     [BPF_STMT (BPF_LD + BPF_W + BPF_ABS) off_arch,
      BPF_JUMP (BPF_JMP + BPF_JEQ + BPF_K) ARCH_32 1 0,
      BPF_STMT (BPF_RET + BPF_K) SECCOMP_RET_ALLOW]"

definition HANDLE_X32 :: "u32 \<Rightarrow> sock_filter list" where
  "HANDLE_X32 action =
     [BPF_JUMP (BPF_JMP + BPF_JGE + BPF_K) X32_SYSCALL_BIT 1 0,
      BPF_JUMP (BPF_JMP + BPF_JGE + BPF_K) 0 1 0] @ KILL_OR_RETURN_ERRNO action"

definition EXAMINE_SYSCALL :: "sock_filter list" where
  "EXAMINE_SYSCALL = [BPF_STMT (BPF_LD + BPF_W + BPF_ABS) off_nr]"

definition EXAMINE_ARGUMENT :: "nat \<Rightarrow> sock_filter list" where
  "EXAMINE_ARGUMENT nr = [BPF_STMT (BPF_LD + BPF_W + BPF_ABS) (off_arg nr)]"

definition ONLY :: "u32 \<Rightarrow> sock_filter list" where
  "ONLY syscall_nr =
     [BPF_JUMP (BPF_JMP + BPF_JEQ + BPF_K) syscall_nr 1 0,
      BPF_STMT (BPF_RET + BPF_K) SECCOMP_RET_ALLOW]"

definition BLACKLIST :: "u32 \<Rightarrow> u32 \<Rightarrow> sock_filter list" where
  "BLACKLIST action syscall_nr =
     BPF_JUMP (BPF_JMP + BPF_JEQ + BPF_K) syscall_nr 0 1 # KILL_OR_RETURN_ERRNO action"

definition WHITELIST :: "u32 \<Rightarrow> sock_filter list" where
  "WHITELIST syscall_nr =
     [BPF_JUMP (BPF_JMP + BPF_JEQ + BPF_K) syscall_nr 0 1,
      BPF_STMT (BPF_RET + BPF_K) SECCOMP_RET_ALLOW]"

definition BLACKLIST_ERRNO :: "u32 \<Rightarrow> u32 \<Rightarrow> sock_filter list" where
  "BLACKLIST_ERRNO syscall_nr nr =
     [BPF_JUMP (BPF_JMP + BPF_JEQ + BPF_K) syscall_nr 0 1,
      BPF_STMT (BPF_RET + BPF_K) (SECCOMP_RET_ERRNO OR nr)]"

subsection \<open>The data a filter looks at\<close>

record seccomp_data =
  sd_nr :: u32
  sd_arch :: u32
  sd_ip :: u64
  sd_args :: "nat \<Rightarrow> u64"

definition lo32 :: "u64 \<Rightarrow> u32" where "lo32 w = ucast w"
definition hi32 :: "u64 \<Rightarrow> u32" where "hi32 w = ucast (drop_bit 32 w)"

text \<open>The 32 bit word at an offset of the structure, on a little-endian machine.\<close>

definition sd_load :: "seccomp_data \<Rightarrow> u32 \<Rightarrow> u32 option" where
  "sd_load d off =
     (let o4 = unat off in
      if o4 mod 4 \<noteq> 0 \<or> 64 \<le> o4 then None
      else if o4 = 0 then Some (sd_nr d)
      else if o4 = 4 then Some (sd_arch d)
      else if o4 = 8 then Some (lo32 (sd_ip d))
      else if o4 = 12 then Some (hi32 (sd_ip d))
      else (let j = (o4 - 16) div 4; w = sd_args d (j div 2) in
            Some (if even j then lo32 w else hi32 w)))"

lemma sd_load_nr [simp]: "sd_load d off_nr = Some (sd_nr d)"
  by (simp add: sd_load_def off_nr_def)

lemma sd_load_arch [simp]: "sd_load d off_arch = Some (sd_arch d)"
  by (simp add: sd_load_def off_arch_def)

lemma less_6_cases: "n < 6 \<Longrightarrow> n = 0 \<or> n = 1 \<or> n = 2 \<or> n = 3 \<or> n = 4 \<or> n = (5::nat)"
  by arith

lemma sd_load_arg: "n < 6 \<Longrightarrow> sd_load d (off_arg n) = Some (lo32 (sd_args d n))"
  by (drule less_6_cases) (auto simp: sd_load_def off_arg_def Let_def)

lemma sd_load_arg_hi: "n < 6 \<Longrightarrow> sd_load d (off_arg n + 4) = Some (hi32 (sd_args d n))"
  by (drule less_6_cases) (auto simp: sd_load_def off_arg_def Let_def)

subsection \<open>The interpreter as an interface\<close>

locale bpf_vm =
  fixes run :: "sock_filter list \<Rightarrow> seccomp_data \<Rightarrow> u32 \<Rightarrow> u32"
  assumes ret_k: "bpf_code i = BPF_RET + BPF_K \<Longrightarrow> run (i # p) d a = bpf_k i"
    and ld_abs: "bpf_code i = BPF_LD + BPF_W + BPF_ABS \<Longrightarrow> sd_load d (bpf_k i) = Some v \<Longrightarrow>
      run (i # p) d a = run p d v"
    and jeq_k: "bpf_code i = BPF_JMP + BPF_JEQ + BPF_K \<Longrightarrow>
      run (i # p) d a = run (drop (unat (if a = bpf_k i then bpf_jt i else bpf_jf i)) p) d a"
    and jge_k: "bpf_code i = BPF_JMP + BPF_JGE + BPF_K \<Longrightarrow>
      run (i # p) d a = run (drop (unat (if bpf_k i \<le> a then bpf_jt i else bpf_jf i)) p) d a"
    and jset_k: "bpf_code i = BPF_JMP + BPF_JSET + BPF_K \<Longrightarrow>
      run (i # p) d a = run (drop (unat (if a AND bpf_k i \<noteq> 0 then bpf_jt i else bpf_jf i)) p) d a"
    and ja_k: "bpf_code i = BPF_JMP + BPF_JA + BPF_K \<Longrightarrow>
      run (i # p) d a = run (drop (unat (bpf_k i)) p) d a"
    and and_k: "bpf_code i = BPF_ALU + BPF_AND + BPF_K \<Longrightarrow>
      run (i # p) d a = run p d (a AND bpf_k i)"
begin

text \<open>The laws on the instructions the statement macros build.\<close>

lemma run_ret: "run (BPF_STMT (BPF_RET + BPF_K) v # p) d a = v"
  by (subst ret_k) (simp_all add: BPF_STMT_def)

lemma run_ld: "sd_load d off = Some v \<Longrightarrow>
    run (BPF_STMT (BPF_LD + BPF_W + BPF_ABS) off # p) d a = run p d v"
  by (subst ld_abs [where v = v]) (simp_all add: BPF_STMT_def)

lemma run_and: "run (BPF_STMT (BPF_ALU + BPF_AND + BPF_K) v # p) d a = run p d (a AND v)"
  by (subst and_k) (simp_all add: BPF_STMT_def)

lemma run_jeq: "run (BPF_JUMP (BPF_JMP + BPF_JEQ + BPF_K) v t f # p) d a =
    (if a = v then run (drop (unat t) p) d a else run (drop (unat f) p) d a)"
  by (subst jeq_k) (simp_all add: BPF_JUMP_def)

lemma run_jge: "run (BPF_JUMP (BPF_JMP + BPF_JGE + BPF_K) v t f # p) d a =
    (if v \<le> a then run (drop (unat t) p) d a else run (drop (unat f) p) d a)"
  by (subst jge_k) (simp_all add: BPF_JUMP_def)

lemma run_jset: "run (BPF_JUMP (BPF_JMP + BPF_JSET + BPF_K) v t f # p) d a =
    (if a AND v \<noteq> 0 then run (drop (unat t) p) d a else run (drop (unat f) p) d a)"
  by (subst jset_k) (simp_all add: BPF_JUMP_def)

lemma run_ja: "run (BPF_JUMP (BPF_JMP + BPF_JA + BPF_K) v t f # p) d a = run (drop (unat v) p) d a"
  by (subst ja_k) (simp_all add: BPF_JUMP_def)

lemmas run_stmt [simp] =
  run_ret [simplified] run_and [simplified] run_jeq [simplified] run_jge [simplified]
  run_jset [simplified] run_ja [simplified] run_ld [simplified]

text \<open>The macros of several statements.\<close>

lemma run_examine_syscall [simp]: "run (EXAMINE_SYSCALL @ p) d a = run p d (sd_nr d)"
  by (simp add: EXAMINE_SYSCALL_def)

lemma run_examine_argument [simp]:
  "n < 6 \<Longrightarrow> run (EXAMINE_ARGUMENT n @ p) d a = run p d (lo32 (sd_args d n))"
  by (simp add: EXAMINE_ARGUMENT_def sd_load_arg)

lemma run_return_allow [simp]: "run (RETURN_ALLOW @ p) d a = SECCOMP_RET_ALLOW"
  by (simp add: RETURN_ALLOW_def)

lemma run_kill_or_return_errno [simp]: "run (KILL_OR_RETURN_ERRNO act @ p) d a = act"
  by (simp add: KILL_OR_RETURN_ERRNO_def)

lemma run_return_errno [simp]: "run (RETURN_ERRNO e @ p) d a = SECCOMP_RET_ERRNO OR e"
  by (simp add: RETURN_ERRNO_def)

lemma run_at_end [simp]:
  "run RETURN_ALLOW d a = SECCOMP_RET_ALLOW"
  "run (KILL_OR_RETURN_ERRNO act) d a = act"
  "run (RETURN_ERRNO e) d a = SECCOMP_RET_ERRNO OR e"
  by (simp_all add: RETURN_ALLOW_def KILL_OR_RETURN_ERRNO_def RETURN_ERRNO_def)

lemma run_validate_architecture [simp]:
  "run (VALIDATE_ARCHITECTURE @ p) d a =
     (if sd_arch d = ARCH_NR then run p d (sd_arch d) else SECCOMP_RET_ALLOW)"
  by (simp add: VALIDATE_ARCHITECTURE_def)

lemma run_validate_architecture_kill [simp]:
  "run (VALIDATE_ARCHITECTURE_KILL act @ p) d a =
     (if sd_arch d = ARCH_NR then run p d (sd_arch d) else act)"
  by (simp add: VALIDATE_ARCHITECTURE_KILL_def KILL_OR_RETURN_ERRNO_def)

lemma run_validate_architecture_32 [simp]:
  "run (VALIDATE_ARCHITECTURE_32 @ p) d a =
     (if sd_arch d = ARCH_32 then run p d (sd_arch d) else SECCOMP_RET_ALLOW)"
  by (simp add: VALIDATE_ARCHITECTURE_32_def)

lemma run_handle_x32 [simp]:
  "run (HANDLE_X32 act @ p) d a = (if X32_SYSCALL_BIT \<le> a then act else run p d a)"
  by (simp add: HANDLE_X32_def KILL_OR_RETURN_ERRNO_def)

lemma run_only [simp]:
  "run (ONLY n @ p) d a = (if a = n then run p d a else SECCOMP_RET_ALLOW)"
  by (simp add: ONLY_def)

lemma run_blacklist [simp]:
  "run (BLACKLIST act n @ p) d a = (if a = n then act else run p d a)"
  by (simp add: BLACKLIST_def KILL_OR_RETURN_ERRNO_def)

lemma run_whitelist [simp]:
  "run (WHITELIST n @ p) d a = (if a = n then SECCOMP_RET_ALLOW else run p d a)"
  by (simp add: WHITELIST_def)

lemma run_blacklist_errno [simp]:
  "run (BLACKLIST_ERRNO n e @ p) d a = (if a = n then SECCOMP_RET_ERRNO OR e else run p d a)"
  by (simp add: BLACKLIST_ERRNO_def)

end

subsection \<open>An executable interpreter\<close>

text \<open>
  One step per instruction; a jump drops the instructions it passes over. A program that runs off its
  end or meets another instruction is killed, which the kernel's verifier rules out before loading.
\<close>

function bpf_run :: "sock_filter list \<Rightarrow> seccomp_data \<Rightarrow> u32 \<Rightarrow> u32" where
  "bpf_run [] d a = SECCOMP_RET_KILL"
| "bpf_run (i # p) d a =
     (if bpf_code i = BPF_RET + BPF_K then bpf_k i
      else if bpf_code i = BPF_LD + BPF_W + BPF_ABS then
        (case sd_load d (bpf_k i) of None \<Rightarrow> SECCOMP_RET_KILL | Some v \<Rightarrow> bpf_run p d v)
      else if bpf_code i = BPF_JMP + BPF_JEQ + BPF_K then
        bpf_run (drop (unat (if a = bpf_k i then bpf_jt i else bpf_jf i)) p) d a
      else if bpf_code i = BPF_JMP + BPF_JGE + BPF_K then
        bpf_run (drop (unat (if bpf_k i \<le> a then bpf_jt i else bpf_jf i)) p) d a
      else if bpf_code i = BPF_JMP + BPF_JSET + BPF_K then
        bpf_run (drop (unat (if a AND bpf_k i \<noteq> 0 then bpf_jt i else bpf_jf i)) p) d a
      else if bpf_code i = BPF_JMP + BPF_JA + BPF_K then
        bpf_run (drop (unat (bpf_k i)) p) d a
      else if bpf_code i = BPF_ALU + BPF_AND + BPF_K then bpf_run p d (a AND bpf_k i)
      else SECCOMP_RET_KILL)"
  by pat_completeness auto
termination
  by (relation "measure (\<lambda>(p, d, a). length p)") auto

interpretation ref_vm: bpf_vm bpf_run
  by unfold_locales simp_all

end
