(* ===== verification/Seccomp_File.thy ===== *)
theory Seccomp_File
  imports Bpf
begin

text \<open>
  \<open>fseccomp/seccomp_file.c\<close>: the loop that writes a block to the filter file, and the functions that
  append instructions for one system call. The state carries what has been written to the file behind
  the descriptor and the structure that \<open>lib/syscall.c\<close> passes through its \<open>void *ptrarg\<close>.

  A pair of a system call number and a verdict is called a rule; every function of the file appends
  rules, and the interpreter runs a list of rules as an association list: the first rule for the
  number decides.
\<close>

record SyscallCheckList =
  cl_slist :: string
  cl_prelist :: "string option"
  cl_postlist :: "string option"
  cl_found :: bool
  cl_syscall :: int

record fstate =
  fd_out :: "sock_filter list"
  ptrarg :: SyscallCheckList

definition emit :: "sock_filter list \<Rightarrow> fstate \<Rightarrow> fstate" where
  "emit block st = st\<lparr>fd_out := fd_out st @ block\<rparr>"

subsection \<open>Writing a block\<close>

text \<open>
  \<open>write_to_file\<close>: the results of the successive \<open>write\<close> calls are the list \<open>rvs\<close>; a call that returns
  \<open>rv\<close> has appended the next \<open>rv\<close> bytes of the block to the file.
\<close>

fun write_to_file :: "int list \<Rightarrow> 'a list \<Rightarrow> nat \<Rightarrow> 'a list \<Rightarrow> 'a list result" where
  "write_to_file rvs data written fl =
     (if length data \<le> written then Inr fl
      else (case rvs of
              [] \<Rightarrow> Inl OutOfFuel
            | rv # rest \<Rightarrow>
                if rv = -1 then Inl CannotWrite
                else write_to_file rest data (written + nat rv)
                       (fl @ take (nat rv) (drop written data))))"

declare write_to_file.simps [simp del]

subsection \<open>The functions of the file\<close>

type_synonym filter_fn = "int \<Rightarrow> int \<Rightarrow> int \<Rightarrow> bool \<Rightarrow> fstate \<Rightarrow> fstate result"

definition filter_init :: "u32 \<Rightarrow> bool \<Rightarrow> fstate \<Rightarrow> fstate" where
  "filter_init action native st =
     (if native then emit (VALIDATE_ARCHITECTURE @ EXAMINE_SYSCALL @ HANDLE_X32 action) st
      else emit (VALIDATE_ARCHITECTURE_32 @ EXAMINE_SYSCALL) st)"

definition write_whitelist :: "int \<Rightarrow> fstate \<Rightarrow> fstate" where
  "write_whitelist syscall = emit (WHITELIST (word_of_int syscall))"

definition write_blacklist :: "u32 \<Rightarrow> int \<Rightarrow> fstate \<Rightarrow> fstate" where
  "write_blacklist action syscall = emit (BLACKLIST action (word_of_int syscall))"

definition filter_add_whitelist :: filter_fn where
  "filter_add_whitelist fd syscall arg native st =
     Inr (if syscall \<ge> 0 then write_whitelist syscall st else st)"

definition filter_add_whitelist_for_excluded :: filter_fn where
  "filter_add_whitelist_for_excluded fd syscall arg native st =
     Inr (if syscall < 0 then write_whitelist (c_int (- syscall)) st else st)"

definition filter_add_blacklist :: "u32 \<Rightarrow> filter_fn" where
  "filter_add_blacklist action fd syscall arg native st =
     Inr (if syscall \<ge> 0 then write_blacklist action syscall st else st)"

definition filter_add_blacklist_override :: filter_fn where
  "filter_add_blacklist_override fd syscall arg native st =
     Inr (if syscall \<ge> 0 then write_blacklist SECCOMP_RET_KILL syscall st else st)"

definition filter_add_blacklist_for_excluded :: "u32 \<Rightarrow> filter_fn" where
  "filter_add_blacklist_for_excluded action fd syscall arg native st =
     Inr (if syscall < 0 then write_blacklist action (c_int (- syscall)) st else st)"

definition filter_add_errno :: filter_fn where
  "filter_add_errno fd syscall arg native st =
     Inr (emit (BLACKLIST_ERRNO (word_of_int syscall) (word_of_int arg)) st)"

definition filter_end_blacklist :: "fstate \<Rightarrow> fstate" where
  "filter_end_blacklist = emit RETURN_ALLOW"

definition filter_end_whitelist :: "u32 \<Rightarrow> fstate \<Rightarrow> fstate" where
  "filter_end_whitelist action = emit (KILL_OR_RETURN_ERRNO action)"

subsection \<open>Rules\<close>

type_synonym rule = "u32 \<times> u32"

definition rule_code :: "rule \<Rightarrow> sock_filter list" where
  "rule_code r = [BPF_JUMP (BPF_JMP + BPF_JEQ + BPF_K) (fst r) 0 1, BPF_STMT (BPF_RET + BPF_K) (snd r)]"

definition rules_code :: "rule list \<Rightarrow> sock_filter list" where
  "rules_code rs = concat (map rule_code rs)"

definition add_rules :: "rule list \<Rightarrow> fstate \<Rightarrow> fstate" where
  "add_rules rs = emit (rules_code rs)"

definition init_code :: "u32 \<Rightarrow> bool \<Rightarrow> sock_filter list" where
  "init_code action native =
     (if native then VALIDATE_ARCHITECTURE @ EXAMINE_SYSCALL @ HANDLE_X32 action
      else VALIDATE_ARCHITECTURE_32 @ EXAMINE_SYSCALL)"

text \<open>
  What a filter of this shape decides: another architecture is allowed, an x32 call is refused, and
  otherwise the first rule for the system call number counts, or the default.
\<close>

definition decide :: "u32 \<Rightarrow> bool \<Rightarrow> rule list \<Rightarrow> u32 \<Rightarrow> seccomp_data \<Rightarrow> u32" where
  "decide action native rs dflt d =
     (if sd_arch d \<noteq> (if native then ARCH_NR else ARCH_32) then SECCOMP_RET_ALLOW
      else if native \<and> X32_SYSCALL_BIT \<le> sd_nr d then action
      else (case map_of rs (sd_nr d) of None \<Rightarrow> dflt | Some v \<Rightarrow> v))"

lemma emit_simps [simp]:
  "fd_out (emit b st) = fd_out st @ b"
  "ptrarg (emit b st) = ptrarg st"
  "emit c (emit b st) = emit (b @ c) st"
  "emit [] st = st"
  by (simp_all add: emit_def)

lemma rules_code_simps [simp]:
  "rules_code [] = []"
  "rules_code (r # rs) = rule_code r @ rules_code rs"
  "rules_code (rs @ qs) = rules_code rs @ rules_code qs"
  by (simp_all add: rules_code_def)

lemma macros_are_rules:
  "WHITELIST n = rule_code (n, SECCOMP_RET_ALLOW)"
  "BLACKLIST act n = rule_code (n, act)"
  "BLACKLIST_ERRNO n e = rule_code (n, SECCOMP_RET_ERRNO OR e)"
  by (simp_all add: WHITELIST_def BLACKLIST_def BLACKLIST_ERRNO_def KILL_OR_RETURN_ERRNO_def
      rule_code_def)

lemma add_rules_simps [simp]:
  "add_rules [] st = st"
  "add_rules qs (add_rules rs st) = add_rules (rs @ qs) st"
  "fd_out (add_rules rs st) = fd_out st @ rules_code rs"
  "ptrarg (add_rules rs st) = ptrarg st"
  by (simp_all add: add_rules_def)

lemma filter_init_code: "filter_init action native = emit (init_code action native)"
  by (rule ext) (simp add: filter_init_def init_code_def)

lemma filter_fns_rules:
  "filter_add_whitelist fd s a n st =
     Inr (add_rules (if s \<ge> 0 then [(word_of_int s, SECCOMP_RET_ALLOW)] else []) st)"
  "filter_add_whitelist_for_excluded fd s a n st =
     Inr (add_rules (if s < 0 then [(word_of_int (c_int (- s)), SECCOMP_RET_ALLOW)] else []) st)"
  "filter_add_blacklist act fd s a n st =
     Inr (add_rules (if s \<ge> 0 then [(word_of_int s, act)] else []) st)"
  "filter_add_blacklist_override fd s a n st =
     Inr (add_rules (if s \<ge> 0 then [(word_of_int s, SECCOMP_RET_KILL)] else []) st)"
  "filter_add_blacklist_for_excluded act fd s a n st =
     Inr (add_rules (if s < 0 then [(word_of_int (c_int (- s)), act)] else []) st)"
  "filter_add_errno fd s a n st =
     Inr (add_rules [(word_of_int s, SECCOMP_RET_ERRNO OR word_of_int a)] st)"
  by (simp_all add: filter_add_whitelist_def filter_add_whitelist_for_excluded_def
      filter_add_blacklist_def filter_add_blacklist_override_def
      filter_add_blacklist_for_excluded_def filter_add_errno_def write_whitelist_def
      write_blacklist_def add_rules_def macros_are_rules)

context bpf_vm
begin

lemma run_rules [simp]:
  "run (rules_code rs @ p) d a = (case map_of rs a of None \<Rightarrow> run p d a | Some v \<Rightarrow> v)"
proof (induction rs)
  case (Cons r rs)
  then show ?case by (cases r) (simp add: rule_code_def)
qed simp

lemma run_init_code [simp]:
  "run (init_code action native @ p) d a =
     (if sd_arch d \<noteq> (if native then ARCH_NR else ARCH_32) then SECCOMP_RET_ALLOW
      else if native \<and> X32_SYSCALL_BIT \<le> sd_nr d then action
      else run p d (sd_nr d))"
  by (simp add: init_code_def)

lemma run_blacklist_filter:
  "run (init_code action native @ rules_code rs @ RETURN_ALLOW) d a =
     decide action native rs SECCOMP_RET_ALLOW d"
  by (simp add: decide_def split: option.split)

lemma run_whitelist_filter:
  "run (init_code action native @ rules_code rs @ KILL_OR_RETURN_ERRNO action) d a =
     decide action native rs action d"
  by (simp add: decide_def split: option.split)

end

subsection \<open>The writing loop\<close>

lemma write_to_file_appends:
  assumes "\<And>i. i < length rvs \<Longrightarrow> rvs ! i \<noteq> -1 \<and> 0 \<le> rvs ! i"
    and "write_to_file rvs data w fl = Inr r" and "fl = f0 @ take w data"
  shows "r = f0 @ data"
  using assms
proof (induction rvs data w fl rule: write_to_file.induct)
  case (1 rvs data written fl)
  show ?case
  proof (cases "length data \<le> written")
    case True
    with "1.prems" show ?thesis by (simp add: write_to_file.simps)
  next
    case False
    with "1.prems"(2) obtain rv rest where rvs: "rvs = rv # rest"
      by (cases rvs) (simp_all add: write_to_file.simps)
    have rv: "rv \<noteq> -1" "0 \<le> rv" using "1.prems"(1) [of 0] rvs by auto
    have rest: "\<And>i. i < length rest \<Longrightarrow> rest ! i \<noteq> -1 \<and> 0 \<le> rest ! i"
      using "1.prems"(1) rvs by (metis Suc_less_eq length_Cons nth_Cons_Suc)
    have "fl @ take (nat rv) (drop written data) = f0 @ take (written + nat rv) data"
      using "1.prems"(3) by (simp add: take_add)
    moreover have "write_to_file rest data (written + nat rv)
        (fl @ take (nat rv) (drop written data)) = Inr r"
      using "1.prems"(2) False rvs rv by (simp add: write_to_file.simps)
    ultimately show ?thesis using "1.IH" [OF False rvs rv(1)] rest by blast
  qed
qed

lemma write_to_file_ends:
  assumes "length data \<le> w + length rvs" and "\<And>i. i < length rvs \<Longrightarrow> 1 \<le> rvs ! i"
  shows "\<exists>r. write_to_file rvs data w fl = Inr r"
  using assms
proof (induction rvs arbitrary: w fl)
  case Nil
  then show ?case by (simp add: write_to_file.simps)
next
  case (Cons rv rest)
  have rv: "1 \<le> rv" using Cons.prems(2) [of 0] by simp
  have "length data \<le> w + nat rv + length rest" using Cons.prems(1) rv by simp
  moreover have "\<And>i. i < length rest \<Longrightarrow> 1 \<le> rest ! i"
    using Cons.prems(2) by (metis Suc_less_eq length_Cons nth_Cons_Suc)
  ultimately have "\<exists>r. write_to_file rest data (w + nat rv) f = Inr r" for f by (rule Cons.IH)
  then show ?case using rv by (subst write_to_file.simps) auto
qed

text \<open>
  The writing loop: whatever positive amounts the successive \<open>write\<close> calls accept, the file ends up
  with the whole block appended, once, in order.
\<close>

theorem write_to_file_complete:
  assumes "length data \<le> length rvs" "list_all (\<lambda>rv. 1 \<le> rv) rvs"
  shows "write_to_file rvs data 0 fl = Inr (fl @ data)"
proof -
  have r: "\<And>i. i < length rvs \<Longrightarrow> 1 \<le> rvs ! i" using assms(2) by (simp add: list_all_length)
  from write_to_file_ends [of data 0 rvs fl] assms(1) r obtain f where
    f: "write_to_file rvs data 0 fl = Inr f" by auto
  moreover have "f = fl @ data"
    by (rule write_to_file_appends [OF _ f]) (use r in force)+
  ultimately show ?thesis by simp
qed

theorem write_to_file_complete_witness:
  "write_to_file [2, 1, 5] [7, 8, 9 :: u8] 0 [] = Inr [7, 8, 9]"
  using write_to_file_complete [of "[7, 8, 9]" "[2, 1, 5]" "[]"] by simp

end
