(* ===== verification/Syscall_List.thy ===== *)
theory Syscall_List
  imports Syscall_Tables Syscall_Groups Errno_Table Seccomp_File
begin

text \<open>
  The list processing of \<open>lib/syscall.c\<close>: \<open>syscall_process_name\<close>, \<open>syscall_check_list\<close> with its
  recursion through the groups, and \<open>syscalls_in_list\<close>, which splits a list into the part that may be
  blocked before and the part that must be blocked after the program is started.

  \<open>syscall_check_list\<close> recurses through group references; the model counts the nesting down from a
  bound. Four levels are enough for every list and every set of headers.
  \<open>list_entries\<close> is the specification: the list of signed numbers and error numbers that a list
  means. A call of \<open>syscall_check_list\<close> folds its callback over them.
\<close>

definition ERRNO_KILL :: int where
  "ERRNO_KILL = -2"

text \<open>An entry \<open>name\<close>, \<open>name:error\<close> or \<open>$number\<close>: the system call number and the error number.\<close>

definition syscall_process_name :: "string \<Rightarrow> bool \<Rightarrow> (int \<times> int) result" where
  "syscall_process_name name native =
     (if name = [] then Inl (InvalidEntry name)
      else
        (case cut_at (CHR '':'') name of (syscall_name, error_name) \<Rightarrow>
          if syscall_name = [] then Inl (InvalidEntry name)
          else
            let syscall_nr =
                  (if hd syscall_name = CHR ''$'' then c_int (strtol0 (tl syscall_name))
                   else if native then syscall_find_name syscall_name
                   else syscall_find_name_32 syscall_name)
            in case error_name of
                 None \<Rightarrow> Inr (syscall_nr, -1)
               | Some e \<Rightarrow>
                   if e = ''kill'' then Inr (syscall_nr, ERRNO_KILL)
                   else let error_nr = errno_find_name e in
                        Inr (if error_nr = -1 then SYSCALL_ERROR else syscall_nr, error_nr)))"

text \<open>What the loop of \<open>syscall_check_list\<close> does with a number and an error number.\<close>

definition dispatch :: "filter_fn \<Rightarrow> int \<Rightarrow> int \<Rightarrow> bool \<Rightarrow> int \<times> int \<Rightarrow> fstate \<Rightarrow> fstate result" where
  "dispatch callback fd arg native e st =
     (case e of (syscall_nr, error_nr) \<Rightarrow>
        if error_nr \<ge> 0 \<and> fd > 0 then filter_add_errno fd syscall_nr error_nr native st
        else if error_nr = ERRNO_KILL \<and> fd > 0 then filter_add_blacklist_override fd syscall_nr 0 native st
        else if error_nr \<ge> 0 \<and> fd = 0 then callback fd syscall_nr error_nr native st
        else callback fd syscall_nr arg native st)"

text \<open>An entry that is not a group: an optional \<open>!\<close>, then a name.\<close>

definition read_entry :: "bool \<Rightarrow> string \<Rightarrow> (int \<times> int) option result" where
  "read_entry native ptr =
     (let negate = (ptr \<noteq> [] \<and> hd ptr = CHR ''!'');
          name = (if negate then tl ptr else ptr)
      in bind_result (syscall_process_name name native) (\<lambda>(syscall_nr, error_nr).
           Inr (if syscall_nr \<noteq> SYSCALL_ERROR
                then Some (if negate then c_int (- syscall_nr) else syscall_nr, error_nr)
                else None)))"

definition check_entry ::
    "filter_fn option \<Rightarrow> int \<Rightarrow> int \<Rightarrow> bool \<Rightarrow> string \<Rightarrow> fstate \<Rightarrow> fstate result" where
  "check_entry callback fd arg native ptr st =
     bind_result (read_entry native ptr) (\<lambda>r.
       case (r, callback) of
         (Some e, Some cb) \<Rightarrow> dispatch cb fd arg native e st
       | _ \<Rightarrow> Inr st)"

fun syscall_check_list ::
    "(string \<Rightarrow> bool) \<Rightarrow> nat \<Rightarrow> string \<Rightarrow> filter_fn option \<Rightarrow> int \<Rightarrow> int \<Rightarrow> bool \<Rightarrow> fstate \<Rightarrow> fstate result" where
  "syscall_check_list defd 0 slist callback fd arg native st = Inl OutOfFuel"
| "syscall_check_list defd (Suc n) slist callback fd arg native st =
     (if strtok (CHR '','') slist = [] then Inl EmptyList
      else fold_result
        (\<lambda>ptr st.
           if is_group ptr then
             (case syscall_find_group defd ptr of
                None \<Rightarrow> Inl (UnknownGroup ptr)
              | Some new_list \<Rightarrow> syscall_check_list defd n new_list callback fd arg native st)
           else check_entry callback fd arg native ptr st)
        (strtok (CHR '','') slist) st)"

text \<open>The nesting bound the programs run with.\<close>

definition check_list ::
    "(string \<Rightarrow> bool) \<Rightarrow> string \<Rightarrow> filter_fn \<Rightarrow> int \<Rightarrow> int \<Rightarrow> bool \<Rightarrow> fstate \<Rightarrow> fstate result" where
  "check_list defd slist callback = syscall_check_list defd 4 slist (Some callback)"

subsection \<open>Splitting a list\<close>

definition find_syscall :: filter_fn where
  "find_syscall fd syscall arg native st =
     Inr (if \<bar>syscall\<bar> = cl_syscall (ptrarg st)
          then st\<lparr>ptrarg := (ptrarg st)\<lparr>cl_found := True\<rparr>\<rparr> else st)"

definition append_list :: "string option \<Rightarrow> string \<Rightarrow> string option" where
  "append_list l name = Some (case l of None \<Rightarrow> name | Some s \<Rightarrow> s @ '','' @ name)"

definition syscall_in_list :: "(string \<Rightarrow> bool) \<Rightarrow> filter_fn" where
  "syscall_in_list defd fd syscall arg native st =
     (let p = ptrarg st;
          sl = \<lparr>cl_slist = [], cl_prelist = None, cl_postlist = None,
                cl_found = False, cl_syscall = syscall\<rparr>
      in bind_result (check_list defd (cl_slist p) find_syscall fd 0 native (st\<lparr>ptrarg := sl\<rparr>)) (\<lambda>st1.
           let name = (if native then syscall_find_nr syscall else syscall_find_nr_32 syscall)
           in if cl_found (ptrarg st1)
              then Inr (st1\<lparr>ptrarg := p\<lparr>cl_postlist := append_list (cl_postlist p) name\<rparr>\<rparr>)
              else let newcall = (if arg \<noteq> 0 then name @ '':'' @ errno_find_nr arg else name)
                   in Inr (st1\<lparr>ptrarg := p\<lparr>cl_prelist := append_list (cl_prelist p) newcall\<rparr>\<rparr>)))"

definition syscalls_in_list ::
    "(string \<Rightarrow> bool) \<Rightarrow> string \<Rightarrow> string \<Rightarrow> bool \<Rightarrow> (string option \<times> string option) result" where
  "syscalls_in_list defd list slist native =
     (let sl = \<lparr>cl_slist = slist, cl_prelist = None, cl_postlist = None,
                cl_found = False, cl_syscall = 0\<rparr>
      in bind_result (check_list defd list (syscall_in_list defd) 0 0 native
                        \<lparr>fd_out = [], ptrarg = sl\<rparr>) (\<lambda>st.
           Inr (cl_prelist (ptrarg st), cl_postlist (ptrarg st))))"

subsection \<open>What a list means\<close>

fun list_entries_n ::
    "(string \<Rightarrow> bool) \<Rightarrow> nat \<Rightarrow> bool \<Rightarrow> string \<Rightarrow> (int \<times> int) list result" where
  "list_entries_n defd 0 native slist = Inl OutOfFuel"
| "list_entries_n defd (Suc n) native slist =
     (if strtok (CHR '','') slist = [] then Inl EmptyList
      else fold_result
        (\<lambda>ptr es.
           if is_group ptr then
             (case syscall_find_group defd ptr of
                None \<Rightarrow> Inl (UnknownGroup ptr)
              | Some new_list \<Rightarrow>
                  bind_result (list_entries_n defd n native new_list) (\<lambda>fs. Inr (es @ fs)))
           else bind_result (read_entry native ptr) (\<lambda>r.
                  Inr (es @ (case r of None \<Rightarrow> [] | Some e \<Rightarrow> [e]))))
        (strtok (CHR '','') slist) [])"

definition list_entries ::
    "(string \<Rightarrow> bool) \<Rightarrow> bool \<Rightarrow> string \<Rightarrow> (int \<times> int) list result" where
  "list_entries defd native slist = list_entries_n defd 4 native slist"

subsection \<open>The nesting bound is enough\<close>

lemma process_name_not_fuel: "syscall_process_name name native \<noteq> Inl OutOfFuel"
  by (auto simp: syscall_process_name_def Let_def split: prod.splits option.splits if_splits)

lemma read_entry_not_fuel: "read_entry native ptr \<noteq> Inl OutOfFuel"
  using process_name_not_fuel
  by (auto simp: read_entry_def Let_def bind_result_eq_Inl_iff split: if_splits)

lemma list_entries_step_fuel:
  assumes "list_entries_n defd (Suc n) native slist = Inl OutOfFuel"
  shows "\<exists>ptr l. ptr \<in> set (strtok (CHR '','') slist) \<and> is_group ptr \<and>
    syscall_find_group defd ptr = Some l \<and> list_entries_n defd n native l = Inl OutOfFuel"
proof -
  have "strtok (CHR '','') slist \<noteq> []" using assms by auto
  with assms obtain ptr es where p: "ptr \<in> set (strtok (CHR '','') slist)"
    "(if is_group ptr then
             (case syscall_find_group defd ptr of
                None \<Rightarrow> Inl (UnknownGroup ptr)
              | Some new_list \<Rightarrow>
                  bind_result (list_entries_n defd n native new_list) (\<lambda>fs. Inr (es @ fs)))
           else bind_result (read_entry native ptr) (\<lambda>r.
                  Inr (es @ (case r of None \<Rightarrow> [] | Some e \<Rightarrow> [e])))) = Inl OutOfFuel"
    by (auto dest: fold_result_Inl)
  then show ?thesis
    by (auto simp: bind_result_eq_Inl_iff read_entry_not_fuel split: if_splits option.splits)
qed

lemma group_entries_fuel:
  "syscall_find_group defd name = Some l \<Longrightarrow> group_rank name < n \<Longrightarrow>
   list_entries_n defd n native l \<noteq> Inl OutOfFuel"
proof (induction n arbitrary: name l)
  case (Suc n)
  show ?case
  proof
    assume "list_entries_n defd (Suc n) native l = Inl OutOfFuel"
    from list_entries_step_fuel [OF this] obtain ptr m where
      p: "ptr \<in> set (strtok (CHR '','') l)" "is_group ptr" "syscall_find_group defd ptr = Some m"
        "list_entries_n defd n native m = Inl OutOfFuel" by blast
    from syscall_find_group_refs(1) [OF Suc.prems(1) p(1,2)] Suc.prems(2)
    have "group_rank ptr < n" by simp
    with Suc.IH [OF p(3)] p(4) show False by simp
  qed
qed simp

lemma list_entries_fuel: "4 \<le> n \<Longrightarrow> list_entries_n defd n native slist \<noteq> Inl OutOfFuel"
proof
  assume n: "4 \<le> n" and e: "list_entries_n defd n native slist = Inl OutOfFuel"
  then obtain m where m: "n = Suc m" by (cases n) auto
  from list_entries_step_fuel [OF e [unfolded m]] obtain ptr l where
    p: "syscall_find_group defd ptr = Some l" "list_entries_n defd m native l = Inl OutOfFuel" by blast
  from group_rank_le [of ptr] n m have "group_rank ptr < m" by simp
  with group_entries_fuel [OF p(1)] p(2) show False by simp
qed

lemma list_entries_step_cong:
  assumes "\<And>ptr l. ptr \<in> set (strtok (CHR '','') slist) \<Longrightarrow> is_group ptr \<Longrightarrow>
      syscall_find_group defd ptr = Some l \<Longrightarrow>
      list_entries_n defd n native l = list_entries_n defd m native l"
  shows "list_entries_n defd (Suc n) native slist = list_entries_n defd (Suc m) native slist"
  unfolding list_entries_n.simps
  by (intro if_cong refl fold_result_cong) (auto simp: assms split: option.splits)

lemma group_entries_more_fuel:
  "syscall_find_group defd name = Some l \<Longrightarrow> group_rank name < n \<Longrightarrow>
   list_entries_n defd (Suc n) native l = list_entries_n defd n native l"
proof (induction n arbitrary: name l)
  case (Suc n)
  show ?case
  proof (rule list_entries_step_cong)
    fix ptr m
    assume p: "ptr \<in> set (strtok (CHR '','') l)" "is_group ptr" "syscall_find_group defd ptr = Some m"
    from syscall_find_group_refs(1) [OF Suc.prems(1) p(1,2)] Suc.prems(2)
    have "group_rank ptr < n" by simp
    with p(3) show "list_entries_n defd (Suc n) native m = list_entries_n defd n native m"
      by (rule Suc.IH)
  qed
qed simp

lemma list_entries_more_fuel:
  "4 \<le> n \<Longrightarrow> list_entries_n defd n native slist = list_entries defd native slist"
proof (induction n rule: dec_induct)
  case (step n)
  then obtain m where m: "n = Suc m" by (cases n) auto
  have "list_entries_n defd (Suc n) native slist = list_entries_n defd n native slist"
    unfolding m
  proof (rule list_entries_step_cong)
    fix ptr l
    assume "syscall_find_group defd ptr = Some l"
    moreover have "group_rank ptr < m" using group_rank_le [of ptr] step m by simp
    ultimately show "list_entries_n defd (Suc m) native l = list_entries_n defd m native l"
      by (rule group_entries_more_fuel)
  qed
  with step show ?case by simp
qed (simp add: list_entries_def)

subsection \<open>Processing a list folds the callback over its entries\<close>

lemma check_list_refines:
  assumes "\<And>e st. I st \<Longrightarrow> dispatch cb fd arg native e st = Inr (g e st) \<and> I (g e st)" and "I st"
  shows "syscall_check_list defd n slist (Some cb) fd arg native st =
    bind_result (list_entries_n defd n native slist) (\<lambda>es. Inr (fold g es st))"
  using assms(2)
proof (induction n arbitrary: slist st)
  case (Suc n)
  have I: "I (fold g es st)" for es
    using Suc.prems by (induction es arbitrary: st) (simp_all add: assms(1))
  let ?f = "\<lambda>ptr es. if is_group ptr then
             (case syscall_find_group defd ptr of
                None \<Rightarrow> Inl (UnknownGroup ptr)
              | Some new_list \<Rightarrow>
                  bind_result (list_entries_n defd n native new_list) (\<lambda>fs. Inr (es @ fs)))
           else bind_result (read_entry native ptr) (\<lambda>r.
                  Inr (es @ (case r of None \<Rightarrow> [] | Some e \<Rightarrow> [e])))"
  let ?g = "\<lambda>ptr st. if is_group ptr then
             (case syscall_find_group defd ptr of
                None \<Rightarrow> Inl (UnknownGroup ptr)
              | Some new_list \<Rightarrow> syscall_check_list defd n new_list (Some cb) fd arg native st)
           else check_entry (Some cb) fd arg native ptr st"
  have step: "?g ptr (fold g es st) = bind_result (?f ptr es) (\<lambda>es. Inr (fold g es st))" for ptr es
    by (auto simp: Suc.IH [OF I] check_entry_def bind_result_assoc assms(1) [OF I]
        split: option.splits intro!: arg_cong [where f = "bind_result _"])
  have "fold_result ?g (strtok (CHR '','') slist) (fold g [] st) =
      bind_result (fold_result ?f (strtok (CHR '','') slist) []) (\<lambda>es. Inr (fold g es st))"
    by (rule fold_result_sim [where I = "\<lambda>_. True"]) (simp_all only: step)
  then show ?case by simp
qed simp


subsection \<open>Splitting off \<open>@default-keep\<close>\<close>

abbreviation table_of :: "bool \<Rightarrow> SyscallEntry list" where
  "table_of native \<equiv> (if native then syslist else syslist32)"

definition keep_nrs :: "bool \<Rightarrow> int list" where
  "keep_nrs native = (if native then [322, 59, 157] else [358, 11, 172])"

lemma default_keep_text:
  "syscall_find_group defd ''@default-keep'' = Some ''execveat,execve,prctl''"
  by (simp add: syscall_find_group_def sysgroups_def group_text_def group_default_keep_def)

lemma keep_names:
  "syscall_find_name ''execveat'' = 322" "syscall_find_name ''execve'' = 59"
  "syscall_find_name ''prctl'' = 157" "syscall_find_name_32 ''execveat'' = 358"
  "syscall_find_name_32 ''execve'' = 11" "syscall_find_name_32 ''prctl'' = 172"
  by (simp_all only: syscall_find_name_def syscall_find_name_32_def syslist_defs syslist32_defs
      table_eval)

lemma default_keep_entries:
  "list_entries defd native ''@default-keep'' = Inr (map (\<lambda>s. (s, -1)) (keep_nrs native))"
  by (simp add: list_entries_def numeral_eq_Suc strtok_def is_group_def default_keep_text
      read_entry_def syscall_process_name_def keep_names keep_nrs_def SYSCALL_ERROR_def INT_MAX_def)

lemma find_syscall_fold:
  "fold (\<lambda>e st. if \<bar>fst e\<bar> = cl_syscall (ptrarg st)
      then st\<lparr>ptrarg := (ptrarg st)\<lparr>cl_found := True\<rparr>\<rparr> else st) es st =
   (if \<exists>e \<in> set es. \<bar>fst e\<bar> = cl_syscall (ptrarg st)
    then st\<lparr>ptrarg := (ptrarg st)\<lparr>cl_found := True\<rparr>\<rparr> else st)"
  by (induction es arbitrary: st) auto

lemma find_in_keep:
  "check_list defd ''@default-keep'' find_syscall 0 0 native st =
   Inr (if cl_syscall (ptrarg st) \<in> set (keep_nrs native)
        then st\<lparr>ptrarg := (ptrarg st)\<lparr>cl_found := True\<rparr>\<rparr> else st)"
proof -
  have "check_list defd ''@default-keep'' find_syscall 0 0 native st =
    bind_result (list_entries_n defd 4 native ''@default-keep'') (\<lambda>es. Inr (fold
      (\<lambda>e st. if \<bar>fst e\<bar> = cl_syscall (ptrarg st)
        then st\<lparr>ptrarg := (ptrarg st)\<lparr>cl_found := True\<rparr>\<rparr> else st) es st))"
    unfolding check_list_def
    by (rule check_list_refines [where I = "\<lambda>_. True"])
      (auto simp: dispatch_def find_syscall_def split: prod.splits)
  then show ?thesis
    using default_keep_entries [of defd native]
    by (simp only: list_entries_def [symmetric] bind_result.simps find_syscall_fold)
      (auto simp: keep_nrs_def)
qed

text \<open>The step \<open>syscall_in_list\<close> takes when the list to avoid is \<open>@default-keep\<close>.\<close>

definition nr_name :: "bool \<Rightarrow> int \<Rightarrow> string" where
  "nr_name native s = (if native then syscall_find_nr s else syscall_find_nr_32 s)"

definition entry_text :: "bool \<Rightarrow> int \<times> int \<Rightarrow> string" where
  "entry_text native e = nr_name native (fst e) @
     (if snd e > 0 then '':'' @ errno_find_nr (snd e) else [])"

definition split_step :: "bool \<Rightarrow> int \<times> int \<Rightarrow> fstate \<Rightarrow> fstate" where
  "split_step native e st =
     (let p = ptrarg st in
      st\<lparr>ptrarg := (if fst e \<in> set (keep_nrs native)
        then p\<lparr>cl_postlist := append_list (cl_postlist p) (nr_name native (fst e))\<rparr>
        else p\<lparr>cl_prelist := append_list (cl_prelist p) (entry_text native e)\<rparr>)\<rparr>)"

lemma split_step_dispatch:
  assumes "cl_slist (ptrarg st) = ''@default-keep''"
  shows "dispatch (syscall_in_list defd) 0 0 native e st = Inr (split_step native e st)"
  using assms
  by (auto simp: dispatch_def syscall_in_list_def Let_def find_in_keep split_step_def nr_name_def
      entry_text_def split: prod.splits)

lemma split_step_slist: "cl_slist (ptrarg (split_step native e st)) = cl_slist (ptrarg st)"
  by (simp add: split_step_def Let_def)

definition join_list :: "string list \<Rightarrow> string option" where
  "join_list ns = fold (\<lambda>n l. append_list l n) ns None"

definition pre_entries :: "bool \<Rightarrow> (int \<times> int) list \<Rightarrow> (int \<times> int) list" where
  "pre_entries native es = filter (\<lambda>e. fst e \<notin> set (keep_nrs native)) es"

definition post_entries :: "bool \<Rightarrow> (int \<times> int) list \<Rightarrow> (int \<times> int) list" where
  "post_entries native es = filter (\<lambda>e. fst e \<in> set (keep_nrs native)) es"

lemma split_step_fold:
  "cl_prelist (ptrarg (fold (split_step native) es st)) =
     fold (\<lambda>n l. append_list l n) (map (entry_text native) (pre_entries native es)) (cl_prelist (ptrarg st))"
  "cl_postlist (ptrarg (fold (split_step native) es st)) =
     fold (\<lambda>n l. append_list l n) (map (\<lambda>e. nr_name native (fst e)) (post_entries native es))
       (cl_postlist (ptrarg st))"
  by (induction es arbitrary: st) (simp_all add: pre_entries_def post_entries_def split_step_def Let_def)

lemma syscalls_in_list_split:
  "syscalls_in_list defd list ''@default-keep'' native =
   bind_result (list_entries defd native list) (\<lambda>es.
     Inr (join_list (map (entry_text native) (pre_entries native es)),
          join_list (map (\<lambda>e. nr_name native (fst e)) (post_entries native es))))"
proof -
  let ?st = "\<lparr>fd_out = [], ptrarg = \<lparr>cl_slist = ''@default-keep'', cl_prelist = None,
    cl_postlist = None, cl_found = False, cl_syscall = 0\<rparr>\<rparr> :: fstate"
  have "check_list defd list (syscall_in_list defd) 0 0 native ?st =
    bind_result (list_entries_n defd 4 native list) (\<lambda>es. Inr (fold (split_step native) es ?st))"
    unfolding check_list_def
    by (rule check_list_refines [where I = "\<lambda>st. cl_slist (ptrarg st) = ''@default-keep''"])
      (simp_all add: split_step_dispatch split_step_slist)
  then show ?thesis
    by (simp add: syscalls_in_list_def bind_result_assoc split_step_fold join_list_def
        list_entries_def)
qed


subsection \<open>Reading the split lists back\<close>

lemma table_name: "(n, k) \<in> set (table_of native) \<Longrightarrow> plain_name n \<and>
   (if native then syscall_find_name n else syscall_find_name_32 n) = k \<and> nr_name native k = n \<and> 0 \<le> k \<and> k \<le> 440"
  using syslist_plain syslist32_plain syslist_range syslist32_range
    table_find_name_entry [OF syslist_names] table_find_name_entry [OF syslist32_names]
    table_find_nr_entry [OF syslist_nrs] table_find_nr_entry [OF syslist32_nrs]
  by (auto simp: list_all_iff syscall_find_name_def syscall_find_name_32_def nr_name_def
      syscall_find_nr_def syscall_find_nr_32_def split: if_splits)

lemma read_entry_name:
  assumes "(n, k) \<in> set (table_of native)"
  shows "read_entry native n = Inr (Some (k, -1))"
proof -
  note t = table_name [OF assms]
  note p = plain_nameD [OF t [THEN conjunct1]]
  have "k \<noteq> SYSCALL_ERROR" using t by (simp add: SYSCALL_ERROR_def INT_MAX_def)
  with t p show ?thesis
    by (simp add: read_entry_def syscall_process_name_def cut_at_no_sep Let_def)
qed

lemma read_entry_name_errno:
  assumes "(n, k) \<in> set (table_of native)" and "(m, v) \<in> set errnolist"
  shows "read_entry native (n @ '':'' @ m) = Inr (Some (k, v))"
proof -
  note t = table_name [OF assms(1)]
  note p = plain_nameD [OF t [THEN conjunct1]]
  have k: "k \<noteq> SYSCALL_ERROR" using t by (simp add: SYSCALL_ERROR_def INT_MAX_def)
  have m: "m \<noteq> ''kill''" using assms(2) errno_not_kill by (auto simp: list_all_iff)
  have v: "errno_find_name m = v" "v \<noteq> -1"
    using errno_find_name_entry [OF assms(2)] assms(2) errnolist_range by (auto simp: list_all_iff)
  have h: "hd (n @ '':'' @ m) = hd n" "n @ CHR '':'' # m \<noteq> []" using p(1) by auto
  show ?thesis
    using t p k m v h cut_at_append [OF p(3), of m]
    by (simp add: read_entry_def syscall_process_name_def Let_def)
qed

lemma unknown_names: "syscall_find_name ''unknown'' = SYSCALL_ERROR" "syscall_find_name_32 ''unknown'' = SYSCALL_ERROR"
  by (simp_all only: syscall_find_name_def syscall_find_name_32_def syslist_defs syslist32_defs table_eval)

lemma read_entry_unknown: "read_entry native ''unknown'' = Inr None"
  by (simp add: read_entry_def syscall_process_name_def Let_def unknown_names)

lemma read_entry_unknown_errno:
  "(m, v) \<in> set errnolist \<Longrightarrow> read_entry native (''unknown'' @ '':'' @ m) = Inr None"
  by (auto simp: read_entry_def syscall_process_name_def Let_def unknown_names)

definition known :: "bool \<Rightarrow> int \<Rightarrow> bool" where
  "known native s \<longleftrightarrow> s \<in> snd ` set (table_of native)"

definition valid_entry :: "int \<times> int \<Rightarrow> bool" where
  "valid_entry e \<longleftrightarrow> snd e = -1 \<or> snd e = ERRNO_KILL \<or> snd e \<in> snd ` set errnolist"

lemma nr_name_known: "known native s \<Longrightarrow> (nr_name native s, s) \<in> set (table_of native)"
proof -
  assume "known native s"
  then obtain n where "(n, s) \<in> set (table_of native)" unfolding known_def by force
  with table_name [OF this] show ?thesis by simp
qed

lemma nr_name_unknown: "\<not> known native s \<Longrightarrow> nr_name native s = ''unknown''"
  using table_find_nr_cases [of syslist s] table_find_nr_cases [of syslist32 s]
  by (force simp: known_def nr_name_def syscall_find_nr_def syscall_find_nr_32_def)

lemma read_entry_text:
  assumes "valid_entry e"
  shows "read_entry native (entry_text native e) =
    Inr (if known native (fst e) then Some (fst e, if snd e > 0 then snd e else -1) else None)"
proof (cases "known native (fst e)")
  case True
  note n = nr_name_known [OF True]
  show ?thesis
  proof (cases "snd e > 0")
    case True
    then have "(errno_find_nr (snd e), snd e) \<in> set errnolist"
      using assms errno_pos by (auto simp: valid_entry_def ERRNO_KILL_def)
    with True \<open>known native (fst e)\<close> show ?thesis
      using read_entry_name_errno [OF n] by (simp add: entry_text_def)
  next
    case False
    with read_entry_name [OF n] \<open>known native (fst e)\<close> show ?thesis by (simp add: entry_text_def)
  qed
next
  case False
  show ?thesis
  proof (cases "snd e > 0")
    case True
    then have "(errno_find_nr (snd e), snd e) \<in> set errnolist"
      using assms errno_pos by (auto simp: valid_entry_def ERRNO_KILL_def)
    from read_entry_unknown_errno [OF this, of native] True False show ?thesis
      by (simp add: entry_text_def nr_name_unknown)
  next
    case np: False
    with False show ?thesis by (simp add: entry_text_def nr_name_unknown read_entry_unknown)
  qed
qed

lemma read_entry_valid: "read_entry native t = Inr (Some e) \<Longrightarrow> valid_entry e"
  using errno_table_find_name_cases [of errnolist]
  by (force simp: read_entry_def syscall_process_name_def Let_def valid_entry_def bind_result_eq_Inr_iff
      errno_find_name_def split: prod.splits option.splits if_splits)

definition int_entry :: "int \<times> int \<Rightarrow> bool" where
  "int_entry e \<longleftrightarrow> valid_entry e \<and> - (2 ^ 31) \<le> fst e \<and> fst e < 2 ^ 31"


lemma read_entry_int:
  assumes "read_entry native t = Inr (Some e)"
  shows "int_entry e"
proof -
  from assms obtain nr er where p: "syscall_process_name
      (if t \<noteq> [] \<and> hd t = CHR ''!'' then tl t else t) native = Inr (nr, er)"
    and nr: "nr \<noteq> SYSCALL_ERROR" and e: "fst e = nr \<or> fst e = c_int (- nr)"
    by (auto simp: read_entry_def Let_def bind_result_eq_Inr_iff split: if_splits)
  have "- (2 ^ 31) \<le> nr \<and> nr < 2 ^ 31"
    using p nr c_int_range syscall_find_name_range syscall_find_name_32_range
    by (auto simp: syscall_process_name_def Let_def split: prod.splits option.splits if_splits)
      (smt (verit) power_one_right)+
  with e c_int_range [of "- nr"] read_entry_valid [OF assms] show ?thesis
    by (auto simp: int_entry_def)
qed

lemma list_entries_n_all:
  assumes "\<And>t e. read_entry native t = Inr (Some e) \<Longrightarrow> P e"
  shows "list_entries_n defd n native l = Inr es \<Longrightarrow> list_all P es"
proof (induction n arbitrary: l es)
  case (Suc n)
  have "strtok (CHR '','') l \<noteq> []" using Suc.prems by auto
  with Suc.prems show ?case
    by (auto elim!: fold_result_inv [where I = "list_all P", rotated -1]
        simp: bind_result_eq_Inr_iff Suc.IH assms split: if_splits option.splits)
qed simp

lemma list_entries_valid: "list_entries defd native l = Inr es \<Longrightarrow> list_all valid_entry es"
  unfolding list_entries_def by (rule list_entries_n_all [OF read_entry_valid])

lemma list_entries_int: "list_entries defd native l = Inr es \<Longrightarrow> list_all int_entry es"
  unfolding list_entries_def by (rule list_entries_n_all [OF read_entry_int])

lemma join_list_Some:
  "join_list (n # ns) = Some (n @ concat (map (\<lambda>m. '','' @ m) ns))"
proof -
  have "fold (\<lambda>n l. append_list l n) ns (Some s) = Some (s @ concat (map (\<lambda>m. '','' @ m) ns))" for s
    by (induction ns arbitrary: s) (simp_all add: append_list_def)
  then show ?thesis by (simp add: join_list_def append_list_def)
qed

lemma join_list_None [simp]: "join_list [] = None"
  by (simp add: join_list_def)

lemma strtok_joined:
  "list_all (\<lambda>n. n \<noteq> [] \<and> CHR '','' \<notin> set n) (n # ns) \<Longrightarrow>
   strtok (CHR '','') (n @ concat (map (\<lambda>m. '','' @ m) ns)) = n # ns"
  by (induction ns arbitrary: n) (simp_all add: strtok_word strtok_word_sep)

lemma list_entries_joined:
  assumes "list_all (\<lambda>n. n \<noteq> [] \<and> CHR '','' \<notin> set n \<and> \<not> is_group n) ns"
    and "\<And>n. n \<in> set ns \<Longrightarrow> read_entry native n = Inr (r n)"
    and "join_list ns = Some l"
  shows "list_entries defd native l = Inr (concat (map (\<lambda>n. case r n of None \<Rightarrow> [] | Some e \<Rightarrow> [e]) ns))"
proof -
  from assms(3) obtain n ms where ns: "ns = n # ms" by (cases ns) auto
  have t: "strtok (CHR '','') l = ns"
    using assms(1,3) unfolding ns by (auto simp: join_list_Some list_all_iff intro!: strtok_joined [simplified])
  have "fold_result (\<lambda>ptr es. bind_result (read_entry native ptr) (\<lambda>r.
      Inr (es @ (case r of None \<Rightarrow> [] | Some e \<Rightarrow> [e])))) ms fs =
    Inr (fs @ concat (map (\<lambda>n. case r n of None \<Rightarrow> [] | Some e \<Rightarrow> [e]) ms))"
    if "set ms \<subseteq> set ns" for ms fs
    using that by (induction ms arbitrary: fs) (simp_all add: assms(2))
  then have "fold_result (\<lambda>ptr es. bind_result (read_entry native ptr) (\<lambda>r.
      Inr (es @ (case r of None \<Rightarrow> [] | Some e \<Rightarrow> [e])))) ns [] =
    Inr (concat (map (\<lambda>n. case r n of None \<Rightarrow> [] | Some e \<Rightarrow> [e]) ns))"
    by simp
  moreover have "fold_result (\<lambda>ptr es. if is_group ptr then (case syscall_find_group defd ptr of
                None \<Rightarrow> Inl (UnknownGroup ptr)
              | Some new_list \<Rightarrow>
                  bind_result (list_entries_n defd 3 native new_list) (\<lambda>fs. Inr (es @ fs)))
           else bind_result (read_entry native ptr) (\<lambda>r.
                  Inr (es @ (case r of None \<Rightarrow> [] | Some e \<Rightarrow> [e])))) ns [] =
     fold_result (\<lambda>ptr es. bind_result (read_entry native ptr) (\<lambda>r.
      Inr (es @ (case r of None \<Rightarrow> [] | Some e \<Rightarrow> [e])))) ns []"
    using assms(1) by (intro fold_result_cong refl) (auto simp: list_all_iff)
  moreover have "list_entries defd native l = list_entries_n defd (Suc 3) native l"
    by (simp add: list_entries_def)
  ultimately show ?thesis unfolding list_entries_n.simps t ns by simp
qed


subsection \<open>Words of a group and their entries\<close>

lemma items_plain:
  "list_all (\<lambda>(n, items). list_all (\<lambda>(g, t). CHR '':'' \<notin> set t \<and> hd t \<noteq> CHR ''!'' \<and> hd t \<noteq> CHR ''$'') items) sysgroups"
  by (simp add: sysgroups_def group_defs sys_def sys_last_def)

lemma item_word_chars: "set (item_word t) \<subseteq> set t" "item_word t \<noteq> [] \<Longrightarrow> hd (item_word t) = hd t"
  by (auto simp: item_word_def dest: in_set_butlastD) (cases t; auto)

lemma group_word_plain:
  assumes "syscall_find_group defd name = Some l" "t \<in> set (strtok (CHR '','') l)"
  shows "CHR '':'' \<notin> set t" "hd t \<noteq> CHR ''!''" "hd t \<noteq> CHR ''$''"
proof -
  from syscall_find_group_words [OF assms] obtain items g u where
    i: "(name, items) \<in> set sysgroups" "(g, u) \<in> set items" "t = item_word u" by blast
  with items_plain have "CHR '':'' \<notin> set u \<and> hd u \<noteq> CHR ''!'' \<and> hd u \<noteq> CHR ''$''" by (fastforce simp: list_all_iff)
  with i(3) item_word_chars [of u] strtok_nonempty [OF assms(2)]
  show "CHR '':'' \<notin> set t" "hd t \<noteq> CHR ''!''" "hd t \<noteq> CHR ''$''" by auto
qed

lemma read_entry_plain:
  assumes "CHR '':'' \<notin> set t" "hd t \<noteq> CHR ''!''" "hd t \<noteq> CHR ''$''" "t \<noteq> []"
    "read_entry native t = Inr (Some e)"
  shows "(t, fst e) \<in> set (table_of native) \<and> snd e = -1"
  using assms table_find_name_cases [of syslist t] table_find_name_cases [of syslist32 t]
  by (auto simp: read_entry_def syscall_process_name_def cut_at_no_sep Let_def
      syscall_find_name_def syscall_find_name_32_def split: if_splits)

definition entry_step ::
    "(string \<Rightarrow> bool) \<Rightarrow> (string \<Rightarrow> (int \<times> int) list result) \<Rightarrow> bool \<Rightarrow> string \<Rightarrow>
     (int \<times> int) list \<Rightarrow> (int \<times> int) list result" where
  "entry_step defd expand native ptr es =
     (if is_group ptr then
        (case syscall_find_group defd ptr of
           None \<Rightarrow> Inl (UnknownGroup ptr)
         | Some new_list \<Rightarrow> bind_result (expand new_list) (\<lambda>fs. Inr (es @ fs)))
      else bind_result (read_entry native ptr) (\<lambda>r. Inr (es @ (case r of None \<Rightarrow> [] | Some e \<Rightarrow> [e]))))"

lemma list_entries_n_fold:
  assumes "list_entries_n defd (Suc n) native l = Inr es"
  shows "fold_result (entry_step defd (list_entries_n defd n native) native) (strtok (CHR '','') l) [] = Inr es"
proof -
  have "strtok (CHR '','') l \<noteq> []" using assms by auto
  with assms show ?thesis by (simp add: entry_step_def [abs_def])
qed

lemma entry_step_append: "entry_step defd f native x s = Inr t \<Longrightarrow> \<exists>u. t = s @ u"
  by (auto simp: entry_step_def bind_result_eq_Inr_iff split: if_splits option.splits)

lemma list_entries_step_inv:
  assumes "list_entries_n defd (Suc n) native l = Inr es"
    and "\<And>t e. t \<in> set (strtok (CHR '','') l) \<Longrightarrow> \<not> is_group t \<Longrightarrow> read_entry native t = Inr (Some e) \<Longrightarrow> P e"
    and "\<And>t m fs. t \<in> set (strtok (CHR '','') l) \<Longrightarrow> is_group t \<Longrightarrow> syscall_find_group defd t = Some m \<Longrightarrow>
      list_entries_n defd n native m = Inr fs \<Longrightarrow> list_all P fs"
  shows "list_all P es"
  using list_entries_n_fold [OF assms(1)]
  by (rule fold_result_inv [rotated -1])
    (auto simp: entry_step_def bind_result_eq_Inr_iff assms(2,3) split: if_splits option.splits)

text \<open>The words of a group, those of the groups it names included.\<close>

inductive in_group :: "(string \<Rightarrow> bool) \<Rightarrow> string \<Rightarrow> string \<Rightarrow> bool" for defd where
  direct: "syscall_find_group defd g = Some l \<Longrightarrow> w \<in> set (strtok (CHR '','') l) \<Longrightarrow> \<not> is_group w \<Longrightarrow>
    in_group defd g w"
| nested: "syscall_find_group defd g = Some l \<Longrightarrow> t \<in> set (strtok (CHR '','') l) \<Longrightarrow> is_group t \<Longrightarrow>
    in_group defd t w \<Longrightarrow> in_group defd g w"

lemma group_entries_sound:
  "syscall_find_group defd g = Some l \<Longrightarrow> list_entries_n defd n native l = Inr es \<Longrightarrow>
   list_all (\<lambda>e. snd e = -1 \<and> (\<exists>w. in_group defd g w \<and> (w, fst e) \<in> set (table_of native))) es"
proof (induction n arbitrary: g l es)
  case (Suc n)
  show ?case
  proof (rule list_entries_step_inv [OF Suc.prems(2)])
    fix t e assume t: "t \<in> set (strtok (CHR '','') l)" "\<not> is_group t" and r: "read_entry native t = Inr (Some e)"
    from read_entry_plain [OF group_word_plain [OF Suc.prems(1) t(1)] strtok_nonempty [OF t(1)] r]
      in_group.direct [OF Suc.prems(1) t]
    show "snd e = -1 \<and> (\<exists>w. in_group defd g w \<and> (w, fst e) \<in> set (table_of native))" by blast
  next
    fix t m fs assume t: "t \<in> set (strtok (CHR '','') l)" "is_group t"
      and m: "syscall_find_group defd t = Some m" "list_entries_n defd n native m = Inr fs"
    from Suc.IH [OF m] in_group.nested [OF Suc.prems(1) t]
    show "list_all (\<lambda>e. snd e = -1 \<and> (\<exists>w. in_group defd g w \<and> (w, fst e) \<in> set (table_of native))) fs"
      by (fastforce simp: list_all_iff)
  qed
qed simp

lemma single_group: "strtok (CHR '','') (CHR ''@'' # g) = [CHR ''@'' # g]" if "CHR '','' \<notin> set g"
  using that by (simp add: strtok_word)

lemma list_entries_group_eq:
  assumes "CHR '','' \<notin> set g" "syscall_find_group defd (CHR ''@'' # g) = Some l"
  shows "list_entries_n defd (Suc n) native (CHR ''@'' # g) = list_entries_n defd n native l"
  using assms by (cases "list_entries_n defd n native l") (simp_all add: single_group is_group_def)

definition default_group :: "bool \<Rightarrow> string" where
  "default_group allow_debuggers = (if \<not> allow_debuggers then ''@default-nodebuggers'' else ''@default'')"

lemma fold_result_mem:
  assumes "\<And>x s t. f x s = Inr t \<Longrightarrow> \<exists>u. t = s @ u" "x \<in> set xs" "fold_result f xs s = Inr t"
  shows "\<exists>s0 u. f x s0 = Inr (s0 @ u) \<and> set u \<subseteq> set t"
  using assms(2,3)
proof (induction xs arbitrary: s)
  case (Cons y ys)
  from Cons.prems(2) obtain v where v: "f y s = Inr v" "fold_result f ys v = Inr t"
    by (auto simp: bind_result_eq_Inr_iff)
  have "\<exists>w. t = v @ w"
    using v(2) by (rule fold_result_inv [where I = "\<lambda>t. \<exists>w. t = v @ w", rotated -1])
      (auto dest: assms(1))
  then have t: "set v \<subseteq> set t" by auto
  from assms(1) [OF v(1)] obtain u where u: "v = s @ u" by blast
  show ?case
  proof (cases "x = y")
    case True
    with v(1) u t show ?thesis by auto
  next
    case False
    with Cons.prems(1) Cons.IH [OF _ v(2)] show ?thesis by simp
  qed
qed simp

lemma list_entries_step_mem:
  assumes "list_entries_n defd (Suc n) native l = Inr es" "t \<in> set (strtok (CHR '','') l)"
  shows "\<not> is_group t \<Longrightarrow> read_entry native t = Inr (Some e) \<Longrightarrow> e \<in> set es"
    and "is_group t \<Longrightarrow> syscall_find_group defd t = Some m \<Longrightarrow>
      \<exists>fs. list_entries_n defd n native m = Inr fs \<and> set fs \<subseteq> set es"
  using fold_result_mem [OF entry_step_append assms(2) list_entries_n_fold [OF assms(1)]]
  by (auto simp: entry_step_def bind_result_eq_Inr_iff split: if_splits option.splits)


lemma group_entries_complete:
  "in_group defd g w \<Longrightarrow> (w, k) \<in> set (table_of native) \<Longrightarrow> syscall_find_group defd g = Some l \<Longrightarrow>
   list_entries_n defd n native l = Inr es \<Longrightarrow> (k, -1) \<in> set es"
proof (induction arbitrary: l n es rule: in_group.induct)
  case (direct g l' w)
  then obtain m where "n = Suc m" by (cases n) auto
  with direct list_entries_step_mem(1) read_entry_name show ?case by (metis option.inject)
next
  case (nested g l' t w)
  then obtain m where m: "n = Suc m" by (cases n) auto
  from syscall_find_group_refs(2) [OF nested.hyps(1-3)] obtain tl' where
    tl: "syscall_find_group defd t = Some tl'" by blast
  have l: "l' = l" using nested.hyps(1) nested.prems(2) by simp
  from list_entries_step_mem(2) [OF nested.prems(3) [unfolded m] nested.hyps(2) [unfolded l] nested.hyps(3) tl]
  obtain fs where "list_entries_n defd m native tl' = Inr fs" "set fs \<subseteq> set es" by blast
  with nested.IH [OF nested.prems(1) tl] show ?case by blast
qed

lemma default_entries:
  assumes "list_entries defd native (default_group ad) = Inr ds"
  shows "list_all (\<lambda>e. snd e = -1) ds"
    "(s, -1) \<in> set ds \<longleftrightarrow> (\<exists>w. in_group defd (default_group ad) w \<and> (w, s) \<in> set (table_of native))"
proof -
  obtain g l where g: "default_group ad = CHR ''@'' # g" "CHR '','' \<notin> set g"
    "syscall_find_group defd (CHR ''@'' # g) = Some l"
    by (cases ad) (auto simp: default_group_def syscall_find_group_def sysgroups_def)
  have "list_entries_n defd (Suc 3) native (CHR ''@'' # g) = Inr ds"
    using assms g(1) by (simp add: list_entries_def)
  then have l: "list_entries_n defd 3 native l = Inr ds"
    unfolding list_entries_group_eq [OF g(2,3)] .
  note sound = group_entries_sound [OF g(3) l] and complete = group_entries_complete [OF _ _ g(3) l]
  show "list_all (\<lambda>e. snd e = -1) ds" using sound by (simp add: list_all_iff)
  show "(s, -1) \<in> set ds \<longleftrightarrow> (\<exists>w. in_group defd (default_group ad) w \<and> (w, s) \<in> set (table_of native))"
    unfolding g(1) using sound complete by (fastforce simp: list_all_iff)
qed

text \<open>The headers leave no group without a word.\<close>

definition groups_present :: "(string \<Rightarrow> bool) \<Rightarrow> bool" where
  "groups_present defd \<longleftrightarrow> list_all (\<lambda>(n, items). list_ex (\<lambda>(g, t). guard_holds defd g) items) sysgroups"

lemma group_nonempty:
  assumes "groups_present defd" "syscall_find_group defd g = Some l"
  shows "strtok (CHR '','') l \<noteq> []"
proof -
  from assms(2) obtain items where i: "(g, items) \<in> set sysgroups" "l = group_text defd items"
    unfolding syscall_find_group_def by (auto dest: group_table_find_Some)
  from i(1) assms(1) sysgroups_wf have "items_wf items" "list_ex (\<lambda>(g, t). guard_holds defd g) items"
    by (auto simp: groups_present_def list_all_iff)
  then show ?thesis using i(2) by (auto simp: strtok_group_text list_ex_iff filter_empty_conv)
qed

lemma fold_result_succeeds:
  "(\<And>x s. x \<in> set xs \<Longrightarrow> \<exists>t. f x s = Inr t) \<Longrightarrow> \<exists>t. fold_result f xs s = Inr t"
proof (induction xs arbitrary: s)
  case (Cons x xs)
  from Cons.prems obtain t where "f x s = Inr t" by fastforce
  with Cons show ?case by simp
qed simp

lemma read_entry_plain_succeeds:
  assumes "CHR '':'' \<notin> set t" "hd t \<noteq> CHR ''!''" "t \<noteq> []"
  shows "\<exists>r. read_entry native t = Inr r"
  using assms by (simp add: read_entry_def syscall_process_name_def cut_at_no_sep Let_def)

lemma group_entries_succeed:
  assumes "groups_present defd"
  shows "syscall_find_group defd g = Some l \<Longrightarrow> group_rank g < n \<Longrightarrow>
    \<exists>es. list_entries_n defd n native l = Inr es"
proof (induction n arbitrary: g l)
  case (Suc n)
  have "\<exists>t. entry_step defd (list_entries_n defd n native) native x s = Inr t"
    if x: "x \<in> set (strtok (CHR '','') l)" for x s
  proof (cases "is_group x")
    case True
    from syscall_find_group_refs [OF Suc.prems(1) x True] obtain m where
      "syscall_find_group defd x = Some m" "group_rank x < n" using Suc.prems(2) by auto
    with Suc.IH [OF this] True show ?thesis by (auto simp: entry_step_def)
  next
    case False
    from read_entry_plain_succeeds [OF group_word_plain(1,2) [OF Suc.prems(1) x] strtok_nonempty [OF x], of native] False
    show ?thesis by (auto simp: entry_step_def)
  qed
  from fold_result_succeeds [OF this] group_nonempty [OF assms Suc.prems(1)] show ?case
    by (simp add: entry_step_def [abs_def])
qed simp

lemma default_entries_succeed:
  assumes "groups_present defd"
  shows "\<exists>ds. list_entries defd native (default_group ad) = Inr ds"
proof -
  obtain g l where g: "default_group ad = CHR ''@'' # g" "CHR '','' \<notin> set g"
    "syscall_find_group defd (CHR ''@'' # g) = Some l"
    by (cases ad) (auto simp: default_group_def syscall_find_group_def sysgroups_def)
  have "group_rank (CHR ''@'' # g) < 3" using group_rank_le [of "CHR ''@'' # g"] by simp
  from group_entries_succeed [OF assms g(3) this] show ?thesis
    using list_entries_group_eq [OF g(2,3), of 3 native] g(1) by (auto simp: list_entries_def)
qed

subsection \<open>The rules of a list\<close>

definition entry_rules :: "(int \<Rightarrow> rule list) \<Rightarrow> int \<times> int \<Rightarrow> rule list" where
  "entry_rules plain e =
     (if snd e \<ge> 0 then [(word_of_int (fst e), SECCOMP_RET_ERRNO OR word_of_int (snd e))]
      else if snd e = ERRNO_KILL then (if fst e \<ge> 0 then [(word_of_int (fst e), SECCOMP_RET_KILL)] else [])
      else plain (fst e))"

definition list_rules :: "(int \<Rightarrow> rule list) \<Rightarrow> (int \<times> int) list \<Rightarrow> rule list" where
  "list_rules plain es = concat (map (entry_rules plain) es)"

definition listed :: "u32 \<Rightarrow> int \<Rightarrow> rule list" where
  "listed verdict s = (if s \<ge> 0 then [(word_of_int s, verdict)] else [])"

definition excluded :: "u32 \<Rightarrow> int \<Rightarrow> rule list" where
  "excluded verdict s = (if s < 0 then [(word_of_int (c_int (- s)), verdict)] else [])"

lemma add_rules_fold:
  "fold (\<lambda>e. add_rules (entry_rules plain e)) es st = add_rules (list_rules plain es) st"
  by (induction es arbitrary: st) (simp_all add: list_rules_def)

lemma check_list_rules_n:
  assumes "\<And>s a st. cb fd s a native st = Inr (add_rules (plain s) st)" and "fd > 0" "4 \<le> n"
  shows "syscall_check_list defd n l (Some cb) fd arg native st =
    bind_result (list_entries defd native l) (\<lambda>es. Inr (add_rules (list_rules plain es) st))"
proof -
  have "syscall_check_list defd n l (Some cb) fd arg native st =
    bind_result (list_entries_n defd n native l)
      (\<lambda>es. Inr (fold (\<lambda>e. add_rules (entry_rules plain e)) es st))"
    by (rule check_list_refines [where I = "\<lambda>_. True"])
      (auto simp: dispatch_def assms filter_fns_rules entry_rules_def split: prod.splits)
  then show ?thesis by (simp add: add_rules_fold list_entries_more_fuel [OF assms(3)])
qed

lemma check_list_rules:
  assumes "\<And>s a st. cb fd s a native st = Inr (add_rules (plain s) st)" and "fd > 0"
  shows "check_list defd l cb fd arg native st =
    bind_result (list_entries defd native l) (\<lambda>es. Inr (add_rules (list_rules plain es) st))"
  unfolding check_list_def by (rule check_list_rules_n) (simp_all add: assms)

lemmas check_list_fns =
  check_list_rules [where cb = "filter_add_blacklist act" and plain = "listed act" for act]
  check_list_rules [where cb = filter_add_whitelist and plain = "listed SECCOMP_RET_ALLOW"]
  check_list_rules [where cb = filter_add_whitelist_for_excluded and plain = "excluded SECCOMP_RET_ALLOW"]
  check_list_rules [where cb = "filter_add_blacklist_for_excluded act" and plain = "excluded act" for act]



end
