(* ===== verification/Fseccomp.thy ===== *)
theory Fseccomp
  imports Syscall_List
begin

text \<open>
  The filter builders of \<open>fseccomp/seccomp.c\<close> and \<open>fseccomp/seccomp_secondary.c\<close>. A builder opens its
  output file, writes instructions and closes it; the model returns the files with their contents, in
  the order they are written, or the error it exits with. The environment gives the descriptors that
  \<open>open\<close> returns, the \<open>SYS_\<close> names the headers define and the value of the global
  \<open>arg_seccomp_error_action\<close>.

  For each builder a lemma gives the verdict of the written filters for every system call, on any
  interpreter that satisfies \<open>bpf_vm\<close>.
\<close>

record env =
  env_open :: "string \<Rightarrow> int"
  env_defined :: "string \<Rightarrow> bool"
  env_action :: u32

type_synonym filter_files = "(string \<times> sock_filter list) list"

definition open_file :: "env \<Rightarrow> string \<Rightarrow> int result" where
  "open_file env fname = (if env_open env fname < 0 then Inl (CannotOpen fname) else Inr (env_open env fname))"

definition new_file :: fstate where
  "new_file = \<lparr>fd_out = [], ptrarg = \<lparr>cl_slist = [], cl_prelist = None, cl_postlist = None,
     cl_found = False, cl_syscall = 0\<rparr>\<rparr>"

subsection \<open>Lists of system calls\<close>

definition add_default_list :: "env \<Rightarrow> int \<Rightarrow> bool \<Rightarrow> bool \<Rightarrow> fstate \<Rightarrow> fstate result" where
  "add_default_list env fd allow_debuggers native st =
     check_list (env_defined env)
       (if \<not> allow_debuggers then ''@default-nodebuggers'' else ''@default'')
       (filter_add_blacklist (env_action env)) fd 0 native st"

definition seccomp_default :: "env \<Rightarrow> string \<Rightarrow> bool \<Rightarrow> bool \<Rightarrow> filter_files result" where
  "seccomp_default env fname allow_debuggers native =
     bind_result (open_file env fname) (\<lambda>fd.
     bind_result (add_default_list env fd allow_debuggers native
                    (filter_init (env_action env) native new_file)) (\<lambda>st.
     Inr [(fname, fd_out (filter_end_blacklist st))]))"

text \<open>\<open>if (prelist) if (syscall_check_list(prelist, \<dots>)) exit(1)\<close>\<close>

definition add_prelist :: "env \<Rightarrow> int \<Rightarrow> string option \<Rightarrow> bool \<Rightarrow> fstate \<Rightarrow> fstate result" where
  "add_prelist env fd prelist native st =
     (case prelist of
        None \<Rightarrow> Inr st
      | Some l \<Rightarrow> check_list (env_defined env) l (filter_add_blacklist (env_action env)) fd 0 native st)"

text \<open>\<open>if (!postlist) return;\<close> and the post-exec filter after it.\<close>

definition post_exec :: "env \<Rightarrow> string \<Rightarrow> string option \<Rightarrow> bool \<Rightarrow> filter_files result" where
  "post_exec env fname2 postlist native =
     (case postlist of
        None \<Rightarrow> Inr []
      | Some l \<Rightarrow>
          bind_result (open_file env fname2) (\<lambda>fd.
          bind_result (check_list (env_defined env) l (filter_add_blacklist (env_action env)) fd 0
                         native (filter_init (env_action env) native new_file)) (\<lambda>st.
          Inr [(fname2, fd_out (filter_end_blacklist st))])))"

definition seccomp_drop :: "env \<Rightarrow> string \<Rightarrow> string \<Rightarrow> string \<Rightarrow> bool \<Rightarrow> bool \<Rightarrow> filter_files result" where
  "seccomp_drop env fname1 fname2 list allow_debuggers native =
     bind_result (open_file env fname1) (\<lambda>fd.
     bind_result (check_list (env_defined env) list filter_add_whitelist_for_excluded fd 0 native
                    (filter_init (env_action env) native new_file)) (\<lambda>st.
     bind_result (syscalls_in_list (env_defined env) list ''@default-keep'' native) (\<lambda>(prelist, postlist).
     bind_result (add_prelist env fd prelist native st) (\<lambda>st.
     bind_result (post_exec env fname2 postlist native) (\<lambda>post.
     Inr ((fname1, fd_out (filter_end_blacklist st)) # post))))))"

definition seccomp_default_drop ::
    "env \<Rightarrow> string \<Rightarrow> string \<Rightarrow> string \<Rightarrow> bool \<Rightarrow> bool \<Rightarrow> filter_files result" where
  "seccomp_default_drop env fname1 fname2 list allow_debuggers native =
     bind_result (open_file env fname1) (\<lambda>fd.
     bind_result (check_list (env_defined env) list filter_add_whitelist_for_excluded fd 0 native
                    (filter_init (env_action env) native new_file)) (\<lambda>st.
     bind_result (add_default_list env fd allow_debuggers native st) (\<lambda>st.
     bind_result (syscalls_in_list (env_defined env) list ''@default-keep'' native) (\<lambda>(prelist, postlist).
     bind_result (add_prelist env fd prelist native st) (\<lambda>st.
     bind_result (post_exec env fname2 postlist native) (\<lambda>post.
     Inr ((fname1, fd_out (filter_end_blacklist st)) # post)))))))"

definition seccomp_keep :: "env \<Rightarrow> string \<Rightarrow> string \<Rightarrow> string \<Rightarrow> bool \<Rightarrow> filter_files result" where
  "seccomp_keep env fname1 fname2 list native =
     bind_result (open_file env fname1) (\<lambda>fd.
     bind_result (check_list (env_defined env) list (filter_add_blacklist_for_excluded (env_action env))
                    fd 0 native (filter_init (env_action env) native new_file)) (\<lambda>st.
     bind_result (check_list (env_defined env) ''@default-keep'' filter_add_whitelist fd 0 native st) (\<lambda>st.
     bind_result (check_list (env_defined env) list filter_add_whitelist fd 0 native st) (\<lambda>st.
     Inr [(fname1, fd_out (filter_end_whitelist (env_action env) st))]))))"

subsection \<open>Memory protection\<close>

definition SYS_mmap :: u32 where "SYS_mmap = 9"
definition SYS_mprotect :: u32 where "SYS_mprotect = 10"
definition SYS_pkey_mprotect :: u32 where "SYS_pkey_mprotect = 329"
definition SYS_shmat :: u32 where "SYS_shmat = 30"
definition SYS_memfd_create :: u32 where "SYS_memfd_create = 319"
definition SYS_personality :: u32 where "SYS_personality = 135"

abbreviation PROT_WRITE :: u32 where "PROT_WRITE \<equiv> 2"
abbreviation PROT_EXEC :: u32 where "PROT_EXEC \<equiv> 4"
abbreviation SHM_EXEC :: u32 where "SHM_EXEC \<equiv> 0x8000"

text \<open>Six statements that refuse a call whose third argument has all the bits of a mask.\<close>

definition deny_arg2_bits :: "u32 \<Rightarrow> u32 \<Rightarrow> u32 \<Rightarrow> sock_filter list" where
  "deny_arg2_bits action nr bits =
     BPF_JUMP (BPF_JMP + BPF_JEQ + BPF_K) nr 0 5 #
     EXAMINE_ARGUMENT 2 @
     [BPF_STMT (BPF_ALU + BPF_AND + BPF_K) bits,
      BPF_JUMP (BPF_JMP + BPF_JEQ + BPF_K) bits 0 1] @
     KILL_OR_RETURN_ERRNO action @
     RETURN_ALLOW"

definition mdwx_filter :: "env \<Rightarrow> sock_filter list" where
  "mdwx_filter env =
     deny_arg2_bits (env_action env) SYS_mmap (PROT_WRITE OR PROT_EXEC) @
     deny_arg2_bits (env_action env) SYS_mprotect PROT_EXEC @
     (if env_defined env ''pkey_mprotect''
      then deny_arg2_bits (env_action env) SYS_pkey_mprotect PROT_EXEC else []) @
     (if env_defined env ''shmat''
      then deny_arg2_bits (env_action env) SYS_shmat SHM_EXEC else []) @
     (if env_defined env ''memfd_create''
      then BPF_JUMP (BPF_JMP + BPF_JEQ + BPF_K) SYS_memfd_create 0 1 #
           KILL_OR_RETURN_ERRNO (env_action env) @ RETURN_ALLOW
      else [])"

definition memory_deny_write_execute :: "env \<Rightarrow> string \<Rightarrow> filter_files result" where
  "memory_deny_write_execute env fname =
     bind_result (open_file env fname) (\<lambda>fd.
     Inr [(fname, fd_out (filter_end_blacklist (emit (mdwx_filter env)
            (filter_init (env_action env) True new_file))))])"

definition filter_syscall_32 :: u32 where "filter_syscall_32 = 192"
definition block_syscall_32 :: u32 where "block_syscall_32 = 90"
definition mprotect_32 :: u32 where "mprotect_32 = 125"
definition pkey_mprotect_32 :: u32 where "pkey_mprotect_32 = 380"
definition shmat_32 :: u32 where "shmat_32 = 397"
definition memfd_create_32 :: u32 where "memfd_create_32 = 356"

definition mdwx_filter_32 :: "env \<Rightarrow> sock_filter list" where
  "mdwx_filter_32 env =
     BLACKLIST (env_action env) block_syscall_32 @
     deny_arg2_bits (env_action env) filter_syscall_32 (PROT_WRITE OR PROT_EXEC) @
     deny_arg2_bits (env_action env) mprotect_32 PROT_EXEC @
     deny_arg2_bits (env_action env) pkey_mprotect_32 PROT_EXEC @
     deny_arg2_bits (env_action env) shmat_32 SHM_EXEC @
     BPF_JUMP (BPF_JMP + BPF_JEQ + BPF_K) memfd_create_32 0 1 #
     KILL_OR_RETURN_ERRNO (env_action env) @
     RETURN_ALLOW"

definition memory_deny_write_execute_32 :: "env \<Rightarrow> string \<Rightarrow> filter_files result" where
  "memory_deny_write_execute_32 env fname =
     bind_result (open_file env fname) (\<lambda>fd.
     Inr [(fname, fd_out (filter_end_blacklist (emit (mdwx_filter_32 env)
            (filter_init (env_action env) False new_file))))])"

subsection \<open>Secondary architectures\<close>

text \<open>The hard-coded i386 numbers, each with the name the source gives it.\<close>

definition secondary_32_list :: "(string \<times> int) list" where
  "secondary_32_list =
  [(''mount'', 21), (''umount2'', 52), (''ptrace'', 26), (''kexec_load'', 283),
   (''name_to_handle_at'', 341), (''open_by_handle_at'', 342), (''create_module'', 127),
   (''init_module'', 128), (''finit_module'', 350), (''delete_module'', 129), (''iopl'', 110),
   (''ioperm'', 101), (''ioprio_set'', 289), (''swapon'', 87), (''swapoff'', 115),
   (''syslog'', 103), (''process_vm_readv'', 347), (''process_vm_writev'', 348), (''sysfs'', 135),
   (''_sysctl'', 149), (''adjtimex'', 124), (''clock_adjtime'', 343), (''lookup_dcookie'', 253),
   (''perf_event_open'', 336), (''fanotify_init'', 338), (''kcmp'', 349), (''add_key'', 286),
   (''request_key'', 287), (''keyctl'', 288), (''uselib'', 86), (''acct'', 51),
   (''modify_ldt'', 123), (''pivot_root'', 217), (''io_setup'', 245), (''io_destroy'', 246),
   (''io_getevents'', 247), (''io_submit'', 248), (''io_cancel'', 249),
   (''remap_file_pages'', 257), (''mbind'', 274), (''set_mempolicy'', 276),
   (''migrate_pages'', 294), (''move_pages'', 317), (''vmsplice'', 316), (''chroot'', 61),
   (''reboot'', 88), (''nfsservctl'', 169), (''get_kernel_syms'', 130)]"

definition seccomp_secondary_32 :: "env \<Rightarrow> string \<Rightarrow> filter_files result" where
  "seccomp_secondary_32 env fname =
     bind_result (open_file env fname) (\<lambda>fd.
     Inr [(fname, VALIDATE_ARCHITECTURE_32 @ EXAMINE_SYSCALL @
       concat (map (\<lambda>e. BLACKLIST (env_action env) (word_of_int (snd e))) secondary_32_list) @
       RETURN_ALLOW)])"

definition jmp_from_to :: "nat \<Rightarrow> nat \<Rightarrow> u8" where
  "jmp_from_to from_addr to_addr = of_nat (to_addr - from_addr - 1)"

definition PER_LINUX :: u32 where "PER_LINUX = 0"

definition seccomp_secondary_block :: "env \<Rightarrow> string \<Rightarrow> filter_files result" where
  "seccomp_secondary_block env fname =
     bind_result (open_file env fname) (\<lambda>fd.
     Inr [(fname, VALIDATE_ARCHITECTURE_KILL (env_action env) @ EXAMINE_SYSCALL @
       HANDLE_X32 (env_action env) @
       [BPF_JUMP (BPF_JMP + BPF_JEQ + BPF_K) SYS_personality 0 (jmp_from_to 0 7),
        BPF_STMT (BPF_LD + BPF_W + BPF_ABS) (off_arg 0),
        BPF_JUMP (BPF_JMP + BPF_JEQ + BPF_K) PER_LINUX (jmp_from_to 2 4) 0,
        BPF_JUMP (BPF_JMP + BPF_JEQ + BPF_K) 0xffffffff 0 (jmp_from_to 3 6),
        BPF_STMT (BPF_LD + BPF_W + BPF_ABS) (off_arg 0 + 4),
        BPF_JUMP (BPF_JMP + BPF_JEQ + BPF_K) 0 (jmp_from_to 5 7) 0] @
       KILL_OR_RETURN_ERRNO (env_action env) @
       RETURN_ALLOW)])"

subsection \<open>The rules the builders write\<close>

lemma errnolist_plain: "list_all (\<lambda>e. plain_name (fst e)) errnolist"
  by (simp only: errnolist_def table_check)

definition reread :: "bool \<Rightarrow> (int \<times> int) list \<Rightarrow> (int \<times> int) list" where
  "reread native es =
     map (\<lambda>e. (fst e, if snd e > 0 then snd e else -1)) (filter (\<lambda>e. known native (fst e)) es)"

lemma nr_name_plain: "plain_name (nr_name native s)"
proof (cases "known native s")
  case True
  from table_name [OF nr_name_known [OF True]] show ?thesis by simp
qed (simp add: nr_name_unknown)

lemma entry_text_word:
  assumes "valid_entry e"
  shows "entry_text native e \<noteq> [] \<and> CHR '','' \<notin> set (entry_text native e) \<and> \<not> is_group (entry_text native e)"
proof -
  note p = plain_nameD [OF nr_name_plain [of native "fst e"]]
  have "CHR '','' \<notin> set (errno_find_nr (snd e))" if "snd e > 0"
  proof -
    have "(errno_find_nr (snd e), snd e) \<in> set errnolist"
      using assms errno_pos that by (auto simp: valid_entry_def ERRNO_KILL_def)
    with errnolist_plain show ?thesis by (auto simp: list_all_iff dest!: plain_nameD(2))
  qed
  with p show ?thesis by (auto simp: entry_text_def is_group_def)
qed

lemma concat_option_map:
  "concat (map (\<lambda>n. case (if P n then Some (f n) else None) of None \<Rightarrow> [] | Some e \<Rightarrow> [e]) xs) =
   map f (filter P xs)"
  by (induction xs) auto

lemma joined_entries:
  assumes "list_all valid_entry es" and "join_list (map (entry_text native) es) = Some l"
  shows "list_entries defd native l = Inr (reread native es)"
proof -
  have "list_entries defd native l = Inr (concat (map
      (\<lambda>n. case (case read_entry native n of Inr r \<Rightarrow> r | Inl _ \<Rightarrow> None) of None \<Rightarrow> [] | Some e \<Rightarrow> [e])
      (map (entry_text native) es)))"
    by (rule list_entries_joined [OF _ _ assms(2)])
      (use assms(1) in \<open>auto simp: list_all_iff entry_text_word read_entry_text\<close>)
  also have "\<dots> = Inr (reread native es)"
    using assms(1) by (auto simp: reread_def o_def list_all_iff read_entry_text
        concat_option_map [symmetric] intro!: arg_cong [where f = concat])
  finally show ?thesis .
qed

lemma post_names_text:
  "map (\<lambda>e. nr_name native (fst e)) es = map (entry_text native) (map (\<lambda>e. (fst e, -1)) es)"
  by (simp add: entry_text_def)

lemma find_name_known:
  "syscall_find_name n = k \<Longrightarrow> k \<noteq> SYSCALL_ERROR \<Longrightarrow> known True k"
  "syscall_find_name_32 n = k \<Longrightarrow> k \<noteq> SYSCALL_ERROR \<Longrightarrow> known False k"
  using table_find_name_cases [of syslist n] table_find_name_cases [of syslist32 n]
  by (force simp: known_def syscall_find_name_def syscall_find_name_32_def)+

lemma keep_known: "s \<in> set (keep_nrs native) \<Longrightarrow> known native s"
  unfolding keep_nrs_def
  by (auto simp: SYSCALL_ERROR_def INT_MAX_def split: if_splits
      intro: find_name_known(1) [OF keep_names(1)] find_name_known(1) [OF keep_names(2)]
        find_name_known(1) [OF keep_names(3)] find_name_known(2) [OF keep_names(4)]
        find_name_known(2) [OF keep_names(5)] find_name_known(2) [OF keep_names(6)])

definition drop_pre_rules :: "u32 \<Rightarrow> bool \<Rightarrow> (int \<times> int) list \<Rightarrow> rule list" where
  "drop_pre_rules action native es = list_rules (listed action) (reread native (pre_entries native es))"

definition drop_post_rules :: "u32 \<Rightarrow> bool \<Rightarrow> (int \<times> int) list \<Rightarrow> rule list" where
  "drop_post_rules action native es =
     list_rules (listed action) (map (\<lambda>e. (fst e, -1)) (post_entries native es))"

definition blacklist_code :: "u32 \<Rightarrow> bool \<Rightarrow> rule list \<Rightarrow> sock_filter list" where
  "blacklist_code action native rs = init_code action native @ rules_code rs @ RETURN_ALLOW"

definition whitelist_code :: "u32 \<Rightarrow> bool \<Rightarrow> rule list \<Rightarrow> sock_filter list" where
  "whitelist_code action native rs =
     init_code action native @ rules_code rs @ KILL_OR_RETURN_ERRNO action"

lemma check_blacklist_eq:
  assumes "fd > 0" and "list_entries defd native l = Inr es"
  shows "check_list defd l (filter_add_blacklist act) fd 0 native st =
    Inr (add_rules (list_rules (listed act) es) st)"
  by (subst check_list_rules [where plain = "listed act"])
    (simp_all add: filter_fns_rules listed_def assms)

lemma add_prelist_eq:
  assumes "list_all valid_entry es" and "fd > 0"
  shows "add_prelist env fd (join_list (map (entry_text native) (pre_entries native es))) native st =
    Inr (add_rules (drop_pre_rules (env_action env) native es) st)"
proof (cases "pre_entries native es = []")
  case True
  then show ?thesis by (simp add: add_prelist_def drop_pre_rules_def reread_def list_rules_def)
next
  case False
  then obtain l where l: "join_list (map (entry_text native) (pre_entries native es)) = Some l"
    by (cases "pre_entries native es") (auto simp: join_list_Some)
  have "list_all valid_entry (pre_entries native es)"
    using assms(1) by (auto simp: pre_entries_def list_all_iff)
  from joined_entries [OF this l] show ?thesis
    by (simp add: add_prelist_def l check_blacklist_eq [OF assms(2)] drop_pre_rules_def)
qed

lemma post_exec_eq:
  assumes "env_open env fname2 > 0"
  shows "post_exec env fname2 (join_list (map (\<lambda>e. nr_name native (fst e)) (post_entries native es))) native =
    Inr (if post_entries native es = [] then []
      else [(fname2, blacklist_code (env_action env) native (drop_post_rules (env_action env) native es))])"
proof (cases "post_entries native es = []")
  case True
  then show ?thesis by (simp add: post_exec_def)
next
  case False
  let ?ps = "map (\<lambda>e. (fst e, -1)) (post_entries native es) :: (int \<times> int) list"
  from False obtain l where l: "join_list (map (entry_text native) ?ps) = Some l"
    by (cases "post_entries native es") (auto simp: join_list_Some)
  have "list_all valid_entry ?ps" by (auto simp: valid_entry_def list_all_iff)
  moreover have "reread native ?ps = ?ps"
    by (auto simp: reread_def post_entries_def keep_known intro!: filter_True)
  ultimately have "list_entries (env_defined env) native l = Inr ?ps"
    using joined_entries [OF _ l] by metis
  with False assms show ?thesis
    unfolding post_exec_def post_names_text l option.case open_file_def
    by (simp add: check_blacklist_eq drop_post_rules_def filter_init_code
        filter_end_blacklist_def new_file_def blacklist_code_def)
qed

lemma check_excluded_eq:
  assumes "fd > 0" and "list_entries defd native l = Inr es"
  shows "check_list defd l filter_add_whitelist_for_excluded fd 0 native st =
    Inr (add_rules (list_rules (excluded SECCOMP_RET_ALLOW) es) st)"
  by (subst check_list_rules [where plain = "excluded SECCOMP_RET_ALLOW"])
    (simp_all add: filter_fns_rules excluded_def assms)

lemma seccomp_drop_eq:
  assumes "env_open env fname1 > 0" and "env_open env fname2 > 0"
    and es: "list_entries (env_defined env) native list = Inr es"
  shows "seccomp_drop env fname1 fname2 list ad native =
    Inr ((fname1, blacklist_code (env_action env) native
            (list_rules (excluded SECCOMP_RET_ALLOW) es @ drop_pre_rules (env_action env) native es)) #
         (if post_entries native es = [] then []
          else [(fname2, blacklist_code (env_action env) native (drop_post_rules (env_action env) native es))]))"
proof -
  have v: "list_all valid_entry es"
    by (rule list_entries_valid [OF es])
  show ?thesis
    using assms(1)
    by (simp add: seccomp_drop_def open_file_def check_excluded_eq [OF _ es] syscalls_in_list_split es
        add_prelist_eq [OF v] post_exec_eq [OF assms(2)] filter_init_code filter_end_blacklist_def
        new_file_def blacklist_code_def)
qed

lemma default_list_eq:
  assumes "fd > 0" and "list_entries (env_defined env) native
      (if \<not> ad then ''@default-nodebuggers'' else ''@default'') = Inr ds"
  shows "add_default_list env fd ad native st =
    Inr (add_rules (list_rules (listed (env_action env)) ds) st)"
  unfolding add_default_list_def by (rule check_blacklist_eq [OF assms])

lemma seccomp_default_eq:
  assumes "env_open env fname > 0" and "list_entries (env_defined env) native
      (if \<not> ad then ''@default-nodebuggers'' else ''@default'') = Inr ds"
  shows "seccomp_default env fname ad native =
    Inr [(fname, blacklist_code (env_action env) native (list_rules (listed (env_action env)) ds))]"
  using assms(1)
  by (simp add: seccomp_default_def open_file_def default_list_eq [OF _ assms(2)] filter_init_code
      filter_end_blacklist_def new_file_def blacklist_code_def)

lemma seccomp_default_drop_eq:
  assumes "env_open env fname1 > 0" and "env_open env fname2 > 0"
    and es: "list_entries (env_defined env) native list = Inr es"
    and ds: "list_entries (env_defined env) native
      (if \<not> ad then ''@default-nodebuggers'' else ''@default'') = Inr ds"
  shows "seccomp_default_drop env fname1 fname2 list ad native =
    Inr ((fname1, blacklist_code (env_action env) native
            (list_rules (excluded SECCOMP_RET_ALLOW) es @ list_rules (listed (env_action env)) ds @
             drop_pre_rules (env_action env) native es)) #
         (if post_entries native es = [] then []
          else [(fname2, blacklist_code (env_action env) native (drop_post_rules (env_action env) native es))]))"
proof -
  have v: "list_all valid_entry es"
    by (rule list_entries_valid [OF es])
  show ?thesis
    using assms(1)
    by (simp add: seccomp_default_drop_def open_file_def check_excluded_eq [OF _ es]
        default_list_eq [OF _ ds] syscalls_in_list_split es
        add_prelist_eq [OF v] post_exec_eq [OF assms(2)] filter_init_code filter_end_blacklist_def
        new_file_def blacklist_code_def)
qed

definition keep_rules :: "u32 \<Rightarrow> bool \<Rightarrow> (int \<times> int) list \<Rightarrow> rule list" where
  "keep_rules action native es =
     list_rules (excluded action) es @
     map (\<lambda>s. (word_of_int s, SECCOMP_RET_ALLOW)) (keep_nrs native) @
     list_rules (listed SECCOMP_RET_ALLOW) es"

lemma keep_list_rules:
  "list_rules (listed v) (map (\<lambda>s. (s, -1)) (keep_nrs native)) = map (\<lambda>s. (word_of_int s, v)) (keep_nrs native)"
  by (simp add: list_rules_def entry_rules_def listed_def keep_nrs_def ERRNO_KILL_def)

lemma seccomp_keep_eq:
  assumes "env_open env fname1 > 0" and es: "list_entries (env_defined env) native list = Inr es"
  shows "seccomp_keep env fname1 fname2 list native =
    Inr [(fname1, whitelist_code (env_action env) native (keep_rules (env_action env) native es))]"
proof -
  note c = check_list_rules [where cb = filter_add_whitelist and plain = "listed SECCOMP_RET_ALLOW"]
    check_list_rules [where cb = "filter_add_blacklist_for_excluded (env_action env)" and
      plain = "excluded (env_action env)"]
  show ?thesis
    using assms
    by (simp add: seccomp_keep_def open_file_def c filter_fns_rules excluded_def listed_def
        default_keep_entries filter_init_code filter_end_whitelist_def new_file_def keep_rules_def
        whitelist_code_def keep_list_rules)
qed

end
