(* ===== verification/Fseccomp_Verdicts.thy ===== *)
theory Fseccomp_Verdicts
  imports Fseccomp
begin

text \<open>
  What the kernel decides with the filters of \<open>Fseccomp\<close>, for every system call and on every interpreter
  that satisfies \<open>bpf_vm\<close>. The filters are compared with specifications by system call name: the words of
  a list or a group, and the calls a memory protection filter is to refuse.
\<close>

subsection \<open>Verdicts\<close>

text \<open>A system call number as the kernel reports it to a filter of the given architecture.\<close>

definition call :: "bool \<Rightarrow> int \<Rightarrow> (nat \<Rightarrow> u64) \<Rightarrow> seccomp_data" where
  "call native s args = \<lparr>sd_nr = word_of_int s, sd_arch = (if native then ARCH_NR else ARCH_32),
     sd_ip = 0, sd_args = args\<rparr>"

lemma call_simps [simp]:
  "sd_nr (call native s args) = word_of_int s"
  "sd_arch (call native s args) = (if native then ARCH_NR else ARCH_32)"
  "sd_args (call native s args) = args"
  by (simp_all add: call_def)

lemma small_word_less: "0 \<le> s \<Longrightarrow> s < 2 ^ 30 \<Longrightarrow> (word_of_int s :: u32) < X32_SYSCALL_BIT"
  by (simp add: X32_SYSCALL_BIT_def word_less_def uint_word_of_int)

lemma decide_call:
  assumes "0 \<le> s" "s < 2 ^ 30"
  shows "decide action native rs dflt (call native s args) =
    (case map_of rs (word_of_int s) of None \<Rightarrow> dflt | Some v \<Rightarrow> v)"
  using small_word_less [OF assms] by (simp add: decide_def not_le [symmetric])

lemma known_range: "known native s \<Longrightarrow> 0 \<le> s \<and> s \<le> 440"
  using table_name [OF nr_name_known] by blast

text \<open>The rules of a list, as a function of the system call number.\<close>

lemma list_rules_mem:
  assumes "(w, v) \<in> set (list_rules plain es)"
  shows "\<exists>e \<in> set es. (w, v) \<in> set (entry_rules plain e)"
  using assms by (auto simp: list_rules_def)

lemma map_of_None: "map_of rs w = None \<longleftrightarrow> w \<notin> fst ` set rs"
  by (simp add: map_of_eq_None_iff)

lemma map_of_only:
  assumes "\<And>v'. (w, v') \<in> set rs \<Longrightarrow> v' = v" and "w \<in> fst ` set rs"
  shows "map_of rs w = Some v"
  using assms by (metis map_of_SomeD map_of_eq_None_iff not_None_eq)

lemma plain_listed_rules:
  assumes "list_all (\<lambda>e. snd e = -1) es"
  shows "list_rules (listed act) es = map (\<lambda>e. (word_of_int (fst e), act)) (filter (\<lambda>e. fst e \<ge> 0) es)"
    and "list_rules (excluded act) es =
      map (\<lambda>e. (word_of_int (c_int (- fst e)), act)) (filter (\<lambda>e. fst e < 0) es)"
  using assms by (induction es)
    (simp_all add: list_rules_def entry_rules_def listed_def excluded_def ERRNO_KILL_def)

lemma plain_reread:
  assumes "list_all (\<lambda>e. snd e = -1) es"
  shows "reread native es = filter (\<lambda>e. known native (fst e)) es"
  using assms by (induction es) (auto simp: reread_def prod_eq_iff)


lemma map_of_key: "map_of (map (\<lambda>x. (f x, v)) xs) w = (if \<exists>x \<in> set xs. f x = w then Some v else None)"
  by (induction xs) auto

lemma entry_word:
  assumes "int_entry e" "0 \<le> s" "s < 2 ^ 30"
  shows "(word_of_int (fst e) :: u32) = word_of_int s \<longleftrightarrow> fst e = s"
    and "(word_of_int (c_int (- fst e)) :: u32) = word_of_int s \<longleftrightarrow> fst e = - s"
proof -
  have r: "- (2 ^ 31) \<le> fst e" "fst e < 2 ^ 31" using assms(1) by (simp_all add: int_entry_def)
  show "(word_of_int (fst e) :: u32) = word_of_int s \<longleftrightarrow> fst e = s"
    using word_of_int_inj [OF _ assms(2,3), of "fst e"] r by auto
  show "(word_of_int (c_int (- fst e)) :: u32) = word_of_int s \<longleftrightarrow> fst e = - s"
    unfolding word_of_int_c_int
    using word_of_int_inj [OF _ assms(2,3), of "- fst e"] r by auto
qed

lemma plain_listed_lookup:
  assumes "list_all (\<lambda>e. snd e = -1) es" "list_all int_entry es" "0 \<le> s" "s < 2 ^ 30"
  shows "map_of (list_rules (listed act) es) (word_of_int s) = (if (s, -1) \<in> set es then Some act else None)"
    and "map_of (list_rules (excluded act) es) (word_of_int s) =
      (if s > 0 \<and> (- s, -1) \<in> set es then Some act else None)"
proof -
  have m: "(k, -1) \<in> set es \<longleftrightarrow> (\<exists>e \<in> set es. fst e = k)" for k
    using assms(1) by (force simp: list_all_iff)
  have w: "(\<exists>e \<in> set (filter P es). (word_of_int (fst e) :: u32) = word_of_int s) \<longleftrightarrow> (\<exists>e \<in> set es. P e \<and> fst e = s)"
    "(\<exists>e \<in> set (filter P es). (word_of_int (c_int (- fst e)) :: u32) = word_of_int s) \<longleftrightarrow>
      (\<exists>e \<in> set es. P e \<and> fst e = - s)" for P
    using assms(2) entry_word [OF _ assms(3,4)] by (auto simp: list_all_iff)
  show "map_of (list_rules (listed act) es) (word_of_int s) = (if (s, -1) \<in> set es then Some act else None)"
    unfolding plain_listed_rules [OF assms(1)] map_of_key w m using assms(3) by auto
  show "map_of (list_rules (excluded act) es) (word_of_int s) =
      (if s > 0 \<and> (- s, -1) \<in> set es then Some act else None)"
    unfolding plain_listed_rules [OF assms(1)] map_of_key w m using assms(3) by auto
qed

lemma blacklist_verdict:
  assumes "bpf_vm run" "0 \<le> s" "s < 2 ^ 30"
  shows "run (blacklist_code action native rs) (call native s args) a =
    (case map_of rs (word_of_int s) of None \<Rightarrow> SECCOMP_RET_ALLOW | Some v \<Rightarrow> v)"
  unfolding blacklist_code_def bpf_vm.run_blacklist_filter [OF assms(1)]
  by (rule decide_call [OF assms(2,3)])

lemma plain_sub:
  assumes "list_all (\<lambda>e. snd e = -1) es" "list_all int_entry es"
  shows "list_all (\<lambda>e. snd e = -1) (filter P es)" "list_all int_entry (filter P es)"
  using assms by (auto simp: list_all_iff)

lemma drop_pre_lookup:
  assumes "list_all (\<lambda>e. snd e = -1) es" "list_all int_entry es" "0 \<le> s" "s < 2 ^ 30"
  shows "map_of (drop_pre_rules act native es) (word_of_int s) =
    (if (s, -1) \<in> set es \<and> known native s \<and> s \<notin> set (keep_nrs native) then Some act else None)"
  unfolding drop_pre_rules_def pre_entries_def
    plain_reread [OF plain_sub(1) [OF assms(1,2)]]
    plain_listed_lookup(1) [OF plain_sub(1) [OF plain_sub [OF assms(1,2)]]
      plain_sub(2) [OF plain_sub [OF assms(1,2)]] assms(3,4)]
  by auto

lemma drop_post_lookup:
  assumes "list_all (\<lambda>e. snd e = -1) es" "list_all int_entry es" "0 \<le> s" "s < 2 ^ 30"
  shows "map_of (drop_post_rules act native es) (word_of_int s) =
    (if (s, -1) \<in> set es \<and> s \<in> set (keep_nrs native) then Some act else None)"
proof -
  have "map (\<lambda>e. (fst e, -1)) (post_entries native es) = post_entries native es"
    using assms(1) by (induction es) (auto simp: post_entries_def prod_eq_iff)
  then show ?thesis
    unfolding drop_post_rules_def post_entries_def
    by (simp add: plain_listed_lookup(1) [OF plain_sub [OF assms(1,2)] assms(3,4)])
qed

text \<open>
  C2. \<open>seccomp.drop\<close> with a list of entries without error names. The builder succeeds and writes the
  pre-exec filter, and the post-exec filter exactly when the list has a call that firejail itself needs.
  The pre-exec filter allows an excluded (\<open>!\<close>) call, refuses every other listed call that has a name in
  the table and is not needed for the exec, and allows everything else; the post-exec filter refuses
  exactly the listed calls that are needed for the exec.
\<close>

theorem seccomp_drop_verdicts:
  assumes "bpf_vm run" "env_open env fname1 > 0" "env_open env fname2 > 0"
    and es: "list_entries (env_defined env) native list = Inr es" "list_all (\<lambda>e. snd e = -1) es"
  shows "\<exists>pre post. seccomp_drop env fname1 fname2 list ad native =
      Inr ((fname1, pre) # (if \<exists>k \<in> set (keep_nrs native). (k, -1) \<in> set es then [(fname2, post)] else [])) \<and>
    (\<forall>s args. 0 \<le> s \<and> s < 2 ^ 30 \<longrightarrow>
       run pre (call native s args) 0 =
         (if 0 < s \<and> (- s, -1) \<in> set es then SECCOMP_RET_ALLOW
          else if (s, -1) \<in> set es \<and> known native s \<and> s \<notin> set (keep_nrs native) then env_action env
          else SECCOMP_RET_ALLOW) \<and>
       run post (call native s args) 0 =
         (if (s, -1) \<in> set es \<and> s \<in> set (keep_nrs native) then env_action env else SECCOMP_RET_ALLOW))"
proof -
  let ?act = "env_action env"
  let ?pre = "blacklist_code ?act native
    (list_rules (excluded SECCOMP_RET_ALLOW) es @ drop_pre_rules ?act native es)"
  let ?post = "blacklist_code ?act native (drop_post_rules ?act native es)"
  note i = list_entries_int [OF es(1)]
  have "post_entries native es = [] \<longleftrightarrow> \<not> (\<exists>k \<in> set (keep_nrs native). (k, -1) \<in> set es)"
    using es(2) by (force simp: post_entries_def filter_empty_conv list_all_iff)
  then have "seccomp_drop env fname1 fname2 list ad native = Inr ((fname1, ?pre) #
      (if \<exists>k \<in> set (keep_nrs native). (k, -1) \<in> set es then [(fname2, ?post)] else []))"
    by (simp add: seccomp_drop_eq [OF assms(2,3) es(1)])
  moreover have "run ?pre (call native s args) 0 =
         (if 0 < s \<and> (- s, -1) \<in> set es then SECCOMP_RET_ALLOW
          else if (s, -1) \<in> set es \<and> known native s \<and> s \<notin> set (keep_nrs native) then env_action env
          else SECCOMP_RET_ALLOW) \<and>
       run ?post (call native s args) 0 =
         (if (s, -1) \<in> set es \<and> s \<in> set (keep_nrs native) then env_action env else SECCOMP_RET_ALLOW)"
    if "0 \<le> s \<and> s < 2 ^ 30" for s args
    using that
    by (simp add: blacklist_verdict [OF assms(1)] map_add_def drop_pre_lookup [OF es(2) i]
        drop_post_lookup [OF es(2) i] plain_listed_lookup [OF es(2) i])
  ultimately show ?thesis by blast
qed

text \<open>An environment in which every file opens and every header name is defined.\<close>

definition demo_env :: env where
  "demo_env = \<lparr>env_open = (\<lambda>_. 3), env_defined = (\<lambda>_. True), env_action = SECCOMP_RET_ERRNO OR 1\<rparr>"

lemma demo_env_simps [simp]:
  "env_open demo_env f = 3" "env_defined demo_env n" "env_action demo_env = SECCOMP_RET_ERRNO OR 1"
  by (simp_all add: demo_env_def)

lemma demo_names:
  "syscall_find_name ''mount'' = 165" "syscall_find_name ''chroot'' = 161"
  by (simp_all only: syscall_find_name_def syslist_defs table_eval)

lemma demo_list:
  "list_entries defd True ''mount,execve,!chroot'' = Inr [(165, -1), (59, -1), (-161, -1)]"
  by (simp add: list_entries_def numeral_eq_Suc strtok_def is_group_def read_entry_def c_int_def
      syscall_process_name_def keep_names demo_names SYSCALL_ERROR_def INT_MAX_def)

lemma known_native: "syscall_find_name n = k \<Longrightarrow> k \<noteq> SYSCALL_ERROR \<Longrightarrow> known True k"
  by (rule find_name_known(1))

theorem seccomp_drop_verdicts_witness:
  "\<exists>pre post. seccomp_drop demo_env ''a'' ''b'' ''mount,execve,!chroot'' False True =
      Inr [(''a'', pre), (''b'', post)] \<and>
    bpf_run pre (call True 165 (\<lambda>_. 0)) 0 = SECCOMP_RET_ERRNO OR 1 \<and>
    bpf_run pre (call True 59 (\<lambda>_. 0)) 0 = SECCOMP_RET_ALLOW \<and>
    bpf_run pre (call True 161 (\<lambda>_. 0)) 0 = SECCOMP_RET_ALLOW \<and>
    bpf_run post (call True 59 (\<lambda>_. 0)) 0 = SECCOMP_RET_ERRNO OR 1"
proof -
  have k: "known True 165"
    by (rule known_native [OF demo_names(1)]) (simp add: SYSCALL_ERROR_def INT_MAX_def)
  show ?thesis
    using seccomp_drop_verdicts [OF ref_vm.bpf_vm_axioms, of demo_env "''a''" "''b''" True
        "''mount,execve,!chroot''" "[(165, -1), (59, -1), (-161, -1)]" False] k
    by (auto simp: demo_list keep_nrs_def)
qed

lemma keep_lookup:
  assumes "0 \<le> s" "s < 2 ^ 30"
  shows "map_of (map (\<lambda>k. (word_of_int k :: u32, v)) (keep_nrs native)) (word_of_int s) =
    (if s \<in> set (keep_nrs native) then Some v else None)"
proof -
  have "(word_of_int k :: u32) = word_of_int s \<longleftrightarrow> k = s" if "k \<in> set (keep_nrs native)" for k
    using word_of_int_inj [OF _ assms, of k] known_range [OF keep_known [OF that]] by auto
  then show ?thesis unfolding map_of_key by auto
qed

lemma whitelist_verdict:
  assumes "bpf_vm run" "0 \<le> s" "s < 2 ^ 30"
  shows "run (whitelist_code action native rs) (call native s args) a = (case map_of rs (word_of_int s) of None \<Rightarrow> action | Some v \<Rightarrow> v)"
  unfolding whitelist_code_def bpf_vm.run_whitelist_filter [OF assms(1)] by (rule decide_call [OF assms(2,3)])

text \<open>
  C15. \<open>seccomp.keep\<close> with a list of entries without error names: the filter allows the listed calls and
  \<open>@default-keep\<close>, refuses the excluded calls and refuses everything else.
\<close>

theorem seccomp_keep_verdicts:
  assumes "bpf_vm run" "env_open env fname1 > 0"
    and es: "list_entries (env_defined env) native list = Inr es" "list_all (\<lambda>e. snd e = -1) es"
  shows "\<exists>pre. seccomp_keep env fname1 fname2 list native = Inr [(fname1, pre)] \<and>
    (\<forall>s args. 0 \<le> s \<and> s < 2 ^ 30 \<longrightarrow>
       run pre (call native s args) 0 =
         (if 0 < s \<and> (- s, -1) \<in> set es then env_action env
          else if s \<in> set (keep_nrs native) \<or> (s, -1) \<in> set es then SECCOMP_RET_ALLOW
          else env_action env))"
  unfolding seccomp_keep_eq [OF assms(2) es(1)]
  by (auto simp: whitelist_verdict [OF assms(1)] map_add_def keep_rules_def keep_lookup
      plain_listed_lookup [OF es(2) list_entries_int [OF es(1)]])

theorem seccomp_keep_verdicts_witness:
  "\<exists>pre. seccomp_keep demo_env ''a'' ''b'' ''mount,execve,!chroot'' True = Inr [(''a'', pre)] \<and>
    bpf_run pre (call True 165 (\<lambda>_. 0)) 0 = SECCOMP_RET_ALLOW \<and>
    bpf_run pre (call True 59 (\<lambda>_. 0)) 0 = SECCOMP_RET_ALLOW \<and>
    bpf_run pre (call True 161 (\<lambda>_. 0)) 0 = SECCOMP_RET_ERRNO OR 1 \<and>
    bpf_run pre (call True 2 (\<lambda>_. 0)) 0 = SECCOMP_RET_ERRNO OR 1"
  using seccomp_keep_verdicts [OF ref_vm.bpf_vm_axioms, of demo_env "''a''" True
        "''mount,execve,!chroot''" "[(165, -1), (59, -1), (-161, -1)]" "''b''"]
  by (auto simp: demo_list keep_nrs_def)

text \<open>Entries with an error number.\<close>

lemma entry_rules_key:
  "(w, v) \<in> set (entry_rules (listed act) e) \<Longrightarrow> w = word_of_int (fst e)"
  "(w, v) \<in> set (entry_rules (excluded act) e) \<Longrightarrow> w = word_of_int (fst e) \<or> w = word_of_int (c_int (- fst e))"
  by (auto simp: entry_rules_def listed_def excluded_def split: if_splits)

lemma lookup_unlisted:
  assumes "list_all int_entry es" "0 \<le> s" "s < 2 ^ 30" "\<forall>e \<in> set es. \<bar>fst e\<bar> \<noteq> s"
  shows "map_of (list_rules (listed act) es) (word_of_int s) = None"
    "map_of (list_rules (excluded act) es) (word_of_int s) = None"
proof -
  have e: "(word_of_int s :: u32) \<noteq> word_of_int (fst e) \<and> (word_of_int s :: u32) \<noteq> word_of_int (c_int (- fst e))"
    if "e \<in> set es" for e
  proof -
    have i: "int_entry e" using assms(1) that by (simp add: list_all_iff)
    have "fst e \<noteq> s" "fst e \<noteq> - s" using assms(2,4) that by auto
    with entry_word [OF i assms(2,3)] show ?thesis by metis
  qed
  show "map_of (list_rules (listed act) es) (word_of_int s) = None"
    using e entry_rules_key(1) by (fastforce simp: map_of_eq_None_iff list_rules_def)
  show "map_of (list_rules (excluded act) es) (word_of_int s) = None"
    using e entry_rules_key(2) by (fastforce simp: map_of_eq_None_iff list_rules_def)
qed

text \<open>
  \<open>seccomp.keep\<close> with any list, error entries included: a call that is neither listed nor in
  \<open>@default-keep\<close> is refused.
\<close>

theorem seccomp_keep_denies:
  assumes "bpf_vm run" "env_open env fname1 > 0"
    and es: "list_entries (env_defined env) native list = Inr es"
    and s: "0 \<le> s" "s < 2 ^ 30" "s \<notin> set (keep_nrs native)" "\<forall>e \<in> set es. \<bar>fst e\<bar> \<noteq> s"
  shows "\<exists>pre. seccomp_keep env fname1 fname2 list native = Inr [(fname1, pre)] \<and>
    run pre (call native s args) 0 = env_action env"
  unfolding seccomp_keep_eq [OF assms(2) es(1)]
  using s
  by (auto simp: whitelist_verdict [OF assms(1)] map_add_def keep_rules_def keep_lookup
      lookup_unlisted [OF list_entries_int [OF es]])

lemma excluded_lookup_errno:
  assumes "list_all int_entry es" "0 \<le> s" "s < 2 ^ 30" "(s, v) \<in> set es" "v \<noteq> -1"
    and "\<forall>e \<in> set es. \<bar>fst e\<bar> = s \<longrightarrow> e = (s, v)"
  shows "map_of (list_rules (excluded act) es) (word_of_int s) =
    Some (if v = ERRNO_KILL then SECCOMP_RET_KILL else SECCOMP_RET_ERRNO OR word_of_int v)"
    (is "_ = Some ?r")
proof (rule map_of_only)
  have i: "int_entry (s, v)" using assms(1,4) by (auto simp: list_all_iff)
  then have v: "v = ERRNO_KILL \<or> 0 \<le> v"
    using assms(5) errno_pos by (force simp: int_entry_def valid_entry_def)
  then have r: "entry_rules (excluded act) (s, v) = [(word_of_int s, ?r)]"
    using assms(2) by (auto simp: entry_rules_def ERRNO_KILL_def)
  fix v' assume "(word_of_int s, v') \<in> set (list_rules (excluded act) es)"
  then obtain e where e: "e \<in> set es" "(word_of_int s, v') \<in> set (entry_rules (excluded act) e)"
    by (auto simp: list_rules_def)
  have "int_entry e" using assms(1) e(1) by (simp add: list_all_iff)
  with entry_word [OF this assms(2,3)] entry_rules_key(2) [OF e(2)] have "fst e = s \<or> fst e = - s"
    by metis
  with assms(6) e(1) have "e = (s, v)" using assms(2) by force
  with e(2) r show "v' = ?r" by simp
next
  have i: "int_entry (s, v)" using assms(1,4) by (auto simp: list_all_iff)
  then have v: "v = ERRNO_KILL \<or> 0 \<le> v"
    using assms(5) errno_pos by (force simp: int_entry_def valid_entry_def)
  then have "word_of_int s \<in> fst ` set (entry_rules (excluded act) (s, v))"
    using assms(2) by (auto simp: entry_rules_def)
  with assms(4) show "word_of_int s \<in> fst ` set (list_rules (excluded act) es)"
    by (auto simp: list_rules_def image_Union)
qed

text \<open>
  \<open>seccomp.drop\<close>: an entry \<open>name:error\<close> or \<open>name:kill\<close> overrides the default action. The pre-exec
  filter answers with that error or kills, for every call of the entry, those of \<open>@default-keep\<close>
  included.
\<close>

theorem seccomp_drop_error_entry:
  assumes "bpf_vm run" "env_open env fname1 > 0" "env_open env fname2 > 0"
    and es: "list_entries (env_defined env) native list = Inr es" "(s, v) \<in> set es" "v \<noteq> -1"
    and s: "0 \<le> s" "s < 2 ^ 30" "\<forall>e \<in> set es. \<bar>fst e\<bar> = s \<longrightarrow> e = (s, v)"
  shows "\<exists>pre post. seccomp_drop env fname1 fname2 list ad native = Inr ((fname1, pre) # post) \<and>
    run pre (call native s args) 0 =
      (if v = ERRNO_KILL then SECCOMP_RET_KILL else SECCOMP_RET_ERRNO OR word_of_int v)"
  unfolding seccomp_drop_eq [OF assms(2,3) es(1)]
  using s excluded_lookup_errno [OF list_entries_int [OF es(1)] s(1,2) es(2,3) s(3)]
  by (auto simp: blacklist_verdict [OF assms(1)] map_add_def)

lemma demo_error_list:
  "list_entries defd True ''mount,execve:EPERM,chroot:kill'' = Inr [(165, -1), (59, 1), (161, -2)]"
proof -
  have "errno_find_name ''EPERM'' = 1"
    by (rule errno_find_name_entry [of "''EPERM''"]) (simp_all add: errnolist_def)
  then show ?thesis
    by (simp add: list_entries_def numeral_eq_Suc strtok_def is_group_def read_entry_def c_int_def
      syscall_process_name_def keep_names demo_names SYSCALL_ERROR_def INT_MAX_def ERRNO_KILL_def)
qed

theorem seccomp_drop_error_entry_witness:
  "\<exists>pre post. seccomp_drop demo_env ''a'' ''b'' ''mount,execve:EPERM,chroot:kill'' False True =
      Inr ((''a'', pre) # post) \<and> bpf_run pre (call True 59 (\<lambda>_. 0)) 0 = SECCOMP_RET_ERRNO OR 1"
  using seccomp_drop_error_entry [OF ref_vm.bpf_vm_axioms, of demo_env "''a''" "''b''" True
        "''mount,execve:EPERM,chroot:kill''" "[(165, -1), (59, 1), (161, -2)]" 59 1 False]
  by (simp add: demo_error_list ERRNO_KILL_def)

theorem seccomp_keep_denies_witness:
  "\<exists>pre. seccomp_keep demo_env ''a'' ''b'' ''mount,execve:EPERM,chroot:kill'' True = Inr [(''a'', pre)] \<and>
    bpf_run pre (call True 2 (\<lambda>_. 0)) 0 = SECCOMP_RET_ERRNO OR 1"
  using seccomp_keep_denies [OF ref_vm.bpf_vm_axioms, of demo_env "''a''" True
        "''mount,execve:EPERM,chroot:kill''" "[(165, -1), (59, 1), (161, -2)]" 2]
  by (simp add: demo_error_list keep_nrs_def)

subsection \<open>The default lists\<close>

text \<open>
  The default filter, when it is built, refuses exactly the system calls that belong to the group
  \<open>@default\<close> (or \<open>@default-nodebuggers\<close>), directly or through a group it names, and that have a number
  in the table; it allows every other call.
\<close>

theorem seccomp_default_verdicts:
  assumes "bpf_vm run" "env_open env fname > 0" "seccomp_default env fname ad native = Inr files"
  shows "\<exists>code. files = [(fname, code)] \<and>
    (\<forall>s args. 0 \<le> s \<and> s < 2 ^ 30 \<longrightarrow>
       run code (call native s args) 0 =
         (if \<exists>w. in_group (env_defined env) (default_group ad) w \<and> (w, s) \<in> set (table_of native)
          then env_action env else SECCOMP_RET_ALLOW))"
proof -
  have "\<exists>ds. list_entries (env_defined env) native (default_group ad) = Inr ds"
    using assms(2,3) unfolding seccomp_default_def add_default_list_def default_group_def [symmetric]
    by (simp add: open_file_def check_list_rules [where plain = "listed (env_action env)"]
        filter_fns_rules listed_def bind_result_eq_Inr_iff split: if_splits) blast
  then obtain ds where ds: "list_entries (env_defined env) native (default_group ad) = Inr ds" by blast
  note p = default_entries(1) [OF ds] list_entries_int [OF ds]
  show ?thesis
    using assms(3) unfolding seccomp_default_eq [OF assms(2) ds [unfolded default_group_def]]
      default_entries(2) [OF ds, symmetric]
    by (auto simp: blacklist_verdict [OF assms(1)] plain_listed_lookup [OF p])
qed

lemma seccomp_default_succeeds:
  assumes "groups_present (env_defined env)" "env_open env fname > 0"
  shows "\<exists>files. seccomp_default env fname ad native = Inr files"
  using default_entries_succeed [OF assms(1)] seccomp_default_eq [OF assms(2)]
  unfolding default_group_def by blast

lemma demo_present: "groups_present (env_defined demo_env)"
  by (simp add: groups_present_def sysgroups_def group_defs sys_def demo_env_def)

lemma mount_in_default: "in_group (env_defined demo_env) (default_group True) ''mount''"
proof (rule in_group.nested)
  show "syscall_find_group (env_defined demo_env) (default_group True) =
      Some (group_text (env_defined demo_env) group_default)"
    by (simp add: default_group_def syscall_find_group_def sysgroups_def)
  show "''@mount'' \<in> set (strtok (CHR '','') (group_text (env_defined demo_env) group_default))"
    using sysgroups_wf by (auto simp: strtok_group_text sysgroups_def group_default_def item_word_def)
  show "is_group ''@mount''" by (simp add: is_group_def)
  show "in_group (env_defined demo_env) ''@mount'' ''mount''"
  proof (rule in_group.direct)
    show "syscall_find_group (env_defined demo_env) ''@mount'' =
        Some (group_text (env_defined demo_env) group_mount)"
      by (simp add: syscall_find_group_def sysgroups_def)
    show "''mount'' \<in> set (strtok (CHR '','') (group_text (env_defined demo_env) group_mount))"
      using sysgroups_wf by (auto simp: strtok_group_text sysgroups_def group_mount_def item_word_def sys_def)
  qed (simp add: is_group_def)
qed

theorem seccomp_default_verdicts_witness:
  "\<exists>code. seccomp_default demo_env ''a'' True True = Inr [(''a'', code)] \<and>
     bpf_run code (call True 165 (\<lambda>_. 0)) 0 = SECCOMP_RET_ERRNO OR 1"
proof -
  have "0 < env_open demo_env ''a''" by simp
  from seccomp_default_succeeds [OF demo_present this, of True True] obtain files where
    f: "seccomp_default demo_env ''a'' True True = Inr files" by blast
  have t: "(''mount'', 165) \<in> set (table_of True)"
    using table_find_name_cases [of syslist "''mount''"] demo_names(1)
    by (simp add: syscall_find_name_def SYSCALL_ERROR_def INT_MAX_def)
  from seccomp_default_verdicts [OF ref_vm.bpf_vm_axioms _ f] f mount_in_default t
  show ?thesis by fastforce
qed

subsection \<open>Memory protection and secondary architectures\<close>

context bpf_vm
begin

lemma run_deny_arg2_bits [simp]:
  "run (deny_arg2_bits act n bits @ p) d a =
     (if a = n then (if lo32 (sd_args d 2) AND bits = bits then act else SECCOMP_RET_ALLOW) else run p d a)"
  by (simp add: deny_arg2_bits_def EXAMINE_ARGUMENT_def sd_load_arg KILL_OR_RETURN_ERRNO_def
      RETURN_ALLOW_def)

lemma run_deny_call:
  "run (BPF_JUMP (BPF_JMP + BPF_JEQ + BPF_K) n 0 1 # KILL_OR_RETURN_ERRNO act @ RETURN_ALLOW @ p) d a =
     (if a = n then act else SECCOMP_RET_ALLOW)"
  by (simp add: KILL_OR_RETURN_ERRNO_def RETURN_ALLOW_def)

end

lemma and_exp_eq_iff:
  assumes "n < 32" "m < 32"
  shows "(w :: u32) AND (2 ^ n OR 2 ^ m) = 2 ^ n OR 2 ^ m \<longleftrightarrow> bit w n \<and> bit w m"
proof
  assume e: "w AND (2 ^ n OR 2 ^ m) = 2 ^ n OR 2 ^ m"
  from arg_cong [OF e, of "\<lambda>v. bit v n"] arg_cong [OF e, of "\<lambda>v. bit v m"]
  show "bit w n \<and> bit w m" using assms by (simp add: bit_simps)
next
  assume "bit w n \<and> bit w m"
  then show "w AND (2 ^ n OR 2 ^ m) = 2 ^ n OR 2 ^ m"
    by (intro bit_word_eqI) (auto simp: bit_and_iff bit_or_iff bit_exp_iff)
qed

lemma and_bits:
  "(w :: u32) AND PROT_EXEC = PROT_EXEC \<longleftrightarrow> bit w 2"
  "(w :: u32) AND SHM_EXEC = SHM_EXEC \<longleftrightarrow> bit w 15"
  "(w :: u32) AND (PROT_WRITE OR PROT_EXEC) = PROT_WRITE OR PROT_EXEC \<longleftrightarrow> bit w 1 \<and> bit w 2"
  using and_exp_eq_iff [of 2 2 w] and_exp_eq_iff [of 15 15 w] and_exp_eq_iff [of 1 2 w] by simp_all

text \<open>What the memory filters are to refuse, by the name of the call and its third argument.\<close>

definition mdwx_refuses :: "(string \<Rightarrow> bool) \<Rightarrow> string \<Rightarrow> u32 \<Rightarrow> bool" where
  "mdwx_refuses defd name arg2 \<longleftrightarrow>
     name = ''mmap'' \<and> bit arg2 1 \<and> bit arg2 2 \<or>
     name = ''mprotect'' \<and> bit arg2 2 \<or>
     name = ''pkey_mprotect'' \<and> defd ''pkey_mprotect'' \<and> bit arg2 2 \<or>
     name = ''shmat'' \<and> defd ''shmat'' \<and> bit arg2 15 \<or>
     name = ''memfd_create'' \<and> defd ''memfd_create''"

definition mdwx_refuses_32 :: "string \<Rightarrow> u32 \<Rightarrow> bool" where
  "mdwx_refuses_32 name arg2 \<longleftrightarrow>
     name = ''mmap'' \<or>
     name = ''mmap2'' \<and> bit arg2 1 \<and> bit arg2 2 \<or>
     name = ''mprotect'' \<and> bit arg2 2 \<or>
     name = ''pkey_mprotect'' \<and> bit arg2 2 \<or>
     name = ''shmat'' \<and> bit arg2 15 \<or>
     name = ''memfd_create''"

lemma mdwx_names:
  "syscall_find_nr 9 = ''mmap''" "syscall_find_nr 10 = ''mprotect''" "syscall_find_nr 329 = ''pkey_mprotect''"
  "syscall_find_nr 30 = ''shmat''" "syscall_find_nr 319 = ''memfd_create''"
  "syscall_find_name ''mmap'' = 9" "syscall_find_name ''mprotect'' = 10"
  "syscall_find_name ''pkey_mprotect'' = 329"
  "syscall_find_name ''shmat'' = 30" "syscall_find_name ''memfd_create'' = 319"
  by (simp_all only: syscall_find_name_def syscall_find_nr_def syslist_defs table_eval num.inject
      num.distinct numeral_eq_iff one_eq_numeral_iff numeral_eq_one_iff zero_neq_numeral numeral_neq_zero
      zero_neq_one one_neq_zero)

lemma table_name_iff:
  assumes "(n, s) \<in> set (table_of native)" "(m, k) \<in> set (table_of native)"
  shows "(word_of_int s :: u32) = word_of_int k \<longleftrightarrow> n = m"
  using table_name [OF assms(1)] table_name [OF assms(2)] word_of_int_inj [of s k] by auto

lemma find_name_entry:
  "syscall_find_name n = k \<Longrightarrow> k \<noteq> SYSCALL_ERROR \<Longrightarrow> (n, k) \<in> set (table_of True)"
  "syscall_find_name_32 n = k \<Longrightarrow> k \<noteq> SYSCALL_ERROR \<Longrightarrow> (n, k) \<in> set (table_of False)"
  using table_find_name_cases [of syslist n] table_find_name_cases [of syslist32 n]
  by (auto simp: syscall_find_name_def syscall_find_name_32_def)

lemma mdwx_entries:
  "(''mmap'', 9) \<in> set (table_of True)" "(''mprotect'', 10) \<in> set (table_of True)"
  "(''pkey_mprotect'', 329) \<in> set (table_of True)" "(''shmat'', 30) \<in> set (table_of True)"
  "(''memfd_create'', 319) \<in> set (table_of True)"
  by (rule find_name_entry; simp add: mdwx_names SYSCALL_ERROR_def INT_MAX_def)+

lemma mdwx_names_32:
  "syscall_find_name_32 ''mmap'' = 90" "syscall_find_name_32 ''mmap2'' = 192"
  "syscall_find_name_32 ''mprotect'' = 125" "syscall_find_name_32 ''pkey_mprotect'' = 380"
  "syscall_find_name_32 ''shmat'' = 397" "syscall_find_name_32 ''memfd_create'' = 356"
  by (simp_all only: syscall_find_name_32_def syslist32_defs table_eval)

lemma mdwx_entries_32:
  "(''mmap'', 90) \<in> set (table_of False)" "(''mmap2'', 192) \<in> set (table_of False)"
  "(''mprotect'', 125) \<in> set (table_of False)"
  "(''pkey_mprotect'', 380) \<in> set (table_of False)" "(''shmat'', 397) \<in> set (table_of False)"
  "(''memfd_create'', 356) \<in> set (table_of False)"
  by (rule find_name_entry; simp add: mdwx_names_32 SYSCALL_ERROR_def INT_MAX_def)+

lemma table_small: "(n, s) \<in> set (table_of native) \<Longrightarrow> 0 \<le> s \<and> s < 2 ^ 30"
  using table_name by force

lemma run_init_call:
  assumes "bpf_vm run" "0 \<le> s" "s < 2 ^ 30"
  shows "run (init_code action native @ p) (call native s args) a = run p (call native s args) (word_of_int s)"
  using small_word_less [OF assms(2,3)] by (simp add: bpf_vm.run_init_code [OF assms(1)] not_le [symmetric])

text \<open>
  C20. The memory-deny-write-execute filter refuses, among all named system calls, exactly \<open>mmap\<close> with
  write and execute, \<open>mprotect\<close> and \<open>pkey_mprotect\<close> with execute, \<open>shmat\<close> with \<open>SHM_EXEC\<close>, and
  \<open>memfd_create\<close>, the last three where the headers define them.
\<close>

theorem memory_deny_write_execute_verdicts:
  assumes "bpf_vm run" "env_open env fname \<ge> 0"
  shows "\<exists>code. memory_deny_write_execute env fname = Inr [(fname, code)] \<and>
    (\<forall>name s args. (name, s) \<in> set (table_of True) \<longrightarrow>
       run code (call True s args) 0 =
         (if mdwx_refuses (env_defined env) name (lo32 (args 2)) then env_action env else SECCOMP_RET_ALLOW))"
proof -
  have "run (init_code (env_action env) True @ mdwx_filter env @ RETURN_ALLOW) (call True s args) 0 =
      (if mdwx_refuses (env_defined env) name (lo32 (args 2)) then env_action env else SECCOMP_RET_ALLOW)"
    if t: "(name, s) \<in> set (table_of True)" for name s args
  proof -
    note w = table_name_iff [OF t mdwx_entries(1)] table_name_iff [OF t mdwx_entries(2)]
      table_name_iff [OF t mdwx_entries(3)] table_name_iff [OF t mdwx_entries(4)]
      table_name_iff [OF t mdwx_entries(5)]
    from table_small [OF t] w show ?thesis
      by (simp add: run_init_call [OF assms(1)] mdwx_filter_def bpf_vm.run_deny_arg2_bits [OF assms(1)]
          bpf_vm.run_deny_call [OF assms(1), simplified] bpf_vm.run_at_end [OF assms(1)]
          SYS_mmap_def SYS_mprotect_def SYS_pkey_mprotect_def SYS_shmat_def
          SYS_memfd_create_def and_bits [simplified] mdwx_refuses_def)
  qed
  then show ?thesis
    using assms(2) by (auto simp: memory_deny_write_execute_def open_file_def filter_init_code
        filter_end_blacklist_def new_file_def)
qed

text \<open>
  The same for 32 bit programs: the hard-coded i386 numbers are those of the table, and the old
  \<open>mmap\<close> is refused whatever its arguments.
\<close>

theorem memory_deny_write_execute_32_verdicts:
  assumes "bpf_vm run" "env_open env fname \<ge> 0"
  shows "\<exists>code. memory_deny_write_execute_32 env fname = Inr [(fname, code)] \<and>
    (\<forall>name s args. (name, s) \<in> set (table_of False) \<longrightarrow>
       run code (call False s args) 0 =
         (if mdwx_refuses_32 name (lo32 (args 2)) then env_action env else SECCOMP_RET_ALLOW))"
proof -
  have "run (init_code (env_action env) False @ mdwx_filter_32 env @ RETURN_ALLOW) (call False s args) 0 =
      (if mdwx_refuses_32 name (lo32 (args 2)) then env_action env else SECCOMP_RET_ALLOW)"
    if t: "(name, s) \<in> set (table_of False)" for name s args
  proof -
    note w = table_name_iff [OF t mdwx_entries_32(1)] table_name_iff [OF t mdwx_entries_32(2)]
      table_name_iff [OF t mdwx_entries_32(3)] table_name_iff [OF t mdwx_entries_32(4)]
      table_name_iff [OF t mdwx_entries_32(5)] table_name_iff [OF t mdwx_entries_32(6)]
    from table_small [OF t] w show ?thesis
      by (simp add: run_init_call [OF assms(1)] mdwx_filter_32_def bpf_vm.run_deny_arg2_bits [OF assms(1)]
          bpf_vm.run_deny_call [OF assms(1), simplified] bpf_vm.run_blacklist [OF assms(1)]
          filter_syscall_32_def block_syscall_32_def mprotect_32_def pkey_mprotect_32_def
          shmat_32_def memfd_create_32_def and_bits [simplified] mdwx_refuses_32_def)
  qed
  then show ?thesis
    using assms(2) by (auto simp: memory_deny_write_execute_32_def open_file_def filter_init_code
        filter_end_blacklist_def new_file_def)
qed

theorem memory_deny_write_execute_verdicts_witness:
  "\<exists>code. memory_deny_write_execute demo_env ''a'' = Inr [(''a'', code)] \<and>
     bpf_run code (call True 9 (\<lambda>_. 6)) 0 = SECCOMP_RET_ERRNO OR 1 \<and>
     bpf_run code (call True 10 (\<lambda>_. 3)) 0 = SECCOMP_RET_ALLOW"
  using memory_deny_write_execute_verdicts [OF ref_vm.bpf_vm_axioms, of demo_env "''a''"]
    mdwx_entries(1,2)
  by (fastforce simp: mdwx_refuses_def lo32_def)

theorem memory_deny_write_execute_32_verdicts_witness:
  "\<exists>code. memory_deny_write_execute_32 demo_env ''a'' = Inr [(''a'', code)] \<and>
     bpf_run code (call False 90 (\<lambda>_. 0)) 0 = SECCOMP_RET_ERRNO OR 1 \<and>
     bpf_run code (call False 192 (\<lambda>_. 6)) 0 = SECCOMP_RET_ERRNO OR 1"
  using memory_deny_write_execute_32_verdicts [OF ref_vm.bpf_vm_axioms, of demo_env "''a''"]
    mdwx_entries_32(1,2)
  by (fastforce simp: mdwx_refuses_32_def lo32_def)

lemma secondary_names: "list_all (\<lambda>e. syscall_find_name_32 (fst e) = snd e) secondary_32_list"
  by (simp only: secondary_32_list_def list.pred_inject fst_conv snd_conv syscall_find_name_32_def
      syslist32_defs table_eval)

lemma secondary_entries: "set secondary_32_list \<subseteq> set (table_of False)"
proof
  fix e assume e: "e \<in> set secondary_32_list"
  then have "snd e \<noteq> SYSCALL_ERROR"
    by (auto simp: secondary_32_list_def SYSCALL_ERROR_def INT_MAX_def)
  with e secondary_names find_name_entry(2) [of "fst e" "snd e"] show "e \<in> set (table_of False)"
    by (auto simp: list_all_iff)
qed

lemma secondary_rules:
  "concat (map (\<lambda>e. BLACKLIST act (word_of_int (snd e))) es) = rules_code (map (\<lambda>e. (word_of_int (snd e), act)) es)"
  by (induction es) (simp_all add: macros_are_rules)

text \<open>
  The filter for the secondary architecture: each hard-coded number is the i386 number of the call the
  source names, the filter refuses exactly those calls and allows other architectures.
\<close>

theorem seccomp_secondary_32_verdicts:
  assumes "bpf_vm run" "env_open env fname \<ge> 0"
  shows "\<exists>code. seccomp_secondary_32 env fname = Inr [(fname, code)] \<and>
    (\<forall>name s args. (name, s) \<in> set (table_of False) \<longrightarrow>
       run code (call False s args) 0 =
         (if name \<in> set (map fst secondary_32_list) then env_action env else SECCOMP_RET_ALLOW)) \<and>
    (\<forall>d. sd_arch d \<noteq> ARCH_32 \<longrightarrow> run code d 0 = SECCOMP_RET_ALLOW)"
proof -
  let ?rs = "map (\<lambda>e. (word_of_int (snd e), env_action env)) secondary_32_list :: rule list"
  let ?code = "VALIDATE_ARCHITECTURE_32 @ EXAMINE_SYSCALL @ rules_code ?rs @ RETURN_ALLOW"
  have c: "?code = blacklist_code (env_action env) False ?rs"
    by (simp add: blacklist_code_def init_code_def)
  have "run ?code (call False s args) 0 =
         (if name \<in> set (map fst secondary_32_list) then env_action env else SECCOMP_RET_ALLOW)"
    if t: "(name, s) \<in> set (table_of False)" for name s args
  proof -
    have "(\<exists>e \<in> set secondary_32_list. (word_of_int (snd e) :: u32) = word_of_int s) \<longleftrightarrow>
        name \<in> set (map fst secondary_32_list)"
      using table_name_iff [OF _ t] secondary_entries by force
    then show ?thesis
      unfolding c using table_small [OF t] by (simp add: blacklist_verdict [OF assms(1)] map_of_key)
  qed
  moreover have "\<forall>d. sd_arch d \<noteq> ARCH_32 \<longrightarrow> run ?code d 0 = SECCOMP_RET_ALLOW"
    by (simp add: bpf_vm.run_validate_architecture_32 [OF assms(1)])
  ultimately show ?thesis
    using assms(2) by (simp add: seccomp_secondary_32_def open_file_def secondary_rules)
qed

theorem seccomp_secondary_32_verdicts_witness:
  "\<exists>code. seccomp_secondary_32 demo_env ''a'' = Inr [(''a'', code)] \<and>
     bpf_run code (call False 356 (\<lambda>_. 0)) 0 = SECCOMP_RET_ALLOW \<and>
     bpf_run code (call False 21 (\<lambda>_. 0)) 0 = SECCOMP_RET_ERRNO OR 1"
proof -
  have "(''mount'', 21) \<in> set (table_of False)"
    by (rule subsetD [OF secondary_entries]) (simp add: secondary_32_list_def)
  with seccomp_secondary_32_verdicts [OF ref_vm.bpf_vm_axioms, of demo_env "''a''"] mdwx_entries_32(6)
  show ?thesis by (fastforce simp: secondary_32_list_def)
qed

lemma jmp_values:
  "jmp_from_to 0 7 = 6" "jmp_from_to 2 4 = 1" "jmp_from_to 3 6 = 2" "jmp_from_to 5 7 = 1"
  by (simp_all add: jmp_from_to_def)

lemma u64_halves: "(w :: u64) = v \<longleftrightarrow> lo32 w = lo32 v \<and> hi32 w = hi32 v"
proof
  assume h: "lo32 w = lo32 v \<and> hi32 w = hi32 v"
  show "w = v"
  proof (rule bit_word_eqI)
    fix n assume "n < LENGTH(64)"
    then have n: "n < 64" "n - 32 < 32" by simp_all
    from h have "\<And>n. bit (lo32 w) n = bit (lo32 v) n" "\<And>n. bit (hi32 w) n = bit (hi32 v) n" by simp_all
    from this(1) [of n] this(2) [of "n - 32"] n show "bit w n \<longleftrightarrow> bit v n"
      by (cases "n < 32") (simp_all add: lo32_def hi32_def bit_ucast_iff bit_drop_bit_eq)
  qed
qed simp

lemma personality_values:
  "lo32 0 = 0" "hi32 0 = 0" "lo32 0xffffffff = 0xffffffff" "hi32 0xffffffff = 0"
  by (simp_all add: lo32_def hi32_def)

text \<open>
  The filter that blocks secondary architectures: for every call, a foreign architecture and the
  x32 range are refused, and \<open>personality\<close> is allowed only for the 64 bit arguments \<open>PER_LINUX\<close> and
  0xffffffff.
\<close>

theorem seccomp_secondary_block_verdicts:
  assumes "bpf_vm run" "env_open env fname \<ge> 0"
  shows "\<exists>code. seccomp_secondary_block env fname = Inr [(fname, code)] \<and>
    (\<forall>d. run code d 0 =
      (if sd_arch d \<noteq> ARCH_NR then env_action env
       else if X32_SYSCALL_BIT \<le> sd_nr d then env_action env
       else if sd_nr d = SYS_personality \<and> sd_args d 0 \<noteq> 0 \<and> sd_args d 0 \<noteq> 0xffffffff then env_action env
       else SECCOMP_RET_ALLOW))"
proof -
  note r = bpf_vm.run_stmt [OF assms(1)] bpf_vm.run_validate_architecture_kill [OF assms(1)]
    bpf_vm.run_examine_syscall [OF assms(1)] bpf_vm.run_handle_x32 [OF assms(1)]
    bpf_vm.run_at_end [OF assms(1)] bpf_vm.run_kill_or_return_errno [OF assms(1)]
  have "run (VALIDATE_ARCHITECTURE_KILL (env_action env) @ EXAMINE_SYSCALL @
       HANDLE_X32 (env_action env) @
       [BPF_JUMP (BPF_JMP + BPF_JEQ + BPF_K) SYS_personality 0 (jmp_from_to 0 7),
        BPF_STMT (BPF_LD + BPF_W + BPF_ABS) (off_arg 0),
        BPF_JUMP (BPF_JMP + BPF_JEQ + BPF_K) PER_LINUX (jmp_from_to 2 4) 0,
        BPF_JUMP (BPF_JMP + BPF_JEQ + BPF_K) 0xffffffff 0 (jmp_from_to 3 6),
        BPF_STMT (BPF_LD + BPF_W + BPF_ABS) (off_arg 0 + 4),
        BPF_JUMP (BPF_JMP + BPF_JEQ + BPF_K) 0 (jmp_from_to 5 7) 0] @
       KILL_OR_RETURN_ERRNO (env_action env) @ RETURN_ALLOW) d 0 =
      (if sd_arch d \<noteq> ARCH_NR then env_action env
       else if X32_SYSCALL_BIT \<le> sd_nr d then env_action env
       else if sd_nr d = SYS_personality \<and> sd_args d 0 \<noteq> 0 \<and> sd_args d 0 \<noteq> 0xffffffff then env_action env
       else SECCOMP_RET_ALLOW)" for d
    by (simp add: r jmp_values sd_load_arg sd_load_arg_hi PER_LINUX_def u64_halves [of "sd_args d 0"]
        personality_values KILL_OR_RETURN_ERRNO_def RETURN_ALLOW_def)
  then show ?thesis using assms(2) by (simp add: seccomp_secondary_block_def open_file_def)
qed

theorem seccomp_secondary_block_verdicts_witness:
  "\<exists>code. seccomp_secondary_block demo_env ''a'' = Inr [(''a'', code)] \<and>
     bpf_run code (call True 135 (\<lambda>_. 8)) 0 = SECCOMP_RET_ERRNO OR 1 \<and>
     bpf_run code (call True 135 (\<lambda>_. 0)) 0 = SECCOMP_RET_ALLOW \<and>
     bpf_run code (call False 135 (\<lambda>_. 0)) 0 = SECCOMP_RET_ERRNO OR 1"
  using seccomp_secondary_block_verdicts [OF ref_vm.bpf_vm_axioms, of demo_env "''a''"]
  by (fastforce simp: SYS_personality_def X32_SYSCALL_BIT_def ARCH_NR_def ARCH_32_def)

text \<open>
  \<open>syscalls_in_list\<close> splits a list into a pre-exec and a post-exec list in text form. Reading the two
  texts back gives the entries that were split: the pre-exec list keeps every entry whose number has a
  name, with its error number, and the post-exec list keeps the rest without error numbers.
\<close>

theorem syscalls_in_list_reread:
  assumes "list_entries defd native list = Inr es"
    and "syscalls_in_list defd list ''@default-keep'' native = Inr (pre, post)"
  shows "(case pre of None \<Rightarrow> pre_entries native es = []
          | Some l \<Rightarrow> list_entries defd native l = Inr (reread native (pre_entries native es))) \<and>
    (case post of None \<Rightarrow> post_entries native es = []
          | Some l \<Rightarrow> list_entries defd native l = Inr (map (\<lambda>e. (fst e, -1)) (post_entries native es)))"
proof -
  let ?ps = "map (\<lambda>e. (fst e, -1)) (post_entries native es) :: (int \<times> int) list"
  have p: "join_list (map (entry_text native) (pre_entries native es)) = pre"
    "join_list (map (entry_text native) ?ps) = post"
    using assms by (simp_all add: syscalls_in_list_split entry_text_def o_def)
  have v: "list_all valid_entry (pre_entries native es)" "list_all valid_entry ?ps"
    using list_entries_valid [OF assms(1)] by (auto simp: pre_entries_def list_all_iff valid_entry_def)
  have "reread native ?ps = ?ps"
    by (auto simp: reread_def post_entries_def keep_known intro!: filter_True)
  then show ?thesis
    using joined_entries [OF v(1), of native _ defd] joined_entries [OF v(2), of native _ defd] p
    by (cases "pre_entries native es"; cases "post_entries native es") (auto simp: join_list_Some)
qed

theorem syscalls_in_list_reread_witness:
  "\<exists>pre post. syscalls_in_list (\<lambda>_. True) ''mount,execve,!chroot'' ''@default-keep'' True = Inr (Some pre, Some post) \<and>
     list_entries (\<lambda>_. True) True post = Inr [(59, -1)]"
proof -
  obtain pre post where p: "syscalls_in_list (\<lambda>_. True) ''mount,execve,!chroot'' ''@default-keep'' True =
      Inr (Some pre, Some post)"
    by (simp add: syscalls_in_list_split demo_list pre_entries_def post_entries_def keep_nrs_def join_list_Some)
  from syscalls_in_list_reread [OF demo_list p] p show ?thesis
    by (simp add: post_entries_def keep_nrs_def)
qed

end
