(* ===== verification/Namespaces.thy ===== *)
theory Namespaces
  imports Fseccomp_Verdicts
begin

text \<open>
  \<open>fseccomp/namespaces.c\<close>: the filters of \<open>--restrict-namespaces\<close>. The list names the kinds of namespaces
  that a program may neither create nor join; \<open>build_ns_mask\<close> collects their flags and the two filters look
  for them in the arguments of \<open>clone\<close>, \<open>unshare\<close> and \<open>setns\<close>.
\<close>

definition CLONE_NEWCGROUP :: u32 where "CLONE_NEWCGROUP = 0x02000000"
definition CLONE_NEWIPC :: u32 where "CLONE_NEWIPC = 0x08000000"
definition CLONE_NEWNET :: u32 where "CLONE_NEWNET = 0x40000000"
definition CLONE_NEWNS :: u32 where "CLONE_NEWNS = 0x00020000"
definition CLONE_NEWPID :: u32 where "CLONE_NEWPID = 0x20000000"
definition CLONE_NEWTIME :: u32 where "CLONE_NEWTIME = 0x00000080"
definition CLONE_NEWUSER :: u32 where "CLONE_NEWUSER = 0x10000000"
definition CLONE_NEWUTS :: u32 where "CLONE_NEWUTS = 0x04000000"

lemmas clone_flags = CLONE_NEWCGROUP_def CLONE_NEWIPC_def CLONE_NEWNET_def CLONE_NEWNS_def
  CLONE_NEWPID_def CLONE_NEWTIME_def CLONE_NEWUSER_def CLONE_NEWUTS_def

text \<open>The chain of \<open>strcmp\<close> in the loop of \<open>build_ns_mask\<close>.\<close>

definition ns_token :: "string \<Rightarrow> u32 \<Rightarrow> u32 result" where
  "ns_token token msk =
     (if token = ''cgroup'' then Inr (msk OR CLONE_NEWCGROUP)
      else if token = ''ipc'' then Inr (msk OR CLONE_NEWIPC)
      else if token = ''net'' then Inr (msk OR CLONE_NEWNET)
      else if token = ''mnt'' then Inr (msk OR CLONE_NEWNS)
      else if token = ''pid'' then Inr (msk OR CLONE_NEWPID)
      else if token = ''time'' then Inr (msk OR CLONE_NEWTIME)
      else if token = ''user'' then Inr (msk OR CLONE_NEWUSER)
      else if token = ''uts'' then Inr (msk OR CLONE_NEWUTS)
      else Inl (InvalidNamespace token))"

definition build_ns_mask :: "string \<Rightarrow> u32 result" where
  "build_ns_mask list = fold_result ns_token (strtok (CHR '','') list) 0"

definition SYS_clone :: u32 where "SYS_clone = 56"
definition SYS_clone3 :: u32 where "SYS_clone3 = 435"
definition SYS_unshare :: u32 where "SYS_unshare = 272"
definition SYS_setns :: u32 where "SYS_setns = 308"

definition clone_32 :: u32 where "clone_32 = 120"
definition clone3_32 :: u32 where "clone3_32 = 435"
definition unshare_32 :: u32 where "unshare_32 = 310"
definition setns_32 :: u32 where "setns_32 = 346"

abbreviation ENOSYS :: u32 where "ENOSYS \<equiv> 38"

text \<open>The three kinds of statement groups of the filters.\<close>

definition deny_flags :: "u32 \<Rightarrow> u32 \<Rightarrow> u32 \<Rightarrow> sock_filter list" where
  "deny_flags action nr msk =
     BPF_JUMP (BPF_JMP + BPF_JEQ + BPF_K) nr 0 4 #
     EXAMINE_ARGUMENT 0 @
     [BPF_JUMP (BPF_JMP + BPF_JSET + BPF_K) msk 0 1] @
     KILL_OR_RETURN_ERRNO action @
     RETURN_ALLOW"

definition deny_clone3 :: "u32 \<Rightarrow> sock_filter list" where
  "deny_clone3 nr = BPF_JUMP (BPF_JMP + BPF_JEQ + BPF_K) nr 0 1 # RETURN_ERRNO ENOSYS"

definition deny_setns :: "u32 \<Rightarrow> u32 \<Rightarrow> u32 \<Rightarrow> sock_filter list" where
  "deny_setns action nr msk =
     BPF_JUMP (BPF_JMP + BPF_JEQ + BPF_K) nr 0 4 #
     EXAMINE_ARGUMENT 1 @
     [BPF_JUMP (BPF_JMP + BPF_JEQ + BPF_K) 0 1 0,
      BPF_JUMP (BPF_JMP + BPF_JSET + BPF_K) msk 0 1] @
     KILL_OR_RETURN_ERRNO action @
     RETURN_ALLOW"

definition deny_ns :: "env \<Rightarrow> string \<Rightarrow> string \<Rightarrow> filter_files result" where
  "deny_ns env fname list =
     bind_result (build_ns_mask list) (\<lambda>msk.
     let clone_mask = msk AND NOT CLONE_NEWTIME in
     bind_result (open_file env fname) (\<lambda>fd.
     Inr [(fname, fd_out (filter_end_blacklist (emit
       ((if env_defined env ''clone'' then deny_flags (env_action env) SYS_clone clone_mask else []) @
        (if env_defined env ''clone3'' then deny_clone3 SYS_clone3 else []) @
        (if env_defined env ''unshare'' then deny_flags (env_action env) SYS_unshare msk else []) @
        (if env_defined env ''setns'' then deny_setns (env_action env) SYS_setns msk else []))
       (filter_init (env_action env) True new_file))))]))"

definition deny_ns_32 :: "env \<Rightarrow> string \<Rightarrow> string \<Rightarrow> filter_files result" where
  "deny_ns_32 env fname list =
     bind_result (build_ns_mask list) (\<lambda>msk.
     let clone_mask = msk AND NOT CLONE_NEWTIME in
     bind_result (open_file env fname) (\<lambda>fd.
     Inr [(fname, fd_out (filter_end_blacklist (emit
       (deny_flags (env_action env) clone_32 clone_mask @
        deny_clone3 clone3_32 @
        deny_flags (env_action env) unshare_32 msk @
        deny_setns (env_action env) setns_32 msk)
       (filter_init (env_action env) False new_file))))]))"

subsection \<open>The mask\<close>

fun ns_flag :: "string \<Rightarrow> u32 option" where
  "ns_flag token = map_of
     [(''cgroup'', CLONE_NEWCGROUP), (''ipc'', CLONE_NEWIPC), (''net'', CLONE_NEWNET),
      (''mnt'', CLONE_NEWNS), (''pid'', CLONE_NEWPID), (''time'', CLONE_NEWTIME),
      (''user'', CLONE_NEWUSER), (''uts'', CLONE_NEWUTS)] token"

declare ns_flag.simps [simp del]

lemma ns_token_flag:
  "ns_token token msk = (case ns_flag token of None \<Rightarrow> Inl (InvalidNamespace token) | Some f \<Rightarrow> Inr (msk OR f))"
  by (simp add: ns_token_def ns_flag.simps)

text \<open>A word has one of the flags of a list of namespaces.\<close>

definition has_flag :: "u32 \<Rightarrow> string list \<Rightarrow> bool" where
  "has_flag w ts \<longleftrightarrow> list_ex (\<lambda>t. case ns_flag t of None \<Rightarrow> False | Some f \<Rightarrow> w AND f \<noteq> 0) ts"

lemma and_or_zero: "(w :: u32) AND (a OR b) = 0 \<longleftrightarrow> w AND a = 0 \<and> w AND b = 0"
  by (simp add: bit.conj_disj_distrib or_eq_0_iff)

lemma ns_fold:
  "fold_result ns_token ts m = Inr msk \<Longrightarrow> w AND msk \<noteq> 0 \<longleftrightarrow> w AND m \<noteq> 0 \<or> has_flag w ts"
  by (induction ts arbitrary: m)
    (auto simp: bind_result_eq_Inr_iff ns_token_flag has_flag_def and_or_zero split: option.splits)

lemma ns_mask: "build_ns_mask list = Inr msk \<Longrightarrow> w AND msk \<noteq> 0 \<longleftrightarrow> has_flag w (strtok (CHR '','') list)"
  by (simp add: build_ns_mask_def ns_fold)

lemma ns_flag_time:
  "ns_flag t = Some f \<Longrightarrow> f AND NOT CLONE_NEWTIME = (if t = ''time'' then 0 else f)"
  by (auto simp: ns_flag.simps clone_flags split: if_splits)

lemma ns_clone_fold:
  "fold_result ns_token ts m = Inr msk \<Longrightarrow>
   w AND (msk AND NOT CLONE_NEWTIME) \<noteq> 0 \<longleftrightarrow>
     w AND (m AND NOT CLONE_NEWTIME) \<noteq> 0 \<or> has_flag w (filter (\<lambda>t. t \<noteq> ''time'') ts)"
proof (induction ts arbitrary: m)
  case (Cons t ts)
  from Cons.prems obtain f where f: "ns_flag t = Some f" "fold_result ns_token ts (m OR f) = Inr msk"
    by (auto simp: bind_result_eq_Inr_iff ns_token_flag [of t m] split: option.splits)
  have "(m OR f) AND NOT CLONE_NEWTIME = (m AND NOT CLONE_NEWTIME) OR (f AND NOT CLONE_NEWTIME)"
    by (simp add: bit.conj_disj_distrib2)
  with Cons.IH [OF f(2)] f(1) ns_flag_time [OF f(1)] show ?case
    by (auto simp: has_flag_def and_or_zero)
qed (simp add: has_flag_def)

lemma ns_clone_mask:
  "build_ns_mask list = Inr msk \<Longrightarrow>
   w AND (msk AND NOT CLONE_NEWTIME) \<noteq> 0 \<longleftrightarrow> has_flag w (filter (\<lambda>t. t \<noteq> ''time'') (strtok (CHR '','') list))"
  by (simp add: build_ns_mask_def ns_clone_fold)

lemma build_ns_mask_total:
  "(\<exists>msk. build_ns_mask list = Inr msk) \<longleftrightarrow> list_all (\<lambda>t. ns_flag t \<noteq> None) (strtok (CHR '','') list)"
proof -
  have "(\<exists>msk. fold_result ns_token ts m = Inr msk) \<longleftrightarrow> list_all (\<lambda>t. ns_flag t \<noteq> None) ts" for ts m
    by (induction ts arbitrary: m) (auto simp: bind_result_eq_Inr_iff ns_token_flag split: option.splits)
  then show ?thesis by (simp add: build_ns_mask_def)
qed

subsection \<open>Verdicts\<close>

context bpf_vm
begin

lemma run_deny_flags [simp]:
  "run (deny_flags act n msk @ p) d a =
     (if a = n then (if lo32 (sd_args d 0) AND msk \<noteq> 0 then act else SECCOMP_RET_ALLOW) else run p d a)"
  by (simp add: deny_flags_def EXAMINE_ARGUMENT_def sd_load_arg KILL_OR_RETURN_ERRNO_def RETURN_ALLOW_def)

lemma run_deny_clone3 [simp]:
  "run (deny_clone3 n @ p) d a = (if a = n then SECCOMP_RET_ERRNO OR ENOSYS else run p d a)"
  by (simp add: deny_clone3_def RETURN_ERRNO_def)

lemma run_deny_setns [simp]:
  "run (deny_setns act n msk @ p) d a =
     (if a = n then (if lo32 (sd_args d 1) = 0 \<or> lo32 (sd_args d 1) AND msk \<noteq> 0 then act else SECCOMP_RET_ALLOW)
      else SECCOMP_RET_ALLOW)"
  by (simp add: deny_setns_def EXAMINE_ARGUMENT_def sd_load_arg KILL_OR_RETURN_ERRNO_def RETURN_ALLOW_def)

end

text \<open>What the filters are to answer, by the name of the call.\<close>

definition ns_verdict :: "u32 \<Rightarrow> string list \<Rightarrow> string \<Rightarrow> (nat \<Rightarrow> u64) \<Rightarrow> u32" where
  "ns_verdict action ts name args =
     (if name = ''clone3'' then SECCOMP_RET_ERRNO OR ENOSYS
      else if name = ''clone'' \<and> has_flag (lo32 (args 0)) (filter (\<lambda>t. t \<noteq> ''time'') ts) then action
      else if name = ''unshare'' \<and> has_flag (lo32 (args 0)) ts then action
      else if name = ''setns'' \<and> (lo32 (args 1) = 0 \<or> has_flag (lo32 (args 1)) ts) then action
      else SECCOMP_RET_ALLOW)"

lemma ns_names:
  "syscall_find_name ''clone'' = 56" "syscall_find_name ''clone3'' = 435"
  "syscall_find_name ''unshare'' = 272" "syscall_find_name ''setns'' = 308"
  "syscall_find_name_32 ''clone'' = 120" "syscall_find_name_32 ''clone3'' = 435"
  "syscall_find_name_32 ''unshare'' = 310" "syscall_find_name_32 ''setns'' = 346"
  by (simp_all only: syscall_find_name_def syscall_find_name_32_def syslist_defs syslist32_defs table_eval)

lemma ns_entries:
  "(''clone'', 56) \<in> set (table_of True)" "(''clone3'', 435) \<in> set (table_of True)"
  "(''unshare'', 272) \<in> set (table_of True)" "(''setns'', 308) \<in> set (table_of True)"
  "(''clone'', 120) \<in> set (table_of False)" "(''clone3'', 435) \<in> set (table_of False)"
  "(''unshare'', 310) \<in> set (table_of False)" "(''setns'', 346) \<in> set (table_of False)"
  by (rule find_name_entry; simp add: ns_names SYSCALL_ERROR_def INT_MAX_def)+


text \<open>
  The namespace filter for 32 bit programs answers in the same way for the i386 numbers of the calls.
\<close>

theorem deny_ns_32_verdicts:
  assumes "bpf_vm run" "env_open env fname \<ge> 0"
    and "list_all (\<lambda>t. ns_flag t \<noteq> None) (strtok (CHR '','') list)"
  shows "\<exists>code. deny_ns_32 env fname list = Inr [(fname, code)] \<and>
    (\<forall>name s args. (name, s) \<in> set (table_of False) \<longrightarrow>
       run code (call False s args) 0 = ns_verdict (env_action env) (strtok (CHR '','') list) name args)"
proof -
  from assms(3) obtain msk where msk: "build_ns_mask list = Inr msk"
    using build_ns_mask_total by blast
  have "run (init_code (env_action env) False @ deny_flags (env_action env) clone_32 (msk AND NOT CLONE_NEWTIME) @
      deny_clone3 clone3_32 @ deny_flags (env_action env) unshare_32 msk @
      deny_setns (env_action env) setns_32 msk @ RETURN_ALLOW) (call False s args) 0 =
      ns_verdict (env_action env) (strtok (CHR '','') list) name args"
    if t: "(name, s) \<in> set (table_of False)" for name s args
  proof -
    note w = table_name_iff [OF t ns_entries(5)] table_name_iff [OF t ns_entries(6)]
      table_name_iff [OF t ns_entries(7)] table_name_iff [OF t ns_entries(8)]
    from table_small [OF t] w show ?thesis
      by (simp add: run_init_call [OF assms(1)] bpf_vm.run_deny_flags [OF assms(1)]
          bpf_vm.run_deny_clone3 [OF assms(1)] bpf_vm.run_deny_setns [OF assms(1)]
          clone_32_def clone3_32_def unshare_32_def setns_32_def ns_verdict_def
          ns_mask [OF msk, simplified] ns_clone_mask [OF msk, simplified])
  qed
  then show ?thesis
    using assms(2) by (auto simp: deny_ns_32_def msk open_file_def filter_init_code filter_end_blacklist_def
        new_file_def Let_def)
qed


theorem deny_ns_32_verdicts_witness:
  "\<exists>code. deny_ns_32 demo_env ''a'' ''net'' = Inr [(''a'', code)] \<and>
     bpf_run code (call False 346 (\<lambda>_. 0)) 0 = SECCOMP_RET_ERRNO OR 1 \<and>
     bpf_run code (call False 435 (\<lambda>_. 0)) 0 = SECCOMP_RET_ERRNO OR 38"
proof -
  have "list_all (\<lambda>t. ns_flag t \<noteq> None) (strtok (CHR '','') ''net'')"
    by (simp add: strtok_def ns_flag.simps)
  from deny_ns_32_verdicts [OF ref_vm.bpf_vm_axioms _ this, of demo_env "''a''"]
  obtain code where c: "deny_ns_32 demo_env ''a'' ''net'' = Inr [(''a'', code)]"
    "\<And>name s args. (name, s) \<in> set (table_of False) \<Longrightarrow>
       bpf_run code (call False s args) 0 = ns_verdict (SECCOMP_RET_ERRNO OR 1) [''net''] name args"
    by (auto simp: strtok_def)
  then show ?thesis
    using ns_entries(6,8) by (auto simp: ns_verdict_def lo32_def)
qed

end
