(* ===== verification/Protocol.thy ===== *)
theory Protocol
  imports Fseccomp_Verdicts
begin

text \<open>
  \<open>fseccomp/protocol.c\<close>: the filter of \<open>--protocol\<close>, which limits the address families \<open>socket\<close> may be
  called with. The filter is put together in a local array of 32 instructions; a \<open>memcpy\<close> past its end is
  the outcome \<open>BufferOverflow\<close>.
\<close>

abbreviation AF_UNIX :: u32 where "AF_UNIX \<equiv> 1"
abbreviation AF_INET :: u32 where "AF_INET \<equiv> 2"
abbreviation AF_INET6 :: u32 where "AF_INET6 \<equiv> 10"
abbreviation AF_NETLINK :: u32 where "AF_NETLINK \<equiv> 16"
abbreviation AF_PACKET :: u32 where "AF_PACKET \<equiv> 17"
abbreviation AF_BLUETOOTH :: u32 where "AF_BLUETOOTH \<equiv> 31"
abbreviation ENOTSUP :: u32 where "ENOTSUP \<equiv> 95"

definition SYS_socket :: u32 where "SYS_socket = 41"

definition protocol :: "string list" where
  "protocol = [''unix'', ''inet'', ''inet6'', ''netlink'', ''packet'', ''bluetooth'']"

definition protocol_filter_command :: "sock_filter list" where
  "protocol_filter_command =
     WHITELIST AF_UNIX @ WHITELIST AF_INET @ WHITELIST AF_INET6 @ WHITELIST AF_NETLINK @
     WHITELIST AF_PACKET @ WHITELIST AF_BLUETOOTH"

definition whitelist_len :: nat where
  "whitelist_len = length (WHITELIST AF_UNIX)"

text \<open>The loop of \<open>find_protocol_domain\<close> from index \<open>i\<close> on; the result is the command it points to.\<close>

fun find_protocol_from :: "string list \<Rightarrow> nat \<Rightarrow> string \<Rightarrow> sock_filter list option" where
  "find_protocol_from [] i p = None"
| "find_protocol_from (q # qs) i p =
     (if q = p then Some (take whitelist_len (drop (i * whitelist_len) protocol_filter_command))
      else find_protocol_from qs (i + 1) p)"

definition find_protocol_domain :: "string \<Rightarrow> sock_filter list option" where
  "find_protocol_domain p = find_protocol_from protocol 0 p"

definition protocol_print :: string where
  "protocol_print = concat (map (\<lambda>p. p @ '', '') protocol) @ [CHR 0x0A]"

definition filter_size :: nat where
  "filter_size = 32"

definition memcpy_filter :: "sock_filter list \<Rightarrow> sock_filter list \<Rightarrow> sock_filter list result" where
  "memcpy_filter block buf =
     (if filter_size < length buf + length block then Inl BufferOverflow else Inr (buf @ block))"

definition filter_start :: "u32 \<Rightarrow> sock_filter list" where
  "filter_start action =
     [BPF_STMT (BPF_LD + BPF_W + BPF_ABS) off_arch,
      BPF_JUMP (BPF_JMP + BPF_JEQ + BPF_K) ARCH_NR (1 + 2 + 1) 0] @
     EXAMINE_SYSCALL @
     ONLY 359 @
     [BPF_JUMP (BPF_JMP + BPF_JA + BPF_K) (3 + 1 + 3 + 2) 0 0] @
     VALIDATE_ARCHITECTURE @
     EXAMINE_SYSCALL @
     HANDLE_X32 action @
     ONLY SYS_socket @
     EXAMINE_ARGUMENT 0"

definition protocol_token :: "string \<Rightarrow> sock_filter list \<Rightarrow> sock_filter list result" where
  "protocol_token token buf =
     (case find_protocol_domain token of
        None \<Rightarrow> Inl (InvalidProtocol token)
      | Some domain \<Rightarrow> memcpy_filter domain buf)"

definition protocol_build_filter :: "env \<Rightarrow> string \<Rightarrow> string \<Rightarrow> filter_files result" where
  "protocol_build_filter env prlist fname =
     bind_result (memcpy_filter (filter_start (env_action env)) []) (\<lambda>buf.
     if strtok (CHR '','') prlist = [] then Inl StrtokNull
     else
       bind_result (fold_result protocol_token (strtok (CHR '','') prlist) buf) (\<lambda>buf.
       bind_result (memcpy_filter (RETURN_ERRNO ENOTSUP) buf) (\<lambda>buf.
       bind_result (open_file env fname) (\<lambda>fd.
       Inr [(fname, buf)]))))"

subsection \<open>The table\<close>

definition family :: "string \<Rightarrow> u32 option" where
  "family p = map_of
     [(''unix'', AF_UNIX), (''inet'', AF_INET), (''inet6'', AF_INET6), (''netlink'', AF_NETLINK),
      (''packet'', AF_PACKET), (''bluetooth'', AF_BLUETOOTH)] p"

text \<open>The two tables of the source are synchronised.\<close>

lemma find_protocol_domain_family:
  "find_protocol_domain p = map_option WHITELIST (family p)"
  by (simp add: find_protocol_domain_def protocol_def family_def protocol_filter_command_def
      whitelist_len_def WHITELIST_def)

lemma length_WHITELIST [simp]: "length (WHITELIST n) = 2"
  by (simp add: WHITELIST_def)

lemma length_filter_start [simp]: "length (filter_start act) = 16"
  by (simp add: filter_start_def EXAMINE_SYSCALL_def ONLY_def VALIDATE_ARCHITECTURE_def HANDLE_X32_def
      KILL_OR_RETURN_ERRNO_def EXAMINE_ARGUMENT_def)

lemma length_RETURN_ERRNO [simp]: "length (RETURN_ERRNO e) = 1"
  by (simp add: RETURN_ERRNO_def)

subsection \<open>The loop\<close>

lemma protocol_token_family:
  "protocol_token t buf = (case family t of None \<Rightarrow> Inl (InvalidProtocol t)
     | Some a \<Rightarrow> if filter_size < length buf + 2 then Inl BufferOverflow else Inr (buf @ WHITELIST a))"
  by (simp add: protocol_token_def find_protocol_domain_family memcpy_filter_def split: option.split)

lemma protocol_fold_ok:
  "list_all (\<lambda>t. family t \<noteq> None) ts \<Longrightarrow> length buf + 2 * length ts \<le> filter_size \<Longrightarrow>
   fold_result protocol_token ts buf = Inr (buf @ concat (map (\<lambda>t. WHITELIST (the (family t))) ts))"
  by (induction ts arbitrary: buf) (auto simp: protocol_token_family)

lemma protocol_fold_overflow:
  "list_all (\<lambda>t. family t \<noteq> None) ts \<Longrightarrow> filter_size < length buf + 2 * length ts \<Longrightarrow> length buf \<le> filter_size \<Longrightarrow>
   fold_result protocol_token ts buf = Inl BufferOverflow"
  by (induction ts arbitrary: buf) (auto simp: protocol_token_family)

lemma protocol_build_cases:
  assumes "strtok (CHR '','') prlist = ts" "ts \<noteq> []" "list_all (\<lambda>t. family t \<noteq> None) ts"
  shows "protocol_build_filter env prlist fname =
    (if 7 < length ts then Inl BufferOverflow
     else bind_result (open_file env fname) (\<lambda>fd. Inr [(fname, filter_start (env_action env) @
       concat (map (\<lambda>t. WHITELIST (the (family t))) ts) @ RETURN_ERRNO ENOTSUP)]))"
proof -
  have l: "length (concat (map (\<lambda>t. WHITELIST (the (family t))) us)) = 2 * length us" for us
    by (induction us) simp_all
  show ?thesis
  proof (cases "length ts \<le> 8")
    case True
    then show ?thesis
      using assms protocol_fold_ok [of ts "filter_start (env_action env)"]
      by (simp add: protocol_build_filter_def memcpy_filter_def filter_size_def l)
  next
    case False
    then show ?thesis
      using assms protocol_fold_overflow [of ts "filter_start (env_action env)"]
      by (simp add: protocol_build_filter_def memcpy_filter_def filter_size_def)
  qed
qed

subsection \<open>Verdicts\<close>

definition protocol_verdict :: "u32 \<Rightarrow> string list \<Rightarrow> seccomp_data \<Rightarrow> u32" where
  "protocol_verdict action ts d =
     (let answer = (if list_ex (\<lambda>t. family t = Some (lo32 (sd_args d 0))) ts then SECCOMP_RET_ALLOW
                    else SECCOMP_RET_ERRNO OR ENOTSUP)
      in if sd_arch d = ARCH_NR then
           (if X32_SYSCALL_BIT \<le> sd_nr d then action
            else if sd_nr d = SYS_socket then answer else SECCOMP_RET_ALLOW)
         else if sd_nr d = 359 then answer else SECCOMP_RET_ALLOW)"

context bpf_vm
begin

lemma run_families:
  "list_all (\<lambda>t. family t \<noteq> None) ts \<Longrightarrow>
   run (concat (map (\<lambda>t. WHITELIST (the (family t))) ts) @ RETURN_ERRNO e) d a =
     (if list_ex (\<lambda>t. family t = Some a) ts then SECCOMP_RET_ALLOW else SECCOMP_RET_ERRNO OR e)"
  by (induction ts) auto

lemma run_filter_start:
  "run (filter_start act @ p) d a =
     (if sd_arch d = ARCH_NR then
        (if X32_SYSCALL_BIT \<le> sd_nr d then act
         else if sd_nr d = SYS_socket then run p d (lo32 (sd_args d 0)) else SECCOMP_RET_ALLOW)
      else if sd_nr d = 359 then run p d (lo32 (sd_args d 0)) else SECCOMP_RET_ALLOW)"
  by (simp add: filter_start_def VALIDATE_ARCHITECTURE_def EXAMINE_SYSCALL_def HANDLE_X32_def ONLY_def
      KILL_OR_RETURN_ERRNO_def EXAMINE_ARGUMENT_def sd_load_arg)

end

text \<open>
  C22. The protocol filter for up to seven valid protocols: \<open>socket\<close>, native or i386, is allowed exactly for
  the listed address families and answers \<open>ENOTSUP\<close> for the others, x32 calls are refused, and every
  other call is allowed.
\<close>

theorem protocol_build_filter_verdicts:
  assumes "bpf_vm run" "env_open env fname \<ge> 0" "strtok (CHR '','') prlist = ts"
    and "0 < length ts" "length ts \<le> 7" "list_all (\<lambda>t. family t \<noteq> None) ts"
  shows "\<exists>code. protocol_build_filter env prlist fname = Inr [(fname, code)] \<and>
    (\<forall>d. run code d 0 = protocol_verdict (env_action env) ts d)"
  using assms
  by (simp add: protocol_build_cases open_file_def bpf_vm.run_filter_start bpf_vm.run_families
      protocol_verdict_def)

theorem protocol_build_filter_verdicts_witness:
  "\<exists>code. protocol_build_filter demo_env ''unix,inet'' ''a'' = Inr [(''a'', code)] \<and>
     bpf_run code (call True 41 (\<lambda>_. 2)) 0 = SECCOMP_RET_ALLOW \<and>
     bpf_run code (call True 41 (\<lambda>_. 16)) 0 = SECCOMP_RET_ERRNO OR 95 \<and>
     bpf_run code (call False 359 (\<lambda>_. 17)) 0 = SECCOMP_RET_ERRNO OR 95"
  using protocol_build_filter_verdicts [OF ref_vm.bpf_vm_axioms, of demo_env "''a''" "''unix,inet''"
      "[''unix'', ''inet'']"]
  by (fastforce simp: strtok_def family_def protocol_verdict_def lo32_def SYS_socket_def
      X32_SYSCALL_BIT_def ARCH_NR_def ARCH_32_def)

text \<open>
  The local array holds seven protocols. A list of eight or more valid protocols, which needs a
  repeated name, is written past its end.
\<close>

theorem protocol_build_filter_overflow:
  assumes "strtok (CHR '','') prlist = ts" "list_all (\<lambda>t. family t \<noteq> None) ts" "7 < length ts"
  shows "protocol_build_filter env prlist fname = Inl BufferOverflow"
  using protocol_build_cases [OF assms(1) _ assms(2)] assms(3) by (cases ts) simp_all

theorem protocol_build_filter_overflow_witness:
  "protocol_build_filter demo_env ''unix,unix,unix,unix,unix,unix,unix,unix'' ''a'' = Inl BufferOverflow"
  by (rule protocol_build_filter_overflow [of _ "replicate 8 ''unix''"])
    (simp_all add: strtok_def family_def numeral_eq_Suc)

end
