(* ===== verification/Optimizer.thy ===== *)
theory Optimizer
  imports Fseccomp_Verdicts
begin

text \<open>
  \<open>fsec-optimize\<close>: \<open>optimizer.c\<close> folds the blacklist statements of a filter into jumps to one common
  return instruction at its end. The arrays of the source are lists updated by index, its loops recursive
  functions over the same indices.

  The lemmas compute the result of the loops on the filters that fseccomp writes, and compare the verdicts
  of the filter before and after. The offset of a jump is stored in eight bits.
\<close>

definition LIMIT_BLACKLISTS :: nat where
  "LIMIT_BLACKLISTS = 4"

definition is_blacklist :: "u32 \<Rightarrow> sock_filter list \<Rightarrow> nat \<Rightarrow> bool" where
  "is_blacklist error_action bpf i \<longleftrightarrow>
     bpf_code (bpf ! i) = BPF_JMP + BPF_JEQ + BPF_K \<and>
     bpf_code (bpf ! (i + 1)) = BPF_RET + BPF_K \<and>
     bpf_k (bpf ! (i + 1)) = error_action"

function count_from :: "u32 \<Rightarrow> sock_filter list \<Rightarrow> nat \<Rightarrow> nat \<Rightarrow> nat \<Rightarrow> nat" where
  "count_from error_action flt entries i cnt =
     (if i < entries - 1
      then count_from error_action flt entries (i + 1)
             (if is_blacklist error_action flt i then cnt + 1 else cnt)
      else cnt)"
  by pat_completeness auto
termination
  by (relation "measure (\<lambda>(e, f, n, i, c). n - i)") auto

definition count_blacklists :: "u32 \<Rightarrow> sock_filter list \<Rightarrow> nat \<Rightarrow> nat" where
  "count_blacklists error_action flt entries = count_from error_action flt entries 0 0"

record Action =
  to_remove :: bool
  to_fix_jumps :: bool

definition no_action :: Action where
  "no_action = \<lparr>to_remove = False, to_fix_jumps = False\<rparr>"

text \<open>Step 1: mark the jumps to fix and the lines to remove.\<close>

function extract_info :: "u32 \<Rightarrow> sock_filter list \<Rightarrow> nat \<Rightarrow> nat \<Rightarrow> Action list \<Rightarrow> Action list" where
  "extract_info error_action flt entries i act =
     (if i < entries - 1
      then if is_blacklist error_action flt i
           then extract_info error_action flt entries (i + 2)
                  (act[i := (act ! i)\<lparr>to_fix_jumps := True\<rparr>,
                       i + 1 := (act ! (i + 1))\<lparr>to_remove := True\<rparr>])
           else extract_info error_action flt entries (i + 1) act
      else act)"
  by pat_completeness auto
termination
  by (relation "measure (\<lambda>(e, f, n, i, a). n - i)") auto

text \<open>Step 2: copy the lines that stay, with what is known of them; \<open>j\<close> counts them.\<close>

function remove_lines ::
    "sock_filter list \<Rightarrow> Action list \<Rightarrow> nat \<Rightarrow> nat \<Rightarrow> nat \<Rightarrow> sock_filter list \<Rightarrow> Action list \<Rightarrow>
     nat \<times> sock_filter list \<times> Action list" where
  "remove_lines flt act entries i j flt2 act2 =
     (if i < entries
      then if \<not> to_remove (act ! i)
           then remove_lines flt act entries (i + 1) (j + 1) (flt2[j := flt ! i]) (act2[j := act ! i])
           else remove_lines flt act entries (i + 1) j flt2 act2
      else (j, flt2, act2))"
  by pat_completeness auto
termination
  by (relation "measure (\<lambda>(f, a, n, i, j, f2, a2). n - i)") auto

text \<open>Step 4: the jumps to the new last line.\<close>

function fix_jumps :: "Action list \<Rightarrow> nat \<Rightarrow> nat \<Rightarrow> sock_filter list \<Rightarrow> sock_filter list" where
  "fix_jumps act2 entries i flt2 =
     (if i < entries
      then fix_jumps act2 entries (i + 1)
             (if to_fix_jumps (act2 ! i)
              then flt2[i := (flt2 ! i)\<lparr>bpf_jt := word_of_int (int entries - int i - 2), bpf_jf := 0\<rparr>]
              else flt2)
      else flt2)"
  by pat_completeness auto
termination
  by (relation "measure (\<lambda>(a, n, i, f). n - i)") auto

declare count_from.simps [simp del] extract_info.simps [simp del] remove_lines.simps [simp del]
  fix_jumps.simps [simp del]

text \<open>The filter array after the call, and the number of entries it returns.\<close>

definition optimize_blacklists :: "u32 \<Rightarrow> sock_filter list \<Rightarrow> nat \<Rightarrow> (sock_filter list \<times> nat) result" where
  "optimize_blacklists error_action flt entries =
     (if entries = 0 then Inl AssertFailure
      else
        let act = extract_info error_action flt entries 0 (replicate entries no_action) in
        case remove_lines flt act entries 0 0 (take entries flt) (replicate entries no_action) of
          (j, flt2, act2) \<Rightarrow>
            if j \<ge> length flt2 then Inl BufferOverflow
            else
              let flt3 = flt2[j := (flt2 ! j)\<lparr>bpf_code := BPF_RET + BPF_K, bpf_k := error_action\<rparr>];
                  n = j + 1;
                  flt4 = fix_jumps act2 n 0 flt3
              in Inr (take n flt4 @ drop n flt, n))"

definition optimize :: "u32 \<Rightarrow> sock_filter list \<Rightarrow> nat \<Rightarrow> (sock_filter list \<times> nat) result" where
  "optimize error_action flt entries =
     (if entries = 0 then Inl AssertFailure
      else if count_blacklists error_action flt entries > LIMIT_BLACKLISTS
      then optimize_blacklists error_action flt entries
      else Inr (flt, entries))"

text \<open>
  \<open>main\<close> of \<open>fsec-optimize/main.c\<close> after the error action is known: the file is replaced by the optimised
  filter. The number of entries is computed from the size of the file cut to sixteen bits; an empty file
  cannot be mapped.
\<close>

definition fsec_entries :: "nat \<Rightarrow> nat" where
  "fsec_entries sz = sz mod 2 ^ 16 div 8"

definition fsec_optimize :: "u32 \<Rightarrow> string \<Rightarrow> sock_filter list \<Rightarrow> filter_files result" where
  "fsec_optimize error_action fname flt =
     (if flt = [] then Inl (CannotRead fname)
      else
        let entries = fsec_entries (8 * length flt) in
        bind_result (optimize error_action (take entries flt) entries) (\<lambda>(outfilter, n).
        Inr [(fname, take n outfilter)]))"

subsection \<open>The loops, as functions of the lines\<close>

definition blacklist_pair :: "u32 \<Rightarrow> sock_filter \<Rightarrow> sock_filter \<Rightarrow> bool" where
  "blacklist_pair e a b \<longleftrightarrow> bpf_code a = BPF_JMP + BPF_JEQ + BPF_K \<and> bpf_code b = BPF_RET + BPF_K \<and> bpf_k b = e"

fun marks :: "u32 \<Rightarrow> sock_filter list \<Rightarrow> Action list" where
  "marks e (a # b # r) =
     (if blacklist_pair e a b
      then \<lparr>to_remove = False, to_fix_jumps = True\<rparr> # \<lparr>to_remove = True, to_fix_jumps = False\<rparr> # marks e r
      else no_action # marks e (b # r))"
| "marks e [a] = [no_action]"
| "marks e [] = []"

lemma length_marks [simp]: "length (marks e f) = length f"
  by (induction e f rule: marks.induct) auto

lemma is_blacklist_append:
  "is_blacklist e (xs @ a # b # r) (length xs) \<longleftrightarrow> blacklist_pair e a b"
  by (simp add: is_blacklist_def blacklist_pair_def nth_append)

lemma extract_info_marks:
  "length as = length xs \<Longrightarrow>
   extract_info e (xs @ f) (length xs + length f) (length xs) (as @ replicate (length f) no_action) =
     as @ marks e f"
proof (induction e f arbitrary: xs as rule: marks.induct)
  case (1 e a b r)
  show ?case
  proof (cases "blacklist_pair e a b")
    case True
    have "extract_info e ((xs @ [a, b]) @ r) (length (xs @ [a, b]) + length r) (length (xs @ [a, b]))
        ((as @ [no_action\<lparr>to_fix_jumps := True\<rparr>, no_action\<lparr>to_remove := True\<rparr>]) @ replicate (length r) no_action) =
        (as @ [no_action\<lparr>to_fix_jumps := True\<rparr>, no_action\<lparr>to_remove := True\<rparr>]) @ marks e r"
      using "1.prems" by (intro "1.IH"(1) [OF True]) simp
    then show ?thesis
      using "1.prems" True
      by (subst extract_info.simps) (simp add: is_blacklist_append nth_append list_update_append no_action_def)
  next
    case False
    have "extract_info e ((xs @ [a]) @ b # r) (length (xs @ [a]) + length (b # r)) (length (xs @ [a]))
        ((as @ [no_action]) @ replicate (length (b # r)) no_action) = (as @ [no_action]) @ marks e (b # r)"
      using "1.prems" by (intro "1.IH"(2) [OF False]) simp
    then show ?thesis
      using "1.prems" False by (subst extract_info.simps) (simp add: is_blacklist_append)
  qed
qed (subst extract_info.simps, auto)+

definition kept :: "sock_filter list \<Rightarrow> Action list \<Rightarrow> (sock_filter \<times> Action) list" where
  "kept f ms = filter (\<lambda>p. \<not> to_remove (snd p)) (zip f ms)"

lemma kept_simps [simp]:
  "kept [] ms = []" "kept (a # f) (m # ms) = (if to_remove m then kept f ms else (a, m) # kept f ms)"
  by (simp_all add: kept_def)

lemma remove_lines_kept:
  "length ms = length f \<Longrightarrow> length as = length xs \<Longrightarrow> length bs = length ys \<Longrightarrow>
   length f \<le> length zs \<Longrightarrow> length f \<le> length cs \<Longrightarrow>
   remove_lines (xs @ f) (as @ ms) (length xs + length f) (length xs) (length ys) (ys @ zs) (bs @ cs) =
     (length ys + length (kept f ms), ys @ map fst (kept f ms) @ drop (length (kept f ms)) zs,
      bs @ map snd (kept f ms) @ drop (length (kept f ms)) cs)"
proof (induction f arbitrary: ms xs as ys zs bs cs)
  case Nil
  then show ?case by (simp add: remove_lines.simps)
next
  case (Cons a f)
  from Cons.prems(1) obtain m ns where ms: "ms = m # ns" "length ns = length f" by (cases ms) auto
  from Cons.prems(4,5) obtain z zs' c cs' where z: "zs = z # zs'" "cs = c # cs'"
    by (cases zs; cases cs) auto
  show ?case
  proof (cases "to_remove m")
    case True
    have "remove_lines ((xs @ [a]) @ f) ((as @ [m]) @ ns) (length (xs @ [a]) + length f) (length (xs @ [a]))
        (length ys) (ys @ zs) (bs @ cs) =
      (length ys + length (kept f ns), ys @ map fst (kept f ns) @ drop (length (kept f ns)) zs,
       bs @ map snd (kept f ns) @ drop (length (kept f ns)) cs)"
      using Cons.prems ms by (intro Cons.IH) simp_all
    then show ?thesis
      using Cons.prems True ms by (subst remove_lines.simps) (simp add: nth_append)
  next
    case False
    have "remove_lines ((xs @ [a]) @ f) ((as @ [m]) @ ns) (length (xs @ [a]) + length f) (length (xs @ [a]))
        (length (ys @ [a])) ((ys @ [a]) @ zs') ((bs @ [m]) @ cs') =
      (length (ys @ [a]) + length (kept f ns), (ys @ [a]) @ map fst (kept f ns) @ drop (length (kept f ns)) zs',
       (bs @ [m]) @ map snd (kept f ns) @ drop (length (kept f ns)) cs')"
      using Cons.prems ms z by (intro Cons.IH) simp_all
    then show ?thesis
      using Cons.prems False ms z
      by (subst remove_lines.simps) (simp add: nth_append list_update_append)
  qed
qed

text \<open>The lines with their jumps fixed; \<open>k\<close> lines follow the list.\<close>

fun jumps_fixed :: "nat \<Rightarrow> (sock_filter \<times> Action) list \<Rightarrow> sock_filter list" where
  "jumps_fixed k [] = []"
| "jumps_fixed k ((a, m) # r) =
     (if to_fix_jumps m then a\<lparr>bpf_jt := word_of_int (int (length r + k) - 1), bpf_jf := 0\<rparr> else a) # jumps_fixed k r"

lemma fix_jumps_fixed:
  "length bs = length ys \<Longrightarrow>
   fix_jumps (bs @ map snd p @ cs) (length ys + length p) (length ys) (ys @ map fst p @ zs) =
     ys @ jumps_fixed 0 p @ zs"
proof (induction p arbitrary: ys bs)
  case Nil
  then show ?case by (simp add: fix_jumps.simps)
next
  case (Cons q p)
  obtain a m where q: "q = (a, m)" by (cases q)
  let ?a = "if to_fix_jumps m then a\<lparr>bpf_jt := word_of_int (int (length p) - 1), bpf_jf := 0\<rparr> else a"
  have "fix_jumps ((bs @ [m]) @ map snd p @ cs) (length (ys @ [?a]) + length p) (length (ys @ [?a]))
      ((ys @ [?a]) @ map fst p @ zs) = (ys @ [?a]) @ jumps_fixed 0 p @ zs"
    using Cons.prems by (intro Cons.IH) simp
  then show ?case
    using Cons.prems q
    by (subst fix_jumps.simps; cases "to_fix_jumps m") (simp_all add: nth_append list_update_append)
qed

lemma length_jumps_fixed [simp]: "length (jumps_fixed k p) = length p"
  by (induction k p rule: jumps_fixed.induct) auto

lemma jumps_fixed_snoc: "jumps_fixed 0 (p @ [(a, no_action)]) = jumps_fixed 1 p @ [a]"
  by (induction p) (auto simp: no_action_def)


lemma optimize_blacklists_eq:
  assumes "f \<noteq> []" "length (kept f (marks e f)) < length f"
  shows "\<exists>jt jf. optimize_blacklists e f (length f) =
    Inr (jumps_fixed 1 (kept f (marks e f)) @ [\<lparr>bpf_code = BPF_RET + BPF_K, bpf_jt = jt, bpf_jf = jf, bpf_k = e\<rparr>] @
         drop (length (kept f (marks e f)) + 1) f, length (kept f (marks e f)) + 1)"
proof -
  let ?p = "kept f (marks e f)"
  let ?j = "length ?p"
  let ?last = "(f ! ?j)\<lparr>bpf_code := BPF_RET + BPF_K, bpf_k := e\<rparr>"
  have x: "extract_info e f (length f) 0 (replicate (length f) no_action) = marks e f"
    using extract_info_marks [of "[]" "[]" e f] by simp
  have r: "remove_lines f (marks e f) (length f) 0 0 f (replicate (length f) no_action) =
      (?j, map fst ?p @ drop ?j f, map snd ?p @ drop ?j (replicate (length f) no_action))"
    using remove_lines_kept [of "marks e f" f "[]" "[]" "[]" "[]" f "replicate (length f) no_action"] by simp
  have d: "drop ?j f = f ! ?j # drop (?j + 1) f" using assms(2) by (simp add: Cons_nth_drop_Suc)
  have c: "drop ?j (replicate (length f) no_action) = no_action # replicate (length f - ?j - 1) no_action"
    using assms(2) by (metis Suc_diff_Suc drop_replicate replicate_Suc diff_Suc_1 diff_Suc_eq_diff_pred diff_commute One_nat_def)
  have "fix_jumps (map snd ?p @ drop ?j (replicate (length f) no_action)) (?j + 1) 0
      (map fst ?p @ ?last # drop (?j + 1) f) = jumps_fixed 0 (?p @ [(?last, no_action)]) @ drop (?j + 1) f"
    using fix_jumps_fixed [of "[]" "[]" "?p @ [(?last, no_action)]"
        "replicate (length f - ?j - 1) no_action" "drop (?j + 1) f"] c by simp
  then have "fix_jumps (map snd ?p @ drop ?j (replicate (length f) no_action)) (?j + 1) 0
      ((map fst ?p @ drop ?j f)[?j := ((map fst ?p @ drop ?j f) ! ?j)\<lparr>bpf_code := BPF_RET + BPF_K, bpf_k := e\<rparr>]) =
      jumps_fixed 1 ?p @ [?last] @ drop (?j + 1) f"
    by (simp add: jumps_fixed_snoc d nth_append list_update_append del: append_Cons)
  moreover have "?last = \<lparr>bpf_code = BPF_RET + BPF_K, bpf_jt = bpf_jt (f ! ?j), bpf_jf = bpf_jf (f ! ?j), bpf_k = e\<rparr>"
    by (cases "f ! ?j") simp
  ultimately have "optimize_blacklists e f (length f) = Inr (jumps_fixed 1 ?p @
      [\<lparr>bpf_code = BPF_RET + BPF_K, bpf_jt = bpf_jt (f ! ?j), bpf_jf = bpf_jf (f ! ?j), bpf_k = e\<rparr>] @
      drop (?j + 1) f, ?j + 1)"
    using assms by (simp add: optimize_blacklists_def x r Let_def)
  then show ?thesis by blast
qed


subsection \<open>The filters that fseccomp writes\<close>

lemma marks_other: "bpf_code a \<noteq> BPF_JMP + BPF_JEQ + BPF_K \<Longrightarrow> marks e (a # r) = no_action # marks e r"
  by (cases r) (simp_all add: blacklist_pair_def)

lemma marks_ret: "marks e (BPF_STMT (BPF_RET + BPF_K) v # r) = no_action # marks e r"
  by (rule marks_other) (simp add: BPF_STMT_def)

lemma marks_rule:
  "marks e (rule_code (n, v) @ r) =
    (if v = e then \<lparr>to_remove = False, to_fix_jumps = True\<rparr> # \<lparr>to_remove = True, to_fix_jumps = False\<rparr> # marks e r
     else no_action # no_action # marks e r)"
  by (auto simp: rule_code_def blacklist_pair_def BPF_STMT_def BPF_JUMP_def marks_other)

definition pass :: "u32 \<Rightarrow> sock_filter list \<Rightarrow> (sock_filter \<times> Action) list" where
  "pass e f = kept f (marks e f)"

lemma pass_rule:
  "pass e (rule_code (n, v) @ r) =
    (if v = e then (BPF_JUMP (BPF_JMP + BPF_JEQ + BPF_K) n 0 1, \<lparr>to_remove = False, to_fix_jumps = True\<rparr>) # pass e r
     else map (\<lambda>a. (a, no_action)) (rule_code (n, v)) @ pass e r)"
  by (simp add: pass_def marks_rule) (simp add: rule_code_def no_action_def)

lemma pass_init:
  assumes "e \<noteq> SECCOMP_RET_ALLOW"
  shows "pass e (init_code e native @ r) = map (\<lambda>a. (a, no_action)) (init_code e native) @ pass e r"
  using assms
  by (simp add: pass_def init_code_def VALIDATE_ARCHITECTURE_def EXAMINE_SYSCALL_def HANDLE_X32_def
      KILL_OR_RETURN_ERRNO_def VALIDATE_ARCHITECTURE_32_def blacklist_pair_def marks_other
      BPF_STMT_def BPF_JUMP_def no_action_def [THEN arg_cong [of _ _ to_remove]])

lemma pass_end: "pass e RETURN_ALLOW = map (\<lambda>a. (a, no_action)) RETURN_ALLOW"
  by (simp add: pass_def RETURN_ALLOW_def no_action_def)

lemma jumps_fixed_none: "jumps_fixed k (map (\<lambda>a. (a, no_action)) f @ p) = f @ jumps_fixed k p"
  by (induction f) (simp_all add: no_action_def)

text \<open>The optimised code of a list of rules, up to the common return instruction.\<close>

fun opt_code :: "u32 \<Rightarrow> rule list \<Rightarrow> sock_filter list" where
  "opt_code e [] = RETURN_ALLOW"
| "opt_code e ((n, v) # rs) =
     (if v = e then [BPF_JUMP (BPF_JMP + BPF_JEQ + BPF_K) n (word_of_nat (length (opt_code e rs))) 0]
      else rule_code (n, v)) @ opt_code e rs"

lemma pass_rules: "jumps_fixed 1 (pass e (rules_code rs @ RETURN_ALLOW)) = opt_code e rs"
proof (induction rs)
  case Nil
  show ?case using jumps_fixed_none [of 1 RETURN_ALLOW "[]"] by (simp add: pass_end)
next
  case (Cons r rs)
  have "length (pass e (rules_code rs @ RETURN_ALLOW)) = length (opt_code e rs)"
    using Cons.IH by (metis length_jumps_fixed)
  with Cons.IH show ?case
    by (cases r) (simp add: pass_rule jumps_fixed_none BPF_JUMP_def)
qed

lemma length_opt_code:
  "length (opt_code e rs) + length (filter (\<lambda>r. snd r = e) rs) = length (rules_code rs) + 1"
  by (induction e rs rule: opt_code.induct) (auto simp: RETURN_ALLOW_def rule_code_def)

text \<open>The number of blacklist statements.\<close>

definition blacklists :: "u32 \<Rightarrow> sock_filter list \<Rightarrow> nat" where
  "blacklists e f = length (filter to_fix_jumps (marks e f))"

lemma count_from_step:
  "\<not> i < n - 1 \<Longrightarrow> count_from e f n i c = c"
  "i < n - 1 \<Longrightarrow> count_from e f n i c = count_from e f n (i + 1) (if is_blacklist e f i then c + 1 else c)"
  by (subst count_from.simps, simp)+

lemma count_from_marks:
  "count_from e (xs @ f) (length xs + length f) (length xs) c = c + blacklists e f"
proof (induction e f arbitrary: xs c rule: marks.induct)
  case (1 e a b r)
  show ?case
  proof (cases "blacklist_pair e a b")
    case True
    have nb: "\<not> is_blacklist e (xs @ a # b # r) (Suc (length xs))"
      using True by (simp add: is_blacklist_def blacklist_pair_def nth_append)
    have "count_from e ((xs @ [a, b]) @ r) (length (xs @ [a, b]) + length r) (length (xs @ [a, b])) (c + 1) =
        c + 1 + blacklists e r"
      by (rule "1.IH"(1) [OF True])
    moreover have "count_from e (xs @ a # b # r) (length xs + length (a # b # r)) (length xs + 1) (c + 1) =
        count_from e (xs @ a # b # r) (length xs + length (a # b # r)) (length xs + 2) (c + 1)"
      using nb by (cases r) (simp_all add: count_from_step(1) count_from_step(2) [of "Suc (length xs)"])
    moreover have "count_from e (xs @ a # b # r) (length xs + length (a # b # r)) (length xs) c =
        count_from e (xs @ a # b # r) (length xs + length (a # b # r)) (length xs + 1) (c + 1)"
      by (subst count_from.simps) (simp add: True is_blacklist_append)
    ultimately show ?thesis by (simp add: True blacklists_def no_action_def)
  next
    case False
    have "count_from e ((xs @ [a]) @ b # r) (length (xs @ [a]) + length (b # r)) (length (xs @ [a])) c =
        c + blacklists e (b # r)"
      by (rule "1.IH"(2) [OF False])
    then show ?thesis
      using False by (subst count_from.simps) (simp add: is_blacklist_append blacklists_def no_action_def)
  qed
qed (subst count_from.simps, auto simp: blacklists_def no_action_def)+

lemma count_blacklists_eq: "count_blacklists e f (length f) = blacklists e f"
  using count_from_marks [of e "[]" f 0] by (simp add: count_blacklists_def)

lemma length_pass: "length (pass e f) + blacklists e f = length f"
  unfolding pass_def blacklists_def
  by (induction e f rule: marks.induct) (auto simp: no_action_def)

lemma blacklists_pass: "blacklists e f = length (filter (\<lambda>p. to_fix_jumps (snd p)) (pass e f))"
  unfolding pass_def blacklists_def
  by (induction e f rule: marks.induct) (auto simp: no_action_def)

lemma pass_blacklist_code:
  assumes "e \<noteq> SECCOMP_RET_ALLOW"
  shows "jumps_fixed 1 (pass e (blacklist_code e native rs)) = init_code e native @ opt_code e rs"
    and "blacklists e (blacklist_code e native rs) = length (filter (\<lambda>r. snd r = e) rs)"
proof -
  show "jumps_fixed 1 (pass e (blacklist_code e native rs)) = init_code e native @ opt_code e rs"
    by (simp only: blacklist_code_def pass_init [OF assms] jumps_fixed_none pass_rules)
  have "length (filter (\<lambda>p. to_fix_jumps (snd p)) (pass e (rules_code rs @ RETURN_ALLOW))) =
      length (filter (\<lambda>r. snd r = e) rs)"
  proof (induction rs)
    case (Cons r rs)
    then show ?case by (cases r) (auto simp: pass_rule filter_map o_def no_action_def)
  qed (simp add: pass_end no_action_def filter_map o_def)
  then show "blacklists e (blacklist_code e native rs) = length (filter (\<lambda>r. snd r = e) rs)"
    by (simp add: blacklists_pass blacklist_code_def pass_init [OF assms] filter_map o_def no_action_def)
qed

lemma optimize_blacklist_code:
  assumes "e \<noteq> SECCOMP_RET_ALLOW" "LIMIT_BLACKLISTS < length (filter (\<lambda>r. snd r = e) rs)"
    "f = blacklist_code e native rs"
  shows "\<exists>jt jf rest. optimize e f (length f) =
    Inr (init_code e native @ opt_code e rs @
         [\<lparr>bpf_code = BPF_RET + BPF_K, bpf_jt = jt, bpf_jf = jf, bpf_k = e\<rparr>] @ rest,
         length (init_code e native @ opt_code e rs) + 1)"
proof -
  have n: "f \<noteq> []" by (simp add: assms(3) blacklist_code_def RETURN_ALLOW_def)
  have c: "blacklists e f = length (filter (\<lambda>r. snd r = e) rs)"
    using pass_blacklist_code(2) [OF assms(1)] assms(3) by simp
  have p: "jumps_fixed 1 (pass e f) = init_code e native @ opt_code e rs"
    using pass_blacklist_code(1) [OF assms(1)] assms(3) by simp
  then have l: "length (pass e f) = length (init_code e native @ opt_code e rs)"
    by (metis length_jumps_fixed)
  have "length (pass e f) < length f" using length_pass [of e f] c assms(2) by simp
  from optimize_blacklists_eq [OF n this [unfolded pass_def]] show ?thesis
    using n assms(2) unfolding pass_def [symmetric] p l
    by (auto simp: optimize_def count_blacklists_eq c)
qed

lemma fsec_optimize_eq:
  assumes "e \<noteq> SECCOMP_RET_ALLOW" "f = blacklist_code e native rs" "length f < 8192"
  shows "fsec_optimize e fname f = Inr [(fname, f)] \<and> length (filter (\<lambda>r. snd r = e) rs) \<le> LIMIT_BLACKLISTS \<or>
    (\<exists>jt jf. fsec_optimize e fname f = Inr [(fname, init_code e native @ opt_code e rs @
         [\<lparr>bpf_code = BPF_RET + BPF_K, bpf_jt = jt, bpf_jf = jf, bpf_k = e\<rparr>])]) \<and>
     LIMIT_BLACKLISTS < length (filter (\<lambda>r. snd r = e) rs)"
proof -
  have n: "f \<noteq> []" by (simp add: assms(2) blacklist_code_def RETURN_ALLOW_def)
  have en: "fsec_entries (8 * length f) = length f" using assms(3) by (simp add: fsec_entries_def)
  show ?thesis
  proof (cases "LIMIT_BLACKLISTS < length (filter (\<lambda>r. snd r = e) rs)")
    case True
    from optimize_blacklist_code [OF assms(1) True assms(2)] True n show ?thesis
      by (auto simp: fsec_optimize_def en)
  next
    case False
    then have "optimize e f (length f) = Inr (f, length f)"
      using n pass_blacklist_code(2) [OF assms(1), of native rs] assms(2)
      by (simp add: optimize_def count_blacklists_eq)
    with False n show ?thesis by (simp add: fsec_optimize_def en)
  qed
qed

context bpf_vm
begin

lemma run_last: "run [\<lparr>bpf_code = BPF_RET + BPF_K, bpf_jt = jt, bpf_jf = jf, bpf_k = e\<rparr>] d a = e"
  by (subst ret_k) simp_all

lemma run_opt_code:
  "length (opt_code e rs) \<le> 256 \<Longrightarrow>
   run (opt_code e rs @ [\<lparr>bpf_code = BPF_RET + BPF_K, bpf_jt = jt, bpf_jf = jf, bpf_k = e\<rparr>]) d a =
     (case map_of rs a of None \<Rightarrow> SECCOMP_RET_ALLOW | Some v \<Rightarrow> v)"
proof (induction e rs rule: opt_code.induct)
  case (2 e n v rs)
  have l: "length (opt_code e rs) < 256" using "2.prems" by (auto split: if_splits simp: rule_code_def)
  have u: "unat (word_of_nat (length (opt_code e rs)) :: u8) = length (opt_code e rs)"
    using l by (simp add: unat_of_nat)
  show ?case
  proof (cases "v = e")
    case True
    with "2.IH" l show ?thesis by (simp add: u run_last [simplified])
  next
    case False
    with "2.IH" l show ?thesis by (simp add: rule_code_def)
  qed
qed simp

end


lemma fsec_optimize_keeps:
  assumes "bpf_vm run" "e \<noteq> SECCOMP_RET_ALLOW"
    and "length (filter (\<lambda>r. snd r = e) rs) + 2 * length (filter (\<lambda>r. snd r \<noteq> e) rs) \<le> 255"
  shows "\<exists>out. fsec_optimize e fname (blacklist_code e native rs) = Inr [(fname, out)] \<and>
    (\<forall>d a. run out d a = run (blacklist_code e native rs) d a) \<and>
    length out \<le> length (blacklist_code e native rs) \<and> out \<noteq> [] \<and> length out < 8192"
proof -
  let ?f = "blacklist_code e native rs"
  have s: "length (filter (\<lambda>r. snd r = e) rs) + length (filter (\<lambda>r. snd r \<noteq> e) rs) = length rs"
    by (rule sum_length_filter_compl)
  have r: "length (rules_code rs) = 2 * length rs" by (induction rs) (simp_all add: rule_code_def)
  have o: "length (opt_code e rs) \<le> 256" using length_opt_code [of e rs] r s assms(3) by simp
  have i: "length (init_code e native) \<le> 7"
    by (simp add: init_code_def VALIDATE_ARCHITECTURE_def VALIDATE_ARCHITECTURE_32_def EXAMINE_SYSCALL_def
        HANDLE_X32_def KILL_OR_RETURN_ERRNO_def)
  have f: "length ?f < 8192"
    using s r i assms(3) by (simp add: blacklist_code_def RETURN_ALLOW_def)
  from fsec_optimize_eq [OF assms(2) refl f, of fname] show ?thesis
  proof (elim disjE conjE exE)
    fix jt jf
    assume c: "LIMIT_BLACKLISTS < length (filter (\<lambda>r. snd r = e) rs)"
    assume x: "fsec_optimize e fname ?f = Inr [(fname, init_code e native @ opt_code e rs @
         [\<lparr>bpf_code = BPF_RET + BPF_K, bpf_jt = jt, bpf_jf = jf, bpf_k = e\<rparr>])]"
    have "run (init_code e native @ opt_code e rs @
         [\<lparr>bpf_code = BPF_RET + BPF_K, bpf_jt = jt, bpf_jf = jf, bpf_k = e\<rparr>]) d a = run ?f d a" for d a
      unfolding blacklist_code_def bpf_vm.run_init_code [OF assms(1)] bpf_vm.run_opt_code [OF assms(1) o]
        bpf_vm.run_rules [OF assms(1)] bpf_vm.run_at_end [OF assms(1)] ..
    moreover have "length (opt_code e rs) + 1 \<le> length (rules_code rs @ RETURN_ALLOW)"
      using length_opt_code [of e rs] c by (simp add: RETURN_ALLOW_def)
    ultimately show ?thesis using x f by (auto simp: blacklist_code_def)
  qed (use f in \<open>auto simp: blacklist_code_def RETURN_ALLOW_def\<close>)
qed

text \<open>
  C3. Optimising a filter of fseccomp keeps its meaning: for a filter that blacklists \<open>n\<close> system calls with
  the default action among \<open>m\<close> other rules, with \<open>n + 2 m \<le> 255\<close>, the rewritten file gives the same verdict
  as the old one for every system call, and it is not longer.
\<close>

theorem fsec_optimize_equivalent:
  assumes "bpf_vm run" "e \<noteq> SECCOMP_RET_ALLOW"
    and "length (filter (\<lambda>r. snd r = e) rs) + 2 * length (filter (\<lambda>r. snd r \<noteq> e) rs) \<le> 255"
  shows "\<exists>out. fsec_optimize e fname (blacklist_code e native rs) = Inr [(fname, out)] \<and>
    (\<forall>d a. run out d a = run (blacklist_code e native rs) d a) \<and>
    length out \<le> length (blacklist_code e native rs)"
  using fsec_optimize_keeps [OF assms] by blast

theorem fsec_optimize_equivalent_witness:
  "\<exists>out. fsec_optimize SECCOMP_RET_KILL ''f'' (blacklist_code SECCOMP_RET_KILL True
       (map (\<lambda>n. (n, SECCOMP_RET_KILL)) [1, 2, 3, 4, 5, 6] @ [(7, SECCOMP_RET_ALLOW)])) = Inr [(''f'', out)] \<and>
     bpf_run out (call True 3 (\<lambda>_. 0)) 0 = bpf_run (blacklist_code SECCOMP_RET_KILL True
       (map (\<lambda>n. (n, SECCOMP_RET_KILL)) [1, 2, 3, 4, 5, 6] @ [(7, SECCOMP_RET_ALLOW)])) (call True 3 (\<lambda>_. 0)) 0"
  using fsec_optimize_equivalent [OF ref_vm.bpf_vm_axioms, of SECCOMP_RET_KILL
      "map (\<lambda>n. (n, SECCOMP_RET_KILL)) [1, 2, 3, 4, 5, 6] @ [(7, SECCOMP_RET_ALLOW)]" "''f''" True]
  by (simp del: list.map) blast

lemma opt_code_plain_length: "length (opt_code e (map (\<lambda>n. (n, e)) ns)) = length ns + 1"
  by (induction ns) (simp_all add: RETURN_ALLOW_def)

context bpf_vm
begin

lemma run_opt_code_absent:
  "a \<notin> fst ` set rs \<Longrightarrow> run (opt_code e rs @ p) d a = SECCOMP_RET_ALLOW"
  by (induction e rs rule: opt_code.induct) (auto simp: rule_code_def)

lemma run_opt_code_wrap:
  assumes "distinct (ns @ n # ms)" "length ms = 255"
  shows "run (opt_code e (map (\<lambda>n. (n, e)) (ns @ n # ms)) @ p) d n = SECCOMP_RET_ALLOW"
  using assms(1)
proof (induction ns)
  case Nil
  have "unat (word_of_nat (length (opt_code e (map (\<lambda>n. (n, e)) ms))) :: u8) = 0"
    by (simp add: opt_code_plain_length assms(2) unat_of_nat)
  with Nil show ?case by (simp add: run_opt_code_absent image_image)
qed auto

end

text \<open>
  C25. The eight bit jump offset is not enough for every filter: of 256 or more distinct system calls that are
  blacklisted with the default action, the one that is 256 places before the end of the list is refused by
  the filter that fseccomp wrote and allowed by the filter that fsec-optimize makes of it.
\<close>

theorem fsec_optimize_wraps:
  assumes "bpf_vm run" "e \<noteq> SECCOMP_RET_ALLOW" "length ms = 255" "length ns \<le> 3000"
    and "distinct (ns @ n # ms)" "n < X32_SYSCALL_BIT"
    and "sd_arch d = (if native then ARCH_NR else ARCH_32)" "sd_nr d = n"
    and "code = blacklist_code e native (map (\<lambda>n. (n, e)) (ns @ n # ms))"
  shows "\<exists>out. fsec_optimize e fname code = Inr [(fname, out)] \<and>
    run code d 0 = e \<and> run out d 0 = SECCOMP_RET_ALLOW"
proof -
  let ?rs = "map (\<lambda>n. (n, e)) (ns @ n # ms)"
  have r: "length (rules_code rs) = 2 * length rs" for rs by (induction rs) (simp_all add: rule_code_def)
  have i: "length (init_code e native) \<le> 7"
    by (simp add: init_code_def VALIDATE_ARCHITECTURE_def VALIDATE_ARCHITECTURE_32_def EXAMINE_SYSCALL_def
        HANDLE_X32_def KILL_OR_RETURN_ERRNO_def)
  have f: "length code < 8192"
    unfolding assms(9) blacklist_code_def length_append r using i assms(3,4) by (simp add: RETURN_ALLOW_def)
  have c: "LIMIT_BLACKLISTS < length (filter (\<lambda>r. snd r = e) ?rs)"
    using assms(3) by (simp add: LIMIT_BLACKLISTS_def filter_map o_def)
  from fsec_optimize_eq [OF assms(2,9) f, of fname] c obtain jt jf where
    o: "fsec_optimize e fname code = Inr [(fname, init_code e native @ opt_code e ?rs @
         [\<lparr>bpf_code = BPF_RET + BPF_K, bpf_jt = jt, bpf_jf = jf, bpf_k = e\<rparr>])]" by auto
  have x: "\<not> X32_SYSCALL_BIT \<le> sd_nr d" using assms(6,8) by simp
  have "map_of ?rs n = Some e" using map_of_const [of e "ns @ n # ms" n] by simp
  then have "run code d 0 = e"
    using x assms(7,8) unfolding assms(9) blacklist_code_def bpf_vm.run_init_code [OF assms(1)]
      bpf_vm.run_rules [OF assms(1)] by simp
  moreover have "run (init_code e native @ opt_code e ?rs @
         [\<lparr>bpf_code = BPF_RET + BPF_K, bpf_jt = jt, bpf_jf = jf, bpf_k = e\<rparr>]) d 0 = SECCOMP_RET_ALLOW"
    using x assms(7,8) bpf_vm.run_opt_code_wrap [OF assms(1,5,3)]
    unfolding bpf_vm.run_init_code [OF assms(1)] by simp
  ultimately show ?thesis using o by blast
qed

theorem fsec_optimize_wraps_witness:
  "\<exists>out. fsec_optimize SECCOMP_RET_KILL ''f''
       (blacklist_code SECCOMP_RET_KILL True (map (\<lambda>n. (n, SECCOMP_RET_KILL)) (0 # map word_of_nat [1..<256]))) =
       Inr [(''f'', out)] \<and>
     bpf_run out (call True 0 (\<lambda>_. 0)) 0 = SECCOMP_RET_ALLOW"
proof -
  have inj: "inj_on (word_of_nat :: nat \<Rightarrow> u32) {0..<256}"
    by (rule inj_onI) (simp add: word_of_nat_eq_iff take_bit_eq_mod)
  have "distinct (map (word_of_nat :: nat \<Rightarrow> u32) [0..<256])"
    using inj by (simp add: distinct_map)
  moreover have "[0..<256] = (0::nat) # [1..<256]" by (simp add: upt_conv_Cons)
  ultimately have "distinct ([] @ (0::u32) # map word_of_nat [1..<256])" by (simp del: upt_Suc)
  from fsec_optimize_wraps [OF ref_vm.bpf_vm_axioms _ _ _ this, of SECCOMP_RET_KILL "call True 0 (\<lambda>_. 0)" True _ "''f''"]
  show ?thesis by (simp add: X32_SYSCALL_BIT_def del: upt_Suc) blast
qed

end
