(* ===== verification/C_Format.thy ===== *)
theory C_Format
  imports Firejail_Prelude
begin

text \<open>
  The conversions of \<open>printf\<close> that the modelled files use: \<open>%d\<close> and \<open>%u\<close>, \<open>%x\<close>, \<open>%.8x\<close> with a minimal number
  of digits, and \<open>%-3s\<close>. Reading the digits back with \<open>digits_value\<close> gives the number.
\<close>

definition hex_digit :: "nat \<Rightarrow> char" where
  "hex_digit d = ''0123456789abcdef'' ! d"

function digits_of :: "nat \<Rightarrow> nat \<Rightarrow> string" where
  "digits_of b n = (if b < 2 \<or> n < b then [hex_digit n] else digits_of b (n div b) @ [hex_digit (n mod b)])"
  by pat_completeness auto
termination
  by (relation "measure snd") (auto simp: div_less_dividend)

declare digits_of.simps [simp del]

definition fmt_u :: "nat \<Rightarrow> string" where
  "fmt_u n = digits_of 10 n"

definition fmt_d :: "int \<Rightarrow> string" where
  "fmt_d i = (if i < 0 then CHR ''-'' # fmt_u (nat (- i)) else fmt_u (nat i))"

definition fmt_x :: "nat \<Rightarrow> string" where
  "fmt_x n = digits_of 16 n"

text \<open>\<open>%.wx\<close>: at least \<open>w\<close> digits.\<close>

definition fmt_x_prec :: "nat \<Rightarrow> nat \<Rightarrow> string" where
  "fmt_x_prec w n = replicate (w - length (fmt_x n)) (CHR ''0'') @ fmt_x n"

text \<open>\<open>%-ws\<close>: at least \<open>w\<close> characters, padded on the right.\<close>

definition fmt_s_left :: "nat \<Rightarrow> string \<Rightarrow> string" where
  "fmt_s_left w s = s @ replicate (w - length s) (CHR '' '')"

lemma less_16_cases: "d < 16 \<Longrightarrow> d \<in> {0, 1, 2, 3, 4, 5, 6, 7, 8, 9, 10, 11, 12, 13, 14, 15 :: nat}"
  by simp arith

lemma digit_value_hex [simp]: "d < 16 \<Longrightarrow> digit_value (hex_digit d) = d"
  by (drule less_16_cases) (auto simp: digit_value_def hex_digit_def Let_def)

lemma digits_value_append:
  "list_all (\<lambda>c. digit_value c < b) s \<Longrightarrow> digits_value b acc (s @ t) = digits_value b (digits_value b acc s) t"
  by (induction s arbitrary: acc) auto

lemma digits_of_digits:
  "2 \<le> b \<Longrightarrow> b \<le> 16 \<Longrightarrow> list_all (\<lambda>c. digit_value c < b) (digits_of b n)"
proof (induction b n rule: digits_of.induct)
  case (1 b n)
  have "n mod b < b" "n mod b < 16" using "1.prems" mod_less_divisor [of b n] by linarith+
  with 1 show ?case by (subst digits_of.simps) auto
qed

lemma digits_of_value:
  "2 \<le> b \<Longrightarrow> b \<le> 16 \<Longrightarrow> digits_value b 0 (digits_of b n) = n"
proof (induction b n rule: digits_of.induct)
  case (1 b n)
  have "n mod b < b" "n mod b < 16" using "1.prems" mod_less_divisor [of b n] by linarith+
  with 1 show ?case
    by (subst digits_of.simps) (auto simp: digits_value_append digits_of_digits)
qed

lemma digits_of_not_Nil [simp]: "digits_of b n \<noteq> []"
  by (subst digits_of.simps) simp

lemma digits_value_zeros: "0 < b \<Longrightarrow> digits_value b acc (replicate k (CHR ''0'')) = acc * b ^ k"
proof (induction k arbitrary: acc)
  case (Suc k)
  have "digit_value (CHR ''0'') = 0" by (simp add: digit_value_def)
  with Suc show ?case by simp
qed simp

lemma fmt_x_prec_digits: "list_all (\<lambda>c. digit_value c < 16) (fmt_x_prec w n)"
proof -
  have "digit_value (CHR ''0'') = 0" by (simp add: digit_value_def)
  then show ?thesis using digits_of_digits [of 16 n] by (auto simp: fmt_x_prec_def fmt_x_def list_all_iff)
qed

lemma fmt_x_prec_value [simp]: "digits_value 16 0 (fmt_x_prec w n) = n"
proof -
  have "list_all (\<lambda>c. digit_value c < 16) (replicate k (CHR ''0''))" for k
    by (simp add: list_all_iff digit_value_def)
  then show ?thesis
    by (simp add: fmt_x_prec_def digits_value_append digits_value_zeros fmt_x_def digits_of_value)
qed

lemma fmt_u_value [simp]: "digits_value 10 0 (fmt_u n) = n"
  by (simp add: fmt_u_def digits_of_value)

lemma length_digits_of: "2 \<le> b \<Longrightarrow> n < b ^ w \<Longrightarrow> 0 < w \<Longrightarrow> length (digits_of b n) \<le> w"
proof (induction w arbitrary: n)
  case (Suc w)
  show ?case
  proof (cases "n < b")
    case True
    then show ?thesis by (subst digits_of.simps) simp
  next
    case False
    with Suc.prems have "0 < w" by (cases w) auto
    moreover have "n div b < b ^ w" using Suc.prems by (simp add: less_mult_imp_div_less mult.commute)
    ultimately have "length (digits_of b (n div b)) \<le> w" using Suc by simp
    with False Suc.prems show ?thesis by (subst digits_of.simps) simp
  qed
qed simp

lemma length_fmt_x_prec: "n < 16 ^ w \<Longrightarrow> 0 < w \<Longrightarrow> length (fmt_x_prec w n) = w"
  using length_digits_of [of 16 n w] by (simp add: fmt_x_prec_def fmt_x_def)

end
