(* ===== verification/Fseccomp_Main.thy ===== *)
theory Fseccomp_Main
  imports Namespaces Protocol Optimizer C_Format
begin

text \<open>
  \<open>main\<close> of \<open>fseccomp/main.c\<close>: the error action taken from the environment variable
  \<open>FIREJAIL_SECCOMP_ERROR_ACTION\<close>, and the choice of the builder by the command line. The same code sets the
  error action in \<open>fsec-optimize/main.c\<close>. Printing commands return their text.
\<close>

definition error_action :: "string option \<Rightarrow> u32 result" where
  "error_action var =
     (case var of
        None \<Rightarrow> Inr (SECCOMP_RET_ERRNO OR 1)
      | Some v \<Rightarrow>
          if v = ''kill'' then Inr SECCOMP_RET_KILL
          else if v = ''log'' then Inr SECCOMP_RET_LOG
          else let nr = errno_find_name v in
               if nr = -1 then Inl UnknownErrno else Inr (word_of_int nr OR SECCOMP_RET_ERRNO))"

definition print_entry :: "string \<times> int \<Rightarrow> string" where
  "print_entry e = fmt_d (snd e) @ [CHR 0x09] @ ''- '' @ fst e @ [CHR 0x0A]"

definition syscall_print :: string where
  "syscall_print = concat (map print_entry syslist) @ [CHR 0x0A]"

definition syscall_print_32 :: string where
  "syscall_print_32 = concat (map print_entry syslist32) @ [CHR 0x0A]"

definition errno_print :: string where
  "errno_print = concat (map print_entry errnolist) @ [CHR 0x0A]"

datatype main_out = Files filter_files | Stdout string | Usage

definition files_of :: "filter_files result \<Rightarrow> main_out result" where
  "files_of r = bind_result r (\<lambda>f. Inr (Files f))"

text \<open>The chain of \<open>else if\<close> on \<open>argc\<close> and \<open>argv\<close>.\<close>

definition fseccomp_dispatch :: "env \<Rightarrow> string list \<Rightarrow> main_out result" where
  "fseccomp_dispatch env argv =
     (let argc = length argv; arg = (\<lambda>i. argv ! i) in
      if argc = 2 \<and> arg 1 = ''debug-syscalls'' then Inr (Stdout syscall_print)
      else if argc = 2 \<and> arg 1 = ''debug-syscalls32'' then Inr (Stdout syscall_print_32)
      else if argc = 2 \<and> arg 1 = ''debug-errnos'' then Inr (Stdout errno_print)
      else if argc = 2 \<and> arg 1 = ''debug-protocols'' then Inr (Stdout protocol_print)
      else if argc = 5 \<and> arg 1 = ''protocol'' \<and> arg 2 = ''build'' then
        files_of (protocol_build_filter env (arg 3) (arg 4))
      else if argc = 4 \<and> arg 1 = ''secondary'' \<and> arg 2 = ''32'' then
        files_of (seccomp_secondary_32 env (arg 3))
      else if argc = 4 \<and> arg 1 = ''secondary'' \<and> arg 2 = ''block'' then
        files_of (seccomp_secondary_block env (arg 3))
      else if argc = 3 \<and> arg 1 = ''default'' then files_of (seccomp_default env (arg 2) False True)
      else if argc = 4 \<and> arg 1 = ''default'' \<and> arg 3 = ''allow-debuggers'' then
        files_of (seccomp_default env (arg 2) True True)
      else if argc = 3 \<and> arg 1 = ''default32'' then files_of (seccomp_default env (arg 2) False False)
      else if argc = 4 \<and> arg 1 = ''default32'' \<and> arg 3 = ''allow-debuggers'' then
        files_of (seccomp_default env (arg 2) True False)
      else if argc = 5 \<and> arg 1 = ''drop'' then
        files_of (seccomp_drop env (arg 2) (arg 3) (arg 4) False True)
      else if argc = 6 \<and> arg 1 = ''drop'' \<and> arg 5 = ''allow-debuggers'' then
        files_of (seccomp_drop env (arg 2) (arg 3) (arg 4) True True)
      else if argc = 5 \<and> arg 1 = ''drop32'' then
        files_of (seccomp_drop env (arg 2) (arg 3) (arg 4) False False)
      else if argc = 6 \<and> arg 1 = ''drop32'' \<and> arg 5 = ''allow-debuggers'' then
        files_of (seccomp_drop env (arg 2) (arg 3) (arg 4) True False)
      else if argc = 6 \<and> arg 1 = ''default'' \<and> arg 2 = ''drop'' then
        files_of (seccomp_default_drop env (arg 3) (arg 4) (arg 5) False True)
      else if argc = 7 \<and> arg 1 = ''default'' \<and> arg 2 = ''drop'' \<and> arg 6 = ''allow-debuggers'' then
        files_of (seccomp_default_drop env (arg 3) (arg 4) (arg 5) True True)
      else if argc = 6 \<and> arg 1 = ''default32'' \<and> arg 2 = ''drop'' then
        files_of (seccomp_default_drop env (arg 3) (arg 4) (arg 5) False False)
      else if argc = 7 \<and> arg 1 = ''default32'' \<and> arg 2 = ''drop'' \<and> arg 6 = ''allow-debuggers'' then
        files_of (seccomp_default_drop env (arg 3) (arg 4) (arg 5) True False)
      else if argc = 5 \<and> arg 1 = ''keep'' then files_of (seccomp_keep env (arg 2) (arg 3) (arg 4) True)
      else if argc = 5 \<and> arg 1 = ''keep32'' then files_of (seccomp_keep env (arg 2) (arg 3) (arg 4) False)
      else if argc = 3 \<and> arg 1 = ''memory-deny-write-execute'' then
        files_of (memory_deny_write_execute env (arg 2))
      else if argc = 3 \<and> arg 1 = ''memory-deny-write-execute.32'' then
        files_of (memory_deny_write_execute_32 env (arg 2))
      else if argc = 4 \<and> arg 1 = ''restrict-namespaces'' then files_of (deny_ns env (arg 2) (arg 3))
      else if argc = 4 \<and> arg 1 = ''restrict-namespaces.32'' then files_of (deny_ns_32 env (arg 2) (arg 3))
      else Inl InvalidArguments)"

definition fseccomp_main ::
    "(string \<Rightarrow> int) \<Rightarrow> (string \<Rightarrow> bool) \<Rightarrow> string option \<Rightarrow> string list \<Rightarrow> main_out result" where
  "fseccomp_main opn defd var argv =
     (if length argv < 2 then Inl InvalidArguments
      else if argv ! 1 = ''-h'' \<or> argv ! 1 = ''--help'' \<or> argv ! 1 = ''-?'' then Inr Usage
      else bind_result (error_action var) (\<lambda>act.
        fseccomp_dispatch \<lparr>env_open = opn, env_defined = defd, env_action = act\<rparr> argv))"

text \<open>
  \<open>main\<close> of \<open>fsec-optimize/main.c\<close>. \<open>read_file\<close> gives the statements of a file that can be opened, \<open>opn\<close> is \<open>open\<close>
  for writing and \<open>wr\<close> what \<open>write\<close> returns for a number of bytes; a short write is an error here.
\<close>

definition fsec_optimize_main ::
    "string option \<Rightarrow> (string \<Rightarrow> sock_filter list option) \<Rightarrow> (string \<Rightarrow> int) \<Rightarrow> (nat \<Rightarrow> int) \<Rightarrow> string list \<Rightarrow> main_out result" where
  "fsec_optimize_main var read_file opn wr argv =
     (if length argv \<noteq> 2 then Inl InvalidArguments
      else if argv ! 1 = ''-h'' \<or> argv ! 1 = ''--help'' \<or> argv ! 1 = ''-?'' then Inr Usage
      else bind_result (error_action var) (\<lambda>act.
        case read_file (argv ! 1) of
          None \<Rightarrow> Inl (CannotRead (argv ! 1))
        | Some flt \<Rightarrow> bind_result (fsec_optimize act (argv ! 1) flt) (\<lambda>files.
            if opn (argv ! 1) = -1 then Inl (CannotOpen (argv ! 1))
            else if list_all (\<lambda>(_, out). wr (8 * length out) = int (8 * length out)) files then Inr (Files files)
            else Inl CannotWrite)))"

subsection \<open>The error action\<close>

lemma errno_word_or:
  assumes "1 \<le> v" "v \<le> 133"
  shows "(word_of_int v :: u32) OR SECCOMP_RET_ERRNO \<noteq> SECCOMP_RET_ALLOW"
proof
  assume "(word_of_int v :: u32) OR SECCOMP_RET_ERRNO = SECCOMP_RET_ALLOW"
  from arg_cong [OF this, of "\<lambda>w. bit w 20"] have "bit v 20"
    by (simp add: bit_simps)
  moreover have "\<not> bit v 20" using assms by (simp add: bit_iff_odd)
  ultimately show False by blast
qed

text \<open>
  The action of refused calls is never to allow them: whatever the environment variable holds, the action
  is to kill, to log, or to return an error number of the table, or the program stops with an error, and it
  stops exactly for a value that is neither \<open>kill\<close>, \<open>log\<close> nor an error name.
\<close>

theorem error_action_sound:
  "(case error_action var of
      Inl e \<Rightarrow> e = UnknownErrno \<and> (\<exists>v. var = Some v \<and> v \<noteq> ''kill'' \<and> v \<noteq> ''log'' \<and>
        (\<forall>n k. (n, k) \<in> set errnolist \<longrightarrow> \<not> strcaseeq v n))
    | Inr a \<Rightarrow> a \<noteq> SECCOMP_RET_ALLOW \<and> (a = SECCOMP_RET_KILL \<or> a = SECCOMP_RET_LOG \<or>
        (\<exists>k \<in> snd ` set errnolist. a = word_of_int k OR SECCOMP_RET_ERRNO)))"
proof (cases var)
  case None
  have "(''EPERM'', 1) \<in> set errnolist" by (simp add: errnolist_def)
  with None show ?thesis by (force simp: error_action_def)
next
  case (Some v)
  consider "v = ''kill''" | "v = ''log''" | "v \<noteq> ''kill''" "v \<noteq> ''log''" "errno_find_name v = -1"
    | "v \<noteq> ''kill''" "v \<noteq> ''log''" "errno_find_name v \<noteq> -1" by blast
  then show ?thesis
  proof cases
    case 3
    have "\<not> strcaseeq v n" if "(n, k) \<in> set errnolist" for n k
      using errno_find_name_entry [OF that, of v] 3 errnolist_range that by (auto simp: list_all_iff)
    with 3 Some show ?thesis by (auto simp: error_action_def)
  next
    case 4
    have "errno_find_name v \<in> snd ` set errnolist"
      using errno_table_find_name_cases [of errnolist v] 4 by (force simp: errno_find_name_def)
    moreover have "word_of_int (errno_find_name v) OR SECCOMP_RET_ERRNO \<noteq> SECCOMP_RET_ALLOW"
      using errno_find_name_range [of v] 4(3) by (intro errno_word_or) auto
    moreover have "error_action var = Inr (word_of_int (errno_find_name v) OR SECCOMP_RET_ERRNO)"
      using 4 Some by (simp add: error_action_def Let_def)
    ultimately show ?thesis by fastforce
  qed (auto simp: Some error_action_def)
qed

theorem error_action_sound_witness:
  "\<exists>a. error_action (Some ''log'') = Inr a \<and> a \<noteq> SECCOMP_RET_ALLOW"
  using error_action_sound [of "Some ''log''"] by (simp add: error_action_def)

lemma error_action_not_allow: "error_action var = Inr a \<Longrightarrow> a \<noteq> SECCOMP_RET_ALLOW"
  using errno_word_or errno_find_name_range
  by (auto simp: error_action_def Let_def split: option.splits if_splits)

subsection \<open>From the command line to the verdict\<close>

lemma length_filter_mono: "(\<And>x. P x \<Longrightarrow> Q x) \<Longrightarrow> length (filter P xs) \<le> length (filter Q xs)"
  by (induction xs) (auto intro: le_SucI)

lemma drop_programs:
  assumes "bpf_vm run" "opn f1 > 0" "opn f2 > 0" "error_action var = Inr act" "\<And>n. wr n = int n"
    and es: "list_entries defd True list = Inr es" "list_all (\<lambda>e. snd e = -1) es"
    and len: "length (filter (\<lambda>e. 0 \<le> fst e) es) + 2 * length (filter (\<lambda>e. fst e < 0) es) \<le> 255"
    and f1: "f1 \<notin> {''-h'', ''--help'', ''-?''}"
  shows "\<exists>pre post out.
    fseccomp_main opn defd var [p1, ''drop'', f1, f2, list] = Inr (Files ((f1, pre) # post)) \<and>
    fsec_optimize_main var (\<lambda>_. Some pre) opn wr [p2, f1] = Inr (Files [(f1, out)]) \<and>
    fst ` set post \<subseteq> {f2} \<and> out \<noteq> [] \<and> length out < 8192 \<and>
    (\<forall>s args. 0 \<le> s \<and> s < 2 ^ 30 \<longrightarrow> run out (call True s args) 0 =
       (if (s, -1) \<in> set es \<and> \<not> (0 < s \<and> (- s, -1) \<in> set es) \<and> known True s \<and> s \<notin> set (keep_nrs True)
        then act else SECCOMP_RET_ALLOW))"
proof -
  let ?env = "\<lparr>env_open = opn, env_defined = defd, env_action = act\<rparr>"
  let ?rs = "list_rules (excluded SECCOMP_RET_ALLOW) es @ drop_pre_rules act True es"
  have na: "act \<noteq> SECCOMP_RET_ALLOW" by (rule error_action_not_allow [OF assms(4)])
  have es': "list_entries (env_defined ?env) True list = Inr es" using es(1) by simp
  have o: "env_open ?env f1 > 0" "env_open ?env f2 > 0" using assms(2,3) by simp_all
  obtain post where d: "seccomp_drop ?env f1 f2 list False True = Inr ((f1, blacklist_code act True ?rs) # post)"
    and post: "fst ` set post \<subseteq> {f2}"
    using seccomp_drop_eq [OF o es', of False] by auto
  have i: "list_all int_entry es" by (rule list_entries_int [OF es(1)])
  have x: "list_rules (excluded SECCOMP_RET_ALLOW) es =
      map (\<lambda>e. (word_of_int (c_int (- fst e)), SECCOMP_RET_ALLOW)) (filter (\<lambda>e. fst e < 0) es)"
    by (rule plain_listed_rules(2) [OF es(2)])
  have p: "drop_pre_rules act True es = map (\<lambda>e. (word_of_int (fst e), act))
      (filter (\<lambda>e. 0 \<le> fst e) (filter (\<lambda>e. known True (fst e)) (pre_entries True es)))"
    unfolding drop_pre_rules_def pre_entries_def plain_reread [OF plain_sub(1) [OF es(2) i]]
    by (rule plain_listed_rules(1)) (use es(2) in \<open>simp add: list_all_iff\<close>)
  have "length (drop_pre_rules act True es) \<le> length (filter (\<lambda>e. 0 \<le> fst e) es)"
    unfolding p length_map pre_entries_def filter_filter
    by (rule length_filter_mono) simp
  moreover have "filter (\<lambda>r. snd r = act) ?rs = drop_pre_rules act True es"
    "filter (\<lambda>r. snd r \<noteq> act) ?rs = list_rules (excluded SECCOMP_RET_ALLOW) es"
    using na by (auto simp: x p filter_map o_def filter_empty_conv)
  ultimately have "length (filter (\<lambda>r. snd r = act) ?rs) + 2 * length (filter (\<lambda>r. snd r \<noteq> act) ?rs) \<le> 255"
    using len by (simp add: x)
  from fsec_optimize_keeps [OF assms(1) na this, of f1 True] obtain out where
    out: "fsec_optimize act f1 (blacklist_code act True ?rs) = Inr [(f1, out)]"
      "\<And>d a. run out d a = run (blacklist_code act True ?rs) d a" "out \<noteq> []" "length out < 8192" by blast
  have "run out (call True s args) 0 =
       (if (s, -1) \<in> set es \<and> \<not> (0 < s \<and> (- s, -1) \<in> set es) \<and> known True s \<and> s \<notin> set (keep_nrs True)
        then act else SECCOMP_RET_ALLOW)" if "0 \<le> s" "s < 2 ^ 30" for s args
    using that by (simp add: out(2) blacklist_verdict [OF assms(1)] map_add_def drop_pre_lookup [OF es(2) i]
        plain_listed_lookup [OF es(2) i])
  then show ?thesis
    using assms(2,4,5) d out(1,3,4) f1 post
    by (auto simp: fseccomp_main_def fseccomp_dispatch_def files_of_def fsec_optimize_main_def)
qed

text \<open>
  The two programs together, as firejail runs them for \<open>seccomp.drop\<close>: fseccomp writes the pre-exec filter
  of the list, and fsec-optimize rewrites it. For a list of entries without error names that is short enough
  for the jump offsets, the rewritten file refuses, with the action that the environment variable asks for,
  exactly the listed calls that have a name, are not excluded and are not needed for the exec.
\<close>

theorem drop_pipeline:
  assumes "bpf_vm run" "opn f1 > 0" "opn f2 > 0" "error_action var = Inr act" "\<And>n. wr n = int n"
    and es: "list_entries defd True list = Inr es" "list_all (\<lambda>e. snd e = -1) es"
    and len: "length (filter (\<lambda>e. 0 \<le> fst e) es) + 2 * length (filter (\<lambda>e. fst e < 0) es) \<le> 255"
    and f1: "f1 \<notin> {''-h'', ''--help'', ''-?''}"
  shows "\<exists>pre post out.
    fseccomp_main opn defd var [''fseccomp'', ''drop'', f1, f2, list] = Inr (Files ((f1, pre) # post)) \<and>
    fsec_optimize_main var (\<lambda>_. Some pre) opn wr [''fsec-optimize'', f1] = Inr (Files [(f1, out)]) \<and>
    (\<forall>s args. 0 \<le> s \<and> s < 2 ^ 30 \<longrightarrow> run out (call True s args) 0 =
       (if (s, -1) \<in> set es \<and> \<not> (0 < s \<and> (- s, -1) \<in> set es) \<and> known True s \<and> s \<notin> set (keep_nrs True)
        then act else SECCOMP_RET_ALLOW))"
  using drop_programs [OF assms, of "''fseccomp''" "''fsec-optimize''"] by blast

theorem drop_pipeline_witness:
  "\<exists>pre post out.
    fseccomp_main (\<lambda>_. 3) (\<lambda>_. True) (Some ''kill'') [''fseccomp'', ''drop'', ''a'', ''b'', ''mount,execve,!chroot''] =
      Inr (Files ((''a'', pre) # post)) \<and>
    fsec_optimize_main (Some ''kill'') (\<lambda>_. Some pre) (\<lambda>_. 3) int [''fsec-optimize'', ''a''] = Inr (Files [(''a'', out)]) \<and>
    bpf_run out (call True 165 (\<lambda>_. 0)) 0 = SECCOMP_RET_KILL \<and>
    bpf_run out (call True 161 (\<lambda>_. 0)) 0 = SECCOMP_RET_ALLOW"
proof -
  have k: "known True 165"
    by (rule known_native [OF demo_names(1)]) (simp add: SYSCALL_ERROR_def INT_MAX_def)
  have a: "error_action (Some ''kill'') = Inr SECCOMP_RET_KILL" by (simp add: error_action_def)
  show ?thesis
    using drop_pipeline [OF ref_vm.bpf_vm_axioms _ _ a _ demo_list, of "\<lambda>_. 3" "''a''" "''b''" int "\<lambda>_. True"] k
    by (fastforce simp: keep_nrs_def)
qed

end
