(* ===== verification/Fsec_Print.thy ===== *)
theory Fsec_Print
  imports Fseccomp_Verdicts C_Format
begin

text \<open>
  \<open>fsec-print/print.c\<close>: the disassembler for filter files. Two global flags follow the accumulator and the
  architecture check, so that system call numbers can be printed as names; they are the state of the
  printing functions, which return the text they print.

  The lemmas show that the hexadecimal part of the listing determines the filter, and that the flags are
  right on the filters that fseccomp writes.
\<close>

abbreviation BPF_LDX :: u16 where "BPF_LDX \<equiv> 0x01"
abbreviation BPF_ST :: u16 where "BPF_ST \<equiv> 0x02"
abbreviation BPF_STX :: u16 where "BPF_STX \<equiv> 0x03"
abbreviation BPF_MISC :: u16 where "BPF_MISC \<equiv> 0x07"
abbreviation BPF_H :: u16 where "BPF_H \<equiv> 0x08"
abbreviation BPF_B :: u16 where "BPF_B \<equiv> 0x10"
abbreviation BPF_IMM :: u16 where "BPF_IMM \<equiv> 0x00"
abbreviation BPF_IND :: u16 where "BPF_IND \<equiv> 0x40"
abbreviation BPF_MEM :: u16 where "BPF_MEM \<equiv> 0x60"
abbreviation BPF_LEN :: u16 where "BPF_LEN \<equiv> 0x80"
abbreviation BPF_MSH :: u16 where "BPF_MSH \<equiv> 0xa0"
abbreviation BPF_ADD :: u16 where "BPF_ADD \<equiv> 0x00"
abbreviation BPF_SUB :: u16 where "BPF_SUB \<equiv> 0x10"
abbreviation BPF_MUL :: u16 where "BPF_MUL \<equiv> 0x20"
abbreviation BPF_DIV :: u16 where "BPF_DIV \<equiv> 0x30"
abbreviation BPF_OR :: u16 where "BPF_OR \<equiv> 0x40"
abbreviation BPF_LSH :: u16 where "BPF_LSH \<equiv> 0x60"
abbreviation BPF_RSH :: u16 where "BPF_RSH \<equiv> 0x70"
abbreviation BPF_NEG :: u16 where "BPF_NEG \<equiv> 0x80"
abbreviation BPF_MOD :: u16 where "BPF_MOD \<equiv> 0x90"
abbreviation BPF_XOR :: u16 where "BPF_XOR \<equiv> 0xa0"
abbreviation BPF_JGT :: u16 where "BPF_JGT \<equiv> 0x20"
abbreviation BPF_X :: u16 where "BPF_X \<equiv> 0x08"
abbreviation BPF_A :: u16 where "BPF_A \<equiv> 0x10"
abbreviation BPF_TAX :: u16 where "BPF_TAX \<equiv> 0x00"
abbreviation BPF_TXA :: u16 where "BPF_TXA \<equiv> 0x80"

definition BPF_CLASS :: "u16 \<Rightarrow> u16" where "BPF_CLASS code = code AND 0x07"
definition BPF_MODE :: "u16 \<Rightarrow> u16" where "BPF_MODE code = code AND 0xe0"
definition BPF_OP :: "u16 \<Rightarrow> u16" where "BPF_OP code = code AND 0xf0"
definition BPF_SRC :: "u16 \<Rightarrow> u16" where "BPF_SRC code = code AND 0x08"
definition BPF_RVAL :: "u16 \<Rightarrow> u16" where "BPF_RVAL code = code AND 0x18"

text \<open>The case labels of a load: one size with every mode.\<close>

definition all_modes :: "u16 \<Rightarrow> u16 list" where
  "all_modes c = map (\<lambda>m. c + m) [BPF_IMM, BPF_ABS, BPF_IND, BPF_MEM, BPF_LEN, BPF_MSH]"

definition k_or_x :: "u16 \<Rightarrow> u16 list" where
  "k_or_x c = [c + BPF_K, c + BPF_X]"

definition bpf_decode_op :: "sock_filter \<Rightarrow> string" where
  "bpf_decode_op bpf =
     (let c = bpf_code bpf in
      if c \<in> set (all_modes (BPF_LD + BPF_W)) then ''ld''
      else if c \<in> set (all_modes (BPF_LD + BPF_H)) then ''ldh''
      else if c \<in> set (all_modes (BPF_LD + BPF_B)) then ''ldb''
      else if c \<in> set (all_modes (BPF_LDX + BPF_W) @ all_modes (BPF_LDX + BPF_H) @
                       all_modes (BPF_LDX + BPF_B)) then ''ldx''
      else if c = BPF_ST then ''st''
      else if c = BPF_STX then ''stx''
      else if c \<in> set (k_or_x (BPF_ALU + BPF_ADD)) then ''add''
      else if c \<in> set (k_or_x (BPF_ALU + BPF_SUB)) then ''sub''
      else if c \<in> set (k_or_x (BPF_ALU + BPF_MUL)) then ''mul''
      else if c \<in> set (k_or_x (BPF_ALU + BPF_DIV)) then ''div''
      else if c \<in> set (k_or_x (BPF_ALU + BPF_OR)) then ''or''
      else if c \<in> set (k_or_x (BPF_ALU + BPF_AND)) then ''and''
      else if c \<in> set (k_or_x (BPF_ALU + BPF_LSH)) then ''lsh''
      else if c \<in> set (k_or_x (BPF_ALU + BPF_RSH)) then ''rsh''
      else if c \<in> set (k_or_x (BPF_ALU + BPF_NEG)) then ''neg''
      else if c \<in> set (k_or_x (BPF_ALU + BPF_MOD)) then ''mod''
      else if c \<in> set (k_or_x (BPF_ALU + BPF_XOR)) then ''xor''
      else if c \<in> set (k_or_x (BPF_JMP + BPF_JA)) then ''jmp''
      else if c \<in> set (k_or_x (BPF_JMP + BPF_JEQ)) then ''jeq''
      else if c \<in> set (k_or_x (BPF_JMP + BPF_JGT)) then ''jgt''
      else if c \<in> set (k_or_x (BPF_JMP + BPF_JGE)) then ''jge''
      else if c \<in> set (k_or_x (BPF_JMP + BPF_JSET)) then ''jset''
      else if c \<in> {BPF_RET + BPF_K, BPF_RET + BPF_X, BPF_RET + BPF_A} then ''ret''
      else if c = BPF_MISC + BPF_TAX then ''tax''
      else if c = BPF_MISC + BPF_TXA then ''txa''
      else ''???'')"

definition SECCOMP_RET_ACTION :: u32 where "SECCOMP_RET_ACTION = 0x7fff0000"
definition SECCOMP_RET_DATA :: u32 where "SECCOMP_RET_DATA = 0x0000ffff"

definition bpf_decode_action :: "u32 \<Rightarrow> string" where
  "bpf_decode_action k =
     (let act = k AND SECCOMP_RET_ACTION; data = k AND SECCOMP_RET_DATA in
      if act = SECCOMP_RET_KILL then ''KILL''
      else if act = SECCOMP_RET_TRAP then ''TRAP''
      else if act = SECCOMP_RET_ERRNO then ''ERRNO('' @ fmt_u (unat data) @ '')''
      else if act = SECCOMP_RET_TRACE then ''TRACE('' @ fmt_u (unat data) @ '')''
      else if act = SECCOMP_RET_LOG then ''LOG''
      else if act = SECCOMP_RET_ALLOW then ''ALLOW''
      else ''0x'' @ fmt_x_prec 8 (unat k))"

record pstate =
  syscall_loaded :: bool
  native_arch :: bool

definition line_jump :: "u32 \<Rightarrow> u32 \<Rightarrow> string" where
  "line_jump line off = fmt_x_prec 4 (unat (line + 1 + off))"

definition jump_text :: "string \<Rightarrow> u32 \<Rightarrow> sock_filter \<Rightarrow> string" where
  "jump_text what line bpf =
     what @ '' '' @ line_jump line (ucast (bpf_jt bpf)) @ '' (false '' @ line_jump line (ucast (bpf_jf bpf)) @ '')''"

text \<open>The four cases of the \<open>switch\<close> of \<open>bpf_decode_args\<close> with a body of their own.\<close>

definition decode_load :: "sock_filter \<Rightarrow> pstate \<Rightarrow> string \<times> pstate" where
  "decode_load bpf st =
     (let m = BPF_MODE (bpf_code bpf); k = bpf_k bpf in
      if m = BPF_ABS then
        (if k = off_arch then (''data.architecture'', st\<lparr>syscall_loaded := False\<rparr>)
         else if k = off_nr then (''data.syscall-number'', st\<lparr>syscall_loaded := True\<rparr>)
         else if k = off_ip then (''data.instruction_pointer'', st\<lparr>syscall_loaded := False\<rparr>)
         else (''data.args['' @ fmt_x (unat (k - off_arg 0)) @ '']'', st\<lparr>syscall_loaded := False\<rparr>))
      else if m = BPF_MEM then (''$temp['' @ fmt_u (unat k) @ '']'', st)
      else if m = BPF_IMM then (fmt_x (unat k), st)
      else if m = BPF_IND then (''$data[X + '' @ fmt_x (unat k) @ '']'', st)
      else if m = BPF_LEN then (''len($data)'', st)
      else if m = BPF_MSH then (''4 * $data['' @ fmt_x (unat k) @ ''] & 0x0f'', st)
      else ([], st))"

definition decode_alu :: "sock_filter \<Rightarrow> string" where
  "decode_alu bpf =
     (if BPF_SRC (bpf_code bpf) = BPF_K then
        (if BPF_OP (bpf_code bpf) = BPF_OR \<or> BPF_OP (bpf_code bpf) = BPF_AND
         then fmt_x_prec 8 (unat (bpf_k bpf)) else fmt_x (unat (bpf_k bpf)))
      else fmt_u (unat (bpf_k bpf)))"

definition decode_jump :: "sock_filter \<Rightarrow> u32 \<Rightarrow> pstate \<Rightarrow> string \<times> pstate" where
  "decode_jump bpf line st =
     (let k = bpf_k bpf in
      if BPF_OP (bpf_code bpf) = BPF_JA then (line_jump line k, st)
      else
        let name = (if syscall_loaded st \<and> native_arch st then Some (syscall_find_nr (sint k)) else None) in
        if k = ARCH_32 then (jump_text ''ARCH_32'' line bpf, st\<lparr>native_arch := (ARCH_NR = ARCH_32)\<rparr>)
        else if k = ARCH_64 then (jump_text ''ARCH_64'' line bpf, st\<lparr>native_arch := (ARCH_NR = ARCH_64)\<rparr>)
        else if k = X32_SYSCALL_BIT then (jump_text ''X32_ABI'' line bpf, st)
        else (case name of
                Some n \<Rightarrow> (jump_text n line bpf, st)
              | None \<Rightarrow> (jump_text (fmt_x (unat k)) line bpf, st)))"

definition decode_ret :: "sock_filter \<Rightarrow> string" where
  "decode_ret bpf =
     (if BPF_RVAL (bpf_code bpf) = BPF_A then ''$acc''
      else if BPF_SRC (bpf_code bpf) = BPF_K then bpf_decode_action (bpf_k bpf)
      else if BPF_SRC (bpf_code bpf) = BPF_X then ''???''
      else [])"

definition bpf_decode_args :: "sock_filter \<Rightarrow> u32 \<Rightarrow> pstate \<Rightarrow> string \<times> pstate" where
  "bpf_decode_args bpf line st =
     (let c = BPF_CLASS (bpf_code bpf) in
      if c = BPF_LD \<or> c = BPF_LDX then decode_load bpf st
      else if c = BPF_ST \<or> c = BPF_STX then (''$temp['' @ fmt_u (unat (bpf_k bpf)) @ '']'', st)
      else if c = BPF_ALU then (decode_alu bpf, st)
      else if c = BPF_JMP then decode_jump bpf line st
      else if c = BPF_RET then (decode_ret bpf, st)
      else if c = BPF_MISC then ([], st)
      else (''???'', st))"

abbreviation newline :: char where "newline \<equiv> CHR 0x0A"

definition hex_dump :: "nat \<Rightarrow> sock_filter \<Rightarrow> string" where
  "hex_dump i bpf = '' '' @ fmt_x_prec 4 i @ '': '' @ fmt_x_prec 2 (unat (bpf_code bpf)) @ '' '' @
     fmt_x_prec 2 (unat (bpf_jt bpf)) @ '' '' @ fmt_x_prec 2 (unat (bpf_jf bpf)) @ '' '' @
     fmt_x_prec 8 (unat (bpf_k bpf))"

fun print_lines :: "nat \<Rightarrow> pstate \<Rightarrow> sock_filter list \<Rightarrow> string" where
  "print_lines i st [] = []"
| "print_lines i st (bpf # r) =
     (case bpf_decode_args bpf (word_of_nat i) st of (args, st') \<Rightarrow>
        hex_dump i bpf @ ''   '' @ fmt_s_left 3 (bpf_decode_op bpf) @ '' '' @ args @ [newline] @
        print_lines (i + 1) st' r)"

definition print_filter :: "sock_filter list \<Rightarrow> string" where
  "print_filter flt =
     '' line  OP JT JF    K'' @ [newline] @ ''================================='' @ [newline] @
     print_lines 0 \<lparr>syscall_loaded = False, native_arch = False\<rparr> flt"

subsection \<open>Reading a listing back\<close>

definition parse_line :: "string \<Rightarrow> sock_filter" where
  "parse_line s = (let ts = strtok (CHR '' '') s; v = (\<lambda>i. digits_value 16 0 (ts ! i)) in
     \<lparr>bpf_code = word_of_nat (v 1), bpf_jt = word_of_nat (v 2), bpf_jf = word_of_nat (v 3),
      bpf_k = word_of_nat (v 4)\<rparr>)"

definition parse_listing :: "string \<Rightarrow> sock_filter list" where
  "parse_listing s = map parse_line (drop 2 (strtok newline s))"

fun lacks :: "char \<Rightarrow> string \<Rightarrow> bool" where
  "lacks c [] \<longleftrightarrow> True"
| "lacks c (x # s) \<longleftrightarrow> x \<noteq> c \<and> lacks c s"

lemma lacks_iff: "lacks c s \<longleftrightarrow> c \<notin> set s"
  by (induction s) auto

lemma syslist_one_line: "list_all (\<lambda>e. lacks newline (fst e)) syslist"
  by (simp only: syslist_defs table_check lacks.simps)

lemma find_nr_one_line: "newline \<notin> set (syscall_find_nr k)"
  using table_find_nr_cases [of syslist k] syslist_one_line
  by (auto simp: syscall_find_nr_def list_all_iff lacks_iff)

lemma digits_lack:
  assumes "16 \<le> digit_value c"
  shows "c \<notin> set (fmt_x_prec w n)" "c \<notin> set (fmt_x n)" "c \<notin> set (fmt_u n)"
  using fmt_x_prec_digits [of w n] digits_of_digits [of 16 n] digits_of_digits [of 10 n] assms
  by (fastforce simp: list_all_iff fmt_x_def fmt_u_def)+

lemma newline_digit: "16 \<le> digit_value newline" "16 \<le> digit_value (CHR '' '')" "16 \<le> digit_value (CHR '':'')"
  by (simp_all add: digit_value_def)

lemmas one_line [simp] = digits_lack [OF newline_digit(1)] digits_lack [OF newline_digit(2)]
  digits_lack [OF newline_digit(3)] find_nr_one_line

lemma fmt_x_prec_not_Nil [simp]: "fmt_x_prec w n \<noteq> []"
  by (simp add: fmt_x_prec_def fmt_x_def)

lemma decode_op_one_line: "newline \<notin> set (bpf_decode_op bpf)"
  by (simp add: bpf_decode_op_def Let_def)

lemma decode_action_one_line: "newline \<notin> set (bpf_decode_action k)"
  by (simp add: bpf_decode_action_def Let_def)

lemma jump_text_one_line: "newline \<notin> set w \<Longrightarrow> newline \<notin> set (jump_text w line bpf)"
  by (simp add: jump_text_def line_jump_def)

lemma decode_load_one_line: "newline \<notin> set (fst (decode_load bpf st))"
  by (simp add: decode_load_def Let_def)

lemma decode_jump_one_line: "newline \<notin> set (fst (decode_jump bpf line st))"
  by (simp add: decode_jump_def line_jump_def jump_text_one_line Let_def split: option.split)

lemma decode_args_one_line: "newline \<notin> set (fst (bpf_decode_args bpf line st))"
  by (simp add: bpf_decode_args_def decode_alu_def decode_ret_def decode_action_one_line
      decode_load_one_line decode_jump_one_line Let_def)

lemma strtok_sep_first: "strtok c (c # t) = strtok c t"
  using strtok_append_sep [of c "[]" t] by simp

lemma parse_hex_dump: "parse_line (hex_dump i bpf @ CHR '' '' # r) = bpf"
proof -
  have "strtok (CHR '' '') (hex_dump i bpf @ CHR '' '' # r) =
    (fmt_x_prec 4 i @ '':'') # fmt_x_prec 2 (unat (bpf_code bpf)) # fmt_x_prec 2 (unat (bpf_jt bpf)) #
    fmt_x_prec 2 (unat (bpf_jf bpf)) # fmt_x_prec 8 (unat (bpf_k bpf)) # strtok (CHR '' '') r"
    using strtok_word_sep [of "CHR '' ''" "fmt_x_prec 4 i @ '':''"]
    by (simp add: hex_dump_def strtok_sep_first strtok_word_sep)
  then show ?thesis by (cases bpf) (simp add: parse_line_def Let_def)
qed

lemma hex_dump_one_line: "newline \<notin> set (hex_dump i bpf)"
  by (simp add: hex_dump_def)

lemma print_lines_parse: "map parse_line (strtok newline (print_lines i st f)) = f"
proof (induction f arbitrary: i st)
  case (Cons b f)
  obtain args st' where a: "bpf_decode_args b (word_of_nat i) st = (args, st')"
    by (cases "bpf_decode_args b (word_of_nat i) st")
  let ?l = "hex_dump i b @ ''   '' @ fmt_s_left 3 (bpf_decode_op b) @ '' '' @ args"
  have "newline \<notin> set args" using decode_args_one_line [of b "word_of_nat i" st] a by simp
  then have "newline \<notin> set ?l" "?l \<noteq> []"
    using decode_op_one_line [of b] hex_dump_one_line [of i b] by (auto simp: fmt_s_left_def)
  then have "strtok newline (?l @ newline # print_lines (i + 1) st' f) =
      ?l # strtok newline (print_lines (i + 1) st' f)" by (rule strtok_word_sep)
  moreover have "parse_line ?l = b" using parse_hex_dump [of i b] by simp
  ultimately show ?case using Cons.IH by (simp add: a)
qed simp

text \<open>
  The listing that fsec-print makes of a filter determines it: reading the hexadecimal columns of its
  lines back gives every instruction, whatever the filter.
\<close>

theorem print_filter_roundtrip: "parse_listing (print_filter flt) = flt"
proof -
  have "strtok newline (print_filter flt) =
    '' line  OP JT JF    K'' # ''================================='' #
    strtok newline (print_lines 0 \<lparr>syscall_loaded = False, native_arch = False\<rparr> flt)"
    using strtok_word_sep [of newline "'' line  OP JT JF    K''"]
      strtok_word_sep [of newline "''=================================''"]
    by (simp add: print_filter_def)
  then show ?thesis by (simp add: parse_listing_def print_lines_parse)
qed

subsection \<open>The state of the decoder\<close>

fun decode_state :: "pstate \<Rightarrow> sock_filter list \<Rightarrow> pstate" where
  "decode_state st [] = st"
| "decode_state st (bpf # r) = decode_state (snd (bpf_decode_args bpf 0 st)) r"

lemma decode_args_state: "snd (bpf_decode_args bpf line st) = snd (bpf_decode_args bpf 0 st)"
  by (simp add: bpf_decode_args_def decode_jump_def Let_def split: option.split)

lemma print_lines_append:
  "print_lines i st (f @ g) = print_lines i st f @ print_lines (i + length f) (decode_state st f) g"
proof (induction f arbitrary: i st)
  case (Cons b f)
  then show ?case
    using decode_args_state [of b "word_of_nat i" st] by (simp split: prod.split) (metis snd_conv)
qed simp

lemmas decode_defs = bpf_decode_args_def BPF_CLASS_def BPF_MODE_def BPF_OP_def BPF_SRC_def BPF_RVAL_def
  BPF_STMT_def BPF_JUMP_def decode_load_def decode_jump_def decode_ret_def Let_def

lemma decode_state_init:
  "decode_state st (init_code action native) = \<lparr>syscall_loaded = True, native_arch = native\<rparr>"
  by (cases st) (simp add: init_code_def VALIDATE_ARCHITECTURE_def VALIDATE_ARCHITECTURE_32_def
      EXAMINE_SYSCALL_def HANDLE_X32_def KILL_OR_RETURN_ERRNO_def decode_defs
      ARCH_NR_def ARCH_32_def ARCH_64_def off_arch_def off_nr_def X32_SYSCALL_BIT_def)

lemma decode_state_rules:
  assumes "list_all (\<lambda>r. fst r \<noteq> ARCH_32 \<and> fst r \<noteq> ARCH_64) rs"
  shows "decode_state st (rules_code rs) = st"
proof -
  have a: "decode_state st (f @ g) = decode_state (decode_state st f) g" for st f g
    by (induction f arbitrary: st) simp_all
  show ?thesis
    using assms by (induction rs) (auto simp: a rule_code_def decode_defs split: option.split)
qed

lemma sint_small: "0 \<le> s \<Longrightarrow> s < 2 ^ 30 \<Longrightarrow> sint (word_of_int s :: u32) = s"
  by (simp add: sint_sbintrunc' signed_take_bit_int_eq_self)

lemma decode_name:
  assumes "(name, s) \<in> set syslist"
  shows "bpf_decode_args (BPF_JUMP (BPF_JMP + BPF_JEQ + BPF_K) (word_of_int s) 0 1) line
      \<lparr>syscall_loaded = True, native_arch = True\<rparr> =
    (jump_text name line (BPF_JUMP (BPF_JMP + BPF_JEQ + BPF_K) (word_of_int s) 0 1),
     \<lparr>syscall_loaded = True, native_arch = True\<rparr>)"
proof -
  have t: "(name, s) \<in> set (table_of True)" using assms by simp
  note r = table_small [OF t]
  have "(word_of_int s :: u32) < X32_SYSCALL_BIT" using small_word_less r by blast
  then have "(word_of_int s :: u32) \<noteq> X32_SYSCALL_BIT" "(word_of_int s :: u32) \<noteq> ARCH_32"
    "(word_of_int s :: u32) \<noteq> ARCH_64"
    by (auto simp: X32_SYSCALL_BIT_def ARCH_32_def ARCH_64_def)
  moreover have "syscall_find_nr s = name" using table_name [OF t] by (simp add: nr_name_def)
  ultimately show ?thesis using r by (simp add: decode_defs sint_small)
qed

text \<open>
  In the listing of a native filter of fseccomp, the line of a rule shows the name of its system call:
  the two flags of the decoder are set by the header of the filter and survive the rules before it.
\<close>

theorem print_filter_names:
  assumes "(name, s) \<in> set syslist" "list_all (\<lambda>r. fst r \<noteq> ARCH_32 \<and> fst r \<noteq> ARCH_64) rs"
  shows "\<exists>pre post. print_filter (blacklist_code action True (rs @ (word_of_int s, v) # qs)) =
    pre @ hex_dump (7 + 2 * length rs) (BPF_JUMP (BPF_JMP + BPF_JEQ + BPF_K) (word_of_int s) 0 1) @
    ''   jeq '' @ name @ '' '' @ post"
proof -
  let ?st = "\<lparr>syscall_loaded = True, native_arch = True\<rparr>"
  let ?b = "BPF_JUMP (BPF_JMP + BPF_JEQ + BPF_K) (word_of_int s) 0 1"
  let ?head = "init_code action True @ rules_code rs"
  let ?z = "\<lparr>syscall_loaded = False, native_arch = False\<rparr>"
  have c: "blacklist_code action True (rs @ (word_of_int s, v) # qs) =
      ?head @ ?b # BPF_STMT (BPF_RET + BPF_K) v # rules_code qs @ RETURN_ALLOW"
    by (simp add: blacklist_code_def rule_code_def)
  have st: "decode_state st (f @ g) = decode_state (decode_state st f) g" for st f g
    by (induction f arbitrary: st) simp_all
  have d: "decode_state ?z ?head = ?st"
    by (simp add: st decode_state_init decode_state_rules [OF assms(2)])
  have r: "length (rules_code rs) = 2 * length rs" by (induction rs) (simp_all add: rule_code_def)
  have l: "length ?head = 7 + 2 * length rs"
    by (simp add: r init_code_def VALIDATE_ARCHITECTURE_def EXAMINE_SYSCALL_def HANDLE_X32_def
        KILL_OR_RETURN_ERRNO_def)
  have o: "fmt_s_left 3 (bpf_decode_op ?b) = ''jeq''"
    by (simp add: bpf_decode_op_def fmt_s_left_def BPF_JUMP_def Let_def all_modes_def k_or_x_def)
  have "print_lines 0 ?z (?head @ ?b # g) = print_lines 0 ?z ?head @ hex_dump (7 + 2 * length rs) ?b @
      ''   jeq '' @ jump_text name (word_of_nat (7 + 2 * length rs)) ?b @ [newline] @
      print_lines (7 + 2 * length rs + 1) ?st g" for g
    unfolding print_lines_append [of 0 ?z ?head] d l by (simp only: print_lines.simps decode_name [OF assms(1)] prod.case o) simp
  then show ?thesis
    unfolding c print_filter_def jump_text_def by (metis append.assoc)
qed

theorem print_filter_names_witness:
  "\<exists>pre post. print_filter (blacklist_code 0 True ([] @ (word_of_int 165, 0) # [])) =
    pre @ hex_dump (7 + 2 * length ([] :: rule list)) (BPF_JUMP (BPF_JMP + BPF_JEQ + BPF_K) (word_of_int 165) 0 1) @
    ''   jeq '' @ ''mount'' @ '' '' @ post"
proof -
  have "(''mount'', 165) \<in> set syslist"
    using find_name_entry(1) [OF demo_names(1)] by (simp add: SYSCALL_ERROR_def INT_MAX_def)
  from print_filter_names [OF this, of "[]"] show ?thesis by simp
qed

end
