(* ===== verification/Net_Common.thy ===== *)
theory Net_Common
  imports C_Format
begin

text \<open>
  The network helpers of \<open>include/common.h\<close> and \<open>check_ip46_address\<close> of \<open>firejail/network.c\<close>: reading and printing of
  IPv4 and MAC addresses, network masks, and the test that an address can be used on an interface. Every address and
  mask that is printed is read back; the mask of a CIDR suffix has that many leading bits.
\<close>

subsection \<open>\<open>sscanf\<close>\<close>

text \<open>
  The integer conversions of \<open>sscanf\<close>: white space is skipped, then a sign and digits are read, in all at most \<open>w\<close>
  characters. As in the GNU C library the value is that of \<open>strtoul\<close>, which stays at its maximum when the number is
  too large, cut to the 32 bits of the variable; a hexadecimal number may start with \<open>0x\<close>.
\<close>

definition strtoul_value :: "bool \<Rightarrow> nat \<Rightarrow> u64" where
  "strtoul_value neg m = (if 2 ^ 64 \<le> m then - 1 else if neg then - word_of_nat m else word_of_nat m)"

definition scan_sign :: "nat \<Rightarrow> string \<Rightarrow> bool \<times> nat \<times> string" where
  "scan_sign w s = (case s of
       [] \<Rightarrow> (False, w, s)
     | c # r \<Rightarrow> if 0 < w \<and> (c = CHR ''-'' \<or> c = CHR ''+'') then (c = CHR ''-'', w - 1, r) else (False, w, s))"

definition scan_digits :: "nat \<Rightarrow> nat \<Rightarrow> string \<Rightarrow> (nat \<times> string) option" where
  "scan_digits b w s =
     (let ds = takeWhile (\<lambda>c. digit_value c < b) (take w s) in
      if ds = [] then None else Some (digits_value b 0 ds, drop (length ds) s))"

definition scan_int :: "nat \<Rightarrow> nat \<Rightarrow> string \<Rightarrow> (u32 \<times> string) option" where
  "scan_int b w s =
     (case scan_sign w (dropWhile c_isspace s) of (neg, w, t) \<Rightarrow>
      map_option (\<lambda>(m, r). (ucast (strtoul_value neg m), r))
        (case t of
           z # x # r \<Rightarrow>
             if b = 16 \<and> 1 < w \<and> z = CHR ''0'' \<and> (x = CHR ''x'' \<or> x = CHR ''X'')
             then (case scan_digits b (w - 2) r of None \<Rightarrow> Some (0, r) | Some mr \<Rightarrow> Some mr)
             else scan_digits b w t
         | _ \<Rightarrow> scan_digits b w t))"

definition scan_u :: "string \<Rightarrow> (u32 \<times> string) option" where
  "scan_u s = scan_int 10 (length s) s"

text \<open>An ordinary character of the format.\<close>

definition scan_lit :: "char \<Rightarrow> string \<Rightarrow> string option" where
  "scan_lit c s = (case s of [] \<Rightarrow> None | d # r \<Rightarrow> if d = c then Some r else None)"

subsection \<open>Addresses and masks\<close>

definition print_ip :: "u32 \<Rightarrow> string" where
  "print_ip a =
     fmt_d (uint (drop_bit 24 a AND 0xFF)) @ ''.'' @ fmt_d (uint (drop_bit 16 a AND 0xFF)) @ ''.'' @
     fmt_d (uint (drop_bit 8 a AND 0xFF)) @ ''.'' @ fmt_d (uint (a AND 0xFF))"

definition scan_ip :: "string \<Rightarrow> ((u32 \<times> u32 \<times> u32 \<times> u32) \<times> string) option" where
  "scan_ip s =
     Option.bind (scan_u s) (\<lambda>(a, s). Option.bind (scan_lit (CHR ''.'') s) (\<lambda>s.
     Option.bind (scan_u s) (\<lambda>(b, s). Option.bind (scan_lit (CHR ''.'') s) (\<lambda>s.
     Option.bind (scan_u s) (\<lambda>(c, s). Option.bind (scan_lit (CHR ''.'') s) (\<lambda>s.
     Option.bind (scan_u s) (\<lambda>(d, s). Some ((a, b, c, d), s))))))))"

text \<open>\<open>None\<close> is the return value 1.\<close>

definition atoip :: "string \<Rightarrow> u32 option" where
  "atoip str =
     (case scan_ip str of
        None \<Rightarrow> None
      | Some ((a, b, c, d), _) \<Rightarrow>
          if a > 255 \<or> b > 255 \<or> c > 255 \<or> d > 255 then None
          else Some (a * 0x1000000 + b * 0x10000 + c * 0x100 + d))"

fun cidr_mask :: "nat \<Rightarrow> u32 \<Rightarrow> u32 \<Rightarrow> u32" where
  "cidr_mask 0 tmp m = m"
| "cidr_mask (Suc i) tmp m = cidr_mask i (drop_bit 1 tmp) (m OR tmp)"

definition atocidr :: "string \<Rightarrow> (u32 \<times> u32) option" where
  "atocidr str =
     (case scan_ip str of
        None \<Rightarrow> None
      | Some ((a, b, c, d), s) \<Rightarrow>
          (case Option.bind (scan_lit (CHR ''/'') s) scan_u of
             None \<Rightarrow> None
           | Some (e, _) \<Rightarrow>
               if a > 255 \<or> b > 255 \<or> c > 255 \<or> d > 255 \<or> e > 32 then None
               else Some (a * 0x1000000 + b * 0x10000 + c * 0x100 + d, cidr_mask (unat e) 0x80000000 0)))"

fun mask2bits_loop :: "nat \<Rightarrow> u32 \<Rightarrow> u32 \<Rightarrow> u8 \<Rightarrow> u8" where
  "mask2bits_loop 0 tmp m rv = rv"
| "mask2bits_loop (Suc i) tmp m rv =
     (if tmp AND m \<noteq> 0 then mask2bits_loop i (drop_bit 1 tmp) m (rv + 1) else rv)"

definition mask2bits :: "u32 \<Rightarrow> u8" where
  "mask2bits m = mask2bits_loop 32 0x80000000 m 0"

definition in_netrange :: "u32 \<Rightarrow> u32 \<Rightarrow> u32 \<Rightarrow> string option" where
  "in_netrange ip ifip ifmask =
     (if ip AND ifmask \<noteq> ifip AND ifmask then Some ''Error: the IP address is not in the interface range''
      else if ip AND ifmask = ip then Some ''Error: the IP address is a network address''
      else if ip OR NOT ifmask = ip then Some ''Error: the IP address is a network address''
      else None)"

subsection \<open>MAC addresses\<close>

fun scan_mac :: "nat \<Rightarrow> string \<Rightarrow> u32 list option" where
  "scan_mac 0 s = Some []"
| "scan_mac (Suc n) s =
     Option.bind (scan_int 16 2 s) (\<lambda>(v, s).
     if n = 0 then Some [v]
     else Option.bind (scan_lit (CHR '':'') s) (\<lambda>s. map_option (Cons v) (scan_mac n s)))"

definition atomac :: "string \<Rightarrow> u8 list option" where
  "atomac str =
     (case scan_mac 6 str of
        None \<Rightarrow> None
      | Some mac \<Rightarrow> if list_ex (\<lambda>m. m > 0xff) mac then None else Some (map ucast mac))"

definition mac_not_zero :: "u8 list \<Rightarrow> bool" where
  "mac_not_zero mac = list_ex (\<lambda>m. m \<noteq> 0) mac"

text \<open>\<open>"%02x:%02x:%02x:%02x:%02x:%02x"\<close> with \<open>PRINT_MAC\<close>.\<close>

fun print_mac :: "u8 list \<Rightarrow> string" where
  "print_mac [] = []"
| "print_mac [m] = fmt_x_prec 2 (unat m)"
| "print_mac (m # ms) = fmt_x_prec 2 (unat m) @ '':'' @ print_mac ms"

subsection \<open>IPv4 or IPv6\<close>

text \<open>\<open>atoi\<close>, which is \<open>strtol\<close> in base ten cut to an \<open>int\<close>; \<open>inet_pton\<close> is a parameter.\<close>

definition atoi :: "string \<Rightarrow> int" where
  "atoi s =
     (case scan_sign (length s) (dropWhile c_isspace s) of (neg, _, t) \<Rightarrow>
      let v = int (digits_value 10 0 t) in
      c_int (max (- (2 ^ 63)) (min (2 ^ 63 - 1) (if neg then - v else v))))"

definition check_ip46_address :: "(string \<Rightarrow> bool) \<Rightarrow> string \<Rightarrow> bool" where
  "check_ip46_address inet_pton6 addr =
     (atoip addr \<noteq> None \<or>
      (case cut_at (CHR ''/'') addr of
         (tmpstr, None) \<Rightarrow> inet_pton6 tmpstr
       | (tmpstr, Some ptr) \<Rightarrow> \<not> (atoi ptr < 0 \<or> atoi ptr > 128) \<and> inet_pton6 tmpstr))"

subsection \<open>Reading what is printed\<close>

lemma digit_not_space: "digit_value c < 16 \<Longrightarrow> \<not> c_isspace c \<and> c \<noteq> CHR ''-'' \<and> c \<noteq> CHR ''+''"
  by (auto simp: c_isspace_def digit_value_def Let_def split: if_splits)

lemma scan_start:
  assumes "s \<noteq> []" "digit_value (hd s) < 16"
  shows "scan_sign w (dropWhile c_isspace s) = (False, w, s)"
  using digit_not_space [OF assms(2)] assms(1) by (cases s) (simp_all add: scan_sign_def)

lemma strtoul_small: "m < 2 ^ 64 \<Longrightarrow> (ucast (strtoul_value False m) :: u32) = word_of_nat m"
  by (simp add: strtoul_value_def unsigned_of_nat take_bit_nat_eq_self)

lemma scan_digits_all:
  assumes "ds \<noteq> []" "list_all (\<lambda>c. digit_value c < b) ds" "length ds \<le> w"
    "length ds = w \<or> r = [] \<or> b \<le> digit_value (hd r)"
  shows "scan_digits b w (ds @ r) = Some (digits_value b 0 ds, r)"
proof -
  have "takeWhile (\<lambda>c. digit_value c < b) (take w (ds @ r)) = ds"
    using assms(2-) by (cases r) (auto simp: takeWhile_append list_all_iff take_Cons' dest: takeWhile_eq_all_conv [THEN iffD2])
  with assms(1) show ?thesis by (simp add: scan_digits_def)
qed

lemma scan_u_fmt_u:
  assumes "n < 2 ^ 64" "r = [] \<or> 10 \<le> digit_value (hd r)"
  shows "scan_u (fmt_u n @ r) = Some (word_of_nat n, r)"
proof -
  have d: "fmt_u n \<noteq> []" "list_all (\<lambda>c. digit_value c < 10) (fmt_u n)"
    using digits_of_digits [of 10 n] by (simp_all add: fmt_u_def)
  then have "digit_value (hd (fmt_u n)) < 10" by (cases "fmt_u n") simp_all
  then have s: "scan_sign w (dropWhile c_isspace (fmt_u n @ r)) = (False, w, fmt_u n @ r)" for w
    using d(1) by (intro scan_start) simp_all
  have "scan_digits 10 (length (fmt_u n @ r)) (fmt_u n @ r) = Some (n, r)"
    using scan_digits_all [OF d, of "length (fmt_u n @ r)" r] assms(2) by auto
  then show ?thesis
    using assms(1) by (auto simp: scan_u_def scan_int_def s strtoul_small simp del: length_append split: list.splits)
qed

lemma atoi_fmt_u_append:
  assumes "n < 2 ^ 31" "r = [] \<or> 10 \<le> digit_value (hd r)"
  shows "atoi (fmt_u n @ r) = int n"
proof -
  have d: "fmt_u n \<noteq> []" "list_all (\<lambda>c. digit_value c < 10) (fmt_u n)"
    using digits_of_digits [of 10 n] by (simp_all add: fmt_u_def)
  then have "digit_value (hd (fmt_u n)) < 10" by (cases "fmt_u n") simp_all
  then have s: "scan_sign v (dropWhile c_isspace (fmt_u n @ r)) = (False, v, fmt_u n @ r)" for v
    using d(1) by (intro scan_start) simp_all
  have "digits_value 10 0 (fmt_u n @ r) = n" using d(2) assms(2) by (cases r) (auto simp: digits_value_append)
  moreover have "c_int (int n) = int n" using assms by (simp add: c_int_def signed_take_bit_int_eq_self)
  ultimately show ?thesis using assms by (simp add: atoi_def s)
qed

lemma scan_hex_byte:
  assumes "n < 256"
  shows "scan_int 16 2 (fmt_x_prec 2 n @ r) = Some (word_of_nat n, r)"
proof -
  have l: "length (fmt_x_prec 2 n) = 2" using assms by (intro length_fmt_x_prec) simp_all
  have d: "list_all (\<lambda>c. digit_value c < 16) (fmt_x_prec 2 n)" by (rule fmt_x_prec_digits)
  obtain a b where ab: "fmt_x_prec 2 n = [a, b]" using l by (auto simp: length_Suc_conv numeral_2_eq_2)
  with d have "digit_value a < 16" "digit_value b < 16" by simp_all
  moreover have "\<not> digit_value (CHR ''x'') < 16" "\<not> digit_value (CHR ''X'') < 16" by (simp_all add: digit_value_def)
  ultimately have "b \<noteq> CHR ''x''" "b \<noteq> CHR ''X''" by metis+
  moreover have "scan_sign w (dropWhile c_isspace ([a, b] @ r)) = (False, w, [a, b] @ r)" for w
    using \<open>digit_value a < 16\<close> by (intro scan_start) simp_all
  moreover have "scan_digits 16 2 ([a, b] @ r) = Some (n, r)"
    using scan_digits_all [of "[a, b]" 16 2 r] d fmt_x_prec_value [of 2 n] by (simp add: ab)
  ultimately show ?thesis
    using assms by (simp add: ab scan_int_def strtoul_small)
qed

lemma scan_lit_same [simp]: "scan_lit c (c # r) = Some r"
  by (simp add: scan_lit_def)

definition ip_byte :: "u32 \<Rightarrow> nat \<Rightarrow> nat" where
  "ip_byte a i = unat (drop_bit (8 * i) a AND 0xFF)"

lemma ip_byte_nat: "ip_byte a i = unat a div 2 ^ (8 * i) mod 256"
proof -
  have "(0xFF :: u32) = mask 8" by (simp add: mask_eq_exp_minus_1)
  then have "drop_bit (8 * i) a AND 0xFF = take_bit 8 (drop_bit (8 * i) a)" by (simp only: take_bit_eq_mask)
  then show ?thesis
    unfolding ip_byte_def by (simp only: unsigned_take_bit_eq unat_drop_bit_eq) (simp add: take_bit_eq_mod drop_bit_eq_div)
qed

lemma bytes_sum:
  assumes "n < 2 ^ 32"
  shows "(n div 2 ^ 24 mod 256) * 0x1000000 + (n div 2 ^ 16 mod 256) * 0x10000 + (n div 2 ^ 8 mod 256) * 0x100 +
    n mod 256 = (n :: nat)"
proof -
  have m: "m = 256 * (m div 256) + m mod 256" for m :: nat by simp
  have d: "n div 2 ^ 8 = n div 256" "n div 2 ^ 16 = n div 256 div 256" by (simp_all add: div_mult2_eq [symmetric])
  have "n div 2 ^ 24 = n div 256 div 256 div 256" "n div 2 ^ 24 < 256"
    using assms by (simp_all add: div_mult2_eq [symmetric] less_mult_imp_div_less)
  then have "n div 2 ^ 24 mod 256 = n div 256 div 256 div 256" by simp
  then show ?thesis
    unfolding d using m [of n] m [of "n div 256"] m [of "n div 256 div 256"] by linarith
qed

lemma ip_of_bytes:
  "word_of_nat (ip_byte a 3) * 0x1000000 + word_of_nat (ip_byte a 2) * 0x10000 +
   word_of_nat (ip_byte a 1) * 0x100 + word_of_nat (ip_byte a 0) = a"
proof -
  have "word_of_nat (ip_byte a 3 * 0x1000000 + ip_byte a 2 * 0x10000 + ip_byte a 1 * 0x100 + ip_byte a 0) =
      (word_of_nat (unat a) :: u32)"
    unfolding ip_byte_nat using arg_cong [OF bytes_sum [of "unat a"], of "word_of_nat :: nat \<Rightarrow> u32"]
      unsigned_less [of a, where ?'a = nat]
    by simp
  then show ?thesis by simp
qed

lemma print_ip_bytes:
  "print_ip a = fmt_u (ip_byte a 3) @ CHR ''.'' # fmt_u (ip_byte a 2) @ CHR ''.'' # fmt_u (ip_byte a 1) @
     CHR ''.'' # fmt_u (ip_byte a 0)"
  by (simp add: print_ip_def fmt_d_def ip_byte_def not_less)

lemma ip_byte_bounds: "ip_byte a i < 256" "ip_byte a i < 2 ^ 64" "\<not> (255 :: u32) < word_of_nat (ip_byte a i)"
proof -
  show b: "ip_byte a i < 256" by (simp add: ip_byte_nat)
  then show "ip_byte a i < 2 ^ 64" by simp
  show "\<not> (255 :: u32) < word_of_nat (ip_byte a i)"
    using b by (simp add: word_less_nat_alt unsigned_of_nat take_bit_nat_eq_self)
qed

lemma scan_ip_print:
  assumes "r = [] \<or> 10 \<le> digit_value (hd r)"
  shows "scan_ip (print_ip a @ r) =
    Some ((word_of_nat (ip_byte a 3), word_of_nat (ip_byte a 2), word_of_nat (ip_byte a 1), word_of_nat (ip_byte a 0)), r)"
proof -
  have "10 \<le> digit_value (CHR ''.'')" by (simp add: digit_value_def)
  then show ?thesis
    using assms by (simp add: scan_ip_def print_ip_bytes scan_u_fmt_u ip_byte_bounds(2) [simplified])
qed

text \<open>Every mask that \<open>atocidr\<close> builds: the leading bits, by a loop that shifts a single bit to the right.\<close>

definition shifted_top :: "u32 \<Rightarrow> nat \<Rightarrow> bool" where
  "shifted_top tmp k \<longleftrightarrow> (\<forall>j. bit tmp j \<longleftrightarrow> j + k = 31)"

lemma shifted_top_simps:
  "shifted_top 0x80000000 0" "shifted_top tmp k \<Longrightarrow> shifted_top (drop_bit 1 tmp) (Suc k)"
proof -
  have "(0x80000000 :: u32) = 2 ^ 31" by simp
  then show "shifted_top 0x80000000 0" unfolding shifted_top_def by (simp only: bit_exp_iff) auto
qed (auto simp: shifted_top_def bit_drop_bit_eq)

lemma shifted_top_and:
  assumes "shifted_top tmp k" "k < 32"
  shows "tmp AND m = 0 \<longleftrightarrow> \<not> bit m (31 - k)"
proof -
  have "tmp = 2 ^ (31 - k)"
  proof (rule bit_word_eqI)
    fix n assume "n < LENGTH(32)"
    moreover have "bit tmp n \<longleftrightarrow> n + k = 31" using assms(1) by (simp only: shifted_top_def)
    ultimately show "bit tmp n \<longleftrightarrow> bit (2 ^ (31 - k) :: u32) n" using assms(2) unfolding bit_exp_iff by auto
  qed
  then show ?thesis by (simp add: and.commute [of _ m] and_exp_eq_0_iff_not_bit)
qed

lemma bit_cidr_mask:
  "shifted_top tmp k \<Longrightarrow> i + k \<le> 32 \<Longrightarrow> bit (cidr_mask i tmp m) n \<longleftrightarrow> bit m n \<or> (n < 32 - k \<and> 32 - k - i \<le> n)"
proof (induction i arbitrary: k m tmp)
  case (Suc i)
  have "bit (cidr_mask i (drop_bit 1 tmp) (m OR tmp)) n \<longleftrightarrow>
      bit (m OR tmp) n \<or> (n < 32 - Suc k \<and> 32 - Suc k - i \<le> n)"
    using Suc.prems by (intro Suc.IH shifted_top_simps(2)) simp_all
  moreover have "bit tmp n \<longleftrightarrow> n + k = 31" using Suc.prems(1) by (simp only: shifted_top_def)
  ultimately show ?case using Suc.prems(2) by (auto simp: bit_or_iff)
qed auto

text \<open>The first bits of a mask are counted up to the first zero.\<close>

lemma mask2bits_loop_count:
  assumes "\<And>n. n < 32 \<Longrightarrow> bit m n \<longleftrightarrow> 32 - e \<le> n" "e \<le> 32"
  shows "shifted_top tmp k \<Longrightarrow> i + k = 32 \<Longrightarrow> k \<le> e \<Longrightarrow> mask2bits_loop i tmp m rv = rv + word_of_nat (e - k)"
proof (induction i arbitrary: k tmp rv)
  case 0
  with assms(2) show ?case by simp
next
  case (Suc i)
  have t: "tmp AND m = 0 \<longleftrightarrow> k = e"
    using Suc.prems assms(1) [of "31 - k"] assms(2) by (subst shifted_top_and [of _ k]) auto
  show ?case
  proof (cases "k = e")
    case True
    with t show ?thesis by simp
  next
    case False
    then obtain d where d: "e = Suc (k + d)" using Suc.prems less_imp_Suc_add [of k e] by auto
    have "mask2bits_loop i (drop_bit 1 tmp) m (rv + 1) = rv + 1 + word_of_nat (e - Suc k)"
      using Suc.prems False by (intro Suc.IH shifted_top_simps(2)) simp_all
    with t False show ?thesis by (simp add: d)
  qed
qed

text \<open>
  Addresses in CIDR notation are read back: for every address and every prefix length up to 32, \<open>atocidr\<close> on the
  printed address, a slash and the length gives the address and the mask whose leading bits, as many as the length,
  are set; \<open>mask2bits\<close> counts them back, and \<open>atoip\<close> reads the printed address alone.
\<close>

theorem atocidr_roundtrip:
  assumes "e \<le> 32"
  shows "\<exists>m. atocidr (print_ip a @ ''/'' @ fmt_u e) = Some (a, m) \<and> (\<forall>n. bit m n \<longleftrightarrow> 32 - e \<le> n \<and> n < 32) \<and>
    mask2bits m = word_of_nat e \<and> atoip (print_ip a) = Some a"
proof -
  let ?m = "cidr_mask e 0x80000000 0"
  have b: "bit ?m n \<longleftrightarrow> 32 - e \<le> n \<and> n < 32" for n
    using bit_cidr_mask [OF shifted_top_simps(1), of e 0 n] assms by auto
  have "mask2bits ?m = word_of_nat e"
    using mask2bits_loop_count [of ?m e, OF _ assms shifted_top_simps(1), of 32 0] b by (simp add: mask2bits_def)
  moreover have "10 \<le> digit_value (CHR ''/'')" by (simp add: digit_value_def)
  moreover have "scan_u (fmt_u e) = Some (word_of_nat e, [])" using scan_u_fmt_u [of e "[]"] assms by simp
  moreover have "unat (word_of_nat e :: u32) = e" "\<not> (32 :: u32) < word_of_nat e"
    using assms by (simp_all add: word_less_nat_alt unsigned_of_nat take_bit_nat_eq_self)
  ultimately show ?thesis
    using b scan_ip_print [of "''/'' @ fmt_u e" a] scan_ip_print [of "[]" a] ip_of_bytes [of a]
    by (auto simp: atocidr_def atoip_def ip_byte_bounds(3))
qed

theorem atocidr_roundtrip_witness:
  "\<exists>m. atocidr (print_ip 0xC0A80100 @ ''/'' @ fmt_u 24) = Some (0xC0A80100, m) \<and> mask2bits m = 24"
  using atocidr_roundtrip [of 24 "0xC0A80100"] by auto

lemma scan_mac_print: "length ms = n \<Longrightarrow> 0 < n \<Longrightarrow> scan_mac n (print_mac ms) = Some (map ucast ms)"
proof (induction ms arbitrary: n rule: print_mac.induct)
  case (2 m)
  then have "n = Suc 0" by simp
  have "unat m < 256" using unsigned_less [of m, where ?'a = nat] by simp
  from scan_hex_byte [OF this, of "[]"] show ?case by (simp add: \<open>n = Suc 0\<close>)
next
  case (3 m m' ms)
  have "unat m < 256" using unsigned_less [of m, where ?'a = nat] by simp
  from scan_hex_byte [OF this, of "CHR '':'' # print_mac (m' # ms)"] "3.IH" [of "Suc (length ms)"] "3.prems"
  show ?case by (auto simp del: scan_mac.simps(2) simp: scan_mac.simps(2) [of "Suc (length ms)"])
qed simp

text \<open>Every MAC address that is printed is read back by \<open>atomac\<close>, and it is configured unless it is zero.\<close>

theorem atomac_roundtrip:
  assumes "length mac = 6"
  shows "atomac (print_mac mac) = Some mac \<and> (mac_not_zero mac \<longleftrightarrow> mac \<noteq> replicate 6 0)"
proof -
  have "\<not> (0xff :: u32) < ucast (m :: u8)" for m
    using unsigned_less [of m, where ?'a = nat] by (simp add: word_less_nat_alt unsigned_ucast_eq take_bit_nat_eq_self)
  moreover have "map (\<lambda>m. ucast (ucast m :: u32)) mac = (mac :: u8 list)"
    by (rule map_idI) (simp add: unsigned_ucast_eq take_bit_word_eq_self)
  moreover have "mac = replicate 6 0 \<longleftrightarrow> (\<forall>m \<in> set mac. m = 0)"
    using assms by (metis replicate_length_same in_set_replicate)
  ultimately show ?thesis
    using scan_mac_print [of mac 6] assms
    by (auto simp: atomac_def mac_not_zero_def list_ex_iff o_def)
qed

theorem atomac_roundtrip_witness: "atomac (print_mac [2, 0, 0x5E, 0x10, 0xFF, 1]) = Some [2, 0, 0x5E, 0x10, 0xFF, 1]"
  using atomac_roundtrip [of "[2, 0, 0x5E, 0x10, 0xFF, 1]"] by simp

text \<open>
  An address that \<open>in_netrange\<close> accepts for an interface with a prefix of \<open>e\<close> bits agrees with the address of the
  interface on the prefix, and its other bits are neither all zero (the network) nor all one (the broadcast address);
  with a prefix of 31 or 32 bits no address is accepted.
\<close>

theorem in_netrange_host:
  assumes "\<forall>n. bit m n \<longleftrightarrow> 32 - e \<le> n \<and> n < 32" "e \<le> 32"
  shows "in_netrange ip ifip m = None \<longleftrightarrow>
    (\<forall>n. 32 - e \<le> n \<and> n < 32 \<longrightarrow> bit ip n = bit ifip n) \<and> (\<exists>n < 32 - e. bit ip n) \<and> (\<exists>n < 32 - e. \<not> bit ip n)"
proof -
  have b: "bit m n \<longleftrightarrow> 32 - e \<le> n \<and> n < 32" for n using assms(1) by blast
  have w: "v = u \<longleftrightarrow> (\<forall>n < 32. bit v n = bit u n)" for u v :: u32
    by (auto intro!: bit_word_eqI)
  have "ip AND m = ifip AND m \<longleftrightarrow> (\<forall>n. 32 - e \<le> n \<and> n < 32 \<longrightarrow> bit ip n = bit ifip n)"
    unfolding w bit_and_iff b by blast
  moreover have "ip AND m = ip \<longleftrightarrow> (\<forall>n < 32 - e. \<not> bit ip n)"
    unfolding w bit_and_iff b using assms(2) by (meson diff_le_self leD le_less_trans less_le_trans not_le)
  moreover have "ip OR NOT m = ip \<longleftrightarrow> (\<forall>n < 32 - e. bit ip n)"
    unfolding w bit_or_iff bit_not_iff b using assms(2)
    by (auto, metis diff_le_self leD less_le_trans)
  ultimately show ?thesis by (auto simp: in_netrange_def)
qed

text \<open>
  \<open>atoip\<close> is lenient: text after the address is ignored, and a number that does not fit the variable is taken modulo
  \<open>2 ^ 32\<close>.
\<close>

lemma atoip_lenient: "atoip ''4294967297.2.3.4abc'' = Some 0x01020304"
  by (simp add: atoip_def scan_ip_def scan_u_def scan_int_def scan_sign_def c_isspace_def scan_digits_def
      digit_value_def scan_lit_def strtoul_value_def)

end
