(* ===== verification/Radix.thy ===== *)
theory Radix
  imports Net_Common
begin

text \<open>
  \<open>fnettrace/radix.c\<close>: the binary tree that maps network prefixes to names, with its counter of nodes. A
  pointer to a node is the path to it from the root, and the pool that \<open>rmalloc\<close> hands out zeroed nodes from
  is the constructor \<open>new_node\<close>.

  The abstract view of a tree is the name at each path. \<open>radix_add\<close> enters a name at one path, the search
  returns the longest prefix of an address that has a name, and \<open>radix_squash\<close> keeps the answer of every
  search.
\<close>

datatype rnode = Null | RNode (rzero: rnode) (rone: rnode) (rname: "string option") (rpkts: u32)
  where
    "rzero Null = Null"
  | "rone Null = Null"
  | "rname Null = None"
  | "rpkts Null = 0"

record radix =
  rx_head :: rnode
  rx_nodes :: int

definition new_node :: "string option \<Rightarrow> rnode" where
  "new_node name = RNode Null Null name 0"

text \<open>The child that \<open>addOne\<close> and \<open>addZero\<close> return: the one there is, or a new one.\<close>

definition addOne :: "rnode \<Rightarrow> string option \<Rightarrow> rnode" where
  "addOne ptr name = (if rone ptr \<noteq> Null then rone ptr else new_node name)"

definition addZero :: "rnode \<Rightarrow> string option \<Rightarrow> rnode" where
  "addZero ptr name = (if rzero ptr \<noteq> Null then rzero ptr else new_node name)"

definition set_one :: "rnode \<Rightarrow> rnode \<Rightarrow> rnode" where
  "set_one ptr c = RNode (rzero ptr) c (rname ptr) (rpkts ptr)"

definition set_zero :: "rnode \<Rightarrow> rnode \<Rightarrow> rnode" where
  "set_zero ptr c = RNode c (rone ptr) (rname ptr) (rpkts ptr)"

definition set_name :: "rnode \<Rightarrow> string option \<Rightarrow> rnode" where
  "set_name ptr name =
     (if name \<noteq> None \<and> rname ptr = None then RNode (rzero ptr) (rone ptr) name (rpkts ptr) else ptr)"

text \<open>
  The loop of \<open>radix_add\<close> with \<open>k\<close> rounds left: the subtree below \<open>ptr\<close> afterwards, and the path from \<open>ptr\<close>
  to the node that is returned.
\<close>

fun add_loop :: "nat \<Rightarrow> u32 \<Rightarrow> u32 \<Rightarrow> u32 \<Rightarrow> u32 \<Rightarrow> string option \<Rightarrow> rnode \<Rightarrow> rnode \<times> bool list" where
  "add_loop 0 m lastm ip msk name ptr = (set_name ptr name, [])"
| "add_loop (Suc k) m lastm ip msk name ptr =
     (if m AND msk = 0 then (set_name ptr name, [])
      else
        let lastm = lastm OR m;
            valid = (lastm = msk);
            nm = (if valid then name else None)
        in if m AND ip \<noteq> 0
           then (case add_loop k (drop_bit 1 m) lastm ip msk name (addOne ptr nm) of
                   (c, p) \<Rightarrow> (set_one ptr c, True # p))
           else (case add_loop k (drop_bit 1 m) lastm ip msk name (addZero ptr nm) of
                   (c, p) \<Rightarrow> (set_zero ptr c, False # p)))"

definition radix_add :: "u32 \<Rightarrow> u32 \<Rightarrow> string option \<Rightarrow> radix \<Rightarrow> radix \<times> bool list" where
  "radix_add ip msk name r =
     (let h = (if rx_head r = Null then new_node None else rx_head r) in
      case add_loop 32 0x80000000 0 ip msk name h of
        (h', p) \<Rightarrow> (r\<lparr>rx_head := h', rx_nodes := rx_nodes r + 1\<rparr>, p))"

text \<open>The loop of the search: \<open>path\<close> leads to \<open>ptr\<close>, \<open>rv\<close> to the last node with a name.\<close>

fun lpm_loop :: "nat \<Rightarrow> u32 \<Rightarrow> u32 \<Rightarrow> rnode \<Rightarrow> bool list \<Rightarrow> bool list option \<Rightarrow> bool list option" where
  "lpm_loop 0 m ip ptr path rv = rv"
| "lpm_loop (Suc k) m ip ptr path rv =
     (let b = (m AND ip \<noteq> 0);
          ptr = (if b then rone ptr else rzero ptr);
          path = path @ [b]
      in if ptr = Null then rv
         else lpm_loop k (drop_bit 1 m) ip ptr path (if rname ptr \<noteq> None then Some path else rv))"

definition radix_longest_prefix_match :: "u32 \<Rightarrow> radix \<Rightarrow> bool list option" where
  "radix_longest_prefix_match ip r =
     (if rx_head r = Null then None else lpm_loop 32 0x80000000 ip (rx_head r) [] None)"

subsection \<open>Squashing, clearing and printing\<close>

text \<open>\<open>strnullcmp(a, b) == 0\<close>\<close>

definition same_name :: "string option \<Rightarrow> string option \<Rightarrow> bool" where
  "same_name a b \<longleftrightarrow> a \<noteq> None \<and> b \<noteq> None \<and> a = b"

definition no_children :: "rnode \<Rightarrow> bool" where
  "no_children n \<longleftrightarrow> rzero n = Null \<and> rone n = Null"

text \<open>The subtree and the number of nodes it has lost; the static \<open>sum\<close> is not used by the result.\<close>

fun squash :: "rnode \<Rightarrow> rnode \<times> int" where
  "squash Null = (Null, 0)"
| "squash (RNode z one n p) =
     (if n = None \<and> z \<noteq> Null \<and> one \<noteq> Null \<and> same_name (rname z) (rname one) \<and>
         no_children z \<and> no_children one
      then (RNode Null Null (rname one) p, 1)
      else if z = Null \<and> one = Null then (RNode z one n p, 0)
      else (case squash z of (z', i) \<Rightarrow> case squash one of (o', j) \<Rightarrow> (RNode z' o' n p, i + j)))"

definition radix_squash :: "radix \<Rightarrow> radix" where
  "radix_squash r =
     (case rx_head r of
        Null \<Rightarrow> r
      | RNode z one n p \<Rightarrow>
          (case squash z of (z', i) \<Rightarrow> case squash one of (o', j) \<Rightarrow>
             r\<lparr>rx_head := RNode z' o' n p, rx_nodes := rx_nodes r - i - j\<rparr>))"

fun clear_data :: "rnode \<Rightarrow> rnode" where
  "clear_data Null = Null"
| "clear_data (RNode z one n p) = RNode (clear_data z) (clear_data one) n 0"

definition radix_clear_data :: "radix \<Rightarrow> radix" where
  "radix_clear_data r =
     (case rx_head r of
        Null \<Rightarrow> r
      | RNode z one n p \<Rightarrow> r\<lparr>rx_head := RNode (clear_data z) (clear_data one) n p\<rparr>)"

text \<open>\<open>print\<close> with the static variable \<open>sum\<close> passed through: the text and the new \<open>sum\<close>.\<close>

definition print_node :: "rnode \<Rightarrow> nat \<Rightarrow> bool \<Rightarrow> u32 \<Rightarrow> string" where
  "print_node ptr level with_pkts sm =
     (let pre = print_ip (push_bit (32 - level) sm) @ ''/'' @ fmt_d (int level) @ '' '' in
      case rname ptr of
        None \<Rightarrow> []
      | Some n \<Rightarrow>
          if with_pkts then
            (if rpkts ptr \<noteq> 0
             then ''   '' @ pre @ n @ '' ('' @ fmt_u (unat (rpkts ptr)) @ '')'' @ [CHR 0x0A] else [])
          else pre @ n @ [CHR 0x0A])"

fun print_tree :: "rnode \<Rightarrow> nat \<Rightarrow> bool \<Rightarrow> u32 \<Rightarrow> string \<times> u32" where
  "print_tree Null level with_pkts sm = ([], sm)"
| "print_tree (RNode z one n p) level with_pkts sm =
     (let here = print_node (RNode z one n p) level with_pkts sm in
      if z = Null \<and> one = Null then (here, sm)
      else
        (case print_tree z (level + 1) with_pkts (push_bit 1 sm) of (t1, s1) \<Rightarrow>
         case print_tree one (level + 1) with_pkts (s1 + 1) of (t2, s2) \<Rightarrow>
           (here @ t1 @ t2, drop_bit 1 (s2 - 1))))"

definition radix_print :: "bool \<Rightarrow> radix \<Rightarrow> string result" where
  "radix_print with_pkts r =
     (case rx_head r of
        Null \<Rightarrow> Inr []
      | RNode z one n p \<Rightarrow>
          (case print_tree z 1 with_pkts 0 of (t1, s1) \<Rightarrow>
             if s1 \<noteq> 0 then Inl AssertFailure
             else (case print_tree one 1 with_pkts 1 of (t2, s2) \<Rightarrow>
                     if s2 \<noteq> 1 then Inl AssertFailure else Inr (t1 @ t2))))"

subsection \<open>The abstract view\<close>

fun node_at :: "rnode \<Rightarrow> bool list \<Rightarrow> rnode" where
  "node_at t [] = t"
| "node_at t (b # p) = node_at (if b then rone t else rzero t) p"

definition name_at :: "rnode \<Rightarrow> bool list \<Rightarrow> string option" where
  "name_at t p = rname (node_at t p)"

text \<open>The lowest \<open>k\<close> bits of an address, highest first, and the number of leading ones of a mask there.\<close>

fun bits :: "nat \<Rightarrow> u32 \<Rightarrow> bool list" where
  "bits 0 w = []"
| "bits (Suc k) w = bit w k # bits k w"

fun leading :: "nat \<Rightarrow> u32 \<Rightarrow> nat" where
  "leading 0 w = 0"
| "leading (Suc k) w = (if bit w k then Suc (leading k w) else 0)"

lemma node_at_Null [simp]: "node_at Null p = Null"
  by (induction p) simp_all

lemma name_at_simps [simp]:
  "name_at Null p = None"
  "name_at t [] = rname t"
  "name_at t (True # p) = name_at (rone t) p"
  "name_at t (False # p) = name_at (rzero t) p"
  by (simp_all add: name_at_def)

lemma name_at_Cons: "name_at t (b # p) = name_at (if b then rone t else rzero t) p"
  by (simp add: name_at_def)

lemma length_bits [simp]: "length (bits k w) = k"
  by (induction k) simp_all

lemma leading_le: "leading k w \<le> k"
  by (induction k) auto

lemma name_at_new: "name_at (new_node nm) q = (if q = [] then nm else None)"
  by (cases q) (simp_all add: new_node_def name_at_Cons)

lemma name_at_set_name:
  "name_at (set_name t nm) q = (if q = [] \<and> rname t = None then nm else name_at t q)" if "t \<noteq> Null"
  using that by (cases q) (auto simp: set_name_def name_at_Cons)

subsection \<open>Adding a name\<close>

lemma and_exp_0: "(2 ^ k AND w = 0) \<longleftrightarrow> \<not> bit (w :: u32) k"
  by (simp add: and.commute [of _ w] and_exp_eq_0_iff_not_bit)

lemma drop_bit_exp: "drop_bit 1 (2 ^ Suc k :: u32) = 2 ^ k" if "Suc k < 32"
proof (rule bit_word_eqI)
  fix n assume "n < LENGTH(32)"
  then show "bit (drop_bit 1 (2 ^ Suc k :: u32)) n \<longleftrightarrow> bit (2 ^ k :: u32) n"
    using that by (auto simp: bit_drop_bit_eq bit_exp_iff simp del: power_Suc)
qed

definition step_mask :: "nat \<Rightarrow> u32" where
  "step_mask k = (case k of 0 \<Rightarrow> 0 | Suc j \<Rightarrow> 2 ^ j)"

lemma step_mask_next: "k < 32 \<Longrightarrow> drop_bit 1 (step_mask (Suc k)) = step_mask k"
  by (cases k) (simp_all add: step_mask_def drop_bit_exp [unfolded One_nat_def] del: power_Suc)

lemma leading_masked:
  assumes "msk = lastm OR 2 ^ k" "\<forall>j \<le> k. \<not> bit lastm j"
  shows "leading k msk = 0"
  using assms by (cases k) (auto simp: bit_or_iff bit_exp_iff simp del: power_Suc)

lemma rname_set_name: "rname (set_name t nm) = (if rname t = None then nm else rname t)"
  by (auto simp: set_name_def)

lemma set_name_not_Null: "ptr \<noteq> Null \<Longrightarrow> set_name ptr name \<noteq> Null"
  by (simp add: set_name_def)

lemma child_names:
  assumes "c0 = (if t \<noteq> Null then t else new_node nm)" "nm = None \<or> (nm = name \<and> p = [])"
    and "\<And>q. name_at c q = (if q = p \<and> name_at c0 q = None then name else name_at c0 q)"
  shows "name_at c q = (if q = p \<and> name_at t q = None then name else name_at t q)"
  using assms by (auto simp: name_at_new)

lemma add_loop_names:
  "k \<le> 32 \<Longrightarrow> ptr \<noteq> Null \<Longrightarrow> \<forall>j < k. \<not> bit lastm j \<Longrightarrow>
   add_loop k (step_mask k) lastm ip msk name ptr = (t, p) \<Longrightarrow>
   t \<noteq> Null \<and> p = take (leading k msk) (bits k ip) \<and>
   (\<forall>q. name_at t q = (if q = p \<and> name_at ptr q = None then name else name_at ptr q))"
proof (induction k arbitrary: ptr lastm t p)
  case 0
  then show ?case by (auto simp: name_at_set_name rname_set_name set_name_not_Null)
next
  case (Suc k)
  have m: "step_mask (Suc k) = 2 ^ k" by (simp add: step_mask_def)
  have d: "drop_bit (Suc 0) (2 ^ k :: u32) = step_mask k" using step_mask_next [of k] Suc.prems(1) m by simp
  show ?case
  proof (cases "bit msk k")
    case False
    then show ?thesis using Suc.prems by (auto simp: m and_exp_0 name_at_set_name rname_set_name set_name_not_Null)
  next
    case True
    define l2 where "l2 = lastm OR 2 ^ k"
    define nm where "nm = (if l2 = msk then name else None)"
    define child where "child = (if bit ip k then rone ptr else rzero ptr)"
    define c0 where "c0 = (if child \<noteq> Null then child else new_node nm)"
    obtain c p' where cp: "add_loop k (step_mask k) l2 ip msk name c0 = (c, p')"
      by (cases "add_loop k (step_mask k) l2 ip msk name c0")
    have l2: "\<forall>j < k. \<not> bit l2 j"
      using Suc.prems(3) by (auto simp: l2_def bit_or_iff bit_exp_iff)
    have c0: "c0 \<noteq> Null" by (simp add: c0_def new_node_def)
    from Suc.IH [OF _ c0 l2 cp] Suc.prems(1) have ih: "c \<noteq> Null" "p' = take (leading k msk) (bits k ip)"
      "\<And>q. name_at c q = (if q = p' \<and> name_at c0 q = None then name else name_at c0 q)" by auto
    have nm: "nm = None \<or> (nm = name \<and> p' = [])"
      using leading_masked [of msk lastm k] Suc.prems(3) ih(2) by (auto simp: nm_def l2_def)
    note names = child_names [OF c0_def nm ih(3)]
    have tp: "t = (if bit ip k then set_one ptr c else set_zero ptr c)" "p = bit ip k # p'"
      using Suc.prems(4) True cp
      by (auto simp: m and_exp_0 d Let_def l2_def nm_def child_def c0_def addOne_def addZero_def split: if_splits)
    have "name_at t q = (if q = p \<and> name_at ptr q = None then name else name_at ptr q)" for q
      by (cases q) (auto simp: tp set_one_def set_zero_def name_at_Cons names child_def)
    moreover have "t \<noteq> Null" by (simp add: tp set_one_def set_zero_def)
    moreover have "p = take (leading (Suc k) msk) (bits (Suc k) ip)" using True ih(2) tp(2) by simp
    ultimately show ?thesis by blast
  qed
qed

abbreviation names_of :: "radix \<Rightarrow> bool list \<Rightarrow> string option" where
  "names_of r \<equiv> name_at (rx_head r)"

definition prefix_of :: "u32 \<Rightarrow> u32 \<Rightarrow> bool list" where
  "prefix_of ip msk = take (leading 32 msk) (bits 32 ip)"

lemma step_mask_32: "step_mask 32 = 0x80000000"
  by (simp add: step_mask_def)

lemma radix_add_names:
  assumes "radix_add ip msk name r = (r', p)"
  shows "p = prefix_of ip msk" "rx_head r' \<noteq> Null" "rx_nodes r' = rx_nodes r + 1"
    "names_of r' q = (if q = prefix_of ip msk \<and> names_of r q = None then name else names_of r q)"
proof -
  let ?h = "if rx_head r = Null then new_node None else rx_head r"
  obtain h' where a: "add_loop 32 (step_mask 32) 0 ip msk name ?h = (h', p)" "r' = r\<lparr>rx_head := h', rx_nodes := rx_nodes r + 1\<rparr>"
    using assms by (auto simp: radix_add_def Let_def step_mask_32 split: prod.splits)
  have h: "?h \<noteq> Null" by (simp add: new_node_def)
  have n: "name_at ?h q = names_of r q" for q by (simp add: name_at_new)
  have "h' \<noteq> Null \<and> p = prefix_of ip msk \<and>
      (\<forall>q. name_at h' q = (if q = p \<and> names_of r q = None then name else names_of r q))"
    using add_loop_names [OF order_refl h _ a(1)] unfolding n prefix_of_def by simp
  with a(2) show "p = prefix_of ip msk" "rx_head r' \<noteq> Null" "rx_nodes r' = rx_nodes r + 1"
    "names_of r' q = (if q = prefix_of ip msk \<and> names_of r q = None then name else names_of r q)"
    by simp_all
qed

subsection \<open>Searching\<close>

text \<open>The longest prefix with a name, among the prefixes of one to 32 bits.\<close>

definition lpm_spec :: "(bool list \<Rightarrow> string option) \<Rightarrow> u32 \<Rightarrow> bool list option" where
  "lpm_spec names ip =
     (case filter (\<lambda>n. names (take n (bits 32 ip)) \<noteq> None) (rev [1..<33]) of
        [] \<Rightarrow> None
      | n # _ \<Rightarrow> Some (take n (bits 32 ip)))"


lemma lpm_loop_spec:
  "k \<le> 32 \<Longrightarrow>
   lpm_loop k (step_mask k) ip ptr path rv =
     (case filter (\<lambda>n. name_at ptr (take n (bits k ip)) \<noteq> None) (rev [1..<Suc k]) of
        [] \<Rightarrow> rv | n # _ \<Rightarrow> Some (path @ take n (bits k ip)))"
proof (induction k arbitrary: ptr path rv)
  case (Suc k)
  have m: "step_mask (Suc k) = 2 ^ k" by (simp add: step_mask_def)
  have d: "drop_bit (Suc 0) (2 ^ k :: u32) = step_mask k" using step_mask_next [of k] Suc.prems m by simp
  define c where "c = (if bit ip k then rone ptr else rzero ptr)"
  have r: "rev [1..<Suc (Suc k)] = map Suc (rev [1..<Suc k]) @ [1]"
    by (simp add: rev_map [symmetric] map_Suc_upt upt_conv_Cons del: upt_Suc)
  have f: "filter (\<lambda>n. name_at ptr (take n (bits (Suc k) ip)) \<noteq> None) (rev [1..<Suc (Suc k)]) =
      map Suc (filter (\<lambda>n. name_at c (take n (bits k ip)) \<noteq> None) (rev [1..<Suc k])) @
      (if rname c \<noteq> None then [1] else [])"
    unfolding r by (auto simp: filter_map o_def name_at_Cons c_def simp del: upt_Suc)
  have l: "lpm_loop (Suc k) (step_mask (Suc k)) ip ptr path rv =
      (if c = Null then rv
       else lpm_loop k (step_mask k) ip c (path @ [bit ip k]) (if rname c \<noteq> None then Some (path @ [bit ip k]) else rv))"
    by (simp add: m and_exp_0 d Let_def c_def)
  show ?case
  proof (cases "c = Null")
    case True
    then show ?thesis unfolding l f by simp
  next
    case False
    have "lpm_loop k (step_mask k) ip c (path @ [bit ip k]) (if rname c \<noteq> None then Some (path @ [bit ip k]) else rv) =
      (case filter (\<lambda>n. name_at c (take n (bits k ip)) \<noteq> None) (rev [1..<Suc k]) of
        [] \<Rightarrow> (if rname c \<noteq> None then Some (path @ [bit ip k]) else rv)
      | n # _ \<Rightarrow> Some ((path @ [bit ip k]) @ take n (bits k ip)))"
      using Suc.prems by (intro Suc.IH) simp
    with False show ?thesis
      unfolding l f by (cases "filter (\<lambda>n. name_at c (take n (bits k ip)) \<noteq> None) (rev [1..<Suc k])") simp_all
  qed
qed simp

lemma radix_lpm_spec: "radix_longest_prefix_match ip r = lpm_spec (names_of r) ip"
proof (cases "rx_head r = Null")
  case True
  then show ?thesis by (simp add: radix_longest_prefix_match_def lpm_spec_def)
next
  case False
  have "lpm_loop 32 (step_mask 32) ip (rx_head r) [] None = lpm_spec (names_of r) ip"
    unfolding lpm_spec_def by (subst lpm_loop_spec) (simp_all del: upt_Suc add: numeral_3_eq_3 split: list.split)
  with False show ?thesis by (simp add: radix_longest_prefix_match_def step_mask_32)
qed

text \<open>The name that a search finds.\<close>

definition found_name :: "(bool list \<Rightarrow> string option) \<Rightarrow> u32 \<Rightarrow> string option" where
  "found_name names ip = (case lpm_spec names ip of None \<Rightarrow> None | Some p \<Rightarrow> names p)"

subsection \<open>Height, and the deepest name on a path\<close>

fun height :: "rnode \<Rightarrow> nat" where
  "height Null = 0"
| "height (RNode z one n p) = Suc (max (height z) (height one))"

fun deepest :: "rnode \<Rightarrow> bool list \<Rightarrow> string option" where
  "deepest t [] = rname t"
| "deepest t (b # p) =
     (case deepest (if b then rone t else rzero t) p of Some n \<Rightarrow> Some n | None \<Rightarrow> rname t)"

lemma deepest_Null [simp]: "deepest Null p = None"
  by (induction p) simp_all

lemma first_found_deepest:
  "(case filter (\<lambda>n. name_at t (take n (bits k ip)) \<noteq> None) (rev [0..<Suc k]) of
      [] \<Rightarrow> None | n # _ \<Rightarrow> name_at t (take n (bits k ip))) = deepest t (bits k ip)"
proof (induction k arbitrary: t)
  case (Suc k)
  define c where "c = (if bit ip k then rone t else rzero t)"
  have r: "rev [0..<Suc (Suc k)] = map Suc (rev [0..<Suc k]) @ [0]"
    by (simp add: rev_map [symmetric] map_Suc_upt upt_conv_Cons del: upt_Suc)
  have f: "filter (\<lambda>n. name_at t (take n (bits (Suc k) ip)) \<noteq> None) (rev [0..<Suc (Suc k)]) =
      map Suc (filter (\<lambda>n. name_at c (take n (bits k ip)) \<noteq> None) (rev [0..<Suc k])) @
      (if rname t \<noteq> None then [0] else [])"
    unfolding r by (auto simp: filter_map o_def name_at_Cons c_def simp del: upt_Suc)
  show ?case
  proof (cases "filter (\<lambda>n. name_at c (take n (bits k ip)) \<noteq> None) (rev [0..<Suc k])")
    case Nil
    with Suc.IH [of c] have "deepest c (bits k ip) = None" by simp
    with Nil show ?thesis unfolding f by (simp add: c_def [symmetric])
  next
    case (Cons n ns)
    then have "n \<in> set (filter (\<lambda>n. name_at c (take n (bits k ip)) \<noteq> None) (rev [0..<Suc k]))" by simp
    then have "name_at c (take n (bits k ip)) \<noteq> None" by (simp del: upt_Suc)
    with Suc.IH [of c] Cons have "deepest c (bits k ip) = name_at c (take n (bits k ip))" "deepest c (bits k ip) \<noteq> None"
      by simp_all
    with Cons show ?thesis unfolding f by (auto simp: c_def [symmetric] name_at_Cons)
  qed
qed simp

lemma found_deepest:
  "found_name (name_at h) ip = deepest (if bit ip 31 then rone h else rzero h) (bits 31 ip)"
proof -
  define c where "c = (if bit ip 31 then rone h else rzero h)"
  have b: "bits 32 ip = bit ip 31 # bits 31 ip" by (simp add: numeral_eq_Suc)
  have r: "rev [1..<33] = map Suc (rev [0..<Suc 31])"
    by (simp add: rev_map [symmetric] map_Suc_upt del: upt_Suc)
  have f: "filter (\<lambda>n. name_at h (take n (bits 32 ip)) \<noteq> None) (rev [1..<33]) =
      map Suc (filter (\<lambda>n. name_at c (take n (bits 31 ip)) \<noteq> None) (rev [0..<Suc 31]))"
    unfolding r b by (simp add: filter_map o_def name_at_Cons c_def del: upt_Suc)
  show ?thesis
    unfolding c_def [symmetric] found_name_def lpm_spec_def f first_found_deepest [of c 31 ip, symmetric]
    by (simp add: b name_at_Cons c_def split: list.split del: upt_Suc)
qed

subsection \<open>Squashing keeps every answer\<close>

lemma no_children_deepest: "no_children t \<Longrightarrow> deepest t p = rname t"
  by (cases p) (simp_all add: no_children_def)

lemma height_0: "height t = 0 \<longleftrightarrow> t = Null"
  by (cases t) simp_all

lemma squash_deepest: "height t \<le> Suc (length p) \<Longrightarrow> deepest (fst (squash t)) p = deepest t p"
proof (induction t arbitrary: p rule: squash.induct)
  case (2 z one n pk)
  let ?c = "n = None \<and> z \<noteq> Null \<and> one \<noteq> Null \<and> same_name (rname z) (rname one) \<and> no_children z \<and> no_children one"
  show ?case
  proof (cases ?c)
    case True
    then have "0 < height z" using height_0 [of z] by simp
    with "2.prems" obtain b q where p: "p = b # q" by (cases p) auto
    show ?thesis using True p by (auto simp: no_children_deepest same_name_def split: option.split)
  next
    case False
    show ?thesis
    proof (cases "z = Null \<and> one = Null")
      case True
      then show ?thesis by simp
    next
      case nn: False
      have h: "height z \<le> length p" "height one \<le> length p" using "2.prems" by simp_all
      obtain z' i o' j where s: "squash z = (z', i)" "squash one = (o', j)" by (cases "squash z"; cases "squash one")
      have e: "fst (squash (RNode z one n pk)) = RNode z' o' n pk" using False nn s by auto
      show ?thesis
      proof (cases p)
        case (Cons b q)
        with h "2.IH" [OF False nn] s show ?thesis unfolding e by (auto split: option.split)
      qed (simp only: e, simp)
    qed
  qed
qed simp

lemma radix_squash_found:
  assumes "height (rx_head r) \<le> 33"
  shows "found_name (names_of (radix_squash r)) ip = found_name (names_of r) ip"
proof (cases "rx_head r")
  case Null
  then show ?thesis by (simp add: radix_squash_def)
next
  case (RNode z one n p)
  obtain z' i o' j where s: "squash z = (z', i)" "squash one = (o', j)" by (cases "squash z"; cases "squash one")
  have h: "height z \<le> Suc (length (bits 31 ip))" "height one \<le> Suc (length (bits 31 ip))"
    using assms RNode by simp_all
  from squash_deepest [OF h(1)] squash_deepest [OF h(2)] s RNode show ?thesis
    by (simp add: found_deepest radix_squash_def)
qed

subsection \<open>The height of a tree\<close>

lemma height_node: "t \<noteq> Null \<Longrightarrow> height t = Suc (max (height (rzero t)) (height (rone t)))"
  by (cases t) simp_all

lemma height_set_name: "t \<noteq> Null \<Longrightarrow> height (set_name t nm) = height t"
  by (cases t) (simp_all add: set_name_def)

lemma add_loop_height:
  "ptr \<noteq> Null \<Longrightarrow> height (fst (add_loop k m lastm ip msk name ptr)) \<le> max (height ptr) (Suc k)"
proof (induction k arbitrary: m lastm ptr)
  case 0
  then show ?case by (simp add: height_set_name)
next
  case (Suc k)
  have c: "addOne ptr nm \<noteq> Null" "addZero ptr nm \<noteq> Null" for nm
    by (simp_all add: addOne_def addZero_def new_node_def)
  have h: "height (addOne ptr nm) \<le> max (height (rone ptr)) (Suc 0)"
    "height (addZero ptr nm) \<le> max (height (rzero ptr)) (Suc 0)" for nm
    by (simp_all add: addOne_def addZero_def new_node_def)
  have p: "height (rone ptr) < height ptr" "height (rzero ptr) < height ptr"
    using height_node [OF Suc.prems] by simp_all
  have s: "height (set_one ptr c) \<le> max (height ptr) (Suc (height c))"
    "height (set_zero ptr c) \<le> max (height ptr) (Suc (height c))" for c
    using height_node [OF Suc.prems] by (simp_all add: set_one_def set_zero_def)
  have "height (set_one ptr (fst (add_loop k m' l' ip msk name (addOne ptr nm)))) \<le> max (height ptr) (Suc (Suc k))"
    "height (set_zero ptr (fst (add_loop k m' l' ip msk name (addZero ptr nm)))) \<le> max (height ptr) (Suc (Suc k))"
    for m' l' nm
    using Suc.IH [OF c(1) [of nm], of m' l'] Suc.IH [OF c(2) [of nm], of m' l'] h [of nm] p
      s [of "fst (add_loop k m' l' ip msk name (addOne ptr nm))"]
      s [of "fst (add_loop k m' l' ip msk name (addZero ptr nm))"] by linarith+
  then show ?case by (simp add: Let_def case_prod_beta height_set_name [OF Suc.prems])
qed

lemma radix_add_height:
  assumes "height (rx_head r) \<le> 33"
  shows "height (rx_head (fst (radix_add ip msk name r))) \<le> 33"
proof -
  let ?h = "if rx_head r = Null then new_node None else rx_head r"
  have h: "?h \<noteq> Null" "height ?h \<le> 33" using assms by (simp_all add: new_node_def)
  have "height (fst (add_loop 32 0x80000000 0 ip msk name ?h)) \<le> max (height ?h) (Suc 32)"
    by (rule add_loop_height [OF h(1)])
  with h(2) show ?thesis
    by (cases "add_loop 32 0x80000000 0 ip msk name ?h") (simp add: radix_add_def Let_def)
qed

lemma squash_height: "height (fst (squash t)) \<le> height t"
proof (induction t rule: squash.induct)
  case (2 z one n p)
  then show ?case by (fastforce split: prod.split)
qed simp

subsection \<open>Printing restores its static variable\<close>

lemma push_bit_nat: "push_bit 1 (word_of_nat n :: u32) = word_of_nat (2 * n)"
  by (simp add: push_bit_eq_mult)

lemma drop_bit_nat:
  assumes "2 * n < 2 ^ 32"
  shows "drop_bit 1 (word_of_nat (2 * n) :: u32) = word_of_nat n"
proof -
  have "unat (word_of_nat (2 * n) :: u32) = 2 * n"
    using assms by (simp only: unat_of_nat) simp
  moreover have "unat (word_of_nat n :: u32) = n"
    using assms by (simp only: unat_of_nat) simp
  moreover have "unat (drop_bit 1 (word_of_nat (2 * n) :: u32)) = drop_bit 1 (unat (word_of_nat (2 * n) :: u32))"
    by (rule unat_drop_bit_eq)
  ultimately show ?thesis by (simp add: word_unat_eq_iff drop_bit_eq_div del: of_nat_mult)
qed

lemma print_tree_sum:
  "height t + level \<le> 33 \<Longrightarrow> n < 2 ^ level \<Longrightarrow> snd (print_tree t level f (word_of_nat n)) = word_of_nat n"
proof (induction t arbitrary: level n)
  case (RNode z one nm p)
  show ?case
  proof (cases "z = Null \<and> one = Null")
    case False
    then have "0 < max (height z) (height one)" using height_0 by (metis gr0I max.cobounded1 max.cobounded2 le_zero_eq)
    with RNode.prems(1) have l: "level \<le> 31" by simp
    have h: "height z + Suc level \<le> 33" "height one + Suc level \<le> 33" using RNode.prems(1) by simp_all
    have n: "2 * n < 2 ^ Suc level" "2 * n + 1 < 2 ^ Suc level" using RNode.prems(2) by simp_all
    have "(2::nat) ^ Suc level \<le> 2 ^ 32" using l by (intro power_increasing) simp_all
    with n have n32: "2 * n < 2 ^ 32" by linarith
    obtain t1 where z: "print_tree z (level + 1) f (word_of_nat (2 * n)) = (t1, word_of_nat (2 * n))"
      using RNode.IH(1) [OF h(1) n(1)] by (metis Suc_eq_plus1 prod.collapse)
    obtain t2 where o: "print_tree one (level + 1) f (word_of_nat (2 * n + 1)) = (t2, word_of_nat (2 * n + 1))"
      using RNode.IH(2) [OF h(2) n(2)] by (metis Suc_eq_plus1 prod.collapse)
    have w: "(word_of_nat (2 * n) :: u32) + 1 = word_of_nat (2 * n + 1)"
      "(word_of_nat (2 * n + 1) :: u32) - 1 = word_of_nat (2 * n)" by simp_all
    show ?thesis
      by (simp only: print_tree.simps Let_def if_not_P [OF False] push_bit_nat z prod.case w o
          drop_bit_nat [OF n32] snd_conv)
  qed simp
qed simp

subsection \<open>Prefix tables as an interface\<close>

text \<open>
  What the rest of fnettrace relies on: entering a name never changes another entry or an older name, and
  a search gives the name of the longest prefix that is entered.
\<close>

locale prefix_table =
  fixes enter :: "u32 \<Rightarrow> u32 \<Rightarrow> string \<Rightarrow> 't \<Rightarrow> 't"
    and search :: "u32 \<Rightarrow> 't \<Rightarrow> string option"
    and entry :: "'t \<Rightarrow> bool list \<Rightarrow> string option"
  assumes entry_enter: "entry (enter ip msk nm t) q =
      (if q = prefix_of ip msk \<and> entry t q = None then Some nm else entry t q)"
    and search_entry: "search ip t = found_name (entry t) ip"
begin

definition load :: "(u32 \<times> u32 \<times> string) list \<Rightarrow> 't \<Rightarrow> 't" where
  "load rs t = fold (\<lambda>(ip, msk, nm). enter ip msk nm) rs t"

lemma entry_load:
  "entry (load rs t) q =
    (case entry t q of Some n \<Rightarrow> Some n
     | None \<Rightarrow> map_of (map (\<lambda>(ip, msk, nm). (prefix_of ip msk, nm)) rs) q)"
  unfolding load_def by (induction rs arbitrary: t) (auto simp: entry_enter split: option.splits)

lemma search_load:
  assumes "\<And>q. entry t q = None"
  shows "search ip (load rs t) = found_name (map_of (map (\<lambda>(ip, msk, nm). (prefix_of ip msk, nm)) rs)) ip"
proof -
  have "entry (load rs t) = map_of (map (\<lambda>(ip, msk, nm). (prefix_of ip msk, nm)) rs)"
    by (rule ext) (simp add: entry_load assms)
  then show ?thesis by (simp add: search_entry)
qed

end

definition radix_enter :: "u32 \<Rightarrow> u32 \<Rightarrow> string \<Rightarrow> radix \<Rightarrow> radix" where
  "radix_enter ip msk nm r = fst (radix_add ip msk (Some nm) r)"

definition radix_name :: "u32 \<Rightarrow> radix \<Rightarrow> string option" where
  "radix_name ip r =
     (case radix_longest_prefix_match ip r of None \<Rightarrow> None | Some p \<Rightarrow> names_of r p)"

interpretation rx: prefix_table radix_enter radix_name names_of
proof
  show "names_of (radix_enter ip msk nm r) q =
      (if q = prefix_of ip msk \<and> names_of r q = None then Some nm else names_of r q)" for ip msk nm r q
    using radix_add_names(4) [of ip msk "Some nm" r "fst (radix_add ip msk (Some nm) r)"
        "snd (radix_add ip msk (Some nm) r)" q] by (simp add: radix_enter_def)
  show "radix_name ip r = found_name (names_of r) ip" for ip r
    by (simp add: radix_name_def found_name_def radix_lpm_spec)
qed

definition empty_radix :: radix where
  "empty_radix = \<lparr>rx_head = Null, rx_nodes = 0\<rparr>"

lemma load_height: "height (rx_head r) \<le> 33 \<Longrightarrow> height (rx_head (rx.load rs r)) \<le> 33"
proof (induction rs arbitrary: r)
  case (Cons e rs)
  obtain ip msk nm where e: "e = (ip, msk, nm)" by (cases e)
  have "height (rx_head (radix_enter ip msk nm r)) \<le> 33"
    unfolding radix_enter_def by (rule radix_add_height [OF Cons.prems])
  from Cons.IH [OF this] show ?case by (simp add: rx.load_def e)
qed (simp add: rx.load_def)

text \<open>
  C24. The radix tree implements longest prefix matching: after any sequence of \<open>radix_add\<close> calls with names, on
  any masks, the search for an address returns the name of the longest prefix of it that was entered, and of
  two names for the same prefix the first one.
\<close>

theorem radix_longest_prefix:
  "radix_name ip (fold (\<lambda>(ip, msk, nm). radix_enter ip msk nm) rs empty_radix) =
   found_name (map_of (map (\<lambda>(ip, msk, nm). (prefix_of ip msk, nm)) rs)) ip"
proof -
  have "names_of empty_radix q = None" for q by (simp add: empty_radix_def)
  from rx.search_load [OF this, of ip rs] show ?thesis by (simp add: rx.load_def)
qed

text \<open>
  Squashing the tree, as often as one likes, changes no answer: the search for every address returns the
  same name as before.
\<close>

theorem radix_squash_preserves:
  "radix_name ip ((radix_squash ^^ n) (fold (\<lambda>(ip, msk, nm). radix_enter ip msk nm) rs empty_radix)) =
   radix_name ip (fold (\<lambda>(ip, msk, nm). radix_enter ip msk nm) rs empty_radix)"
proof -
  have e: "height (rx_head (rx.load rs empty_radix)) \<le> 33" by (rule load_height) (simp add: empty_radix_def)
  have h: "height (rx_head (radix_squash r)) \<le> 33" if "height (rx_head r) \<le> 33" for r
  proof (cases "rx_head r")
    case (RNode z one nm p)
    then show ?thesis
      using that squash_height [of z] squash_height [of one] by (simp add: radix_squash_def split: prod.split) auto
  qed (simp add: radix_squash_def that)
  have "height (rx_head ((radix_squash ^^ n) r)) \<le> 33 \<and> radix_name ip ((radix_squash ^^ n) r) = radix_name ip r"
    if "height (rx_head r) \<le> 33" for r
    using that by (induction n) (simp_all add: h rx.search_entry radix_squash_found)
  from this [OF e] show ?thesis by (simp add: rx.load_def)
qed

text \<open>
  Printing a tree that was built by \<open>radix_add\<close> ends with its two assertions satisfied: the static variable
  that holds the current prefix comes back to its value, because no path is longer than 32 bits.
\<close>

theorem radix_print_asserts:
  "\<exists>text. radix_print with_pkts (fold (\<lambda>(ip, msk, nm). radix_enter ip msk nm) rs empty_radix) = Inr text"
proof -
  let ?r = "rx.load rs empty_radix"
  have e: "height (rx_head ?r) \<le> 33" by (rule load_height) (simp add: empty_radix_def)
  have "\<exists>text. radix_print with_pkts ?r = Inr text"
  proof (cases "rx_head ?r")
    case (RNode z one n p)
    have "snd (print_tree z 1 with_pkts (word_of_nat 0)) = word_of_nat 0"
      "snd (print_tree one 1 with_pkts (word_of_nat 1)) = word_of_nat 1"
      using e RNode by (intro print_tree_sum; simp)+
    then show ?thesis using RNode by (simp add: radix_print_def case_prod_beta)
  qed (simp add: radix_print_def)
  then show ?thesis by (simp add: rx.load_def)
qed

lemma clear_data_names: "name_at (clear_data t) p = name_at t p"
proof (induction p arbitrary: t)
  case Nil
  then show ?case by (cases t) simp_all
next
  case (Cons b p)
  then show ?case by (cases t) (auto simp: name_at_Cons)
qed

lemma clear_data_pkts: "rpkts (node_at (clear_data t) p) = 0"
proof (induction p arbitrary: t)
  case Nil
  then show ?case by (cases t) simp_all
next
  case (Cons b p)
  then show ?case by (cases t) auto
qed

text \<open>
  Clearing the data sets the packet counter of every node below the root to zero and changes no name.
\<close>

theorem radix_clear_data_effect:
  "names_of (radix_clear_data r) p = names_of r p \<and>
   (case p of [] \<Rightarrow> True | b # q \<Rightarrow> rpkts (node_at (rx_head (radix_clear_data r)) p) = 0)"
proof (cases "rx_head r")
  case (RNode z one n pk)
  then show ?thesis
    by (cases p) (auto simp: radix_clear_data_def name_at_Cons clear_data_names clear_data_pkts)
qed (cases p, simp_all add: radix_clear_data_def)

end
