(* ===== verification/Blake2b.thy ===== *)
theory Blake2b
  imports Firejail_Prelude
begin

text \<open>
  \<open>fids/blake2b.c\<close>: the checksum of the intrusion detection tool. The context keeps an input buffer, the
  chained state, a byte counter of two 64 bit words and a position in the buffer; \<open>update\<close> feeds it byte by
  byte. The buffer of a fresh context is not initialised.

  The lemmas show that the digest is that of the message cut into blocks of 128 bytes with a 128 bit counter,
  as RFC 7693 specifies it with the compression function on a matrix of words, whatever the buffer held before.
\<close>

text \<open>Eight bytes as a word of a little-endian machine.\<close>

fun load64 :: "u8 list \<Rightarrow> u64" where
  "load64 [] = 0"
| "load64 (b # bs) = ucast b OR push_bit 8 (load64 bs)"

definition ROTR64 :: "u64 \<Rightarrow> nat \<Rightarrow> u64" where
  "ROTR64 x y = drop_bit y x XOR push_bit (64 - y) x"

definition G :: "nat \<Rightarrow> nat \<Rightarrow> nat \<Rightarrow> nat \<Rightarrow> u64 \<Rightarrow> u64 \<Rightarrow> u64 list \<Rightarrow> u64 list" where
  "G a b c d x y v =
     (let v = v[a := v ! a + v ! b + x];
          v = v[d := ROTR64 (v ! d XOR v ! a) 32];
          v = v[c := v ! c + v ! d];
          v = v[b := ROTR64 (v ! b XOR v ! c) 24];
          v = v[a := v ! a + v ! b + y];
          v = v[d := ROTR64 (v ! d XOR v ! a) 16];
          v = v[c := v ! c + v ! d];
          v = v[b := ROTR64 (v ! b XOR v ! c) 63]
      in v)"

definition iv :: "u64 list" where
  "iv = [0x6A09E667F3BCC908, 0xBB67AE8584CAA73B,
         0x3C6EF372FE94F82B, 0xA54FF53A5F1D36F1,
         0x510E527FADE682D1, 0x9B05688C2B3E6C1F,
         0x1F83D9ABFB41BD6B, 0x5BE0CD19137E2179]"

definition sigma :: "nat list list" where
  "sigma =
    [[0, 1, 2, 3, 4, 5, 6, 7, 8, 9, 10, 11, 12, 13, 14, 15],
     [14, 10, 4, 8, 9, 15, 13, 6, 1, 12, 0, 2, 11, 7, 5, 3],
     [11, 8, 12, 0, 5, 2, 15, 13, 10, 14, 3, 6, 7, 1, 9, 4],
     [7, 9, 3, 1, 13, 12, 11, 14, 2, 6, 5, 10, 4, 0, 15, 8],
     [9, 0, 5, 7, 2, 4, 10, 15, 14, 1, 11, 12, 6, 8, 3, 13],
     [2, 12, 6, 10, 0, 11, 8, 3, 4, 13, 7, 5, 15, 14, 1, 9],
     [12, 5, 1, 15, 14, 13, 4, 10, 0, 7, 6, 3, 9, 2, 8, 11],
     [13, 11, 7, 14, 12, 1, 3, 9, 5, 0, 15, 4, 8, 6, 2, 10],
     [6, 15, 14, 9, 11, 3, 0, 8, 12, 2, 13, 7, 1, 4, 10, 5],
     [10, 2, 8, 4, 7, 6, 1, 5, 15, 11, 9, 14, 3, 12, 13, 0],
     [0, 1, 2, 3, 4, 5, 6, 7, 8, 9, 10, 11, 12, 13, 14, 15],
     [14, 10, 4, 8, 9, 15, 13, 6, 1, 12, 0, 2, 11, 7, 5, 3]]"

record CTX =
  ctx_b :: "u8 list"
  ctx_h :: "u64 list"
  ctx_t0 :: u64
  ctx_t1 :: u64
  ctx_c :: nat
  ctx_outlen :: nat

definition blake_round :: "u64 list \<Rightarrow> nat list \<Rightarrow> u64 list \<Rightarrow> u64 list" where
  "blake_round m s v =
     (let v = G 0 4 8 12 (m ! (s ! 0)) (m ! (s ! 1)) v;
          v = G 1 5 9 13 (m ! (s ! 2)) (m ! (s ! 3)) v;
          v = G 2 6 10 14 (m ! (s ! 4)) (m ! (s ! 5)) v;
          v = G 3 7 11 15 (m ! (s ! 6)) (m ! (s ! 7)) v;
          v = G 0 5 10 15 (m ! (s ! 8)) (m ! (s ! 9)) v;
          v = G 1 6 11 12 (m ! (s ! 10)) (m ! (s ! 11)) v;
          v = G 2 7 8 13 (m ! (s ! 12)) (m ! (s ! 13)) v;
          v = G 3 4 9 14 (m ! (s ! 14)) (m ! (s ! 15)) v
      in v)"

definition compress :: "CTX \<Rightarrow> bool \<Rightarrow> CTX" where
  "compress ctx lst =
     (let m = map (\<lambda>i. load64 (take 8 (drop (8 * i) (ctx_b ctx)))) [0..<16];
          v = take 8 (ctx_h ctx) @ iv;
          v = v[12 := v ! 12 XOR ctx_t0 ctx];
          v = v[13 := v ! 13 XOR ctx_t1 ctx];
          v = (if lst then v[14 := NOT (v ! 14)] else v);
          v = fold (blake_round m) sigma v
      in ctx\<lparr>ctx_h := map (\<lambda>i. ctx_h ctx ! i XOR (v ! i XOR v ! (i + 8))) [0..<8]\<rparr>)"

text \<open>\<open>b\<close> is what the uninitialised buffer of the context holds.\<close>

definition init_ctx :: "u8 list \<Rightarrow> nat \<Rightarrow> CTX option" where
  "init_ctx b outlen =
     (if outlen = 0 \<or> 64 < outlen then None
      else Some \<lparr>ctx_b = b, ctx_h = iv[0 := iv ! 0 XOR (0x01010000 XOR word_of_nat outlen)],
                 ctx_t0 = 0, ctx_t1 = 0, ctx_c = 0, ctx_outlen = outlen\<rparr>)"

definition count_bytes :: "CTX \<Rightarrow> CTX" where
  "count_bytes ctx =
     (let t0 = ctx_t0 ctx + word_of_nat (ctx_c ctx) in
      ctx\<lparr>ctx_t0 := t0, ctx_t1 := (if t0 < word_of_nat (ctx_c ctx) then ctx_t1 ctx + 1 else ctx_t1 ctx)\<rparr>)"

definition update_byte :: "u8 \<Rightarrow> CTX \<Rightarrow> CTX" where
  "update_byte x ctx =
     (let ctx = (if ctx_c ctx = 128 then (compress (count_bytes ctx) False)\<lparr>ctx_c := 0\<rparr> else ctx)
      in ctx\<lparr>ctx_b := (ctx_b ctx)[ctx_c ctx := x], ctx_c := ctx_c ctx + 1\<rparr>)"

definition update :: "u8 list \<Rightarrow> CTX \<Rightarrow> CTX" where
  "update inp ctx = fold update_byte inp ctx"

function fill_zero :: "CTX \<Rightarrow> CTX" where
  "fill_zero ctx =
     (if ctx_c ctx < 128
      then fill_zero (ctx\<lparr>ctx_b := (ctx_b ctx)[ctx_c ctx := 0], ctx_c := ctx_c ctx + 1\<rparr>)
      else ctx)"
  by pat_completeness auto
termination
  by (relation "measure (\<lambda>ctx. 128 - ctx_c ctx)") auto

declare fill_zero.simps [simp del]

definition final :: "CTX \<Rightarrow> u8 list" where
  "final ctx =
     (let ctx = compress (fill_zero (count_bytes ctx)) True in
      map (\<lambda>i. ucast (drop_bit (8 * (i mod 8)) (ctx_h ctx ! (i div 8)) AND 0xFF)) [0..<ctx_outlen ctx])"

definition blake2b :: "u8 list \<Rightarrow> nat \<Rightarrow> u8 list \<Rightarrow> u8 list option" where
  "blake2b b outlen inp =
     (case init_ctx b outlen of None \<Rightarrow> None | Some ctx \<Rightarrow> Some (final (update inp ctx)))"

subsection \<open>The block specification\<close>

text \<open>
  The compression function of RFC 7693: the sixteen words are a matrix of four rows, a half round mixes the
  four columns at once, and the second half is the same on the matrix with row \<open>i\<close> rotated by \<open>i\<close>, so that its
  columns are the diagonals. The schedule is the table of ten permutations, taken modulo ten.
\<close>

definition mix :: "u64 \<Rightarrow> u64 \<Rightarrow> u64 \<Rightarrow> u64 \<Rightarrow> u64 \<Rightarrow> u64 \<Rightarrow> u64 \<times> u64 \<times> u64 \<times> u64" where
  "mix a b c d x y =
     (let a = a + b + x; d = word_rotr 32 (d XOR a); c = c + d; b = word_rotr 24 (b XOR c);
          a = a + b + y; d = word_rotr 16 (d XOR a); c = c + d; b = word_rotr 63 (b XOR c)
      in (a, b, c, d))"

type_synonym matrix = "u64 list \<times> u64 list \<times> u64 list \<times> u64 list"

definition mix_columns :: "u64 list \<Rightarrow> matrix \<Rightarrow> matrix" where
  "mix_columns w = (\<lambda>(r0, r1, r2, r3).
     let cols = map (\<lambda>i. mix (r0 ! i) (r1 ! i) (r2 ! i) (r3 ! i) (w ! (2 * i)) (w ! (2 * i + 1))) [0..<4]
     in (map fst cols, map (fst \<circ> snd) cols, map (fst \<circ> snd \<circ> snd) cols, map (snd \<circ> snd \<circ> snd) cols))"

definition skew :: "matrix \<Rightarrow> matrix" where
  "skew = (\<lambda>(r0, r1, r2, r3). (r0, rotate 1 r1, rotate 2 r2, rotate 3 r3))"

definition unskew :: "matrix \<Rightarrow> matrix" where
  "unskew = (\<lambda>(r0, r1, r2, r3). (r0, rotate 3 r1, rotate 2 r2, rotate 1 r3))"

definition round_spec :: "u64 list \<Rightarrow> nat list \<Rightarrow> matrix \<Rightarrow> matrix" where
  "round_spec m s v =
     unskew (mix_columns (map (\<lambda>i. m ! i) (drop 8 s)) (skew (mix_columns (map (\<lambda>i. m ! i) (take 8 s)) v)))"

definition rows :: "u64 list \<Rightarrow> matrix" where
  "rows v = (take 4 v, take 4 (drop 4 v), take 4 (drop 8 v), take 4 (drop 12 v))"

definition unrows :: "matrix \<Rightarrow> u64 list" where
  "unrows = (\<lambda>(r0, r1, r2, r3). r0 @ r1 @ r2 @ r3)"

text \<open>The chained state after a block, with the counter as a number of 128 bits.\<close>

definition block_step :: "u64 list \<Rightarrow> u8 list \<Rightarrow> nat \<Rightarrow> bool \<Rightarrow> u64 list" where
  "block_step h blk t lst =
     (let m = map (\<lambda>i. load64 (take 8 (drop (8 * i) blk))) [0..<16];
          v = h @ map2 (XOR) iv
                [0, 0, 0, 0, word_of_nat t, word_of_nat (t div 2 ^ 64), if lst then NOT 0 else 0, 0];
          w = unrows (fold (\<lambda>i. round_spec m (sigma ! (i mod 10))) [0..<12] (rows v))
      in map (\<lambda>i. h ! i XOR w ! i XOR w ! (i + 8)) [0..<8])"

text \<open>The message in blocks of 128 bytes; the last one, possibly empty, is padded with zeros.\<close>

function hash_blocks :: "u64 list \<Rightarrow> nat \<Rightarrow> u8 list \<Rightarrow> u64 list" where
  "hash_blocks h t msg =
     (if length msg \<le> 128
      then block_step h (msg @ replicate (128 - length msg) 0) (t + length msg) True
      else hash_blocks (block_step h (take 128 msg) (t + 128) False) (t + 128) (drop 128 msg))"
  by pat_completeness auto
termination
  by (relation "measure (\<lambda>(h, t, msg). length msg)") auto

declare hash_blocks.simps [simp del]

definition digest :: "nat \<Rightarrow> u64 list \<Rightarrow> u8 list" where
  "digest outlen h = map (\<lambda>i. ucast (drop_bit (8 * (i mod 8)) (h ! (i div 8)) AND 0xFF)) [0..<outlen]"

definition blake2b_spec :: "nat \<Rightarrow> u8 list \<Rightarrow> u8 list" where
  "blake2b_spec outlen msg =
     digest outlen (hash_blocks (iv[0 := iv ! 0 XOR (0x01010000 XOR word_of_nat outlen)]) 0 msg)"

subsection \<open>The context represents the message\<close>

lemma compress_simps [simp]:
  "ctx_b (compress ctx l) = ctx_b ctx" "ctx_t0 (compress ctx l) = ctx_t0 ctx" "ctx_t1 (compress ctx l) = ctx_t1 ctx"
  "ctx_c (compress ctx l) = ctx_c ctx" "ctx_outlen (compress ctx l) = ctx_outlen ctx"
  by (simp_all add: compress_def Let_def)

lemma ROTR64_rotr:
  assumes "0 < y" "y < 64"
  shows "ROTR64 x y = word_rotr y x"
proof (rule bit_word_eqI)
  fix n assume "n < LENGTH(64)"
  then have n: "n < 64" by simp
  show "bit (ROTR64 x y) n = bit (word_rotr y x) n"
  proof (cases "n + y < 64")
    case True
    then show ?thesis
      by (auto simp: ROTR64_def bit_word_rotr_iff bit_xor_iff bit_drop_bit_eq bit_push_bit_iff add.commute)
  next
    case False
    then have "(n + y) mod 64 = n + y - 64" "n - (64 - y) = n + y - 64" "64 - y \<le> n" "\<not> bit x (y + n)"
      using n assms by (auto simp: mod_if dest: bit_imp_le_length)
    then show ?thesis
      using n by (simp add: ROTR64_def bit_word_rotr_iff bit_xor_iff bit_drop_bit_eq bit_push_bit_iff)
  qed
qed

lemma G_mix:
  assumes "distinct [a, b, c, d]" "a < length v" "b < length v" "c < length v" "d < length v"
    and "mix (v ! a) (v ! b) (v ! c) (v ! d) x y = (a', b', c', d')"
  shows "G a b c d x y v = v[a := a', b := b', c := c', d := d']"
proof -
  have [simp]: "a \<noteq> b" "a \<noteq> c" "a \<noteq> d" "b \<noteq> c" "b \<noteq> d" "c \<noteq> d"
    "b \<noteq> a" "c \<noteq> a" "d \<noteq> a" "c \<noteq> b" "d \<noteq> b" "d \<noteq> c" using assms(1) by auto
  have [simp]: "ROTR64 w 32 = word_rotr 32 w" "ROTR64 w 24 = word_rotr 24 w" "ROTR64 w 16 = word_rotr 16 w"
    "ROTR64 w 63 = word_rotr 63 w" for w by (simp_all add: ROTR64_rotr)
  show ?thesis
    using assms(2-) by (intro nth_equalityI) (auto simp: G_def mix_def Let_def nth_list_update)
qed

lemma list16:
  assumes "length v = 16"
  obtains a b c d e f g h i j k l m n p q where "v = [a, b, c, d, e, f, g, h, i, j, k, l, m, n, p, q]"
proof -
  have "v = map ((!) v) [0..<16]" using assms map_nth[of v] by simp
  also have "[0..<16] = [0, 1, 2, 3, 4, 5, 6, 7, 8, 9, 10, 11, 12, 13, 14, 15]" by (simp add: upt_rec)
  finally show ?thesis using that by simp
qed

lemma four: "[0..<4] = [0, 1, 2, 3 :: nat]"
  by (simp add: upt_rec)

lemma mix_columns_four:
  assumes "mix a0 b0 c0 d0 (w ! 0) (w ! 1) = (a0', b0', c0', d0')" "mix a1 b1 c1 d1 (w ! 2) (w ! 3) = (a1', b1', c1', d1')"
    "mix a2 b2 c2 d2 (w ! 4) (w ! 5) = (a2', b2', c2', d2')" "mix a3 b3 c3 d3 (w ! 6) (w ! 7) = (a3', b3', c3', d3')"
  shows "mix_columns w ([a0, a1, a2, a3], [b0, b1, b2, b3], [c0, c1, c2, c3], [d0, d1, d2, d3]) =
    ([a0', a1', a2', a3'], [b0', b1', b2', b3'], [c0', c1', c2', c3'], [d0', d1', d2', d3'])"
  using assms by (simp add: mix_columns_def four Let_def)

lemma G_columns:
  assumes "mix a0 b0 c0 d0 x0 y0 = (a0', b0', c0', d0')" "mix a1 b1 c1 d1 x1 y1 = (a1', b1', c1', d1')"
    "mix a2 b2 c2 d2 x2 y2 = (a2', b2', c2', d2')" "mix a3 b3 c3 d3 x3 y3 = (a3', b3', c3', d3')"
  shows "G 3 7 11 15 x3 y3 (G 2 6 10 14 x2 y2 (G 1 5 9 13 x1 y1 (G 0 4 8 12 x0 y0
      [a0, a1, a2, a3, b0, b1, b2, b3, c0, c1, c2, c3, d0, d1, d2, d3]))) =
    [a0', a1', a2', a3', b0', b1', b2', b3', c0', c1', c2', c3', d0', d1', d2', d3']"
  using assms by (simp add: G_mix)

lemma G_diagonals:
  assumes "mix a0 b1 c2 d3 x0 y0 = (a0', b1', c2', d3')" "mix a1 b2 c3 d0 x1 y1 = (a1', b2', c3', d0')"
    "mix a2 b3 c0 d1 x2 y2 = (a2', b3', c0', d1')" "mix a3 b0 c1 d2 x3 y3 = (a3', b0', c1', d2')"
  shows "G 3 4 9 14 x3 y3 (G 2 7 8 13 x2 y2 (G 1 6 11 12 x1 y1 (G 0 5 10 15 x0 y0
      [a0, a1, a2, a3, b0, b1, b2, b3, c0, c1, c2, c3, d0, d1, d2, d3]))) =
    [a0', a1', a2', a3', b0', b1', b2', b3', c0', c1', c2', c3', d0', d1', d2', d3']"
  using assms by (simp add: G_mix)

lemma mix_obtain:
  obtains a' b' c' d' where "mix a b c d x y = (a', b', c', d')"
  by (cases "mix a b c d x y")

lemma blake_round_spec:
  assumes "length v = 16" "length s = 16"
  shows "blake_round m s v = unrows (round_spec m s (rows v))"
proof -
  obtain a0 a1 a2 a3 b0 b1 b2 b3 c0 c1 c2 c3 d0 d1 d2 d3
    where v: "v = [a0, a1, a2, a3, b0, b1, b2, b3, c0, c1, c2, c3, d0, d1, d2, d3]"
    using assms(1) by (rule list16)
  have nth: "map ((!) m) (take 8 s) ! i = m ! (s ! i)" "map ((!) m) (drop 8 s) ! i = m ! (s ! (8 + i))" if "i < 8" for i
    using that assms(2) by simp_all
  let ?w = "\<lambda>i. m ! (s ! i)"
  obtain e0 f0 g0 h0 where m0: "mix a0 b0 c0 d0 (?w 0) (?w 1) = (e0, f0, g0, h0)" by (rule mix_obtain)
  obtain e1 f1 g1 h1 where m1: "mix a1 b1 c1 d1 (?w 2) (?w 3) = (e1, f1, g1, h1)" by (rule mix_obtain)
  obtain e2 f2 g2 h2 where m2: "mix a2 b2 c2 d2 (?w 4) (?w 5) = (e2, f2, g2, h2)" by (rule mix_obtain)
  obtain e3 f3 g3 h3 where m3: "mix a3 b3 c3 d3 (?w 6) (?w 7) = (e3, f3, g3, h3)" by (rule mix_obtain)
  obtain i0 j1 k2 l3 where n0: "mix e0 f1 g2 h3 (?w 8) (?w 9) = (i0, j1, k2, l3)" by (rule mix_obtain)
  obtain i1 j2 k3 l0 where n1: "mix e1 f2 g3 h0 (?w 10) (?w 11) = (i1, j2, k3, l0)" by (rule mix_obtain)
  obtain i2 j3 k0 l1 where n2: "mix e2 f3 g0 h1 (?w 12) (?w 13) = (i2, j3, k0, l1)" by (rule mix_obtain)
  obtain i3 j0 k1 l2 where n3: "mix e3 f0 g1 h2 (?w 14) (?w 15) = (i3, j0, k1, l2)" by (rule mix_obtain)
  have code: "blake_round m s v = [i0, i1, i2, i3, j0, j1, j2, j3, k0, k1, k2, k3, l0, l1, l2, l3]"
    unfolding blake_round_def Let_def v G_columns[OF m0 m1 m2 m3] by (rule G_diagonals[OF n0 n1 n2 n3])
  have "mix_columns (map ((!) m) (take 8 s)) (rows v) = ([e0, e1, e2, e3], [f0, f1, f2, f3], [g0, g1, g2, g3], [h0, h1, h2, h3])"
    unfolding v by (simp add: rows_def) (rule mix_columns_four; simp add: nth m0[simplified] m1 m2 m3)
  moreover have "mix_columns (map ((!) m) (drop 8 s)) ([e0, e1, e2, e3], [f1, f2, f3, f0], [g2, g3, g0, g1], [h3, h0, h1, h2]) =
      ([i0, i1, i2, i3], [j1, j2, j3, j0], [k2, k3, k0, k1], [l3, l0, l1, l2])"
    by (rule mix_columns_four; simp add: nth n0 n1 n2 n3)
  ultimately show ?thesis
    unfolding code round_spec_def
    by (simp add: skew_def unskew_def unrows_def rotate_drop_take)
qed


lemma rows_unrows: "length v = 16 \<Longrightarrow> unrows (rows v) = v"
  by (elim list16) (simp add: unrows_def rows_def)

definition four_rows :: "matrix \<Rightarrow> bool" where
  "four_rows = (\<lambda>(r0, r1, r2, r3). length r0 = 4 \<and> length r1 = 4 \<and> length r2 = 4 \<and> length r3 = 4)"

lemma unrows_rows: "four_rows x \<Longrightarrow> rows (unrows x) = x"
  by (auto simp: unrows_def rows_def four_rows_def)

lemma four_rows_rows: "length v = 16 \<Longrightarrow> four_rows (rows v)"
  by (simp add: rows_def four_rows_def)

lemma four_rows_round: "four_rows (round_spec m s x)"
  by (simp add: round_spec_def unskew_def mix_columns_def four_rows_def case_prod_beta Let_def)

lemma length_unrows: "four_rows x \<Longrightarrow> length (unrows x) = 16"
  by (auto simp: unrows_def four_rows_def)

lemma blake_rounds_spec:
  assumes "length v = 16" "\<forall>s \<in> set ss. length s = 16"
  shows "fold (blake_round m) ss v = unrows (fold (round_spec m) ss (rows v))"
  using assms
proof (induction ss arbitrary: v)
  case (Cons s ss)
  then show ?case
    by (simp add: blake_round_spec unrows_rows four_rows_round length_unrows)
qed (simp add: rows_unrows)

lemma sigma_schedule: "sigma = map (\<lambda>i. sigma ! (i mod 10)) [0..<12]"
  by (simp add: sigma_def upt_rec)

lemma sigma_lengths: "\<forall>s \<in> set sigma. length s = 16"
  by (simp add: sigma_def)

lemma compress_block_step:
  assumes "ctx_t0 ctx = word_of_nat t" "ctx_t1 ctx = word_of_nat (t div 2 ^ 64)" "length (ctx_h ctx) = 8"
  shows "ctx_h (compress ctx l) = block_step (ctx_h ctx) (ctx_b ctx) t l"
proof -
  let ?h = "ctx_h ctx"
  let ?v = "?h @ map2 (XOR) iv [0, 0, 0, 0, word_of_nat t, word_of_nat (t div 2 ^ 64), if l then NOT 0 else 0, 0]"
  let ?m = "map (\<lambda>i. load64 (take 8 (drop (8 * i) (ctx_b ctx)))) [0..<16]"
  have v: "(let v = take 8 ?h @ iv; v = v[12 := v ! 12 XOR ctx_t0 ctx]; v = v[13 := v ! 13 XOR ctx_t1 ctx]
      in if l then v[14 := NOT (v ! 14)] else v) = ?v"
    using assms by (simp add: iv_def Let_def nth_append list_update_append)
  have "length ?v = 16" using assms(3) by (simp add: iv_def)
  then have "fold (blake_round ?m) sigma ?v = unrows (fold (round_spec ?m) sigma (rows ?v))"
    by (rule blake_rounds_spec) (rule sigma_lengths)
  also have "fold (round_spec ?m) sigma (rows ?v) =
      fold (\<lambda>i. round_spec ?m (sigma ! (i mod 10))) [0..<12] (rows ?v)"
    by (subst sigma_schedule) (simp only: fold_map comp_def)
  finally show ?thesis
    using v by (simp add: compress_def block_step_def Let_def xor.assoc)
qed

subsection \<open>The context represents the message\<close>

text \<open>The context has absorbed \<open>t\<close> bytes in state \<open>h\<close>, and holds \<open>pend\<close> in its buffer.\<close>

definition ctx_rep :: "CTX \<Rightarrow> u64 list \<Rightarrow> nat \<Rightarrow> u8 list \<Rightarrow> bool" where
  "ctx_rep ctx h t pend \<longleftrightarrow>
     ctx_h ctx = h \<and> length h = 8 \<and> ctx_t0 ctx = word_of_nat t \<and> ctx_t1 ctx = word_of_nat (t div 2 ^ 64) \<and>
     length (ctx_b ctx) = 128 \<and> ctx_c ctx = length pend \<and> length pend \<le> 128 \<and>
     take (length pend) (ctx_b ctx) = pend"

lemma mod_once: "M \<le> x \<Longrightarrow> x < 2 * M \<Longrightarrow> x mod M = x - (M :: nat)"
  by (simp add: le_mod_geq)

lemma div_add_mod:
  assumes "0 < M"
  shows "(t + c) div M = t div M + (t mod M + c) div (M :: nat)"
proof -
  have "t + c = (t mod M + c) + t div M * M" using div_mult_mod_eq[of t M] by linarith
  then show ?thesis using assms by (metis div_mult_self1 add.commute less_numeral_extra(3))
qed

lemma carry_iff:
  assumes "c \<le> (128 :: nat)"
  shows "(word_of_nat (t + c) :: u64) < word_of_nat c \<longleftrightarrow> 2 ^ 64 \<le> t mod 2 ^ 64 + c"
proof -
  let ?M = "2 ^ 64 :: nat"
  have c: "unat (word_of_nat c :: u64) = c" using assms by (simp add: unat_of_nat)
  have u: "unat (word_of_nat (t + c) :: u64) = (t mod ?M + c) mod ?M" by (simp only: unat_of_nat mod_add_left_eq) simp
  have r: "t mod ?M < ?M" by simp
  moreover have "(128 :: nat) < ?M" by simp
  ultimately have r2: "t mod ?M + c < 2 * ?M" using assms by linarith
  have "(t mod ?M + c) mod ?M < c \<longleftrightarrow> ?M \<le> t mod ?M + c"
  proof (cases "t mod ?M + c < ?M")
    case False
    then have "(t mod ?M + c) mod ?M = t mod ?M + c - ?M" using r2 by (intro mod_once) linarith+
    then show ?thesis using False r by linarith
  qed simp
  then show ?thesis unfolding word_less_nat_alt c u .
qed

lemma carry_div:
  assumes "c \<le> (128 :: nat)"
  shows "(t + c) div 2 ^ 64 = t div 2 ^ 64 + (if 2 ^ 64 \<le> t mod 2 ^ 64 + c then 1 else 0)"
proof -
  let ?M = "2 ^ 64 :: nat"
  have r: "t mod ?M < ?M" by simp
  have "(t + c) div ?M = t div ?M + (t mod ?M + c) div ?M" by (rule div_add_mod) simp
  moreover have "(t mod ?M + c) div ?M = (if ?M \<le> t mod ?M + c then 1 else 0)"
    using r assms by (auto intro: div_nat_eqI)
  ultimately show ?thesis by simp
qed

lemma count_bytes_counter:
  assumes "ctx_rep ctx h t pend"
  shows "ctx_t0 (count_bytes ctx) = word_of_nat (t + length pend)"
    "ctx_t1 (count_bytes ctx) = word_of_nat ((t + length pend) div 2 ^ 64)"
proof -
  have t0: "ctx_t0 ctx + word_of_nat (ctx_c ctx) = word_of_nat (t + length pend)"
    using assms by (simp add: ctx_rep_def)
  show "ctx_t0 (count_bytes ctx) = word_of_nat (t + length pend)"
    unfolding count_bytes_def Let_def t0 by simp
  have c: "ctx_c ctx = length pend" "length pend \<le> 128" "ctx_t1 ctx = word_of_nat (t div 2 ^ 64)"
    using assms by (simp_all add: ctx_rep_def)
  show "ctx_t1 (count_bytes ctx) = word_of_nat ((t + length pend) div 2 ^ 64)"
    unfolding count_bytes_def Let_def t0 carry_div[OF c(2)] using carry_iff[OF c(2), of t] c by simp
qed

lemma count_bytes_simps [simp]:
  "ctx_b (count_bytes ctx) = ctx_b ctx" "ctx_h (count_bytes ctx) = ctx_h ctx" "ctx_c (count_bytes ctx) = ctx_c ctx"
  "ctx_outlen (count_bytes ctx) = ctx_outlen ctx"
  by (simp_all add: count_bytes_def Let_def)

lemma length_block_step [simp]: "length (block_step h blk t l) = 8"
  by (simp add: block_step_def Let_def)

lemma update_byte_full:
  assumes "ctx_rep ctx h t pend" "length pend = 128"
  shows "ctx_rep (update_byte x ctx) (block_step h pend (t + 128) False) (t + 128) [x]"
proof -
  have "pend = ctx_b ctx" using assms by (auto simp: ctx_rep_def)
  then have "ctx_h (compress (count_bytes ctx) False) = block_step h pend (t + 128) False"
    using compress_block_step[of "count_bytes ctx", OF count_bytes_counter[OF assms(1)]] assms by (simp add: ctx_rep_def)
  then show ?thesis
    using assms count_bytes_counter[OF assms(1)] by (auto simp: ctx_rep_def update_byte_def Let_def take_Suc_conv_app_nth)
qed

lemma update_byte_pending:
  assumes "ctx_rep ctx h t pend" "length pend < 128"
  shows "ctx_rep (update_byte x ctx) h t (pend @ [x])"
  using assms by (auto simp: ctx_rep_def update_byte_def Let_def take_Suc_conv_app_nth)

lemma update_byte_outlen [simp]: "ctx_outlen (update_byte x ctx) = ctx_outlen ctx"
  by (simp add: update_byte_def Let_def)

lemma fill_zero_simps [simp]:
  "ctx_h (fill_zero ctx) = ctx_h ctx" "ctx_t0 (fill_zero ctx) = ctx_t0 ctx" "ctx_t1 (fill_zero ctx) = ctx_t1 ctx"
  "ctx_outlen (fill_zero ctx) = ctx_outlen ctx"
  by (induction ctx rule: fill_zero.induct; subst fill_zero.simps; simp)+

lemma fill_zero_buffer:
  assumes "length (ctx_b ctx) = 128" "ctx_c ctx \<le> 128"
  shows "ctx_b (fill_zero ctx) = take (ctx_c ctx) (ctx_b ctx) @ replicate (128 - ctx_c ctx) 0"
  using assms
proof (induction ctx rule: fill_zero.induct)
  case (1 ctx)
  show ?case
  proof (cases "ctx_c ctx < 128")
    case True
    then have "128 - ctx_c ctx = Suc (128 - Suc (ctx_c ctx))" by simp
    then show ?thesis using 1 True by (subst fill_zero.simps) (simp add: take_Suc_conv_app_nth)
  next
    case False
    then show ?thesis using 1 by (subst fill_zero.simps) simp
  qed
qed

lemma final_digest:
  assumes "ctx_rep ctx h t pend"
  shows "final ctx = digest (ctx_outlen ctx) (hash_blocks h t pend)"
proof -
  let ?c = "fill_zero (count_bytes ctx)"
  have rep: "ctx_h ?c = h" "length h = 8" "length pend \<le> 128"
    and b: "ctx_b ?c = pend @ replicate (128 - length pend) 0"
    using assms fill_zero_buffer[of "count_bytes ctx"] by (auto simp: ctx_rep_def)
  have "ctx_h (compress ?c True) = block_step h (pend @ replicate (128 - length pend) 0) (t + length pend) True"
    using compress_block_step[of ?c "t + length pend"] count_bytes_counter[OF assms] rep b by simp
  then show ?thesis
    using rep(3) unfolding final_def Let_def digest_def by (subst hash_blocks.simps) simp
qed

lemma final_update:
  assumes "ctx_rep ctx h t pend"
  shows "final (update inp ctx) = digest (ctx_outlen ctx) (hash_blocks h t (pend @ inp))"
  using assms
proof (induction inp arbitrary: ctx h t pend)
  case Nil
  then show ?case by (simp add: update_def final_digest)
next
  case (Cons x inp)
  show ?case
  proof (cases "length pend = 128")
    case True
    have "final (update inp (update_byte x ctx)) =
        digest (ctx_outlen ctx) (hash_blocks (block_step h pend (t + 128) False) (t + 128) ([x] @ inp))"
      using Cons.IH[OF update_byte_full[OF Cons.prems True]] by simp
    also have "hash_blocks (block_step h pend (t + 128) False) (t + 128) ([x] @ inp) = hash_blocks h t (pend @ x # inp)"
      using True by (subst (2) hash_blocks.simps) simp
    finally show ?thesis by (simp add: update_def)
  next
    case False
    then have "length pend < 128" using Cons.prems by (simp add: ctx_rep_def)
    from Cons.IH[OF update_byte_pending[OF Cons.prems this]] show ?thesis by (simp add: update_def)
  qed
qed

lemma init_ctx_rep:
  assumes "init_ctx b outlen = Some ctx" "length b = 128"
  shows "ctx_rep ctx (iv[0 := iv ! 0 XOR (0x01010000 XOR word_of_nat outlen)]) 0 [] \<and> ctx_outlen ctx = outlen"
  using assms by (auto simp: init_ctx_def ctx_rep_def iv_def split: if_splits)

text \<open>
  C23. \<open>blake2b\<close> is the hash of RFC 7693: for an output of 1 to 64 bytes it returns the digest that the reference
  definition gives for the whole message, cut into blocks of 128 bytes with a 128 bit byte counter, whatever the
  uninitialised buffer of the context held; for any other output length it fails.
\<close>

theorem blake2b_spec_ok:
  assumes "length b = 128"
  shows "blake2b b outlen msg =
    (if outlen = 0 \<or> 64 < outlen then None else Some (blake2b_spec outlen msg))"
proof (cases "init_ctx b outlen")
  case None
  then show ?thesis by (auto simp: blake2b_def init_ctx_def split: if_splits)
next
  case (Some ctx)
  then have "\<not> (outlen = 0 \<or> 64 < outlen)" by (auto simp: init_ctx_def split: if_splits)
  moreover note init_ctx_rep[OF Some assms]
  ultimately show ?thesis
    using final_update[of ctx _ 0 "[]" msg] Some by (auto simp: blake2b_def blake2b_spec_def)
qed

text \<open>The theorem at two output lengths, with a buffer of zeros.\<close>

theorem blake2b_spec_ok_witness:
  "length (replicate 128 (0 :: u8)) = 128 \<and> blake2b (replicate 128 0) 65 [97, 98, 99] = None \<and>
   blake2b (replicate 128 0) 64 [97, 98, 99] = Some (blake2b_spec 64 [97, 98, 99])"
  using blake2b_spec_ok[of "replicate 128 0" 65 "[97, 98, 99]"] blake2b_spec_ok[of "replicate 128 0" 64 "[97, 98, 99]"]
  by simp

end
