(* ===== verification/Cmdline.thy ===== *)
theory Cmdline
  imports Firejail_Prelude
begin

text \<open>
  \<open>firejail/cmdline.c\<close>: the command line that is handed to the shell of the sandbox is built from \<open>argv\<close> in a
  buffer whose length is computed beforehand by a second loop. Every write is checked against the size of the
  buffer; \<open>sprintf\<close> also writes a terminating NUL.

  The lemmas show that the two loops agree, so that nothing is written past the buffers and the final
  assertion holds, and that a shell splits the text into the original arguments.
\<close>

abbreviation squote :: char where "squote \<equiv> CHR 0x27"
abbreviation dquote :: char where "dquote \<equiv> CHR 0x22"
abbreviation blank :: char where "blank \<equiv> CHR 0x20"

definition ARG_MAX_BYTES :: nat where "ARG_MAX_BYTES = 131072"

text \<open>
  The inner loop of \<open>cmdline_length\<close>. \<open>prev\<close> is the preceding character of the argument, where there is one.
\<close>

fun length_chars :: "bool \<Rightarrow> char option \<Rightarrow> bool \<Rightarrow> string \<Rightarrow> nat \<times> bool" where
  "length_chars want prev in_quotes [] = (0, in_quotes)"
| "length_chars want prev in_quotes (c # cs) =
     (if c = squote
      then let n = (if in_quotes then 1 else 0) + (if prev = Some squote then 1 else 3);
               (l, q) = length_chars want (Some c) False cs
           in (n + l, q)
      else let n = (if \<not> in_quotes \<and> want then 1 else 0) + 1;
               (l, q) = length_chars want (Some c) (if want then True else in_quotes) cs
           in (n + l, q))"

definition arg_length :: "bool \<Rightarrow> string \<Rightarrow> nat" where
  "arg_length want arg =
     (let (l, in_quotes) = length_chars want None False arg
      in l + (if in_quotes then 1 else 0) + (if length arg = 0 then 2 else 0) + 1)"

definition args_from :: "nat \<Rightarrow> string list \<Rightarrow> nat \<Rightarrow> string list" where
  "args_from argc argv index = map (\<lambda>i. argv ! (i + index)) [0..<argc - index]"

definition cmdline_length :: "nat \<Rightarrow> string list \<Rightarrow> nat \<Rightarrow> bool \<Rightarrow> nat" where
  "cmdline_length argc argv index want = sum_list (map (arg_length want) (args_from argc argv index))"

text \<open>Writes at the end of the text in a buffer of \<open>size\<close> bytes.\<close>

definition put_char :: "nat \<Rightarrow> char \<Rightarrow> string \<Rightarrow> string result" where
  "put_char bsize c out = (if length out < bsize then Inr (out @ [c]) else Inl BufferOverflow)"

definition sprintf_at :: "nat \<Rightarrow> string \<Rightarrow> string \<Rightarrow> string result" where
  "sprintf_at bsize s out = (if length out + length s < bsize then Inr (out @ s) else Inl BufferOverflow)"

text \<open>\<open>ptr1--\<close> before the second of two single quotes drops the closing double quote.\<close>

definition quote_char :: "bool \<Rightarrow> nat \<Rightarrow> char option \<Rightarrow> char \<Rightarrow> string \<Rightarrow> bool \<Rightarrow> (string \<times> bool) result" where
  "quote_char want bsize prev c out in_quotes =
     (if c = squote
      then bind_result (if in_quotes then put_char bsize squote out else Inr out) (\<lambda>out.
           bind_result (if prev = Some squote then sprintf_at bsize [squote, dquote] (butlast out)
                        else sprintf_at bsize [dquote, squote, dquote] out) (\<lambda>out.
           Inr (out, False)))
      else bind_result (if \<not> in_quotes \<and> want then put_char bsize squote out else Inr out) (\<lambda>out.
           bind_result (put_char bsize c out) (\<lambda>out.
           Inr (out, if want then True else in_quotes))))"

fun quote_chars :: "bool \<Rightarrow> nat \<Rightarrow> char option \<Rightarrow> string \<Rightarrow> string \<times> bool \<Rightarrow> (string \<times> bool) result" where
  "quote_chars want bsize prev [] st = Inr st"
| "quote_chars want bsize prev (c # cs) st =
     bind_result (quote_char want bsize prev c (fst st) (snd st)) (quote_chars want bsize (Some c) cs)"

definition quote_arg :: "bool \<Rightarrow> nat \<Rightarrow> string \<Rightarrow> string \<times> string \<Rightarrow> (string \<times> string) result" where
  "quote_arg want bsize arg = (\<lambda>(out, title).
     bind_result (quote_chars want bsize None arg (out, False)) (\<lambda>(out, in_quotes).
     bind_result (if in_quotes then put_char bsize squote out else Inr out) (\<lambda>out.
     bind_result (if length arg = 0 then sprintf_at bsize [squote, squote] out else Inr out) (\<lambda>out.
     bind_result (sprintf_at bsize [blank] out) (\<lambda>out.
     bind_result (sprintf_at bsize (arg @ [blank]) title) (\<lambda>title.
     Inr (out, title)))))))"

text \<open>Both buffers have \<open>bsize\<close> bytes; the result is the command line and the window title.\<close>

definition quote_cmdline ::
    "nat \<Rightarrow> nat \<Rightarrow> nat \<Rightarrow> string list \<Rightarrow> nat \<Rightarrow> bool \<Rightarrow> (string \<times> string) result" where
  "quote_cmdline bsize len argc argv index want =
     bind_result (fold_result (quote_arg want bsize) (args_from argc argv index) ([], [])) (\<lambda>(out, title).
     if len = length out then Inr (out, title) else Inl AssertFailure)"

definition build_cmdline :: "nat \<Rightarrow> string list \<Rightarrow> nat \<Rightarrow> bool \<Rightarrow> (string \<times> string) result" where
  "build_cmdline argc argv index want =
     (let len = cmdline_length argc argv index want in
      if len > ARG_MAX_BYTES then Inl ArgumentListTooLong
      else quote_cmdline (len + 1) len argc argv index want)"

definition apprun_path :: string where
  "apprun_path = ''/run/firejail/appimage/AppRun''"

definition build_appimage_cmdline :: "nat \<Rightarrow> string list \<Rightarrow> nat \<Rightarrow> bool \<Rightarrow> (string \<times> string) result" where
  "build_appimage_cmdline argc argv index want =
     (let len1 = cmdline_length argc argv index want;
          len2 = cmdline_length 1 [argv ! index] 0 want;
          len3 = cmdline_length 1 [apprun_path] 0 want;
          len4 = (int len1 - int len2 + int len3) + 1
      in if len4 > int ARG_MAX_BYTES then Inl ArgumentListTooLong
         else bind_result (quote_cmdline (len1 + len3 + 1) len1 argc argv index want) (\<lambda>(tmp, title).
           Inr (squote # apprun_path @ [squote, blank] @ drop len2 tmp, title)))"

subsection \<open>The text, without the buffer\<close>

fun quoted :: "bool \<Rightarrow> char option \<Rightarrow> string \<Rightarrow> string \<times> bool \<Rightarrow> string \<times> bool" where
  "quoted want prev [] st = st"
| "quoted want prev (c # cs) (out, q) = quoted want (Some c) cs
     (if c = squote
      then ((if prev = Some squote then butlast (if q then out @ [squote] else out) @ [squote, dquote]
             else (if q then out @ [squote] else out) @ [dquote, squote, dquote]), False)
      else ((if \<not> q \<and> want then out @ [squote] else out) @ [c], want \<or> q))"

definition quoted_arg :: "bool \<Rightarrow> string \<Rightarrow> string \<Rightarrow> string" where
  "quoted_arg want arg out =
     (let (out, q) = quoted want None arg (out, False)
      in out @ (if q then [squote] else []) @ (if arg = [] then [squote, squote] else []) @ [blank])"

text \<open>
  Within an argument, a preceding single quote has closed the quotes and left a double quote at the end of
  the text.
\<close>

definition after_quote :: "char option \<Rightarrow> string \<times> bool \<Rightarrow> bool" where
  "after_quote prev = (\<lambda>(out, q). prev = Some squote \<longrightarrow> out \<noteq> [] \<and> \<not> q)"

lemma length_chars_flag: "snd (length_chars want prev q cs) = snd (quoted want prev cs (out, q))"
proof (induction cs arbitrary: prev q out)
  case (Cons c cs)
  show ?case using Cons.IH by (simp add: Let_def case_prod_beta)
qed simp

lemma quoted_length:
  "after_quote prev (out, q) \<Longrightarrow>
   length (fst (quoted want prev cs (out, q))) = length out + fst (length_chars want prev q cs)"
proof (induction cs arbitrary: prev out q)
  case (Cons c cs)
  show ?case
  proof (cases "c = squote")
    case True
    let ?out = "if prev = Some squote then butlast (if q then out @ [squote] else out) @ [squote, dquote]
             else (if q then out @ [squote] else out) @ [dquote, squote, dquote]"
    have "length ?out = length out + (if q then 1 else 0) + (if prev = Some squote then 1 else 3)"
      using Cons.prems by (cases out rule: rev_cases) (auto simp: after_quote_def)
    with Cons.IH [of "Some c" ?out False] True show ?thesis
      by (simp add: after_quote_def Let_def case_prod_beta)
  next
    case False
    then show ?thesis
      using Cons.IH [of "Some c" "(if \<not> q \<and> want then out @ [squote] else out) @ [c]" "want \<or> q"]
      by (simp add: after_quote_def Let_def case_prod_beta)
  qed
qed simp

lemma quoted_arg_length: "length (quoted_arg want arg out) = length out + arg_length want arg"
  using quoted_length [of None out False want arg] length_chars_flag [of want None False arg out]
  by (simp add: quoted_arg_def arg_length_def after_quote_def Let_def case_prod_beta)

lemma quote_chars_quoted:
  assumes "after_quote prev (out, q)" "length out + fst (length_chars want prev q cs) < bsize"
  shows "quote_chars want bsize prev cs (out, q) = Inr (quoted want prev cs (out, q))"
  using assms
proof (induction cs arbitrary: prev out q)
  case (Cons c cs)
  show ?case
  proof (cases "c = squote")
    case True
    let ?out = "if prev = Some squote then butlast (if q then out @ [squote] else out) @ [squote, dquote]
             else (if q then out @ [squote] else out) @ [dquote, squote, dquote]"
    have l: "length ?out = length out + (if q then 1 else 0) + (if prev = Some squote then 1 else 3)"
      using Cons.prems by (cases out rule: rev_cases) (auto simp: after_quote_def)
    have "quote_char want bsize prev c out q = Inr (?out, False)"
    proof (cases "prev = Some squote")
      case prev: True
      then have "0 < length out" "\<not> q" using Cons.prems(1) by (simp_all add: after_quote_def)
      with Cons.prems(2) True prev show ?thesis
        by (simp add: quote_char_def sprintf_at_def Let_def case_prod_beta)
    next
      case False
      with Cons.prems(2) True show ?thesis
        by (cases q) (simp_all add: quote_char_def put_char_def sprintf_at_def Let_def case_prod_beta)
    qed
    with Cons.IH [of "Some c" ?out False] Cons.prems(2) l True show ?thesis
      by (simp add: after_quote_def Let_def case_prod_beta)
  next
    case False
    let ?out = "(if \<not> q \<and> want then out @ [squote] else out) @ [c]"
    have "quote_char want bsize prev c out q = Inr (?out, want \<or> q)"
      using Cons.prems(2) False by (auto simp: quote_char_def put_char_def Let_def case_prod_beta)
    with Cons.IH [of "Some c" ?out "want \<or> q"] Cons.prems(2) False show ?thesis
      by (cases want; cases q) (simp_all add: after_quote_def Let_def case_prod_beta)
  qed
qed simp

lemma length_chars_ge: "length cs \<le> fst (length_chars want prev q cs)"
proof (induction cs arbitrary: prev q)
  case (Cons c cs)
  show ?case
  proof (cases "c = squote")
    case True
    then show ?thesis using Cons.IH [of "Some squote" False] by (simp add: Let_def case_prod_beta)
  next
    case False
    then show ?thesis using Cons.IH [of "Some c" "if want then True else q"]
      by (cases want) (simp_all add: Let_def case_prod_beta)
  qed
qed simp

lemma arg_length_ge: "length arg + 1 \<le> arg_length want arg"
  using length_chars_ge [of arg want None False] by (simp add: arg_length_def Let_def case_prod_beta)

lemma quote_arg_quoted:
  assumes "length out + arg_length want arg < bsize" "length title + arg_length want arg < bsize"
  shows "quote_arg want bsize arg (out, title) = Inr (quoted_arg want arg out, title @ arg @ [blank])"
proof -
  have "quote_chars want bsize None arg (out, False) = Inr (quoted want None arg (out, False))"
    using assms(1) by (intro quote_chars_quoted) (simp_all add: after_quote_def arg_length_def Let_def case_prod_beta)
  moreover have "length (fst (quoted want None arg (out, False))) = length out + fst (length_chars want None False arg)"
    by (rule quoted_length) (simp add: after_quote_def)
  moreover have "snd (quoted want None arg (out, False)) = snd (length_chars want None False arg)"
    by (rule length_chars_flag [symmetric])
  ultimately show ?thesis
    using assms arg_length_ge [of arg want]
    by (cases "arg = []"; cases "snd (length_chars want None False arg)") (simp_all add: quote_arg_def quoted_arg_def put_char_def sprintf_at_def arg_length_def Let_def case_prod_beta)
qed

lemma quote_args_quoted:
  assumes "length out + sum_list (map (arg_length want) args) < bsize"
    "length title + sum_list (map (arg_length want) args) < bsize"
  shows "fold_result (quote_arg want bsize) args (out, title) =
    Inr (fold (quoted_arg want) args out, title @ concat (map (\<lambda>a. a @ [blank]) args))"
  using assms
proof (induction args arbitrary: out title)
  case (Cons a args)
  then show ?case
    using arg_length_ge [of a want] by (simp add: quote_arg_quoted quoted_arg_length)
qed simp

lemma quoted_args_length:
  "length (fold (quoted_arg want) args out) = length out + sum_list (map (arg_length want) args)"
  by (induction args arbitrary: out) (simp_all add: quoted_arg_length)

lemma quote_cmdline_quoted:
  assumes "len = cmdline_length argc argv index want" "len < bsize"
  shows "quote_cmdline bsize len argc argv index want =
    Inr (fold (quoted_arg want) (args_from argc argv index) [],
         concat (map (\<lambda>a. a @ [blank]) (args_from argc argv index)))"
  using assms
  by (simp add: quote_cmdline_def quote_args_quoted quoted_args_length cmdline_length_def)

subsection \<open>What a shell makes of it\<close>

text \<open>
  The quoting rules of a POSIX shell, as far as they matter here: a word is a sequence of unquoted, single
  quoted and double quoted parts, and unquoted blanks separate words. The result is undefined for a character
  that a shell would interpret in its place.
\<close>

datatype quoting = Plain | Single | Double

type_synonym shell = "string list \<times> string option \<times> quoting"

definition word_char :: "char \<Rightarrow> string option \<Rightarrow> string option" where
  "word_char c w = Some (case w of None \<Rightarrow> [c] | Some w \<Rightarrow> w @ [c])"

definition opened :: "string option \<Rightarrow> string option" where
  "opened w = Some (case w of None \<Rightarrow> [] | Some w \<Rightarrow> w)"

fun sh_step :: "char \<Rightarrow> shell \<Rightarrow> shell option" where
  "sh_step c (ws, w, Plain) =
     (if c = squote then Some (ws, opened w, Single)
      else if c = dquote then Some (ws, opened w, Double)
      else if c = blank \<or> c = CHR 0x09 then Some (ws @ (case w of None \<Rightarrow> [] | Some w \<Rightarrow> [w]), None, Plain)
      else if c \<in> set ''|&;<>()$`*?[#~=%!{}'' \<or> c = CHR 0x5C \<or> c = CHR 0x0A then None
      else Some (ws, word_char c w, Plain))"
| "sh_step c (ws, w, Single) =
     (if c = squote then Some (ws, w, Plain) else Some (ws, word_char c w, Single))"
| "sh_step c (ws, w, Double) =
     (if c = dquote then Some (ws, w, Plain)
      else if c \<in> set ''$`'' \<or> c = CHR 0x5C then None
      else Some (ws, word_char c w, Double))"

fun sh_run :: "string \<Rightarrow> shell \<Rightarrow> shell option" where
  "sh_run [] s = Some s"
| "sh_run (c # cs) s = Option.bind (sh_step c s) (sh_run cs)"

definition sh_words :: "string \<Rightarrow> string list option" where
  "sh_words s =
     (case sh_run s ([], None, Plain) of
        Some (ws, w, Plain) \<Rightarrow> Some (ws @ (case w of None \<Rightarrow> [] | Some w \<Rightarrow> [w]))
      | _ \<Rightarrow> None)"

lemma sh_run_append [simp]: "sh_run (a @ b) s = Option.bind (sh_run a s) (sh_run b)"
proof (induction a arbitrary: s)
  case (Cons c a)
  then show ?case by (cases "sh_step c s") simp_all
qed simp

text \<open>After the characters \<open>p\<close> of an argument, the shell has read \<open>p\<close> of its word.\<close>

definition shell_at :: "string list \<Rightarrow> string \<Rightarrow> char option \<Rightarrow> string \<times> bool \<Rightarrow> bool" where
  "shell_at ws p prev = (\<lambda>(out, q).
     if p = [] then prev = None \<and> \<not> q \<and> sh_run out ([], None, Plain) = Some (ws, None, Plain)
     else if q then prev \<noteq> Some squote \<and> sh_run out ([], None, Plain) = Some (ws, Some p, Single)
     else prev = Some squote \<and>
       (\<exists>o1. out = o1 @ [dquote] \<and> sh_run o1 ([], None, Plain) = Some (ws, Some p, Double)))"

lemma quoted_shell:
  "shell_at ws p prev (out, q) \<Longrightarrow>
   shell_at ws (p @ cs) (if cs = [] then prev else Some (last cs)) (quoted True prev cs (out, q))"
proof (induction cs arbitrary: p prev out q)
  case (Cons c cs)
  let ?st = "if c = squote
      then ((if prev = Some squote then butlast (if q then out @ [squote] else out) @ [squote, dquote]
             else (if q then out @ [squote] else out) @ [dquote, squote, dquote]), False)
      else ((if \<not> q \<and> True then out @ [squote] else out) @ [c], True \<or> q)"
  obtain o2 q2 where st: "?st = (o2, q2)" by (cases ?st)
  have "shell_at ws (p @ [c]) (Some c) ?st"
    using Cons.prems by (auto simp: shell_at_def word_char_def opened_def split: if_splits)
  then have "shell_at ws (p @ [c]) (Some c) (o2, q2)" unfolding st .
  moreover have "quoted True prev (c # cs) (out, q) = quoted True (Some c) cs (o2, q2)"
    by (simp only: quoted.simps st)
  ultimately show ?case using Cons.IH [of "p @ [c]" "Some c" o2 q2] by (cases cs) simp_all
qed simp

lemma quoted_arg_shell:
  assumes "sh_run out ([], None, Plain) = Some (ws, None, Plain)"
  shows "sh_run (quoted_arg True arg out) ([], None, Plain) = Some (ws @ [arg], None, Plain)"
proof (cases "arg = []")
  case True
  then show ?thesis using assms by (simp add: quoted_arg_def opened_def)
next
  case False
  obtain o1 q where q: "quoted True None arg (out, False) = (o1, q)" by fastforce
  have "shell_at ws arg (Some (last arg)) (o1, q)"
    using quoted_shell [of ws "[]" None out False arg] assms False q by (simp add: shell_at_def)
  with False q show ?thesis by (auto simp: quoted_arg_def shell_at_def split: if_splits)
qed

lemma quoted_args_shell:
  "sh_run out ([], None, Plain) = Some (ws, None, Plain) \<Longrightarrow>
   sh_run (fold (quoted_arg True) args out) ([], None, Plain) = Some (ws @ args, None, Plain)"
  by (induction args arbitrary: out ws) (simp_all add: quoted_arg_shell)

lemma quoted_arg_append: "quoted_arg True arg (pre @ out) = pre @ quoted_arg True arg out"
proof -
  have "quoted want prev cs (pre @ out, q) = map_prod ((@) pre) id (quoted want prev cs (out, q))"
    if "after_quote prev (out, q)" for want prev cs out q
    using that
  proof (induction cs arbitrary: prev out q)
    case (Cons c cs)
    then show ?case by (auto simp: after_quote_def butlast_append)
  qed simp
  then have "quoted True None arg (pre @ out, False) = map_prod ((@) pre) id (quoted True None arg (out, False))"
    by (simp add: after_quote_def)
  then show ?thesis by (simp add: quoted_arg_def case_prod_beta)
qed

lemma quoted_args_append: "fold (quoted_arg True) args (pre @ out) = pre @ fold (quoted_arg True) args out"
  by (induction args arbitrary: out) (simp_all add: quoted_arg_append)

text \<open>
  C29. \<open>build_cmdline\<close> with quoting: unless the command line is longer than the limit, nothing is written past the
  two buffers, the assertion on the computed length holds, and a shell splits the result into exactly the
  arguments of \<open>argv\<close> from \<open>index\<close> on, whatever characters they contain; the window title is the arguments
  separated by blanks.
\<close>

theorem build_cmdline_shell:
  "if cmdline_length argc argv index True > ARG_MAX_BYTES
   then build_cmdline argc argv index True = Inl ArgumentListTooLong
   else \<exists>cmd title. build_cmdline argc argv index True = Inr (cmd, title) \<and>
     sh_words cmd = Some (args_from argc argv index) \<and>
     length cmd = cmdline_length argc argv index True \<and>
     title = concat (map (\<lambda>a. a @ [blank]) (args_from argc argv index))"
  using quoted_args_shell [of "[]" "[]" "args_from argc argv index"]
    quoted_args_length [of True "args_from argc argv index" "[]"]
  by (simp add: build_cmdline_def quote_cmdline_quoted sh_words_def cmdline_length_def Let_def)

text \<open>
  For an AppImage the first argument is replaced by the program inside the image: the text after the quoted
  first argument is found at the right offset, and a shell sees the path of \<open>AppRun\<close> followed by the other
  arguments.
\<close>

theorem build_appimage_cmdline_shell:
  assumes "index < argc" "argc = length argv"
    and "cmdline_length argc argv index True \<le> 100000"
  shows "\<exists>cmd title. build_appimage_cmdline argc argv index True = Inr (cmd, title) \<and>
     sh_words cmd = Some (apprun_path # drop (index + 1) argv)"
proof -
  have "args_from argc argv index = drop index argv"
    using assms(2) by (intro nth_equalityI) (simp_all add: args_from_def add.commute)
  also have "\<dots> = argv ! index # drop (index + 1) argv"
    using assms(1,2) by (simp add: Cons_nth_drop_Suc)
  finally have args: "args_from argc argv index = argv ! index # drop (index + 1) argv" .
  have one: "args_from (Suc 0) [a] 0 = [a]" for a :: string by (simp add: args_from_def)
  let ?len1 = "cmdline_length argc argv index True" and ?q = "quoted_arg True (argv ! index) []"
  let ?rest = "fold (quoted_arg True) (drop (index + 1) argv) []"
  have q: "quote_cmdline (?len1 + cmdline_length 1 [apprun_path] 0 True + 1) ?len1 argc argv index True =
      Inr (?q @ ?rest, concat (map (\<lambda>a. a @ [blank]) (args_from argc argv index)))"
    using quoted_args_append [of "drop (index + 1) argv" ?q "[]"] by (simp add: quote_cmdline_quoted args)
  have l2: "cmdline_length 1 [argv ! index] 0 True = length ?q"
    using quoted_arg_length [of True "argv ! index" "[]"] by (simp add: cmdline_length_def one)
  have l3: "cmdline_length 1 [apprun_path] 0 True \<le> 32"
    by (simp add: cmdline_length_def one apprun_path_def arg_length_def Let_def)
  have "sh_run (squote # apprun_path @ [squote, blank]) ([], None, Plain) = Some ([apprun_path], None, Plain)"
    by (simp add: apprun_path_def opened_def word_char_def)
  from quoted_args_shell [OF this, of "drop (index + 1) argv"]
    quoted_args_append [of "drop (index + 1) argv" "squote # apprun_path @ [squote, blank]" "[]"]
  have "sh_words (squote # apprun_path @ [squote, blank] @ ?rest) = Some (apprun_path # drop (index + 1) argv)"
    by (simp add: sh_words_def del: sh_run.simps)
  then show ?thesis
    using assms(3) l2 l3 by (simp add: build_appimage_cmdline_def q [simplified] Let_def ARG_MAX_BYTES_def)
qed

text \<open>An argument with a single quote in it.\<close>

theorem build_appimage_cmdline_shell_witness:
  "\<exists>cmd title. build_appimage_cmdline 2 [''a'', ''x'' @ [squote] @ ''y''] 0 True = Inr (cmd, title) \<and>
     sh_words cmd = Some [apprun_path, ''x'' @ [squote] @ ''y'']"
  using build_appimage_cmdline_shell [of 0 2 "[''a'', ''x'' @ [squote] @ ''y'']"]
  by (simp add: cmdline_length_def args_from_def arg_length_def Let_def numeral_2_eq_2)

end
