(* ===== verification/Caps.thy ===== *)
theory Caps
  imports C_Format
begin

text \<open>
  \<open>firejail/caps.c\<close>: the capability table, the lists of \<open>--caps.drop\<close> and \<open>--caps.keep\<close>, and the functions
  that drop capabilities from the bounding set of the process.

  \<open>prctl(PR_CAPBSET_DROP, cap)\<close> belongs to the kernel. It is a parameter of the functions that call it,
  which takes and returns the kernel state; the locale \<open>capbset\<close> states what the manual page says of it.
  The lemmas show which capabilities are left in the bounding set after each function.
\<close>

definition capslist :: "(string \<times> nat) list" where
  "capslist =
  [(''chown'', 0), (''dac_override'', 1), (''dac_read_search'', 2), (''fowner'', 3), (''fsetid'', 4),
   (''kill'', 5), (''setgid'', 6), (''setuid'', 7), (''setpcap'', 8), (''linux_immutable'', 9),
   (''net_bind_service'', 10), (''net_broadcast'', 11), (''net_admin'', 12), (''net_raw'', 13),
   (''ipc_lock'', 14), (''ipc_owner'', 15), (''sys_module'', 16), (''sys_rawio'', 17),
   (''sys_chroot'', 18), (''sys_ptrace'', 19), (''sys_pacct'', 20), (''sys_admin'', 21),
   (''sys_boot'', 22), (''sys_nice'', 23), (''sys_resource'', 24), (''sys_time'', 25),
   (''sys_tty_config'', 26), (''mknod'', 27), (''lease'', 28), (''audit_write'', 29),
   (''audit_control'', 30), (''setfcap'', 31), (''mac_override'', 32), (''mac_admin'', 33),
   (''syslog'', 34), (''wake_alarm'', 35), (''block_suspend'', 36), (''audit_read'', 37),
   (''perfmon'', 38), (''bpf'', 39), (''checkpoint_restore'', 40)]"

fun caps_table_find :: "(string \<times> nat) list \<Rightarrow> string \<Rightarrow> nat option" where
  "caps_table_find [] name = None"
| "caps_table_find ((n, nr) # t) name = (if name = n then Some nr else caps_table_find t name)"

definition caps_find_name :: "string \<Rightarrow> nat option" where
  "caps_find_name name = caps_table_find capslist name"

subsection \<open>Lists\<close>

text \<open>
  The loop of \<open>caps_check_list\<close>: \<open>start\<close> holds the characters since the last comma. A comma ends a name,
  which must be known; the end of the string ends a name unless it is empty.
\<close>

definition caps_name :: "(nat \<Rightarrow> 's \<Rightarrow> 's) \<Rightarrow> string \<Rightarrow> 's \<Rightarrow> 's result" where
  "caps_name callback start s =
     (case caps_find_name start of
        None \<Rightarrow> Inl (CapNotFound start)
      | Some nr \<Rightarrow> Inr (callback nr s))"

fun caps_loop :: "(nat \<Rightarrow> 's \<Rightarrow> 's) \<Rightarrow> string \<Rightarrow> string \<Rightarrow> 's \<Rightarrow> 's result" where
  "caps_loop callback [] start s = (if start \<noteq> [] then caps_name callback start s else Inr s)"
| "caps_loop callback (c # ptr) start s =
     (if c = CHR '','' then bind_result (caps_name callback start s) (caps_loop callback ptr [])
      else caps_loop callback ptr (start @ [c]) s)"

definition caps_check_list :: "string \<Rightarrow> (nat \<Rightarrow> 's \<Rightarrow> 's) \<Rightarrow> 's \<Rightarrow> 's result" where
  "caps_check_list clist callback s = (if clist = [] then Inl EmptyList else caps_loop callback clist [] s)"

subsection \<open>The bounding set\<close>

text \<open>The outcome of \<open>prctl(PR_CAPBSET_DROP, cap)\<close>: 0, or -1 with \<open>errno\<close>.\<close>

datatype drop_result = Dropped | Failed_EINVAL | Failed_EPERM

type_synonym 'k dropper = "nat \<Rightarrow> 'k \<Rightarrow> drop_result \<times> 'k"

definition CAP_DAC_OVERRIDE :: nat where "CAP_DAC_OVERRIDE = 1"
definition CAP_DAC_READ_SEARCH :: nat where "CAP_DAC_READ_SEARCH = 2"
definition CAP_SYS_MODULE :: nat where "CAP_SYS_MODULE = 16"
definition CAP_SYS_RAWIO :: nat where "CAP_SYS_RAWIO = 17"
definition CAP_SYS_ADMIN :: nat where "CAP_SYS_ADMIN = 21"
definition CAP_SYS_BOOT :: nat where "CAP_SYS_BOOT = 22"
definition CAP_SYS_NICE :: nat where "CAP_SYS_NICE = 23"
definition CAP_SYS_TTY_CONFIG :: nat where "CAP_SYS_TTY_CONFIG = 26"
definition CAP_MKNOD :: nat where "CAP_MKNOD = 27"
definition CAP_SYSLOG :: nat where "CAP_SYSLOG = 34"

text \<open>\<open>caps_print\<close> counts the capabilities that the kernel lets it drop.\<close>

fun count_dropped :: "'k dropper \<Rightarrow> nat list \<Rightarrow> nat \<Rightarrow> 'k \<Rightarrow> nat \<times> 'k" where
  "count_dropped prctl_drop [] cnt k = (cnt, k)"
| "count_dropped prctl_drop (cap # r) cnt k =
     (case prctl_drop cap k of (code, k') \<Rightarrow>
        count_dropped prctl_drop r (if code = Dropped then cnt + 1 else cnt) k')"

definition caps_print :: "'k dropper \<Rightarrow> 'k \<Rightarrow> string \<times> 'k" where
  "caps_print prctl_drop k =
     (case count_dropped prctl_drop [0..<64] 0 k of (cnt, k') \<Rightarrow>
        (''Your kernel supports '' @ fmt_d (int cnt) @ '' capabilities.'' @ [CHR 0x0A] @
         concat (map (\<lambda>e. fmt_d (int (snd e)) @ [CHR 0x09] @ ''- '' @ fst e @ [CHR 0x0A]) capslist), k'))"

definition caps_drop_dac_override :: "'k dropper \<Rightarrow> bool \<Rightarrow> bool \<Rightarrow> 'k \<Rightarrow> 'k" where
  "caps_drop_dac_override prctl_drop is_root arg_noprofile k =
     (if is_root \<and> \<not> arg_noprofile
      then snd (prctl_drop CAP_DAC_READ_SEARCH (snd (prctl_drop CAP_DAC_OVERRIDE k)))
      else k)"

definition drop_or_exit :: "'k dropper \<Rightarrow> nat \<Rightarrow> 'k \<Rightarrow> 'k result" where
  "drop_or_exit prctl_drop cap k =
     (case prctl_drop cap k of (r, k') \<Rightarrow> if r = Dropped then Inr k' else Inl PrctlFailed)"

definition caps_default_filter :: "'k dropper \<Rightarrow> 'k \<Rightarrow> 'k result" where
  "caps_default_filter prctl_drop k =
     fold_result (drop_or_exit prctl_drop)
       [CAP_SYS_MODULE, CAP_SYS_RAWIO, CAP_SYS_BOOT, CAP_SYS_NICE, CAP_SYS_TTY_CONFIG, CAP_SYSLOG,
        CAP_MKNOD, CAP_SYS_ADMIN] k"

text \<open>\<open>if (code == -1 && errno != EINVAL) errExit(\<dots>)\<close>\<close>

definition drop_known :: "'k dropper \<Rightarrow> nat \<Rightarrow> 'k \<Rightarrow> 'k result" where
  "drop_known prctl_drop cap k =
     (case prctl_drop cap k of (r, k') \<Rightarrow> if r = Failed_EPERM then Inl PrctlFailed else Inr k')"

definition caps_drop_all :: "'k dropper \<Rightarrow> 'k \<Rightarrow> 'k result" where
  "caps_drop_all prctl_drop k = fold_result (drop_known prctl_drop) [0..<64] k"

text \<open>The loop of \<open>caps_set\<close> from bit \<open>i\<close> on, with its moving mask.\<close>

function caps_set_from :: "'k dropper \<Rightarrow> u64 \<Rightarrow> nat \<Rightarrow> u64 \<Rightarrow> 'k \<Rightarrow> 'k result" where
  "caps_set_from prctl_drop caps i msk k =
     (if i < 64
      then bind_result (if msk AND caps = 0 then drop_known prctl_drop i k else Inr k)
             (caps_set_from prctl_drop caps (i + 1) (push_bit 1 msk))
      else Inr k)"
  by pat_completeness auto
termination
  by (relation "measure (\<lambda>(p, c, i, m, k). 64 - i)") auto

declare caps_set_from.simps [simp del]

definition caps_set :: "'k dropper \<Rightarrow> u64 \<Rightarrow> 'k \<Rightarrow> 'k result" where
  "caps_set prctl_drop caps k = caps_set_from prctl_drop caps 0 1 k"

definition caps_set_bit :: "nat \<Rightarrow> u64 \<Rightarrow> u64" where
  "caps_set_bit nr flt = flt OR push_bit nr 1"

definition caps_reset_bit :: "nat \<Rightarrow> u64 \<Rightarrow> u64" where
  "caps_reset_bit nr flt = flt AND NOT (push_bit nr 1)"

definition caps_drop_list :: "'k dropper \<Rightarrow> string \<Rightarrow> 'k \<Rightarrow> 'k result" where
  "caps_drop_list prctl_drop clist k =
     bind_result (caps_check_list clist caps_reset_bit (0 - 1)) (\<lambda>flt. caps_set prctl_drop flt k)"

definition caps_keep_list :: "'k dropper \<Rightarrow> string \<Rightarrow> 'k \<Rightarrow> 'k result" where
  "caps_keep_list prctl_drop clist k =
     bind_result (caps_check_list clist caps_set_bit 0) (\<lambda>flt. caps_set prctl_drop flt k)"

subsection \<open>Printing a bounding set\<close>

text \<open>
  \<open>sscanf(s, "%llx", \<dots>)\<close> on a string of hexadecimal digits: \<open>None\<close> where there is no digit; a sign or a
  prefix does not occur in the file.
\<close>

definition sscanf_llx :: "string \<Rightarrow> u64 option" where
  "sscanf_llx s = (case dropWhile c_isspace s of
       [] \<Rightarrow> None
     | c # r \<Rightarrow> if digit_value c < 16 then Some (word_of_nat (digits_value 16 0 (c # r))) else None)"

text \<open>The lines that the successive calls of \<open>fgets\<close> return.\<close>

fun extract_caps :: "string list \<Rightarrow> u64 result" where
  "extract_caps [] = Inl (CannotRead ''caps configuration'')"
| "extract_caps (buf # rest) =
     (if take 8 buf = ''CapBnd:'' @ [CHR 0x09]
      then (case sscanf_llx (drop 8 buf) of Some val \<Rightarrow> Inr val | None \<Rightarrow> Inl (CannotRead ''caps configuration''))
      else extract_caps rest)"

definition caps_status :: "u64 \<Rightarrow> u64 \<Rightarrow> string \<Rightarrow> string" where
  "caps_status caps msk name =
     fmt_s_left 18 (take 18 name) @ ''  - '' @
     (if msk AND caps \<noteq> 0 then ''enabled'' else ''disabled'') @ [CHR 0x0A]"

fun print_status :: "u64 \<Rightarrow> (string \<times> nat) list \<Rightarrow> u64 \<Rightarrow> string" where
  "print_status caps [] msk = []"
| "print_status caps (e # t) msk = caps_status caps msk (fst e) @ print_status caps t (push_bit 1 msk)"

definition caps_print_filter :: "string list \<Rightarrow> string result" where
  "caps_print_filter status =
     bind_result (extract_caps status) (\<lambda>caps. Inr (print_status caps capslist 1))"

subsection \<open>The kernel as an interface\<close>

locale capbset =
  fixes prctl_drop :: "nat \<Rightarrow> 'k \<Rightarrow> drop_result \<times> 'k"
    and has_cap :: "'k \<Rightarrow> nat \<Rightarrow> bool"
  assumes dropped: "prctl_drop c k = (Dropped, k') \<Longrightarrow> has_cap k' d \<longleftrightarrow> has_cap k d \<and> d \<noteq> c"
    and failed: "prctl_drop c k = (r, k') \<Longrightarrow> r \<noteq> Dropped \<Longrightarrow> k' = k"
    and invalid: "prctl_drop c k = (Failed_EINVAL, k') \<Longrightarrow> \<not> has_cap k c"
begin

lemma drop_known_has:
  "drop_known prctl_drop c k = Inr k' \<Longrightarrow> has_cap k' d \<longleftrightarrow> has_cap k d \<and> d \<noteq> c"
proof (cases "prctl_drop c k")
  case (Pair r k1)
  assume "drop_known prctl_drop c k = Inr k'"
  with Pair have "k1 = k'" "r \<noteq> Failed_EPERM" by (auto simp: drop_known_def split: if_splits)
  with Pair show "has_cap k' d \<longleftrightarrow> has_cap k d \<and> d \<noteq> c"
    using dropped [of c k k'] failed [of c k r k'] invalid [of c k k'] by (cases r) auto
qed

lemma drop_or_exit_has:
  "drop_or_exit prctl_drop c k = Inr k' \<Longrightarrow> has_cap k' d \<longleftrightarrow> has_cap k d \<and> d \<noteq> c"
  using dropped by (auto simp: drop_or_exit_def split: prod.splits if_splits)

lemma fold_has:
  assumes "\<And>c k k' d. f c k = Inr k' \<Longrightarrow> has_cap k' d \<longleftrightarrow> has_cap k d \<and> d \<noteq> c"
  shows "fold_result f cs k = Inr k' \<Longrightarrow> has_cap k' d \<longleftrightarrow> has_cap k d \<and> d \<notin> set cs"
proof (induction cs arbitrary: k)
  case (Cons c cs)
  then obtain z where z: "f c k = Inr z" "fold_result f cs z = Inr k'" by (auto simp: bind_result_eq_Inr_iff)
  from Cons.IH [OF z(2)] assms [OF z(1), of d] show ?case by auto
qed simp

lemma drop_all_has: "caps_drop_all prctl_drop k = Inr k' \<Longrightarrow> has_cap k' d \<longleftrightarrow> has_cap k d \<and> 64 \<le> d"
  using fold_has [of "drop_known prctl_drop" "[0..<64]" k k' d] drop_known_has by (auto simp: caps_drop_all_def)

lemma default_filter_has:
  "caps_default_filter prctl_drop k = Inr k' \<Longrightarrow>
   has_cap k' d \<longleftrightarrow> has_cap k d \<and> d \<notin> {16, 17, 21, 22, 23, 26, 27, 34}"
  unfolding caps_default_filter_def
  by (subst fold_has [where f = "drop_or_exit prctl_drop"], rule drop_or_exit_has, assumption, assumption)
    (auto simp: CAP_SYS_MODULE_def CAP_SYS_RAWIO_def CAP_SYS_BOOT_def CAP_SYS_NICE_def
      CAP_SYS_TTY_CONFIG_def CAP_SYSLOG_def CAP_MKNOD_def CAP_SYS_ADMIN_def)

lemma caps_set_from_has:
  "caps_set_from prctl_drop caps i (2 ^ i) k = Inr k' \<Longrightarrow> i \<le> 64 \<Longrightarrow>
   has_cap k' d \<longleftrightarrow> has_cap k d \<and> (i \<le> d \<and> d < 64 \<longrightarrow> bit caps d)"
proof (induction "64 - i" arbitrary: i k)
  case 0
  then show ?case by (subst (asm) caps_set_from.simps) auto
next
  case (Suc n)
  then have i: "i < 64" by simp
  have m: "2 ^ i AND caps = 0 \<longleftrightarrow> \<not> bit caps i"
    by (simp add: and.commute [of _ caps] and_exp_eq_0_iff_not_bit)
  have p: "push_bit 1 (2 ^ i :: u64) = 2 ^ (i + 1)" by (simp add: push_bit_eq_mult)
  have "caps_set_from prctl_drop caps i (2 ^ i) k =
      bind_result (if 2 ^ i AND caps = 0 then drop_known prctl_drop i k else Inr k)
        (caps_set_from prctl_drop caps (i + 1) (2 ^ (i + 1)))"
    using i by (subst caps_set_from.simps) (simp only: p if_True)
  with Suc.prems(1) obtain k1 where
    k1: "(if 2 ^ i AND caps = 0 then drop_known prctl_drop i k else Inr k) = Inr k1"
      "caps_set_from prctl_drop caps (i + 1) (2 ^ (i + 1)) k1 = Inr k'"
    by (auto simp only: bind_result_eq_Inr_iff)
  have h: "has_cap k1 d \<longleftrightarrow> has_cap k d \<and> (d = i \<longrightarrow> bit caps i)"
    using k1(1) m drop_known_has [of i k k1 d] by (auto split: if_splits)
  have "has_cap k' d \<longleftrightarrow> has_cap k1 d \<and> (i + 1 \<le> d \<and> d < 64 \<longrightarrow> bit caps d)"
    using Suc.hyps(2) i by (intro Suc.hyps(1) k1(2)) simp_all
  moreover have "i \<le> d \<longleftrightarrow> d = i \<or> i + 1 \<le> d" by auto
  ultimately show ?case using h i by auto
qed

lemma caps_set_has:
  "caps_set prctl_drop caps k = Inr k' \<Longrightarrow> has_cap k' d \<longleftrightarrow> has_cap k d \<and> (d < 64 \<longrightarrow> bit caps d)"
  using caps_set_from_has [of caps 0 k k' d] by (simp add: caps_set_def)

end

subsection \<open>What a list names\<close>

lemma caps_name_Inr:
  "caps_name cb t s = Inr s' \<longleftrightarrow> (\<exists>nr. caps_find_name t = Some nr \<and> s' = cb nr s)"
  by (auto simp: caps_name_def split: option.splits)

definition caps_tokens :: "string \<Rightarrow> string list" where
  "caps_tokens s = (let ts = split_on (CHR '','') s in if last ts = [] then butlast ts else ts)"

lemma caps_tokens_word: "CHR '','' \<notin> set w \<Longrightarrow> caps_tokens w = (if w = [] then [] else [w])"
  by (simp add: caps_tokens_def split_on_no_sep Let_def)

lemma caps_tokens_comma: "CHR '','' \<notin> set w \<Longrightarrow> caps_tokens (w @ CHR '','' # s) = w # caps_tokens s"
  by (simp add: caps_tokens_def split_on_append_sep split_on_no_sep Let_def)

lemma caps_loop_fold:
  "CHR '','' \<notin> set start \<Longrightarrow> caps_loop cb ptr start s = fold_result (caps_name cb) (caps_tokens (start @ ptr)) s"
proof (induction ptr arbitrary: start s)
  case Nil
  then show ?case by (simp add: caps_tokens_word fold_result_Nil)
next
  case (Cons c ptr)
  show ?case
  proof (cases "c = CHR '',''")
    case True
    have "caps_loop cb ptr [] = fold_result (caps_name cb) (caps_tokens ptr)"
      using Cons.IH [of "[]"] by (intro ext) simp
    with True Cons.prems show ?thesis by (simp add: caps_tokens_comma)
  next
    case False
    with Cons show ?thesis by simp
  qed
qed

text \<open>The capabilities a list names.\<close>

definition named :: "string \<Rightarrow> nat \<Rightarrow> bool" where
  "named clist d \<longleftrightarrow> list_ex (\<lambda>t. caps_find_name t = Some d) (caps_tokens clist)"

definition valid_caps_list :: "string \<Rightarrow> bool" where
  "valid_caps_list clist \<longleftrightarrow> clist \<noteq> [] \<and> list_all (\<lambda>t. caps_find_name t \<noteq> None) (caps_tokens clist)"

lemma caps_check_list_fold:
  "caps_check_list clist cb s =
    (if clist = [] then Inl EmptyList else fold_result (caps_name cb) (caps_tokens clist) s)"
  by (simp add: caps_check_list_def caps_loop_fold)

lemma caps_find_range: "caps_find_name t = Some d \<Longrightarrow> d \<le> 40"
proof -
  have "caps_table_find es t = Some d \<Longrightarrow> (t, d) \<in> set es" for es
    by (induction es) (auto split: if_splits)
  moreover have "list_all (\<lambda>e. snd e \<le> 40) capslist" by (simp add: capslist_def)
  ultimately show "caps_find_name t = Some d \<Longrightarrow> d \<le> 40"
    by (fastforce simp: caps_find_name_def list_all_iff)
qed

lemma caps_fold_ok:
  "(\<exists>s'. fold_result (caps_name cb) ts s = Inr s') \<longleftrightarrow> list_all (\<lambda>t. caps_find_name t \<noteq> None) ts"
  by (induction ts arbitrary: s) (auto simp: caps_name_def bind_result_eq_Inr_iff split: option.splits)

lemma caps_fold_set_bit:
  "fold_result (caps_name caps_set_bit) ts s = Inr flt \<Longrightarrow>
   bit flt d \<longleftrightarrow> bit s d \<or> list_ex (\<lambda>t. caps_find_name t = Some d) ts"
proof (induction ts arbitrary: s)
  case (Cons t ts)
  then obtain nr where nr: "caps_find_name t = Some nr"
    "fold_result (caps_name caps_set_bit) ts (caps_set_bit nr s) = Inr flt"
    by (auto simp: caps_name_Inr bind_result_eq_Inr_iff)
  have "bit (caps_set_bit nr s) d \<longleftrightarrow> bit s d \<or> nr = d"
    using caps_find_range [OF nr(1)] by (auto simp: caps_set_bit_def bit_or_iff bit_push_bit_iff bit_exp_iff)
  with Cons.IH [OF nr(2)] nr(1) show ?case by auto
qed simp

lemma caps_fold_reset_bit:
  "fold_result (caps_name caps_reset_bit) ts s = Inr flt \<Longrightarrow>
   bit flt d \<longleftrightarrow> bit s d \<and> \<not> list_ex (\<lambda>t. caps_find_name t = Some d) ts"
proof (induction ts arbitrary: s)
  case (Cons t ts)
  then obtain nr where nr: "caps_find_name t = Some nr"
    "fold_result (caps_name caps_reset_bit) ts (caps_reset_bit nr s) = Inr flt"
    by (auto simp: caps_name_Inr bind_result_eq_Inr_iff)
  have "bit (caps_reset_bit nr s) d \<longleftrightarrow> bit s d \<and> nr \<noteq> d"
    by (auto simp: caps_reset_bit_def bit_and_iff bit_not_iff bit_push_bit_iff bit_exp_iff dest: bit_imp_le_length)
  with Cons.IH [OF nr(2)] nr(1) show ?case by auto
qed simp

lemma caps_set_succeeds:
  assumes "\<And>c k. fst (prctl_drop c k) \<noteq> Failed_EPERM"
  shows "\<exists>k'. caps_set_from prctl_drop caps i msk k = Inr k'"
proof (induction "64 - i" arbitrary: i msk k)
  case 0
  then show ?case by (subst caps_set_from.simps) simp
next
  case (Suc n)
  have "\<exists>k1. drop_known prctl_drop i k = Inr k1"
    using assms [of i k] by (auto simp: drop_known_def split: prod.split)
  moreover have "\<exists>k'. caps_set_from prctl_drop caps (i + 1) (push_bit 1 msk) k1 = Inr k'" for k1
    using Suc.hyps(2) by (intro Suc.hyps(1)) simp
  ultimately show ?case by (subst caps_set_from.simps) (auto simp: bind_result_eq_Inr_iff)
qed

text \<open>
  \<open>--caps.keep\<close>: where the kernel does not refuse, a list of known names is accepted, and afterwards the
  bounding set has exactly those of its capabilities below 64 that the list names.
\<close>

theorem caps_keep_list_bounding_set:
  assumes "capbset prctl_drop has_cap" "\<forall>c k. fst (prctl_drop c k) \<noteq> Failed_EPERM"
    and "valid_caps_list clist"
  shows "\<exists>k'. caps_keep_list prctl_drop clist k = Inr k' \<and>
    (\<forall>d. has_cap k' d \<longleftrightarrow> has_cap k d \<and> (d < 64 \<longrightarrow> named clist d))"
proof -
  have ne: "clist \<noteq> []" using assms(3) by (simp add: valid_caps_list_def)
  obtain flt where flt: "fold_result (caps_name caps_set_bit) (caps_tokens clist) 0 = Inr flt"
    using assms(3) caps_fold_ok [of caps_set_bit "caps_tokens clist" 0] by (auto simp: valid_caps_list_def)
  obtain k' where k': "caps_set prctl_drop flt k = Inr k'"
    using caps_set_succeeds [of prctl_drop flt 0 1 k] assms(2) unfolding caps_set_def by blast
  have "has_cap k' d \<longleftrightarrow> has_cap k d \<and> (d < 64 \<longrightarrow> named clist d)" for d
    using capbset.caps_set_has [OF assms(1) k', of d] caps_fold_set_bit [OF flt, of d]
    by (simp add: named_def)
  with ne flt k' show ?thesis by (simp add: caps_keep_list_def caps_check_list_fold)
qed

text \<open>
  \<open>--caps.drop\<close>: where the kernel does not refuse, a list of known names is accepted, and afterwards the
  bounding set has lost exactly the named capabilities.
\<close>

theorem caps_drop_list_bounding_set:
  assumes "capbset prctl_drop has_cap" "\<forall>c k. fst (prctl_drop c k) \<noteq> Failed_EPERM"
    and "valid_caps_list clist"
  shows "\<exists>k'. caps_drop_list prctl_drop clist k = Inr k' \<and>
    (\<forall>d. has_cap k' d \<longleftrightarrow> has_cap k d \<and> \<not> named clist d)"
proof -
  have ne: "clist \<noteq> []" using assms(3) by (simp add: valid_caps_list_def)
  obtain flt where flt: "fold_result (caps_name caps_reset_bit) (caps_tokens clist) (- 1) = Inr (flt :: u64)"
    using assms(3) caps_fold_ok [of caps_reset_bit "caps_tokens clist" "- 1"] by (auto simp: valid_caps_list_def)
  obtain k' where k': "caps_set prctl_drop flt k = Inr k'"
    using caps_set_succeeds [of prctl_drop flt 0 1 k] assms(2) unfolding caps_set_def by blast
  have n: "named clist d \<Longrightarrow> d < 64" for d
    using caps_find_range by (fastforce simp: named_def list_ex_iff)
  have "has_cap k' d \<longleftrightarrow> has_cap k d \<and> \<not> named clist d" for d
    using capbset.caps_set_has [OF assms(1) k', of d] caps_fold_reset_bit [OF flt, of d] n [of d]
    by (auto simp: named_def)
  with ne flt k' show ?thesis by (simp add: caps_drop_list_def caps_check_list_fold)
qed

text \<open>
  A list with an unknown name, an empty name before a comma, or no character at all is refused, by both
  commands, before any capability is dropped.
\<close>

theorem caps_list_errors:
  assumes "\<not> valid_caps_list clist"
  shows "(\<exists>e. caps_keep_list prctl_drop clist k = Inl e) \<and> (\<exists>e. caps_drop_list prctl_drop clist k = Inl e)"
proof -
  have "\<exists>e. caps_check_list clist cb s = Inl e" for cb :: "nat \<Rightarrow> u64 \<Rightarrow> u64" and s
  proof (cases "caps_check_list clist cb s")
    case (Inr r)
    then have "\<exists>s'. fold_result (caps_name cb) (caps_tokens clist) s = Inr s'" "clist \<noteq> []"
      by (auto simp: caps_check_list_fold split: if_splits)
    with assms caps_fold_ok [of cb "caps_tokens clist" s] show ?thesis by (simp add: valid_caps_list_def)
  qed blast
  then show ?thesis by (simp add: caps_keep_list_def caps_drop_list_def) (metis bind_result.simps(1))
qed

subsection \<open>A reference kernel\<close>

definition root_drop :: "u64 dropper" where
  "root_drop c k = (if 40 < c then (Failed_EINVAL, k) else (Dropped, k AND NOT (push_bit c 1)))"

definition root_has :: "u64 \<Rightarrow> nat \<Rightarrow> bool" where
  "root_has k c \<longleftrightarrow> c \<le> 40 \<and> bit k c"

interpretation root_caps: capbset root_drop root_has
  by unfold_locales
    (auto simp: root_drop_def root_has_def bit_and_iff bit_not_iff bit_push_bit_iff bit_exp_iff split: if_splits)

lemma root_not_refused: "fst (root_drop c k) \<noteq> Failed_EPERM"
  by (simp add: root_drop_def)


lemma demo_caps: "caps_tokens ''net_raw,chown,'' = [''net_raw'', ''chown'']" "valid_caps_list ''net_raw,chown,''"
  by (simp_all add: caps_tokens_def valid_caps_list_def Let_def caps_find_name_def capslist_def)

theorem caps_keep_list_bounding_set_witness:
  "\<exists>k'. caps_keep_list root_drop ''net_raw,chown,'' (-1) = Inr k' \<and> root_has k' 13 \<and> root_has k' 0 \<and> \<not> root_has k' 21"
proof -
  have "root_has (-1) 13" "root_has (-1) 0" by (simp_all add: root_has_def)
  then show ?thesis
    using caps_keep_list_bounding_set [OF root_caps.capbset_axioms _ demo_caps(2), of "-1"] root_not_refused
    by (auto simp: named_def demo_caps(1) caps_find_name_def capslist_def)
qed

theorem caps_drop_list_bounding_set_witness:
  "\<exists>k'. caps_drop_list root_drop ''net_raw,chown,'' (-1) = Inr k' \<and> \<not> root_has k' 13 \<and> \<not> root_has k' 0 \<and> root_has k' 21"
proof -
  have "root_has (-1) 21" by (simp add: root_has_def)
  then show ?thesis
    using caps_drop_list_bounding_set [OF root_caps.capbset_axioms _ demo_caps(2), of "-1"] root_not_refused
    by (auto simp: named_def demo_caps(1) caps_find_name_def capslist_def)
qed

theorem caps_list_errors_witness:
  "\<exists>e. caps_keep_list root_drop ''chown,,kill'' 0 = Inl e"
  using caps_list_errors [of "''chown,,kill''" root_drop 0]
  by (simp add: valid_caps_list_def caps_tokens_def Let_def caps_find_name_def capslist_def)

text \<open>
  The default filter of firejail removes the eight capabilities it names from the bounding set and nothing
  else, and \<open>--caps.drop=all\<close> removes every capability below 64; each stops with an error instead where the
  kernel refuses.
\<close>

theorem caps_filters_bounding_set:
  assumes "capbset prctl_drop has_cap"
  shows "(\<forall>k'. caps_default_filter prctl_drop k = Inr k' \<longrightarrow>
      (\<forall>d. has_cap k' d \<longleftrightarrow> has_cap k d \<and> d \<notin> {16, 17, 21, 22, 23, 26, 27, 34})) \<and>
    (\<forall>k'. caps_drop_all prctl_drop k = Inr k' \<longrightarrow> (\<forall>d. has_cap k' d \<longleftrightarrow> has_cap k d \<and> 64 \<le> d)) \<and>
    ((\<forall>c k. fst (prctl_drop c k) \<noteq> Failed_EPERM) \<longrightarrow> (\<exists>k'. caps_drop_all prctl_drop k = Inr k'))"
proof -
  have "\<exists>k'. fold_result (drop_known prctl_drop) cs k = Inr k'"
    if "\<forall>c k. fst (prctl_drop c k) \<noteq> Failed_EPERM" for cs k
    using that
  proof (induction cs arbitrary: k)
    case (Cons c cs)
    from Cons.prems have "fst (prctl_drop c k) \<noteq> Failed_EPERM" by blast
    then have "\<exists>k1. drop_known prctl_drop c k = Inr k1"
      by (cases "prctl_drop c k") (auto simp: drop_known_def)
    with Cons show ?case by (auto simp: bind_result_eq_Inr_iff)
  qed simp
  then show ?thesis
    using capbset.default_filter_has [OF assms] capbset.drop_all_has [OF assms] by (auto simp: caps_drop_all_def)
qed

theorem caps_filters_bounding_set_witness:
  "\<exists>k'. caps_drop_all root_drop (-1) = Inr k' \<and> \<not> root_has k' 0 \<and> \<not> root_has k' 40"
  using caps_filters_bounding_set [OF root_caps.capbset_axioms, of "-1"] root_not_refused by auto

lemma capslist_index: "map snd capslist = [0..<41]"
  by (simp add: capslist_def upt_rec)

lemma length_capslist: "length capslist = 41"
  by (simp add: capslist_def)

lemma print_status_bits:
  "map snd t = [i..<i + length t] \<Longrightarrow> i + length t \<le> 64 \<Longrightarrow>
   print_status caps t (2 ^ i) = concat (map (\<lambda>e. fmt_s_left 18 (take 18 (fst e)) @ ''  - '' @
     (if bit caps (snd e) then ''enabled'' else ''disabled'') @ [CHR 0x0A]) t)"
proof (induction t arbitrary: i)
  case (Cons e t)
  have m: "2 ^ i AND caps \<noteq> 0 \<longleftrightarrow> bit caps i"
    by (simp add: and.commute [of _ caps] and_exp_eq_0_iff_not_bit)
  have p: "push_bit 1 (2 ^ i :: u64) = 2 ^ (i + 1)" by (simp add: push_bit_eq_mult)
  have e: "snd e = i" "map snd t = [i + 1..<i + 1 + length t]"
    using Cons.prems(1) by (simp_all add: upt_conv_Cons del: upt_Suc)
  from Cons.IH [OF e(2)] Cons.prems(2) show ?case
    unfolding print_status.simps p by (simp add: e(1) caps_status_def m)
qed simp

text \<open>
  \<open>--caps.print\<close> shows for every capability of the table, in order, whether its bit is set in the bounding
  set that the status file of the process reports.
\<close>

theorem caps_print_filter_bits:
  assumes "sscanf_llx v = Some caps" "list_all (\<lambda>l. take 8 l \<noteq> ''CapBnd:'' @ [CHR 0x09]) before"
  shows "caps_print_filter (before @ (''CapBnd:'' @ [CHR 0x09] @ v) # rest) =
    Inr (concat (map (\<lambda>e. fmt_s_left 18 (take 18 (fst e)) @ ''  - '' @
      (if bit caps (snd e) then ''enabled'' else ''disabled'') @ [CHR 0x0A]) capslist))"
proof -
  have "extract_caps (before @ (''CapBnd:'' @ [CHR 0x09] @ v) # rest) = Inr caps"
    using assms(2) by (induction before) (simp_all add: assms(1))
  then show ?thesis
    using print_status_bits [of capslist 0 caps] capslist_index length_capslist
    by (simp add: caps_print_filter_def)
qed

theorem caps_print_filter_bits_witness:
  "\<exists>out. caps_print_filter [''Name: x'', ''CapBnd:'' @ [CHR 0x09] @ ''2a''] = Inr out"
  using caps_print_filter_bits [of "''2a''" "0x2a" "[''Name: x'']" "[]"]
  by (simp add: sscanf_llx_def c_isspace_def digit_value_def)

end
