(* ===== verification/Env.thy ===== *)
theory Env
  imports Firejail_Prelude
begin

text \<open>
  \<open>firejail/env.c\<close>: the list of settings that \<open>--env\<close>, \<open>--rmenv\<close>, the profiles and the original environment put in
  order, and the three ways it is applied to the environment of a process: completely for the sandboxed
  program, by a whitelist for firejail itself, and by a second whitelist for its helper programs.

  The lemmas show that \<open>env_get\<close> and the application agree (the last setting of a name decides), and which
  variables a whitelisted process can have.
\<close>

datatype ENV_OP = SETENV | RMENV

record Env =
  e_name :: string
  e_value :: "string option"
  e_op :: ENV_OP

type_synonym environ = "string \<Rightarrow> string option"

text \<open>\<open>setenv\<close> and \<open>unsetenv\<close> refuse an empty name and a name with an equal sign.\<close>

definition valid_name :: "string \<Rightarrow> bool" where
  "valid_name n \<longleftrightarrow> n \<noteq> [] \<and> CHR ''='' \<notin> set n"

definition setenv :: "string \<Rightarrow> string \<Rightarrow> environ \<Rightarrow> environ result" where
  "setenv n v E = (if valid_name n then Inr (E(n \<mapsto> v)) else Inl InvalidEnv)"

definition unsetenv :: "string \<Rightarrow> environ \<Rightarrow> environ" where
  "unsetenv n E = (if valid_name n then E(n := None) else E)"

definition env_add :: "Env \<Rightarrow> Env list \<Rightarrow> Env list" where
  "env_add env envlist = envlist @ [env]"

definition env_store :: "string \<Rightarrow> ENV_OP \<Rightarrow> Env list \<Rightarrow> Env list result" where
  "env_store str oper envlist =
     (if str = [] then Inl InvalidEnv
      else case oper of
        SETENV \<Rightarrow>
          (case cut_at (CHR ''='') str of
             (_, None) \<Rightarrow> Inl InvalidEnv
           | (n, Some v) \<Rightarrow> Inr (env_add \<lparr>e_name = n, e_value = Some v, e_op = SETENV\<rparr> envlist))
      | RMENV \<Rightarrow> Inr (env_add \<lparr>e_name = str, e_value = None, e_op = RMENV\<rparr> envlist))"

definition env_store_name_val :: "string \<Rightarrow> string \<Rightarrow> ENV_OP \<Rightarrow> Env list \<Rightarrow> Env list result" where
  "env_store_name_val name val oper envlist =
     (if name = [] then Inl InvalidEnv
      else Inr (env_add \<lparr>e_name = name, e_value = (if oper = SETENV then Some val else None), e_op = oper\<rparr> envlist))"

text \<open>
  \<open>env_ibus_load\<close>: the directory is a list of names with the lines of those files that can be opened. The
  first occurrence of \<open>unix-0\<close> in the name has to be at its end.
\<close>

fun strstr :: "string \<Rightarrow> string \<Rightarrow> string option" where
  "strstr [] pat = (if pat = [] then Some [] else None)"
| "strstr (c # s) pat = (if take (length pat) (c # s) = pat then Some (c # s) else strstr s pat)"

definition ibus_line :: "string \<Rightarrow> Env list \<Rightarrow> Env list result" where
  "ibus_line buf envlist =
     (if take 5 buf \<noteq> ''IBUS_'' then Inr envlist
      else if CHR ''='' \<notin> set buf then Inr envlist
      else env_store (fst (cut_at (CHR 0x0A) buf)) SETENV envlist)"

definition ibus_file :: "string \<times> string list option \<Rightarrow> Env list \<Rightarrow> Env list result" where
  "ibus_file entry envlist =
     (case strstr (fst entry) ''unix-0'' of
        None \<Rightarrow> Inr envlist
      | Some ptr \<Rightarrow>
          if length ptr \<noteq> 6 then Inr envlist
          else case snd entry of None \<Rightarrow> Inr envlist | Some bufs \<Rightarrow> fold_result ibus_line bufs envlist)"

definition env_ibus_load :: "(string \<times> string list option) list option \<Rightarrow> Env list \<Rightarrow> Env list result" where
  "env_ibus_load dir envlist =
     (case dir of None \<Rightarrow> Inr envlist | Some entries \<Rightarrow> fold_result ibus_file entries envlist)"

fun env_get :: "Env list \<Rightarrow> string \<Rightarrow> string option \<Rightarrow> string option" where
  "env_get [] name r = r"
| "env_get (env # envs) name r =
     env_get envs name
       (if e_name env = name
        then (case e_op env of SETENV \<Rightarrow> e_value env | RMENV \<Rightarrow> None)
        else r)"

text \<open>
  \<open>env_defaults\<close>: \<open>prompt\<close> is the configuration option \<open>firejail-prompt\<close>. The window title that is written to the
  terminal is not part of the state.
\<close>

definition prompt_command :: string where
  "prompt_command = ''export PS1='' @ [CHR 0x22, CHR 0x5C] @ ''['' @ [CHR 0x5C] @ ''e[1;32m'' @ [CHR 0x5C] @ ''][''
     @ [CHR 0x5C] @ ''u@'' @ [CHR 0x5C] @ ''h '' @ [CHR 0x5C] @ ''W]'' @ [CHR 0x5C] @ ''$'' @ [CHR 0x5C] @ ''[''
     @ [CHR 0x5C] @ ''e[0m'' @ [CHR 0x5C] @ ''] '' @ [CHR 0x22]"

definition env_defaults :: "string \<Rightarrow> bool \<Rightarrow> bool \<Rightarrow> Env list \<Rightarrow> Env list result" where
  "env_defaults usershell prompt arg_quiet envlist =
     bind_result (env_store_name_val ''QT_X11_NO_MITSHM'' ''1'' SETENV envlist) (\<lambda>envlist.
     bind_result (env_store_name_val ''QML_DISABLE_DISK_CACHE'' ''1'' SETENV envlist) (\<lambda>envlist.
     bind_result (env_store_name_val ''container'' ''firejail'' SETENV envlist) (\<lambda>envlist.
     bind_result (env_store_name_val ''SHELL'' usershell SETENV envlist) (\<lambda>envlist.
     bind_result (env_store_name_val ''KDE_FORK_SLAVES'' ''1'' SETENV envlist) (\<lambda>envlist.
     bind_result (env_store_name_val ''PROMPT_COMMAND''
        (if prompt \<or> env_get envlist ''FIREJAIL_PROMPT'' None = Some ''yes'' then prompt_command else '':'')
        SETENV envlist) (\<lambda>envlist.
     if arg_quiet then env_store_name_val ''FIREJAIL_QUIET'' ''yes'' SETENV envlist else Inr envlist))))))"

definition env_apply :: "Env \<Rightarrow> environ \<Rightarrow> environ result" where
  "env_apply env E =
     (case e_op env of
        SETENV \<Rightarrow> setenv (e_name env) (the (e_value env)) E
      | RMENV \<Rightarrow> Inr (unsetenv (e_name env) E))"

definition env_apply_all :: "Env list \<Rightarrow> environ \<Rightarrow> environ result" where
  "env_apply_all envlist E = fold_result env_apply envlist E"

definition env_whitelist :: "string list" where
  "env_whitelist = [''LANG'', ''LANGUAGE'', ''LC_MESSAGES'', ''DISPLAY'']"

definition env_whitelist_sbox :: "string list" where
  "env_whitelist_sbox =
     [''FIREJAIL_DEBUG'', ''FIREJAIL_FILE_COPY_LIMIT'', ''FIREJAIL_PLUGIN'', ''FIREJAIL_QUIET'',
      ''FIREJAIL_SECCOMP_ERROR_ACTION'', ''FIREJAIL_TEST_ARGUMENTS'', ''FIREJAIL_TRACEFILE'']"

definition MAX_ENV_LEN :: nat where
  "MAX_ENV_LEN = 4096 + 32"

definition env_apply_listed :: "string list \<Rightarrow> Env \<Rightarrow> environ \<Rightarrow> environ result" where
  "env_apply_listed items env E =
     (case e_op env of
        SETENV \<Rightarrow>
          if e_name env \<in> set items
          then if length (e_name env) + length (the (e_value env)) \<ge> MAX_ENV_LEN
               then Inl (EnvTooLong (e_name env))
               else setenv (e_name env) (the (e_value env)) E
          else Inr E
      | RMENV \<Rightarrow> Inr (unsetenv (e_name env) E))"

definition env_apply_list :: "string list \<Rightarrow> Env list \<Rightarrow> environ \<Rightarrow> environ result" where
  "env_apply_list items envlist E = fold_result (env_apply_listed items) envlist E"

definition fixed_path :: string where
  "fixed_path = ''/usr/local/bin:/usr/bin:/bin:/usr/local/sbin:/usr/sbin:/sbin''"

definition env_apply_whitelist :: "Env list \<Rightarrow> environ result" where
  "env_apply_whitelist envlist =
     bind_result (env_apply_list env_whitelist envlist (\<lambda>_. None)) (\<lambda>E. setenv ''PATH'' fixed_path E)"

definition env_apply_whitelist_sbox :: "Env list \<Rightarrow> environ result" where
  "env_apply_whitelist_sbox envlist =
     bind_result (env_apply_whitelist envlist) (\<lambda>E. env_apply_list env_whitelist_sbox envlist E)"

subsection \<open>The last setting decides\<close>

text \<open>What every entry of the list satisfies.\<close>

definition env_ok :: "Env \<Rightarrow> bool" where
  "env_ok env \<longleftrightarrow> (e_op env = SETENV \<longleftrightarrow> e_value env \<noteq> None)"

lemma env_store_ok: "env_store str oper envlist = Inr envlist' \<Longrightarrow> list_all env_ok envlist \<Longrightarrow> list_all env_ok envlist'"
  by (auto simp: env_store_def env_add_def env_ok_def split: if_splits ENV_OP.splits prod.splits option.splits)

lemma env_store_name_val_ok:
  "env_store_name_val n v oper envlist = Inr envlist' \<Longrightarrow> list_all env_ok envlist \<Longrightarrow> list_all env_ok envlist'"
  by (cases oper) (auto simp: env_store_name_val_def env_add_def env_ok_def split: if_splits)

lemma env_ibus_load_ok:
  assumes "env_ibus_load dir envlist = Inr envlist'" "list_all env_ok envlist"
  shows "list_all env_ok envlist'"
proof -
  have l: "ibus_line buf es = Inr es' \<Longrightarrow> list_all env_ok es \<Longrightarrow> list_all env_ok es'" for buf es es'
    by (auto simp: ibus_line_def split: if_splits intro: env_store_ok)
  have "ibus_file e es = Inr es' \<Longrightarrow> list_all env_ok es \<Longrightarrow> list_all env_ok es'" for e es es'
    using fold_result_inv [of _ "list_all env_ok" ibus_line, OF l]
    by (auto simp: ibus_file_def split: if_splits option.splits)
  then show ?thesis
    using assms fold_result_inv [of _ "list_all env_ok" ibus_file]
    by (auto simp: env_ibus_load_def split: option.splits)
qed

lemma env_defaults_ok:
  "env_defaults sh p q envlist = Inr envlist' \<Longrightarrow> list_all env_ok envlist \<Longrightarrow> list_all env_ok envlist'"
  unfolding env_defaults_def
  by (auto simp: bind_result_eq_Inr_iff split: if_splits dest!: env_store_name_val_ok)

lemma env_get_append: "env_get (xs @ ys) name r = env_get ys name (env_get xs name r)"
  by (induction xs arbitrary: r) simp_all

text \<open>The lists that the operations of the file build.\<close>

inductive env_built :: "Env list \<Rightarrow> bool" where
  start: "env_built []"
| store: "env_built es \<Longrightarrow> env_store str oper es = Inr es' \<Longrightarrow> env_built es'"
| store_name_val: "env_built es \<Longrightarrow> env_store_name_val n v oper es = Inr es' \<Longrightarrow> env_built es'"
| ibus: "env_built es \<Longrightarrow> env_ibus_load dir es = Inr es' \<Longrightarrow> env_built es'"
| defaults: "env_built es \<Longrightarrow> env_defaults sh prompt quiet es = Inr es' \<Longrightarrow> env_built es'"

lemma env_built_ok: "env_built es \<Longrightarrow> list_all env_ok es"
  by (induction rule: env_built.induct)
    (auto intro: env_store_ok env_store_name_val_ok env_ibus_load_ok env_defaults_ok)

text \<open>The names of all variables that are set are valid for \<open>setenv\<close>.\<close>

definition names_valid :: "Env list \<Rightarrow> bool" where
  "names_valid envlist \<longleftrightarrow> list_all (\<lambda>e. e_op e = SETENV \<longrightarrow> valid_name (e_name e)) envlist"

lemma env_apply_all_get:
  "list_all env_ok envlist \<Longrightarrow>
   if names_valid envlist
   then \<exists>E'. env_apply_all envlist E = Inr E' \<and> (\<forall>n. valid_name n \<longrightarrow> E' n = env_get envlist n (E n))
   else env_apply_all envlist E = Inl InvalidEnv"
proof (induction envlist arbitrary: E)
  case (Cons e es)
  show ?case
  proof (cases "e_op e")
    case SETENV
    then obtain x where "e_value e = Some x" using Cons.prems by (auto simp: env_ok_def)
    with Cons.IH [of "E(e_name e \<mapsto> x)"] Cons.prems SETENV show ?thesis
      by (auto simp: env_apply_all_def env_apply_def setenv_def names_valid_def)
  next
    case RMENV
    with Cons.IH [of "unsetenv (e_name e) E"] Cons.prems show ?thesis
      by (auto simp: env_apply_all_def env_apply_def unsetenv_def names_valid_def split: if_splits)
  qed
qed (simp add: env_apply_all_def names_valid_def)

subsection \<open>The whitelists\<close>

definition fits :: "string list \<Rightarrow> Env list \<Rightarrow> bool" where
  "fits items envlist \<longleftrightarrow> list_all (\<lambda>e. e_op e = SETENV \<and> e_name e \<in> set items \<longrightarrow>
     length (e_name e) + length (the (e_value e)) < MAX_ENV_LEN) envlist"

text \<open>A whitelisted name follows the list, any other name is only ever removed.\<close>

definition removed :: "string \<Rightarrow> Env list \<Rightarrow> bool" where
  "removed n envlist \<longleftrightarrow> list_ex (\<lambda>e. e_op e = RMENV \<and> e_name e = n) envlist"

lemma env_apply_list_cases:
  assumes "list_all valid_name items" "list_all env_ok envlist"
  shows "if fits items envlist
    then \<exists>E'. env_apply_list items envlist E = Inr E' \<and>
      (\<forall>n. valid_name n \<longrightarrow>
        E' n = (if n \<in> set items then env_get envlist n (E n) else if removed n envlist then None else E n)) \<and>
      (\<forall>n. \<not> valid_name n \<longrightarrow> E' n = E n)
    else \<exists>n. env_apply_list items envlist E = Inl (EnvTooLong n)"
  using assms(2)
proof (induction envlist arbitrary: E)
  case (Cons e es)
  show ?case
  proof (cases "e_op e")
    case SETENV
    show ?thesis
    proof (cases "e_name e \<in> set items")
      case True
      then have v: "valid_name (e_name e)" using assms(1) by (auto simp: list_all_iff)
      from SETENV Cons.prems obtain x where "e_value e = Some x" by (auto simp: env_ok_def)
      with Cons.IH [of "E(e_name e \<mapsto> x)"] Cons.prems SETENV True v show ?thesis
        by (auto simp: env_apply_list_def env_apply_listed_def setenv_def fits_def removed_def)
    next
      case False
      with Cons.IH [of E] Cons.prems SETENV show ?thesis
        by (auto simp: env_apply_list_def env_apply_listed_def fits_def removed_def)
    qed
  next
    case RMENV
    with Cons.IH [of "unsetenv (e_name e) E"] Cons.prems show ?thesis
      by (auto simp: env_apply_list_def env_apply_listed_def fits_def removed_def unsetenv_def)
  qed
qed (auto simp: env_apply_list_def fits_def removed_def)

lemma whitelist_names: "list_all valid_name env_whitelist" "list_all valid_name env_whitelist_sbox"
  by (simp_all add: env_whitelist_def env_whitelist_sbox_def valid_name_def)

lemma path_not_listed: "''PATH'' \<notin> set env_whitelist" "''PATH'' \<notin> set env_whitelist_sbox" "valid_name ''PATH''"
  by (simp_all add: env_whitelist_def env_whitelist_sbox_def valid_name_def)

lemma whitelists_disjoint: "n \<in> set env_whitelist \<Longrightarrow> n \<notin> set env_whitelist_sbox"
  by (auto simp: env_whitelist_def env_whitelist_sbox_def)

lemma listed_valid: "n \<in> set env_whitelist \<Longrightarrow> valid_name n" "n \<in> set env_whitelist_sbox \<Longrightarrow> valid_name n"
  using whitelist_names by (auto simp: list_all_iff)

lemma env_apply_whitelist_cases:
  assumes "list_all env_ok envlist"
  shows "if fits env_whitelist envlist
    then \<exists>E. env_apply_whitelist envlist = Inr E \<and>
      (\<forall>n. E n = (if n = ''PATH'' then Some fixed_path
                 else if n \<in> set env_whitelist then env_get envlist n None else None))
    else \<exists>n. env_apply_whitelist envlist = Inl (EnvTooLong n)"
proof (cases "fits env_whitelist envlist")
  case True
  with env_apply_list_cases [OF whitelist_names(1) assms, of "\<lambda>_. None"] obtain E where
    E: "env_apply_list env_whitelist envlist (\<lambda>_. None) = Inr E"
      "\<And>n. valid_name n \<Longrightarrow> E n = (if n \<in> set env_whitelist then env_get envlist n None else None)"
      "\<And>n. \<not> valid_name n \<Longrightarrow> E n = None" by auto
  have "E n = (if n \<in> set env_whitelist then env_get envlist n None else None)" for n
    using E(2,3) [of n] listed_valid(1) [of n] by (cases "valid_name n") auto
  with E(1) True path_not_listed show ?thesis by (auto simp: env_apply_whitelist_def setenv_def)
next
  case False
  with env_apply_list_cases [OF whitelist_names(1) assms, of "\<lambda>_. None"] show ?thesis
    by (auto simp: env_apply_whitelist_def)
qed

text \<open>
  Applying the whole list, in whatever way it was built, gives every variable the value that \<open>env_get\<close> reports:
  the last setting of a name decides and a name that is not mentioned keeps its value. It stops exactly when a
  variable with an empty name or an equal sign in its name is to be set.
\<close>

theorem env_apply_all_last:
  assumes "env_built envlist"
  shows "if names_valid envlist
    then \<exists>E'. env_apply_all envlist E = Inr E' \<and> (\<forall>n. valid_name n \<longrightarrow> E' n = env_get envlist n (E n))
    else env_apply_all envlist E = Inl InvalidEnv"
  by (rule env_apply_all_get [OF env_built_ok [OF assms]])

text \<open>
  The environment of firejail itself: whatever the user has put in the list, only the four whitelisted
  variables and \<open>PATH\<close> are set, \<open>PATH\<close> has its fixed value, and the others have their last setting; it stops
  exactly when a whitelisted setting is too long.
\<close>

theorem env_whitelist_safe:
  assumes "env_built envlist"
  shows "if fits env_whitelist envlist
    then \<exists>E. env_apply_whitelist envlist = Inr E \<and>
      (\<forall>n. E n = (if n = ''PATH'' then Some fixed_path
                 else if n \<in> set env_whitelist then env_get envlist n None else None))
    else \<exists>n. env_apply_whitelist envlist = Inl (EnvTooLong n)"
  by (rule env_apply_whitelist_cases [OF env_built_ok [OF assms]])

text \<open>
  The environment of a helper program has only whitelisted variables. The second pass repeats every removal
  but not the settings of the first: a name of the first whitelist, or \<open>PATH\<close>, that was removed anywhere in the
  list is missing, even where a later setting restored it.
\<close>

theorem env_whitelist_sbox_safe:
  assumes "env_built envlist" "fits env_whitelist envlist" "fits env_whitelist_sbox envlist"
  shows "\<exists>E. env_apply_whitelist_sbox envlist = Inr E \<and>
    (\<forall>n. E n = (if n \<in> set env_whitelist_sbox then env_get envlist n None
               else if removed n envlist then None
               else if n = ''PATH'' then Some fixed_path
               else if n \<in> set env_whitelist then env_get envlist n None else None))"
proof -
  note ok = env_built_ok [OF assms(1)]
  from env_apply_whitelist_cases [OF ok] assms(2) obtain E where
    E: "env_apply_whitelist envlist = Inr E"
      "\<And>n. E n = (if n = ''PATH'' then Some fixed_path
                 else if n \<in> set env_whitelist then env_get envlist n None else None)" by auto
  from env_apply_list_cases [OF whitelist_names(2) ok, of E] assms(3) obtain E' where
    E': "env_apply_list env_whitelist_sbox envlist E = Inr E'"
      "\<And>n. valid_name n \<Longrightarrow> E' n = (if n \<in> set env_whitelist_sbox then env_get envlist n (E n)
         else if removed n envlist then None else E n)"
      "\<And>n. \<not> valid_name n \<Longrightarrow> E' n = E n" by auto
  have "E' n = (if n \<in> set env_whitelist_sbox then env_get envlist n None
               else if removed n envlist then None
               else if n = ''PATH'' then Some fixed_path
               else if n \<in> set env_whitelist then env_get envlist n None else None)" for n
  proof (cases "valid_name n")
    case True
    have "E n = None" if "n \<in> set env_whitelist_sbox"
      using that E(2) [of n] path_not_listed(2) whitelists_disjoint [of n] by auto
    with E'(2) [OF True] E(2) [of n] show ?thesis by auto
  next
    case False
    then have "n \<notin> set env_whitelist_sbox" "n \<notin> set env_whitelist" "n \<noteq> ''PATH''"
      using listed_valid path_not_listed(3) by auto
    with E'(3) [OF False] E(2) [of n] show ?thesis by auto
  qed
  with E(1) E'(1) show ?thesis by (auto simp: env_apply_whitelist_sbox_def)
qed

subsection \<open>Examples\<close>

text \<open>A list that removes and restores the language, and removes the path.\<close>

definition demo_settings :: "Env list" where
  "demo_settings =
     [\<lparr>e_name = ''LANG'', e_value = None, e_op = RMENV\<rparr>, \<lparr>e_name = ''LANG'', e_value = Some ''C'', e_op = SETENV\<rparr>,
      \<lparr>e_name = ''LD_PRELOAD'', e_value = Some ''x'', e_op = SETENV\<rparr>, \<lparr>e_name = ''PATH'', e_value = None, e_op = RMENV\<rparr>]"

lemma demo_settings_built: "env_built demo_settings"
proof -
  have "fold_result (\<lambda>(s, oper) es. env_store s oper es)
      [(''LANG'', RMENV), (''LANG=C'', SETENV), (''LD_PRELOAD=x'', SETENV), (''PATH'', RMENV)] [] = Inr demo_settings"
    by (simp add: demo_settings_def env_store_def env_add_def)
  then show ?thesis
    by (rule fold_result_inv [of _ env_built, rotated 2]) (auto intro: env_built.intros)
qed

theorem env_apply_all_last_witness:
  "\<exists>E'. env_apply_all demo_settings (\<lambda>_. None) = Inr E' \<and> E' ''LANG'' = Some ''C'' \<and> E' ''LD_PRELOAD'' = Some ''x''"
  using env_apply_all_last [OF demo_settings_built, of "\<lambda>_. None"]
  by (auto simp: demo_settings_def names_valid_def valid_name_def)

theorem env_whitelist_safe_witness:
  "\<exists>E. env_apply_whitelist demo_settings = Inr E \<and> E ''LANG'' = Some ''C'' \<and> E ''LD_PRELOAD'' = None \<and>
     E ''PATH'' = Some fixed_path"
  using env_whitelist_safe [OF demo_settings_built]
  by (auto simp: demo_settings_def fits_def MAX_ENV_LEN_def env_whitelist_def)

theorem env_whitelist_sbox_safe_witness:
  "\<exists>E. env_apply_whitelist_sbox demo_settings = Inr E \<and> E ''LANG'' = None \<and> E ''LD_PRELOAD'' = None \<and> E ''PATH'' = None"
  using env_whitelist_sbox_safe [OF demo_settings_built]
  by (auto simp: demo_settings_def fits_def MAX_ENV_LEN_def env_whitelist_def env_whitelist_sbox_def removed_def)

end
