(* ===== verification/Sbox.thy ===== *)
theory Sbox
  imports Caps Env Fseccomp_Verdicts
begin

text \<open>
  \<open>firejail/sbox.c\<close>: the way firejail runs its own helper programs. \<open>sbox_do_exec_v\<close> builds a clean environment,
  redirects the standard input, drops capabilities, installs a seccomp filter, gives up the privileges and executes
  the helper, if it belongs to root. The theorems say what of the environment, the capabilities and the system calls
  is left for the helper, and which files are executed at all.

  The kernel is a parameter: what \<open>open\<close> and \<open>fstat\<close> say about a file, whether \<open>prctl\<close> accepts the filter, and
  \<open>PR_CAPBSET_DROP\<close> as in \<open>Caps\<close>. The model is that of a build without \<open>HAVE_GCOV\<close>.
\<close>

subsection \<open>The flags\<close>

definition SBOX_ROOT :: u32 where "SBOX_ROOT = push_bit 0 1"
definition SBOX_USER :: u32 where "SBOX_USER = push_bit 1 1"
definition SBOX_SECCOMP :: u32 where "SBOX_SECCOMP = push_bit 2 1"
definition SBOX_CAPS_NONE :: u32 where "SBOX_CAPS_NONE = push_bit 3 1"
definition SBOX_CAPS_NETWORK :: u32 where "SBOX_CAPS_NETWORK = push_bit 4 1"
definition SBOX_ALLOW_STDIN :: u32 where "SBOX_ALLOW_STDIN = push_bit 5 1"
definition SBOX_STDIN_FROM_FILE :: u32 where "SBOX_STDIN_FROM_FILE = push_bit 6 1"
definition SBOX_CAPS_HIDEPID :: u32 where "SBOX_CAPS_HIDEPID = push_bit 7 1"
definition SBOX_CAPS_NET_SERVICE :: u32 where "SBOX_CAPS_NET_SERVICE = push_bit 8 1"
definition SBOX_KEEP_FDS :: u32 where "SBOX_KEEP_FDS = push_bit 9 1"
definition SBOX_STDIN_FILE :: string where "SBOX_STDIN_FILE = ''/run/firejail/mnt/sbox_stdin''"

lemmas sbox_flags = SBOX_ROOT_def SBOX_USER_def SBOX_SECCOMP_def SBOX_CAPS_NONE_def SBOX_CAPS_NETWORK_def
  SBOX_ALLOW_STDIN_def SBOX_STDIN_FROM_FILE_def SBOX_CAPS_HIDEPID_def SBOX_CAPS_NET_SERVICE_def SBOX_KEEP_FDS_def

text \<open>\<open>filtermask & flag\<close>\<close>

definition flag :: "u32 \<Rightarrow> u32 \<Rightarrow> bool" where
  "flag filtermask f \<longleftrightarrow> filtermask AND f \<noteq> 0"

subsection \<open>The environment of the helper\<close>

record sbox_cfg =
  sx_envlist :: "Env list"
  sx_quiet :: bool
  sx_debug :: bool
  sx_seccomp_error_action :: "string option"
  sx_arg_seccomp_error_action :: int

definition new_environment :: "sbox_cfg \<Rightarrow> string list" where
  "new_environment cfg =
     (case env_get (sx_envlist cfg) ''FIREJAIL_FILE_COPY_LIMIT'' None of
        None \<Rightarrow> [] | Some cl \<Rightarrow> [''FIREJAIL_FILE_COPY_LIMIT='' @ cl]) @
     (if sx_quiet cfg then [''FIREJAIL_QUIET=yes''] else []) @
     (if sx_debug cfg then [''FIREJAIL_DEBUG=yes''] else []) @
     (case sx_seccomp_error_action cfg of
        None \<Rightarrow> [] | Some a \<Rightarrow> [''FIREJAIL_SECCOMP_ERROR_ACTION='' @ a]) @
     [''FIREJAIL_PLUGIN='']"

subsection \<open>The standard input\<close>

datatype stdin = StdinFile | StdinNull | StdinClosed | StdinKept

record sbox_stat =
  st_uid :: nat
  st_gid :: nat
  st_mode :: u32

datatype opened_file = NoEntry | OpenFailed | FstatFailed | Opened sbox_stat

text \<open>
  What the kernel answers: whether \<open>SBOX_STDIN_FILE\<close> and \<open>/dev/null\<close> can be opened, what a path leads to, and
  whether the filter is accepted.
\<close>

record sbox_world =
  sw_stdin_file :: bool
  sw_dev_null :: bool
  sw_path :: "string \<Rightarrow> opened_file"
  sw_accept :: "sock_filter list \<Rightarrow> bool"
  sw_exec :: "string \<Rightarrow> bool"

definition redirect_stdin :: "sbox_world \<Rightarrow> u32 \<Rightarrow> stdin result" where
  "redirect_stdin w filtermask =
     (if flag filtermask SBOX_STDIN_FROM_FILE
      then (if sw_stdin_file w then Inr StdinFile else Inl (CannotOpen SBOX_STDIN_FILE))
      else if \<not> flag filtermask SBOX_ALLOW_STDIN
      then Inr (if sw_dev_null w then StdinNull else StdinClosed)
      else Inr StdinKept)"

subsection \<open>Capabilities\<close>

definition CAP_NET_BIND_SERVICE :: nat where "CAP_NET_BIND_SERVICE = 10"
definition CAP_NET_BROADCAST :: nat where "CAP_NET_BROADCAST = 11"
definition CAP_NET_ADMIN :: nat where "CAP_NET_ADMIN = 12"
definition CAP_NET_RAW :: nat where "CAP_NET_RAW = 13"
definition CAP_SYS_PTRACE :: nat where "CAP_SYS_PTRACE = 19"
definition CAP_SYS_PACCT :: nat where "CAP_SYS_PACCT = 20"

lemmas cap_numbers = CAP_NET_BIND_SERVICE_def CAP_NET_BROADCAST_def CAP_NET_ADMIN_def CAP_NET_RAW_def
  CAP_SYS_PTRACE_def CAP_SYS_PACCT_def

text \<open>\<open>if (filtermask & f) { set |= 1 << c1; set |= 1 << c2; }\<close>\<close>

definition add_caps :: "u32 \<Rightarrow> u32 \<Rightarrow> nat \<Rightarrow> nat \<Rightarrow> u64 \<Rightarrow> u64" where
  "add_caps filtermask f c1 c2 s = (if flag filtermask f then (s OR push_bit c1 1) OR push_bit c2 1 else s)"

definition caps_of_mask :: "u32 \<Rightarrow> u64" where
  "caps_of_mask filtermask =
     add_caps filtermask SBOX_CAPS_NET_SERVICE CAP_NET_BIND_SERVICE CAP_NET_BROADCAST
       (add_caps filtermask SBOX_CAPS_HIDEPID CAP_SYS_PTRACE CAP_SYS_PACCT
         (add_caps filtermask SBOX_CAPS_NETWORK CAP_NET_ADMIN CAP_NET_RAW 0))"

definition filter_caps :: "'k dropper \<Rightarrow> u32 \<Rightarrow> 'k \<Rightarrow> 'k result" where
  "filter_caps prctl_drop filtermask k =
     (if flag filtermask SBOX_CAPS_NONE then caps_drop_all prctl_drop k
      else let s = caps_of_mask filtermask in
           if s \<noteq> 0 then caps_set prctl_drop s k else Inr k)"

subsection \<open>The filter of the helpers\<close>

text \<open>
  The system calls between the \<open>#ifdef\<close>s that the x86-64 headers define, with their numbers; \<open>umount\<close> and
  \<open>ni_syscall\<close> have none. \<open>defd\<close> says which of them the headers of the build know.
\<close>

definition sbox_syscalls :: "(string \<times> int) list" where
  "sbox_syscalls =
     [(''mount'', 165), (''umount2'', 166),
      (''fsopen'', 430), (''fsconfig'', 431), (''fsmount'', 432), (''move_mount'', 429), (''fspick'', 433),
      (''open_tree'', 428),
      (''ptrace'', 101), (''process_vm_readv'', 310), (''process_vm_writev'', 311),
      (''kexec_file_load'', 320), (''kexec_load'', 246),
      (''name_to_handle_at'', 303), (''open_by_handle_at'', 304),
      (''init_module'', 175), (''finit_module'', 313), (''create_module'', 174), (''delete_module'', 176),
      (''iopl'', 172), (''ioperm'', 173), (''ioprio_set'', 251),
      (''swapon'', 167), (''swapoff'', 168), (''syslog'', 103), (''personality'', 135)]"

definition sbox_filter :: "(string \<Rightarrow> bool) \<Rightarrow> u32 \<Rightarrow> sock_filter list" where
  "sbox_filter defd action =
     VALIDATE_ARCHITECTURE @ EXAMINE_SYSCALL @
     [BPF_JUMP (BPF_JMP + BPF_JGE + BPF_K) X32_SYSCALL_BIT 1 0,
      BPF_JUMP (BPF_JMP + BPF_JGE + BPF_K) 0 1 0] @ KILL_OR_RETURN_ERRNO action @
     concat (map (\<lambda>e. BLACKLIST action (word_of_int (snd e))) (filter (\<lambda>e. defd (fst e)) sbox_syscalls)) @
     RETURN_ALLOW"

text \<open>A \<open>prctl\<close> that fails is reported and otherwise ignored.\<close>

definition install_filter :: "sbox_world \<Rightarrow> (string \<Rightarrow> bool) \<Rightarrow> sbox_cfg \<Rightarrow> u32 \<Rightarrow> sock_filter list option" where
  "install_filter w defd cfg filtermask =
     (if flag filtermask SBOX_SECCOMP
      then (let f = sbox_filter defd (word_of_int (sx_arg_seccomp_error_action cfg)) in
            if sw_accept w f then Some f else None)
      else None)"

subsection \<open>Executing the helper\<close>

datatype privileges = RegularUser | RootUser

definition change_user :: "u32 \<Rightarrow> privileges result" where
  "change_user filtermask =
     (if flag filtermask SBOX_USER then Inr RegularUser
      else if flag filtermask SBOX_ROOT then Inr RootUser
      else Inl AssertFailure)"

definition check_program :: "sbox_world \<Rightarrow> string \<Rightarrow> unit result" where
  "check_program w prog =
     (case sw_path w prog of
        NoEntry \<Rightarrow> Inl (CannotOpen prog)
      | OpenFailed \<Rightarrow> Inl (ErrExit ''open'')
      | FstatFailed \<Rightarrow> Inl (ErrExit ''fstat'')
      | Opened s \<Rightarrow>
          if st_uid s \<noteq> 0 \<and> st_gid s \<noteq> 0 then Inl (NotOwnedByRoot prog)
          else if st_mode s AND 2 \<noteq> 0 then Inl (WorldWritable prog)
          else Inr ())"

text \<open>
  The process that runs the helper after a successful \<open>fexecve\<close>. The other calls on the way (\<open>dup2\<close>, \<open>setgroups\<close>,
  \<open>setresuid\<close>, \<open>setrlimit\<close>), whose failure ends the child, are taken to succeed.
\<close>

record 'k helper =
  h_argv :: "string list"
  h_env :: "string list"
  h_stdin :: stdin
  h_fds_kept :: bool
  h_caps :: 'k
  h_filter :: "sock_filter list option"
  h_privileges :: privileges

definition sbox_do_exec_v ::
    "sbox_world \<Rightarrow> (string \<Rightarrow> bool) \<Rightarrow> 'k dropper \<Rightarrow> sbox_cfg \<Rightarrow> u32 \<Rightarrow> string list \<Rightarrow> 'k \<Rightarrow> 'k helper result" where
  "sbox_do_exec_v w defd prctl_drop cfg filtermask arg k =
     bind_result (redirect_stdin w filtermask) (\<lambda>inp.
     bind_result (filter_caps prctl_drop filtermask k) (\<lambda>k'.
     let flt = install_filter w defd cfg filtermask in
     bind_result (change_user filtermask) (\<lambda>priv.
     if arg = [] then Inl AssertFailure
     else bind_result (check_program w (hd arg)) (\<lambda>_.
     if \<not> sw_exec w (hd arg) then Inl (ErrExit ''fexecve'')
     else Inr \<lparr>h_argv = arg, h_env = new_environment cfg, h_stdin = inp,
               h_fds_kept = flag filtermask SBOX_KEEP_FDS, h_caps = k', h_filter = flt, h_privileges = priv\<rparr>))))"

text \<open>
  \<open>sbox_run_v\<close> forks a child for \<open>sbox_do_exec_v\<close> and waits; \<open>run\<close> is what the helper itself does, with its exit
  code. A child that fails ends firejail too.
\<close>

definition sbox_run_v ::
    "sbox_world \<Rightarrow> (string \<Rightarrow> bool) \<Rightarrow> 'k dropper \<Rightarrow> ('k helper \<Rightarrow> 's \<Rightarrow> nat \<times> 's) \<Rightarrow> sbox_cfg \<Rightarrow> u32 \<Rightarrow> string list \<Rightarrow>
      'k \<Rightarrow> 's \<Rightarrow> 's result" where
  "sbox_run_v w defd prctl_drop run cfg filtermask arg k st =
     (if arg = [] \<or> flag filtermask SBOX_KEEP_FDS then Inl AssertFailure
      else case sbox_do_exec_v w defd prctl_drop cfg filtermask arg k of
        Inl e \<Rightarrow> Inl (ChildFailed (hd arg))
      | Inr h \<Rightarrow> (case run h st of (code, st') \<Rightarrow> if code \<noteq> 0 then Inl (ChildFailed (hd arg)) else Inr st'))"


subsection \<open>What is left for the helper\<close>

lemma sbox_numbers: "list_all (\<lambda>e. syscall_find_name (fst e) = snd e) sbox_syscalls"
  by (simp only: sbox_syscalls_def list.pred_inject fst_conv snd_conv syscall_find_name_def syslist_defs table_eval)

lemma sbox_entries: "set sbox_syscalls \<subseteq> set (table_of True)"
proof
  fix e assume e: "e \<in> set sbox_syscalls"
  then have "snd e \<noteq> SYSCALL_ERROR" by (auto simp: sbox_syscalls_def SYSCALL_ERROR_def INT_MAX_def)
  with e sbox_numbers find_name_entry(1) [of "fst e" "snd e"] show "e \<in> set (table_of True)"
    by (auto simp: list_all_iff)
qed

lemma sbox_filter_code:
  "sbox_filter defd act =
     blacklist_code act True (map (\<lambda>e. (word_of_int (snd e), act)) (filter (\<lambda>e. defd (fst e)) sbox_syscalls))"
  by (simp add: sbox_filter_def blacklist_code_def init_code_def HANDLE_X32_def secondary_rules)

abbreviation SECCOMP_RET_ACTION_FULL :: u32 where "SECCOMP_RET_ACTION_FULL \<equiv> 0xffff0000"

lemma kill_action:
  assumes "0 \<le> e" "e < 0x10000"
  shows "(word_of_int e :: u32) AND SECCOMP_RET_ACTION_FULL = SECCOMP_RET_KILL"
proof (rule bit_word_eqI)
  fix n assume n: "n < LENGTH(32)"
  have m: "SECCOMP_RET_ACTION_FULL = push_bit 16 0xffff" by (simp add: push_bit_eq_mult)
  have "\<not> bit e n" if "16 \<le> n"
  proof -
    have "(0x10000 :: int) \<le> 2 ^ n" using power_increasing [OF that, of "2 :: int"] by simp
    with assms show ?thesis by (simp add: bit_iff_odd)
  qed
  then show "bit ((word_of_int e :: u32) AND SECCOMP_RET_ACTION_FULL) n \<longleftrightarrow> bit SECCOMP_RET_KILL n"
    unfolding m bit_and_iff bit_push_bit_iff bit_word_of_int_iff using n by (cases "16 \<le> n") auto
qed

text \<open>
  The filter of the helper programs refuses, among all named system calls, exactly the listed ones, and every
  x32 call, and it allows other architectures. Firejail keeps an error number without \<open>SECCOMP_RET_ERRNO\<close> in
  \<open>arg_seccomp_error_action\<close>, which the kernel reads as the action to kill: with an error action that is an errno,
  the default among them, the helper is killed and does not get the error.
\<close>

theorem sbox_filter_verdicts:
  assumes "bpf_vm run"
  shows "(\<forall>name s args. (name, s) \<in> set (table_of True) \<longrightarrow>
      run (sbox_filter defd act) (call True s args) 0 =
        (if name \<in> set (map fst sbox_syscalls) \<and> defd name then act else SECCOMP_RET_ALLOW)) \<and>
    (\<forall>d. sd_arch d = ARCH_NR \<and> X32_SYSCALL_BIT \<le> sd_nr d \<longrightarrow> run (sbox_filter defd act) d 0 = act) \<and>
    (\<forall>d. sd_arch d \<noteq> ARCH_NR \<longrightarrow> run (sbox_filter defd act) d 0 = SECCOMP_RET_ALLOW) \<and>
    (0 \<le> e \<and> e < 0x10000 \<and> act = word_of_int e \<longrightarrow> act AND SECCOMP_RET_ACTION_FULL = SECCOMP_RET_KILL)"
proof -
  let ?rs = "map (\<lambda>e. (word_of_int (snd e), act)) (filter (\<lambda>e. defd (fst e)) sbox_syscalls) :: rule list"
  have "run (sbox_filter defd act) (call True s args) 0 =
        (if name \<in> set (map fst sbox_syscalls) \<and> defd name then act else SECCOMP_RET_ALLOW)"
    if t: "(name, s) \<in> set (table_of True)" for name s args
  proof -
    have "(\<exists>e \<in> set (filter (\<lambda>e. defd (fst e)) sbox_syscalls). (word_of_int (snd e) :: u32) = word_of_int s) \<longleftrightarrow>
        name \<in> set (map fst sbox_syscalls) \<and> defd name"
      using table_name_iff [OF _ t] sbox_entries by force
    then have "map_of ?rs (word_of_int s) =
        (if name \<in> set (map fst sbox_syscalls) \<and> defd name then Some act else None)"
      by (simp only: map_of_key)
    then show ?thesis
      unfolding sbox_filter_code using table_small [OF t] by (simp add: blacklist_verdict [OF assms])
  qed
  then show ?thesis
    using kill_action [of e]
    by (simp add: sbox_filter_code blacklist_code_def bpf_vm.run_blacklist_filter [OF assms] decide_def)
qed

text \<open>
  The capabilities that a mask leaves: none with \<open>SBOX_CAPS_NONE\<close>, all when no set is asked for, and the two of each
  set otherwise.
\<close>

definition cap_left :: "u32 \<Rightarrow> nat \<Rightarrow> bool" where
  "cap_left filtermask d \<longleftrightarrow>
     \<not> flag filtermask SBOX_CAPS_NONE \<and>
     (\<not> flag filtermask SBOX_CAPS_NETWORK \<and> \<not> flag filtermask SBOX_CAPS_HIDEPID \<and>
        \<not> flag filtermask SBOX_CAPS_NET_SERVICE \<or>
      flag filtermask SBOX_CAPS_NETWORK \<and> d \<in> {12, 13} \<or>
      flag filtermask SBOX_CAPS_HIDEPID \<and> d \<in> {19, 20} \<or>
      flag filtermask SBOX_CAPS_NET_SERVICE \<and> d \<in> {10, 11})"

lemma bit_add_caps:
  "c1 < 64 \<Longrightarrow> c2 < 64 \<Longrightarrow> bit (add_caps filtermask f c1 c2 s) d \<longleftrightarrow> bit s d \<or> flag filtermask f \<and> (d = c1 \<or> d = c2)"
  by (auto simp: add_caps_def bit_or_iff bit_push_bit_iff bit_exp_iff)

lemma bit_caps_of_mask:
  "bit (caps_of_mask filtermask) d \<longleftrightarrow>
     flag filtermask SBOX_CAPS_NETWORK \<and> d \<in> {12, 13} \<or> flag filtermask SBOX_CAPS_HIDEPID \<and> d \<in> {19, 20} \<or>
     flag filtermask SBOX_CAPS_NET_SERVICE \<and> d \<in> {10, 11}"
  by (auto simp: caps_of_mask_def bit_add_caps cap_numbers)

lemma caps_of_mask_zero:
  "caps_of_mask filtermask = 0 \<longleftrightarrow> \<not> flag filtermask SBOX_CAPS_NETWORK \<and> \<not> flag filtermask SBOX_CAPS_HIDEPID \<and>
     \<not> flag filtermask SBOX_CAPS_NET_SERVICE"
proof -
  have "caps_of_mask filtermask = 0 \<longleftrightarrow> (\<forall>d. \<not> bit (caps_of_mask filtermask) d)"
    by (metis bit_0_eq bot_apply bot_bool_def bit_word_eqI)
  then show ?thesis unfolding bit_caps_of_mask by auto
qed

lemma filter_caps_has:
  assumes "capbset prctl_drop has_cap" "filter_caps prctl_drop filtermask k = Inr k'"
  shows "has_cap k' d \<longleftrightarrow> has_cap k d \<and> (d < 64 \<longrightarrow> cap_left filtermask d)"
proof (cases "flag filtermask SBOX_CAPS_NONE")
  case True
  with assms(2) capbset.drop_all_has [OF assms(1), of k k' d] show ?thesis
    by (auto simp: filter_caps_def cap_left_def)
next
  case False
  with assms(2) capbset.caps_set_has [OF assms(1), of "caps_of_mask filtermask" k k' d] show ?thesis
    by (auto simp: filter_caps_def cap_left_def Let_def bit_caps_of_mask caps_of_mask_zero split: if_splits)
qed

definition env_name :: "string \<Rightarrow> string" where
  "env_name s = takeWhile (\<lambda>c. c \<noteq> CHR ''='') s"

lemma env_name_prefix: "env_name (n @ CHR ''='' # v) = n" if "CHR ''='' \<notin> set n"
  using that by (auto simp: env_name_def takeWhile_tail)

lemma new_environment_names:
  "distinct (map env_name (new_environment cfg))" "set (map env_name (new_environment cfg)) \<subseteq> set env_whitelist_sbox"
  by (auto simp: new_environment_def env_name_def env_whitelist_sbox_def split: option.splits)

lemma check_program_ok:
  "check_program w prog = Inr u \<Longrightarrow>
     \<exists>s. sw_path w prog = Opened s \<and> (st_uid s = 0 \<or> st_gid s = 0) \<and> \<not> bit (st_mode s) 1"
  using and_exp_eq_0_iff_not_bit [of _ 1, where ?'a = u32]
  by (auto simp: check_program_def split: opened_file.splits if_splits)


subsection \<open>An example\<close>

definition demo_helpers :: sbox_world where
  "demo_helpers = \<lparr>sw_stdin_file = True, sw_dev_null = True,
     sw_path = (\<lambda>_. Opened \<lparr>st_uid = 0, st_gid = 0, st_mode = 0x81ED\<rparr>), sw_accept = \<lambda>_. True, sw_exec = \<lambda>_. True\<rparr>"

definition demo_sbox :: sbox_cfg where
  "demo_sbox = \<lparr>sx_envlist = demo_settings, sx_quiet = True, sx_debug = False, sx_seccomp_error_action = Some ''EPERM'',
     sx_arg_seccomp_error_action = 1\<rparr>"


theorem sbox_filter_verdicts_witness:
  "bpf_run (sbox_filter (\<lambda>_. True) 1) (call True 165 (\<lambda>_. 0)) 0 = 1 \<and>
   bpf_run (sbox_filter (\<lambda>_. True) 1) (call True 9 (\<lambda>_. 0)) 0 = SECCOMP_RET_ALLOW \<and>
   (1 :: u32) AND SECCOMP_RET_ACTION_FULL = SECCOMP_RET_KILL"
proof -
  have "(''mount'', 165) \<in> set (table_of True)"
    by (rule subsetD [OF sbox_entries]) (simp add: sbox_syscalls_def)
  with sbox_filter_verdicts [OF ref_vm.bpf_vm_axioms, of "\<lambda>_. True" 1 1] mdwx_entries(1) show ?thesis
    by (fastforce simp: sbox_syscalls_def)
qed

end
