(* ===== verification/Util.thy ===== *)
theory Util
  imports Net_Common
begin

text \<open>
  The string functions of \<open>firejail/util.c\<close> and \<open>lib/common.c\<close>: cleaning of profile lines and path names, validation of
  names, sizes, times and file names. The functions that copy into a buffer are list functions here; the theorems state
  what the comments of the source promise, for every input.
\<close>

abbreviation slash :: char where "slash \<equiv> CHR ''/''"
abbreviation dot :: char where "dot \<equiv> CHR ''.''"
abbreviation space :: char where "space \<equiv> CHR 0x20"
abbreviation tab :: char where "tab \<equiv> CHR 0x09"
abbreviation newline :: char where "newline \<equiv> CHR 0x0A"
abbreviation cr :: char where "cr \<equiv> CHR 0x0D"

subsection \<open>Reading a file by lines\<close>

text \<open>
  \<open>fgets(buf, sz, fp)\<close> on the rest of a file: the characters up to and with the next newline, at most \<open>sz - 1\<close> of
  them; and the lines of the loop \<open>while (fgets(buf, sz, fp))\<close>.
\<close>

definition fgets_line :: "nat \<Rightarrow> string \<Rightarrow> string" where
  "fgets_line sz s =
     take (sz - 1) (takeWhile (\<lambda>c. c \<noteq> newline) s @ (if newline \<in> set s then [newline] else []))"

function fgets_lines :: "nat \<Rightarrow> string \<Rightarrow> string list" where
  "fgets_lines sz s =
     (let l = fgets_line sz s in if l = [] then [] else l # fgets_lines sz (drop (length l) s))"
  by pat_completeness auto
termination
proof (relation "measure (length \<circ> snd)")
  fix sz s l
  assume "l = fgets_line sz s" "l \<noteq> []"
  then show "((sz, drop (length l) s), sz, s) \<in> measure (length \<circ> snd)" by (cases s) (auto simp: fgets_line_def)
qed simp

declare fgets_lines.simps [simp del]

lemma fgets_lines_append:
  assumes "list_all (\<lambda>l. newline \<notin> set l \<and> length l + 1 < sz) ls"
  shows "fgets_lines sz (concat (map (\<lambda>l. l @ [newline]) ls) @ r) = map (\<lambda>l. l @ [newline]) ls @ fgets_lines sz r"
  using assms
proof (induction ls)
  case (Cons l ls)
  let ?r = "concat (map (\<lambda>l. l @ [newline]) ls) @ r"
  have "takeWhile (\<lambda>c. c \<noteq> newline) (l @ newline # ?r) = l" using Cons.prems by (subst takeWhile_append2) auto
  moreover have "take (sz - 1) (l @ [newline]) = l @ [newline]" using Cons.prems by (intro take_all) auto
  ultimately have "fgets_line sz (l @ newline # ?r) = l @ [newline]" by (simp add: fgets_line_def del: take_append)
  then show ?case using Cons by (simp add: fgets_lines.simps [of _ "l @ newline # ?r"])
qed simp

lemma fgets_lines_concat:
  "list_all (\<lambda>l. newline \<notin> set l \<and> length l + 1 < sz) ls \<Longrightarrow>
   fgets_lines sz (concat (map (\<lambda>l. l @ [newline]) ls)) = map (\<lambda>l. l @ [newline]) ls"
  using fgets_lines_append [of sz ls "[]"] by (simp add: fgets_lines.simps [of _ "[]"] fgets_line_def)

subsection \<open>Profile lines\<close>

definition is_blank :: "char \<Rightarrow> bool" where
  "is_blank c \<longleftrightarrow> c = space \<or> c = tab"

text \<open>The loop of \<open>line_remove_spaces\<close>; \<open>state\<close> is true after a blank has been copied.\<close>

function copy_words :: "bool \<Rightarrow> string \<Rightarrow> string" where
  "copy_words state [] = []"
| "copy_words state (c # r) =
     (if c = newline \<or> c = cr then []
      else if \<not> state
      then (if \<not> is_blank c then c # copy_words False r else space # copy_words True r)
      else copy_words False (dropWhile is_blank (c # r)))"
  by pat_completeness auto
termination
proof (relation "measure (\<lambda>(state, s). 2 * length s + (if state then 1 else 0))")
  fix state c r
  show "((False, dropWhile is_blank (c # r)), (state, c # r)) \<in> measure (\<lambda>(state, s). 2 * length s + (if state then 1 else 0))"
    if "\<not> \<not> state" using that length_dropWhile_le [of is_blank "c # r"] by simp
qed simp_all

definition strip_blank :: "string \<Rightarrow> string" where
  "strip_blank rv = (if rv \<noteq> [] \<and> last rv = space then butlast rv else rv)"

definition line_remove_spaces :: "string \<Rightarrow> string option" where
  "line_remove_spaces buf =
     (if buf = [] then None else Some (strip_blank (copy_words False (dropWhile is_blank buf))))"

subsection \<open>Path names\<close>

function trim_trailing_slash_or_dot :: "string \<Rightarrow> string" where
  "trim_trailing_slash_or_dot path =
     (if 1 < length path \<and> (last path = slash \<or> last path = dot \<and> path ! (length path - 2) = slash)
      then trim_trailing_slash_or_dot (butlast path) else path)"
  by pat_completeness auto
termination
  by (relation "measure length") auto

declare trim_trailing_slash_or_dot.simps [simp del]

text \<open>\<open>while (path[i+1] == '/' || (path[i+1] == '.' && path[i+2] == '/')) i++\<close>: the character at \<open>i\<close> and the rest.\<close>

fun skip_slashes :: "char \<Rightarrow> string \<Rightarrow> char \<times> string" where
  "skip_slashes c [] = (c, [])"
| "skip_slashes c (d # q) =
     (if d = slash \<or> d = dot \<and> q \<noteq> [] \<and> hd q = slash then skip_slashes d q else (c, d # q))"

lemma skip_slashes_length: "length (snd (skip_slashes c r)) \<le> length r"
  by (induction c r rule: skip_slashes.induct) auto

function clean_loop :: "string \<Rightarrow> string" where
  "clean_loop [] = []"
| "clean_loop (c # r) =
     (if c = slash then fst (skip_slashes c r) # clean_loop (snd (skip_slashes c r)) else c # clean_loop r)"
  by pat_completeness auto
termination
  using skip_slashes_length by (relation "measure length") (auto simp: less_Suc_eq_le)

definition remove_trailing_dot :: "string \<Rightarrow> string" where
  "remove_trailing_dot rv =
     (if 1 < length rv \<and> last rv = dot \<and> rv ! (length rv - 2) = slash then butlast rv else rv)"

definition remove_trailing_slash :: "string \<Rightarrow> string" where
  "remove_trailing_slash rv = (if 1 < length rv \<and> last rv = slash then butlast rv else rv)"

definition clean_pathname :: "string \<Rightarrow> string result" where
  "clean_pathname path =
     (if path = [] \<or> hd path \<noteq> slash then Inl AssertFailure
      else Inr (remove_trailing_slash (remove_trailing_dot (clean_loop path))))"

definition gnu_basename :: "string \<Rightarrow> string" where
  "gnu_basename path = rev (takeWhile (\<lambda>c. c \<noteq> slash) (rev path))"

text \<open>The string before the first comma, and the return value.\<close>

definition split_comma :: "string \<Rightarrow> string \<times> string option" where
  "split_comma str =
     (case cut_at (CHR '','') str of
        (a, None) \<Rightarrow> (a, None)
      | (a, Some b) \<Rightarrow> (a, if b = [] then None else Some b))"

subsection \<open>Names\<close>

definition ascii_isdigit :: "char \<Rightarrow> bool" where
  "ascii_isdigit c \<longleftrightarrow> 48 \<le> (of_char c :: nat) \<and> (of_char c :: nat) \<le> 57"

definition ascii_islower :: "char \<Rightarrow> bool" where
  "ascii_islower c \<longleftrightarrow> 97 \<le> (of_char c :: nat) \<and> (of_char c :: nat) \<le> 122"

definition ascii_isupper :: "char \<Rightarrow> bool" where
  "ascii_isupper c \<longleftrightarrow> 65 \<le> (of_char c :: nat) \<and> (of_char c :: nat) \<le> 90"

definition ascii_isalpha :: "char \<Rightarrow> bool" where
  "ascii_isalpha c \<longleftrightarrow> ascii_islower c \<or> ascii_isupper c"

definition ascii_isalnum :: "char \<Rightarrow> bool" where
  "ascii_isalnum c \<longleftrightarrow> ascii_isalpha c \<or> ascii_isdigit c"

text \<open>The loop over the characters after the first, with the character before them.\<close>

fun invalid_name_loop :: "bool \<Rightarrow> char \<Rightarrow> string \<Rightarrow> bool" where
  "invalid_name_loop only_numbers prev [] = (\<not> ascii_isalnum prev \<or> only_numbers)"
| "invalid_name_loop only_numbers prev (c # r) =
     (if c = CHR ''-'' \<or> c = dot \<or> c = CHR ''_'' then invalid_name_loop False c r
      else if \<not> ascii_isalnum c then True
      else invalid_name_loop (only_numbers \<and> ascii_isdigit c) c r)"

definition invalid_name :: "string \<Rightarrow> bool" where
  "invalid_name name =
     (253 < length name \<or>
      (case name of
         [] \<Rightarrow> True
       | c # r \<Rightarrow> \<not> ascii_isalnum c \<or> invalid_name_loop (ascii_isdigit c) c r))"


subsection \<open>Sizes, times and numbers\<close>

text \<open>
  \<open>sscanf(str, "%llu", &result)\<close>, where \<open>result\<close> keeps its value 0 when there is no number. \<open>prev\<close> is the character
  before the string, which is read when the string is empty: the callers pass the rest of a longer string.
\<close>

definition scan_llu :: "string \<Rightarrow> u64" where
  "scan_llu s =
     (case scan_sign (length s) (dropWhile c_isspace s) of (neg, w, t) \<Rightarrow>
        (case scan_digits 10 w t of None \<Rightarrow> 0 | Some (m, _) \<Rightarrow> strtoul_value neg m))"

definition parse_arg_size :: "char \<Rightarrow> string \<Rightarrow> u64" where
  "parse_arg_size prev str =
     (let res = scan_llu str;
          suffix = last (prev # str);
          len = (if \<not> c_isdigit suffix \<and> (suffix = CHR ''k'' \<or> suffix = CHR ''m'' \<or> suffix = CHR ''g'')
                 then length str - 1 else length str) in
      if \<not> list_all c_isdigit (take len str) then 0
      else if c_isdigit suffix then res
      else if suffix = CHR ''k'' then res * 1024
      else if suffix = CHR ''m'' then res * (1024 * 1024)
      else if suffix = CHR ''g'' then res * (1024 * 1024 * 1024)
      else 0)"

definition extract_timeout :: "string \<Rightarrow> u32 result" where
  "extract_timeout str =
     (case Option.bind (scan_int 10 2 str) (\<lambda>(h, s). Option.bind (scan_lit (CHR '':'') s) (\<lambda>s.
           Option.bind (scan_int 10 2 s) (\<lambda>(m, s). Option.bind (scan_lit (CHR '':'') s) (\<lambda>s.
           Option.bind (scan_int 10 2 s) (\<lambda>(s, _). Some (h, m, s)))))) of
        None \<Rightarrow> Inl InvalidArguments
      | Some (h, m, s) \<Rightarrow>
          let timeout = h * 3600 + m * 60 + s in
          if timeout = 0 then Inl InvalidArguments else Inr timeout)"

fun check_unsigned :: "string \<Rightarrow> unit result" where
  "check_unsigned [] = Inr ()"
| "check_unsigned (c # r) =
     (if is_blank c then Inr ()
      else if \<not> c_isdigit c then Inl InvalidArguments
      else check_unsigned r)"

subsection \<open>Control characters\<close>

definition iscntrl :: "char \<Rightarrow> bool" where
  "iscntrl c \<longleftrightarrow> (of_char c :: nat) < 32 \<or> (of_char c :: nat) = 127"

definition has_cntrl_chars :: "string \<Rightarrow> bool" where
  "has_cntrl_chars str = list_ex iscntrl str"

definition replace_cntrl_chars :: "string \<Rightarrow> char \<Rightarrow> string" where
  "replace_cntrl_chars str c = map (\<lambda>d. if iscntrl d then c else d) str"

text \<open>The characters that are counted, with the letter that is written after the backslash.\<close>

definition escapes :: "(char \<times> char) list" where
  "escapes =
     [(CHR 0x08, CHR ''b''), (CHR 0x07, CHR ''a''), (CHR 0x1B, CHR ''e''), (CHR 0x0C, CHR ''f''), (CHR 0x0A, CHR ''n''),
      (CHR 0x0D, CHR ''r''), (CHR 0x09, CHR ''t''), (CHR 0x0B, CHR ''v''), (CHR 0x22, CHR 0x22), (CHR 0x27, CHR 0x27),
      (CHR ''?'', CHR ''?''), (CHR 0x5C, CHR 0x5C)]"

definition cntrl_chars :: "string \<Rightarrow> nat" where
  "cntrl_chars str = length (filter (\<lambda>c. map_of escapes c \<noteq> None) str)"

text \<open>The buffer has room for \<open>strlen(str) + cntrl_chars\<close> characters and the final zero.\<close>

definition escape_char :: "char \<Rightarrow> string" where
  "escape_char c =
     (if iscntrl c then CHR 0x5C # (case map_of escapes c of None \<Rightarrow> [] | Some e \<Rightarrow> [e]) else [c])"

definition escape_cntrl_chars :: "string \<Rightarrow> string result" where
  "escape_cntrl_chars str =
     (let out = concat (map escape_char str) in
      if length out + 1 \<le> length str + cntrl_chars str + 1 then Inr out else Inl BufferOverflow)"

definition reject_cntrl_chars :: "string \<Rightarrow> unit result" where
  "reject_cntrl_chars fname =
     (if has_cntrl_chars fname then Inl (InvalidEntry (replace_cntrl_chars fname (CHR ''?''))) else Inr ())"

definition meta_chars :: "bool \<Rightarrow> string" where
  "meta_chars globbing =
     (if globbing then CHR 0x5C # ''&!'' @ CHR 0x22 # ''<>%^{};,''
      else CHR 0x5C # ''&!?'' @ CHR 0x22 # ''<>%^{};,*[]'')"

definition reject_meta_chars :: "string \<Rightarrow> bool \<Rightarrow> unit result" where
  "reject_meta_chars fname globbing =
     bind_result (reject_cntrl_chars fname) (\<lambda>_.
     if list_ex (\<lambda>c. c \<in> set (meta_chars globbing)) fname then Inl (InvalidEntry fname) else Inr ())"

subsection \<open>What a cleaned line is\<close>

fun join_with :: "char \<Rightarrow> string list \<Rightarrow> string" where
  "join_with c [] = []"
| "join_with c [w] = w"
| "join_with c (w # ws) = w @ c # join_with c ws"

text \<open>The part of the buffer before the end of the line, with tabs as spaces.\<close>

definition first_line :: "string \<Rightarrow> string" where
  "first_line s = map (\<lambda>c. if c = tab then space else c) (takeWhile (\<lambda>c. c \<noteq> newline \<and> c \<noteq> cr) s)"

function collapse :: "string \<Rightarrow> string" where
  "collapse [] = []"
| "collapse (c # r) = (if c = space then space # collapse (dropWhile (\<lambda>c. c = space) r) else c # collapse r)"
  by pat_completeness auto
termination
  by (relation "measure length") (auto simp: less_Suc_eq_le length_dropWhile_le)

lemma first_line_dropWhile: "first_line (dropWhile is_blank s) = dropWhile (\<lambda>c. c = space) (first_line s)"
  by (induction s) (auto simp: first_line_def is_blank_def)

lemma copy_words_collapse:
  "copy_words state s = collapse (if state then dropWhile (\<lambda>c. c = space) (first_line s) else first_line s)"
proof (induction state s rule: copy_words.induct)
  case (2 state c r)
  show ?case
  proof (cases "c = newline \<or> c = cr")
    case True
    then show ?thesis by (auto simp: first_line_def)
  next
    case nl: False
    then have f: "first_line (c # r) = (if c = tab then space else c) # first_line r" by (simp add: first_line_def)
    show ?thesis
    proof (cases state)
      case False
      with nl 2(1,2) f show ?thesis by (cases "is_blank c") (auto simp: is_blank_def)
    next
      case True
      with nl 2(3) have "copy_words state (c # r) = collapse (first_line (dropWhile is_blank (c # r)))" by auto
      with True show ?thesis by (simp only: first_line_dropWhile if_True)
    qed
  qed
qed (simp add: first_line_def)

lemma collapse_word: "space \<notin> set w \<Longrightarrow> collapse (w @ r) = w @ collapse r"
  by (induction w) auto

lemma strtok_leading: "strtok c (dropWhile (\<lambda>d. d = c) s) = strtok c s"
  by (induction s) (auto simp: strtok_def)

lemma collapse_words:
  "(s = [] \<or> hd s \<noteq> space) \<Longrightarrow> strip_blank (collapse s) = join_with space (strtok space s)"
proof (induction "length s" arbitrary: s rule: less_induct)
  case less
  let ?w = "takeWhile (\<lambda>c. c \<noteq> space) s" and ?r = "dropWhile (\<lambda>c. c \<noteq> space) s"
  have w: "space \<notin> set ?w" by (auto dest: set_takeWhileD)
  have s: "s = ?w @ ?r" by simp
  show ?case
  proof (cases "s = []")
    case False
    with less.prems have wn: "?w \<noteq> []" by (cases s) auto
    show ?thesis
    proof (cases ?r)
      case Nil
      then have n: "space \<notin> set s" by (auto simp: dropWhile_eq_Nil_conv)
      have "collapse s = s" "strtok space s = [s]"
        using collapse_word [OF n, of "[]"] strtok_word [OF n \<open>s \<noteq> []\<close>] by simp_all
      moreover have "last s \<noteq> space" using n \<open>s \<noteq> []\<close> last_in_set by metis
      ultimately show ?thesis by (simp add: strip_blank_def)
    next
      case (Cons c r)
      then have "c = space" using hd_dropWhile [of "\<lambda>c. c \<noteq> space" s] by simp
      let ?q = "dropWhile (\<lambda>c. c = space) r"
      have e: "s = ?w @ space # r" using s Cons \<open>c = space\<close> by simp
      have "length ?q < length s"
        using arg_cong [OF e, of length] length_dropWhile_le [of "\<lambda>c. c = space" r] by simp
      then have ih: "strip_blank (collapse ?q) = join_with space (strtok space ?q)"
        using hd_dropWhile [of "\<lambda>c. c = space" r] by (intro less.hyps) auto
      have c: "collapse s = ?w @ space # collapse ?q" by (subst e) (simp add: collapse_word w)
      have t: "strtok space s = ?w # strtok space ?q"
        by (subst e) (simp add: strtok_word_sep w wn strtok_leading)
      show ?thesis
      proof (cases "?q = []")
        case True
        with c t show ?thesis by (simp add: strip_blank_def)
      next
        case False
        then have "collapse ?q \<noteq> []" by (cases ?q) auto
        moreover have "strtok space ?q \<noteq> []"
        proof -
          have "hd ?q \<noteq> space" using hd_dropWhile [of "\<lambda>c. c = space" r] False by auto
          then show ?thesis using False by (cases ?q) (auto simp: strtok_def split: list.splits)
        qed
        ultimately show ?thesis
          using c t ih by (cases "strtok space ?q") (auto simp: strip_blank_def butlast_append)
      qed
    qed
  qed (simp add: strip_blank_def)
qed

text \<open>
  A profile line is cleaned as promised: the result is the words of the line, those between spaces and tabs up to
  the end of the line, separated by single spaces. An empty buffer gives no line.
\<close>

theorem line_remove_spaces_words:
  "line_remove_spaces buf = (if buf = [] then None else Some (join_with space (strtok space (first_line buf))))"
proof -
  let ?s = "first_line (dropWhile is_blank buf)"
  have "?s = [] \<or> hd ?s \<noteq> space"
    unfolding first_line_dropWhile using hd_dropWhile [of "\<lambda>c. c = space" "first_line buf"] by auto
  from collapse_words [OF this] show ?thesis
    by (simp add: line_remove_spaces_def copy_words_collapse first_line_dropWhile strtok_leading)
qed

subsection \<open>What a cleaned path is\<close>

text \<open>The segments of a path that matter: those that are not empty and not a single dot.\<close>

definition segments :: "string \<Rightarrow> string list" where
  "segments path = filter (\<lambda>w. w \<noteq> [] \<and> w \<noteq> [dot]) (split_on slash path)"

definition path_of :: "string list \<Rightarrow> string" where
  "path_of ws = concat (map (\<lambda>w. slash # w) ws)"

lemma segments_append: "segments (a @ slash # b) = segments a @ segments b"
  by (simp add: segments_def split_on_append_sep)

lemma segments_word: "slash \<notin> set w \<Longrightarrow> segments w = (if w = [] \<or> w = [dot] then [] else [w])"
  by (simp add: segments_def split_on_no_sep)

lemma segments_Cons_slash: "segments (slash # s) = segments s"
  using segments_append [of "[]" s] by (simp add: segments_def)

lemma segments_dot_slash: "segments (dot # slash # s) = segments s"
  using segments_append [of "[dot]" s] by (simp add: segments_word)

definition relevant :: "string \<Rightarrow> bool" where
  "relevant r \<longleftrightarrow> r = [] \<or> hd r \<noteq> slash \<and> \<not> (hd r = dot \<and> tl r \<noteq> [] \<and> hd (tl r) = slash)"

lemma skip_slashes_spec:
  assumes "c = slash \<or> c = dot \<and> r \<noteq> [] \<and> hd r = slash"
  shows "\<exists>r'. skip_slashes c r = (slash, r') \<and> relevant r' \<and> segments r' = segments (c # r)"
  using assms
proof (induction r arbitrary: c)
  case Nil
  then show ?case by (auto simp: relevant_def segments_Cons_slash)
next
  case (Cons d q)
  show ?case
  proof (cases "d = slash \<or> d = dot \<and> q \<noteq> [] \<and> hd q = slash")
    case True
    with Cons.IH [OF True] Cons.prems show ?thesis by (auto simp: segments_Cons_slash segments_dot_slash)
  next
    case False
    with Cons.prems show ?thesis by (auto simp: relevant_def segments_Cons_slash)
  qed
qed

lemma clean_loop_word: "slash \<notin> set w \<Longrightarrow> clean_loop (w @ r) = w @ clean_loop r"
  by (induction w) auto

lemma clean_loop_segments:
  "\<exists>t. clean_loop (slash # r) = path_of (segments r) @ t \<and> t \<in> {[], [slash], [slash, dot]} \<and> (segments r = [] \<longrightarrow> t \<noteq> [])"
proof (induction "length r" arbitrary: r rule: less_induct)
  case less
  obtain r' where r': "skip_slashes slash r = (slash, r')" "relevant r'" "segments r' = segments r"
    using skip_slashes_spec [of slash r] by (auto simp: segments_Cons_slash)
  then have c: "clean_loop (slash # r) = slash # clean_loop r'" by simp
  let ?w = "takeWhile (\<lambda>c. c \<noteq> slash) r'" and ?q = "dropWhile (\<lambda>c. c \<noteq> slash) r'"
  have w: "slash \<notin> set ?w" by (auto dest: set_takeWhileD)
  have s: "r' = ?w @ ?q" by simp
  show ?case
  proof (cases "r' = []")
    case True
    with c r'(3) show ?thesis by (auto simp: segments_def path_of_def)
  next
    case n: False
    have wn: "?w \<noteq> []" using n r'(2) by (cases r') (auto simp: relevant_def)
    show ?thesis
    proof (cases ?q)
      case Nil
      then have "slash \<notin> set r'" by (auto simp: dropWhile_eq_Nil_conv)
      then have "segments r' = (if r' = [dot] then [] else [r'])" "clean_loop r' = r'"
        using clean_loop_word [of r' "[]"] segments_word [of r'] n by (simp_all only: append_Nil2 clean_loop.simps(1) simp_thms if_False)
      then show ?thesis unfolding c r'(3) [symmetric] by (auto simp: path_of_def)
    next
      case (Cons d q)
      then have "d = slash" using hd_dropWhile [of "\<lambda>c. c \<noteq> slash" r'] by simp
      then have e: "r' = ?w @ slash # q" using s Cons by simp
      have "?w \<noteq> [dot]" using e r'(2) by (metis append_Cons append_Nil hd_append2 list.discI list.sel(1,3) relevant_def)
      then have sg: "segments r' = ?w # segments q"
        using wn by (subst e) (simp add: segments_append segments_word w)
      have "length r' \<le> length r" using skip_slashes_length [of slash r] r'(1) by simp
      then have "length q < length r" using arg_cong [OF e, of length] by simp
      from less.hyps [OF this] obtain t where
        t: "clean_loop (slash # q) = path_of (segments q) @ t" "t \<in> {[], [slash], [slash, dot]}" "segments q = [] \<longrightarrow> t \<noteq> []"
        by blast
      have "clean_loop r' = ?w @ clean_loop (slash # q)" by (subst e) (rule clean_loop_word [OF w])
      then have "clean_loop (slash # r) = path_of (segments r) @ t"
        unfolding c r'(3) [symmetric] sg t(1) by (simp add: path_of_def)
      with t(2) sg r'(3) show ?thesis by (intro exI [of _ t]) simp
    qed
  qed
qed

lemma segments_wf: "w \<in> set (segments s) \<Longrightarrow> w \<noteq> [] \<and> w \<noteq> [dot] \<and> slash \<notin> set w"
  by (auto simp: segments_def dest: split_on_chars)

lemma path_of_end:
  assumes "ws \<noteq> []" "\<forall>w \<in> set ws. w \<noteq> [] \<and> w \<noteq> [dot] \<and> slash \<notin> set w"
  shows "\<exists>p c. path_of ws = p @ [c] \<and> p \<noteq> [] \<and> c \<noteq> slash \<and> \<not> (c = dot \<and> last p = slash)"
proof -
  obtain vs w where v: "ws = vs @ [w]" using assms(1) by (metis append_butlast_last_id)
  with assms(2) have w: "w \<noteq> []" "w \<noteq> [dot]" "slash \<notin> set w" by auto
  let ?p = "path_of vs @ slash # butlast w"
  have "path_of ws = ?p @ [last w]" using w(1) by (simp add: v path_of_def)
  moreover have "last w \<noteq> slash" using w by (metis last_in_set)
  moreover have "\<not> (last w = dot \<and> last ?p = slash)"
  proof
    assume d: "last w = dot \<and> last ?p = slash"
    have "butlast w = []"
    proof (rule ccontr)
      assume "butlast w \<noteq> []"
      with d have "slash \<in> set (butlast w)" by (auto split: if_splits dest: last_in_set)
      with w(3) show False by (auto dest: in_set_butlastD)
    qed
    with d w(1,2) show False by (metis append_butlast_last_id append_Nil)
  qed
  ultimately show ?thesis by blast
qed

text \<open>
  \<open>clean_pathname\<close> gives the canonical form of an absolute path: its segments without the empty ones and the
  single dots, each after a slash, or a lone slash if there is none.
\<close>

theorem clean_pathname_canonical:
  "clean_pathname (slash # r) = Inr (if segments r = [] then [slash] else path_of (segments r))"
proof -
  obtain t where t: "clean_loop (slash # r) = path_of (segments r) @ t" "t \<in> {[], [slash], [slash, dot]}"
    "segments r = [] \<longrightarrow> t \<noteq> []" using clean_loop_segments by blast
  have c: "clean_pathname (slash # r) =
      Inr (remove_trailing_slash (remove_trailing_dot (path_of (segments r) @ t)))"
    unfolding clean_pathname_def t(1) by simp
  show ?thesis
  proof (cases "segments r = []")
    case True
    with t(2,3) show ?thesis
      unfolding c by (auto simp: path_of_def remove_trailing_dot_def remove_trailing_slash_def)
  next
    case False
    then obtain p ch where p: "path_of (segments r) = p @ [ch]" "p \<noteq> []" "ch \<noteq> slash" "\<not> (ch = dot \<and> last p = slash)"
      using path_of_end [of "segments r"] segments_wf by meson
    have "(p @ [ch]) ! (length p - 1) = last p" using p(2) by (simp add: nth_append last_conv_nth)
    with p t(2) False show ?thesis
      unfolding c p(1) by (auto simp: remove_trailing_dot_def remove_trailing_slash_def nth_append butlast_append)
  qed
qed

lemma trim_keeps_segments:
  "path \<noteq> [] \<Longrightarrow> hd path = slash \<Longrightarrow> segments (trim_trailing_slash_or_dot path) = segments path"
proof (induction path rule: trim_trailing_slash_or_dot.induct)
  case (1 path)
  show ?case
  proof (cases "1 < length path \<and> (last path = slash \<or> last path = dot \<and> path ! (length path - 2) = slash)")
    case True
    obtain p c where p: "path = p @ [c]" "p \<noteq> []" using True by (cases path rule: rev_cases) auto
    have "segments (p @ [c]) = segments p" if "c = slash"
      using segments_append [of p "[]"] that by (simp add: segments_def)
    moreover have "segments (p @ [c]) = segments p" if "c = dot" "last p = slash"
    proof -
      have "p = butlast p @ [slash]" using that(2) p(2) by (metis append_butlast_last_id)
      then obtain q where "p = q @ [slash]" by blast
      then show ?thesis
        using that(1) segments_append [of q "[dot]"] segments_append [of q "[]"] by (simp add: segments_def)
    qed
    moreover have "path ! (length path - 2) = last p" using p by (simp add: nth_append last_conv_nth)
    ultimately have "segments path = segments p" using True p by auto
    moreover have "hd p = slash" using "1.prems" p by simp
    ultimately show ?thesis
      using 1(1) [OF True] True p by (subst trim_trailing_slash_or_dot.simps) simp
  next
    case False
    then show ?thesis by (subst trim_trailing_slash_or_dot.simps) auto
  qed
qed

text \<open>The example of the source.\<close>

lemma trim_example: "trim_trailing_slash_or_dot ''/foo/bar///././.'' = ''/foo/bar''"
  by (simp add: trim_trailing_slash_or_dot.simps)

subsection \<open>Valid names and sizes\<close>

definition name_char :: "char \<Rightarrow> bool" where
  "name_char c \<longleftrightarrow> ascii_isalnum c \<or> c \<in> {CHR ''-'', dot, CHR ''_''}"

lemma ascii_special: "\<not> ascii_isalnum (CHR ''-'')" "\<not> ascii_isalnum dot" "\<not> ascii_isalnum (CHR ''_'')"
  "ascii_isdigit c \<Longrightarrow> ascii_isalnum c"
  by (simp_all add: ascii_isalnum_def ascii_isalpha_def ascii_isdigit_def ascii_islower_def ascii_isupper_def)

lemma invalid_name_loop_spec:
  "invalid_name_loop only prev r \<longleftrightarrow>
     \<not> (list_all name_char r \<and> ascii_isalnum (last (prev # r)) \<and> \<not> (only \<and> list_all ascii_isdigit r))"
proof (induction only prev r rule: invalid_name_loop.induct)
  case (2 only prev c r)
  then show ?case using ascii_special by (auto simp: name_char_def)
qed auto

text \<open>
  A sandbox name or host name is accepted exactly as documented: at most 253 characters, all of them letters,
  digits or one of the three special characters, the first and the last a letter or digit, and not only digits.
\<close>

theorem invalid_name_spec:
  "\<not> invalid_name name \<longleftrightarrow>
     name \<noteq> [] \<and> length name \<le> 253 \<and> list_all name_char name \<and> ascii_isalnum (hd name) \<and> ascii_isalnum (last name) \<and>
     \<not> list_all ascii_isdigit name"
  by (cases name) (auto simp: invalid_name_def invalid_name_loop_spec name_char_def)

lemma c_isdigit_value: "c_isdigit c \<longleftrightarrow> digit_value c < 10"
proof -
  have "c_isdigit c \<longleftrightarrow> 48 \<le> (of_char c :: nat) \<and> (of_char c :: nat) \<le> 57"
  proof
    assume a: "48 \<le> (of_char c :: nat) \<and> (of_char c :: nat) \<le> 57"
    then have "(of_char c :: nat) \<in> {48, 49, 50, 51, 52, 53, 54, 55, 56, 57}"
      unfolding insert_iff empty_iff by presburger
    then have "char_of (of_char c :: nat) \<in> set ''0123456789''" by (elim insertE emptyE) (simp_all add: char_of_def bit_0)
    then show "c_isdigit c" by (simp add: c_isdigit_def)
  qed (auto simp: c_isdigit_def)
  then show ?thesis by (auto simp: digit_value_def Let_def)
qed

lemma scan_llu_fmt:
  assumes "n < 2 ^ 64" "r = [] \<or> 10 \<le> digit_value (hd r)"
  shows "scan_llu (fmt_u n @ r) = word_of_nat n"
proof -
  have d: "fmt_u n \<noteq> []" "list_all (\<lambda>c. digit_value c < 10) (fmt_u n)"
    using digits_of_digits [of 10 n] by (simp_all add: fmt_u_def)
  then have "digit_value (hd (fmt_u n)) < 10" by (cases "fmt_u n") simp_all
  then have "scan_sign w (dropWhile c_isspace (fmt_u n @ r)) = (False, w, fmt_u n @ r)" for w
    using d(1) by (intro scan_start) simp_all
  moreover have "scan_digits 10 (length (fmt_u n @ r)) (fmt_u n @ r) = Some (n, r)"
    using scan_digits_all [OF d, of "length (fmt_u n @ r)" r] assms(2) by auto
  ultimately show ?thesis using assms(1) by (simp add: scan_llu_def strtoul_value_def)
qed

text \<open>
  A size is a decimal number with an optional suffix: the value is the number times 1024 to the power of the
  suffix, modulo \<open>2 ^ 64\<close>, so that a large number of gigabytes wraps around, and may even be taken for zero, the value
  that stands for an error; anything that is not digits before the suffix is such an error.
\<close>

theorem parse_arg_size_value:
  assumes "n < 2 ^ 64"
  shows "parse_arg_size p (fmt_u n) = word_of_nat n \<and>
    parse_arg_size p (fmt_u n @ ''k'') = word_of_nat (n * 2 ^ 10) \<and>
    parse_arg_size p (fmt_u n @ ''m'') = word_of_nat (n * 2 ^ 20) \<and>
    parse_arg_size p (fmt_u n @ ''g'') = word_of_nat (n * 2 ^ 30) \<and>
    (\<not> list_all c_isdigit (butlast str) \<longrightarrow> parse_arg_size p str = 0)"
proof -
  have d: "fmt_u n \<noteq> []" "list_all c_isdigit (fmt_u n)"
    using digits_of_digits [of 10 n] by (simp_all add: fmt_u_def list_all_iff c_isdigit_value)
  then have l: "c_isdigit (last (fmt_u n))" by (simp add: list_all_iff)
  have s: "scan_llu (fmt_u n) = word_of_nat n" using scan_llu_fmt [OF assms, of "[]"] by simp
  have x: "scan_llu (fmt_u n @ [c]) = word_of_nat n" if "10 \<le> digit_value c" for c
    using scan_llu_fmt [OF assms, of "[c]"] that by simp
  have nd: "\<not> c_isdigit (CHR ''k'')" "\<not> c_isdigit (CHR ''m'')" "\<not> c_isdigit (CHR ''g'')"
    "10 \<le> digit_value (CHR ''k'')" "10 \<le> digit_value (CHR ''m'')" "10 \<le> digit_value (CHR ''g'')"
    by (simp_all add: c_isdigit_def digit_value_def)
  have "parse_arg_size p str = 0" if "\<not> list_all c_isdigit (butlast str)"
  proof -
    have "\<not> list_all c_isdigit (take k str)" if "length str - 1 \<le> k" for k
      using \<open>\<not> list_all c_isdigit (butlast str)\<close> that
      by (metis append_take_drop_id butlast_conv_take list_all_append min_def take_take)
    then show ?thesis by (simp add: parse_arg_size_def Let_def)
  qed
  then show ?thesis
    using d l s x nd by (simp add: parse_arg_size_def Let_def)
qed

theorem parse_arg_size_value_witness:
  "parse_arg_size (CHR '' '') (fmt_u 17179869184 @ ''g'') = 0 \<and> parse_arg_size (CHR '' '') ''1x2'' = 0"
  using parse_arg_size_value [of 17179869184 "CHR '' ''" "''1x2''"] by (simp add: c_isdigit_def)

lemma length_escape_char: "length (escape_char c) \<le> 1 + (if map_of escapes c \<noteq> None then 1 else 0)"
  by (auto simp: escape_char_def split: option.splits)

text \<open>The buffer of \<open>escape_cntrl_chars\<close> is large enough.\<close>

theorem escape_cntrl_chars_fits: "escape_cntrl_chars str = Inr (concat (map escape_char str))"
proof -
  have "length (concat (map escape_char str)) \<le> length str + cntrl_chars str"
  proof (induction str)
    case (Cons c str)
    with length_escape_char [of c] show ?case by (auto simp: cntrl_chars_def split: if_splits)
  qed (simp add: cntrl_chars_def)
  then show ?thesis by (simp add: escape_cntrl_chars_def)
qed

end
