(* ===== verification/Macros.thy ===== *)
theory Macros
  imports Util
begin

text \<open>
  \<open>firejail/macros.c\<close>: the directory macros of profile files and the validation of file names. The user's home
  directory, the lines of \<open>~/.config/user-dirs.dirs\<close> and the existence of files come from a record of the environment.
  A macro is replaced only by a directory that exists.
\<close>

record Macro =
  m_name :: string
  m_xdg :: string
  m_translation :: "string list"

text \<open>The translations are UTF-8 byte sequences.\<close>

definition macro_table :: "Macro list" where
  "macro_table =
     [\<lparr>m_name = ''${DOWNLOADS}'', m_xdg = ''XDG_DOWNLOAD_DIR='' @ [CHR 0x22] @ ''$HOME/'',
        m_translation = [''Downloads'', [CHR 0xD0, CHR 0x97, CHR 0xD0, CHR 0xB0, CHR 0xD0, CHR 0xB3, CHR 0xD1, CHR 0x80, CHR 0xD1, CHR 0x83, CHR 0xD0, CHR 0xB7, CHR 0xD0, CHR 0xBA, CHR 0xD0, CHR 0xB8], ''T'' @ [CHR 0xC3, CHR 0xA9] @ ''l'' @ [CHR 0xC3, CHR 0xA9] @ ''chargement'', ''Scaricati'', ''Descargas'']\<rparr>,
      \<lparr>m_name = ''${MUSIC}'', m_xdg = ''XDG_MUSIC_DIR='' @ [CHR 0x22] @ ''$HOME/'',
        m_translation = [''Music'', [CHR 0xD0, CHR 0x9C, CHR 0xD1, CHR 0x83, CHR 0xD0, CHR 0xB7, CHR 0xD1, CHR 0x8B, CHR 0xD0, CHR 0xBA, CHR 0xD0, CHR 0xB0], ''Musique'', ''Musica'', ''M'' @ [CHR 0xC3, CHR 0xBA] @ ''sica'', ''Musik'']\<rparr>,
      \<lparr>m_name = ''${VIDEOS}'', m_xdg = ''XDG_VIDEOS_DIR='' @ [CHR 0x22] @ ''$HOME/'',
        m_translation = [''Videos'', [CHR 0xD0, CHR 0x92, CHR 0xD0, CHR 0xB8, CHR 0xD0, CHR 0xB4, CHR 0xD0, CHR 0xB5, CHR 0xD0, CHR 0xBE], ''Vid'' @ [CHR 0xC3, CHR 0xA9] @ ''os'', ''Video'', ''V'' @ [CHR 0xC3, CHR 0xAD] @ ''deos'']\<rparr>,
      \<lparr>m_name = ''${PICTURES}'', m_xdg = ''XDG_PICTURES_DIR='' @ [CHR 0x22] @ ''$HOME/'',
        m_translation = [''Pictures'', [CHR 0xD0, CHR 0x98, CHR 0xD0, CHR 0xB7, CHR 0xD0, CHR 0xBE, CHR 0xD0, CHR 0xB1, CHR 0xD1, CHR 0x80, CHR 0xD0, CHR 0xB0, CHR 0xD0, CHR 0xB6, CHR 0xD0, CHR 0xB5, CHR 0xD0, CHR 0xBD, CHR 0xD0, CHR 0xB8, CHR 0xD1, CHR 0x8F], ''Photos'', ''Immagini'', ''Im'' @ [CHR 0xC3, CHR 0xA1] @ ''genes'', ''Imagens'', ''Bilder'']\<rparr>,
      \<lparr>m_name = ''${DESKTOP}'', m_xdg = ''XDG_DESKTOP_DIR='' @ [CHR 0x22] @ ''$HOME/'',
        m_translation = [''Desktop'', [CHR 0xD0, CHR 0xA0, CHR 0xD0, CHR 0xB0, CHR 0xD0, CHR 0xB1, CHR 0xD0, CHR 0xBE, CHR 0xD1, CHR 0x87, CHR 0xD0, CHR 0xB8, CHR 0xD0, CHR 0xB9] @ '' '' @ [CHR 0xD1, CHR 0x81, CHR 0xD1, CHR 0x82, CHR 0xD0, CHR 0xBE, CHR 0xD0, CHR 0xBB], ''Bureau'', ''Scrivania'', ''Escritorio'', [CHR 0xC3, CHR 0x81] @ ''rea de trabalho'', ''Schreibtisch'']\<rparr>,
      \<lparr>m_name = ''${DOCUMENTS}'', m_xdg = ''XDG_DOCUMENTS_DIR='' @ [CHR 0x22] @ ''$HOME/'',
        m_translation = [''Documents'', [CHR 0xD0, CHR 0x94, CHR 0xD0, CHR 0xBE, CHR 0xD0, CHR 0xBA, CHR 0xD1, CHR 0x83, CHR 0xD0, CHR 0xBC, CHR 0xD0, CHR 0xB5, CHR 0xD0, CHR 0xBD, CHR 0xD1, CHR 0x82, CHR 0xD1, CHR 0x8B], ''Documenti'', ''Documentos'', ''Dokumente'']\<rparr>]"

record macro_env =
  me_homedir :: string
  me_uid :: nat
  me_sysconfdir :: string
  me_user_dirs :: "string list option"
  me_exists :: "string \<Rightarrow> bool"

fun macro_find :: "Macro list \<Rightarrow> string \<Rightarrow> Macro option" where
  "macro_find [] name = None"
| "macro_find (m # ms) name = (if name = m_name m then Some m else macro_find ms name)"

text \<open>The entry at the index that \<open>macro_id\<close> returns, \<open>None\<close> for the index \<open>-1\<close>.\<close>

definition macro_id :: "string \<Rightarrow> Macro option" where
  "macro_id name = macro_find macro_table name"

definition is_macro :: "string \<Rightarrow> bool" where
  "is_macro name \<longleftrightarrow> 4 < length name \<and> name ! 0 = CHR ''$'' \<and> name ! 1 = CHR ''{'' \<and> name ! (length name - 1) = CHR ''}''"

text \<open>The lines are those that \<open>fgets\<close> returns.\<close>

fun resolve_xdg_lines :: "macro_env \<Rightarrow> string \<Rightarrow> string list \<Rightarrow> string option" where
  "resolve_xdg_lines env var [] = None"
| "resolve_xdg_lines env var (buf # rest) =
     (let ptr = dropWhile is_blank buf in
      if ptr = [] \<or> hd ptr = newline \<or> hd ptr = CHR ''#'' then resolve_xdg_lines env var rest
      else if take (length var) ptr = var
      then (case cut_at (CHR 0x22) (drop (length var) ptr) of
              (ptr1, Some _) \<Rightarrow>
                if ptr1 \<noteq> [] \<and> me_exists env (me_homedir env @ ''/'' @ ptr1) then Some ptr1 else None
            | (_, None) \<Rightarrow> resolve_xdg_lines env var rest)
      else resolve_xdg_lines env var rest)"

definition resolve_xdg :: "macro_env \<Rightarrow> string \<Rightarrow> string option" where
  "resolve_xdg env var =
     (case me_user_dirs env of None \<Rightarrow> None | Some ls \<Rightarrow> resolve_xdg_lines env var ls)"

fun resolve_hardcoded :: "macro_env \<Rightarrow> string list \<Rightarrow> string option" where
  "resolve_hardcoded env [] = None"
| "resolve_hardcoded env (e # es) =
     (if me_exists env (me_homedir env @ ''/'' @ e) then Some e else resolve_hardcoded env es)"

definition resolve_macro :: "macro_env \<Rightarrow> string \<Rightarrow> string option" where
  "resolve_macro env name =
     (case macro_id name of
        None \<Rightarrow> None
      | Some m \<Rightarrow> (case resolve_xdg env (m_xdg m) of None \<Rightarrow> resolve_hardcoded env (m_translation m) | Some d \<Rightarrow> Some d))"

definition starts_with :: "string \<Rightarrow> string \<Rightarrow> bool" where
  "starts_with pre s \<longleftrightarrow> take (length pre) s = pre"

definition expand_macros :: "macro_env \<Rightarrow> string \<Rightarrow> string result" where
  "expand_macros env path =
     (if starts_with ''$HOME'' path then Inl (InvalidEntry path)
      else if starts_with ''${HOME}'' path then Inr (me_homedir env @ drop 7 path)
      else if path \<noteq> [] \<and> hd path = CHR ''~'' then Inr (me_homedir env @ drop 1 path)
      else if starts_with ''${CFG}'' path then Inr (me_sysconfdir env @ drop 6 path)
      else if starts_with ''${RUNUSER}'' path then Inr (''/run/user/'' @ fmt_u (me_uid env) @ drop 10 path)
      else (case resolve_macro env path of
              Some directory \<Rightarrow> Inr (me_homedir env @ ''/'' @ directory)
            | None \<Rightarrow> Inr path))"

definition invalid_filename :: "string \<Rightarrow> bool \<Rightarrow> unit result" where
  "invalid_filename fname globbing =
     (if starts_with ''${HOME}'' fname then reject_meta_chars (drop 7 fname) globbing
      else if starts_with ''${PATH}'' fname then reject_meta_chars (drop 7 fname) globbing
      else if starts_with ''${RUNUSER}'' fname then reject_meta_chars (drop 10 fname) globbing
      else if macro_id fname \<noteq> None then Inr ()
      else reject_meta_chars fname globbing)"

subsection \<open>Resolved directories exist\<close>

lemma resolve_xdg_exists:
  "resolve_xdg_lines env var ls = Some d \<Longrightarrow> me_exists env (me_homedir env @ slash # d)"
  by (induction ls) (auto simp: Let_def split: if_splits option.splits prod.splits)

lemma resolve_hardcoded_exists: "resolve_hardcoded env es = Some d \<Longrightarrow> me_exists env (me_homedir env @ slash # d)"
  by (induction es) (auto split: if_splits)

lemma resolve_macro_exists: "resolve_macro env name = Some d \<Longrightarrow> me_exists env (me_homedir env @ slash # d)"
  by (auto simp: resolve_macro_def resolve_xdg_def resolve_hardcoded_exists resolve_xdg_exists split: option.splits)

lemma expand_macros_cases:
  assumes "expand_macros env path = Inr p"
  shows "p = path \<or> (\<exists>r. p = me_homedir env @ r) \<or> (\<exists>r. p = me_sysconfdir env @ r) \<or> (\<exists>r. p = ''/run/user/'' @ fmt_u (me_uid env) @ r)"
    and "macro_id path \<noteq> None \<Longrightarrow> p \<noteq> path \<Longrightarrow> me_exists env p"
proof -
  have m: "macro_id path \<noteq> None \<Longrightarrow> \<not> starts_with ''${HOME}'' path \<and> hd path \<noteq> CHR ''~'' \<and> \<not> starts_with ''${CFG}'' path \<and>
      \<not> starts_with ''${RUNUSER}'' path"
    by (auto simp: macro_id_def macro_table_def starts_with_def split: if_splits)
  show "p = path \<or> (\<exists>r. p = me_homedir env @ r) \<or> (\<exists>r. p = me_sysconfdir env @ r) \<or> (\<exists>r. p = ''/run/user/'' @ fmt_u (me_uid env) @ r)"
    using assms by (auto simp: expand_macros_def split: if_splits option.splits)
  show "macro_id path \<noteq> None \<Longrightarrow> p \<noteq> path \<Longrightarrow> me_exists env p"
    using assms m resolve_macro_exists [of env path] by (auto simp: expand_macros_def split: if_splits option.splits)
qed

text \<open>A file name that is accepted has no rejected character outside a macro at its start.\<close>

lemma reject_meta_chars_ok:
  "reject_meta_chars fname globbing = Inr u \<longleftrightarrow>
     list_all (\<lambda>c. \<not> iscntrl c \<and> c \<notin> set (meta_chars globbing)) fname"
  by (auto simp: reject_meta_chars_def reject_cntrl_chars_def has_cntrl_chars_def list_ex_iff list_all_iff)

lemma macro_id_chars: "macro_id fname = Some m \<Longrightarrow> fname \<in> set (map m_name macro_table)"
proof -
  have "macro_find ms fname = Some m \<Longrightarrow> fname \<in> set (map m_name ms)" for ms
    by (induction ms) (auto split: if_splits)
  then show "macro_id fname = Some m \<Longrightarrow> fname \<in> set (map m_name macro_table)" by (simp add: macro_id_def)
qed

definition macro_names :: "string list" where
  "macro_names = [''${HOME}'', ''${PATH}'', ''${RUNUSER}''] @ map m_name macro_table"

lemma invalid_filename_ok:
  assumes "invalid_filename fname globbing = Inr u"
  shows "\<exists>pre rest. fname = pre @ rest \<and> (pre = [] \<or> pre \<in> set macro_names) \<and>
    list_all (\<lambda>c. \<not> iscntrl c \<and> c \<notin> set (meta_chars globbing)) rest"
proof -
  let ?ok = "list_all (\<lambda>c. \<not> iscntrl c \<and> c \<notin> set (meta_chars globbing))"
  have p: ?thesis if "starts_with pre fname" "n = length pre" "?ok (drop n fname)" "pre \<in> set macro_names" for pre n
    using that by (metis append_take_drop_id starts_with_def)
  from assms consider "starts_with ''${HOME}'' fname" "?ok (drop 7 fname)" | "starts_with ''${PATH}'' fname" "?ok (drop 7 fname)"
    | "starts_with ''${RUNUSER}'' fname" "?ok (drop 10 fname)" | "macro_id fname \<noteq> None" | "?ok fname"
    by (auto simp: invalid_filename_def reject_meta_chars_ok split: if_splits)
  then show ?thesis
  proof cases
    case 1 show ?thesis by (rule p [OF 1(1) _ 1(2)]) (simp_all add: macro_names_def)
  next
    case 2 show ?thesis by (rule p [OF 2(1) _ 2(2)]) (simp_all add: macro_names_def)
  next
    case 3 show ?thesis by (rule p [OF 3(1) _ 3(2)]) (simp_all add: macro_names_def)
  next
    case 4
    then have "fname \<in> set macro_names" by (auto simp: macro_names_def dest: macro_id_chars)
    then show ?thesis by (intro exI [of _ fname] exI [of _ "[]"]) simp
  next
    case 5 then show ?thesis by (intro exI [of _ "[]"] exI [of _ fname]) simp
  qed
qed

end
