(* ===== verification/Profile_List.thy ===== *)
theory Profile_List
  imports Firejail_Prelude
begin

text \<open>
  The comma separated lists of \<open>firejail/profile.c\<close>: \<open>profile_list_normalize\<close>, \<open>profile_list_compress\<close> and
  \<open>profile_list_augment\<close>. The functions work in place on a NUL terminated buffer; the items of a list are
  pointers into that buffer, modelled as offsets, and the surviving items are copied back to its start while
  they are still read from it.

  The lemmas show that the buffer ends up holding the list that the comment in the source describes, and that
  a list built by \<open>profile_list_augment\<close> has no empty and no duplicate items.
\<close>

abbreviation NUL :: char where "NUL \<equiv> CHR 0x00"
abbreviation comma :: char where "comma \<equiv> CHR '',''"

definition cstr :: "string \<Rightarrow> string" where
  "cstr buf = takeWhile (\<lambda>c. c \<noteq> NUL) buf"

definition MAX_LIST :: nat where
  "MAX_LIST = 16384"

text \<open>\<open>while (list[i] == ',') ++i;\<close>\<close>

function skip_commas :: "string \<Rightarrow> nat \<Rightarrow> nat" where
  "skip_commas buf i = (if i < length buf \<and> buf ! i = comma then skip_commas buf (i + 1) else i)"
  by pat_completeness auto
termination
  by (relation "measure (\<lambda>(buf, i). length buf - i)") auto

declare skip_commas.simps [simp del]

lemma skip_commas_ge: "i \<le> skip_commas buf i"
proof (induction buf i rule: skip_commas.induct)
  case (1 buf i)
  then show ?case by (subst skip_commas.simps) auto
qed

text \<open>The main loop of \<open>profile_list_normalize\<close>; an access past the buffer would end it.\<close>

function normalize_loop :: "string \<Rightarrow> nat \<Rightarrow> nat \<Rightarrow> string \<times> nat" where
  "normalize_loop buf i j =
     (if i < length buf \<and> buf ! i \<noteq> NUL
      then if buf ! i = comma
           then let i' = skip_commas buf (i + 1) in
                if buf ! i' = NUL then (buf, j)
                else normalize_loop (buf[j := comma]) i' (j + 1)
           else normalize_loop (buf[j := buf ! i]) (i + 1) (j + 1)
      else (buf, j))"
  by pat_completeness auto
termination
proof (relation "measure (\<lambda>(buf, i, j). length buf - i)", goal_cases)
  case (2 buf i j i')
  then show ?case using skip_commas_ge [of "i + 1" buf] by auto
qed auto

declare normalize_loop.simps [simp del]

definition profile_list_normalize :: "string \<Rightarrow> string" where
  "profile_list_normalize buf =
     (case normalize_loop buf (skip_commas buf 0) 0 of (buf, j) \<Rightarrow> buf[j := NUL])"

text \<open>
  Collecting the items: commas become NULs and the items start at the beginning and after each comma. The
  array has one more element than there are commas.
\<close>

function collect_items :: "string \<Rightarrow> nat \<Rightarrow> nat option list \<Rightarrow> string \<times> nat option list" where
  "collect_items buf i ins =
     (if i < length buf \<and> buf ! i \<noteq> NUL
      then if buf ! i \<noteq> comma then collect_items buf (i + 1) ins
           else collect_items (buf[i := NUL]) (i + 1) (ins @ [Some (i + 1)])
      else (buf, ins))"
  by pat_completeness auto
termination
  by (relation "measure (\<lambda>(buf, i, ins). length buf - i)") auto

declare collect_items.simps [simp del]

definition item_at :: "string \<Rightarrow> nat \<Rightarrow> string" where
  "item_at buf p = cstr (drop p buf)"

definition same_item :: "string \<Rightarrow> string \<Rightarrow> nat option \<Rightarrow> bool" where
  "same_item buf item p = (case p of None \<Rightarrow> False | Some p \<Rightarrow> item_at buf p = item)"

text \<open>\<open>for (k = 0; k < i; ++k) if (in[k] && !strcmp(in[k], item)) { in[k] = 0; break; }\<close>\<close>

fun remove_first :: "string \<Rightarrow> string \<Rightarrow> nat option list \<Rightarrow> nat option list" where
  "remove_first buf item [] = []"
| "remove_first buf item (p # ps) =
     (if same_item buf item p then None # ps else p # remove_first buf item ps)"

text \<open>One round of the filter: the items before \<open>i\<close>, and the item at offset \<open>p\<close>.\<close>

definition include_item :: "string \<Rightarrow> nat \<Rightarrow> nat option list \<Rightarrow> nat option list" where
  "include_item buf p before =
     (if item_at buf p = [] then before @ [None]
      else if list_ex (same_item buf (item_at buf p)) before then before @ [None]
      else before @ [Some p])"

definition filter_item :: "string \<Rightarrow> nat \<Rightarrow> nat option list \<Rightarrow> nat option list" where
  "filter_item buf p before =
     (if buf ! p = CHR ''-'' then remove_first buf (item_at buf (p + 1)) before @ [None]
      else if buf ! p = CHR ''+'' then include_item buf (p + 1) before
      else if buf ! p = CHR ''='' then
        map (\<lambda>_. None) before @ [if item_at buf (p + 1) = [] then None else Some (p + 1)]
      else include_item buf p before)"

text \<open>\<open>while (*item) *pos++ = *item++;\<close>\<close>

function copy_item :: "string \<Rightarrow> nat \<Rightarrow> nat \<Rightarrow> string \<times> nat" where
  "copy_item buf pos item =
     (if item < length buf \<and> buf ! item \<noteq> NUL
      then copy_item (buf[pos := buf ! item]) (pos + 1) (item + 1)
      else (buf, pos))"
  by pat_completeness auto
termination
  by (relation "measure (\<lambda>(buf, pos, item). length buf - item)") auto

declare copy_item.simps [simp del]

fun copy_back :: "nat option list \<Rightarrow> string \<Rightarrow> nat \<Rightarrow> string \<times> nat" where
  "copy_back [] buf pos = (buf, pos)"
| "copy_back (None # ps) buf pos = copy_back ps buf pos"
| "copy_back (Some p # ps) buf pos =
     (let (buf, pos) = (if 0 < pos then (buf[pos := comma], pos + 1) else (buf, pos));
          (buf, pos) = copy_item buf pos p
      in copy_back ps buf pos)"

definition profile_list_compress :: "string \<Rightarrow> string" where
  "profile_list_compress buf =
     (let buf = profile_list_normalize buf;
          (buf, ins) = collect_items buf 0 [Some 0];
          ins = fold (\<lambda>p before. filter_item buf (the p) before) ins [];
          (buf, pos) = copy_back ins buf 0
      in buf[pos := NUL])"

definition profile_list_augment :: "string option \<Rightarrow> string option \<Rightarrow> string result" where
  "profile_list_augment list items =
     (let tmp = (case list of None \<Rightarrow> [] | Some s \<Rightarrow> s) @ comma # (case items of None \<Rightarrow> [] | Some s \<Rightarrow> s);
          rv = cstr (profile_list_compress (tmp @ [NUL]))
      in if length rv > MAX_LIST then Inl ProfileListTooLong else Inr rv)"

subsection \<open>The list that is meant\<close>

fun join_comma :: "string list \<Rightarrow> string" where
  "join_comma [] = []"
| "join_comma [s] = s"
| "join_comma (s # t # r) = s @ comma # join_comma (t # r)"

definition add_item :: "string \<Rightarrow> string list \<Rightarrow> string list" where
  "add_item item acc = (if item = [] \<or> item \<in> set acc then acc else acc @ [item])"

definition apply_item :: "string \<Rightarrow> string list \<Rightarrow> string list" where
  "apply_item item acc =
     (case item of
        [] \<Rightarrow> acc
      | c # r \<Rightarrow>
          if c = CHR ''-'' then remove1 r acc
          else if c = CHR ''+'' then add_item r acc
          else if c = CHR ''='' then (if r = [] then [] else [r])
          else add_item item acc)"

definition compress_items :: "string list \<Rightarrow> string list" where
  "compress_items items = fold apply_item items []"

subsection \<open>Normalisation\<close>

lemma cstr_append_NUL: "NUL \<notin> set s \<Longrightarrow> cstr (s @ NUL # r) = s"
  by (simp add: cstr_def takeWhile_append)

lemma nth_drop_Cons: "drop i buf = c # r \<Longrightarrow> i < length buf \<and> buf ! i = c \<and> drop (i + 1) buf = r"
  by (metis Cons_nth_drop_Suc Suc_eq_plus1 drop_eq_Nil leI list.inject list.simps(3))

lemma skip_commas_drop: "drop (skip_commas buf i) buf = dropWhile (\<lambda>c. c = comma) (drop i buf)"
proof (induction buf i rule: skip_commas.induct)
  case (1 buf i)
  show ?case
  proof (cases "i < length buf \<and> buf ! i = comma")
    case True
    then have "drop i buf = comma # drop (i + 1) buf" by (metis Cons_nth_drop_Suc Suc_eq_plus1)
    with True 1 show ?thesis by (subst skip_commas.simps) simp
  next
    case False
    then have "dropWhile (\<lambda>c. c = comma) (drop i buf) = drop i buf"
      by (cases "drop i buf") (auto dest: nth_drop_Cons)
    with False show ?thesis by (subst skip_commas.simps) auto
  qed
qed

function norm :: "string \<Rightarrow> string" where
  "norm [] = []"
| "norm (c # t) =
     (if c = comma then let u = dropWhile (\<lambda>c. c = comma) t in (if u = [] then [] else comma # norm u)
      else c # norm t)"
  by pat_completeness auto
termination
  by (relation "measure length") (auto simp: le_imp_less_Suc length_dropWhile_le)

lemma drop_update_before: "j < i \<Longrightarrow> drop i (buf[j := c]) = drop i buf"
  by simp

lemma take_update_end: "j < length buf \<Longrightarrow> take (j + 1) (buf[j := c]) = take j buf @ [c]"
  by (simp add: take_Suc_conv_app_nth)

lemma normalize_loop_norm:
  assumes "drop i buf = t @ [NUL]" "NUL \<notin> set t" "j \<le> i"
  shows "\<exists>buf' j'. normalize_loop buf i j = (buf', j') \<and> length buf' = length buf \<and> j' < length buf \<and>
    take j' buf' = take j buf @ norm t"
  using assms
proof (induction t arbitrary: buf i j rule: norm.induct)
  case 1
  then have "i < length buf" "buf ! i = NUL" by (auto dest: nth_drop_Cons)
  then show ?case using 1 by (subst normalize_loop.simps) simp
next
  case (2 c t)
  then have i: "i < length buf" "buf ! i = c" "drop (i + 1) buf = t @ [NUL]" "c \<noteq> NUL"
    by (auto dest: nth_drop_Cons)
  show ?case
  proof (cases "c = comma")
    case True
    let ?i = "skip_commas buf (i + 1)" and ?u = "dropWhile (\<lambda>c. c = comma) t"
    have u: "drop ?i buf = ?u @ [NUL]" unfolding skip_commas_drop i(3) by (simp add: dropWhile_append)
    have ge: "i + 1 \<le> ?i" by (rule skip_commas_ge)
    show ?thesis
    proof (cases ?u)
      case Nil
      then have "buf ! ?i = NUL" using u nth_drop_Cons [of ?i buf NUL "[]"] by simp
      then have "normalize_loop buf i j = (buf, j)" using i True by (subst normalize_loop.simps) (simp add: Let_def)
      with i 2(5) True Nil show ?thesis by (simp add: Let_def)
    next
      case (Cons d v)
      have n: "NUL \<notin> set ?u" using 2(4) by (auto dest: set_dropWhileD)
      then have d: "buf ! ?i \<noteq> NUL" using nth_drop_Cons [of ?i buf d "v @ [NUL]"] u Cons by auto
      have "drop ?i (buf[j := comma]) = ?u @ [NUL]" using u ge 2(5) by simp
      from 2(1) [OF True _ _ this n, of "j + 1"] ge 2(5) Cons obtain buf' j' where
        r: "normalize_loop (buf[j := comma]) ?i (j + 1) = (buf', j')" "length buf' = length buf"
          "j' < length buf" "take j' buf' = take (j + 1) (buf[j := comma]) @ norm ?u" by auto
      have "normalize_loop buf i j = (buf', j')"
        using i True d r(1) by (subst normalize_loop.simps) (simp add: Let_def)
      moreover have "take (j + 1) (buf[j := comma]) = take j buf @ [comma]"
        using i(1) 2(5) by (intro take_update_end) simp
      ultimately show ?thesis using r(2-4) Cons True by (simp add: Let_def)
    qed
  next
    case False
    have "drop (i + 1) (buf[j := c]) = t @ [NUL]" using i(3) 2(5) by simp
    from 2(2) [OF False this, of "j + 1"] 2(4,5) obtain buf' j' where
      r: "normalize_loop (buf[j := c]) (i + 1) (j + 1) = (buf', j')" "length buf' = length buf"
        "j' < length buf" "take j' buf' = take (j + 1) (buf[j := c]) @ norm t" by auto
    have "normalize_loop buf i j = (buf', j')"
      using i False r(1) by (subst normalize_loop.simps) simp
    moreover have "take (j + 1) (buf[j := c]) = take j buf @ [c]"
      using i(1) 2(5) by (intro take_update_end) simp
    ultimately show ?thesis using r(2-4) False by simp
  qed
qed

lemma norm_no_NUL: "NUL \<notin> set t \<Longrightarrow> NUL \<notin> set (norm t)"
  by (induction t rule: norm.induct) (auto simp: Let_def dest: set_dropWhileD)

lemma profile_list_normalize_norm:
  assumes "NUL \<notin> set s"
  shows "\<exists>r. profile_list_normalize (s @ [NUL]) = norm (dropWhile (\<lambda>c. c = comma) s) @ NUL # r"
proof -
  let ?buf = "s @ [NUL]" and ?t = "dropWhile (\<lambda>c. c = comma) s"
  have "drop (skip_commas ?buf 0) ?buf = ?t @ [NUL]" unfolding skip_commas_drop by (simp add: dropWhile_append)
  from normalize_loop_norm [OF this, of 0] obtain buf' j' where
    r: "normalize_loop ?buf (skip_commas ?buf 0) 0 = (buf', j')" "length buf' = length ?buf" "j' < length ?buf"
      "take j' buf' = norm ?t" using assms by (auto dest: set_dropWhileD)
  have "buf'[j' := NUL] = take j' buf' @ NUL # drop (Suc j') buf'"
    using r(2,3) by (simp add: upd_conv_take_nth_drop)
  with r(1,4) show ?thesis by (auto simp: profile_list_normalize_def)
qed

lemma norm_word: "comma \<notin> set w \<Longrightarrow> norm (w @ t) = w @ norm t"
  by (induction w) auto

lemma strtok_skip: "strtok comma (dropWhile (\<lambda>c. c = comma) t) = strtok comma t"
proof (induction t)
  case (Cons c t)
  then show ?case using strtok_append_sep [of comma "[]" t] by auto
qed simp

lemma join_comma_Cons: "ws \<noteq> [] \<Longrightarrow> join_comma (w # ws) = w @ comma # join_comma ws"
  by (cases ws) simp_all

lemma strtok_eq_Nil: "strtok comma t = [] \<longleftrightarrow> dropWhile (\<lambda>c. c = comma) t = []"
proof (induction t)
  case (Cons c t)
  show ?case
  proof (cases "c = comma")
    case True
    then show ?thesis using Cons strtok_append_sep [of comma "[]" t] by simp
  next
    case False
    then show ?thesis by (simp add: strtok_def split: list.split)
  qed
qed simp

lemma norm_strtok: "t = [] \<or> hd t \<noteq> comma \<Longrightarrow> norm t = join_comma (strtok comma t)"
proof (induction "length t" arbitrary: t rule: less_induct)
  case less
  show ?case
  proof (cases "t = []")
    case False
    let ?w = "takeWhile (\<lambda>c. c \<noteq> comma) t" and ?r = "dropWhile (\<lambda>c. c \<noteq> comma) t"
    have w: "?w \<noteq> []" "comma \<notin> set ?w" using False less.prems by (cases t; auto dest: set_takeWhileD)+
    have t: "norm t = ?w @ norm ?r" using norm_word [OF w(2), of ?r] by simp
    show ?thesis
    proof (cases ?r)
      case Nil
      then have "t = ?w" by (metis append_Nil2 takeWhile_dropWhile_id)
      with t w Nil show ?thesis by (metis append_Nil2 join_comma.simps(2) norm.simps(1) strtok_word)
    next
      case (Cons c r)
      then have c: "c = comma" using hd_dropWhile [of "\<lambda>c. c \<noteq> comma" t] by simp
      let ?u = "dropWhile (\<lambda>c. c = comma) r"
      have "t = ?w @ comma # r" using Cons c by (metis takeWhile_dropWhile_id)
      then have st: "strtok comma t = ?w # strtok comma ?u"
        using strtok_word_sep [OF w(2,1), of r] by (simp add: strtok_skip)
      have "length ?u < length t"
        using length_dropWhile_le [of "\<lambda>c. c = comma" r] arg_cong [OF \<open>t = ?w @ comma # r\<close>, of length] by simp
      moreover have "?u = [] \<or> hd ?u \<noteq> comma" using hd_dropWhile [of "\<lambda>c. c = comma" r] by auto
      ultimately have "norm ?u = join_comma (strtok comma ?u)" by (rule less.hyps)
      with t st Cons c strtok_eq_Nil [of ?u] show ?thesis
        by (cases "?u = []") (simp_all add: Let_def join_comma_Cons)
    qed
  qed simp
qed

lemma normalize_strtok:
  assumes "NUL \<notin> set s"
  shows "\<exists>r. profile_list_normalize (s @ [NUL]) = join_comma (strtok comma s) @ NUL # r"
proof -
  let ?t = "dropWhile (\<lambda>c. c = comma) s"
  have "?t = [] \<or> hd ?t \<noteq> comma" using hd_dropWhile [of "\<lambda>c. c = comma" s] by auto
  then have "norm ?t = join_comma (strtok comma s)" by (simp add: norm_strtok strtok_skip)
  with profile_list_normalize_norm [OF assms] show ?thesis by simp
qed

subsection \<open>The items in the buffer\<close>

fun offsets :: "nat \<Rightarrow> string list \<Rightarrow> nat list" where
  "offsets p [] = []"
| "offsets p (w # ws) = p # offsets (p + length w + 1) ws"

definition nuls :: "string list \<Rightarrow> string" where
  "nuls ws = concat (map (\<lambda>w. w @ [NUL]) ws)"

lemma nuls_simps [simp]: "nuls [] = []" "nuls (w # ws) = w @ NUL # nuls ws"
  by (simp_all add: nuls_def)

definition plain_item :: "string \<Rightarrow> bool" where
  "plain_item w \<longleftrightarrow> NUL \<notin> set w \<and> comma \<notin> set w"

lemma collect_word:
  "plain_item w \<Longrightarrow> collect_items (pre @ w @ rest) (length pre) ins =
   collect_items (pre @ w @ rest) (length pre + length w) ins"
proof (induction w arbitrary: pre)
  case (Cons c w)
  have "collect_items (pre @ (c # w) @ rest) (length pre) ins =
      collect_items ((pre @ [c]) @ w @ rest) (length (pre @ [c])) ins"
    using Cons.prems by (subst collect_items.simps) (auto simp: plain_item_def)
  also have "\<dots> = collect_items ((pre @ [c]) @ w @ rest) (length (pre @ [c]) + length w) ins"
    using Cons.prems by (intro Cons.IH) (simp add: plain_item_def)
  finally show ?case by simp
qed simp

lemma collect_items_offsets:
  "ws \<noteq> [] \<Longrightarrow> list_all plain_item ws \<Longrightarrow>
   collect_items (pre @ join_comma ws @ NUL # r) (length pre) ins =
     (pre @ nuls ws @ r, ins @ map Some (tl (offsets (length pre) ws)))"
proof (induction ws arbitrary: pre ins)
  case (Cons w ws)
  show ?case
  proof (cases "ws = []")
    case True
    have "collect_items (pre @ w @ NUL # r) (length pre) ins =
        collect_items ((pre @ w) @ NUL # r) (length (pre @ w)) ins"
      using collect_word [of w pre "NUL # r" ins] Cons.prems by simp
    also have "\<dots> = ((pre @ w) @ NUL # r, ins)" by (subst collect_items.simps) (simp add: nth_append)
    finally show ?thesis using True by simp
  next
    case False
    let ?rest = "comma # join_comma ws @ NUL # r"
    let ?pre = "pre @ w @ [NUL]"
    have "collect_items (pre @ w @ ?rest) (length pre) ins = collect_items ((pre @ w) @ ?rest) (length (pre @ w)) ins"
      using collect_word [of w pre ?rest ins] Cons.prems by simp
    also have "\<dots> = collect_items (((pre @ w) @ ?rest)[length (pre @ w) := NUL]) (length (pre @ w) + 1)
        (ins @ [Some (length (pre @ w) + 1)])"
      by (subst collect_items.simps) (simp add: nth_append)
    also have "((pre @ w) @ ?rest)[length (pre @ w) := NUL] = ?pre @ join_comma ws @ NUL # r"
      by (simp add: list_update_append)
    also have "collect_items (?pre @ join_comma ws @ NUL # r) (length (pre @ w) + 1) (ins @ [Some (length (pre @ w) + 1)]) =
        (?pre @ nuls ws @ r, (ins @ [Some (length (pre @ w) + 1)]) @ map Some (tl (offsets (length ?pre) ws)))"
      using Cons.IH [OF False, of ?pre "ins @ [Some (length (pre @ w) + 1)]"] Cons.prems by simp
    finally show ?thesis using False by (cases ws) (simp_all add: join_comma_Cons)
  qed
qed simp

lemma item_at_cases:
  "p < length buf \<Longrightarrow> item_at buf p = (if buf ! p = NUL then [] else buf ! p # item_at buf (p + 1))"
  by (simp add: item_at_def cstr_def Cons_nth_drop_Suc [symmetric])

lemma item_at_append: "item_at (pre @ buf) (length pre + p) = item_at buf p"
  by (simp add: item_at_def)

lemma items_offsets:
  "list_all plain_item ws \<Longrightarrow> map (item_at (pre @ nuls ws @ r)) (offsets (length pre) ws) = ws"
proof (induction ws arbitrary: pre)
  case (Cons w ws)
  have "item_at (pre @ w @ NUL # nuls ws @ r) (length pre) = w"
    using Cons.prems item_at_append [of pre "w @ NUL # nuls ws @ r" 0]
    by (simp add: item_at_def cstr_append_NUL plain_item_def)
  with Cons.IH [of "pre @ w @ [NUL]"] Cons.prems show ?case by simp
qed simp

fun spaced :: "string \<Rightarrow> nat \<Rightarrow> nat option list \<Rightarrow> bool" where
  "spaced buf lo [] \<longleftrightarrow> True"
| "spaced buf lo (None # ps) \<longleftrightarrow> spaced buf lo ps"
| "spaced buf lo (Some p # ps) \<longleftrightarrow> lo \<le> p \<and> p + length (item_at buf p) < length buf \<and>
     spaced buf (p + length (item_at buf p) + 1) ps"

lemma spaced_offsets:
  "list_all plain_item ws \<Longrightarrow> spaced (pre @ nuls ws @ r) (length pre) (map Some (offsets (length pre) ws))"
proof (induction ws arbitrary: pre)
  case (Cons w ws)
  have "item_at (pre @ nuls (w # ws) @ r) (length pre) = w"
    using items_offsets [OF Cons.prems, of pre r] by simp
  with Cons.IH [of "pre @ w @ [NUL]"] Cons.prems show ?case by simp
qed simp

lemma spaced_mono: "spaced buf lo ps \<Longrightarrow> lo' \<le> lo \<Longrightarrow> spaced buf lo' ps"
  by (induction buf lo ps rule: spaced.induct) auto

subsection \<open>The filter\<close>

text \<open>The strings that a list of offsets stands for.\<close>

fun vals :: "string \<Rightarrow> nat option list \<Rightarrow> string list" where
  "vals buf [] = []"
| "vals buf (None # ps) = vals buf ps"
| "vals buf (Some p # ps) = item_at buf p # vals buf ps"

lemma vals_append [simp]: "vals buf (ps @ qs) = vals buf ps @ vals buf qs"
  by (induction buf ps rule: vals.induct) simp_all

lemma vals_None [simp]: "vals buf (map (\<lambda>_. None) ps) = []"
  by (induction ps) simp_all

lemma same_item_vals: "list_ex (same_item buf w) ps \<longleftrightarrow> w \<in> set (vals buf ps)"
  by (induction buf ps rule: vals.induct) (auto simp: same_item_def)

lemma vals_remove_first: "vals buf (remove_first buf w ps) = remove1 w (vals buf ps)"
  by (induction buf ps rule: vals.induct) (auto simp: same_item_def)

lemma filter_item_apply:
  assumes "p < length buf"
  shows "vals buf (filter_item buf p before) = apply_item (item_at buf p) (vals buf before)"
  using item_at_cases [OF assms]
  by (auto simp: filter_item_def include_item_def apply_item_def add_item_def same_item_vals vals_remove_first)

text \<open>An item of the array is absent, or it is the item at its offset with or without its first character.\<close>

definition item_rel :: "string \<Rightarrow> nat option \<Rightarrow> nat \<Rightarrow> bool" where
  "item_rel buf q p \<longleftrightarrow> (case q of None \<Rightarrow> True
     | Some q \<Rightarrow> item_at buf q \<noteq> [] \<and> (q = p \<or> q = p + 1 \<and> p < length buf \<and> buf ! p \<noteq> NUL))"

lemma item_rel_simps [simp]:
  "item_rel buf None p"
  "item_rel buf (Some q) p \<longleftrightarrow> item_at buf q \<noteq> [] \<and> (q = p \<or> q = p + 1 \<and> p < length buf \<and> buf ! p \<noteq> NUL)"
  by (simp_all add: item_rel_def)

lemma remove_first_rel:
  "list_all2 (item_rel buf) ps os \<Longrightarrow> list_all2 (item_rel buf) (remove_first buf w ps) os"
  by (induction ps os rule: list_all2_induct) auto

lemma all_None_rel: "list_all2 (item_rel buf) ps os \<Longrightarrow> list_all2 (item_rel buf) (map (\<lambda>_. None) ps) os"
  by (induction ps os rule: list_all2_induct) auto

lemma filter_item_rel:
  assumes "p < length buf" "list_all2 (item_rel buf) before os"
  shows "list_all2 (item_rel buf) (filter_item buf p before) (os @ [p])"
  using assms
  by (auto simp: filter_item_def include_item_def intro!: list_all2_appendI remove_first_rel all_None_rel)

lemma filter_fold:
  assumes "list_all (\<lambda>p. p < length buf) os" "list_all2 (item_rel buf) before os'"
  shows "vals buf (fold (\<lambda>p before. filter_item buf (the p) before) (map Some os) before) =
      fold apply_item (map (item_at buf) os) (vals buf before)"
    and "list_all2 (item_rel buf) (fold (\<lambda>p before. filter_item buf (the p) before) (map Some os) before) (os' @ os)"
proof -
  have "vals buf (fold (\<lambda>p before. filter_item buf (the p) before) (map Some os) before) =
      fold apply_item (map (item_at buf) os) (vals buf before) \<and>
    list_all2 (item_rel buf) (fold (\<lambda>p before. filter_item buf (the p) before) (map Some os) before) (os' @ os)"
    using assms
  proof (induction os arbitrary: before os')
    case (Cons p os)
    then show ?case
      using Cons.IH [of "filter_item buf p before" "os' @ [p]"]
      by (simp add: filter_item_apply filter_item_rel)
  qed simp
  then show "vals buf (fold (\<lambda>p before. filter_item buf (the p) before) (map Some os) before) =
      fold apply_item (map (item_at buf) os) (vals buf before)"
    "list_all2 (item_rel buf) (fold (\<lambda>p before. filter_item buf (the p) before) (map Some os) before) (os' @ os)"
    by blast+
qed

lemma item_rel_end:
  "item_rel buf (Some q) p \<Longrightarrow> p \<le> q \<and> q + length (item_at buf q) = p + length (item_at buf p)"
  using item_at_cases [of p buf] by (auto simp: item_rel_def)

lemma rel_spaced:
  "list_all2 (item_rel buf) ps os \<Longrightarrow> spaced buf lo (map Some os) \<Longrightarrow> spaced buf lo ps"
proof (induction ps os arbitrary: lo rule: list_all2_induct)
  case (Cons q ps p os)
  show ?case
  proof (cases q)
    case None
    have "spaced buf lo (map Some os)"
      using Cons.prems by (auto intro: spaced_mono)
    with None Cons.IH show ?thesis by simp
  next
    case (Some q')
    with Cons item_rel_end [of buf q' p] show ?thesis by simp
  qed
qed simp

lemma rel_nonempty: "list_all2 (item_rel buf) ps os \<Longrightarrow> list_all (\<lambda>w. w \<noteq> []) (vals buf ps)"
proof (induction ps os rule: list_all2_induct)
  case (Cons q ps p os)
  then show ?case by (cases q) (simp_all add: item_rel_def)
qed simp

lemma spaced_length: "spaced buf lo (map Some os) \<Longrightarrow> list_all (\<lambda>p. p < length buf) os"
  by (induction os arbitrary: lo) auto

subsection \<open>Copying back\<close>

lemma copy_item_text:
  assumes "item_at buf item = w" "item + length w < length buf" "pos \<le> item"
  shows "\<exists>buf'. copy_item buf pos item = (buf', pos + length w) \<and> length buf' = length buf \<and>
    take (pos + length w) buf' = take pos buf @ w \<and> drop (item + length w) buf' = drop (item + length w) buf"
  using assms
proof (induction w arbitrary: buf item pos)
  case Nil
  then have "buf ! item = NUL" using item_at_cases [of item buf] by (auto split: if_splits)
  then show ?case by (subst copy_item.simps) simp
next
  case (Cons c w)
  then have c: "buf ! item = c" "c \<noteq> NUL" "item_at buf (item + 1) = w"
    using item_at_cases [of item buf] by (auto split: if_splits)
  have "item_at (buf[pos := c]) (item + 1) = w" using c(3) Cons.prems(3) by (simp add: item_at_def)
  from Cons.IH [OF this, of "pos + 1"] Cons.prems obtain buf' where
    r: "copy_item (buf[pos := c]) (pos + 1) (item + 1) = (buf', pos + 1 + length w)" "length buf' = length buf"
      "take (pos + 1 + length w) buf' = take (pos + 1) (buf[pos := c]) @ w"
      "drop (item + 1 + length w) buf' = drop (item + 1 + length w) (buf[pos := c])" by auto
  have "copy_item buf pos item = (buf', pos + 1 + length w)"
    using Cons.prems c r(1) by (subst copy_item.simps) simp
  moreover have "take (pos + 1) (buf[pos := c]) = take pos buf @ [c]"
    using Cons.prems by (intro take_update_end) simp
  ultimately show ?case using r(2-4) Cons.prems by (simp add: drop_update_before)
qed

lemma item_at_drop: "drop k buf = drop k buf2 \<Longrightarrow> k \<le> p \<Longrightarrow> item_at buf p = item_at buf2 p"
  by (metis item_at_def drop_drop le_add_diff_inverse2)

lemma spaced_drop:
  assumes "drop k buf = drop k buf2" "length buf = length buf2"
  shows "spaced buf lo ps \<Longrightarrow> k \<le> lo \<Longrightarrow> spaced buf2 lo ps \<and> vals buf2 ps = vals buf ps"
proof (induction ps arbitrary: lo)
  case (Cons q ps)
  show ?case
  proof (cases q)
    case None
    with Cons show ?thesis by simp
  next
    case (Some p)
    with Cons.prems have "item_at buf2 p = item_at buf p" using item_at_drop [OF assms(1), of p] by simp
    with Some Cons.prems Cons.IH [of "p + length (item_at buf p) + 1"] assms(2) show ?thesis by simp
  qed
qed simp

text \<open>The text of a list, after some text or at the beginning.\<close>

definition join_after :: "bool \<Rightarrow> string list \<Rightarrow> string" where
  "join_after started ws = (if started then concat (map (\<lambda>w. comma # w) ws) else join_comma ws)"

lemma join_after_simps [simp]:
  "join_after b [] = []" "join_after True (w # ws) = comma # w @ join_after True ws"
  "join_after False (w # ws) = w @ join_after True ws"
proof -
  show "join_after False (w # ws) = w @ join_after True ws"
    unfolding join_after_def by (induction ws arbitrary: w) simp_all
qed (simp_all add: join_after_def)

lemma copy_back_text:
  assumes "spaced buf lo ps" "pos = 0 \<or> pos < lo" "pos < length buf" "list_all (\<lambda>w. w \<noteq> []) (vals buf ps)"
  shows "\<exists>buf' pos'. copy_back ps buf pos = (buf', pos') \<and> length buf' = length buf \<and> pos' < length buf \<and>
    take pos' buf' = take pos buf @ join_after (0 < pos) (vals buf ps)"
  using assms
proof (induction ps arbitrary: buf lo pos)
  case (Cons q ps)
  show ?case
  proof (cases q)
    case None
    with Cons show ?thesis by simp
  next
    case (Some p)
    define buf1 pos1 where "buf1 = (if 0 < pos then buf[pos := comma] else buf)"
      and "pos1 = (if 0 < pos then pos + 1 else pos)"
    let ?w = "item_at buf p"
    have p: "lo \<le> p" "p + length ?w < length buf" "spaced buf (p + length ?w + 1) ps" "?w \<noteq> []"
      using Cons.prems Some by simp_all
    have d1: "drop p buf1 = drop p buf" using Cons.prems(2) p(1) by (auto simp: buf1_def)
    have w1: "item_at buf1 p = ?w" using item_at_drop [OF d1] by simp
    have l1: "length buf1 = length buf" by (simp add: buf1_def)
    have le: "pos1 \<le> p" using Cons.prems(2) p(1) by (auto simp: pos1_def)
    from copy_item_text [OF w1 _ le] p(2) l1 obtain buf2 where
      c: "copy_item buf1 pos1 p = (buf2, pos1 + length ?w)" "length buf2 = length buf"
        "take (pos1 + length ?w) buf2 = take pos1 buf1 @ ?w"
        "drop (p + length ?w) buf2 = drop (p + length ?w) buf1" by auto
    have "drop (p + length ?w) buf2 = drop (p + length ?w) buf"
      using c(4) d1 by (metis add.commute drop_drop)
    from spaced_drop [OF this [symmetric] c(2) [symmetric] p(3)]
    have s2: "spaced buf2 (p + length ?w + 1) ps" "vals buf2 ps = vals buf ps" by simp_all
    from Cons.IH [OF s2(1), of "pos1 + length ?w"] le p c(2) Cons.prems(4) s2(2) Some obtain buf' pos' where
      r: "copy_back ps buf2 (pos1 + length ?w) = (buf', pos')" "length buf' = length buf" "pos' < length buf"
        "take pos' buf' = take (pos1 + length ?w) buf2 @ join_after (0 < pos1 + length ?w) (vals buf ps)" by auto
    have "copy_back (q # ps) buf pos = (buf', pos')"
      using Some c(1) r(1) by (cases "0 < pos") (simp_all add: buf1_def pos1_def)
    moreover have "take pos1 buf1 = take pos buf @ (if 0 < pos then [comma] else [])"
      using Cons.prems(3) by (simp add: buf1_def pos1_def take_Suc_conv_app_nth)
    ultimately show ?thesis
      using r c(3) p(4) Some by (cases "0 < pos") simp_all
  qed
qed simp

subsection \<open>Compression and its specification\<close>

lemma vals_no_NUL: "w \<in> set (vals buf ps) \<Longrightarrow> NUL \<notin> set w"
  by (induction buf ps rule: vals.induct) (auto simp: item_at_def cstr_def dest: set_takeWhileD)

lemma join_comma_no_NUL: "(\<And>w. w \<in> set ws \<Longrightarrow> NUL \<notin> set w) \<Longrightarrow> NUL \<notin> set (join_comma ws)"
  by (induction ws rule: join_comma.induct) auto

lemma compress_tokens:
  assumes "NUL \<notin> set s"
  shows "cstr (profile_list_compress (s @ [NUL])) = join_comma (compress_items (strtok comma s))"
proof -
  let ?ws = "if strtok comma s = [] then [[]] else strtok comma s"
  obtain r where n: "profile_list_normalize (s @ [NUL]) = join_comma ?ws @ NUL # r"
    using normalize_strtok [OF assms] by auto
  have pl: "list_all plain_item ?ws"
  proof -
    have "NUL \<notin> set t \<and> comma \<notin> set t" if "t \<in> set (strtok comma s)" for t
      using that assms strtok_no_sep [OF that] by (auto simp: strtok_def dest: split_on_chars)
    then show ?thesis by (auto simp: list_all_iff plain_item_def)
  qed
  let ?buf = "nuls ?ws @ r" and ?os = "offsets 0 ?ws"
  have ne: "?ws \<noteq> []" by simp
  then have os: "Some 0 # map Some (tl ?os) = map Some ?os" by (cases ?ws) simp_all
  have c: "collect_items (join_comma ?ws @ NUL # r) 0 [Some 0] = (?buf, map Some ?os)"
    using collect_items_offsets [OF _ pl, of "[]" r "[Some 0]"] os by simp
  have sp: "spaced ?buf 0 (map Some ?os)" using spaced_offsets [OF pl, of "[]" r] by simp
  let ?ins = "fold (\<lambda>p before. filter_item ?buf (the p) before) (map Some ?os) []"
  have v: "vals ?buf ?ins = compress_items ?ws"
    using filter_fold(1) [OF spaced_length [OF sp], of "[]" "[]"] items_offsets [OF pl, of "[]" r]
    by (simp add: compress_items_def)
  have rel: "list_all2 (item_rel ?buf) ?ins ?os"
    using filter_fold(2) [OF spaced_length [OF sp], of "[]" "[]"] by simp
  have "0 < length ?buf" using ne by (cases ?ws) simp_all
  with copy_back_text [OF rel_spaced [OF rel sp], of 0] rel_nonempty [OF rel] obtain buf' pos' where
    b: "copy_back ?ins ?buf 0 = (buf', pos')" "length buf' = length ?buf" "pos' < length ?buf"
      "take pos' buf' = join_comma (compress_items ?ws)"
    unfolding v by (auto simp: join_after_def)
  have "profile_list_compress (s @ [NUL]) = buf'[pos' := NUL]"
    using b(1) by (simp add: profile_list_compress_def n c Let_def)
  also have "\<dots> = take pos' buf' @ NUL # drop (Suc pos') buf'"
    using b(2,3) by (simp add: upd_conv_take_nth_drop)
  finally have "cstr (profile_list_compress (s @ [NUL])) = join_comma (compress_items ?ws)"
    using b(4) join_comma_no_NUL [of "compress_items ?ws"] vals_no_NUL [of _ ?buf ?ins] unfolding v
    by (simp add: cstr_append_NUL)
  moreover have "compress_items ?ws = compress_items (strtok comma s)"
    by (simp add: compress_items_def apply_item_def)
  ultimately show ?thesis by simp
qed

text \<open>
  C28. \<open>profile_list_compress\<close> leaves the list in its buffer that its comment describes: the items between the commas
  are applied in order, an item being added unless it is there, removed with \<open>-\<close>, added with \<open>+\<close>, and put alone with
  \<open>=\<close>. Copying the surviving items within the buffer overwrites nothing that is still to be read.
\<close>

theorem profile_list_compress_spec:
  assumes "NUL \<notin> set s"
  shows "cstr (profile_list_compress (s @ [NUL])) = join_comma (compress_items (strtok comma s))"
  by (rule compress_tokens [OF assms])

theorem profile_list_compress_spec_witness:
  "cstr (profile_list_compress (''a,b,c,-a,a'' @ [NUL])) = ''b,c,a''"
proof -
  have "strtok comma ''a,b,c,-a,a'' = [''a'', ''b'', ''c'', ''-a'', ''a'']" by (simp add: strtok_def)
  with profile_list_compress_spec [of "''a,b,c,-a,a''"] show ?thesis
    by (simp add: compress_items_def apply_item_def add_item_def)
qed

subsection \<open>The lists of a configuration\<close>

lemma strtok_join:
  "list_all (\<lambda>w. w \<noteq> [] \<and> comma \<notin> set w) ws \<Longrightarrow> strtok comma (join_comma ws) = ws"
  by (induction ws rule: join_comma.induct) (simp_all add: strtok_word strtok_word_sep)

definition good_items :: "string list \<Rightarrow> bool" where
  "good_items ws \<longleftrightarrow> distinct ws \<and> list_all (\<lambda>w. w \<noteq> [] \<and> comma \<notin> set w \<and> NUL \<notin> set w) ws"

lemma apply_item_good:
  "good_items acc \<Longrightarrow> comma \<notin> set w \<Longrightarrow> NUL \<notin> set w \<Longrightarrow> good_items (apply_item w acc)"
  by (auto simp: good_items_def apply_item_def add_item_def list_all_iff dest: notin_set_remove1 set_remove1_subset [THEN subsetD]
      split: list.split)

lemma fold_apply_good:
  "list_all (\<lambda>w. comma \<notin> set w \<and> NUL \<notin> set w) ws \<Longrightarrow> good_items acc \<Longrightarrow> good_items (fold apply_item ws acc)"
  by (induction ws arbitrary: acc) (simp_all add: apply_item_good)

lemma strtok_clean: "NUL \<notin> set s \<Longrightarrow> list_all (\<lambda>w. comma \<notin> set w \<and> NUL \<notin> set w) (strtok comma s)"
  by (auto simp: list_all_iff strtok_def dest: split_on_chars)

text \<open>The values that a list of the configuration takes.\<close>

inductive augmented :: "string option \<Rightarrow> bool" where
  unset: "augmented None"
| augment: "augmented list \<Longrightarrow> NUL \<notin> set items \<Longrightarrow> profile_list_augment list (Some items) = Inr r \<Longrightarrow> augmented (Some r)"

inductive_cases augmented_SomeE: "augmented (Some r)"

lemma augment_tokens:
  assumes "NUL \<notin> set l" "NUL \<notin> set items" "profile_list_augment (Some l) (Some items) = Inr r"
  shows "r = join_comma (compress_items (strtok comma l @ strtok comma items)) \<and> length r \<le> MAX_LIST"
  using assms compress_tokens [of "l @ comma # items"] strtok_append_sep [of comma l items]
  by (auto simp: profile_list_augment_def Let_def split: if_splits)

lemma augment_unset: "profile_list_augment None items = profile_list_augment (Some []) items"
  by (simp add: profile_list_augment_def)

lemma augmented_good:
  "augmented lst \<Longrightarrow> \<exists>ws. good_items ws \<and> (case lst of None \<Rightarrow> [] | Some r \<Rightarrow> r) = join_comma ws \<and>
     length (join_comma ws) \<le> MAX_LIST"
proof (induction rule: augmented.induct)
  case unset
  have "good_items []" by (simp add: good_items_def)
  then show ?case by (intro exI [of _ "[]"]) (simp add: MAX_LIST_def)
next
  case (augment list items r)
  let ?l = "case list of None \<Rightarrow> [] | Some r \<Rightarrow> r"
  from augment.IH obtain ws where ws: "good_items ws" "?l = join_comma ws" by blast
  have n: "NUL \<notin> set ?l"
    unfolding ws(2) using ws(1) by (intro join_comma_no_NUL) (auto simp: good_items_def list_all_iff)
  have "profile_list_augment (Some ?l) (Some items) = Inr r"
    using augment.hyps(3) by (cases list) (simp_all add: augment_unset)
  from augment_tokens [OF n augment.hyps(2) this]
  have r: "r = join_comma (compress_items (strtok comma ?l @ strtok comma items))" "length r \<le> MAX_LIST" by blast+
  have "good_items (compress_items (strtok comma ?l @ strtok comma items))"
    unfolding compress_items_def
    using strtok_clean [OF n] strtok_clean [OF augment.hyps(2)]
    by (intro fold_apply_good) (simp_all add: good_items_def)
  with r show ?case by auto
qed

lemma augmented_items:
  assumes "augmented (Some r)"
  shows "\<exists>ws. good_items ws \<and> r = join_comma ws \<and> length r \<le> MAX_LIST \<and> strtok comma r = ws"
proof -
  from augmented_good [OF assms] obtain ws where ws: "good_items ws" "r = join_comma ws" "length r \<le> MAX_LIST" by auto
  then have "strtok comma r = ws" by (auto simp: good_items_def list_all_iff intro!: strtok_join)
  with ws show ?thesis by blast
qed

lemma augmented_distinct: "augmented (Some r) \<Longrightarrow> distinct (strtok comma r)"
  using augmented_items [of r] by (auto simp: good_items_def)

text \<open>
  A list that was built by any sequence of \<open>profile_list_augment\<close> calls is well formed: its items are distinct and
  not empty, it is exactly those items with single commas between them, and it is no longer than the limit.
\<close>

theorem augmented_list_wf:
  assumes "augmented (Some r)"
  shows "distinct (strtok comma r) \<and> r = join_comma (strtok comma r) \<and> length r \<le> MAX_LIST"
  using augmented_items [OF assms] by (auto simp: good_items_def)

theorem augmented_list_wf_witness:
  "distinct (strtok comma ''b,c,a'') \<and> ''b,c,a'' = join_comma (strtok comma ''b,c,a'') \<and> length ''b,c,a'' \<le> MAX_LIST"
proof (rule augmented_list_wf)
  have "cstr (profile_list_compress (('','' @ ''a,b,c,-a,a'') @ [NUL])) = ''b,c,a''"
    by (subst compress_tokens) (simp_all add: strtok_def compress_items_def apply_item_def add_item_def)
  then have "profile_list_augment None (Some ''a,b,c,-a,a'') = Inr ''b,c,a''"
    by (simp add: profile_list_augment_def MAX_LIST_def)
  from augmented.augment [OF augmented.unset _ this] show "augmented (Some ''b,c,a'')" by simp
qed

text \<open>
  Names that start with an operator themselves are interpreted once more when the list grows; for all others
  it does not matter how the items are divided among the calls.
\<close>

definition is_operator :: "char \<Rightarrow> bool" where
  "is_operator c \<longleftrightarrow> c = CHR ''-'' \<or> c = CHR ''+'' \<or> c = CHR ''=''"

definition plain_start :: "string \<Rightarrow> bool" where
  "plain_start w \<longleftrightarrow> (case w of [] \<Rightarrow> True | c # _ \<Rightarrow> \<not> is_operator c)"

definition single_operator :: "string \<Rightarrow> bool" where
  "single_operator w \<longleftrightarrow> (case w of [] \<Rightarrow> True | c # r \<Rightarrow> is_operator c \<longrightarrow> plain_start r)"

lemma set_apply_item: "set (apply_item (c # r) acc) \<subseteq> set acc \<union> (if is_operator c then {r} else {c # r})"
  using set_remove1_subset [of r acc] by (auto simp: apply_item_def add_item_def is_operator_def)

lemma apply_item_plain:
  assumes "single_operator w" "list_all plain_start acc"
  shows "list_all plain_start (apply_item w acc)"
proof (cases w)
  case Nil
  then show ?thesis using assms(2) by (simp add: apply_item_def)
next
  case (Cons c r)
  then have "plain_start (if is_operator c then r else c # r)"
    using assms(1) by (simp add: single_operator_def plain_start_def)
  with Cons assms(2) set_apply_item [of c r acc] show ?thesis
    by (auto simp: list_all_iff split: if_splits)
qed

lemma fold_apply_plain:
  "list_all single_operator ws \<Longrightarrow> list_all plain_start acc \<Longrightarrow> list_all plain_start (fold apply_item ws acc)"
  by (induction ws arbitrary: acc) (simp_all add: apply_item_plain)

lemma apply_plain_items:
  "list_all plain_start ws \<Longrightarrow> list_all (\<lambda>w. w \<noteq> []) ws \<Longrightarrow> distinct (acc @ ws) \<Longrightarrow> fold apply_item ws acc = acc @ ws"
proof (induction ws arbitrary: acc)
  case (Cons w ws)
  then have "apply_item w acc = acc @ [w]"
    by (auto simp: apply_item_def add_item_def plain_start_def is_operator_def split: list.split)
  with Cons show ?case by simp
qed simp

text \<open>
  Growing a list step by step is the same as compressing all the items at once, for items whose names do not
  start with an operator.
\<close>

theorem profile_list_augment_incremental:
  assumes "fold_result (\<lambda>items lst. bind_result (profile_list_augment lst (Some items)) (\<lambda>r. Inr (Some r))) args (Some []) = Inr (Some r)"
    and "list_all (\<lambda>a. NUL \<notin> set a \<and> list_all single_operator (strtok comma a)) args"
  shows "r = join_comma (compress_items (concat (map (strtok comma) args)))"
proof -
  let ?f = "\<lambda>items lst. bind_result (profile_list_augment lst (Some items)) (\<lambda>r. Inr (Some r))"
  have "r = join_comma (fold apply_item (concat (map (strtok comma) args)) acc)"
    if "fold_result ?f args (Some (join_comma acc)) = Inr (Some r)" "good_items acc" "list_all plain_start acc" for acc
    using that assms(2)
  proof (induction args arbitrary: acc)
    case (Cons a args)
    let ?acc = "fold apply_item (strtok comma a) acc"
    have n: "NUL \<notin> set (join_comma acc)"
      using Cons.prems(2) by (intro join_comma_no_NUL) (auto simp: good_items_def list_all_iff)
    from Cons.prems(1) obtain l where
      l: "profile_list_augment (Some (join_comma acc)) (Some a) = Inr l" "fold_result ?f args (Some l) = Inr (Some r)"
      by (auto simp: bind_result_eq_Inr_iff)
    have st: "strtok comma (join_comma acc) = acc"
      using Cons.prems(2) by (intro strtok_join) (auto simp: good_items_def list_all_iff)
    have "compress_items acc = acc"
      unfolding compress_items_def
      using Cons.prems(2,3) by (subst apply_plain_items) (auto simp: good_items_def list_all_iff)
    then have "l = join_comma ?acc"
      using augment_tokens [OF n _ l(1)] Cons.prems(4) st by (simp add: compress_items_def)
    moreover have "good_items ?acc"
      using Cons.prems(2,4) strtok_clean [of a] by (intro fold_apply_good) simp_all
    moreover have "list_all plain_start ?acc"
      using Cons.prems(3,4) by (intro fold_apply_plain) simp_all
    ultimately show ?case using Cons.IH [of ?acc] l(2) Cons.prems(4) by simp
  qed simp
  from this [of "[]"] assms(1) show ?thesis by (simp add: compress_items_def good_items_def)
qed

lemma augment_eval:
  "NUL \<notin> set l \<Longrightarrow> NUL \<notin> set items \<Longrightarrow>
   length (join_comma (compress_items (strtok comma (l @ comma # items)))) \<le> MAX_LIST \<Longrightarrow>
   profile_list_augment (Some l) (Some items) = Inr (join_comma (compress_items (strtok comma (l @ comma # items))))"
  using compress_tokens [of "l @ comma # items"] by (simp add: profile_list_augment_def)

theorem profile_list_augment_incremental_witness:
  "''b,c'' = join_comma (compress_items (concat (map (strtok comma) [''a,b'', ''-a,c''])))"
proof (rule profile_list_augment_incremental)
  have "profile_list_augment (Some []) (Some ''a,b'') = Inr ''a,b''"
    "profile_list_augment (Some ''a,b'') (Some ''-a,c'') = Inr ''b,c''"
    by (subst augment_eval;
        simp add: strtok_def compress_items_def apply_item_def add_item_def MAX_LIST_def)+
  then show "fold_result (\<lambda>items lst. bind_result (profile_list_augment lst (Some items)) (\<lambda>r. Inr (Some r)))
      [''a,b'', ''-a,c''] (Some []) = Inr (Some ''b,c'')"
    by simp
qed (simp add: strtok_def single_operator_def is_operator_def plain_start_def)

end
