(* ===== verification/Firejail_Seccomp.thy ===== *)
theory Firejail_Seccomp
  imports Fseccomp_Main Profile_List
begin

text \<open>
  \<open>firejail/seccomp.c\<close>, \<open>firejail/protocol.c\<close> and the part of \<open>firejail/sandbox.c\<close> that sets the filters: firejail chooses the
  filters of the sandbox from its configuration, builds those that are not prepared by running fseccomp and
  fsec-optimize, puts them in a list, and records the file names for processes that join the sandbox later.

  The state is the directory of filter files, the list of loaded filters (the last loaded first), the text of
  \<open>seccomp.list\<close> and the saved protocol list. The programs run as in \<open>Fseccomp_Main\<close>; the file system and the headers
  they were built with are the parameters of the \<open>world\<close>.
\<close>

definition RUN_SECCOMP_DIR :: string where "RUN_SECCOMP_DIR = ''/run/firejail/mnt/seccomp''"
definition RUN_SECCOMP_PROTOCOL :: string where "RUN_SECCOMP_PROTOCOL = RUN_SECCOMP_DIR @ ''/seccomp.protocol''"
definition RUN_SECCOMP_CFG :: string where "RUN_SECCOMP_CFG = RUN_SECCOMP_DIR @ ''/seccomp''"
definition RUN_SECCOMP_32 :: string where "RUN_SECCOMP_32 = RUN_SECCOMP_DIR @ ''/seccomp.32''"
definition RUN_SECCOMP_MDWX :: string where "RUN_SECCOMP_MDWX = RUN_SECCOMP_DIR @ ''/seccomp.mdwx''"
definition RUN_SECCOMP_MDWX_32 :: string where "RUN_SECCOMP_MDWX_32 = RUN_SECCOMP_DIR @ ''/seccomp.mdwx.32''"
definition RUN_SECCOMP_NS :: string where "RUN_SECCOMP_NS = RUN_SECCOMP_DIR @ ''/seccomp.namespaces''"
definition RUN_SECCOMP_NS_32 :: string where "RUN_SECCOMP_NS_32 = RUN_SECCOMP_DIR @ ''/seccomp.namespaces.32''"
definition RUN_SECCOMP_BLOCK_SECONDARY :: string where
  "RUN_SECCOMP_BLOCK_SECONDARY = RUN_SECCOMP_DIR @ ''/seccomp.block_secondary''"
definition RUN_SECCOMP_POSTEXEC :: string where "RUN_SECCOMP_POSTEXEC = RUN_SECCOMP_DIR @ ''/seccomp.postexec''"
definition RUN_SECCOMP_POSTEXEC_32 :: string where "RUN_SECCOMP_POSTEXEC_32 = RUN_SECCOMP_DIR @ ''/seccomp.postexec32''"
definition RUN_PROTOCOL_CFG :: string where "RUN_PROTOCOL_CFG = ''/run/firejail/mnt/protocol''"
definition PATH_FSECCOMP :: string where "PATH_FSECCOMP = ''/run/firejail/lib/fseccomp''"
definition PATH_FSEC_OPTIMIZE :: string where "PATH_FSEC_OPTIMIZE = ''/run/firejail/lib/fsec-optimize''"
definition DEFAULT_SECCOMP_ERROR_ACTION :: int where "DEFAULT_SECCOMP_ERROR_ACTION = 1"

record world =
  w_open :: "string \<Rightarrow> int"
  w_defined :: "string \<Rightarrow> bool"
  w_write :: "nat \<Rightarrow> int"

record seccomp_cfg =
  cfg_protocol :: "string option"
  cfg_seccomp_list :: "string option"
  cfg_seccomp_list32 :: "string option"
  cfg_seccomp_list_drop :: "string option"
  cfg_seccomp_list_drop32 :: "string option"
  cfg_seccomp_list_keep :: "string option"
  cfg_seccomp_list_keep32 :: "string option"
  cfg_restrict_namespaces :: "string option"
  cfg_seccomp_error_action :: "string option"
  arg_seccomp :: bool
  arg_seccomp32 :: bool
  arg_seccomp_block_secondary :: bool
  arg_memory_deny_write_execute :: bool
  arg_restrict_namespaces :: bool
  arg_allow_debuggers :: bool
  arg_seccomp_error_action :: int

record sandbox =
  sb_files :: "string \<Rightarrow> sock_filter list option"
  sb_filters :: "(string \<times> sock_filter list) list"
  sb_saved :: "string list option"
  sb_protocol :: "string option"

definition c_isalnum :: "char \<Rightarrow> bool" where
  "c_isalnum c \<longleftrightarrow> digit_value c < 36"

definition seccomp_check_list :: "string \<Rightarrow> string result" where
  "seccomp_check_list str =
     (if str = [] then Inl EmptyList
      else if list_all (\<lambda>c. c_isalnum c \<or> c \<in> set ''_,:@-$!'') str then Inr str
      else Inl (InvalidEntry str))"

text \<open>
  \<open>seccomp_load\<close>: the file is mapped and put in front of the list; \<open>loading\<close> is \<open>load_file_list_flag\<close>. An empty file
  cannot be mapped.
\<close>

definition seccomp_save_file_list :: "string \<Rightarrow> sandbox \<Rightarrow> sandbox" where
  "seccomp_save_file_list fname st =
     st\<lparr>sb_saved := Some ((case sb_saved st of None \<Rightarrow> [] | Some l \<Rightarrow> l) @ [fname])\<rparr>"

definition seccomp_load :: "bool \<Rightarrow> string \<Rightarrow> sandbox \<Rightarrow> sandbox result" where
  "seccomp_load loading fname st =
     (case sb_files st fname of
        None \<Rightarrow> Inl (CannotRead fname)
      | Some flt \<Rightarrow>
          if flt = [] then Inl (CannotRead fname)
          else
            let entries = fsec_entries (8 * length flt);
                st = st\<lparr>sb_filters := (fname, take entries flt) # sb_filters st\<rparr>
            in Inr (if loading then st else seccomp_save_file_list fname st))"

definition MAXBUF :: nat where "MAXBUF = 4096"

text \<open>
  \<open>seccomp_load_file_list\<close> in a process that joins: it reads the saved names with \<open>fgets\<close>; the model covers names
  that fit in the buffer, as all the names above do.
\<close>

definition seccomp_load_file_list :: "sandbox \<Rightarrow> sandbox result" where
  "seccomp_load_file_list st =
     (case sb_saved st of
        None \<Rightarrow> Inr st
      | Some lines \<Rightarrow> fold_result (seccomp_load True) lines st)"

text \<open>
  \<open>seccomp_install_filters\<close>: \<open>accept\<close> tells whether the kernel takes a filter; the result is the filters in force and
  the return code.
\<close>

definition seccomp_install_filters :: "(sock_filter list \<Rightarrow> bool) \<Rightarrow> sandbox \<Rightarrow> sock_filter list list \<times> int" where
  "seccomp_install_filters accept st =
     fold (\<lambda>(_, flt) (installed, r). if accept flt then (installed @ [flt], r) else (installed, 1))
       (sb_filters st) ([], 0)"

text \<open>
  \<open>sbox_run\<close>: the arguments end at the first NULL. The program gets the error action in its environment; when it
  fails, firejail exits.
\<close>

definition put_files :: "filter_files \<Rightarrow> sandbox \<Rightarrow> sandbox" where
  "put_files fs st = st\<lparr>sb_files := fold (\<lambda>(f, c) m. m(f \<mapsto> c)) fs (sb_files st)\<rparr>"

definition run_program :: "world \<Rightarrow> string option \<Rightarrow> string list \<Rightarrow> sandbox \<Rightarrow> main_out result" where
  "run_program w var argv st =
     (if hd argv = PATH_FSECCOMP then fseccomp_main (w_open w) (w_defined w) var argv
      else if hd argv = PATH_FSEC_OPTIMIZE then fsec_optimize_main var (sb_files st) (w_open w) (w_write w) argv
      else Inl (ChildFailed (hd argv)))"

definition sbox_run :: "world \<Rightarrow> seccomp_cfg \<Rightarrow> string option list \<Rightarrow> sandbox \<Rightarrow> sandbox result" where
  "sbox_run w cfg args st =
     (let argv = map the (takeWhile (\<lambda>a. a \<noteq> None) args) in
      if argv = [] then Inl AssertFailure
      else case run_program w (cfg_seccomp_error_action cfg) argv st of
        Inl e \<Rightarrow> Inl (ChildFailed (hd argv))
      | Inr (Files fs) \<Rightarrow> Inr (put_files fs st)
      | Inr _ \<Rightarrow> Inr st)"

definition seccomp_filter_32 :: "sandbox \<Rightarrow> sandbox result" where
  "seccomp_filter_32 st = seccomp_load False RUN_SECCOMP_32 st"

definition seccomp_filter_block_secondary :: "sandbox \<Rightarrow> sandbox result" where
  "seccomp_filter_block_secondary st = seccomp_load False RUN_SECCOMP_BLOCK_SECONDARY st"

definition is_set :: "string option \<Rightarrow> bool" where
  "is_set l = (case l of None \<Rightarrow> False | Some s \<Rightarrow> s \<noteq> [])"

definition default_action :: "seccomp_cfg \<Rightarrow> bool" where
  "default_action cfg \<longleftrightarrow> arg_seccomp_error_action cfg = DEFAULT_SECCOMP_ERROR_ACTION"

definition debuggers :: "seccomp_cfg \<Rightarrow> string option list" where
  "debuggers cfg = (if arg_allow_debuggers cfg then [Some ''allow-debuggers''] else [])"

text \<open>The branch of \<open>seccomp_filter_drop\<close> with the default filter and an additional list.\<close>

definition secondary_filter :: "world \<Rightarrow> seccomp_cfg \<Rightarrow> sandbox \<Rightarrow> sandbox result" where
  "secondary_filter w cfg st =
     (if arg_seccomp_block_secondary cfg
      then bind_result (if default_action cfg then Inr st
             else sbox_run w cfg [Some PATH_FSECCOMP, Some ''secondary'', Some ''block'', Some RUN_SECCOMP_BLOCK_SECONDARY] st)
             seccomp_filter_block_secondary
      else bind_result (if default_action cfg then Inr st
             else sbox_run w cfg [Some PATH_FSECCOMP, Some ''secondary'', Some ''32'', Some RUN_SECCOMP_32] st)
             seccomp_filter_32)"

definition default_drop_filter :: "world \<Rightarrow> seccomp_cfg \<Rightarrow> bool \<Rightarrow> string \<Rightarrow> string \<Rightarrow> sandbox \<Rightarrow> sandbox result" where
  "default_drop_filter w cfg native flt postexec st =
     bind_result (secondary_filter w cfg st) (\<lambda>st.
     let command = (if native then ''default'' else ''default32'');
         list = (if native then cfg_seccomp_list cfg else cfg_seccomp_list32 cfg);
         args = (if is_set list
                 then [Some PATH_FSECCOMP, Some command, Some ''drop'', Some flt, Some postexec, list]
                 else [Some PATH_FSECCOMP, Some command, Some flt]) @ debuggers cfg
     in bind_result (sbox_run w cfg args st) (\<lambda>st.
        sbox_run w cfg [Some PATH_FSEC_OPTIMIZE, Some flt] st))"

definition drop_filter :: "world \<Rightarrow> seccomp_cfg \<Rightarrow> bool \<Rightarrow> string \<Rightarrow> string \<Rightarrow> sandbox \<Rightarrow> sandbox result" where
  "drop_filter w cfg native flt postexec st =
     bind_result (if arg_seccomp_block_secondary cfg then seccomp_filter_block_secondary st else Inr st) (\<lambda>st.
     let command = (if native then ''drop'' else ''drop32'');
         list = (if native then cfg_seccomp_list_drop cfg else cfg_seccomp_list_drop32 cfg)
     in bind_result (sbox_run w cfg ([Some PATH_FSECCOMP, Some command, Some flt, Some postexec, list] @ debuggers cfg) st) (\<lambda>st.
        sbox_run w cfg [Some PATH_FSEC_OPTIMIZE, Some flt] st))"

definition seccomp_filter_drop :: "world \<Rightarrow> seccomp_cfg \<Rightarrow> bool \<Rightarrow> sandbox \<Rightarrow> sandbox result" where
  "seccomp_filter_drop w cfg native st =
     (let flt = (if native then RUN_SECCOMP_CFG else RUN_SECCOMP_32);
          postexec = (if native then RUN_SECCOMP_POSTEXEC else RUN_SECCOMP_POSTEXEC_32)
      in bind_result
           (if cfg_seccomp_list_drop cfg = None
            then if \<not> is_set (cfg_seccomp_list cfg) \<and> default_action cfg
                 then if arg_seccomp_block_secondary cfg then seccomp_filter_block_secondary st
                      else seccomp_filter_32 st
                 else default_drop_filter w cfg native flt postexec st
            else drop_filter w cfg native flt postexec st)
           (seccomp_load False flt))"

definition seccomp_filter_keep :: "world \<Rightarrow> seccomp_cfg \<Rightarrow> bool \<Rightarrow> sandbox \<Rightarrow> sandbox result" where
  "seccomp_filter_keep w cfg native st =
     bind_result (if arg_seccomp_block_secondary cfg then seccomp_filter_block_secondary st else Inr st) (\<lambda>st.
     let flt = (if native then RUN_SECCOMP_CFG else RUN_SECCOMP_32);
         postexec = (if native then RUN_SECCOMP_POSTEXEC else RUN_SECCOMP_POSTEXEC_32);
         list = (if native then cfg_seccomp_list_keep cfg else cfg_seccomp_list_keep32 cfg)
     in bind_result (sbox_run w cfg [Some PATH_FSECCOMP, Some ''keep'', Some flt, Some postexec, list] st)
          (seccomp_load False flt))"

definition seccomp_filter_mdwx :: "world \<Rightarrow> seccomp_cfg \<Rightarrow> bool \<Rightarrow> sandbox \<Rightarrow> sandbox result" where
  "seccomp_filter_mdwx w cfg native st =
     (let command = (if native then ''memory-deny-write-execute'' else ''memory-deny-write-execute.32'');
          flt = (if native then RUN_SECCOMP_MDWX else RUN_SECCOMP_MDWX_32)
      in sbox_run w cfg [Some PATH_FSECCOMP, Some command, Some flt] st)"

definition seccomp_filter_namespaces :: "world \<Rightarrow> seccomp_cfg \<Rightarrow> bool \<Rightarrow> string option \<Rightarrow> sandbox \<Rightarrow> sandbox result" where
  "seccomp_filter_namespaces w cfg native list st =
     (let command = (if native then ''restrict-namespaces'' else ''restrict-namespaces.32'');
          flt = (if native then RUN_SECCOMP_NS else RUN_SECCOMP_NS_32)
      in sbox_run w cfg [Some PATH_FSECCOMP, Some command, Some flt, list] st)"

text \<open>\<open>firejail/protocol.c\<close>: the file is created exclusively, and read back up to the first newline.\<close>

definition protocol_filter_save :: "string \<Rightarrow> sandbox \<Rightarrow> sandbox result" where
  "protocol_filter_save prlist st =
     (if sb_protocol st \<noteq> None then Inl (CannotOpen RUN_PROTOCOL_CFG)
      else Inr (st\<lparr>sb_protocol := Some (prlist @ [CHR 0x0A])\<rparr>))"

definition protocol_filter_load :: "sandbox \<Rightarrow> seccomp_cfg \<Rightarrow> seccomp_cfg" where
  "protocol_filter_load st cfg =
     (case sb_protocol st of
        None \<Rightarrow> cfg
      | Some text \<Rightarrow>
          if text = [] then cfg
          else let buf = take 4097 text
               in cfg\<lparr>cfg_protocol := Some (fst (cut_at (CHR 0x0A) buf))\<rparr>)"

text \<open>The sandbox: the protocol filter is built early, the filters are set later.\<close>

definition build_protocol :: "world \<Rightarrow> seccomp_cfg \<Rightarrow> sandbox \<Rightarrow> sandbox result" where
  "build_protocol w cfg st =
     (if cfg_protocol cfg = None then Inr st
      else sbox_run w cfg [Some PATH_FSECCOMP, Some ''protocol'', Some ''build'', cfg_protocol cfg, Some RUN_SECCOMP_PROTOCOL] st)"

definition install_protocol :: "seccomp_cfg \<Rightarrow> sandbox \<Rightarrow> sandbox result" where
  "install_protocol cfg st =
     (case cfg_protocol cfg of
        None \<Rightarrow> Inr (st\<lparr>sb_files := (sb_files st)(RUN_SECCOMP_PROTOCOL := None)\<rparr>)
      | Some p \<Rightarrow> bind_result (seccomp_load False RUN_SECCOMP_PROTOCOL st) (protocol_filter_save p))"

definition install_namespaces :: "world \<Rightarrow> seccomp_cfg \<Rightarrow> sandbox \<Rightarrow> sandbox result" where
  "install_namespaces w cfg st =
     (let build = (\<lambda>st. bind_result (seccomp_filter_namespaces w cfg True (cfg_restrict_namespaces cfg) st)
                    (seccomp_filter_namespaces w cfg False (cfg_restrict_namespaces cfg)));
          load = (\<lambda>st. bind_result (seccomp_load False RUN_SECCOMP_NS st) (seccomp_load False RUN_SECCOMP_NS_32))
      in if arg_restrict_namespaces cfg
         then bind_result (if default_action cfg then Inr st else build st) load
         else if cfg_restrict_namespaces cfg \<noteq> None then bind_result (build st) load
         else Inr st)"

definition set_seccomp :: "world \<Rightarrow> seccomp_cfg \<Rightarrow> sandbox \<Rightarrow> sandbox result" where
  "set_seccomp w cfg st =
     bind_result (install_protocol cfg st) (\<lambda>st.
     bind_result (if arg_seccomp cfg
                  then if cfg_seccomp_list_keep cfg \<noteq> None then seccomp_filter_keep w cfg True st
                       else seccomp_filter_drop w cfg True st
                  else Inr st) (\<lambda>st.
     bind_result (if arg_seccomp32 cfg
                  then if cfg_seccomp_list_keep32 cfg \<noteq> None then seccomp_filter_keep w cfg False st
                       else seccomp_filter_drop w cfg False st
                  else Inr st) (\<lambda>st.
     bind_result (if arg_memory_deny_write_execute cfg
                  then bind_result (if default_action cfg then Inr st
                         else bind_result (seccomp_filter_mdwx w cfg True st) (seccomp_filter_mdwx w cfg False)) (\<lambda>st.
                       bind_result (seccomp_load False RUN_SECCOMP_MDWX st) (seccomp_load False RUN_SECCOMP_MDWX_32))
                  else Inr st)
     (install_namespaces w cfg))))"

subsection \<open>Loading and saving\<close>

text \<open>What a successful \<open>seccomp_load\<close> does.\<close>

definition loaded :: "sandbox \<Rightarrow> string \<Rightarrow> sock_filter list option" where
  "loaded st fname =
     (case sb_files st fname of None \<Rightarrow> None
      | Some flt \<Rightarrow> if flt = [] then None else Some (take (fsec_entries (8 * length flt)) flt))"

lemma seccomp_load_eq:
  "seccomp_load loading fname st =
     (case loaded st fname of None \<Rightarrow> Inl (CannotRead fname)
      | Some code \<Rightarrow>
          let st = st\<lparr>sb_filters := (fname, code) # sb_filters st\<rparr>
          in Inr (if loading then st else seccomp_save_file_list fname st))"
  by (simp add: seccomp_load_def loaded_def Let_def split: option.split)

lemma loaded_whole: "sb_files st fname = Some flt \<Longrightarrow> flt \<noteq> [] \<Longrightarrow> length flt < 8192 \<Longrightarrow> loaded st fname = Some flt"
  by (simp add: loaded_def fsec_entries_def)

lemma save_simps [simp]:
  "sb_files (seccomp_save_file_list f st) = sb_files st"
  "sb_filters (seccomp_save_file_list f st) = sb_filters st"
  "sb_protocol (seccomp_save_file_list f st) = sb_protocol st"
  by (simp_all add: seccomp_save_file_list_def)

definition saved_names :: "sandbox \<Rightarrow> string list" where
  "saved_names st = (case sb_saved st of None \<Rightarrow> [] | Some l \<Rightarrow> l)"

lemma saved_names_simps [simp]:
  "saved_names (seccomp_save_file_list f st) = saved_names st @ [f]"
  "saved_names (st\<lparr>sb_filters := x\<rparr>) = saved_names st"
  "saved_names (st\<lparr>sb_files := y\<rparr>) = saved_names st"
  "saved_names (st\<lparr>sb_protocol := z\<rparr>) = saved_names st"
  by (simp_all add: saved_names_def seccomp_save_file_list_def)

text \<open>
  The operations only add filters in front of the list, and they record the names in the order of loading. The
  relation holds between a state and every later one.
\<close>

definition extends :: "sandbox \<Rightarrow> sandbox \<Rightarrow> bool" where
  "extends st st' \<longleftrightarrow> (\<exists>new. sb_filters st' = new @ sb_filters st \<and> saved_names st' = saved_names st @ rev (map fst new))"

lemma extends_refl [simp]: "extends st st"
  by (simp add: extends_def)

lemma extends_trans: "extends st st' \<Longrightarrow> extends st' st'' \<Longrightarrow> extends st st''"
  unfolding extends_def by (elim exE conjE) (rule_tac x = "newa @ new" in exI, simp)

lemma extends_bind:
  "bind_result r f = Inr st'' \<Longrightarrow> (\<And>st'. r = Inr st' \<Longrightarrow> extends st st') \<Longrightarrow>
   (\<And>st' st''. f st' = Inr st'' \<Longrightarrow> extends st' st'') \<Longrightarrow> extends st st''"
  by (auto simp: bind_result_eq_Inr_iff intro: extends_trans)

lemma load_extends: "seccomp_load False f st = Inr st' \<Longrightarrow> extends st st'"
  by (auto simp: seccomp_load_eq extends_def Let_def split: option.splits)

lemma put_files_simps [simp]:
  "sb_filters (put_files fs st) = sb_filters st" "saved_names (put_files fs st) = saved_names st"
  by (simp_all add: put_files_def)

lemma sbox_run_extends: "sbox_run w cfg args st = Inr st' \<Longrightarrow> extends st st'"
  by (auto simp: sbox_run_def extends_def Let_def split: if_splits sum.splits main_out.splits)

lemmas extends_ops = load_extends sbox_run_extends
  load_extends [of RUN_SECCOMP_32, folded seccomp_filter_32_def]
  load_extends [of RUN_SECCOMP_BLOCK_SECONDARY, folded seccomp_filter_block_secondary_def]

lemma filter_drop_extends: "seccomp_filter_drop w cfg native st = Inr st' \<Longrightarrow> extends st st'"
  unfolding seccomp_filter_drop_def default_drop_filter_def drop_filter_def secondary_filter_def Let_def
  by (erule extends_bind; (elim extends_bind)?; auto split: if_splits intro: extends_ops elim!: extends_bind)

lemma filter_keep_extends: "seccomp_filter_keep w cfg native st = Inr st' \<Longrightarrow> extends st st'"
  unfolding seccomp_filter_keep_def Let_def
  by (auto split: if_splits intro: extends_ops elim!: extends_bind)

lemma install_namespaces_extends: "install_namespaces w cfg st = Inr st' \<Longrightarrow> extends st st'"
  unfolding install_namespaces_def seccomp_filter_namespaces_def Let_def
  by (auto split: if_splits intro: extends_ops elim!: extends_bind)

lemma protocol_save_extends: "protocol_filter_save p st = Inr st' \<Longrightarrow> extends st st'"
  by (auto simp: protocol_filter_save_def extends_def split: if_splits)

lemma unlink_extends: "extends st (st\<lparr>sb_files := m\<rparr>)"
  by (simp add: extends_def)

lemma install_protocol_extends: "install_protocol cfg st = Inr st' \<Longrightarrow> extends st st'"
  unfolding install_protocol_def
  by (auto split: option.splits intro: extends_ops protocol_save_extends unlink_extends elim!: extends_bind)

lemma set_seccomp_extends: "set_seccomp w cfg st = Inr st' \<Longrightarrow> extends st st'"
  unfolding set_seccomp_def seccomp_filter_mdwx_def Let_def
  by (auto split: if_splits
      intro: extends_ops filter_drop_extends filter_keep_extends install_namespaces_extends install_protocol_extends
      elim!: extends_bind)

subsection \<open>Joining\<close>

definition fresh :: "sandbox \<Rightarrow> bool" where
  "fresh st \<longleftrightarrow> sb_filters st = [] \<and> sb_saved st = None"

lemma load_list_filters:
  assumes "\<And>f c. (f, c) \<in> set fl \<Longrightarrow> loaded st f = Some c"
  shows "fold_result (seccomp_load True) (rev (map fst fl)) st = Inr (st\<lparr>sb_filters := fl @ sb_filters st\<rparr>)"
  using assms
proof (induction fl)
  case (Cons e fl)
  obtain f c where e: "e = (f, c)" by (cases e)
  have l: "loaded (st\<lparr>sb_filters := x\<rparr>) f = loaded st f" for x by (simp add: loaded_def)
  have "loaded st f = Some c" using Cons.prems [of f c] e by simp
  with Cons e l show ?case by (simp add: fold_result_append seccomp_load_eq)
qed simp


subsection \<open>Every requested filter is loaded\<close>

abbreviation names :: "sandbox \<Rightarrow> string set" where
  "names st \<equiv> fst ` set (sb_filters st)"

lemma extends_names: "extends st st' \<Longrightarrow> names st \<subseteq> names st'"
  by (auto simp: extends_def)

lemma load_names: "seccomp_load False f st = Inr st' \<Longrightarrow> f \<in> names st'"
  by (auto simp: seccomp_load_eq Let_def split: option.splits)

lemma load_load_names:
  assumes "bind_result r (\<lambda>st. bind_result (seccomp_load False f st) (seccomp_load False g)) = Inr st'"
  shows "f \<in> names st' \<and> g \<in> names st'"
proof -
  from assms obtain st1 st2 where l: "seccomp_load False f st1 = Inr st2" "seccomp_load False g st2 = Inr st'"
    by (auto simp: bind_result_eq_Inr_iff)
  with load_names [OF l(1)] load_names [OF l(2)] extends_names [OF load_extends [OF l(2)]] show ?thesis by blast
qed

lemma bind_result_last: "bind_result r f = Inr y \<Longrightarrow> \<exists>x. f x = Inr y"
  by (cases r) auto

lemma filter_drop_names: "seccomp_filter_drop w cfg native st = Inr st' \<Longrightarrow> (if native then RUN_SECCOMP_CFG else RUN_SECCOMP_32) \<in> names st'"
  unfolding seccomp_filter_drop_def Let_def by (drule bind_result_last) (auto dest: load_names)

lemma filter_keep_names: "seccomp_filter_keep w cfg native st = Inr st' \<Longrightarrow> (if native then RUN_SECCOMP_CFG else RUN_SECCOMP_32) \<in> names st'"
  unfolding seccomp_filter_keep_def Let_def
  by (drule bind_result_last, elim exE, drule bind_result_last) (auto dest: load_names)

lemma install_namespaces_names:
  "install_namespaces w cfg st = Inr st' \<Longrightarrow> arg_restrict_namespaces cfg \<or> cfg_restrict_namespaces cfg \<noteq> None \<Longrightarrow>
   RUN_SECCOMP_NS \<in> names st' \<and> RUN_SECCOMP_NS_32 \<in> names st'"
  unfolding install_namespaces_def Let_def
  using load_load_names [of "Inr st" RUN_SECCOMP_NS RUN_SECCOMP_NS_32 st'] load_load_names
  by (auto split: if_splits)

lemma install_protocol_names:
  assumes "install_protocol cfg st = Inr st'" "cfg_protocol cfg \<noteq> None"
  shows "RUN_SECCOMP_PROTOCOL \<in> names st'"
proof -
  from assms obtain p st1 where l: "seccomp_load False RUN_SECCOMP_PROTOCOL st = Inr st1" "protocol_filter_save p st1 = Inr st'"
    by (auto simp: install_protocol_def bind_result_eq_Inr_iff)
  with load_names [OF l(1)] extends_names [OF protocol_save_extends [OF l(2)]] show ?thesis by blast
qed


subsection \<open>From the configuration to the verdict\<close>

lemma files_names [simp]:
  "RUN_SECCOMP_CFG \<noteq> RUN_SECCOMP_POSTEXEC" "RUN_SECCOMP_32 \<noteq> RUN_SECCOMP_POSTEXEC_32"
  "RUN_SECCOMP_CFG \<notin> {''-h'', ''--help'', ''-?''}" "PATH_FSEC_OPTIMIZE \<noteq> PATH_FSECCOMP"
  by (simp_all add: RUN_SECCOMP_CFG_def RUN_SECCOMP_POSTEXEC_def RUN_SECCOMP_32_def RUN_SECCOMP_POSTEXEC_32_def
      PATH_FSEC_OPTIMIZE_def PATH_FSECCOMP_def RUN_SECCOMP_DIR_def)

lemma put_files_other: "f \<notin> fst ` set fs \<Longrightarrow> sb_files (put_files fs st) f = sb_files st f"
proof -
  have "f \<notin> fst ` set fs \<Longrightarrow> fold (\<lambda>(g, c) m. m(g \<mapsto> c)) fs m f = m f" for m
    by (induction fs arbitrary: m) auto
  then show "f \<notin> fst ` set fs \<Longrightarrow> ?thesis" by (simp add: put_files_def)
qed

lemma put_files_first:
  assumes "f \<notin> fst ` set fs"
  shows "sb_files (put_files ((f, c) # fs) st) f = Some c"
proof -
  have "put_files ((f, c) # fs) st = put_files fs (st\<lparr>sb_files := (sb_files st)(f \<mapsto> c)\<rparr>)"
    by (simp add: put_files_def)
  with put_files_other [OF assms] show ?thesis by simp
qed

lemma sbox_run_files:
  assumes "argv \<noteq> []" "run_program w (cfg_seccomp_error_action cfg) argv st = Inr (Files fs)"
  shows "sbox_run w cfg (map Some argv) st = Inr (put_files fs st)"
proof -
  have "map the (takeWhile (\<lambda>a. a \<noteq> None) (map Some argv)) = argv"
    by (simp add: takeWhile_map o_def)
  then show ?thesis unfolding sbox_run_def Let_def using assms by simp
qed

lemma fsec_optimize_main_read:
  "r (argv ! 1) = r' (argv ! 1) \<Longrightarrow> fsec_optimize_main var r opn wr argv = fsec_optimize_main var r' opn wr argv"
  by (simp add: fsec_optimize_main_def)

text \<open>
  \<open>--seccomp.drop=list\<close>, from the configuration to the verdict: firejail runs fseccomp and fsec-optimize and loads
  the result, so that the newest filter of the sandbox refuses, with the configured action, exactly the listed
  calls that have a name, are not excluded and are not needed for the exec. (For a list of entries without
  error names that is short enough for the jump offsets.)
\<close>

theorem seccomp_drop_sandbox:
  assumes "bpf_vm run" "\<And>f. w_open w f > 0" "\<And>n. w_write w n = int n"
    and cfg: "cfg_seccomp_list_drop cfg = Some list" "\<not> arg_seccomp_block_secondary cfg" "\<not> arg_allow_debuggers cfg"
      "error_action (cfg_seccomp_error_action cfg) = Inr act"
    and es: "list_entries (w_defined w) True list = Inr es" "list_all (\<lambda>e. snd e = -1) es"
    and len: "length (filter (\<lambda>e. 0 \<le> fst e) es) + 2 * length (filter (\<lambda>e. fst e < 0) es) \<le> 255"
  shows "\<exists>st' out. seccomp_filter_drop w cfg True st = Inr st' \<and>
    sb_filters st' = (RUN_SECCOMP_CFG, out) # sb_filters st \<and>
    (\<forall>s args. 0 \<le> s \<and> s < 2 ^ 30 \<longrightarrow> run out (call True s args) 0 =
       (if (s, -1) \<in> set es \<and> \<not> (0 < s \<and> (- s, -1) \<in> set es) \<and> known True s \<and> s \<notin> set (keep_nrs True)
        then act else SECCOMP_RET_ALLOW))"
proof -
  let ?f = RUN_SECCOMP_CFG and ?p = RUN_SECCOMP_POSTEXEC and ?var = "cfg_seccomp_error_action cfg"
  from drop_programs [OF assms(1) assms(2) [of ?f] assms(2) [of ?p] cfg(4) assms(3) es len files_names(3), of PATH_FSECCOMP PATH_FSEC_OPTIMIZE]
    obtain pre post out where
    m: "fseccomp_main (w_open w) (w_defined w) ?var [PATH_FSECCOMP, ''drop'', ?f, ?p, list] = Inr (Files ((?f, pre) # post))"
    "fsec_optimize_main ?var (\<lambda>_. Some pre) (w_open w) (w_write w) [PATH_FSEC_OPTIMIZE, ?f] = Inr (Files [(?f, out)])"
    "fst ` set post \<subseteq> {?p}" "out \<noteq> []" "length out < 8192"
    and v: "\<forall>s args. 0 \<le> s \<and> s < 2 ^ 30 \<longrightarrow> run out (call True s args) 0 =
       (if (s, -1) \<in> set es \<and> \<not> (0 < s \<and> (- s, -1) \<in> set es) \<and> known True s \<and> s \<notin> set (keep_nrs True)
        then act else SECCOMP_RET_ALLOW)"
    by blast
  let ?st1 = "put_files ((?f, pre) # post) st"
  have f1: "sb_files ?st1 ?f = Some pre" using m(3) files_names(1) by (intro put_files_first) auto
  have "sbox_run w cfg (map Some [PATH_FSECCOMP, ''drop'', ?f, ?p, list]) st = Inr ?st1"
    by (rule sbox_run_files) (simp_all add: run_program_def m(1))
  moreover have "fsec_optimize_main ?var (sb_files ?st1) (w_open w) (w_write w) [PATH_FSEC_OPTIMIZE, ?f] = Inr (Files [(?f, out)])"
    unfolding m(2) [symmetric] by (rule fsec_optimize_main_read) (simp add: f1)
  then have "sbox_run w cfg (map Some [PATH_FSEC_OPTIMIZE, ?f]) ?st1 = Inr (put_files [(?f, out)] ?st1)"
    by (intro sbox_run_files) (simp_all add: run_program_def)
  moreover have "loaded (put_files [(?f, out)] ?st1) ?f = Some out"
    using m(4,5) by (intro loaded_whole) (simp_all add: put_files_first)
  ultimately have "\<exists>st'. seccomp_filter_drop w cfg True st = Inr st' \<and> sb_filters st' = (?f, out) # sb_filters st"
    using cfg by (simp add: seccomp_filter_drop_def drop_filter_def debuggers_def seccomp_load_eq)
  with v show ?thesis by blast
qed

lemma length_list_rules: "(\<And>s. length (pl s) \<le> 1) \<Longrightarrow> length (list_rules pl es) \<le> length es"
proof (induction es)
  case (Cons e es)
  have "length (entry_rules pl e) \<le> 1" using Cons.prems by (simp add: entry_rules_def)
  with Cons show ?case by (simp add: list_rules_def)
qed (simp add: list_rules_def)

lemma length_keep_code: "length (whitelist_code act True (keep_rules act True es)) \<le> 4 * length es + 20"
proof -
  have r: "length (rules_code rs) = 2 * length rs" for rs by (induction rs) (simp_all add: rule_code_def)
  have "length (list_rules (excluded v) es) \<le> length es" "length (list_rules (listed v) es) \<le> length es" for v
    by (rule length_list_rules; simp add: excluded_def listed_def)+
  note l = this(1) [of act] this(2) [of SECCOMP_RET_ALLOW]
  have "length (init_code act True) = 7"
    by (simp add: init_code_def VALIDATE_ARCHITECTURE_def EXAMINE_SYSCALL_def HANDLE_X32_def KILL_OR_RETURN_ERRNO_def)
  with l show ?thesis
    by (simp add: whitelist_code_def r keep_rules_def KILL_OR_RETURN_ERRNO_def keep_nrs_def rule_code_def)
qed

text \<open>
  C27. \<open>--seccomp.32.keep=list\<close> has no effect on 32 bit programs. fseccomp is run with the command \<open>keep\<close>, not \<open>keep32\<close>, so
  the filter that is loaded as the 32 bit filter checks for the native architecture, and it allows every system
  call that a 32 bit program makes, whatever the list is.
\<close>

theorem seccomp_keep32_allows_all:
  assumes "bpf_vm run" "w_open w RUN_SECCOMP_32 > 0"
    and cfg: "cfg_seccomp_list_keep32 cfg = Some list" "\<not> arg_seccomp_block_secondary cfg"
      "error_action (cfg_seccomp_error_action cfg) = Inr act"
    and es: "list_entries (w_defined w) True list = Inr es" "length es \<le> 2000"
  shows "\<exists>st' code. seccomp_filter_keep w cfg False st = Inr st' \<and>
    sb_filters st' = (RUN_SECCOMP_32, code) # sb_filters st \<and>
    (\<forall>s args. run code (call False s args) 0 = SECCOMP_RET_ALLOW)"
proof -
  let ?f = RUN_SECCOMP_32 and ?p = RUN_SECCOMP_POSTEXEC_32
  let ?env = "\<lparr>env_open = w_open w, env_defined = w_defined w, env_action = act\<rparr>"
  let ?code = "whitelist_code act True (keep_rules act True es)"
  have k: "seccomp_keep ?env ?f ?p list True = Inr [(?f, ?code)]"
    using seccomp_keep_eq [of ?env ?f True list es ?p] assms(2) es(1) by simp
  have "run_program w (cfg_seccomp_error_action cfg) [PATH_FSECCOMP, ''keep'', ?f, ?p, list] st = Inr (Files [(?f, ?code)])"
    using k cfg(3) by (simp add: run_program_def fseccomp_main_def fseccomp_dispatch_def files_of_def)
  then have "sbox_run w cfg (map Some [PATH_FSECCOMP, ''keep'', ?f, ?p, list]) st = Inr (put_files [(?f, ?code)] st)"
    by (intro sbox_run_files) simp_all
  moreover have "loaded (put_files [(?f, ?code)] st) ?f = Some ?code"
    using length_keep_code [of act es] es(2)
    by (intro loaded_whole) (simp_all add: put_files_first whitelist_code_def KILL_OR_RETURN_ERRNO_def)
  ultimately have "\<exists>st'. seccomp_filter_keep w cfg False st = Inr st' \<and> sb_filters st' = (?f, ?code) # sb_filters st"
    using cfg by (simp add: seccomp_filter_keep_def seccomp_load_eq)
  moreover have "run ?code (call False s args) 0 = SECCOMP_RET_ALLOW" for s args
    by (simp add: whitelist_code_def bpf_vm.run_init_code [OF assms(1)] ARCH_NR_def ARCH_32_def)
  ultimately show ?thesis by blast
qed

text \<open>
  \<open>--seccomp.32=list\<close> and \<open>--seccomp.32.drop=list\<close> alone are ignored: the choice of the filter looks at the native
  lists only, so that with the default error action the prepared filter of the secondary architecture is loaded,
  twice, whatever the lists for 32 bit programs are.
\<close>

theorem seccomp_drop32_ignored:
  assumes "cfg_seccomp_list_drop cfg = None" "cfg_seccomp_list cfg = None" "default_action cfg"
    "\<not> arg_seccomp_block_secondary cfg" "loaded st RUN_SECCOMP_32 = Some c"
  shows "\<exists>st'. seccomp_filter_drop w (cfg\<lparr>cfg_seccomp_list32 := l32, cfg_seccomp_list_drop32 := d32\<rparr>) False st = Inr st' \<and>
    sb_filters st' = [(RUN_SECCOMP_32, c), (RUN_SECCOMP_32, c)] @ sb_filters st"
proof -
  have "loaded (seccomp_save_file_list f (st\<lparr>sb_filters := x\<rparr>)) RUN_SECCOMP_32 = Some c" for f x
    using assms(5) by (simp add: loaded_def)
  with assms show ?thesis
    by (simp add: seccomp_filter_drop_def seccomp_filter_32_def is_set_def default_action_def seccomp_load_eq)
qed

subsection \<open>The protocol list\<close>

lemma protocol_fold_no_overflow:
  "length buf + 2 * card ({t. family t \<noteq> None} \<inter> set ts) \<le> filter_size \<Longrightarrow> distinct ts \<Longrightarrow>
   (case fold_result protocol_token ts buf of
      Inl e \<Rightarrow> e \<noteq> BufferOverflow
    | Inr buf' \<Rightarrow> length buf' = length buf + 2 * card ({t. family t \<noteq> None} \<inter> set ts))"
proof (induction ts arbitrary: buf)
  case (Cons t ts)
  show ?case
  proof (cases "family t")
    case None
    then show ?thesis by (simp add: protocol_token_family)
  next
    case (Some a)
    have "{t. family t \<noteq> None} \<inter> set (t # ts) = insert t ({t. family t \<noteq> None} \<inter> set ts)" using Some by auto
    then have c: "card ({t. family t \<noteq> None} \<inter> set (t # ts)) = Suc (card ({t. family t \<noteq> None} \<inter> set ts))"
      using Cons.prems(2) by simp
    then have "protocol_token t buf = Inr (buf @ WHITELIST a)"
      using Cons.prems(1) Some by (simp add: protocol_token_family)
    with Cons.IH [of "buf @ WHITELIST a"] Cons.prems c show ?thesis
      by (auto split: sum.splits)
  qed
qed simp

lemma card_families: "card ({t. family t \<noteq> None} \<inter> set ts) \<le> 6"
proof -
  have "{t. family t \<noteq> None} = set protocol" by (auto simp: family_def protocol_def split: if_splits)
  then have "{t. family t \<noteq> None} \<inter> set ts \<subseteq> set protocol" by blast
  then have "card ({t. family t \<noteq> None} \<inter> set ts) \<le> card (set protocol)" by (intro card_mono) simp_all
  also have "\<dots> \<le> 6" using card_length [of protocol] by (simp add: protocol_def)
  finally show ?thesis .
qed

text \<open>
  The protocol list of a configuration never overflows the local array of fseccomp: whatever the profiles and
  the command line add to it, the list has no duplicates, and there are only six protocols.
\<close>

theorem configured_protocols_fit:
  assumes "augmented (Some prlist)"
  shows "protocol_build_filter env prlist fname \<noteq> Inl BufferOverflow"
proof -
  let ?ts = "strtok (CHR '','') prlist"
  have "distinct ?ts" using augmented_distinct [OF assms] by simp
  moreover have "length (filter_start (env_action env)) + 2 * card ({t. family t \<noteq> None} \<inter> set ?ts) \<le> filter_size"
    using card_families [of ?ts] by (simp add: filter_size_def)
  ultimately have f: "case fold_result protocol_token ?ts (filter_start (env_action env)) of
      Inl e \<Rightarrow> e \<noteq> BufferOverflow
    | Inr buf' \<Rightarrow> length buf' \<le> 28"
    using protocol_fold_no_overflow [of "filter_start (env_action env)" ?ts] card_families [of ?ts]
    by (auto split: sum.splits)
  have s: "memcpy_filter (filter_start (env_action env)) [] = Inr (filter_start (env_action env))"
    by (simp add: memcpy_filter_def filter_size_def)
  from f show ?thesis
    by (auto simp: protocol_build_filter_def s memcpy_filter_def filter_size_def open_file_def
        bind_result_eq_Inl_iff split: sum.splits if_splits)
qed

text \<open>Saving and loading the protocol list.\<close>

lemma protocol_save_load:
  assumes "protocol_filter_save p st = Inr st'" "CHR 0x0A \<notin> set p" "length p \<le> 4096"
  shows "cfg_protocol (protocol_filter_load st' cfg) = Some p"
  using assms by (auto simp: protocol_filter_save_def protocol_filter_load_def cut_at_append split: if_splits)

subsection \<open>Examples\<close>

definition demo_world :: world where
  "demo_world = \<lparr>w_open = \<lambda>_. 3, w_defined = \<lambda>_. True, w_write = int\<rparr>"

definition demo_cfg :: seccomp_cfg where
  "demo_cfg = \<lparr>cfg_protocol = None, cfg_seccomp_list = None, cfg_seccomp_list32 = None,
     cfg_seccomp_list_drop = None, cfg_seccomp_list_drop32 = None, cfg_seccomp_list_keep = None,
     cfg_seccomp_list_keep32 = None, cfg_restrict_namespaces = None, cfg_seccomp_error_action = Some ''EPERM'',
     arg_seccomp = False, arg_seccomp32 = False, arg_seccomp_block_secondary = False,
     arg_memory_deny_write_execute = True, arg_restrict_namespaces = False, arg_allow_debuggers = False,
     arg_seccomp_error_action = 1\<rparr>"

definition demo_sandbox :: sandbox where
  "demo_sandbox = \<lparr>sb_files = \<lambda>_. Some RETURN_ALLOW, sb_filters = [], sb_saved = None, sb_protocol = None\<rparr>"

lemma demo_set:
  "\<exists>st. set_seccomp demo_world demo_cfg demo_sandbox = Inr st \<and>
     sb_filters st = [(RUN_SECCOMP_MDWX_32, RETURN_ALLOW), (RUN_SECCOMP_MDWX, RETURN_ALLOW)] \<and>
     loaded st RUN_SECCOMP_MDWX_32 = Some RETURN_ALLOW \<and> loaded st RUN_SECCOMP_MDWX = Some RETURN_ALLOW"
proof -
  have n: "RUN_SECCOMP_PROTOCOL \<noteq> RUN_SECCOMP_MDWX" "RUN_SECCOMP_PROTOCOL \<noteq> RUN_SECCOMP_MDWX_32"
    by (simp_all add: RUN_SECCOMP_PROTOCOL_def RUN_SECCOMP_MDWX_def RUN_SECCOMP_MDWX_32_def)
  have l: "take (fsec_entries 8) RETURN_ALLOW = RETURN_ALLOW" "RETURN_ALLOW \<noteq> []" "length RETURN_ALLOW = 1"
    by (simp_all add: RETURN_ALLOW_def fsec_entries_def)
  show ?thesis
    by (simp add: set_seccomp_def demo_cfg_def demo_sandbox_def install_protocol_def install_namespaces_def
        default_action_def DEFAULT_SECCOMP_ERROR_ACTION_def seccomp_load_eq loaded_def n n [symmetric] l
        seccomp_save_file_list_def)
qed



theorem seccomp_drop_sandbox_witness:
  "\<exists>st' out. seccomp_filter_drop demo_world
      (demo_cfg\<lparr>cfg_seccomp_list_drop := Some ''mount,execve,!chroot'', cfg_seccomp_error_action := Some ''kill''\<rparr>)
      True demo_sandbox = Inr st' \<and> sb_filters st' = [(RUN_SECCOMP_CFG, out)] \<and>
    bpf_run out (call True 165 (\<lambda>_. 0)) 0 = SECCOMP_RET_KILL \<and>
    bpf_run out (call True 161 (\<lambda>_. 0)) 0 = SECCOMP_RET_ALLOW"
proof -
  have k: "known True 165"
    by (rule known_native [OF demo_names(1)]) (simp add: SYSCALL_ERROR_def INT_MAX_def)
  let ?cfg = "demo_cfg\<lparr>cfg_seccomp_list_drop := Some ''mount,execve,!chroot'', cfg_seccomp_error_action := Some ''kill''\<rparr>"
  have w: "w_open demo_world f > 0" "w_write demo_world n = int n" for f n by (simp_all add: demo_world_def)
  have c: "cfg_seccomp_list_drop ?cfg = Some ''mount,execve,!chroot''" "\<not> arg_seccomp_block_secondary ?cfg"
    "\<not> arg_allow_debuggers ?cfg" "error_action (cfg_seccomp_error_action ?cfg) = Inr SECCOMP_RET_KILL"
    by (simp_all add: demo_cfg_def error_action_def)
  have "\<exists>st' out. seccomp_filter_drop demo_world ?cfg True demo_sandbox = Inr st' \<and>
    sb_filters st' = (RUN_SECCOMP_CFG, out) # sb_filters demo_sandbox \<and>
    (\<forall>s args. 0 \<le> s \<and> s < 2 ^ 30 \<longrightarrow> bpf_run out (call True s args) 0 =
       (if (s, -1 :: int) \<in> set [(165, -1), (59, -1), (-161, -1)] \<and> \<not> (0 < s \<and> (- s, -1 :: int) \<in> set [(165, -1), (59, -1), (-161, -1)]) \<and>
          known True s \<and> s \<notin> set (keep_nrs True) then SECCOMP_RET_KILL else SECCOMP_RET_ALLOW))"
    by (rule seccomp_drop_sandbox [OF ref_vm.bpf_vm_axioms w c demo_list]) simp_all
  then obtain st' out where o: "seccomp_filter_drop demo_world ?cfg True demo_sandbox = Inr st'"
    "sb_filters st' = (RUN_SECCOMP_CFG, out) # sb_filters demo_sandbox"
    and v: "\<And>s args. 0 \<le> s \<Longrightarrow> s < 2 ^ 30 \<Longrightarrow> bpf_run out (call True s args) 0 =
       (if (s, -1 :: int) \<in> set [(165, -1), (59, -1), (-161, -1)] \<and> \<not> (0 < s \<and> (- s, -1 :: int) \<in> set [(165, -1), (59, -1), (-161, -1)]) \<and>
          known True s \<and> s \<notin> set (keep_nrs True) then SECCOMP_RET_KILL else SECCOMP_RET_ALLOW)"
    by blast
  have "bpf_run out (call True 165 (\<lambda>_. 0)) 0 = SECCOMP_RET_KILL" using k by (simp add: v keep_nrs_def)
  moreover have "bpf_run out (call True 161 (\<lambda>_. 0)) 0 = SECCOMP_RET_ALLOW" by (simp add: v)
  ultimately show ?thesis using o by (auto simp: demo_sandbox_def)
qed

theorem seccomp_keep32_allows_all_witness:
  "\<exists>st' code. seccomp_filter_keep demo_world 
      (demo_cfg\<lparr>cfg_seccomp_list_keep32 := Some ''mount,execve,!chroot'', cfg_seccomp_error_action := Some ''kill''\<rparr>) False demo_sandbox = Inr st' \<and>
    sb_filters st' = [(RUN_SECCOMP_32, code)] \<and> bpf_run code (call False 5 (\<lambda>_. 0)) 0 = SECCOMP_RET_ALLOW"
proof -
  let ?cfg = "demo_cfg\<lparr>cfg_seccomp_list_keep32 := Some ''mount,execve,!chroot'', cfg_seccomp_error_action := Some ''kill''\<rparr>"
  have "error_action (cfg_seccomp_error_action ?cfg) = Inr SECCOMP_RET_KILL" by (simp add: error_action_def)
  from seccomp_keep32_allows_all [OF ref_vm.bpf_vm_axioms _ _ _ this, of demo_world "''mount,execve,!chroot''", OF _ _ _ demo_list(1), of demo_sandbox]
  show ?thesis by (auto simp: demo_world_def demo_cfg_def demo_sandbox_def)
qed

theorem seccomp_drop32_ignored_witness:
  "\<exists>st'. seccomp_filter_drop demo_world (demo_cfg\<lparr>cfg_seccomp_list32 := None, cfg_seccomp_list_drop32 := Some ''mount''\<rparr>) False demo_sandbox = Inr st' \<and>
    sb_filters st' = [(RUN_SECCOMP_32, RETURN_ALLOW), (RUN_SECCOMP_32, RETURN_ALLOW)]"
proof -
  have "loaded demo_sandbox RUN_SECCOMP_32 = Some RETURN_ALLOW"
    by (simp add: loaded_def demo_sandbox_def RETURN_ALLOW_def fsec_entries_def)
  from seccomp_drop32_ignored [of demo_cfg, OF _ _ _ _ this, of demo_world "Some ''mount''" None] show ?thesis
    by (simp add: demo_cfg_def default_action_def DEFAULT_SECCOMP_ERROR_ACTION_def demo_sandbox_def)
qed

theorem configured_protocols_fit_witness: "protocol_build_filter demo_env ''b,c,a'' ''f'' \<noteq> Inl BufferOverflow"
proof (rule configured_protocols_fit)
  have "profile_list_augment (Some []) (Some ''a,b,c,-a,a'') = Inr ''b,c,a''"
    by (subst augment_eval; simp add: strtok_def compress_items_def apply_item_def add_item_def MAX_LIST_def)
  then have "profile_list_augment None (Some ''a,b,c,-a,a'') = Inr ''b,c,a''" by (simp add: augment_unset)
  from augmented.augment [OF augmented.unset _ this] show "augmented (Some ''b,c,a'')" by simp
qed

end
