(* ===== verification/Checkcfg.thy ===== *)
theory Checkcfg
  imports Macros Firejail_Seccomp Env
begin

text \<open>
  The run time configuration of \<open>firejail/checkcfg.c\<close>: the values that are set by the system administrator in
  \<open>firejail.config\<close> and that the parsers of profiles and options ask for with \<open>checkcfg\<close>. The text of the file is a
  parameter, as is the access test of the netfilter file. The static variables are a record; the first call of
  \<open>checkcfg\<close> is \<open>checkcfg_init\<close>.
\<close>

datatype CFG =
    CFG_FILE_TRANSFER | CFG_X11 | CFG_BIND | CFG_USERNS | CFG_CHROOT | CFG_SECCOMP | CFG_NETWORK | CFG_RESTRICTED_NETWORK
  | CFG_FORCE_NONEWPRIVS | CFG_XEPHYR_WINDOW_TITLE | CFG_OVERLAYFS | CFG_PRIVATE_BIN | CFG_PRIVATE_BIN_NO_LOCAL
  | CFG_PRIVATE_CACHE | CFG_PRIVATE_ETC | CFG_PRIVATE_HOME | CFG_PRIVATE_LIB | CFG_PRIVATE_OPT | CFG_PRIVATE_SRV
  | CFG_FIREJAIL_PROMPT | CFG_DISABLE_MNT | CFG_JOIN | CFG_ARP_PROBES | CFG_XPRA_ATTACH | CFG_BROWSER_DISABLE_U2F
  | CFG_BROWSER_ALLOW_DRM | CFG_APPARMOR | CFG_DBUS | CFG_NAME_CHANGE | CFG_SECCOMP_ERROR_ACTION | CFG_ALLOW_TRAY
  | CFG_SECCOMP_LOG | CFG_TRACELOG

record runtime_cfg =
  cfg_val :: "CFG \<Rightarrow> int"
  xephyr_screen :: string
  xephyr_extra_params :: string
  xpra_extra_params :: string
  xvfb_screen :: string
  xvfb_extra_params :: string
  netfilter_default :: "string option"
  join_timeout :: u64
  config_seccomp_error_action_str :: string
  config_seccomp_filter_add :: "string option"
  whitelist_reject_topdirs :: "string list option"
  rc_arg_quiet :: "int option"
  rc_env :: "Env list"

definition DEFAULT_ARP_PROBES :: int where "DEFAULT_ARP_PROBES = 2"

definition cfg_defaults :: "CFG \<Rightarrow> int" where
  "cfg_defaults c =
     (case c of
        CFG_RESTRICTED_NETWORK \<Rightarrow> 0 | CFG_FORCE_NONEWPRIVS \<Rightarrow> 0 | CFG_PRIVATE_BIN_NO_LOCAL \<Rightarrow> 0 | CFG_FIREJAIL_PROMPT \<Rightarrow> 0
      | CFG_DISABLE_MNT \<Rightarrow> 0 | CFG_ARP_PROBES \<Rightarrow> DEFAULT_ARP_PROBES | CFG_XPRA_ATTACH \<Rightarrow> 0 | CFG_SECCOMP_ERROR_ACTION \<Rightarrow> -1
      | CFG_BROWSER_ALLOW_DRM \<Rightarrow> 0 | CFG_ALLOW_TRAY \<Rightarrow> 0 | CFG_CHROOT \<Rightarrow> 0 | CFG_SECCOMP_LOG \<Rightarrow> 0 | CFG_PRIVATE_LIB \<Rightarrow> 0
      | CFG_TRACELOG \<Rightarrow> 0 | _ \<Rightarrow> 1)"

definition runtime_defaults :: "Env list \<Rightarrow> runtime_cfg" where
  "runtime_defaults env = \<lparr>cfg_val = cfg_defaults, xephyr_screen = ''800x600'', xephyr_extra_params = [], xpra_extra_params = [],
     xvfb_screen = ''800x600x24'', xvfb_extra_params = [], netfilter_default = None, join_timeout = 5000000,
     config_seccomp_error_action_str = ''EPERM'', config_seccomp_filter_add = None, whitelist_reject_topdirs = None,
     rc_arg_quiet = None, rc_env = env\<rparr>"

definition set_val :: "CFG \<Rightarrow> int \<Rightarrow> runtime_cfg \<Rightarrow> runtime_cfg" where
  "set_val key v rc = rc\<lparr>cfg_val := (cfg_val rc)(key := v)\<rparr>"

text \<open>The keys of \<open>PARSE_YESNO\<close>, in the order of the source.\<close>

definition yesno_keys :: "(CFG \<times> string) list" where
  "yesno_keys =
     [(CFG_FILE_TRANSFER, ''file-transfer''), (CFG_DBUS, ''dbus''), (CFG_JOIN, ''join''), (CFG_X11, ''x11''),
      (CFG_APPARMOR, ''apparmor''), (CFG_BIND, ''bind''), (CFG_NAME_CHANGE, ''name-change''), (CFG_USERNS, ''userns''),
      (CFG_CHROOT, ''chroot''), (CFG_FIREJAIL_PROMPT, ''firejail-prompt''), (CFG_FORCE_NONEWPRIVS, ''force-nonewprivs''),
      (CFG_SECCOMP, ''seccomp''), (CFG_NETWORK, ''network''), (CFG_RESTRICTED_NETWORK, ''restricted-network''),
      (CFG_TRACELOG, ''tracelog''), (CFG_XEPHYR_WINDOW_TITLE, ''xephyr-window-title''), (CFG_OVERLAYFS, ''overlayfs''),
      (CFG_PRIVATE_BIN, ''private-bin''), (CFG_PRIVATE_BIN_NO_LOCAL, ''private-bin-no-local''),
      (CFG_PRIVATE_CACHE, ''private-cache''), (CFG_PRIVATE_ETC, ''private-etc''), (CFG_PRIVATE_HOME, ''private-home''),
      (CFG_PRIVATE_LIB, ''private-lib''), (CFG_PRIVATE_OPT, ''private-opt''), (CFG_PRIVATE_SRV, ''private-srv''),
      (CFG_DISABLE_MNT, ''disable-mnt''), (CFG_XPRA_ATTACH, ''xpra-attach''), (CFG_BROWSER_DISABLE_U2F, ''browser-disable-u2f''),
      (CFG_BROWSER_ALLOW_DRM, ''browser-allow-drm''), (CFG_ALLOW_TRAY, ''allow-tray''), (CFG_SECCOMP_LOG, ''seccomp-log'')]"

text \<open>\<open>errout\<close>\<close>

definition invalid_line :: "string \<Rightarrow> 'a result" where
  "invalid_line ptr = Inl (ProfileError ''invalid line in firejail configuration file'' ptr)"

text \<open>\<open>None\<close>: no key of the table starts the line.\<close>

definition parse_yesno :: "string \<Rightarrow> runtime_cfg \<Rightarrow> runtime_cfg result option" where
  "parse_yesno ptr rc =
     map_option (\<lambda>(key, string).
         let v = drop (length string + 1) ptr in
         if v = ''yes'' then Inr (set_val key 1 rc)
         else if v = ''no'' then Inr (set_val key 0 rc)
         else invalid_line ptr)
       (find (\<lambda>(key, string). starts_with (string @ '' '') ptr) yesno_keys)"

text \<open>\<open>%d\<close> with the rest of the string.\<close>

definition scan_int_d :: "string \<Rightarrow> (int \<times> string) option" where
  "scan_int_d s = map_option (\<lambda>(_, r). (atoi s, r)) (scan_u s)"

definition scan_screen2 :: "string \<Rightarrow> (int \<times> int) option" where
  "scan_screen2 s =
     Option.bind (scan_int_d s) (\<lambda>(n1, s). Option.bind (scan_lit (CHR ''x'') s) (\<lambda>s.
     Option.bind (scan_int_d s) (\<lambda>(n2, s). Some (n1, n2))))"

definition scan_screen3 :: "string \<Rightarrow> (u32 \<times> u32 \<times> u32) option" where
  "scan_screen3 s =
     Option.bind (scan_u s) (\<lambda>(n1, s). Option.bind (scan_lit (CHR ''x'') s) (\<lambda>s.
     Option.bind (scan_u s) (\<lambda>(n2, s). Option.bind (scan_lit (CHR ''x'') s) (\<lambda>s.
     Option.bind (scan_u s) (\<lambda>(n3, s). Some (n1, n2, n3))))))"

text \<open>
  The error action as a value of \<open>cfg_val\<close>: \<open>SECCOMP_RET_KILL\<close>, \<open>SECCOMP_RET_LOG\<close> or a bare error number.
\<close>

definition config_error_action :: "string \<Rightarrow> int result" where
  "config_error_action s =
     (if s = ''kill'' then Inr (sint SECCOMP_RET_KILL)
      else if s = ''log'' then Inr (sint SECCOMP_RET_LOG)
      else if errno_find_name s = -1 then Inl UnknownErrno
      else Inr (errno_find_name s))"

text \<open>
  The chain of the remaining keys. The loop that skips blanks in \<open>netfilter-default\<close> would not end on a blank, but the
  cleaned line has no two blanks in a row. \<open>present\<close> is the answer of \<open>access(fname, F_OK)\<close>.
\<close>

definition config_line :: "(string \<Rightarrow> bool) \<Rightarrow> string \<Rightarrow> runtime_cfg \<Rightarrow> runtime_cfg result" where
  "config_line present ptr rc =
     (case parse_yesno ptr rc of
        Some r \<Rightarrow> r
      | None \<Rightarrow>
          if starts_with ''netfilter-default '' ptr
          then (let fname = fst (cut_at space (drop 18 ptr)) in
                if \<not> present fname then Inl (CannotOpen fname)
                else if netfilter_default rc \<noteq> None then invalid_line ptr
                else Inr (rc\<lparr>netfilter_default := Some fname\<rparr>))
          else if starts_with ''xephyr-screen '' ptr
          then (case scan_screen2 (drop 14 ptr) of
                  None \<Rightarrow> invalid_line ptr
                | Some (n1, n2) \<Rightarrow> Inr (rc\<lparr>xephyr_screen := fmt_d n1 @ ''x'' @ fmt_d n2\<rparr>))
          else if starts_with ''xephyr-extra-params '' ptr
          then (if xephyr_extra_params rc \<noteq> [] then invalid_line ptr else Inr (rc\<lparr>xephyr_extra_params := drop 20 ptr\<rparr>))
          else if starts_with ''xpra-extra-params '' ptr
          then (if xpra_extra_params rc \<noteq> [] then invalid_line ptr else Inr (rc\<lparr>xpra_extra_params := drop 18 ptr\<rparr>))
          else if starts_with ''xvfb-screen '' ptr
          then (case scan_screen3 (drop 12 ptr) of
                  None \<Rightarrow> invalid_line ptr
                | Some (n1, n2, n3) \<Rightarrow>
                    Inr (rc\<lparr>xvfb_screen := fmt_u (unat n1) @ ''x'' @ fmt_u (unat n2) @ ''x'' @ fmt_u (unat n3)\<rparr>))
          else if starts_with ''xvfb-extra-params '' ptr
          then (if xvfb_extra_params rc \<noteq> [] then invalid_line ptr else Inr (rc\<lparr>xvfb_extra_params := drop 18 ptr\<rparr>))
          else if starts_with ''quiet-by-default '' ptr
          then (if drop 17 ptr = ''yes'' then Inr (rc\<lparr>rc_arg_quiet := Some 1\<rparr>)
                else if drop 17 ptr = ''no'' then Inr (rc\<lparr>rc_arg_quiet := Some 0\<rparr>)
                else invalid_line ptr)
          else if starts_with ''arp-probes '' ptr
          then (let arp_probes = atoi (drop 11 ptr) in
                if arp_probes \<le> 1 \<or> 30 < arp_probes then invalid_line ptr
                else Inr (set_val CFG_ARP_PROBES arp_probes rc))
          else if starts_with ''file-copy-limit '' ptr
          then bind_result (env_store_name_val ''FIREJAIL_FILE_COPY_LIMIT'' (drop 16 ptr) SETENV (rc_env rc))
                 (\<lambda>env. Inr (rc\<lparr>rc_env := env\<rparr>))
          else if starts_with ''join-timeout '' ptr
          then Inr (rc\<lparr>join_timeout := scan_llu (drop 13 ptr) * 1000000\<rparr>)
          else if starts_with ''seccomp-filter-add '' ptr
          then bind_result (seccomp_check_list (drop 19 ptr)) (\<lambda>l. Inr (rc\<lparr>config_seccomp_filter_add := Some l\<rparr>))
          else if starts_with ''seccomp-error-action '' ptr
          then bind_result (config_error_action (drop 21 ptr)) (\<lambda>a.
                 Inr ((set_val CFG_SECCOMP_ERROR_ACTION a rc)\<lparr>config_seccomp_error_action_str := drop 21 ptr\<rparr>))
          else if starts_with ''whitelist-disable-topdir '' ptr
          then Inr (rc\<lparr>whitelist_reject_topdirs := Some (strtok (CHR '','') (drop 25 ptr))\<rparr>)
          else invalid_line ptr)"

text \<open>A line of the file: lines that start with \<open>#\<close> or a newline are skipped.\<close>

definition config_buf :: "(string \<Rightarrow> bool) \<Rightarrow> string \<Rightarrow> runtime_cfg \<Rightarrow> runtime_cfg result" where
  "config_buf present buf rc =
     (if buf \<noteq> [] \<and> (hd buf = CHR ''#'' \<or> hd buf = newline) then Inr rc
      else case line_remove_spaces (takeWhile (\<lambda>c. c \<noteq> CHR 0x00) buf) of
        None \<Rightarrow> Inr rc
      | Some ptr \<Rightarrow> config_line present ptr rc)"

definition CFG_READ :: nat where "CFG_READ = 8192"

definition checkcfg_init :: "bool \<Rightarrow> (string \<Rightarrow> bool) \<Rightarrow> string option \<Rightarrow> Env list \<Rightarrow> runtime_cfg result" where
  "checkcfg_init have_globalcfg present content env =
     (case content of
        None \<Rightarrow> if have_globalcfg then Inl (CannotOpen ''firejail.config'') else Inr (runtime_defaults env)
      | Some t \<Rightarrow> fold_result (config_buf present) (fgets_lines CFG_READ t) (runtime_defaults env))"

definition checkcfg :: "bool \<Rightarrow> runtime_cfg \<Rightarrow> CFG \<Rightarrow> int" where
  "checkcfg root rc val =
     (if val = CFG_NETWORK \<and> cfg_val rc CFG_RESTRICTED_NETWORK \<noteq> 0 \<and> \<not> root then 0 else cfg_val rc val)"

subsection \<open>Values of the configuration\<close>

text \<open>The lines that are parsed, cleaned.\<close>

definition config_lines :: "string \<Rightarrow> string list" where
  "config_lines t =
     List.map_filter (\<lambda>buf. line_remove_spaces (takeWhile (\<lambda>c. c \<noteq> CHR 0x00) buf))
       (filter (\<lambda>buf. \<not> (buf \<noteq> [] \<and> (hd buf = CHR ''#'' \<or> hd buf = newline))) (fgets_lines CFG_READ t))"

lemma config_bufs:
  "fold_result (config_buf present) bufs rc =
   fold_result (config_line present)
     (List.map_filter (\<lambda>buf. line_remove_spaces (takeWhile (\<lambda>c. c \<noteq> CHR 0x00) buf))
       (filter (\<lambda>buf. \<not> (buf \<noteq> [] \<and> (hd buf = CHR ''#'' \<or> hd buf = newline))) bufs)) rc"
proof (induction bufs arbitrary: rc)
  case (Cons buf bufs)
  then show ?case
    by (cases "line_remove_spaces (takeWhile (\<lambda>c. c \<noteq> CHR 0x00) buf)";
        cases "config_line present (the (line_remove_spaces (takeWhile (\<lambda>c. c \<noteq> CHR 0x00) buf))) rc")
      (auto simp: config_buf_def List.map_filter_simps)
qed (simp add: List.map_filter_simps)

lemma checkcfg_init_lines:
  "checkcfg_init g present (Some t) env = fold_result (config_line present) (config_lines t) (runtime_defaults env)"
  by (simp add: checkcfg_init_def config_bufs config_lines_def)

lemma yesno_words: "(key, str) \<in> set yesno_keys \<Longrightarrow> space \<notin> set str"
  by (auto simp: yesno_keys_def)

lemma yesno_distinct: "distinct (map snd yesno_keys)" "distinct (map fst yesno_keys)"
  by (simp_all add: yesno_keys_def)

lemma yesno_unique: "(k, s) \<in> set yesno_keys \<Longrightarrow> (key, str) \<in> set yesno_keys \<Longrightarrow> k = key \<longleftrightarrow> s = str"
  using yesno_distinct unfolding distinct_map inj_on_def by (metis fst_conv snd_conv)

lemma starts_with_word:
  assumes "space \<notin> set a" "space \<notin> set b" "starts_with (a @ '' '') ptr" "starts_with (b @ '' '') ptr"
  shows "a = b"
proof -
  have "takeWhile (\<lambda>c. c \<noteq> space) ptr = x" if "space \<notin> set x" "starts_with (x @ '' '') ptr" for x
  proof -
    from that(2) obtain r where "ptr = x @ space # r"
      unfolding starts_with_def by (metis append.assoc append_Cons append_Nil append_take_drop_id)
    then show ?thesis using that(1) by (auto simp: takeWhile_append)
  qed
  from this [OF assms(1,3)] this [OF assms(2,4)] show ?thesis by simp
qed

lemma find_yesno:
  assumes "(key, str) \<in> set yesno_keys" "starts_with (str @ '' '') ptr"
  shows "find (\<lambda>(key, string). starts_with (string @ '' '') ptr) yesno_keys = Some (key, str)"
proof -
  let ?P = "\<lambda>(key :: CFG, string). starts_with (string @ '' '') ptr"
  have "find ?P yesno_keys \<noteq> None" using assms by (auto simp: find_None_iff)
  then obtain k s where f: "find ?P yesno_keys = Some (k, s)" by auto
  then have "(k, s) \<in> set yesno_keys" "starts_with (s @ '' '') ptr" by (auto simp: find_Some_iff in_set_conv_nth)
  moreover from this have "s = str" using assms yesno_words starts_with_word by metis
  ultimately have "k = key" using assms(1) yesno_unique by blast
  with f \<open>s = str\<close> show ?thesis by simp
qed

lemma parse_yesno_key:
  assumes "(key, str) \<in> set yesno_keys" "parse_yesno ptr rc = Some (Inr rc')"
  shows "cfg_val rc' key = (if ptr = str @ '' yes'' then 1 else if ptr = str @ '' no'' then 0 else cfg_val rc key)"
proof -
  from assms(2) obtain k s where f: "find (\<lambda>(key, string). starts_with (string @ '' '') ptr) yesno_keys = Some (k, s)"
    and v: "drop (length s + 1) ptr = ''yes'' \<and> rc' = set_val k 1 rc \<or> drop (length s + 1) ptr = ''no'' \<and> rc' = set_val k 0 rc"
    by (auto simp: parse_yesno_def invalid_line_def Let_def split: if_splits)
  then have ks: "(k, s) \<in> set yesno_keys" "starts_with (s @ '' '') ptr" by (auto simp: find_Some_iff in_set_conv_nth)
  from ks(2) obtain r where r: "ptr = s @ space # r"
    unfolding starts_with_def by (metis append.assoc append_Cons append_Nil append_take_drop_id)
  show ?thesis
  proof (cases "k = key")
    case True
    then have "s = str" using assms(1) ks(1) yesno_unique by blast
    with True v r show ?thesis by (auto simp: set_val_def)
  next
    case False
    then have "s \<noteq> str" using assms(1) ks(1) yesno_unique by blast
    then have "\<not> starts_with (str @ '' '') ptr" using assms(1) ks yesno_words starts_with_word by metis
    then have "ptr \<noteq> str @ '' yes''" "ptr \<noteq> str @ '' no''" by (auto simp: starts_with_def)
    with False v show ?thesis by (auto simp: set_val_def)
  qed
qed

lemma config_line_key:
  assumes "(key, str) \<in> set yesno_keys" "config_line present ptr rc = Inr rc'"
  shows "cfg_val rc' key = (if ptr = str @ '' yes'' then 1 else if ptr = str @ '' no'' then 0 else cfg_val rc key)"
proof (cases "parse_yesno ptr rc")
  case None
  then have "\<not> starts_with (str @ '' '') ptr" using find_yesno [OF assms(1)] by (auto simp: parse_yesno_def)
  then have n: "ptr \<noteq> str @ '' yes''" "ptr \<noteq> str @ '' no''" by (auto simp: starts_with_def)
  have "key \<noteq> CFG_ARP_PROBES" "key \<noteq> CFG_SECCOMP_ERROR_ACTION" using assms(1) by (auto simp: yesno_keys_def)
  with None n assms(2) show ?thesis
    by (auto simp: config_line_def invalid_line_def set_val_def Let_def bind_result_eq_Inr_iff split: if_splits option.splits prod.splits)
next
  case (Some r)
  with assms have "parse_yesno ptr rc = Some (Inr rc')" by (simp add: config_line_def)
  with assms(1) show ?thesis by (rule parse_yesno_key)
qed

text \<open>
  The configuration file is read as documented: each yes/no key has the value of the last line that sets it, and its
  default when there is none.
\<close>

theorem checkcfg_last_wins:
  assumes "checkcfg_init g present (Some t) env = Inr rc" "(key, str) \<in> set yesno_keys"
  shows "cfg_val rc key =
    fold (\<lambda>ptr v. if ptr = str @ '' yes'' then 1 else if ptr = str @ '' no'' then 0 else v) (config_lines t) (cfg_defaults key)"
proof -
  have "cfg_val rc key = fold (\<lambda>ptr v. if ptr = str @ '' yes'' then 1 else if ptr = str @ '' no'' then 0 else v) ls (cfg_val rc0 key)"
    if "fold_result (config_line present) ls rc0 = Inr rc" for ls rc0
    using that
  proof (induction ls arbitrary: rc0)
    case (Cons l ls)
    then obtain rc1 where "config_line present l rc0 = Inr rc1" "fold_result (config_line present) ls rc1 = Inr rc"
      by (auto simp: bind_result_eq_Inr_iff)
    with Cons.IH config_line_key [OF assms(2)] show ?case by fastforce
  qed simp
  from this [of "config_lines t"] assms(1) show ?thesis by (simp add: checkcfg_init_lines runtime_defaults_def)
qed

theorem checkcfg_last_wins_witness:
  "\<exists>rc. checkcfg_init True (\<lambda>_. True) (Some (''# x'' @ [newline] @ ''join  no'' @ [newline] @ ''join yes'' @ [newline])) [] = Inr rc \<and>
     cfg_val rc CFG_JOIN = 1"
proof -
  let ?t = "''# x'' @ [newline] @ ''join  no'' @ [newline] @ ''join yes'' @ [newline]"
  have l: "config_lines ?t = [''join no'', ''join yes'']"
    by (simp add: config_lines_def fgets_lines.simps fgets_line_def CFG_READ_def List.map_filter_simps line_remove_spaces_def
        strip_blank_def is_blank_def)
  have k: "(CFG_JOIN, ''join'') \<in> set yesno_keys" by (simp add: yesno_keys_def)
  have "\<exists>rc. checkcfg_init True (\<lambda>_. True) (Some ?t) [] = Inr rc"
    unfolding checkcfg_init_lines l by (simp add: config_line_def parse_yesno_def yesno_keys_def starts_with_def)
  then obtain rc where "checkcfg_init True (\<lambda>_. True) (Some ?t) [] = Inr rc" by blast
  with checkcfg_last_wins [OF this k, unfolded l] show ?thesis by simp
qed

text \<open>The values that \<open>checkcfg\<close> can return.\<close>

definition error_value :: "int \<Rightarrow> bool" where
  "error_value a \<longleftrightarrow> a = -1 \<or> a = sint SECCOMP_RET_KILL \<or> a = sint SECCOMP_RET_LOG \<or> (\<exists>s. a = errno_find_name s)"

definition runtime_ok :: "runtime_cfg \<Rightarrow> bool" where
  "runtime_ok rc \<longleftrightarrow>
     (\<forall>key str. (key, str) \<in> set yesno_keys \<longrightarrow> cfg_val rc key \<in> {0, 1}) \<and>
     2 \<le> cfg_val rc CFG_ARP_PROBES \<and> cfg_val rc CFG_ARP_PROBES \<le> 30 \<and> error_value (cfg_val rc CFG_SECCOMP_ERROR_ACTION) \<and>
     (\<forall>l. config_seccomp_filter_add rc = Some l \<longrightarrow> seccomp_check_list l = Inr l)"

lemma yesno_other: "(CFG_ARP_PROBES, s) \<notin> set yesno_keys" "(CFG_SECCOMP_ERROR_ACTION, s) \<notin> set yesno_keys"
  by (auto simp: yesno_keys_def)

lemma seccomp_check_list_id: "seccomp_check_list s = Inr l \<Longrightarrow> seccomp_check_list l = Inr l"
  by (auto simp: seccomp_check_list_def split: if_splits)

lemma parse_yesno_ok:
  assumes "parse_yesno ptr rc = Some (Inr rc')" "runtime_ok rc"
  shows "runtime_ok rc'"
proof -
  from assms(1) obtain k s v where f: "find (\<lambda>(key, string). starts_with (string @ '' '') ptr) yesno_keys = Some (k, s)"
    and v: "rc' = set_val k v rc" "v \<in> {0, 1}"
    by (auto simp: parse_yesno_def invalid_line_def Let_def split: if_splits)
  then have "(k, s) \<in> set yesno_keys" by (auto simp: find_Some_iff in_set_conv_nth)
  then have "k \<noteq> CFG_ARP_PROBES" "k \<noteq> CFG_SECCOMP_ERROR_ACTION" using yesno_other by auto
  with v assms(2) show ?thesis by (auto simp: runtime_ok_def set_val_def)
qed

lemma config_line_ok:
  assumes "config_line present ptr rc = Inr rc'" "runtime_ok rc"
  shows "runtime_ok rc'"
proof (cases "parse_yesno ptr rc")
  case (Some r)
  with assms parse_yesno_ok show ?thesis by (auto simp: config_line_def)
next
  case None
  have e: "config_error_action s = Inr a \<Longrightarrow> error_value a" for s a
    by (auto simp: config_error_action_def error_value_def split: if_splits)
  from None assms(1) consider
      "cfg_val rc' = cfg_val rc" "config_seccomp_filter_add rc' = config_seccomp_filter_add rc"
    | l t where "cfg_val rc' = cfg_val rc" "config_seccomp_filter_add rc' = Some l" "seccomp_check_list t = Inr l"
    | v where "cfg_val rc' = (cfg_val rc)(CFG_ARP_PROBES := v)" "1 < v" "v \<le> 30"
        "config_seccomp_filter_add rc' = config_seccomp_filter_add rc"
    | a t where "cfg_val rc' = (cfg_val rc)(CFG_SECCOMP_ERROR_ACTION := a)" "config_error_action t = Inr a"
        "config_seccomp_filter_add rc' = config_seccomp_filter_add rc"
    by (auto simp: config_line_def invalid_line_def Let_def bind_result_eq_Inr_iff set_val_def not_le
        split: if_splits option.splits prod.splits)
  then show ?thesis
  proof cases
    case 1
    with assms(2) show ?thesis by (simp add: runtime_ok_def)
  next
    case (2 l t)
    with assms(2) seccomp_check_list_id [of t l] show ?thesis by (simp add: runtime_ok_def)
  next
    case (3 v)
    with assms(2) yesno_other(1) show ?thesis by (auto simp: runtime_ok_def)
  next
    case (4 a t)
    with assms(2) yesno_other(2) e [of t a] show ?thesis by (auto simp: runtime_ok_def)
  qed
qed

text \<open>
  Whatever the configuration file contains, the values of the run time configuration are in their ranges: the
  yes/no keys are 0 or 1, the number of ARP probes is between 2 and 30, the error action is unset, kill, log or an
  error number of the table, and the rules added to the default filter have the permitted characters only.
\<close>

theorem checkcfg_ranges:
  assumes "checkcfg_init g present content env = Inr rc"
  shows "runtime_ok rc"
proof -
  have d: "runtime_ok (runtime_defaults env)"
    by (auto simp: runtime_ok_def runtime_defaults_def cfg_defaults_def DEFAULT_ARP_PROBES_def error_value_def yesno_keys_def)
  show ?thesis
  proof (cases content)
    case None
    with assms d show ?thesis by (auto simp: checkcfg_init_def split: if_splits)
  next
    case (Some t)
    with assms have "fold_result (config_line present) (config_lines t) (runtime_defaults env) = Inr rc"
      by (simp add: checkcfg_init_lines)
    then show ?thesis by (rule fold_result_inv [where I = runtime_ok, OF _ d, rotated]) (rule config_line_ok)
  qed
qed

theorem checkcfg_ranges_witness: "runtime_ok (runtime_defaults [])"
  by (rule checkcfg_ranges [of False "\<lambda>_. True" None]) (simp add: checkcfg_init_def)

end
