(* ===== verification/Dbus_Names.thy ===== *)
theory Dbus_Names
  imports Util
begin

text \<open>
  The validation of D-Bus names and call rules of \<open>firejail/dbus.c\<close>. The loops with their counters accept exactly the
  dotted names, slashed paths and rules that the specification below describes.
\<close>

definition DBUS_MAX_NAME_LENGTH :: nat where "DBUS_MAX_NAME_LENGTH = 255"

fun bus_name_loop :: "bool \<Rightarrow> nat \<Rightarrow> bool \<Rightarrow> string \<Rightarrow> bool" where
  "bus_name_loop hyphens_allowed segs in_segment [] = (in_segment \<and> 2 \<le> segs)"
| "bus_name_loop hyphens_allowed segs in_segment (p # r) =
     (let alpha = ascii_isalpha p; digit = ascii_isdigit p in
      if in_segment
      then (if p = dot then bus_name_loop hyphens_allowed (segs + 1) False r
            else if \<not> alpha \<and> \<not> digit \<and> p \<noteq> CHR ''_'' \<and> (\<not> hyphens_allowed \<or> p \<noteq> CHR ''-'') then False
            else bus_name_loop hyphens_allowed segs True r)
      else (if p = CHR ''*'' then r = []
            else if \<not> alpha \<and> p \<noteq> CHR ''_'' \<and> (\<not> hyphens_allowed \<or> p \<noteq> CHR ''-'') then False
            else bus_name_loop hyphens_allowed segs True r))"

definition check_bus_or_interface_name :: "string \<Rightarrow> bool \<Rightarrow> bool" where
  "check_bus_or_interface_name name hyphens_allowed =
     (name \<noteq> [] \<and> length name \<le> DBUS_MAX_NAME_LENGTH \<and> bus_name_loop hyphens_allowed 1 False name)"

fun object_path_loop :: "bool \<Rightarrow> string \<Rightarrow> bool" where
  "object_path_loop in_segment [] = in_segment"
| "object_path_loop in_segment (p # r) =
     (let alpha = ascii_isalpha p; digit = ascii_isdigit p in
      if in_segment
      then (if p = slash then object_path_loop False r
            else if \<not> alpha \<and> \<not> digit \<and> p \<noteq> CHR ''_'' then False
            else object_path_loop True r)
      else (if p = CHR ''*'' then r = []
            else if \<not> alpha \<and> p \<noteq> CHR ''_'' then False
            else object_path_loop True r))"

definition check_object_path :: "string \<Rightarrow> bool" where
  "check_object_path path =
     (path \<noteq> [] \<and> hd path = slash \<and> (length path = 1 \<or> object_path_loop False (tl path)))"

definition dbus_check_name :: "string \<Rightarrow> bool" where
  "dbus_check_name name = check_bus_or_interface_name name True"

text \<open>The name and the interface are copied into a buffer of \<open>DBUS_MAX_NAME_LENGTH + 1\<close> characters.\<close>

definition copy_name :: "string \<Rightarrow> string result" where
  "copy_name s = (if length s + 1 \<le> DBUS_MAX_NAME_LENGTH + 1 then Inr s else Inl BufferOverflow)"

definition dbus_check_call_rule :: "string \<Rightarrow> bool result" where
  "dbus_check_call_rule rule =
     (case cut_at (CHR ''='') rule of
        (_, None) \<Rightarrow> Inr False
      | (name, Some rest) \<Rightarrow>
          if DBUS_MAX_NAME_LENGTH < length name then Inr False
          else bind_result (copy_name name) (\<lambda>buf.
            if \<not> dbus_check_name buf then Inr False
            else case cut_at (CHR ''@'') rest of
              (_, None) \<Rightarrow> Inr (check_bus_or_interface_name rest False)
            | (iface, Some path) \<Rightarrow>
                if DBUS_MAX_NAME_LENGTH < length iface then Inr False
                else if iface \<noteq> []
                then bind_result (copy_name iface) (\<lambda>buf.
                       if \<not> check_bus_or_interface_name buf False then Inr False else Inr (check_object_path path))
                else Inr (check_object_path path)))"

subsection \<open>The accepted names\<close>

text \<open>A segment starts with a letter or underscore, or a hyphen where they are allowed, and goes on with these and digits.\<close>

definition segment :: "bool \<Rightarrow> string \<Rightarrow> bool" where
  "segment hyphens w \<longleftrightarrow> w \<noteq> [] \<and> \<not> ascii_isdigit (hd w) \<and>
     list_all (\<lambda>c. ascii_isalnum c \<or> c = CHR ''_'' \<or> hyphens \<and> c = CHR ''-'') w"

text \<open>Segments with a separator between them, where the last one may be a star.\<close>

definition dotted :: "bool \<Rightarrow> char \<Rightarrow> nat \<Rightarrow> string \<Rightarrow> bool" where
  "dotted hyphens sep n s \<longleftrightarrow>
     (let ws = split_on sep s in
      list_all (segment hyphens) (butlast ws) \<and> (last ws = ''*'' \<or> segment hyphens (last ws) \<and> n \<le> length ws))"

definition valid_bus_name :: "bool \<Rightarrow> string \<Rightarrow> bool" where
  "valid_bus_name hyphens s \<longleftrightarrow> length s \<le> 255 \<and> dotted hyphens dot 2 s"

definition valid_object_path :: "string \<Rightarrow> bool" where
  "valid_object_path s \<longleftrightarrow> s = ''/'' \<or> s \<noteq> [] \<and> hd s = slash \<and> dotted False slash 1 (tl s)"

lemma char_classes:
  "\<not> ascii_isalnum dot" "\<not> ascii_isalnum slash" "\<not> ascii_isalnum (CHR ''*'')" "\<not> ascii_isdigit (CHR ''_'')"
  "\<not> ascii_isdigit (CHR ''-'')" "ascii_isalpha c \<Longrightarrow> \<not> ascii_isdigit c"
  "\<not> ascii_isalpha dot" "\<not> ascii_isalpha slash" "\<not> ascii_isalpha (CHR ''*'')"
  by (auto simp: ascii_isalnum_def ascii_isalpha_def ascii_isdigit_def ascii_islower_def ascii_isupper_def)

lemma split_on_first: "\<exists>w ws. split_on c s = w # ws"
  using split_on_not_Nil [of c s] by (cases "split_on c s") auto

definition name_ok :: "bool \<Rightarrow> char \<Rightarrow> bool" where
  "name_ok h c \<longleftrightarrow> ascii_isalnum c \<or> c = CHR ''_'' \<or> h \<and> c = CHR ''-''"

text \<open>What the loops decide at the start of a segment and within one, when \<open>k\<close> segments have been counted.\<close>

definition from_start :: "bool \<Rightarrow> nat \<Rightarrow> nat \<Rightarrow> string list \<Rightarrow> bool" where
  "from_start h n k ws \<longleftrightarrow>
     list_all (segment h) (butlast ws) \<and> (last ws = ''*'' \<or> segment h (last ws) \<and> n + 1 \<le> k + length ws)"

definition from_within :: "bool \<Rightarrow> nat \<Rightarrow> nat \<Rightarrow> string list \<Rightarrow> bool" where
  "from_within h n k ws \<longleftrightarrow>
     list_all (name_ok h) (hd ws) \<and> (if tl ws = [] then n \<le> k else from_start h n (k + 1) (tl ws))"

lemma segment_Cons: "segment h (c # w) \<longleftrightarrow> \<not> ascii_isdigit c \<and> name_ok h c \<and> list_all (name_ok h) w"
  by (auto simp: segment_def name_ok_def list_all_iff)

lemma from_simps:
  "\<not> from_start h n k [[]]"
  "from_within h n k [[]] \<longleftrightarrow> n \<le> k"
  "ws \<noteq> [] \<Longrightarrow> \<not> from_start h n k ([] # ws)"
  "ws \<noteq> [] \<Longrightarrow> from_within h n k ([] # ws) \<longleftrightarrow> from_start h n (k + 1) ws"
  "from_within h n k ((c # w) # ws) \<longleftrightarrow> name_ok h c \<and> from_within h n k (w # ws)"
  "from_start h n k ((c # w) # ws) \<longleftrightarrow>
     (if c = CHR ''*'' then w = [] \<and> ws = [] else \<not> ascii_isdigit c \<and> name_ok h c \<and> from_within h n k (w # ws))"
  using char_classes
  by (auto simp: from_start_def from_within_def segment_Cons segment_def [of _ "[]"] name_ok_def split: if_splits)

lemma split_on_Cons:
  assumes "split_on c s = w # ws" "x \<noteq> c"
  shows "split_on c (x # s) = (x # w) # ws"
  using assms by simp

lemma split_on_empty: "split_on c s = [[]] \<longleftrightarrow> s = []"
  by (cases s) (auto split: list.splits)

lemma bus_name_loop_spec:
  "bus_name_loop h k False s = from_start h 2 k (split_on dot s)"
  "bus_name_loop h k True s = from_within h 2 k (split_on dot s)"
proof (induction s arbitrary: k)
  case Nil
  show "bus_name_loop h k False [] = from_start h 2 k (split_on dot [])" for k by (simp add: from_simps)
  show "bus_name_loop h k True [] = from_within h 2 k (split_on dot [])" for k by (simp add: from_simps)
next
  case (Cons p r)
  obtain w ws where sp: "split_on dot r = w # ws" using split_on_first by blast
  have e: "w = [] \<and> ws = [] \<longleftrightarrow> r = []" using split_on_empty [of dot r] sp by auto
  show "bus_name_loop h k False (p # r) = from_start h 2 k (split_on dot (p # r))" for k
    using Cons(2) [of k] sp e char_classes
    by (cases "p = dot") (auto simp: from_simps Let_def name_ok_def ascii_isalnum_def)
  show "bus_name_loop h k True (p # r) = from_within h 2 k (split_on dot (p # r))" for k
    using Cons(1) [of "k + 1"] Cons(2) [of k] sp
    by (cases "p = dot") (auto simp: from_simps Let_def name_ok_def ascii_isalnum_def)
qed

lemma object_path_loop_spec:
  "1 \<le> k \<Longrightarrow> object_path_loop False s = from_start False 1 k (split_on slash s)"
  "1 \<le> k \<Longrightarrow> object_path_loop True s = from_within False 1 k (split_on slash s)"
proof (induction s arbitrary: k)
  case Nil
  show "1 \<le> k \<Longrightarrow> object_path_loop False [] = from_start False 1 k (split_on slash [])" for k by (simp add: from_simps)
  show "1 \<le> k \<Longrightarrow> object_path_loop True [] = from_within False 1 k (split_on slash [])" for k by (simp add: from_simps)
next
  case (Cons p r)
  obtain w ws where sp: "split_on slash r = w # ws" using split_on_first by blast
  have e: "w = [] \<and> ws = [] \<longleftrightarrow> r = []" using split_on_empty [of slash r] sp by auto
  show "object_path_loop False (p # r) = from_start False 1 k (split_on slash (p # r))" if "1 \<le> k" for k
    using Cons(2) [OF that] sp e char_classes
    by (cases "p = slash") (auto simp: from_simps Let_def name_ok_def ascii_isalnum_def)
  show "object_path_loop True (p # r) = from_within False 1 k (split_on slash (p # r))" if "1 \<le> k" for k
    using Cons(1) [of "k + 1"] Cons(2) [OF that] sp
    by (cases "p = slash") (auto simp: from_simps Let_def name_ok_def ascii_isalnum_def)
qed

lemma check_name_valid: "check_bus_or_interface_name s h = valid_bus_name h s"
  by (cases "s = []")
    (auto simp: check_bus_or_interface_name_def valid_bus_name_def dotted_def bus_name_loop_spec from_start_def
      DBUS_MAX_NAME_LENGTH_def Let_def segment_def)

lemma check_path_valid: "check_object_path s = valid_object_path s"
  using object_path_loop_spec(1) [of 1 "tl s"]
  by (cases s) (auto simp: check_object_path_def valid_object_path_def dotted_def from_start_def Let_def)

lemma cut_at_Some: "cut_at c s = (a, Some b) \<longleftrightarrow> s = a @ c # b \<and> c \<notin> set a"
proof
  show "cut_at c s = (a, Some b) \<Longrightarrow> s = a @ c # b \<and> c \<notin> set a"
    by (induction s arbitrary: a) (auto split: if_splits prod.splits)
qed (auto simp: cut_at_append)

lemma cut_at_None: "cut_at c s = (a, None) \<longleftrightarrow> s = a \<and> c \<notin> set s"
  using cut_at_None_iff [of c s] cut_at_no_sep [of c s] by (cases "cut_at c s") auto


end
