(* ===== verification/Profile.thy ===== *)
theory Profile
  imports Checkcfg Caps Dbus_Names
begin

text \<open>
  The profile parser of \<open>firejail/profile.c\<close>: conditionals, the ignore list, every profile command with its effect on
  the configuration, and the reading of profile files with their includes, and \<open>firejail/cpu.c\<close> for the processor list.

  The configuration is the part of the structure \<open>cfg\<close> and of the global variables that profiles change. The many
  variables that are only set are kept in stores by their C name: \<open>pc_args\<close> for integers, \<open>pc_strs\<close> for strings.
  A command gives \<open>None\<close> when the line is not its own, and otherwise the return value of \<open>profile_check_line\<close>, true for
  1, with the configuration, or the error that ends firejail. \<open>profile_check_line\<close> is the chain of its commands in the
  order of the source.

  What the rest of the system answers is in \<open>profile_world\<close>: the run time configuration (\<open>checkcfg\<close>), the features of
  the build (the \<open>HAVE\<close> macros), the files and directories, and, as \<open>pw_call\<close>, the outcome of the file system, network
  and X11 functions of other files, with the string that they store.
\<close>

subsection \<open>The configuration\<close>

datatype DbusPolicy = DBUS_POLICY_ALLOW | DBUS_POLICY_FILTER | DBUS_POLICY_BLOCK

text \<open>The policies are ordered by their values in the enumeration, the stricter ones above.\<close>

primrec policy_value :: "DbusPolicy \<Rightarrow> nat" where
  "policy_value DBUS_POLICY_ALLOW = 0"
| "policy_value DBUS_POLICY_FILTER = 1"
| "policy_value DBUS_POLICY_BLOCK = 2"

lemma policy_value_inject: "policy_value p = policy_value q \<longleftrightarrow> p = q"
  by (cases p; cases q) simp_all

instantiation DbusPolicy :: linorder
begin

definition less_eq_DbusPolicy :: "DbusPolicy \<Rightarrow> DbusPolicy \<Rightarrow> bool" where
  "less_eq_DbusPolicy p q \<longleftrightarrow> policy_value p \<le> policy_value q"

definition less_DbusPolicy :: "DbusPolicy \<Rightarrow> DbusPolicy \<Rightarrow> bool" where
  "less_DbusPolicy p q \<longleftrightarrow> policy_value p < policy_value q"

instance
  by standard (auto simp: less_eq_DbusPolicy_def less_DbusPolicy_def policy_value_inject [symmetric])

end

datatype ll_type = LL_FS_READ | LL_FS_WRITE | LL_FS_MAKEIPC | LL_FS_MAKEDEV | LL_FS_EXEC

record Bridge =
  br_dev :: "string option"
  br_mask :: u32
  br_mtu :: int
  br_veth_name :: "string option"
  br_ipsandbox :: u32
  br_masksandbox :: u32
  br_ip6sandbox :: "string option"
  br_macsandbox :: "u8 list"
  br_iprange_start :: u32
  br_iprange_end :: u32
  br_arg_ip_none :: bool
  br_arg_ip_dhcp :: bool
  br_arg_ip6_dhcp :: bool
  br_configured :: bool

record profile_cfg =
  pc_args :: "string \<Rightarrow> int"
  pc_strs :: "string \<Rightarrow> string option"
  pc_rlimits :: "string \<Rightarrow> u64"
  pc_timeout :: u32
  pc_cpus :: u32
  pc_defaultgw :: u32
  pc_seccomp :: seccomp_cfg
  pc_env :: "Env list"
  pc_profile :: "string list"
  pc_ignore :: "string list"
  pc_bridges :: "Bridge list"
  pc_landlock :: "(ll_type \<times> string) list"
  pc_keep_fd :: "string option"
  pc_dbus_user :: DbusPolicy
  pc_dbus_system :: DbusPolicy

datatype profile_file = NoAccess bool | Unreadable | ProfileText string

record profile_world =
  pw_checkcfg :: "CFG \<Rightarrow> int"
  pw_have :: "string \<Rightarrow> bool"
  pw_root :: bool
  pw_userns :: bool
  pw_pid :: nat
  pw_macros :: macro_env
  pw_inet_pton6 :: "string \<Rightarrow> bool"
  pw_is_link :: "string \<Rightarrow> bool"
  pw_is_dir :: "string \<Rightarrow> bool"
  pw_sandbox_exists :: "string \<Rightarrow> bool"
  pw_error_action_str :: "string option"
  pw_call :: "string \<Rightarrow> string \<Rightarrow> string result"
  pw_file :: "string \<Rightarrow> profile_file"
  pw_dir :: "string \<Rightarrow> string list option"

definition set_arg :: "string \<Rightarrow> int \<Rightarrow> profile_cfg \<Rightarrow> profile_cfg" where
  "set_arg n v cfg = cfg\<lparr>pc_args := (pc_args cfg)(n := v)\<rparr>"

definition set_str :: "string \<Rightarrow> string option \<Rightarrow> profile_cfg \<Rightarrow> profile_cfg" where
  "set_str n v cfg = cfg\<lparr>pc_strs := (pc_strs cfg)(n := v)\<rparr>"

definition set_rlimit :: "string \<Rightarrow> u64 \<Rightarrow> profile_cfg \<Rightarrow> profile_cfg" where
  "set_rlimit n v cfg = cfg\<lparr>pc_rlimits := (pc_rlimits cfg)(n := v)\<rparr>"

definition set_seccomp_cfg :: "profile_cfg \<Rightarrow> (seccomp_cfg \<Rightarrow> seccomp_cfg) \<Rightarrow> profile_cfg" where
  "set_seccomp_cfg cfg f = cfg\<lparr>pc_seccomp := f (pc_seccomp cfg)\<rparr>"

definition arg_set :: "profile_cfg \<Rightarrow> string \<Rightarrow> bool" where
  "arg_set cfg n \<longleftrightarrow> pc_args cfg n \<noteq> 0"

lemmas store_defs = set_arg_def set_str_def set_rlimit_def arg_set_def

subsection \<open>Outcomes of a command\<close>

type_synonym outcome = "(bool \<times> profile_cfg) result option"

definition finish :: "profile_cfg \<Rightarrow> outcome" where
  "finish cfg = Some (Inr (False, cfg))"

definition keep_line :: "profile_cfg \<Rightarrow> outcome" where
  "keep_line cfg = Some (Inr (True, cfg))"

definition refuse :: "string \<Rightarrow> string \<Rightarrow> outcome" where
  "refuse msg ptr = Some (Inl (ProfileError msg ptr))"

definition after :: "'a result \<Rightarrow> ('a \<Rightarrow> outcome) \<Rightarrow> outcome" where
  "after r k = (case r of Inl e \<Rightarrow> Some (Inl e) | Inr x \<Rightarrow> k x)"

text \<open>\<open>if (checkcfg(c)) \<dots> else warning_feature_disabled(\<dots>); return 0\<close>\<close>

definition with_cfg :: "profile_world \<Rightarrow> CFG \<Rightarrow> profile_cfg \<Rightarrow> outcome \<Rightarrow> outcome" where
  "with_cfg w c cfg k = (if pw_checkcfg w c \<noteq> 0 then k else finish cfg)"

definition with_have :: "profile_world \<Rightarrow> string \<Rightarrow> profile_cfg \<Rightarrow> outcome \<Rightarrow> outcome" where
  "with_have w h cfg k = (if pw_have w h then k else finish cfg)"

lemmas outcome_defs = finish_def keep_line_def refuse_def after_def with_cfg_def with_have_def

definition or_else :: "outcome \<Rightarrow> outcome \<Rightarrow> outcome" where
  "or_else a b = (case a of None \<Rightarrow> b | Some r \<Rightarrow> Some r)"

subsection \<open>The ignore list and the list of entries\<close>

definition MAX_PROFILE_IGNORE :: nat where "MAX_PROFILE_IGNORE = 32"
definition MAX_INCLUDE_LEVEL :: nat where "MAX_INCLUDE_LEVEL = 16"

definition is_in_ignore_list :: "profile_cfg \<Rightarrow> string \<Rightarrow> bool" where
  "is_in_ignore_list cfg ptr =
     list_ex (\<lambda>i. starts_with i ptr \<and> (length ptr = length i \<or> ptr ! length i = space)) (pc_ignore cfg)"

definition profile_add_ignore :: "string \<Rightarrow> profile_cfg \<Rightarrow> profile_cfg result" where
  "profile_add_ignore str cfg =
     (if str = [] then Inl (ProfileError ''invalid ignore option'' str)
      else if MAX_PROFILE_IGNORE \<le> length (pc_ignore cfg) then Inl (ProfileError ''too many ignore options'' str)
      else Inr (cfg\<lparr>pc_ignore := pc_ignore cfg @ [str]\<rparr>))"

definition profile_add :: "string \<Rightarrow> profile_cfg \<Rightarrow> profile_cfg" where
  "profile_add str cfg = cfg\<lparr>pc_profile := pc_profile cfg @ [str]\<rparr>"

subsection \<open>Conditionals\<close>

definition last_bridge_configured :: "profile_cfg \<Rightarrow> nat option" where
  "last_bridge_configured cfg =
     (if br_configured (pc_bridges cfg ! 3) then Some 3
      else if br_configured (pc_bridges cfg ! 2) then Some 2
      else if br_configured (pc_bridges cfg ! 1) then Some 1
      else if br_configured (pc_bridges cfg ! 0) then Some 0
      else None)"

definition any_bridge_configured :: "profile_cfg \<Rightarrow> bool" where
  "any_bridge_configured cfg \<longleftrightarrow>
     br_configured (pc_bridges cfg ! 0) \<or> br_configured (pc_bridges cfg ! 1) \<or> br_configured (pc_bridges cfg ! 2) \<or>
     br_configured (pc_bridges cfg ! 3)"

definition conditionals :: "(string \<times> (profile_world \<Rightarrow> profile_cfg \<Rightarrow> bool)) list" where
  "conditionals =
     [(''HAS_APPIMAGE'', \<lambda>w cfg. arg_set cfg ''arg_appimage''),
      (''HAS_NET'', \<lambda>w cfg. arg_set cfg ''arg_nonetwork'' \<or> any_bridge_configured cfg),
      (''HAS_NODBUS'', \<lambda>w cfg. pc_dbus_user cfg \<noteq> DBUS_POLICY_ALLOW \<or> pc_dbus_system cfg \<noteq> DBUS_POLICY_ALLOW),
      (''HAS_NOSOUND'', \<lambda>w cfg. arg_set cfg ''arg_nosound''),
      (''HAS_PRIVATE'', \<lambda>w cfg. arg_set cfg ''arg_private''),
      (''HAS_X11'', \<lambda>w cfg. arg_set cfg ''arg_x11_block'' \<or> arg_set cfg ''arg_x11_xorg'' \<or>
         env_get (pc_env cfg) ''FIREJAIL_X11'' None \<noteq> None),
      (''BROWSER_DISABLE_U2F'', \<lambda>w cfg. pw_checkcfg w CFG_BROWSER_DISABLE_U2F \<noteq> 0),
      (''BROWSER_ALLOW_DRM'', \<lambda>w cfg. pw_checkcfg w CFG_BROWSER_ALLOW_DRM \<noteq> 0),
      (''ALLOW_TRAY'', \<lambda>w cfg. pw_checkcfg w CFG_ALLOW_TRAY \<noteq> 0)]"

datatype condition = NoCondition | CondError string | CondFalse | CondTrue string

fun find_conditional :: "(string \<times> (profile_world \<Rightarrow> profile_cfg \<Rightarrow> bool)) list \<Rightarrow> string \<Rightarrow>
    ((profile_world \<Rightarrow> profile_cfg \<Rightarrow> bool) \<times> string) option" where
  "find_conditional [] ptr = None"
| "find_conditional ((name, check) # cs) ptr =
     (if starts_with name ptr then Some (check, drop (length name) ptr) else find_conditional cs ptr)"

definition skip_one :: "string \<Rightarrow> string" where
  "skip_one ptr = (if ptr \<noteq> [] \<and> hd ptr = space then tl ptr else ptr)"

text \<open>\<open>profile_check_conditional\<close> up to the point where the line after the condition is processed.\<close>

definition parse_conditional :: "profile_world \<Rightarrow> profile_cfg \<Rightarrow> string \<Rightarrow> condition" where
  "parse_conditional w cfg line =
     (if line = [] \<or> hd line \<noteq> CHR ''?'' then NoCondition
      else case find_conditional conditionals (tl line) of
        None \<Rightarrow> CondError ''invalid/unsupported conditional''
      | Some (check, r) \<Rightarrow>
          (let ptr = skip_one r in
           if ptr = [] \<or> hd ptr \<noteq> CHR '':'' then CondError ''invalid conditional syntax: colon must come after conditional''
           else if tl ptr = [] then CondError ''invalid conditional syntax: no profile line after conditional''
           else let rest = skip_one (tl ptr) in
             if \<not> check w cfg then CondFalse
             else if starts_with ''quiet'' rest \<or> starts_with ''include'' rest
             then CondError ''invalid conditional syntax: quiet and include not allowed in conditionals''
             else CondTrue rest))"

lemma find_conditional_length: "find_conditional cs ptr = Some (check, r) \<Longrightarrow> length r \<le> length ptr"
  by (induction cs ptr rule: find_conditional.induct) (auto split: if_splits)

lemma parse_conditional_length: "parse_conditional w cfg line = CondTrue rest \<Longrightarrow> length rest < length line"
proof -
  assume a: "parse_conditional w cfg line = CondTrue rest"
  then obtain check r where r: "find_conditional conditionals (tl line) = Some (check, r)" "line \<noteq> []"
    "skip_one r \<noteq> []" "rest = skip_one (tl (skip_one r))"
    by (auto simp: parse_conditional_def Let_def split: if_splits option.splits)
  have s: "length (skip_one x) \<le> length x" for x by (simp add: skip_one_def)
  have "length r \<le> length (tl line)" by (rule find_conditional_length [OF r(1)])
  with r s [of r] s [of "tl (skip_one r)"] show "length rest < length line" by (cases line) auto
qed

subsection \<open>Processors\<close>

definition set_cpu :: "string \<Rightarrow> u32 \<Rightarrow> u32 result" where
  "set_cpu str cpus =
     (if str = [] then Inr cpus
      else let v = atoi str in
        if v < 0 \<or> 32 \<le> v then Inl (ProfileError ''invalid cpu number'' str)
        else Inr (cpus OR push_bit (nat v) 1))"

definition read_cpu_list :: "string \<Rightarrow> u32 \<Rightarrow> u32 result" where
  "read_cpu_list str cpus =
     (if \<not> list_all (\<lambda>c. c = CHR '','' \<or> c_isdigit c) str then Inl (ProfileError ''invalid cpu list'' str)
      else fold_result set_cpu (split_on (CHR '','') str) cpus)"

subsection \<open>The commands\<close>

definition after_prefix :: "string \<Rightarrow> string \<Rightarrow> string" where
  "after_prefix pre ptr = drop (length pre) ptr"

text \<open>The sandbox name, and files that are created at once and again later.\<close>

definition set_sandbox_name :: "string \<Rightarrow> string \<Rightarrow> string \<Rightarrow> profile_cfg \<Rightarrow> outcome" where
  "set_sandbox_name var msg name cfg =
     (if name = [] then refuse (msg @ '': cannot be empty'') name
      else if invalid_name name then refuse msg name
      else finish (set_str var (Some name) cfg))"

definition check_names :: "profile_world \<Rightarrow> string \<Rightarrow> profile_cfg \<Rightarrow> outcome" where
  "check_names w ptr cfg =
     (if starts_with ''ignore '' ptr then after (profile_add_ignore (after_prefix ''ignore '' ptr) cfg) finish
      else if starts_with ''keep-fd '' ptr
      then (if after_prefix ''keep-fd '' ptr = ''all'' then finish (set_arg ''arg_keep_fd_all'' 1 cfg)
            else after (profile_list_augment (pc_keep_fd cfg) (Some (after_prefix ''keep-fd '' ptr)))
                   (\<lambda>l. finish (cfg\<lparr>pc_keep_fd := Some l\<rparr>)))
      else if starts_with ''xephyr-screen '' ptr
      then with_have w ''HAVE_X11'' cfg (with_cfg w CFG_X11 cfg
             (finish (set_str ''xephyr_screen'' (Some (after_prefix ''xephyr-screen '' ptr)) cfg)))
      else if starts_with ''mkdir '' ptr
      then after (pw_call w ''fs_mkdir'' (after_prefix ''mkdir '' ptr)) (\<lambda>_. keep_line cfg)
      else if starts_with ''mkfile '' ptr
      then after (pw_call w ''fs_mkfile'' (after_prefix ''mkfile '' ptr)) (\<lambda>_. keep_line cfg)
      else if starts_with ''name '' ptr then set_sandbox_name ''name'' ''invalid sandbox name'' (after_prefix ''name '' ptr) cfg
      else if ptr = ''ipc-namespace'' then finish (set_arg ''arg_ipc'' 1 cfg)
      else None)"

text \<open>\<open>if (old) asprintf("%s,%s", old, add) else add\<close>\<close>

definition append_list :: "string option \<Rightarrow> string \<Rightarrow> string option" where
  "append_list old s = Some (case old of None \<Rightarrow> s | Some o' \<Rightarrow> o' @ '','' @ s)"

text \<open>\<open>check_user_namespace\<close> of \<open>firejail/main.c\<close>; \<open>pw_userns\<close> is the presence of the three files below \<open>/proc/self\<close>.\<close>

definition check_user_namespace :: "profile_world \<Rightarrow> profile_cfg \<Rightarrow> profile_cfg" where
  "check_user_namespace w cfg = set_arg ''arg_noroot'' (if \<not> pw_root w \<and> pw_userns w then 1 else 0) cfg"

definition check_flags :: "profile_world \<Rightarrow> string \<Rightarrow> profile_cfg \<Rightarrow> outcome" where
  "check_flags w ptr cfg =
     (if ptr = ''noroot''
      then with_have w ''HAVE_USERNS'' cfg (with_cfg w CFG_USERNS cfg
             (finish (check_user_namespace w cfg)))
      else if ptr = ''nonewprivs'' then finish (set_arg ''arg_nonewprivs'' 1 cfg)
      else if ptr = ''seccomp''
      then with_cfg w CFG_SECCOMP cfg (finish (set_seccomp_cfg cfg (\<lambda>c. c\<lparr>arg_seccomp := True\<rparr>)))
      else if ptr = ''caps'' then finish (set_arg ''arg_caps_default_filter'' 1 cfg)
      else if ptr = ''caps.drop all'' then finish (set_arg ''arg_caps_drop_all'' 1 cfg)
      else if ptr = ''shell '' then finish cfg
      else if ptr = ''tracelog'' then with_cfg w CFG_TRACELOG cfg (finish (set_arg ''arg_tracelog'' 1 cfg))
      else if ptr = ''private'' then finish (set_arg ''arg_private'' 1 cfg)
      else if starts_with ''private-home '' ptr
      then with_have w ''HAVE_PRIVATE_HOME'' cfg (with_cfg w CFG_PRIVATE_HOME cfg
             (finish (set_arg ''arg_private'' 1
               (set_str ''home_private_keep''
                 (append_list (pc_strs cfg ''home_private_keep'') (after_prefix ''private-home '' ptr)) cfg))))
      else if ptr = ''tab'' then finish (set_arg ''arg_tab'' 1 cfg)
      else if ptr = ''private-cwd'' then finish (set_arg ''arg_private_cwd'' 1 (set_str ''cwd'' None cfg))
      else if starts_with ''private-cwd '' ptr
      then after (pw_call w ''fs_check_private_cwd'' (after_prefix ''private-cwd '' ptr))
             (\<lambda>d. finish (set_arg ''arg_private_cwd'' 1 (set_str ''cwd'' (Some d) cfg)))
      else if ptr = ''allusers'' then finish (set_arg ''arg_allusers'' 1 cfg)
      else if ptr = ''private-cache''
      then with_have w ''HAVE_USERTMPFS'' cfg
             (with_cfg w CFG_PRIVATE_CACHE cfg (finish (set_arg ''arg_private_cache'' 1 cfg)))
      else if ptr = ''private-dev'' then finish (set_arg ''arg_private_dev'' 1 cfg)
      else if ptr = ''keep-dev-ntsync'' then finish (set_arg ''arg_keep_dev_ntsync'' 1 cfg)
      else if ptr = ''keep-dev-shm'' then finish (set_arg ''arg_keep_dev_shm'' 1 cfg)
      else if ptr = ''private-tmp'' then finish (set_arg ''arg_private_tmp'' 1 cfg)
      else if ptr = ''nogroups'' then finish (set_arg ''arg_nogroups'' 1 cfg)
      else if ptr = ''nosound'' then finish (set_arg ''arg_nosound'' 1 cfg)
      else if ptr = ''noautopulse'' then finish (set_arg ''arg_keep_config_pulse'' 1 cfg)
      else if ptr = ''notv'' then finish (set_arg ''arg_notv'' 1 cfg)
      else if ptr = ''nodvd'' then finish (set_arg ''arg_nodvd'' 1 cfg)
      else if ptr = ''novideo'' then finish (set_arg ''arg_novideo'' 1 cfg)
      else if ptr = ''no3d'' then finish (set_arg ''arg_no3d'' 1 cfg)
      else if ptr = ''noprinters''
      then finish (profile_add ''blacklist /run/cups/cups.sock''
             (profile_add ''blacklist /dev/lp*'' (set_arg ''arg_noprinters'' 1 cfg)))
      else if ptr = ''noinput'' then finish (set_arg ''arg_noinput'' 1 cfg)
      else None)"

text \<open>The policies of the two buses.\<close>

definition dbus_policy :: "string \<Rightarrow> bool \<Rightarrow> DbusPolicy \<Rightarrow> DbusPolicy result" where
  "dbus_policy ptr log policy =
     (if ptr = ''filter'' then Inr (if policy = DBUS_POLICY_BLOCK then policy else DBUS_POLICY_FILTER)
      else if ptr = ''none''
      then (if log then Inl (ProfileError ''dbus log requires filter'' ptr) else Inr DBUS_POLICY_BLOCK)
      else Inl (ProfileError ''unknown dbus policy'' ptr))"

definition dbus_name_rule :: "profile_world \<Rightarrow> string \<Rightarrow> profile_cfg \<Rightarrow> outcome" where
  "dbus_name_rule w name cfg =
     (if pw_have w ''HAVE_DBUSPROXY'' \<and> \<not> dbus_check_name name then refuse ''invalid dbus name'' name else keep_line cfg)"

definition dbus_call_rule :: "profile_world \<Rightarrow> string \<Rightarrow> profile_cfg \<Rightarrow> outcome" where
  "dbus_call_rule w rule cfg =
     (if \<not> pw_have w ''HAVE_DBUSPROXY'' then keep_line cfg
      else after (dbus_check_call_rule rule) (\<lambda>ok. if ok then keep_line cfg else refuse ''invalid dbus rule'' rule))"

definition check_dbus :: "profile_world \<Rightarrow> string \<Rightarrow> profile_cfg \<Rightarrow> outcome" where
  "check_dbus w ptr cfg =
     (if ptr = ''nodbus''
      then with_have w ''HAVE_DBUSPROXY'' cfg
             (finish (cfg\<lparr>pc_dbus_user := DBUS_POLICY_BLOCK, pc_dbus_system := DBUS_POLICY_BLOCK\<rparr>))
      else if starts_with ''dbus-user '' ptr
      then with_have w ''HAVE_DBUSPROXY'' cfg
             (after (dbus_policy (after_prefix ''dbus-user '' ptr) (arg_set cfg ''arg_dbus_log_user'') (pc_dbus_user cfg))
               (\<lambda>p. finish (cfg\<lparr>pc_dbus_user := p\<rparr>)))
      else if starts_with ''dbus-user.see '' ptr then dbus_name_rule w (after_prefix ''dbus-user.see '' ptr) cfg
      else if starts_with ''dbus-user.talk '' ptr then dbus_name_rule w (after_prefix ''dbus-user.talk '' ptr) cfg
      else if starts_with ''dbus-user.own '' ptr then dbus_name_rule w (after_prefix ''dbus-user.own '' ptr) cfg
      else if starts_with ''dbus-user.call '' ptr then dbus_call_rule w (after_prefix ''dbus-user.call '' ptr) cfg
      else if starts_with ''dbus-user.broadcast '' ptr
      then dbus_call_rule w (after_prefix ''dbus-user.broadcast '' ptr) cfg
      else if starts_with ''dbus-system '' ptr
      then with_have w ''HAVE_DBUSPROXY'' cfg
             (after (dbus_policy (after_prefix ''dbus-system '' ptr) (arg_set cfg ''arg_dbus_log_system'')
                      (pc_dbus_system cfg))
               (\<lambda>p. finish (cfg\<lparr>pc_dbus_system := p\<rparr>)))
      else if starts_with ''dbus-system.see '' ptr then dbus_name_rule w (after_prefix ''dbus-system.see '' ptr) cfg
      else if starts_with ''dbus-system.talk '' ptr then dbus_name_rule w (after_prefix ''dbus-system.talk '' ptr) cfg
      else if starts_with ''dbus-system.own '' ptr then dbus_name_rule w (after_prefix ''dbus-system.own '' ptr) cfg
      else if starts_with ''dbus-system.call '' ptr then dbus_call_rule w (after_prefix ''dbus-system.call '' ptr) cfg
      else if starts_with ''dbus-system.broadcast '' ptr
      then dbus_call_rule w (after_prefix ''dbus-system.broadcast '' ptr) cfg
      else if ptr = ''notpm'' then finish (set_arg ''arg_notpm'' 1 cfg)
      else if ptr = ''nou2f'' then finish (set_arg ''arg_nou2f'' 1 cfg)
      else None)"

text \<open>Network devices: \<open>#ifdef HAVE_NETWORK if (checkcfg(CFG_NETWORK)) \<dots>\<close>, on the last device that is configured.\<close>

definition with_network :: "profile_world \<Rightarrow> profile_cfg \<Rightarrow> outcome \<Rightarrow> outcome" where
  "with_network w cfg k = with_have w ''HAVE_NETWORK'' cfg (with_cfg w CFG_NETWORK cfg k)"

definition update_bridge :: "nat \<Rightarrow> Bridge \<Rightarrow> profile_cfg \<Rightarrow> profile_cfg" where
  "update_bridge i b cfg = cfg\<lparr>pc_bridges := (pc_bridges cfg)[i := b]\<rparr>"

definition with_bridge :: "profile_world \<Rightarrow> profile_cfg \<Rightarrow> (Bridge \<Rightarrow> Bridge result) \<Rightarrow> outcome" where
  "with_bridge w cfg f = with_network w cfg
     (case last_bridge_configured cfg of
        None \<Rightarrow> refuse ''no network device configured'' []
      | Some i \<Rightarrow> after (f (pc_bridges cfg ! i)) (\<lambda>b. finish (update_bridge i b cfg)))"

definition netfilter_file :: "profile_world \<Rightarrow> string \<Rightarrow> string \<Rightarrow> string \<Rightarrow> profile_cfg \<Rightarrow> outcome" where
  "netfilter_file w flg var path cfg = with_network w cfg
     (after (expand_macros (pw_macros w) path) (\<lambda>f.
      after (pw_call w ''check_netfilter_file'' f) (\<lambda>_. finish (set_str var (Some f) (set_arg flg 1 cfg)))))"

definition free_bridge :: "profile_cfg \<Rightarrow> nat option" where
  "free_bridge cfg =
     (if \<not> br_configured (pc_bridges cfg ! 0) then Some 0
      else if \<not> br_configured (pc_bridges cfg ! 1) then Some 1
      else if \<not> br_configured (pc_bridges cfg ! 2) then Some 2
      else if \<not> br_configured (pc_bridges cfg ! 3) then Some 3
      else None)"

definition net_none :: "profile_cfg \<Rightarrow> profile_cfg" where
  "net_none cfg =
     fold (\<lambda>n. set_arg n 0)
       [''interface0.configured'', ''interface1.configured'', ''interface2.configured'', ''interface3.configured'']
       ((set_arg ''arg_nonetwork'' 1 cfg)\<lparr>pc_bridges := map (\<lambda>b. b\<lparr>br_configured := False\<rparr>) (pc_bridges cfg)\<rparr>)"

definition check_net :: "profile_world \<Rightarrow> string \<Rightarrow> profile_cfg \<Rightarrow> outcome" where
  "check_net w ptr cfg =
     (if ptr = ''netfilter'' then with_network w cfg (finish (set_arg ''arg_netfilter'' 1 cfg))
      else if starts_with ''netfilter '' ptr
      then netfilter_file w ''arg_netfilter'' ''arg_netfilter_file'' (after_prefix ''netfilter '' ptr) cfg
      else if starts_with ''netfilter6 '' ptr
      then netfilter_file w ''arg_netfilter6'' ''arg_netfilter6_file'' (after_prefix ''netfilter6 '' ptr) cfg
      else if ptr = ''netlock'' then with_network w cfg (finish (set_arg ''arg_netlock'' 1 cfg))
      else if starts_with ''netns '' ptr
      then with_network w cfg
             (after (pw_call w ''check_netns'' (after_prefix ''netns '' ptr))
               (\<lambda>_. finish (set_str ''arg_netns'' (Some (after_prefix ''netns '' ptr)) cfg)))
      else if ptr = ''net none'' then finish (net_none cfg)
      else if starts_with ''net '' ptr
      then with_network w cfg
             (if after_prefix ''net '' ptr = ''lo'' then refuse ''cannot attach to lo device'' ptr
              else case free_bridge cfg of
                None \<Rightarrow> refuse ''maximum 4 network devices are allowed'' ptr
              | Some i \<Rightarrow> finish (update_bridge i
                  ((pc_bridges cfg ! i)\<lparr>br_dev := Some (after_prefix ''net '' ptr), br_configured := True\<rparr>) cfg))
      else None)"


definition veth_name :: "string \<Rightarrow> Bridge \<Rightarrow> Bridge result" where
  "veth_name s br =
     (if s = [] then Inl (ProfileError ''no veth-name configured'' s) else Inr (br\<lparr>br_veth_name := Some s\<rparr>))"

definition iprange :: "string \<Rightarrow> Bridge \<Rightarrow> Bridge result" where
  "iprange s br =
     (if br_iprange_start br \<noteq> 0 \<or> br_iprange_end br \<noteq> 0
      then Inl (ProfileError ''cannot configure the IP range twice for the same interface'' s)
      else case cut_at (CHR '','') s of
        (_, None) \<Rightarrow> Inl (ProfileError ''invalid IP range'' s)
      | (firstip, Some secondip) \<Rightarrow>
          (case (atoip firstip, atoip secondip) of
             (Some a, Some b) \<Rightarrow> if b \<le> a then Inl (ProfileError ''invalid IP range'' s)
               else Inr (br\<lparr>br_iprange_start := a, br_iprange_end := b\<rparr>)
           | _ \<Rightarrow> Inl (ProfileError ''invalid IP range'' s)))"

definition mac_address :: "string \<Rightarrow> Bridge \<Rightarrow> Bridge result" where
  "mac_address s br =
     (if mac_not_zero (br_macsandbox br)
      then Inl (ProfileError ''cannot configure the MAC address twice for the same interface'' s)
      else case atomac s of
        None \<Rightarrow> Inl (ProfileError ''invalid MAC address'' s)
      | Some mac \<Rightarrow> if hd mac AND 1 \<noteq> 0 then Inl (ProfileError ''invalid MAC address (multicast)'' s)
          else Inr (br\<lparr>br_macsandbox := mac\<rparr>))"

text \<open>\<open>sscanf(s, "%d", &br->mtu)\<close>\<close>

definition scan_d :: "string \<Rightarrow> int option" where
  "scan_d s = (if scan_u s = None then None else Some (atoi s))"

definition set_mtu :: "string \<Rightarrow> Bridge \<Rightarrow> Bridge result" where
  "set_mtu s br =
     (case scan_d s of
        None \<Rightarrow> Inl (ProfileError ''invalid mtu value'' s)
      | Some v \<Rightarrow> if v < 576 \<or> 9198 < v then Inl (ProfileError ''invalid mtu value'' s) else Inr (br\<lparr>br_mtu := v\<rparr>))"

definition netmask :: "string \<Rightarrow> Bridge \<Rightarrow> Bridge result" where
  "netmask s br =
     (if br_arg_ip_none br \<or> br_masksandbox br \<noteq> 0
      then Inl (ProfileError ''cannot configure the network mask twice for the same interface'' s)
      else case atoip s of
        None \<Rightarrow> Inl (ProfileError ''invalid  network mask'' s)
      | Some m \<Rightarrow> if br_mask br = 0 then Inr (br\<lparr>br_masksandbox := m, br_mask := m\<rparr>)
          else Inl (ProfileError ''interface already has a network mask defined'' s))"

definition ip_address :: "string \<Rightarrow> Bridge \<Rightarrow> Bridge result" where
  "ip_address s br =
     (if br_arg_ip_none br \<or> br_ipsandbox br \<noteq> 0
      then Inl (ProfileError ''cannot configure the IP address twice for the same interface'' s)
      else if s = ''none'' then Inr (br\<lparr>br_arg_ip_none := True\<rparr>)
      else if s = ''dhcp'' then Inr (br\<lparr>br_arg_ip_none := True, br_arg_ip_dhcp := True\<rparr>)
      else case atoip s of
        None \<Rightarrow> Inl (ProfileError ''invalid IP address'' s)
      | Some a \<Rightarrow> Inr (br\<lparr>br_ipsandbox := a\<rparr>))"

definition ip6_address :: "profile_world \<Rightarrow> string \<Rightarrow> Bridge \<Rightarrow> Bridge result" where
  "ip6_address w s br =
     (if br_arg_ip6_dhcp br \<or> br_ip6sandbox br \<noteq> None
      then Inl (ProfileError ''cannot configure the IP address twice for the same interface'' s)
      else if s = ''dhcp'' then Inr (br\<lparr>br_arg_ip6_dhcp := True\<rparr>)
      else if \<not> check_ip46_address (pw_inet_pton6 w) s then Inl (ProfileError ''invalid IPv6 address'' s)
      else Inr (br\<lparr>br_ip6sandbox := Some s\<rparr>))"

definition check_bridge :: "profile_world \<Rightarrow> string \<Rightarrow> profile_cfg \<Rightarrow> outcome" where
  "check_bridge w ptr cfg =
     (if starts_with ''veth-name '' ptr then with_bridge w cfg (veth_name (after_prefix ''veth-name '' ptr))
      else if starts_with ''iprange '' ptr then with_bridge w cfg (iprange (after_prefix ''iprange '' ptr))
      else if starts_with ''mac '' ptr then with_bridge w cfg (mac_address (after_prefix ''mac '' ptr))
      else if starts_with ''mtu '' ptr then with_bridge w cfg (set_mtu (after_prefix ''mtu '' ptr))
      else if starts_with ''netmask '' ptr then with_bridge w cfg (netmask (after_prefix ''netmask '' ptr))
      else if starts_with ''ip '' ptr then with_bridge w cfg (ip_address (after_prefix ''ip '' ptr))
      else if starts_with ''ip6 '' ptr then with_bridge w cfg (ip6_address w (after_prefix ''ip6 '' ptr))
      else if starts_with ''defaultgw '' ptr
      then with_network w cfg
             (case atoip (after_prefix ''defaultgw '' ptr) of
                None \<Rightarrow> refuse ''invalid IP address'' ptr
              | Some a \<Rightarrow> finish (cfg\<lparr>pc_defaultgw := a\<rparr>))
      else None)"

definition check_apparmor :: "profile_world \<Rightarrow> string \<Rightarrow> profile_cfg \<Rightarrow> outcome" where
  "check_apparmor w ptr cfg =
     (let on = set_arg ''arg_apparmor'' 1 cfg in
      if ptr = ''apparmor''
      then with_have w ''HAVE_APPARMOR'' cfg (finish (set_str ''apparmor_profile'' (Some ''firejail-default'') on))
      else if starts_with ''apparmor '' ptr
      then with_have w ''HAVE_APPARMOR'' cfg
             (finish (set_str ''apparmor_profile'' (Some (after_prefix ''apparmor '' ptr)) on))
      else if ptr = ''apparmor-replace'' then with_have w ''HAVE_APPARMOR'' cfg (finish (set_arg ''apparmor_replace'' 1 on))
      else if ptr = ''apparmor-stack'' then with_have w ''HAVE_APPARMOR'' cfg (finish (set_arg ''apparmor_replace'' 0 on))
      else None)"

text \<open>Seccomp and the environment.\<close>

definition seccomp_list :: "profile_world \<Rightarrow> profile_cfg \<Rightarrow> string \<Rightarrow> (string \<Rightarrow> seccomp_cfg \<Rightarrow> seccomp_cfg) \<Rightarrow> outcome" where
  "seccomp_list w cfg s f =
     with_cfg w CFG_SECCOMP cfg (after (seccomp_check_list s) (\<lambda>l. finish (set_seccomp_cfg cfg (f l))))"

definition check_seccomp :: "profile_world \<Rightarrow> string \<Rightarrow> profile_cfg \<Rightarrow> outcome" where
  "check_seccomp w ptr cfg =
     (if starts_with ''protocol '' ptr
      then with_cfg w CFG_SECCOMP cfg
             (after (profile_list_augment (cfg_protocol (pc_seccomp cfg)) (Some (after_prefix ''protocol '' ptr)))
               (\<lambda>l. finish (set_seccomp_cfg cfg (cfg_protocol_update (\<lambda>_. Some l)))))
      else if starts_with ''env '' ptr
      then after (env_store (after_prefix ''env '' ptr) SETENV (pc_env cfg)) (\<lambda>e. finish (cfg\<lparr>pc_env := e\<rparr>))
      else if starts_with ''rmenv '' ptr
      then after (env_store (after_prefix ''rmenv '' ptr) RMENV (pc_env cfg)) (\<lambda>e. finish (cfg\<lparr>pc_env := e\<rparr>))
      else if starts_with ''seccomp '' ptr
      then seccomp_list w cfg (after_prefix ''seccomp '' ptr) (\<lambda>l c. c\<lparr>arg_seccomp := True, cfg_seccomp_list := Some l\<rparr>)
      else if starts_with ''seccomp.32 '' ptr
      then seccomp_list w cfg (after_prefix ''seccomp.32 '' ptr)
             (\<lambda>l c. c\<lparr>arg_seccomp32 := True, cfg_seccomp_list32 := Some l\<rparr>)
      else if ptr = ''seccomp.block-secondary''
      then with_cfg w CFG_SECCOMP cfg (finish (set_seccomp_cfg cfg (\<lambda>c. c\<lparr>arg_seccomp_block_secondary := True\<rparr>)))
      else if starts_with ''seccomp.drop '' ptr
      then seccomp_list w cfg (after_prefix ''seccomp.drop '' ptr)
             (\<lambda>l c. c\<lparr>arg_seccomp := True, cfg_seccomp_list_drop := Some l\<rparr>)
      else if starts_with ''seccomp.32.drop '' ptr
      then seccomp_list w cfg (after_prefix ''seccomp.32.drop '' ptr)
             (\<lambda>l c. c\<lparr>arg_seccomp32 := True, cfg_seccomp_list_drop32 := Some l\<rparr>)
      else if starts_with ''seccomp.keep '' ptr
      then seccomp_list w cfg (after_prefix ''seccomp.keep '' ptr)
             (\<lambda>l c. c\<lparr>arg_seccomp := True, cfg_seccomp_list_keep := Some l\<rparr>)
      else if starts_with ''seccomp.32.keep '' ptr
      then seccomp_list w cfg (after_prefix ''seccomp.32.keep '' ptr)
             (\<lambda>l c. c\<lparr>arg_seccomp32 := True, cfg_seccomp_list_keep32 := Some l\<rparr>)
      else None)"

definition ll_add_profile :: "profile_world \<Rightarrow> ll_type \<Rightarrow> string \<Rightarrow> profile_cfg \<Rightarrow> profile_cfg" where
  "ll_add_profile w t d cfg =
     (if pw_have w ''HAVE_LANDLOCK'' then cfg\<lparr>pc_landlock := pc_landlock cfg @ [(t, dropWhile is_blank d)]\<rparr> else cfg)"

definition check_landlock :: "profile_world \<Rightarrow> string \<Rightarrow> profile_cfg \<Rightarrow> outcome" where
  "check_landlock w ptr cfg =
     (if starts_with ''landlock.enforce'' ptr then finish (set_arg ''arg_landlock_enforce'' 1 cfg)
      else if starts_with ''landlock.fs.read '' ptr
      then finish (ll_add_profile w LL_FS_READ (after_prefix ''landlock.fs.read '' ptr) cfg)
      else if starts_with ''landlock.fs.write '' ptr
      then finish (ll_add_profile w LL_FS_WRITE (after_prefix ''landlock.fs.write '' ptr) cfg)
      else if starts_with ''landlock.fs.makeipc '' ptr
      then finish (ll_add_profile w LL_FS_MAKEIPC (after_prefix ''landlock.fs.makeipc '' ptr) cfg)
      else if starts_with ''landlock.fs.makedev '' ptr
      then finish (ll_add_profile w LL_FS_MAKEDEV (after_prefix ''landlock.fs.makedev '' ptr) cfg)
      else if starts_with ''landlock.fs.execute '' ptr
      then finish (ll_add_profile w LL_FS_EXEC (after_prefix ''landlock.fs.execute '' ptr) cfg)
      else None)"

definition all_namespaces :: string where
  "all_namespaces = ''cgroup,ipc,net,mnt,pid,time,user,uts''"

text \<open>The value of \<open>arg_seccomp_error_action\<close>, an \<open>int\<close>: \<open>SECCOMP_RET_KILL\<close>, \<open>SECCOMP_RET_LOG\<close> or a bare error number.\<close>

definition profile_error_action :: "string \<Rightarrow> int result" where
  "profile_error_action s =
     (if s = ''kill'' then Inr (sint SECCOMP_RET_KILL)
      else if s = ''log'' then Inr (sint SECCOMP_RET_LOG)
      else if errno_find_name s = -1 then Inl UnknownErrno
      else Inr (errno_find_name s))"

definition check_filters :: "profile_world \<Rightarrow> string \<Rightarrow> profile_cfg \<Rightarrow> outcome" where
  "check_filters w ptr cfg =
     (if ptr = ''memory-deny-write-execute''
      then with_cfg w CFG_SECCOMP cfg (finish (set_seccomp_cfg cfg (\<lambda>c. c\<lparr>arg_memory_deny_write_execute := True\<rparr>)))
      else if ptr = ''restrict-namespaces''
      then with_cfg w CFG_SECCOMP cfg
             (after (profile_list_augment (cfg_restrict_namespaces (pc_seccomp cfg)) (Some all_namespaces))
               (\<lambda>l. finish (set_seccomp_cfg cfg
                 (\<lambda>c. c\<lparr>arg_restrict_namespaces := True, cfg_restrict_namespaces := Some l\<rparr>))))
      else if starts_with ''restrict-namespaces '' ptr
      then with_cfg w CFG_SECCOMP cfg
             (after (profile_list_augment (cfg_restrict_namespaces (pc_seccomp cfg))
                      (Some (after_prefix ''restrict-namespaces '' ptr)))
               (\<lambda>l. finish (set_seccomp_cfg cfg (\<lambda>c. c\<lparr>cfg_restrict_namespaces := Some l\<rparr>))))
      else if starts_with ''seccomp-error-action '' ptr
      then with_cfg w CFG_SECCOMP cfg
             (let s = after_prefix ''seccomp-error-action '' ptr in
              if pw_checkcfg w CFG_SECCOMP_ERROR_ACTION = -1
              then after (profile_error_action s) (\<lambda>a. finish (set_seccomp_cfg cfg
                     (\<lambda>c. c\<lparr>arg_seccomp_error_action := a, cfg_seccomp_error_action := Some s\<rparr>)))
              else finish (set_seccomp_cfg cfg
                     (\<lambda>c. c\<lparr>arg_seccomp_error_action := pw_checkcfg w CFG_SECCOMP_ERROR_ACTION,
                             cfg_seccomp_error_action := pw_error_action_str w\<rparr>)))
      else if starts_with ''caps.drop '' ptr
      then after (caps_check_list (after_prefix ''caps.drop '' ptr) (\<lambda>_ u. u) ())
             (\<lambda>_. finish (set_str ''arg_caps_list'' (Some (after_prefix ''caps.drop '' ptr)) (set_arg ''arg_caps_drop'' 1 cfg)))
      else if starts_with ''caps.keep '' ptr
      then after (caps_check_list (after_prefix ''caps.keep '' ptr) (\<lambda>_ u. u) ())
             (\<lambda>_. finish (set_str ''arg_caps_list'' (Some (after_prefix ''caps.keep '' ptr)) (set_arg ''arg_caps_keep'' 1 cfg)))
      else None)"


text \<open>Host name, DNS servers and the remaining flags.\<close>

definition add_dns :: "string \<Rightarrow> profile_cfg \<Rightarrow> profile_cfg" where
  "add_dns dns cfg =
     (if pc_strs cfg ''dns1'' = None then set_str ''dns1'' (Some dns) cfg
      else if pc_strs cfg ''dns2'' = None then set_str ''dns2'' (Some dns) cfg
      else if pc_strs cfg ''dns3'' = None then set_str ''dns3'' (Some dns) cfg
      else if pc_strs cfg ''dns4'' = None then set_str ''dns4'' (Some dns) cfg
      else cfg)"

definition check_host :: "profile_world \<Rightarrow> string \<Rightarrow> profile_cfg \<Rightarrow> outcome" where
  "check_host w ptr cfg =
     (if starts_with ''hostname '' ptr
      then set_sandbox_name ''hostname'' ''invalid hostname'' (after_prefix ''hostname '' ptr) cfg
      else if starts_with ''hosts-file '' ptr
      then after (pw_call w ''fs_check_hosts_file'' (after_prefix ''hosts-file '' ptr))
             (\<lambda>f. finish (set_str ''hosts_file'' (Some f) cfg))
      else if starts_with ''dns '' ptr
      then (if \<not> check_ip46_address (pw_inet_pton6 w) (after_prefix ''dns '' ptr)
            then refuse ''invalid DNS server IPv4 or IPv6 address'' ptr
            else finish (add_dns (after_prefix ''dns '' ptr) cfg))
      else if starts_with ''cpu '' ptr
      then after (read_cpu_list (after_prefix ''cpu '' ptr) (pc_cpus cfg)) (\<lambda>c. finish (cfg\<lparr>pc_cpus := c\<rparr>))
      else if starts_with ''nice '' ptr
      then (let v = atoi (after_prefix ''nice '' ptr) in
            finish (set_arg ''arg_nice'' 1 (set_arg ''nice'' (if \<not> pw_root w \<and> v < 0 then 0 else v) cfg)))
      else if ptr = ''writable-etc''
      then (if pc_strs cfg ''etc_private_keep'' \<noteq> None
            then refuse ''private-etc and writable-etc are mutually exclusive'' ptr
            else finish (set_arg ''arg_writable_etc'' 1 cfg))
      else if ptr = ''machine-id'' then finish (set_arg ''arg_machineid'' 1 cfg)
      else if ptr = ''keep-config-pulse'' then finish (set_arg ''arg_keep_config_pulse'' 1 cfg)
      else if ptr = ''keep-shell-rc'' then finish (set_arg ''arg_keep_shell_rc'' 1 cfg)
      else if ptr = ''writable-var'' then finish (set_arg ''arg_writable_var'' 1 cfg)
      else if ptr = ''keep-var-tmp'' then finish (set_arg ''arg_keep_var_tmp'' 1 cfg)
      else if ptr = ''writable-run-user'' then finish (set_arg ''arg_writable_run_user'' 1 cfg)
      else if ptr = ''writable-var-log'' then finish (set_arg ''arg_writable_var_log'' 1 cfg)
      else if starts_with ''private '' ptr
      then after (pw_call w ''fs_check_private_dir'' (after_prefix ''private '' ptr))
             (\<lambda>d. finish (set_arg ''arg_private'' 1 (set_str ''home_private'' (Some d) cfg)))
      else if ptr = ''allow-debuggers''
      then finish (set_seccomp_cfg cfg (\<lambda>c. c\<lparr>arg_allow_debuggers := True\<rparr>))
      else None)"

text \<open>X11: unless firejail already runs below an X11 server of its own, the server is started and firejail exits.\<close>

definition start_x11 :: "profile_world \<Rightarrow> string \<Rightarrow> profile_cfg \<Rightarrow> outcome" where
  "start_x11 w f cfg =
     with_have w ''HAVE_X11'' cfg (with_cfg w CFG_X11 cfg
       (if env_get (pc_env cfg) ''FIREJAIL_X11'' None = Some ''yes'' then finish cfg else Some (Inl (Exited f))))"

definition check_x11_commands :: "profile_world \<Rightarrow> string \<Rightarrow> profile_cfg \<Rightarrow> outcome" where
  "check_x11_commands w ptr cfg =
     (if ptr = ''x11 none'' then finish (set_arg ''arg_x11_block'' 1 cfg)
      else if ptr = ''x11 xephyr'' then start_x11 w ''x11_start_xephyr'' cfg
      else if ptr = ''x11 xorg''
      then with_have w ''HAVE_X11'' cfg (with_cfg w CFG_X11 cfg (finish (set_arg ''arg_x11_xorg'' 1 cfg)))
      else if ptr = ''x11 xpra'' then start_x11 w ''x11_start_xpra'' cfg
      else if ptr = ''x11 xvfb'' then start_x11 w ''x11_start_xvfb'' cfg
      else if ptr = ''x11'' then start_x11 w ''x11_start'' cfg
      else None)"

definition private_list :: "profile_world \<Rightarrow> CFG \<Rightarrow> string \<Rightarrow> string \<Rightarrow> string \<Rightarrow> profile_cfg \<Rightarrow> outcome" where
  "private_list w c flg var s cfg =
     with_cfg w c cfg (finish (set_arg flg 1 (set_str var (append_list (pc_strs cfg var) s) cfg)))"

definition check_private_dirs :: "profile_world \<Rightarrow> string \<Rightarrow> profile_cfg \<Rightarrow> outcome" where
  "check_private_dirs w ptr cfg =
     (if starts_with ''private-etc '' ptr
      then with_cfg w CFG_PRIVATE_ETC cfg
             (if arg_set cfg ''arg_writable_etc'' then refuse ''private-etc and writable-etc are mutually exclusive'' ptr
              else private_list w CFG_PRIVATE_ETC ''arg_private_etc'' ''etc_private_keep'' (after_prefix ''private-etc '' ptr) cfg)
      else if ptr = ''private-etc''
      then with_cfg w CFG_PRIVATE_ETC cfg
             (if arg_set cfg ''arg_writable_etc'' then refuse ''private-etc and writable-etc are mutually exclusive'' ptr
              else finish (set_arg ''arg_private_etc'' 1 cfg))
      else if starts_with ''private-opt '' ptr
      then private_list w CFG_PRIVATE_OPT ''arg_private_opt'' ''opt_private_keep'' (after_prefix ''private-opt '' ptr) cfg
      else if starts_with ''private-srv '' ptr
      then private_list w CFG_PRIVATE_SRV ''arg_private_srv'' ''srv_private_keep'' (after_prefix ''private-srv '' ptr) cfg
      else if starts_with ''private-bin '' ptr
      then private_list w CFG_PRIVATE_BIN ''arg_private_bin'' ''bin_private_keep'' (after_prefix ''private-bin '' ptr) cfg
      else if starts_with ''private-lib'' ptr
      then with_cfg w CFG_PRIVATE_LIB cfg
             (let r = after_prefix ''private-lib'' ptr;
                  cfg1 = (if r \<noteq> [] \<and> hd r = space \<and> (pc_strs cfg ''lib_private_keep'' = None \<or> tl r \<noteq> [])
                          then set_str ''lib_private_keep'' (append_list (pc_strs cfg ''lib_private_keep'') (tl r)) cfg
                          else cfg) in
              finish (set_arg ''arg_private_lib'' 1 cfg1))
      else None)"

text \<open>Overlay file systems, only with \<open>HAVE_OVERLAYFS\<close>.\<close>

definition start_overlay :: "profile_cfg \<Rightarrow> string \<Rightarrow> outcome \<Rightarrow> outcome" where
  "start_overlay cfg ptr k =
     (if arg_set cfg ''arg_overlay'' then refuse ''only one overlay command is allowed'' ptr
      else if pc_strs cfg ''chrootdir'' \<noteq> None then refuse ''overlay and chroot are mutually exclusive'' ptr
      else k)"

definition check_overlay :: "profile_world \<Rightarrow> string \<Rightarrow> profile_cfg \<Rightarrow> outcome" where
  "check_overlay w ptr cfg =
     (if \<not> pw_have w ''HAVE_OVERLAYFS'' then None
      else if starts_with ''overlay-named '' ptr
      then with_cfg w CFG_OVERLAYFS cfg (start_overlay cfg ptr
             (let subdirname = after_prefix ''overlay-named '' ptr in
              if subdirname = [] then refuse ''invalid overlay option'' ptr
              else after (invalid_filename subdirname False) (\<lambda>_.
                if strstr subdirname ''..'' \<noteq> None \<or> strstr subdirname ''/'' \<noteq> None then refuse ''invalid overlay name'' ptr
                else after (pw_call w ''fs_check_overlay_dir'' subdirname) (\<lambda>d.
                  finish (set_str ''overlay_dir'' (Some d) (set_arg ''arg_overlay_reuse'' 1
                    (set_arg ''arg_overlay_keep'' 1 (set_arg ''arg_overlay'' 1 cfg))))))))
      else if ptr = ''overlay-tmpfs''
      then with_cfg w CFG_OVERLAYFS cfg (start_overlay cfg ptr (finish (set_arg ''arg_overlay'' 1 cfg)))
      else if ptr = ''overlay''
      then with_cfg w CFG_OVERLAYFS cfg (start_overlay cfg ptr
             (after (pw_call w ''fs_check_overlay_dir'' (fmt_d (int (pw_pid w)))) (\<lambda>d.
               finish (set_str ''overlay_dir'' (Some d) (set_arg ''arg_overlay_keep'' 1 (set_arg ''arg_overlay'' 1 cfg))))))
      else None)"

definition check_bind :: "profile_world \<Rightarrow> string \<Rightarrow> profile_cfg \<Rightarrow> outcome" where
  "check_bind w ptr cfg =
     (if starts_with ''bind '' ptr
      then with_cfg w CFG_BIND cfg
             (if \<not> pw_root w then refuse ''bind is available only if running as root'' ptr
              else case split_comma (after_prefix ''bind '' ptr) of
                (_, None) \<Rightarrow> refuse ''missing second directory for bind'' ptr
              | (dname1, Some dname2) \<Rightarrow>
                  after (invalid_filename dname1 False) (\<lambda>_. after (invalid_filename dname2 False) (\<lambda>_.
                    if strstr dname1 ''..'' \<noteq> None \<or> strstr dname2 ''..'' \<noteq> None then refuse ''invalid file name'' ptr
                    else if pw_is_link w dname1 \<or> pw_is_link w dname2
                    then refuse ''Symbolic links are not allowed for bind command'' ptr
                    else keep_line cfg)))
      else None)"

text \<open>\<open>check_unsigned\<close> and \<open>sscanf(s, "%llu", &limit)\<close>, which leaves the limit when there is no number.\<close>

definition unsigned_limit :: "string \<Rightarrow> string \<Rightarrow> string \<Rightarrow> profile_cfg \<Rightarrow> outcome" where
  "unsigned_limit var flg s cfg =
     after (check_unsigned s) (\<lambda>_.
       finish (set_arg flg 1 (set_rlimit var (if scan_u s = None then pc_rlimits cfg var else scan_llu s) cfg)))"

definition size_limit :: "string \<Rightarrow> string \<Rightarrow> string \<Rightarrow> profile_cfg \<Rightarrow> outcome" where
  "size_limit var flg s cfg =
     (let v = parse_arg_size space s in
      if v = 0 then refuse ''invalid rlimit'' s else finish (set_arg flg 1 (set_rlimit var v cfg)))"

definition check_rlimit :: "profile_world \<Rightarrow> string \<Rightarrow> profile_cfg \<Rightarrow> outcome" where
  "check_rlimit w ptr cfg =
     (if starts_with ''rlimit'' ptr
      then (if starts_with ''rlimit-nofile '' ptr
            then unsigned_limit ''rlimit_nofile'' ''arg_rlimit_nofile'' (after_prefix ''rlimit-nofile '' ptr) cfg
            else if starts_with ''rlimit-cpu '' ptr
            then unsigned_limit ''rlimit_cpu'' ''arg_rlimit_cpu'' (after_prefix ''rlimit-cpu '' ptr) cfg
            else if starts_with ''rlimit-nproc '' ptr
            then unsigned_limit ''rlimit_nproc'' ''arg_rlimit_nproc'' (after_prefix ''rlimit-nproc '' ptr) cfg
            else if starts_with ''rlimit-fsize '' ptr
            then size_limit ''rlimit_fsize'' ''arg_rlimit_fsize'' (after_prefix ''rlimit-fsize '' ptr) cfg
            else if starts_with ''rlimit-sigpending '' ptr
            then unsigned_limit ''rlimit_sigpending'' ''arg_rlimit_sigpending'' (after_prefix ''rlimit-sigpending '' ptr) cfg
            else if starts_with ''rlimit-as '' ptr
            then size_limit ''rlimit_as'' ''arg_rlimit_as'' (after_prefix ''rlimit-as '' ptr) cfg
            else refuse ''Invalid rlimit option'' ptr)
      else None)"

definition check_start :: "profile_world \<Rightarrow> string \<Rightarrow> profile_cfg \<Rightarrow> outcome" where
  "check_start w ptr cfg =
     (if starts_with ''timeout '' ptr
      then after (extract_timeout (after_prefix ''timeout '' ptr)) (\<lambda>t. finish (cfg\<lparr>pc_timeout := t\<rparr>))
      else if starts_with ''join-or-start '' ptr
      then (if pw_checkcfg w CFG_JOIN \<noteq> 0 \<or> pw_root w
            then (if pw_sandbox_exists w (after_prefix ''join-or-start '' ptr) then Some (Inl (Exited ''join''))
                  else set_sandbox_name ''name'' ''invalid sandbox name'' (after_prefix ''join-or-start '' ptr) cfg)
            else finish cfg)
      else if ptr = ''disable-mnt'' then finish (set_arg ''arg_disable_mnt'' 1 cfg)
      else if ptr = ''deterministic-exit-code'' then finish (set_arg ''arg_deterministic_exit_code'' 1 cfg)
      else if ptr = ''deterministic-shutdown'' then finish (set_arg ''arg_deterministic_shutdown'' 1 cfg)
      else None)"

text \<open>The commands on files, which are kept for the time when the file system is built.\<close>

definition file_prefixes :: "string list" where
  "file_prefixes =
     [''blacklist '', ''blacklist-nolog '', ''noblacklist '', ''whitelist '', ''nowhitelist '', ''read-only '',
      ''read-write '', ''noexec '', ''tmpfs '']"

definition file_argument :: "string \<Rightarrow> string option" where
  "file_argument ptr = map_option (\<lambda>pre. after_prefix pre ptr) (find (\<lambda>pre. starts_with pre ptr) file_prefixes)"

definition check_files :: "profile_world \<Rightarrow> string \<Rightarrow> profile_cfg \<Rightarrow> outcome" where
  "check_files w ptr cfg =
     (case file_argument ptr of
        None \<Rightarrow> refuse ''invalid line'' ptr
      | Some f \<Rightarrow>
          if starts_with ''tmpfs '' ptr \<and> \<not> pw_have w ''HAVE_USERTMPFS'' \<and> \<not> pw_root w
          then refuse ''tmpfs available only when running the sandbox as root'' ptr
          else after (invalid_filename f True) (\<lambda>_.
            if strstr f ''..'' \<noteq> None then refuse ''invalid filename'' ptr
            else keep_line (if starts_with ''whitelist '' ptr then set_arg ''arg_whitelist'' 1 cfg else cfg)))"

subsection \<open>A profile line\<close>

definition profile_commands :: "profile_world \<Rightarrow> string \<Rightarrow> profile_cfg \<Rightarrow> outcome" where
  "profile_commands w ptr cfg =
     foldr (\<lambda>c. or_else (c w ptr cfg))
       [check_names, check_flags, check_dbus, check_net, check_bridge, check_apparmor, check_seccomp, check_landlock,
        check_filters, check_host, check_x11_commands, check_private_dirs, check_overlay, check_bind, check_rlimit,
        check_start, check_files] None"

text \<open>
  \<open>profile_check_line\<close> and \<open>profile_check_conditional\<close>. The last command takes every line, so that the chain has an
  outcome.
\<close>

function profile_check_line :: "profile_world \<Rightarrow> string \<Rightarrow> profile_cfg \<Rightarrow> (bool \<times> profile_cfg) result" where
  "profile_check_line w ptr cfg =
     (case parse_conditional w cfg ptr of
        CondError msg \<Rightarrow> Inl (ProfileError msg ptr)
      | CondFalse \<Rightarrow> Inr (False, cfg)
      | CondTrue rest \<Rightarrow>
          bind_result (profile_check_line w rest cfg) (\<lambda>(add, cfg').
            Inr (False, if add then profile_add rest cfg' else cfg'))
      | NoCondition \<Rightarrow>
          if is_in_ignore_list cfg ptr then Inr (False, cfg)
          else (case profile_commands w ptr cfg of None \<Rightarrow> Inl (ProfileError ''invalid line'' ptr) | Some r \<Rightarrow> r))"
  by pat_completeness auto
termination
  by (relation "measure (\<lambda>(w, ptr, cfg). length ptr)") (auto dest: parse_conditional_length)

declare profile_check_line.simps [simp del]

subsection \<open>Profile files\<close>

definition MAX_READ :: nat where "MAX_READ = 8192"

text \<open>The file that \<open>profile_find\<close> reads, \<open>None\<close> when it returns 0.\<close>

definition profile_find :: "profile_world \<Rightarrow> string \<Rightarrow> string \<Rightarrow> bool \<Rightarrow> string option" where
  "profile_find w name dir add_ext =
     (let pname = (if add_ext then name @ ''.profile'' else name) in
      case pw_dir w dir of
        None \<Rightarrow> None
      | Some entries \<Rightarrow> if pname \<in> set entries then Some (dir @ ''/'' @ pname) else None)"

definition profile_find_firejail :: "profile_world \<Rightarrow> string \<Rightarrow> bool \<Rightarrow> string option" where
  "profile_find_firejail w name add_ext =
     (let env = pw_macros w; sys = profile_find w name (me_sysconfdir env) add_ext in
      if pw_have w ''HAVE_ONLY_SYSCFG_PROFILES'' then sys
      else case profile_find w name (me_homedir env @ ''/.config/firejail'') add_ext of
        Some f \<Rightarrow> Some f
      | None \<Rightarrow> sys)"

text \<open>
  The part of \<open>profile_read\<close> before the loop: the text of the file, \<open>None\<close> when the file is skipped. \<open>NoAccess\<close> has the
  answer to \<open>errno == EACCES\<close>.
\<close>

definition local_file :: "string \<Rightarrow> bool" where
  "local_file fname = (case strstr (gnu_basename fname) ''.local'' of None \<Rightarrow> False | Some ptr \<Rightarrow> length ptr = 6)"

definition skipped_file :: "profile_cfg \<Rightarrow> string \<Rightarrow> bool" where
  "skipped_file cfg fname \<longleftrightarrow>
     slash \<in> set fname \<and>
     (arg_allow_debuggers (pc_seccomp cfg) \<and> gnu_basename fname = ''disable-devel.inc'' \<or>
      arg_set cfg ''arg_appimage'' \<and> gnu_basename fname = ''disable-shell.inc'')"

definition profile_open :: "profile_world \<Rightarrow> string \<Rightarrow> profile_cfg \<Rightarrow> string option result" where
  "profile_open w fname cfg =
     bind_result (invalid_filename fname False) (\<lambda>_.
       if fname = [] \<or> pw_is_dir w fname then Inl (ProfileError ''invalid profile file'' fname)
       else case pw_file w fname of
         NoAccess eacces \<Rightarrow>
           if local_file fname \<and> \<not> eacces then Inr None else Inl (ProfileError ''cannot access profile file'' fname)
       | Unreadable \<Rightarrow>
           if skipped_file cfg fname then Inr None else Inl (ProfileError ''cannot open profile file'' fname)
       | ProfileText txt \<Rightarrow> Inr (if skipped_file cfg fname then None else Some txt))"

text \<open>The file of an \<open>include\<close> line: a name without a slash is searched for in the directories of the profiles.\<close>

definition include_file :: "profile_world \<Rightarrow> string \<Rightarrow> string" where
  "include_file w newprofile =
     (if slash \<in> set newprofile then newprofile
      else case profile_find_firejail w newprofile False of Some f \<Rightarrow> f | None \<Rightarrow> newprofile)"

text \<open>The body of the loop; \<open>rd\<close> is \<open>profile_read\<close> at the next include level.\<close>

definition profile_line ::
    "(string \<Rightarrow> profile_cfg \<Rightarrow> profile_cfg result) \<Rightarrow> profile_world \<Rightarrow> string \<Rightarrow> profile_cfg \<Rightarrow> profile_cfg result" where
  "profile_line rd w buf cfg =
     (case line_remove_spaces (fst (cut_at (CHR ''#'') (cstr buf))) of
        None \<Rightarrow> Inr cfg
      | Some ptr \<Rightarrow>
          if ptr = [] then Inr cfg
          else if starts_with ''whitelist-ro '' ptr
          then Inr (profile_add (''read-only '' @ after_prefix ''whitelist-ro '' ptr)
                 (profile_add (''whitelist '' @ after_prefix ''whitelist-ro '' ptr) cfg))
          else if ptr = ''quiet''
          then Inr (if is_in_ignore_list cfg ptr then set_arg ''arg_quiet'' 0 cfg
                    else if \<not> arg_set cfg ''arg_debug'' then set_arg ''arg_quiet'' 1 cfg
                    else cfg)
          else if starts_with ''include '' ptr \<and> \<not> is_in_ignore_list cfg ptr
          then bind_result (expand_macros (pw_macros w) (after_prefix ''include '' ptr))
                 (\<lambda>newprofile. rd (include_file w newprofile) cfg)
          else bind_result (profile_check_line w ptr cfg)
                 (\<lambda>(add, cfg'). Inr (if add then profile_add ptr cfg' else cfg')))"

text \<open>
  \<open>profile_read\<close>. The first argument counts the include levels that are left: \<open>MAX_INCLUDE_LEVEL + 1\<close> of them when
  \<open>include_level\<close> is 0, and none when the level is above \<open>MAX_INCLUDE_LEVEL\<close>. At the first level the name of the file is
  stored for \<open>--profile.print\<close>.
\<close>

primrec profile_read_level :: "nat \<Rightarrow> profile_world \<Rightarrow> string \<Rightarrow> profile_cfg \<Rightarrow> profile_cfg result" where
  "profile_read_level 0 w fname cfg = Inl (ProfileError ''maximum profile include level was reached'' fname)"
| "profile_read_level (Suc n) w fname cfg =
     bind_result (profile_open w fname cfg) (\<lambda>txt.
       case txt of
         None \<Rightarrow> Inr cfg
       | Some t \<Rightarrow>
           fold_result (profile_line (profile_read_level n w) w) (fgets_lines MAX_READ t)
             (if n = MAX_INCLUDE_LEVEL then set_str ''profile_run_file'' (Some fname) cfg else cfg))"

definition profile_read :: "profile_world \<Rightarrow> string \<Rightarrow> profile_cfg \<Rightarrow> profile_cfg result" where
  "profile_read = profile_read_level (Suc MAX_INCLUDE_LEVEL)"

end
