(* ===== verification/Profile_Steps.thy ===== *)
theory Profile_Steps
  imports Profile "HOL-Library.Sublist"
begin

text \<open>
  What profile lines can do to the configuration. Every command of \<open>Profile\<close> is a sequence of elementary changes, the
  step relation \<open>config_step\<close>, whose premises are what the commands check before they change something. A calculus of
  outcomes shows it for each command with a few rules, and so for a line, for a file and for the files it includes.
  The invariants of the configuration are then proved by induction on the elementary changes.
\<close>

subsection \<open>Elementary changes\<close>

text \<open>A network device of the configuration as the commands leave it.\<close>

definition bridge_ok :: "Bridge \<Rightarrow> bool" where
  "bridge_ok b \<longleftrightarrow>
     (br_mtu b = 0 \<or> 576 \<le> br_mtu b \<and> br_mtu b \<le> 9198) \<and>
     (br_iprange_start b = 0 \<and> br_iprange_end b = 0 \<or> br_iprange_start b < br_iprange_end b) \<and>
     (length (br_macsandbox b) = 6 \<and> hd (br_macsandbox b) AND 1 = 0)"

definition clean_list :: "string option \<Rightarrow> bool" where
  "clean_list l = (case l of None \<Rightarrow> True | Some s \<Rightarrow> s \<noteq> [] \<and> list_all (\<lambda>c. c_isalnum c \<or> c \<in> set ''_,:@-$!'') s)"

definition seccomp_ok :: "seccomp_cfg \<Rightarrow> bool" where
  "seccomp_ok c \<longleftrightarrow>
     augmented (cfg_protocol c) \<and> augmented (cfg_restrict_namespaces c) \<and>
     list_all clean_list [cfg_seccomp_list c, cfg_seccomp_list32 c, cfg_seccomp_list_drop c, cfg_seccomp_list_drop32 c,
       cfg_seccomp_list_keep c, cfg_seccomp_list_keep32 c]"

text \<open>No seccomp option that is on is switched off.\<close>

definition seccomp_kept :: "seccomp_cfg \<Rightarrow> seccomp_cfg \<Rightarrow> bool" where
  "seccomp_kept c d \<longleftrightarrow>
     (arg_seccomp c \<longrightarrow> arg_seccomp d) \<and> (arg_seccomp32 c \<longrightarrow> arg_seccomp32 d) \<and>
     (arg_seccomp_block_secondary c \<longrightarrow> arg_seccomp_block_secondary d) \<and>
     (arg_memory_deny_write_execute c \<longrightarrow> arg_memory_deny_write_execute d) \<and>
     (arg_restrict_namespaces c \<longrightarrow> arg_restrict_namespaces d)"

text \<open>
  The only integers that a profile sets to zero; \<open>arg_noroot\<close> where the kernel has no user namespaces or the user is root.
\<close>

definition resettable :: "string list" where
  "resettable =
     [''nice'', ''arg_quiet'', ''apparmor_replace'', ''arg_noroot'', ''interface0.configured'', ''interface1.configured'',
      ''interface2.configured'', ''interface3.configured'']"

inductive config_step :: "profile_cfg \<Rightarrow> profile_cfg \<Rightarrow> bool" where
  arg: "(v = 0 \<Longrightarrow> n \<in> set resettable) \<Longrightarrow> config_step cfg (set_arg n v cfg)"
| str: "config_step cfg (set_str n v cfg)"
| rlimit: "config_step cfg (set_rlimit n u cfg)"
| timeout: "config_step cfg (cfg\<lparr>pc_timeout := t\<rparr>)"
| cpus: "config_step cfg (cfg\<lparr>pc_cpus := t\<rparr>)"
| gateway: "config_step cfg (cfg\<lparr>pc_defaultgw := t\<rparr>)"
| keep_fd: "profile_list_augment (pc_keep_fd cfg) (Some items) = Inr l \<Longrightarrow> NUL \<notin> set items \<Longrightarrow>
    config_step cfg (cfg\<lparr>pc_keep_fd := Some l\<rparr>)"
| landlock: "config_step cfg (cfg\<lparr>pc_landlock := pc_landlock cfg @ [r]\<rparr>)"
| entry: "config_step cfg (profile_add s cfg)"
| ignore: "s \<noteq> [] \<Longrightarrow> length (pc_ignore cfg) < MAX_PROFILE_IGNORE \<Longrightarrow>
    config_step cfg (cfg\<lparr>pc_ignore := pc_ignore cfg @ [s]\<rparr>)"
| bridge: "(bridge_ok (pc_bridges cfg ! i) \<Longrightarrow> bridge_ok b) \<Longrightarrow> config_step cfg (update_bridge i b cfg)"
| no_network: "config_step cfg (cfg\<lparr>pc_bridges := map (\<lambda>b. b\<lparr>br_configured := False\<rparr>) (pc_bridges cfg)\<rparr>)"
| env: "env_store s oper (pc_env cfg) = Inr e \<Longrightarrow> config_step cfg (cfg\<lparr>pc_env := e\<rparr>)"
| dbus_user: "pc_dbus_user cfg \<le> p \<Longrightarrow> config_step cfg (cfg\<lparr>pc_dbus_user := p\<rparr>)"
| dbus_system: "pc_dbus_system cfg \<le> p \<Longrightarrow> config_step cfg (cfg\<lparr>pc_dbus_system := p\<rparr>)"
| seccomp: "(seccomp_ok (pc_seccomp cfg) \<Longrightarrow> seccomp_ok (f (pc_seccomp cfg))) \<Longrightarrow>
    seccomp_kept (pc_seccomp cfg) (f (pc_seccomp cfg)) \<Longrightarrow> config_step cfg (set_seccomp_cfg cfg f)"

abbreviation config_steps :: "profile_cfg \<Rightarrow> profile_cfg \<Rightarrow> bool" where
  "config_steps \<equiv> rtranclp config_step"

lemma step_after: "config_steps cfg c \<Longrightarrow> config_step c d \<Longrightarrow> config_steps cfg d"
  by (rule rtranclp.rtrancl_into_rtrancl)

lemmas steps = rtranclp.rtrancl_refl
  config_step.arg [THEN [2] step_after] config_step.str [THEN [2] step_after] config_step.rlimit [THEN [2] step_after]
  config_step.timeout [THEN [2] step_after] config_step.cpus [THEN [2] step_after]
  config_step.gateway [THEN [2] step_after] config_step.landlock [THEN [2] step_after]
  config_step.entry [THEN [2] step_after] config_step.no_network [THEN [2] step_after]

subsection \<open>A calculus of outcomes\<close>

definition sat :: "(bool \<Rightarrow> profile_cfg \<Rightarrow> bool) \<Rightarrow> outcome \<Rightarrow> bool" where
  "sat Q out \<longleftrightarrow> (\<forall>b cfg'. out = Some (Inr (b, cfg')) \<longrightarrow> Q b cfg')"

lemma sat_None: "sat Q None" and sat_error: "sat Q (Some (Inl e))" and sat_refuse: "sat Q (refuse msg ptr)"
  by (simp_all add: sat_def refuse_def)

lemma sat_finish: "Q False c \<Longrightarrow> sat Q (finish c)" and sat_keep_line: "Q True c \<Longrightarrow> sat Q (keep_line c)"
  by (simp_all add: sat_def outcome_defs)

lemma sat_after: "(\<And>x. r = Inr x \<Longrightarrow> sat Q (k x)) \<Longrightarrow> sat Q (after r k)"
  by (auto simp: sat_def after_def split: sum.splits)

lemma sat_with_cfg: "Q False cfg \<Longrightarrow> sat Q k \<Longrightarrow> sat Q (with_cfg w c cfg k)"
  and sat_with_have: "Q False cfg \<Longrightarrow> sat Q k \<Longrightarrow> sat Q (with_have w h cfg k)"
  by (simp_all add: sat_def outcome_defs)

lemma sat_with_network: "Q False cfg \<Longrightarrow> sat Q k \<Longrightarrow> sat Q (with_network w cfg k)"
  unfolding with_network_def by (intro sat_with_have sat_with_cfg)

lemma sat_if: "(c \<Longrightarrow> sat Q a) \<Longrightarrow> (\<not> c \<Longrightarrow> sat Q b) \<Longrightarrow> sat Q (if c then a else b)"
  by simp

lemma sat_option:
  "(x = None \<Longrightarrow> sat Q a) \<Longrightarrow> (\<And>y. x = Some y \<Longrightarrow> sat Q (k y)) \<Longrightarrow> sat Q (case x of None \<Rightarrow> a | Some y \<Rightarrow> k y)"
  by (simp split: option.splits)

lemma sat_Let: "(\<And>x. x = e \<Longrightarrow> sat Q (k x)) \<Longrightarrow> sat Q (let x = e in k x)"
  by simp

lemma sat_pair: "(\<And>x y. p = (x, y) \<Longrightarrow> sat Q (k x y)) \<Longrightarrow> sat Q (case p of (x, y) \<Rightarrow> k x y)"
  by (simp split: prod.splits)

lemma sat_or_else: "sat Q a \<Longrightarrow> sat Q b \<Longrightarrow> sat Q (or_else a b)"
  by (cases a) (simp_all add: or_else_def)

lemmas sat_rules = sat_if sat_Let sat_option sat_pair sat_after sat_with_network sat_with_cfg sat_with_have
  sat_finish sat_keep_line sat_None sat_error sat_refuse

text \<open>The configuration that a command leaves is reached by elementary changes.\<close>

abbreviation sound :: "profile_cfg \<Rightarrow> outcome \<Rightarrow> bool" where
  "sound cfg \<equiv> sat (\<lambda>_. config_steps cfg)"

subsection \<open>The commands are sequences of elementary changes\<close>

lemma NUL_after_prefix: "NUL \<notin> set ptr \<Longrightarrow> NUL \<notin> set (after_prefix pre ptr)"
  by (auto simp: after_prefix_def dest: in_set_dropD)

lemma sound_set_name: "sound cfg (set_sandbox_name var msg name cfg)"
  unfolding set_sandbox_name_def by (intro sat_rules steps)

lemma seccomp_flag:
  assumes "\<And>c. seccomp_ok (f c) = seccomp_ok c" "\<And>c. seccomp_kept c (f c)" "config_steps cfg c"
  shows "config_steps cfg (set_seccomp_cfg c f)"
  using assms by (intro step_after [OF assms(3)] config_step.seccomp) simp_all

lemmas one_step = r_into_rtranclp [of config_step]

lemma sound_keep_fd:
  assumes "NUL \<notin> set items"
  shows "sound cfg (after (profile_list_augment (pc_keep_fd cfg) (Some items)) (\<lambda>l. finish (cfg\<lparr>pc_keep_fd := Some l\<rparr>)))"
  by (rule sat_after, rule sat_finish, rule one_step, rule config_step.keep_fd [OF _ assms])

lemma sound_names: "NUL \<notin> set ptr \<Longrightarrow> sound cfg (check_names w ptr cfg)"
  unfolding check_names_def
  by (intro sound_keep_fd NUL_after_prefix sat_rules steps sound_set_name)
    (auto simp: profile_add_ignore_def split: if_splits intro!: one_step config_step.ignore)

lemma user_namespace_steps: "config_steps cfg (check_user_namespace w cfg)"
  unfolding check_user_namespace_def by (intro steps) (simp add: resettable_def)

lemma sound_flags: "sound cfg (check_flags w ptr cfg)"
  unfolding check_flags_def
  by (intro sat_rules user_namespace_steps steps seccomp_flag) (auto intro: steps simp: seccomp_ok_def seccomp_kept_def)

lemma dbus_policy_kept:
  "dbus_policy s log p = Inr q \<Longrightarrow> p \<le> q"
  by (cases p) (auto simp: dbus_policy_def less_eq_DbusPolicy_def split: if_splits)

lemma sound_rule: "sound cfg (dbus_name_rule w name cfg)" "sound cfg (dbus_call_rule w name cfg)"
  unfolding dbus_name_rule_def dbus_call_rule_def by (intro sat_rules steps)+

lemma block_greatest: "p \<le> DBUS_POLICY_BLOCK"
  by (cases p) (simp_all add: less_eq_DbusPolicy_def)

lemma block_both: "config_steps cfg (cfg\<lparr>pc_dbus_user := DBUS_POLICY_BLOCK, pc_dbus_system := DBUS_POLICY_BLOCK\<rparr>)"
  by (rule step_after [OF one_step [OF config_step.dbus_user [where p = DBUS_POLICY_BLOCK]] config_step.dbus_system]) (simp_all add: block_greatest)

lemma sound_dbus: "sound cfg (check_dbus w ptr cfg)"
  unfolding check_dbus_def
  by (intro sat_rules steps sound_rule block_both one_step config_step.dbus_user config_step.dbus_system)
    (auto dest: dbus_policy_kept)

lemma sound_netfilter: "sound cfg (netfilter_file w flg var path cfg)"
  unfolding netfilter_file_def by (intro sat_rules steps) simp

lemma net_none_steps: "config_steps cfg (net_none cfg)"
proof -
  have "net_none cfg = fold (\<lambda>n. set_arg n 0) [''interface0.configured'', ''interface1.configured'', ''interface2.configured'',
      ''interface3.configured''] (set_arg ''arg_nonetwork'' 1 (cfg\<lparr>pc_bridges := map (\<lambda>b. b\<lparr>br_configured := False\<rparr>) (pc_bridges cfg)\<rparr>))"
    by (simp add: net_none_def set_arg_def)
  also have "config_steps cfg \<dots>"
    unfolding fold_simps by (intro steps) (simp_all add: resettable_def)
  finally show ?thesis .
qed

lemma sound_net: "sound cfg (check_net w ptr cfg)"
  unfolding check_net_def
  by (intro sat_rules steps sound_netfilter net_none_steps one_step config_step.bridge) (auto simp: bridge_ok_def)

lemma sound_with_bridge:
  "(\<And>b b'. f b = Inr b' \<Longrightarrow> bridge_ok b \<Longrightarrow> bridge_ok b') \<Longrightarrow> sound cfg (with_bridge w cfg f)"
  unfolding with_bridge_def by (intro sat_rules rtranclp.rtrancl_refl one_step config_step.bridge)

lemma atomac_length: "atomac s = Some mac \<Longrightarrow> length mac = 6"
proof -
  have "scan_mac n s = Some ms \<Longrightarrow> length ms = n" for n s ms
    by (induction n arbitrary: s ms) (fastforce simp: bind_eq_Some_conv split: if_splits)+
  then show "atomac s = Some mac \<Longrightarrow> length mac = 6" by (auto simp: atomac_def split: option.splits if_splits)
qed

lemma bridge_commands_ok:
  "veth_name s b = Inr b' \<Longrightarrow> bridge_ok b \<Longrightarrow> bridge_ok b'"
  "iprange s b = Inr b' \<Longrightarrow> bridge_ok b \<Longrightarrow> bridge_ok b'"
  "mac_address s b = Inr b' \<Longrightarrow> bridge_ok b \<Longrightarrow> bridge_ok b'"
  "set_mtu s b = Inr b' \<Longrightarrow> bridge_ok b \<Longrightarrow> bridge_ok b'"
  "netmask s b = Inr b' \<Longrightarrow> bridge_ok b \<Longrightarrow> bridge_ok b'"
  "ip_address s b = Inr b' \<Longrightarrow> bridge_ok b \<Longrightarrow> bridge_ok b'"
  "ip6_address w s b = Inr b' \<Longrightarrow> bridge_ok b \<Longrightarrow> bridge_ok b'"
  by (auto simp: veth_name_def iprange_def mac_address_def set_mtu_def netmask_def ip_address_def ip6_address_def bridge_ok_def
      dest: atomac_length split: if_splits option.splits prod.splits)

lemma sound_bridge: "sound cfg (check_bridge w ptr cfg)"
  unfolding check_bridge_def
  by (intro sat_rules steps sound_with_bridge) (auto dest: bridge_commands_ok)

lemma sound_apparmor: "sound cfg (check_apparmor w ptr cfg)"
  unfolding check_apparmor_def Let_def by (intro sat_rules steps) (auto simp: resettable_def)

lemma sound_seccomp_list:
  "(\<And>l c. clean_list (Some l) \<Longrightarrow> seccomp_ok c \<Longrightarrow> seccomp_ok (f l c)) \<Longrightarrow> (\<And>l c. seccomp_kept c (f l c)) \<Longrightarrow>
     sound cfg (seccomp_list w cfg s f)"
  unfolding seccomp_list_def
  by (intro sat_rules rtranclp.rtrancl_refl one_step config_step.seccomp)
    (auto simp: seccomp_check_list_def clean_list_def split: if_splits)

lemma sound_augment:
  assumes "NUL \<notin> set items" and "\<And>c. seccomp_ok c \<Longrightarrow> augmented (sel c)"
    and ok: "\<And>l c. augmented (Some l) \<Longrightarrow> seccomp_ok c \<Longrightarrow> seccomp_ok (f l c)" and "\<And>l c. seccomp_kept c (f l c)"
  shows "sound cfg (after (profile_list_augment (sel (pc_seccomp cfg)) (Some items)) (\<lambda>l. finish (set_seccomp_cfg cfg (f l))))"
  by (intro sat_after sat_finish one_step config_step.seccomp ok assms(4) augmented.augment [OF assms(2,1)])

lemmas seccomp_simps = seccomp_ok_def seccomp_kept_def augmented.unset

lemma sound_env: "sound cfg (after (env_store s oper (pc_env cfg)) (\<lambda>e. finish (cfg\<lparr>pc_env := e\<rparr>)))"
  by (rule sat_after, rule sat_finish, rule one_step, rule config_step.env)

lemma sound_seccomp: "NUL \<notin> set ptr \<Longrightarrow> sound cfg (check_seccomp w ptr cfg)"
  unfolding check_seccomp_def
  by (intro sound_env sat_if sat_with_cfg sound_augment [where sel = cfg_protocol] NUL_after_prefix sound_seccomp_list
      sat_finish sat_None seccomp_flag steps) (auto simp: seccomp_simps)

lemma sound_filters: "NUL \<notin> set ptr \<Longrightarrow> sound cfg (check_filters w ptr cfg)"
  unfolding check_filters_def
  by (intro sound_augment [where sel = cfg_restrict_namespaces] NUL_after_prefix sat_rules steps seccomp_flag)
    (auto simp: seccomp_simps all_namespaces_def)

lemma sound_landlock: "sound cfg (check_landlock w ptr cfg)"
  unfolding check_landlock_def ll_add_profile_def by (intro sat_rules steps) (auto intro: steps)

lemma sound_host: "sound cfg (check_host w ptr cfg)"
  unfolding check_host_def add_dns_def
  by (intro sat_rules steps sound_set_name seccomp_flag) (auto intro: steps simp: seccomp_ok_def seccomp_kept_def resettable_def)

lemma sound_x11: "sound cfg (start_x11 w f cfg)"
  unfolding start_x11_def by (intro sat_rules steps)

lemma sound_x11_commands: "sound cfg (check_x11_commands w ptr cfg)"
  unfolding check_x11_commands_def by (intro sat_rules steps sound_x11) simp_all

lemma sound_private: "sound cfg (private_list w c flg var s cfg)"
  unfolding private_list_def by (intro sat_rules steps) simp

lemma sound_private_dirs: "sound cfg (check_private_dirs w ptr cfg)"
  unfolding check_private_dirs_def by (intro sat_rules steps sound_private) (auto intro: steps)

lemma sound_start_overlay: "sound cfg k \<Longrightarrow> sound cfg (start_overlay cfg ptr k)"
  unfolding start_overlay_def by (intro sat_rules)

lemma sound_overlay: "sound cfg (check_overlay w ptr cfg)"
  unfolding check_overlay_def by (intro sat_rules steps sound_start_overlay) auto

lemma sound_bind: "sound cfg (check_bind w ptr cfg)"
  unfolding check_bind_def
  by (auto intro!: sat_rules rtranclp.rtrancl_refl split: prod.splits option.splits)

lemma sound_limits: "sound cfg (unsigned_limit var flg s cfg)" "sound cfg (size_limit var flg s cfg)"
  unfolding unsigned_limit_def size_limit_def by (intro sat_rules steps; simp)+

lemma sound_rlimit: "sound cfg (check_rlimit w ptr cfg)"
  unfolding check_rlimit_def by (intro sat_rules sound_limits)

lemma sound_start: "sound cfg (check_start w ptr cfg)"
  unfolding check_start_def by (intro sat_rules steps sound_set_name) auto

lemma sound_files: "sound cfg (check_files w ptr cfg)"
  unfolding check_files_def by (intro sat_rules) (auto intro: steps)

lemma sound_commands:
  assumes "NUL \<notin> set ptr"
  shows "sound cfg (profile_commands w ptr cfg)"
  unfolding profile_commands_def foldr.simps comp_apply id_apply
  by (intro sat_or_else sat_None sound_names [OF assms] sound_flags sound_dbus sound_net sound_bridge sound_apparmor
      sound_seccomp [OF assms] sound_landlock sound_filters [OF assms] sound_host sound_x11_commands sound_private_dirs
      sound_overlay sound_bind sound_rlimit sound_start sound_files)

subsection \<open>Lines and files\<close>

lemma find_conditional_set: "find_conditional cs ptr = Some (check, r) \<Longrightarrow> set r \<subseteq> set ptr"
  by (induction cs ptr rule: find_conditional.induct) (auto split: if_splits dest: in_set_dropD)

lemma parse_conditional_set:
  assumes "parse_conditional w cfg line = CondTrue rest"
  shows "set rest \<subseteq> set line"
proof -
  from assms obtain check r where r: "find_conditional conditionals (tl line) = Some (check, r)" "skip_one r \<noteq> []"
    "line \<noteq> []" "rest = skip_one (tl (skip_one r))"
    by (auto simp: parse_conditional_def Let_def split: if_splits option.splits)
  have s: "set (skip_one x) \<subseteq> set x" for x by (cases x) (auto simp: skip_one_def)
  have "set rest \<subseteq> set (skip_one r)" unfolding r(4) using s [of "tl (skip_one r)"] r(2) by (auto dest: list.set_sel(2))
  also have "\<dots> \<subseteq> set (tl line)" using s [of r] find_conditional_set [OF r(1)] by blast
  finally show ?thesis using r(3) by (auto dest: list.set_sel(2))
qed

lemma copy_words_set: "set (copy_words b s) \<subseteq> insert space (set s)"
proof (induction b s rule: copy_words.induct)
  case (2 state c r)
  have "set (dropWhile is_blank (c # r)) \<subseteq> set (c # r)" by (auto dest: set_dropWhileD)
  with 2 show ?case by (auto split: if_splits)
qed simp

lemma line_chars: "line_remove_spaces buf = Some ptr \<Longrightarrow> set ptr \<subseteq> insert space (set buf)"
  using copy_words_set [of False "dropWhile is_blank buf"]
  by (auto simp: line_remove_spaces_def strip_blank_def split: if_splits dest: in_set_butlastD set_dropWhileD)

lemma cut_at_set: "set (fst (cut_at c s)) \<subseteq> set s"
  by (induction s) (auto split: prod.splits)

lemma cleaned_line_chars:
  assumes "line_remove_spaces (fst (cut_at (CHR ''#'') (cstr buf))) = Some ptr"
  shows "NUL \<notin> set ptr"
proof -
  have "NUL \<notin> set (cstr buf)" by (auto simp: cstr_def dest: set_takeWhileD)
  with line_chars [OF assms] cut_at_set [of "CHR ''#''" "cstr buf"] show ?thesis by auto
qed

text \<open>
  A relation between configurations that every command respects is respected by lines, by files and by the files that
  they include. \<open>allowed\<close> restricts the lines of the files: the entries of \<open>whitelist-ro\<close> lines are not checked by a
  command.
\<close>

locale profile_relation =
  fixes w :: profile_world
    and allowed :: "string \<Rightarrow> bool"
    and R :: "profile_cfg \<Rightarrow> profile_cfg \<Rightarrow> bool"
  assumes refl: "R cfg cfg"
    and trans: "R a b \<Longrightarrow> R b c \<Longrightarrow> R a c"
    and command: "NUL \<notin> set ptr \<Longrightarrow> profile_commands w ptr cfg = Some (Inr (add, c)) \<Longrightarrow>
      R cfg (if add then profile_add ptr c else c)"
    and quiet: "R cfg (set_arg ''arg_quiet'' v cfg)"
    and run_file: "R cfg (set_str ''profile_run_file'' f cfg)"
    and whitelist_ro: "allowed buf \<Longrightarrow> line_remove_spaces (fst (cut_at (CHR ''#'') (cstr buf))) = Some ptr \<Longrightarrow>
      starts_with ''whitelist-ro '' ptr \<Longrightarrow> R cfg (profile_add (''read-only '' @ x) (profile_add (''whitelist '' @ x) cfg))"
begin

lemma check_line:
  "profile_check_line w ptr cfg = Inr (add, c) \<Longrightarrow> NUL \<notin> set ptr \<Longrightarrow> R cfg (if add then profile_add ptr c else c)"
proof (induction "length ptr" arbitrary: ptr cfg add c rule: less_induct)
  case less
  show ?case
  proof (cases "parse_conditional w cfg ptr")
    case NoCondition
    with less.prems show ?thesis
      by (cases "profile_commands w ptr cfg")
        (auto simp: profile_check_line.simps [of w ptr] refl dest: command split: if_splits)
  next
    case (CondTrue rest)
    with less.prems(1) obtain b d where d: "profile_check_line w rest cfg = Inr (b, d)" "c = (if b then profile_add rest d else d)" "add = False"
      by (auto simp: profile_check_line.simps [of w ptr] bind_result_eq_Inr_iff)
    have "NUL \<notin> set rest" using parse_conditional_set [OF CondTrue] less.prems(2) by blast
    from less.hyps [OF parse_conditional_length [OF CondTrue] d(1) this] show ?thesis by (simp add: d(2,3))
  qed (use less.prems in \<open>auto simp: profile_check_line.simps [of w ptr] refl\<close>)
qed

lemma line:
  assumes rd: "\<And>f cfg c. rd f cfg = Inr c \<Longrightarrow> R cfg c" and "allowed buf" and l: "profile_line rd w buf cfg = Inr c"
  shows "R cfg c"
proof (cases "line_remove_spaces (fst (cut_at (CHR ''#'') (cstr buf)))")
  case (Some ptr)
  note chars = cleaned_line_chars [OF Some]
  show ?thesis
  proof (cases "ptr = [] \<or> ptr = ''quiet''")
    case True
    with l Some show ?thesis by (auto simp: profile_line_def starts_with_def refl quiet split: if_splits)
  next
    case other: False
    show ?thesis
    proof (cases "starts_with ''whitelist-ro '' ptr")
      case True
      with l Some other whitelist_ro [OF assms(2) Some True] show ?thesis by (auto simp: profile_line_def)
    next
      case no_ro: False
      show ?thesis
      proof (cases "starts_with ''include '' ptr \<and> \<not> is_in_ignore_list cfg ptr")
        case True
        with l Some other no_ro obtain f where "rd f cfg = Inr c" by (auto simp: profile_line_def bind_result_eq_Inr_iff)
        then show ?thesis by (rule rd)
      next
        case False
        with l Some other no_ro have "bind_result (profile_check_line w ptr cfg)
            (\<lambda>(add, cfg'). Inr (if add then profile_add ptr cfg' else cfg')) = Inr c"
          by (simp only: profile_line_def option.case if_False de_Morgan_disj)
        then obtain add d where "profile_check_line w ptr cfg = Inr (add, d)" "c = (if add then profile_add ptr d else d)"
          by (cases "profile_check_line w ptr cfg") auto
        then show ?thesis using check_line [OF _ chars] by simp
      qed
    qed
  qed
qed (use l refl in \<open>simp add: profile_line_def\<close>)

lemma read_level:
  assumes files: "\<And>f t l. pw_file w f = ProfileText t \<Longrightarrow> l \<in> set (fgets_lines MAX_READ t) \<Longrightarrow> allowed l"
  shows "profile_read_level n w fname cfg = Inr c \<Longrightarrow> R cfg c"
proof (induction n arbitrary: fname cfg c)
  case (Suc n)
  from Suc.prems consider "c = cfg" | t where "pw_file w fname = ProfileText t"
    "fold_result (profile_line (profile_read_level n w) w) (fgets_lines MAX_READ t)
       (if n = MAX_INCLUDE_LEVEL then set_str ''profile_run_file'' (Some fname) cfg else cfg) = Inr c"
    by (auto simp: bind_result_eq_Inr_iff profile_open_def split: option.splits profile_file.splits if_splits)
  then show ?case
  proof cases
    case (2 t)
    show ?thesis
    proof (rule fold_result_inv [where I = "R cfg", OF _ _ 2(2)])
      fix l c d
      assume l: "l \<in> set (fgets_lines MAX_READ t)" "R cfg c" "profile_line (profile_read_level n w) w l c = Inr d"
      show "R cfg d" by (rule trans [OF l(2)], rule line [OF Suc.IH files [OF 2(1) l(1)] l(3)])
    qed (simp add: refl run_file)
  qed (simp add: refl)
qed simp

lemma read:
  assumes "\<And>f t l. pw_file w f = ProfileText t \<Longrightarrow> l \<in> set (fgets_lines MAX_READ t) \<Longrightarrow> allowed l" "profile_read w fname cfg = Inr c"
  shows "R cfg c"
  by (rule read_level [OF assms(1) assms(2) [unfolded profile_read_def]])

end

interpretation cs: profile_relation w "\<lambda>_. True" config_steps for w
proof
  fix ptr cfg add c
  assume "NUL \<notin> set ptr" "profile_commands w ptr cfg = Some (Inr (add, c))"
  with sound_commands [of ptr cfg w] have "config_steps cfg c" by (simp add: sat_def)
  then show "config_steps cfg (if add then profile_add ptr c else c)" by (auto intro: steps)
qed (rule rtranclp.rtrancl_refl, erule (1) rtranclp_trans, (intro steps; simp add: resettable_def)+)

lemma profile_read_steps: "profile_read w fname cfg = Inr cfg' \<Longrightarrow> config_steps cfg cfg'"
  by (rule cs.read) simp

subsection \<open>Invariants of the configuration\<close>

definition config_ok :: "profile_cfg \<Rightarrow> bool" where
  "config_ok cfg \<longleftrightarrow>
     length (pc_bridges cfg) = 4 \<and> list_all bridge_ok (pc_bridges cfg) \<and>
     length (pc_ignore cfg) \<le> MAX_PROFILE_IGNORE \<and> [] \<notin> set (pc_ignore cfg) \<and>
     seccomp_ok (pc_seccomp cfg) \<and> augmented (pc_keep_fd cfg)"

lemma config_step_ok: "config_step cfg cfg' \<Longrightarrow> config_ok cfg \<Longrightarrow> config_ok cfg'"
proof (induction rule: config_step.induct)
  case (bridge cfg i b)
  then show ?case
    by (cases "i < 4") (auto simp: config_ok_def update_bridge_def list_all_length nth_list_update)
next
  case (no_network cfg)
  then show ?case by (auto simp: config_ok_def list_all_iff bridge_ok_def)
next
  case (keep_fd cfg items l)
  then show ?case by (auto simp: config_ok_def intro: augmented.augment)
qed (auto simp: config_ok_def store_defs profile_add_def set_seccomp_cfg_def)

lemma config_steps_ok: "config_steps cfg cfg' \<Longrightarrow> config_ok cfg \<Longrightarrow> config_ok cfg'"
  by (induction rule: rtranclp_induct) (auto dest: config_step_ok)

text \<open>What no profile relaxes.\<close>

definition kept_restrictions :: "profile_cfg \<Rightarrow> profile_cfg \<Rightarrow> bool" where
  "kept_restrictions cfg cfg' \<longleftrightarrow>
     (\<forall>n. n \<notin> set resettable \<and> arg_set cfg n \<longrightarrow> arg_set cfg' n) \<and>
     seccomp_kept (pc_seccomp cfg) (pc_seccomp cfg') \<and>
     pc_dbus_user cfg \<le> pc_dbus_user cfg' \<and>
     pc_dbus_system cfg \<le> pc_dbus_system cfg' \<and>
     prefix (pc_profile cfg) (pc_profile cfg') \<and> prefix (pc_ignore cfg) (pc_ignore cfg') \<and>
     prefix (pc_landlock cfg) (pc_landlock cfg')"

lemma kept_restrictions_refl: "kept_restrictions cfg cfg"
  by (simp add: kept_restrictions_def seccomp_kept_def)

lemma kept_restrictions_trans: "kept_restrictions a b \<Longrightarrow> kept_restrictions b c \<Longrightarrow> kept_restrictions a c"
  unfolding kept_restrictions_def seccomp_kept_def by (intro conjI; elim conjE; (erule (1) order_trans | erule (1) prefix_order.trans | blast))

lemma config_step_kept: "config_step cfg cfg' \<Longrightarrow> kept_restrictions cfg cfg'"
proof (induction rule: config_step.induct)
  case (seccomp cfg f)
  then show ?case by (simp add: kept_restrictions_def set_seccomp_cfg_def arg_set_def)
qed (auto simp: kept_restrictions_def store_defs profile_add_def update_bridge_def seccomp_kept_def)

lemma config_steps_kept: "config_steps cfg cfg' \<Longrightarrow> kept_restrictions cfg cfg'"
  by (induction rule: rtranclp_induct) (auto intro: kept_restrictions_refl kept_restrictions_trans config_step_kept)

end
