(* ===== verification/Options.thy ===== *)
theory Options
  imports Profile_Steps
begin

text \<open>
  The command line of \<open>firejail/main.c\<close>: the commands that do something else than start a sandbox, the options, the
  checks after them, the choice of the profile, and the last adjustments before the sandbox is cloned.

  The configuration is the record of \<open>Profile\<close>; the variables of \<open>main\<close> that are only set (\<open>custom_profile\<close>,
  \<open>arg_caps_cmdline\<close>, \<open>original_program_index\<close>) are kept in its stores by their C name. An option is an \<open>outcome\<close> as a
  profile command is: \<open>None\<close> when the argument is not its own. In contrast to a profile line, an option of a feature
  that is disabled ends firejail.
\<close>

subsection \<open>Arguments\<close>

definition MAX_ARGS :: nat where "MAX_ARGS = 128"

definition MAX_ARG_LEN :: nat where "MAX_ARG_LEN = 4096 + 32"

definition MAX_ENVS :: nat where "MAX_ENVS = 2048"

text \<open>\<open>check_arg\<close> on the arguments from index \<open>i\<close> on; 0 when the option is not there.\<close>

primrec check_arg_from :: "nat \<Rightarrow> string list \<Rightarrow> string \<Rightarrow> bool \<Rightarrow> nat" where
  "check_arg_from i [] argument strict = 0"
| "check_arg_from i (a # as) argument strict =
     (if (if strict then a = argument else starts_with argument a) then i
      else if a = ''--'' \<or> \<not> starts_with ''--'' a then 0
      else check_arg_from (Suc i) as argument strict)"

definition check_arg :: "string list \<Rightarrow> string \<Rightarrow> bool \<Rightarrow> nat" where
  "check_arg argv argument strict = check_arg_from 1 (tl argv) argument strict"

definition exit_err_feature :: "string \<Rightarrow> outcome" where
  "exit_err_feature feature = refuse ''feature is disabled in Firejail configuration file'' feature"

definition with_feature :: "profile_world \<Rightarrow> CFG \<Rightarrow> string \<Rightarrow> outcome \<Rightarrow> outcome" where
  "with_feature w c feature k = (if pw_checkcfg w c \<noteq> 0 then k else exit_err_feature feature)"

subsection \<open>Commands that end firejail\<close>

text \<open>\<open>exit\<close> after the function that does the work, named by its C name.\<close>

definition exit_after :: "string \<Rightarrow> outcome" where
  "exit_after f = Some (Inl (Exited f))"

definition with_pid :: "profile_world \<Rightarrow> string \<Rightarrow> string \<Rightarrow> outcome" where
  "with_pid w name f = after (pw_call w ''require_pid'' name) (\<lambda>_. exit_after f)"

definition only_root :: "profile_world \<Rightarrow> string \<Rightarrow> outcome \<Rightarrow> outcome" where
  "only_root w arg k = (if pw_root w then k else refuse ''only available to root user'' arg)"

definition trace_command :: "profile_world \<Rightarrow> string \<Rightarrow> string \<Rightarrow> outcome" where
  "trace_command w name arg =
     (let opt = ''--'' @ name; pre = opt @ ''='' in
      if arg = opt then with_feature w CFG_NETWORK ''networking'' (only_root w arg (exit_after ''netfilter_trace''))
      else if starts_with pre arg
      then with_feature w CFG_NETWORK ''networking'' (only_root w arg (with_pid w (after_prefix pre arg) ''netfilter_trace''))
      else None)"

definition cmd_basic :: "profile_world \<Rightarrow> string \<Rightarrow> outcome" where
  "cmd_basic w arg =
     (if arg = ''--help'' \<or> arg = ''-?'' then exit_after ''usage''
      else if arg = ''--version'' then exit_after ''print_version_full''
      else if pw_have w ''HAVE_OVERLAYFS'' \<and> arg = ''--overlay-clean''
      then with_feature w CFG_OVERLAYFS ''overlayfs''
             (after (pw_call w ''remove_overlay_directory'' []) (\<lambda>_. exit_after ''remove_overlay_directory''))
      else if pw_have w ''HAVE_X11'' \<and> arg = ''--x11'' then with_feature w CFG_X11 ''x11'' (exit_after ''x11_start'')
      else if pw_have w ''HAVE_X11'' \<and> arg = ''--x11=xpra'' then with_feature w CFG_X11 ''x11'' (exit_after ''x11_start_xpra'')
      else if pw_have w ''HAVE_X11'' \<and> arg = ''--x11=xephyr''
      then with_feature w CFG_X11 ''x11'' (exit_after ''x11_start_xephyr'')
      else if pw_have w ''HAVE_X11'' \<and> arg = ''--x11=xvfb'' then with_feature w CFG_X11 ''x11'' (exit_after ''x11_start_xvfb'')
      else None)"

definition cmd_trace :: "profile_world \<Rightarrow> string \<Rightarrow> outcome" where
  "cmd_trace w arg =
     foldr (\<lambda>name. or_else (trace_command w name arg)) [''nettrace'', ''dnstrace'', ''snitrace'', ''icmptrace''] None"

text \<open>\<open>--bandwidth=NAME\<close> with the arguments that follow it.\<close>

definition cmd_bandwidth :: "profile_world \<Rightarrow> string list \<Rightarrow> string \<Rightarrow> outcome" where
  "cmd_bandwidth w rest name =
     (case rest of
        [] \<Rightarrow> refuse ''command expected after --bandwidth option'' name
      | cmd # others \<Rightarrow>
          if cmd \<noteq> ''status'' \<and> cmd \<noteq> ''clear'' \<and> cmd \<noteq> ''set'' then refuse ''invalid --bandwidth command'' cmd
          else if cmd = ''status'' then with_pid w name ''bandwidth_pid''
          else (case others of
                  [] \<Rightarrow> refuse ''network name expected after --bandwidth option'' cmd
                | dev # speeds \<Rightarrow>
                    after (pw_call w ''if_nametoindex'' dev) (\<lambda>_.
                      if cmd = ''clear'' then with_pid w name ''bandwidth_pid''
                      else (case speeds of
                              down # up # _ \<Rightarrow>
                                if atoi down < 0 then refuse ''invalid download speed'' down
                                else if atoi up < 0 then refuse ''invalid upload speed'' up
                                else with_pid w name ''bandwidth_pid''
                            | _ \<Rightarrow> refuse ''invalid --bandwidth set command'' dev))))"

definition cmd_print :: "profile_world \<Rightarrow> string list \<Rightarrow> string \<Rightarrow> outcome" where
  "cmd_print w rest arg =
     (if pw_have w ''HAVE_NETWORK'' \<and> starts_with ''--bandwidth='' arg
      then with_feature w CFG_NETWORK ''networking'' (cmd_bandwidth w rest (after_prefix ''--bandwidth='' arg))
      else if pw_have w ''HAVE_NETWORK'' \<and> starts_with ''--netfilter.print='' arg
      then with_pid w (after_prefix ''--netfilter.print='' arg) ''netfilter_print''
      else if pw_have w ''HAVE_NETWORK'' \<and> starts_with ''--netfilter6.print='' arg
      then with_pid w (after_prefix ''--netfilter6.print='' arg) ''netfilter_print''
      else if arg = ''--debug-syscalls'' \<or> arg = ''--debug-syscalls32'' \<or> arg = ''--debug-errnos''
      then with_feature w CFG_SECCOMP ''seccomp'' (exit_after ''sbox_run'')
      else if starts_with ''--seccomp.print='' arg
      then with_feature w CFG_SECCOMP ''seccomp'' (with_pid w (after_prefix ''--seccomp.print='' arg) ''seccomp_print_filter'')
      else if arg = ''--debug-protocols'' then exit_after ''sbox_run''
      else if starts_with ''--protocol.print='' arg
      then with_feature w CFG_SECCOMP ''seccomp'' (with_pid w (after_prefix ''--protocol.print='' arg) ''protocol_print_filter'')
      else if starts_with ''--profile.print='' arg
      then with_pid w (after_prefix ''--profile.print='' arg) ''profile_print''
      else if starts_with ''--cpu.print='' arg then with_pid w (after_prefix ''--cpu.print='' arg) ''cpu_print_filter''
      else if starts_with ''--apparmor.print='' arg then with_pid w (after_prefix ''--apparmor.print='' arg) ''sbox_run''
      else if starts_with ''--caps.print='' arg then with_pid w (after_prefix ''--caps.print='' arg) ''caps_print_filter''
      else if starts_with ''--fs.print='' arg then with_pid w (after_prefix ''--fs.print='' arg) ''fs_logger_print_log''
      else if starts_with ''--dns.print='' arg then with_pid w (after_prefix ''--dns.print='' arg) ''net_dns_print''
      else if arg = ''--debug-caps'' then exit_after ''caps_print''
      else if arg = ''--list'' \<or> arg = ''--tree'' \<or> arg = ''--top'' then exit_after ''sbox_run''
      else if pw_have w ''HAVE_NETWORK'' \<and> arg = ''--netstats''
      then with_feature w CFG_NETWORK ''networking'' (exit_after ''sbox_run'')
      else if pw_have w ''HAVE_NETWORK'' \<and> starts_with ''--net.print='' arg
      then with_feature w CFG_NETWORK ''networking'' (with_pid w (after_prefix ''--net.print='' arg) ''net_print'')
      else None)"

text \<open>File transfer: the paths are checked before the sandbox is looked for.\<close>

definition transfer_path :: "string \<Rightarrow> unit result" where
  "transfer_path path =
     bind_result (invalid_filename path False) (\<lambda>_.
       if strstr path ''..'' \<noteq> None then Inl (ProfileError ''invalid file name'' path) else Inr ())"

definition transfer_command :: "profile_world \<Rightarrow> nat \<Rightarrow> string list \<Rightarrow> string \<Rightarrow> profile_cfg \<Rightarrow> outcome" where
  "transfer_command w n rest name cfg =
     with_feature w CFG_FILE_TRANSFER ''file transfer''
       (if arg_set cfg ''arg_private_cwd'' then refuse ''file transfer and --private-cwd options are mutually exclusive'' name
        else if length rest \<noteq> n then refuse ''invalid option, path expected'' name
        else after (fold_result (\<lambda>path _. transfer_path path) rest ()) (\<lambda>_. with_pid w name ''sandboxfs''))"

definition cmd_transfer :: "profile_world \<Rightarrow> string list \<Rightarrow> string \<Rightarrow> profile_cfg \<Rightarrow> outcome" where
  "cmd_transfer w rest arg cfg =
     (if \<not> pw_have w ''HAVE_FILE_TRANSFER'' then None
      else if starts_with ''--get='' arg then transfer_command w 1 rest (after_prefix ''--get='' arg) cfg
      else if starts_with ''--put='' arg then transfer_command w 2 rest (after_prefix ''--put='' arg) cfg
      else if starts_with ''--ls='' arg then transfer_command w 1 rest (after_prefix ''--ls='' arg) cfg
      else if starts_with ''--cat='' arg then transfer_command w 1 rest (after_prefix ''--cat='' arg) cfg
      else None)"

text \<open>Joining; \<open>--join-or-start\<close> goes on with the options when there is no such sandbox.\<close>

definition cmd_join :: "profile_world \<Rightarrow> nat \<Rightarrow> string list \<Rightarrow> string \<Rightarrow> profile_cfg \<Rightarrow> outcome" where
  "cmd_join w i rest arg cfg =
     (if starts_with ''--join='' arg
      then (if pw_checkcfg w CFG_JOIN \<noteq> 0 \<or> pw_root w then with_pid w (after_prefix ''--join='' arg) ''join''
            else exit_err_feature ''join'')
      else if starts_with ''--join-or-start='' arg
      then (if pw_checkcfg w CFG_JOIN \<noteq> 0 \<or> pw_root w
            then (if pw_sandbox_exists w (after_prefix ''--join-or-start='' arg) then exit_after ''join''
                  else finish (set_arg ''original_program_index'' (int i + 1)
                    (if rest = [] then set_arg ''just_run_the_shell'' 1 cfg else cfg)))
            else exit_err_feature ''join'')
      else if pw_have w ''HAVE_NETWORK'' \<and> starts_with ''--join-network='' arg
      then with_feature w CFG_NETWORK ''networking'' (only_root w arg (with_pid w (after_prefix ''--join-network='' arg) ''join''))
      else if starts_with ''--join-filesystem='' arg
      then only_root w arg (with_pid w (after_prefix ''--join-filesystem='' arg) ''join'')
      else if starts_with ''--shutdown='' arg then with_pid w (after_prefix ''--shutdown='' arg) ''shut''
      else None)"

definition run_cmd_and_exit :: "profile_world \<Rightarrow> nat \<Rightarrow> string list \<Rightarrow> string \<Rightarrow> profile_cfg \<Rightarrow> outcome" where
  "run_cmd_and_exit w i rest arg cfg =
     or_else (cmd_basic w arg) (or_else (cmd_trace w arg) (or_else (cmd_print w rest arg)
       (or_else (cmd_transfer w rest arg cfg) (cmd_join w i rest arg cfg))))"

subsection \<open>The options\<close>

definition option_debug :: "profile_world \<Rightarrow> string \<Rightarrow> profile_cfg \<Rightarrow> outcome" where
  "option_debug w arg cfg =
     (if arg = ''--debug'' then finish (set_arg ''arg_quiet'' 0 (set_arg ''arg_debug'' 1 cfg))
      else if arg = ''--debug-blacklists'' then finish (set_arg ''arg_debug_blacklists'' 1 cfg)
      else if arg = ''--debug-whitelists'' then finish (set_arg ''arg_debug_whitelists'' 1 cfg)
      else if pw_have w ''HAVE_PRIVATE_LIB'' \<and> arg = ''--debug-private-lib''
      then finish (set_arg ''arg_debug_private_lib'' 1 cfg)
      else if arg = ''--quiet'' then finish (if arg_set cfg ''arg_debug'' then cfg else set_arg ''arg_quiet'' 1 cfg)
      else if arg = ''--allow-debuggers'' then finish cfg
      else if pw_have w ''HAVE_X11'' \<and> starts_with ''--xephyr-screen='' arg then with_feature w CFG_X11 ''x11'' (finish cfg)
      else if pw_have w ''HAVE_APPARMOR'' \<and> arg = ''--apparmor''
      then finish (set_str ''apparmor_profile'' (Some ''firejail-default'') (set_arg ''arg_apparmor'' 1 cfg))
      else if pw_have w ''HAVE_APPARMOR'' \<and> starts_with ''--apparmor='' arg
      then finish (set_str ''apparmor_profile'' (Some (after_prefix ''--apparmor='' arg)) (set_arg ''arg_apparmor'' 1 cfg))
      else if pw_have w ''HAVE_APPARMOR'' \<and> starts_with ''--apparmor-replace'' arg
      then finish (set_arg ''apparmor_replace'' 1 (set_arg ''arg_apparmor'' 1 cfg))
      else None)"

text \<open>The seccomp lists, each of which is accepted only while the filter of its architecture is not enabled.\<close>

definition seccomp_option ::
    "profile_world \<Rightarrow> profile_cfg \<Rightarrow> (seccomp_cfg \<Rightarrow> bool) \<Rightarrow> string \<Rightarrow> (string \<Rightarrow> seccomp_cfg \<Rightarrow> seccomp_cfg) \<Rightarrow> outcome" where
  "seccomp_option w cfg enabled s f =
     with_feature w CFG_SECCOMP ''seccomp''
       (if enabled (pc_seccomp cfg) then refuse ''seccomp already enabled'' s
        else after (seccomp_check_list s) (\<lambda>l. finish (set_seccomp_cfg cfg (f l))))"

definition option_seccomp :: "profile_world \<Rightarrow> string \<Rightarrow> profile_cfg \<Rightarrow> outcome" where
  "option_seccomp w arg cfg =
     (if starts_with ''--protocol='' arg
      then with_feature w CFG_SECCOMP ''seccomp''
             (after (profile_list_augment (cfg_protocol (pc_seccomp cfg)) (Some (after_prefix ''--protocol='' arg)))
               (\<lambda>l. finish (set_seccomp_cfg cfg (cfg_protocol_update (\<lambda>_. Some l)))))
      else if arg = ''--seccomp''
      then with_feature w CFG_SECCOMP ''seccomp''
             (if arg_seccomp (pc_seccomp cfg) then refuse ''seccomp already enabled'' arg
              else finish (set_seccomp_cfg cfg (\<lambda>c. c\<lparr>arg_seccomp := True\<rparr>)))
      else if starts_with ''--seccomp='' arg
      then seccomp_option w cfg arg_seccomp (after_prefix ''--seccomp='' arg)
             (\<lambda>l c. c\<lparr>arg_seccomp := True, cfg_seccomp_list := Some l\<rparr>)
      else if starts_with ''--seccomp.32='' arg
      then seccomp_option w cfg arg_seccomp32 (after_prefix ''--seccomp.32='' arg)
             (\<lambda>l c. c\<lparr>arg_seccomp32 := True, cfg_seccomp_list32 := Some l\<rparr>)
      else if starts_with ''--seccomp.drop='' arg
      then seccomp_option w cfg arg_seccomp (after_prefix ''--seccomp.drop='' arg)
             (\<lambda>l c. c\<lparr>arg_seccomp := True, cfg_seccomp_list_drop := Some l\<rparr>)
      else if starts_with ''--seccomp.32.drop='' arg
      then seccomp_option w cfg arg_seccomp32 (after_prefix ''--seccomp.32.drop='' arg)
             (\<lambda>l c. c\<lparr>arg_seccomp32 := True, cfg_seccomp_list_drop32 := Some l\<rparr>)
      else if starts_with ''--seccomp.keep='' arg
      then seccomp_option w cfg arg_seccomp (after_prefix ''--seccomp.keep='' arg)
             (\<lambda>l c. c\<lparr>arg_seccomp := True, cfg_seccomp_list_keep := Some l\<rparr>)
      else if starts_with ''--seccomp.32.keep='' arg
      then seccomp_option w cfg arg_seccomp32 (after_prefix ''--seccomp.32.keep='' arg)
             (\<lambda>l c. c\<lparr>arg_seccomp32 := True, cfg_seccomp_list_keep32 := Some l\<rparr>)
      else if arg = ''--seccomp.block-secondary''
      then with_feature w CFG_SECCOMP ''seccomp''
             (if arg_seccomp32 (pc_seccomp cfg) then refuse ''seccomp.32 conflicts with block-secondary'' arg
              else finish (set_seccomp_cfg cfg (\<lambda>c. c\<lparr>arg_seccomp_block_secondary := True\<rparr>)))
      else None)"

definition option_landlock :: "profile_world \<Rightarrow> string \<Rightarrow> profile_cfg \<Rightarrow> outcome" where
  "option_landlock w arg cfg =
     (if \<not> pw_have w ''HAVE_LANDLOCK'' then None
      else if starts_with ''--landlock.enforce'' arg then finish (set_arg ''arg_landlock_enforce'' 1 cfg)
      else if starts_with ''--landlock.fs.read='' arg
      then finish (ll_add_profile w LL_FS_READ (after_prefix ''--landlock.fs.read='' arg) cfg)
      else if starts_with ''--landlock.fs.write='' arg
      then finish (ll_add_profile w LL_FS_WRITE (after_prefix ''--landlock.fs.write='' arg) cfg)
      else if starts_with ''--landlock.fs.makeipc='' arg
      then finish (ll_add_profile w LL_FS_MAKEIPC (after_prefix ''--landlock.fs.makeipc='' arg) cfg)
      else if starts_with ''--landlock.fs.makedev='' arg
      then finish (ll_add_profile w LL_FS_MAKEDEV (after_prefix ''--landlock.fs.makedev='' arg) cfg)
      else if starts_with ''--landlock.fs.execute='' arg
      then finish (ll_add_profile w LL_FS_EXEC (after_prefix ''--landlock.fs.execute='' arg) cfg)
      else None)"

definition option_filters :: "profile_world \<Rightarrow> string \<Rightarrow> profile_cfg \<Rightarrow> outcome" where
  "option_filters w arg cfg =
     (if arg = ''--memory-deny-write-execute''
      then with_feature w CFG_SECCOMP ''seccomp''
             (finish (set_seccomp_cfg cfg (\<lambda>c. c\<lparr>arg_memory_deny_write_execute := True\<rparr>)))
      else if arg = ''--restrict-namespaces''
      then with_feature w CFG_SECCOMP ''seccomp''
             (after (profile_list_augment (cfg_restrict_namespaces (pc_seccomp cfg)) (Some all_namespaces))
               (\<lambda>l. finish (set_seccomp_cfg cfg
                 (\<lambda>c. c\<lparr>arg_restrict_namespaces := True, cfg_restrict_namespaces := Some l\<rparr>))))
      else if starts_with ''--restrict-namespaces='' arg
      then with_feature w CFG_SECCOMP ''seccomp''
             (after (profile_list_augment (cfg_restrict_namespaces (pc_seccomp cfg))
                      (Some (after_prefix ''--restrict-namespaces='' arg)))
               (\<lambda>l. finish (set_seccomp_cfg cfg (\<lambda>c. c\<lparr>cfg_restrict_namespaces := Some l\<rparr>))))
      else if starts_with ''--seccomp-error-action='' arg
      then with_feature w CFG_SECCOMP ''seccomp''
             (let s = after_prefix ''--seccomp-error-action='' arg in
              if pw_checkcfg w CFG_SECCOMP_ERROR_ACTION = -1
              then after (profile_error_action s) (\<lambda>a. finish (set_seccomp_cfg cfg
                     (\<lambda>c. c\<lparr>arg_seccomp_error_action := a, cfg_seccomp_error_action := Some s\<rparr>)))
              else exit_err_feature ''seccomp-error-action'')
      else if arg = ''--caps''
      then finish (set_arg ''arg_caps_cmdline'' 1 (set_arg ''arg_caps_default_filter'' 1 cfg))
      else if arg = ''--caps.drop=all'' then finish (set_arg ''arg_caps_drop_all'' 1 cfg)
      else if starts_with ''--caps.drop='' arg
      then after (caps_check_list (after_prefix ''--caps.drop='' arg) (\<lambda>_ u. u) ())
             (\<lambda>_. finish (set_arg ''arg_caps_cmdline'' 1 (set_str ''arg_caps_list'' (Some (after_prefix ''--caps.drop='' arg))
               (set_arg ''arg_caps_drop'' 1 cfg))))
      else if starts_with ''--caps.keep='' arg
      then after (caps_check_list (after_prefix ''--caps.keep='' arg) (\<lambda>_ u. u) ())
             (\<lambda>_. finish (set_arg ''arg_caps_cmdline'' 1 (set_str ''arg_caps_list'' (Some (after_prefix ''--caps.keep='' arg))
               (set_arg ''arg_caps_keep'' 1 cfg))))
      else if arg = ''--trace'' then finish (set_arg ''arg_trace'' 1 cfg)
      else if starts_with ''--trace='' arg
      then after (expand_macros (pw_macros w) (after_prefix ''--trace='' arg)) (\<lambda>f.
             if f = [] then refuse ''invalid trace option'' arg
             else after (invalid_filename f False) (\<lambda>_.
               if strstr f ''..'' \<noteq> None \<or> has_cntrl_chars f then refuse ''invalid file name'' f
               else finish (set_str ''arg_tracefile'' (Some f) (set_arg ''arg_trace'' 1 cfg))))
      else if arg = ''--tracelog'' then with_feature w CFG_TRACELOG ''tracelog'' (finish (set_arg ''arg_tracelog'' 1 cfg))
      else None)"

definition option_limits :: "profile_world \<Rightarrow> string \<Rightarrow> profile_cfg \<Rightarrow> outcome" where
  "option_limits w arg cfg =
     (if starts_with ''--rlimit-cpu='' arg
      then unsigned_limit ''rlimit_cpu'' ''arg_rlimit_cpu'' (after_prefix ''--rlimit-cpu='' arg) cfg
      else if starts_with ''--rlimit-nofile='' arg
      then unsigned_limit ''rlimit_nofile'' ''arg_rlimit_nofile'' (after_prefix ''--rlimit-nofile='' arg) cfg
      else if starts_with ''--rlimit-nproc='' arg
      then unsigned_limit ''rlimit_nproc'' ''arg_rlimit_nproc'' (after_prefix ''--rlimit-nproc='' arg) cfg
      else if starts_with ''--rlimit-fsize='' arg
      then size_limit ''rlimit_fsize'' ''arg_rlimit_fsize'' (after_prefix ''--rlimit-fsize='' arg) cfg
      else if starts_with ''--rlimit-sigpending='' arg
      then unsigned_limit ''rlimit_sigpending'' ''arg_rlimit_sigpending'' (after_prefix ''--rlimit-sigpending='' arg) cfg
      else if starts_with ''--rlimit-as='' arg
      then size_limit ''rlimit_as'' ''arg_rlimit_as'' (after_prefix ''--rlimit-as='' arg) cfg
      else if starts_with ''--ipc-namespace'' arg then finish (set_arg ''arg_ipc'' 1 cfg)
      else if starts_with ''--cpu='' arg
      then after (read_cpu_list (after_prefix ''--cpu='' arg) (pc_cpus cfg)) (\<lambda>c. finish (cfg\<lparr>pc_cpus := c\<rparr>))
      else if starts_with ''--nice='' arg
      then (let v = atoi (after_prefix ''--nice='' arg) in
            finish (set_arg ''arg_nice'' 1 (set_arg ''nice'' (if \<not> pw_root w \<and> v < 0 then 0 else v) cfg)))
      else if arg = ''--allusers'' then finish (set_arg ''arg_allusers'' 1 cfg)
      else None)"

text \<open>
  Options that are handled as the profile line of the same name: \<open>profile_check_line\<close> ends firejail when something is
  wrong, its return value is not used, and the line is added to the list.
\<close>

definition line_option :: "profile_world \<Rightarrow> string \<Rightarrow> profile_cfg \<Rightarrow> outcome" where
  "line_option w line cfg = after (profile_check_line w line cfg) (\<lambda>r. finish (profile_add line (snd r)))"

fun line_options :: "profile_world \<Rightarrow> string list \<Rightarrow> string \<Rightarrow> profile_cfg \<Rightarrow> outcome" where
  "line_options w [] arg cfg = None"
| "line_options w (cmd # cmds) arg cfg =
     (let pre = ''--'' @ cmd @ ''='' in
      if starts_with pre arg then line_option w (cmd @ '' '' @ after_prefix pre arg) cfg
      else line_options w cmds arg cfg)"

definition option_files :: "profile_world \<Rightarrow> string \<Rightarrow> profile_cfg \<Rightarrow> outcome" where
  "option_files w arg cfg =
     (if starts_with ''--bind='' arg
      then with_feature w CFG_BIND ''bind'' (line_option w (''bind '' @ after_prefix ''--bind='' arg) cfg)
      else or_else
        (line_options w [''tmpfs'', ''blacklist'', ''noblacklist'', ''whitelist'', ''nowhitelist'', ''mkdir'', ''mkfile'',
           ''read-only'', ''noexec'', ''read-write''] arg cfg)
        (if arg = ''--disable-mnt'' then finish (set_arg ''arg_disable_mnt'' 1 cfg) else None))"

definition option_overlay :: "profile_world \<Rightarrow> string \<Rightarrow> profile_cfg \<Rightarrow> outcome" where
  "option_overlay w arg cfg =
     (if \<not> pw_have w ''HAVE_OVERLAYFS'' then None
      else if arg = ''--overlay''
      then with_feature w CFG_OVERLAYFS ''overlayfs'' (start_overlay cfg arg
             (after (pw_call w ''fs_check_overlay_dir'' (fmt_d (int (pw_pid w)))) (\<lambda>d.
               finish (set_str ''overlay_dir'' (Some d) (set_arg ''arg_overlay_keep'' 1 (set_arg ''arg_overlay'' 1 cfg))))))
      else if starts_with ''--overlay-named='' arg
      then with_feature w CFG_OVERLAYFS ''overlayfs'' (start_overlay cfg arg
             (let subdirname = after_prefix ''--overlay-named='' arg in
              if subdirname = [] then refuse ''invalid overlay option'' arg
              else after (invalid_filename subdirname False) (\<lambda>_.
                if strstr subdirname ''..'' \<noteq> None \<or> strstr subdirname ''/'' \<noteq> None then refuse ''invalid overlay name'' arg
                else after (pw_call w ''fs_check_overlay_dir'' subdirname) (\<lambda>d.
                  finish (set_str ''overlay_dir'' (Some d) (set_arg ''arg_overlay_reuse'' 1
                    (set_arg ''arg_overlay_keep'' 1 (set_arg ''arg_overlay'' 1 cfg))))))))
      else if arg = ''--overlay-tmpfs''
      then with_feature w CFG_OVERLAYFS ''overlayfs'' (start_overlay cfg arg (finish (set_arg ''arg_overlay'' 1 cfg)))
      else None)"

text \<open>\<open>access(f, R_OK) == 0\<close>\<close>

definition accessible :: "profile_world \<Rightarrow> string \<Rightarrow> bool" where
  "accessible w f = (case pw_file w f of NoAccess _ \<Rightarrow> False | _ \<Rightarrow> True)"

text \<open>\<open>profile_find_firejail\<close> with the reading of the file that it finds, and its return value.\<close>

definition find_and_read :: "profile_world \<Rightarrow> string \<Rightarrow> bool \<Rightarrow> profile_cfg \<Rightarrow> (bool \<times> profile_cfg) result" where
  "find_and_read w name add_ext cfg =
     (case profile_find_firejail w name add_ext of
        None \<Rightarrow> Inr (False, cfg)
      | Some f \<Rightarrow> bind_result (profile_read w f cfg) (\<lambda>c. Inr (True, c)))"

definition read_named :: "profile_world \<Rightarrow> string \<Rightarrow> string \<Rightarrow> bool \<Rightarrow> profile_cfg \<Rightarrow> profile_cfg result" where
  "read_named w ppath name add_ext cfg =
     bind_result (find_and_read w name add_ext cfg) (\<lambda>(rv, c).
       if rv then Inr c else Inl (ProfileError ''no profile with name found'' ppath))"

definition include_option :: "profile_world \<Rightarrow> string \<Rightarrow> profile_cfg \<Rightarrow> profile_cfg result" where
  "include_option w s cfg =
     bind_result (expand_macros (pw_macros w) s) (\<lambda>ppath.
       if slash \<in> set ppath then profile_read w ppath cfg
       else if \<not> accessible w ppath then profile_read w ppath cfg
       else read_named w ppath ppath False cfg)"

definition profile_option :: "profile_world \<Rightarrow> string \<Rightarrow> profile_cfg \<Rightarrow> profile_cfg result" where
  "profile_option w s cfg =
     bind_result (expand_macros (pw_macros w) s) (\<lambda>ppath.
     bind_result (invalid_filename ppath False) (\<lambda>_.
       let colon = starts_with '':'' ppath in
       if colon \<or> \<not> accessible w ppath \<or> pw_is_dir w ppath
       then (if slash \<in> set ppath \<or> dot \<in> set ppath then Inl (ProfileError ''inaccessible profile file'' ppath)
             else read_named w ppath (if colon then tl ppath else ppath) True cfg)
       else profile_read w ppath cfg))"

definition option_profile :: "profile_world \<Rightarrow> string \<Rightarrow> profile_cfg \<Rightarrow> outcome" where
  "option_profile w arg cfg =
     (if starts_with ''--include='' arg then after (include_option w (after_prefix ''--include='' arg) cfg) finish
      else if starts_with ''--profile='' arg
      then (if arg_set cfg ''arg_noprofile'' then refuse ''--noprofile and --profile options are mutually exclusive'' arg
            else after (profile_option w (after_prefix ''--profile='' arg) cfg) (\<lambda>c. finish (set_arg ''custom_profile'' 1 c)))
      else if arg = ''--noprofile''
      then (if arg_set cfg ''custom_profile'' then refuse ''--profile and --noprofile options are mutually exclusive'' arg
            else finish (set_arg ''arg_keep_config_pulse'' 1 (set_arg ''arg_noprofile'' 1 cfg)))
      else if starts_with ''--ignore='' arg
      then (if arg_set cfg ''custom_profile'' then refuse ''please use --profile after --ignore'' arg
            else after (profile_add_ignore (after_prefix ''--ignore='' arg) cfg) finish)
      else if starts_with ''--keep-fd='' arg
      then (if after_prefix ''--keep-fd='' arg = ''all'' then finish (set_arg ''arg_keep_fd_all'' 1 cfg)
            else after (profile_list_augment (pc_keep_fd cfg) (Some (after_prefix ''--keep-fd='' arg)))
                   (\<lambda>l. finish (cfg\<lparr>pc_keep_fd := Some l\<rparr>)))
      else if pw_have w ''HAVE_CHROOT'' \<and> starts_with ''--chroot='' arg
      then with_feature w CFG_CHROOT ''chroot''
             (if arg_set cfg ''arg_overlay'' then refuse ''--overlay and --chroot options are mutually exclusive'' arg
              else after (expand_macros (pw_macros w) (after_prefix ''--chroot='' arg)) (\<lambda>d.
                if d = [] then refuse ''invalid chroot option'' arg
                else after (invalid_filename d False) (\<lambda>_.
                  after (pw_call w ''fs_check_chroot_dir'' d) (\<lambda>_. finish (set_str ''chrootdir'' (Some d) cfg)))))
      else None)"

text \<open>Private directories. Every list option refuses an empty argument.\<close>

definition private_option :: "profile_world \<Rightarrow> CFG \<Rightarrow> string \<Rightarrow> string \<Rightarrow> string \<Rightarrow> string \<Rightarrow> profile_cfg \<Rightarrow> outcome" where
  "private_option w c feature flg var s cfg =
     with_feature w c feature
       (if s = [] then refuse ''invalid private option'' feature
        else finish (set_arg flg 1 (set_str var (append_list (pc_strs cfg var) s) cfg)))"

definition option_writable :: "profile_world \<Rightarrow> string \<Rightarrow> profile_cfg \<Rightarrow> outcome" where
  "option_writable w arg cfg =
     (if arg = ''--writable-etc''
      then (if pc_strs cfg ''etc_private_keep'' \<noteq> None
            then refuse ''--private-etc and --writable-etc are mutually exclusive'' arg
            else finish (set_arg ''arg_writable_etc'' 1 cfg))
      else if arg = ''--keep-config-pulse'' then finish (set_arg ''arg_keep_config_pulse'' 1 cfg)
      else if arg = ''--keep-shell-rc'' then finish (set_arg ''arg_keep_shell_rc'' 1 cfg)
      else if arg = ''--writable-var'' then finish (set_arg ''arg_writable_var'' 1 cfg)
      else if arg = ''--keep-var-tmp'' then finish (set_arg ''arg_keep_var_tmp'' 1 cfg)
      else if arg = ''--writable-run-user'' then finish (set_arg ''arg_writable_run_user'' 1 cfg)
      else if arg = ''--writable-var-log'' then finish (set_arg ''arg_writable_var_log'' 1 cfg)
      else if arg = ''--machine-id'' then finish (set_arg ''arg_machineid'' 1 cfg)
      else if arg = ''--private'' then finish (set_arg ''arg_private'' 1 cfg)
      else if starts_with ''--private='' arg
      then (if pc_strs cfg ''home_private_keep'' \<noteq> None
            then refuse ''a private list of files was already defined with --private-home option'' arg
            else if after_prefix ''--private='' arg = [] then refuse ''invalid private option'' arg
            else after (pw_call w ''fs_check_private_dir'' (after_prefix ''--private='' arg)) (\<lambda>d.
              finish (set_arg ''arg_private'' 1
                (set_str ''home_private'' (if d = me_homedir (pw_macros w) then None else Some d) cfg))))
      else if pw_have w ''HAVE_PRIVATE_HOME'' \<and> starts_with ''--private-home='' arg
      then with_feature w CFG_PRIVATE_HOME ''private-home''
             (if pc_strs cfg ''home_private'' \<noteq> None
              then refuse ''a private home directory was already defined with --private option'' arg
              else private_option w CFG_PRIVATE_HOME ''private-home'' ''arg_private'' ''home_private_keep''
                     (after_prefix ''--private-home='' arg) cfg)
      else if arg = ''--private-dev'' then finish (set_arg ''arg_private_dev'' 1 cfg)
      else if arg = ''--keep-dev-ntsync'' then finish (set_arg ''arg_keep_dev_ntsync'' 1 cfg)
      else if arg = ''--keep-dev-shm'' then finish (set_arg ''arg_keep_dev_shm'' 1 cfg)
      else None)"

definition option_private :: "profile_world \<Rightarrow> string \<Rightarrow> profile_cfg \<Rightarrow> outcome" where
  "option_private w arg cfg =
     (if arg = ''--private-etc''
      then with_feature w CFG_PRIVATE_ETC ''private-etc''
             (if arg_set cfg ''arg_writable_etc'' then refuse ''--private-etc and --writable-etc are mutually exclusive'' arg
              else finish (set_arg ''arg_private_etc'' 1 cfg))
      else if starts_with ''--private-etc='' arg
      then with_feature w CFG_PRIVATE_ETC ''private-etc''
             (if arg_set cfg ''arg_writable_etc'' then refuse ''--private-etc and --writable-etc are mutually exclusive'' arg
              else private_option w CFG_PRIVATE_ETC ''private-etc'' ''arg_private_etc'' ''etc_private_keep''
                     (after_prefix ''--private-etc='' arg) cfg)
      else if starts_with ''--private-opt='' arg
      then private_option w CFG_PRIVATE_OPT ''private-opt'' ''arg_private_opt'' ''opt_private_keep''
             (after_prefix ''--private-opt='' arg) cfg
      else if starts_with ''--private-srv='' arg
      then private_option w CFG_PRIVATE_SRV ''private-srv'' ''arg_private_srv'' ''srv_private_keep''
             (after_prefix ''--private-srv='' arg) cfg
      else if starts_with ''--private-bin='' arg
      then private_option w CFG_PRIVATE_BIN ''private-bin'' ''arg_private_bin'' ''bin_private_keep''
             (after_prefix ''--private-bin='' arg) cfg
      else if pw_have w ''HAVE_PRIVATE_LIB'' \<and> starts_with ''--private-lib'' arg
      then with_feature w CFG_PRIVATE_LIB ''private-lib''
             (let r = after_prefix ''--private-lib'' arg;
                  cfg1 = (if starts_with ''='' r \<and> (pc_strs cfg ''lib_private_keep'' = None \<or> tl r \<noteq> [])
                          then set_str ''lib_private_keep'' (append_list (pc_strs cfg ''lib_private_keep'') (tl r)) cfg
                          else cfg) in
              finish (set_arg ''arg_private_lib'' 1 cfg1))
      else if arg = ''--private-tmp'' then finish (set_arg ''arg_private_tmp'' 1 cfg)
      else if pw_have w ''HAVE_USERTMPFS'' \<and> arg = ''--private-cache''
      then with_feature w CFG_PRIVATE_CACHE ''private-cache'' (finish (set_arg ''arg_private_cache'' 1 cfg))
      else if arg = ''--private-cwd'' then finish (set_arg ''arg_private_cwd'' 1 (set_str ''cwd'' None cfg))
      else if starts_with ''--private-cwd='' arg
      then (if after_prefix ''--private-cwd='' arg = [] then refuse ''invalid private-cwd option'' arg
            else after (pw_call w ''fs_check_private_cwd'' (after_prefix ''--private-cwd='' arg))
              (\<lambda>d. finish (set_arg ''arg_private_cwd'' 1 (set_str ''cwd'' (Some d) cfg))))
      else None)"

definition option_names :: "profile_world \<Rightarrow> string \<Rightarrow> profile_cfg \<Rightarrow> outcome" where
  "option_names w arg cfg =
     (if starts_with ''--name='' arg
      then set_sandbox_name ''name'' ''invalid sandbox name'' (after_prefix ''--name='' arg) cfg
      else if starts_with ''--hostname='' arg
      then set_sandbox_name ''hostname'' ''invalid hostname'' (after_prefix ''--hostname='' arg) cfg
      else if arg = ''--nogroups'' then finish (set_arg ''arg_nogroups'' 1 cfg)
      else if pw_have w ''HAVE_USERNS'' \<and> arg = ''--noroot''
      then with_feature w CFG_USERNS ''noroot'' (finish (check_user_namespace w cfg))
      else if arg = ''--nonewprivs'' then finish (set_arg ''arg_nonewprivs'' 1 cfg)
      else if starts_with ''--env='' arg
      then after (env_store (after_prefix ''--env='' arg) SETENV (pc_env cfg)) (\<lambda>e. finish (cfg\<lparr>pc_env := e\<rparr>))
      else if starts_with ''--rmenv='' arg
      then after (env_store (after_prefix ''--rmenv='' arg) RMENV (pc_env cfg)) (\<lambda>e. finish (cfg\<lparr>pc_env := e\<rparr>))
      else if arg = ''--nosound'' then finish (set_arg ''arg_nosound'' 1 cfg)
      else if arg = ''--noautopulse'' then finish (set_arg ''arg_keep_config_pulse'' 1 cfg)
      else if arg = ''--novideo'' then finish (set_arg ''arg_novideo'' 1 cfg)
      else if arg = ''--no3d'' then finish (set_arg ''arg_no3d'' 1 cfg)
      else if arg = ''--noprinters''
      then finish (profile_add ''blacklist /run/cups/cups.sock''
             (profile_add ''blacklist /dev/lp*'' (set_arg ''arg_noprinters'' 1 cfg)))
      else if arg = ''--notv'' then finish (set_arg ''arg_notv'' 1 cfg)
      else if arg = ''--nodvd'' then finish (set_arg ''arg_nodvd'' 1 cfg)
      else if arg = ''--notpm'' then finish (set_arg ''arg_notpm'' 1 cfg)
      else if arg = ''--nou2f'' then finish (set_arg ''arg_nou2f'' 1 cfg)
      else if arg = ''--noinput'' then finish (set_arg ''arg_noinput'' 1 cfg)
      else if arg = ''--nodbus''
      then finish (cfg\<lparr>pc_dbus_user := DBUS_POLICY_BLOCK, pc_dbus_system := DBUS_POLICY_BLOCK\<rparr>)
      else None)"

definition option_dbus :: "profile_world \<Rightarrow> string \<Rightarrow> profile_cfg \<Rightarrow> outcome" where
  "option_dbus w arg cfg =
     (if \<not> pw_have w ''HAVE_DBUSPROXY'' then None
      else if starts_with ''--dbus-user='' arg
      then after (dbus_policy (after_prefix ''--dbus-user='' arg) (arg_set cfg ''arg_dbus_log_user'') (pc_dbus_user cfg))
             (\<lambda>p. finish (cfg\<lparr>pc_dbus_user := p\<rparr>))
      else if starts_with ''--dbus-system='' arg
      then after (dbus_policy (after_prefix ''--dbus-system='' arg) (arg_set cfg ''arg_dbus_log_system'') (pc_dbus_system cfg))
             (\<lambda>p. finish (cfg\<lparr>pc_dbus_system := p\<rparr>))
      else if starts_with ''--dbus-log='' arg
      then (if pc_strs cfg ''arg_dbus_log_file'' \<noteq> None then refuse ''--dbus-log option already specified'' arg
            else finish (set_str ''arg_dbus_log_file'' (Some (after_prefix ''--dbus-log='' arg)) cfg))
      else if arg = ''--dbus-user.log''
      then (if pc_dbus_user cfg \<noteq> DBUS_POLICY_FILTER then refuse ''--dbus-user.log requires --dbus-user=filter'' arg
            else finish (set_arg ''arg_dbus_log_user'' 1 cfg))
      else if arg = ''--dbus-system.log''
      then (if pc_dbus_system cfg \<noteq> DBUS_POLICY_FILTER then refuse ''--dbus-system.log requires --dbus-system=filter'' arg
            else finish (set_arg ''arg_dbus_log_system'' 1 cfg))
      else line_options w
        [''dbus-user.see'', ''dbus-user.talk'', ''dbus-user.own'', ''dbus-user.call'', ''dbus-user.broadcast'',
         ''dbus-system.see'', ''dbus-system.talk'', ''dbus-system.own'', ''dbus-system.call'', ''dbus-system.broadcast''] arg cfg)"

text \<open>Networks. Interfaces are moved into the sandbox; the addresses that they have are read from the kernel.\<close>

definition with_networking :: "profile_world \<Rightarrow> outcome \<Rightarrow> outcome" where
  "with_networking w k = with_feature w CFG_NETWORK ''networking'' k"

definition free_interface :: "profile_cfg \<Rightarrow> string option" where
  "free_interface cfg = find (\<lambda>n. \<not> arg_set cfg (n @ ''.configured'')) [''interface0'', ''interface1'', ''interface2'', ''interface3'']"

definition interface_option :: "profile_world \<Rightarrow> string \<Rightarrow> profile_cfg \<Rightarrow> outcome" where
  "interface_option w dev cfg =
     (if arg_set cfg ''arg_nonetwork'' then refuse ''--network=none and --interface are incompatible'' dev
      else if dev = ''lo'' then refuse ''cannot use lo device in --interface command'' dev
      else after (pw_call w ''if_nametoindex'' dev) (\<lambda>_.
        case free_interface cfg of
          None \<Rightarrow> refuse ''maximum 4 interfaces are allowed'' dev
        | Some n \<Rightarrow>
            finish (set_arg (n @ ''.configured'') 1
              (set_str (n @ ''.addr'') (case pw_call w ''net_get_if_addr'' dev of Inl _ \<Rightarrow> pc_strs cfg (n @ ''.addr'') | Inr a \<Rightarrow> Some a)
                (set_str (n @ ''.dev'') (Some dev) cfg)))))"

definition net_option :: "string \<Rightarrow> profile_cfg \<Rightarrow> outcome" where
  "net_option dev cfg =
     (if dev = ''none'' then finish (net_none cfg)
      else if dev = ''lo'' then refuse ''cannot attach to lo device'' dev
      else case free_bridge cfg of
        None \<Rightarrow> refuse ''maximum 4 network devices are allowed'' dev
      | Some i \<Rightarrow> finish (update_bridge i ((pc_bridges cfg ! i)\<lparr>br_dev := Some dev, br_configured := True\<rparr>) cfg))"

definition option_net :: "profile_world \<Rightarrow> string \<Rightarrow> profile_cfg \<Rightarrow> outcome" where
  "option_net w arg cfg =
     (if arg = ''--net=none'' then finish (net_none cfg)
      else if \<not> pw_have w ''HAVE_NETWORK'' then None
      else if arg = ''--netlock'' then with_networking w (finish (set_arg ''arg_netlock'' 1 cfg))
      else if starts_with ''--netlock='' arg
      then with_networking w (with_pid w (after_prefix ''--netlock='' arg) ''netfilter_netlock'')
      else if starts_with ''--interface='' arg
      then with_networking w (interface_option w (after_prefix ''--interface='' arg) cfg)
      else if starts_with ''--net='' arg then with_networking w (net_option (after_prefix ''--net='' arg) cfg)
      else None)"

definition bridge_option :: "profile_world \<Rightarrow> profile_cfg \<Rightarrow> (Bridge \<Rightarrow> Bridge result) \<Rightarrow> outcome" where
  "bridge_option w cfg f = with_networking w
     (case last_bridge_configured cfg of
        None \<Rightarrow> refuse ''no network device configured'' []
      | Some i \<Rightarrow> after (f (pc_bridges cfg ! i)) (\<lambda>b. finish (update_bridge i b cfg)))"

definition netmask_option :: "string \<Rightarrow> Bridge \<Rightarrow> Bridge result" where
  "netmask_option s br =
     (if br_arg_ip_none br \<or> br_mask br \<noteq> 0
      then Inl (ProfileError ''cannot configure the network mask twice for the same interface'' s)
      else case atoip s of
        None \<Rightarrow> Inl (ProfileError ''invalid  network mask'' s)
      | Some m \<Rightarrow> Inr (br\<lparr>br_mask := m\<rparr>))"

definition option_bridge :: "profile_world \<Rightarrow> string \<Rightarrow> profile_cfg \<Rightarrow> outcome" where
  "option_bridge w arg cfg =
     (if \<not> pw_have w ''HAVE_NETWORK'' then None
      else if starts_with ''--veth-name='' arg then bridge_option w cfg (veth_name (after_prefix ''--veth-name='' arg))
      else if arg = ''--scan'' then with_networking w (finish (set_arg ''arg_scan'' 1 cfg))
      else if starts_with ''--iprange='' arg then bridge_option w cfg (iprange (after_prefix ''--iprange='' arg))
      else if starts_with ''--mac='' arg then bridge_option w cfg (mac_address (after_prefix ''--mac='' arg))
      else if starts_with ''--mtu='' arg then bridge_option w cfg (set_mtu (after_prefix ''--mtu='' arg))
      else if starts_with ''--ip='' arg then bridge_option w cfg (ip_address (after_prefix ''--ip='' arg))
      else if starts_with ''--netmask='' arg then bridge_option w cfg (netmask_option (after_prefix ''--netmask='' arg))
      else if starts_with ''--ip6='' arg then bridge_option w cfg (ip6_address w (after_prefix ''--ip6='' arg))
      else if starts_with ''--defaultgw='' arg
      then with_networking w
             (case atoip (after_prefix ''--defaultgw='' arg) of
                None \<Rightarrow> refuse ''invalid IP address'' arg
              | Some a \<Rightarrow> finish (cfg\<lparr>pc_defaultgw := a\<rparr>))
      else None)"

definition netfilter_option :: "profile_world \<Rightarrow> string \<Rightarrow> string \<Rightarrow> string \<Rightarrow> profile_cfg \<Rightarrow> outcome" where
  "netfilter_option w flg var path cfg = with_networking w
     (after (expand_macros (pw_macros w) path) (\<lambda>f.
      after (pw_call w ''check_netfilter_file'' f) (\<lambda>_. finish (set_str var (Some f) (set_arg flg 1 cfg)))))"

definition option_host :: "profile_world \<Rightarrow> string \<Rightarrow> profile_cfg \<Rightarrow> outcome" where
  "option_host w arg cfg =
     (if starts_with ''--dns='' arg
      then (if \<not> check_ip46_address (pw_inet_pton6 w) (after_prefix ''--dns='' arg)
            then refuse ''invalid DNS server IPv4 or IPv6 address'' arg
            else finish (add_dns (after_prefix ''--dns='' arg) cfg))
      else if starts_with ''--hosts-file='' arg
      then after (pw_call w ''fs_check_hosts_file'' (after_prefix ''--hosts-file='' arg))
             (\<lambda>f. finish (set_str ''hosts_file'' (Some f) cfg))
      else if pw_have w ''HAVE_NETWORK'' \<and> arg = ''--netfilter''
      then with_networking w (finish (set_arg ''arg_netfilter'' 1 cfg))
      else if pw_have w ''HAVE_NETWORK'' \<and> starts_with ''--netfilter='' arg
      then netfilter_option w ''arg_netfilter'' ''arg_netfilter_file'' (after_prefix ''--netfilter='' arg) cfg
      else if pw_have w ''HAVE_NETWORK'' \<and> starts_with ''--netfilter6='' arg
      then netfilter_option w ''arg_netfilter6'' ''arg_netfilter6_file'' (after_prefix ''--netfilter6='' arg) cfg
      else if pw_have w ''HAVE_NETWORK'' \<and> starts_with ''--netns='' arg
      then with_networking w
             (after (pw_call w ''check_netns'' (after_prefix ''--netns='' arg))
               (\<lambda>_. finish (set_str ''arg_netns'' (Some (after_prefix ''--netns='' arg)) cfg)))
      else None)"

definition option_start :: "profile_world \<Rightarrow> string list \<Rightarrow> string \<Rightarrow> profile_cfg \<Rightarrow> outcome" where
  "option_start w rest arg cfg =
     (if starts_with ''--timeout='' arg
      then after (extract_timeout (after_prefix ''--timeout='' arg)) (\<lambda>t. finish (cfg\<lparr>pc_timeout := t\<rparr>))
      else if arg = ''--appimage'' \<or> starts_with ''--oom='' arg then finish cfg
      else if starts_with ''--shell='' arg then refuse ''the shell command has been removed'' arg
      else if arg = ''-c''
      then (if rest = [] then refuse ''option -c requires an argument'' arg else finish (set_arg ''arg_command'' 1 cfg))
      else if arg = ''--x11=none'' then finish (set_arg ''arg_x11_block'' 1 cfg)
      else if pw_have w ''HAVE_X11'' \<and> arg = ''--x11=xorg''
      then with_feature w CFG_X11 ''x11'' (finish (set_arg ''arg_x11_xorg'' 1 cfg))
      else if starts_with ''--join-or-start='' arg
      then set_sandbox_name ''name'' ''invalid sandbox name'' (after_prefix ''--join-or-start='' arg) cfg
      else if arg = ''--deterministic-exit-code'' then finish (set_arg ''arg_deterministic_exit_code'' 1 cfg)
      else if arg = ''--deterministic-shutdown'' then finish (set_arg ''arg_deterministic_shutdown'' 1 cfg)
      else if arg = ''--tab'' then finish (set_arg ''arg_tab'' 1 cfg)
      else None)"

definition option_commands :: "profile_world \<Rightarrow> string list \<Rightarrow> string \<Rightarrow> profile_cfg \<Rightarrow> outcome" where
  "option_commands w rest arg cfg =
     foldr (\<lambda>c. or_else (c w arg cfg))
       [option_debug, option_seccomp, option_landlock, option_filters, option_limits, option_files, option_overlay,
        option_profile, option_writable, option_private, option_names, option_dbus, option_net, option_bridge, option_host]
       (option_start w rest arg cfg)"

subsection \<open>The loop over the arguments\<close>

definition extract_command_name :: "string \<Rightarrow> string result" where
  "extract_command_name str =
     (if slash \<in> set str \<and> gnu_basename str = [] then Inl (ProfileError ''invalid command name'' str)
      else Inr (takeWhile (\<lambda>c. \<not> is_blank c) (gnu_basename str)))"

definition program_name :: "nat \<Rightarrow> string \<Rightarrow> profile_cfg \<Rightarrow> (profile_cfg \<times> nat option) result" where
  "program_name i arg cfg =
     (if arg_set cfg ''arg_appimage'' then Inr (set_str ''command_name'' (Some arg) cfg, Some i)
      else bind_result (extract_command_name arg) (\<lambda>name.
        Inr (set_str ''command_name'' (Some name) (set_arg ''original_program_index'' (int i) cfg), Some i)))"

definition run_command :: "profile_world \<Rightarrow> nat \<Rightarrow> string list \<Rightarrow> string \<Rightarrow> profile_cfg \<Rightarrow> profile_cfg result" where
  "run_command w i rest arg cfg =
     (case run_cmd_and_exit w i rest arg cfg of None \<Rightarrow> Inr cfg | Some r \<Rightarrow> bind_result r (\<lambda>(_, c). Inr c))"

text \<open>The last branch of the loop: an argument that is no option. The second result is \<open>prog_index\<close>.\<close>

definition no_option :: "nat \<Rightarrow> string list \<Rightarrow> string \<Rightarrow> profile_cfg \<Rightarrow> (profile_cfg \<times> nat option) result" where
  "no_option i rest arg cfg =
     (if arg = ''--''
      then (case rest of
              [] \<Rightarrow> Inl (ProfileError ''program name not found'' arg)
            | program # _ \<Rightarrow> program_name (Suc i) program (set_arg ''arg_doubledash'' 1 cfg))
      else if starts_with ''-'' arg then Inl (ProfileError ''invalid command line option'' arg)
      else program_name i arg cfg)"

primrec parse_options :: "profile_world \<Rightarrow> nat \<Rightarrow> string list \<Rightarrow> profile_cfg \<Rightarrow> (profile_cfg \<times> nat option) result" where
  "parse_options w i [] cfg = Inr (cfg, None)"
| "parse_options w i (arg # rest) cfg =
     bind_result (run_command w i rest arg cfg) (\<lambda>cfg.
       case option_commands w rest arg cfg of
         Some r \<Rightarrow> bind_result r (\<lambda>(_, c). parse_options w (Suc i) rest c)
       | None \<Rightarrow> no_option i rest arg cfg)"

subsection \<open>Before the loop\<close>

definition length_checks :: "string list \<Rightarrow> unit result" where
  "length_checks argv =
     (if argv = [] \<or> hd argv = [] then Inl (ProfileError ''argv is invalid'' [])
      else if MAX_ARGS \<le> length argv then Inl (ProfileError ''too many arguments'' [])
      else if list_ex (\<lambda>a. MAX_ARG_LEN \<le> length a) argv then Inl (ProfileError ''too long argument'' [])
      else Inr ())"

text \<open>
  The environment is stored, and refused when it has \<open>MAX_ENVS\<close> settings or more: the loop has then stored
  \<open>MAX_ENVS\<close> of them.
\<close>

definition stash_env :: "string list \<Rightarrow> profile_cfg \<Rightarrow> profile_cfg result" where
  "stash_env envp cfg =
     bind_result (fold_result (\<lambda>s e. env_store s SETENV e) (take MAX_ENVS envp) (pc_env cfg)) (\<lambda>e.
       if MAX_ENVS \<le> length envp then Inl (ProfileError ''too many environment variables'' []) else Inr (cfg\<lparr>pc_env := e\<rparr>))"

definition early_output :: "string list \<Rightarrow> profile_cfg \<Rightarrow> profile_cfg" where
  "early_output argv cfg =
     (let cfg1 = (if check_arg argv ''--quiet'' True \<noteq> 0 \<or> env_get (pc_env cfg) ''FIREJAIL_QUIET'' None = Some ''yes''
                  then set_arg ''arg_quiet'' 1 cfg else cfg) in
      if check_arg argv ''--debug'' True \<noteq> 0 then set_arg ''arg_quiet'' 0 (set_arg ''arg_debug'' 1 cfg1) else cfg1)"

text \<open>The kernel version of \<open>uname\<close>, as \<open>sscanf(u.release, "%d.%d", \<dots>)\<close> reads it, is a parameter.\<close>

definition allow_debuggers :: "(int \<times> int) option \<Rightarrow> profile_cfg \<Rightarrow> profile_cfg result" where
  "allow_debuggers release cfg =
     (case release of
        None \<Rightarrow> Inl (ProfileError ''cannot extract Linux kernel version'' [])
      | Some (major, minor) \<Rightarrow>
          if major < 4 \<or> major = 4 \<and> minor < 8
          then Inl (ProfileError ''--allow-debuggers is disabled on Linux kernels prior to 4.8'' [])
          else Inr (profile_add ''noblacklist ${PATH}/strace'' (set_seccomp_cfg cfg (\<lambda>c. c\<lparr>arg_allow_debuggers := True\<rparr>))))"

definition early_paths :: "string list \<Rightarrow> profile_cfg \<Rightarrow> profile_cfg" where
  "early_paths argv cfg =
     (let i = check_arg argv ''--ip'' False in
      if i \<noteq> 0 \<and> starts_with ''=dhcp'' (drop 4 (argv ! i))
      then profile_add ''noblacklist /usr/sbin'' (profile_add ''noblacklist /sbin'' cfg) else cfg)"

definition early_flags :: "profile_world \<Rightarrow> string list \<Rightarrow> profile_cfg \<Rightarrow> profile_cfg result" where
  "early_flags w argv cfg =
     (let cfg1 = (if check_arg argv ''--appimage'' True \<noteq> 0 then set_arg ''arg_appimage'' 1 cfg else cfg);
          cfg2 = (if pw_checkcfg w CFG_FORCE_NONEWPRIVS \<noteq> 0 then set_arg ''arg_nonewprivs'' 1 cfg1 else cfg1);
          j = check_arg argv ''--oom='' False in
      if j \<noteq> 0 then bind_result (pw_call w ''oom_set'' (drop 6 (argv ! j))) (\<lambda>_. Inr cfg2) else Inr cfg2)"

definition early_options :: "profile_world \<Rightarrow> (int \<times> int) option \<Rightarrow> string list \<Rightarrow> profile_cfg \<Rightarrow> profile_cfg result" where
  "early_options w release argv cfg =
     bind_result (if check_arg argv ''--allow-debuggers'' True \<noteq> 0 then allow_debuggers release (early_paths argv cfg)
                  else Inr (early_paths argv cfg)) (early_flags w argv)"

subsection \<open>After the loop\<close>

definition any_dhcp :: "profile_cfg \<Rightarrow> bool" where
  "any_dhcp cfg \<longleftrightarrow> list_ex br_arg_ip_dhcp (pc_bridges cfg) \<or> list_ex br_arg_ip6_dhcp (pc_bridges cfg)"

definition drop_noroot :: "profile_cfg \<Rightarrow> profile_cfg" where
  "drop_noroot cfg =
     (if arg_set cfg ''arg_noroot'' \<and> (arg_set cfg ''arg_overlay'' \<or> pc_strs cfg ''chrootdir'' \<noteq> None)
      then set_arg ''arg_noroot'' 0 cfg else cfg)"

definition check_options :: "profile_world \<Rightarrow> profile_cfg \<Rightarrow> profile_cfg result" where
  "check_options w cfg =
     (if \<not> pw_root w \<and> arg_set cfg ''arg_caps_cmdline'' \<and>
         (arg_set cfg ''arg_appimage'' \<or> arg_set cfg ''arg_overlay'' \<or> pc_strs cfg ''chrootdir'' \<noteq> None)
      then Inl (ProfileError ''all capabilities are dropped by default'' [])
      else
        (let cfg1 = drop_noroot cfg in
         if arg_set cfg1 ''arg_writable_etc'' \<and> (pc_strs cfg1 ''dns1'' \<noteq> None \<or> any_dhcp cfg1)
         then Inl (ProfileError ''--dns/--ip=dhcp and --writable-etc are mutually exclusive'' [])
         else Inr (if arg_seccomp_block_secondary (pc_seccomp cfg1)
                   then set_seccomp_cfg cfg1 (\<lambda>c. c\<lparr>arg_seccomp := True\<rparr>) else cfg1)))"

text \<open>The profile of an AppImage: the first line of \<open>firecfg.config\<close> that the name of the archive starts with.\<close>

definition to_lower :: "char \<Rightarrow> char" where
  "to_lower c = (let n = of_char c :: nat in if 65 \<le> n \<and> n \<le> 90 then char_of (n + 32) else c)"

definition appimage_find_profile :: "profile_world \<Rightarrow> string \<Rightarrow> profile_cfg \<Rightarrow> (bool \<times> profile_cfg) result" where
  "appimage_find_profile w archive cfg =
     (if archive = [] then Inl AssertFailure
      else case pw_file w (me_sysconfdir (pw_macros w) @ ''/firecfg.config'') of
        ProfileText t \<Rightarrow>
          (let arc = map to_lower (gnu_basename archive);
               names = map (\<lambda>buf. fst (cut_at newline (cstr buf))) (filter (\<lambda>buf. \<not> starts_with ''#'' buf) (fgets_lines 4096 t)) in
           case find (\<lambda>name. starts_with (map to_lower name) arc) names of
             None \<Rightarrow> Inr (False, cfg)
           | Some name \<Rightarrow> find_and_read w name True cfg)
      | _ \<Rightarrow> Inl (CannotOpen ''firecfg.config''))"

text \<open>The command to run and its profile, with \<open>default.profile\<close>, or \<open>server.profile\<close> for root, as the default.\<close>

definition set_command :: "profile_world \<Rightarrow> string \<Rightarrow> nat option \<Rightarrow> profile_cfg \<Rightarrow> profile_cfg result" where
  "set_command w usershell prog_index cfg =
     (case prog_index of
        None \<Rightarrow>
          if arg_set cfg ''arg_appimage'' then Inl (ProfileError ''no appimage archive specified'' [])
          else Inr (set_str ''command_name'' (Some usershell) (set_arg ''just_run_the_shell'' 1 cfg))
      | Some _ \<Rightarrow>
          if arg_set cfg ''arg_appimage''
          then (case pc_strs cfg ''command_name'' of
                  None \<Rightarrow> Inl AssertFailure
                | Some name \<Rightarrow> bind_result (pw_call w ''appimage_set'' name) (\<lambda>_. Inr cfg))
          else Inr cfg)"

definition DEFAULT_USER_PROFILE :: string where "DEFAULT_USER_PROFILE = ''default''"
definition DEFAULT_ROOT_PROFILE :: string where "DEFAULT_ROOT_PROFILE = ''server''"

definition default_profile :: "profile_world \<Rightarrow> profile_cfg \<Rightarrow> profile_cfg result" where
  "default_profile w cfg =
     bind_result (find_and_read w (if pw_root w then DEFAULT_ROOT_PROFILE else DEFAULT_USER_PROFILE) True cfg) (\<lambda>(found, c).
       if found then Inr (set_arg ''custom_profile'' 1 c) else Inl (ProfileError ''no profile installed'' []))"

definition load_profile :: "profile_world \<Rightarrow> profile_cfg \<Rightarrow> profile_cfg result" where
  "load_profile w cfg =
     (case pc_strs cfg ''command_name'' of
        None \<Rightarrow> Inl AssertFailure
      | Some name \<Rightarrow>
          if arg_set cfg ''arg_noprofile'' \<or> arg_set cfg ''custom_profile'' then Inr cfg
          else bind_result
            (if arg_set cfg ''arg_appimage'' then appimage_find_profile w name cfg else find_and_read w name True cfg)
            (\<lambda>(found, c). if found then Inr (set_arg ''custom_profile'' 1 c) else default_profile w c))"

subsection \<open>Before the sandbox is cloned\<close>

definition augment_default :: "string option \<Rightarrow> bool \<Rightarrow> string option \<Rightarrow> string option result" where
  "augment_default add on list =
     (case add of
        None \<Rightarrow> Inr list
      | Some items \<Rightarrow> if on then bind_result (profile_list_augment list (Some items)) (\<lambda>l. Inr (Some l)) else Inr list)"

definition add_default_filters :: "string option \<Rightarrow> seccomp_cfg \<Rightarrow> seccomp_cfg result" where
  "add_default_filters add c =
     bind_result (augment_default add
         (arg_seccomp c \<and> cfg_seccomp_list_keep c = None \<and> cfg_seccomp_list_drop c = None) (cfg_seccomp_list c)) (\<lambda>l.
     bind_result (augment_default add
         (arg_seccomp32 c \<and> cfg_seccomp_list_keep32 c = None \<and> cfg_seccomp_list_drop32 c = None) (cfg_seccomp_list32 c)) (\<lambda>l32.
       Inr (c\<lparr>cfg_seccomp_list := l, cfg_seccomp_list32 := l32\<rparr>)))"

definition SIGCHLD :: u32 where "SIGCHLD = 17"

definition any_interface_configured :: "profile_cfg \<Rightarrow> bool" where
  "any_interface_configured cfg \<longleftrightarrow>
     arg_set cfg ''interface0.configured'' \<or> arg_set cfg ''interface1.configured'' \<or> arg_set cfg ''interface2.configured'' \<or>
     arg_set cfg ''interface3.configured''"

definition clone_flags :: "profile_world \<Rightarrow> profile_cfg \<Rightarrow> u32" where
  "clone_flags w cfg =
     CLONE_NEWNS OR CLONE_NEWPID OR CLONE_NEWUTS OR SIGCHLD OR
     (if pw_root w \<or> arg_set cfg ''arg_ipc'' then CLONE_NEWIPC else 0) OR
     (if any_bridge_configured cfg \<or> any_interface_configured cfg \<or> arg_set cfg ''arg_nonetwork'' then CLONE_NEWNET else 0)"

text \<open>\<open>x11_block\<close>; \<open>sockets\<close> is whether \<open>/proc/net/unix\<close> has an abstract X11 socket.\<close>

definition add_line :: "profile_world \<Rightarrow> string \<Rightarrow> profile_cfg \<Rightarrow> profile_cfg result" where
  "add_line w line cfg = bind_result (profile_check_line w line cfg) (\<lambda>r. Inr (profile_add line (snd r)))"

definition x11_block :: "profile_world \<Rightarrow> bool \<Rightarrow> profile_cfg \<Rightarrow> profile_cfg result" where
  "x11_block w sockets cfg =
     (if \<not> pw_have w ''HAVE_X11'' then Inr cfg
      else if \<not> arg_set cfg ''arg_nonetwork'' \<and> pc_strs cfg ''arg_netns'' = None \<and> \<not> br_configured (pc_bridges cfg ! 0) \<and>
              \<not> arg_set cfg ''interface0.configured'' \<and> sockets
      then Inl (ProfileError ''--x11=none specified, but abstract X11 socket still accessible'' [])
      else bind_result (add_line w ''blacklist /tmp/.X11-unix'' cfg) (\<lambda>cfg.
           bind_result (add_line w ''blacklist ${HOME}/.Xauthority'' cfg) (\<lambda>cfg.
           bind_result (case env_get (pc_env cfg) ''XAUTHORITY'' None of
                          None \<Rightarrow> Inr cfg | Some f \<Rightarrow> add_line w (''blacklist '' @ f) cfg) (\<lambda>cfg.
           bind_result (env_store ''DISPLAY'' RMENV (pc_env cfg)) (\<lambda>e.
           bind_result (env_store ''XAUTHORITY'' RMENV e) (\<lambda>e. Inr (cfg\<lparr>pc_env := e\<rparr>)))))))"

text \<open>\<open>check_postexec\<close>\<close>

definition check_postexec :: "(string \<Rightarrow> bool) \<Rightarrow> string option \<Rightarrow> bool result" where
  "check_postexec defd list =
     (case list of
        None \<Rightarrow> Inr False
      | Some l \<Rightarrow>
          if l = [] then Inr False
          else bind_result (syscalls_in_list defd l ''@default-keep'' True) (\<lambda>(_, postlist). Inr (postlist \<noteq> None)))"

definition last_adjustments :: "(string \<Rightarrow> bool) \<Rightarrow> string option \<Rightarrow> profile_cfg \<Rightarrow> profile_cfg result" where
  "last_adjustments defd add cfg =
     bind_result (add_default_filters add (pc_seccomp cfg)) (\<lambda>c.
     bind_result (if arg_seccomp c
                  then bind_result (check_postexec defd (cfg_seccomp_list c)) (\<lambda>p.
                         if p then Inr True else check_postexec defd (cfg_seccomp_list_drop c))
                  else Inr (arg_set cfg ''arg_seccomp_postexec'')) (\<lambda>post.
       Inr (drop_noroot (set_arg ''arg_seccomp_postexec'' (if post then 1 else 0) (cfg\<lparr>pc_seccomp := c\<rparr>)))))"

subsection \<open>From the arguments to the configuration of the sandbox\<close>

text \<open>What \<open>main\<close> finds out about the system besides \<open>profile_world\<close>.\<close>

record startup_world =
  sw_profile :: profile_world
  sw_release :: "(int \<times> int) option"
  sw_usershell :: string
  sw_x11_sockets :: bool
  sw_filter_add :: "string option"
  sw_syscalls :: "string \<Rightarrow> bool"

text \<open>
  \<open>main\<close> from its first line to the call of \<open>clone\<close>. Left out are the run of other programs instead of a sandbox, as in
  a restricted shell, the directories below \<open>/run\<close>, and the checks of the network, which change only the addresses of
  the devices.
\<close>

definition startup_options :: "startup_world \<Rightarrow> string list \<Rightarrow> string list \<Rightarrow> profile_cfg \<Rightarrow> (profile_cfg \<times> nat option) result" where
  "startup_options sw envp argv cfg =
     bind_result (length_checks argv) (\<lambda>_.
     bind_result (stash_env envp cfg) (\<lambda>cfg.
     bind_result (early_options (sw_profile sw) (sw_release sw) argv (early_output argv cfg)) (\<lambda>cfg.
       parse_options (sw_profile sw) 1 (tl argv) cfg)))"

definition startup_profile :: "startup_world \<Rightarrow> nat option \<Rightarrow> profile_cfg \<Rightarrow> profile_cfg result" where
  "startup_profile sw prog_index cfg =
     bind_result (check_options (sw_profile sw) cfg) (\<lambda>cfg.
     bind_result (set_command (sw_profile sw) (sw_usershell sw) prog_index cfg) (\<lambda>cfg.
     bind_result (load_profile (sw_profile sw) cfg) (\<lambda>cfg.
     bind_result (if arg_set cfg ''arg_x11_block'' then x11_block (sw_profile sw) (sw_x11_sockets sw) cfg else Inr cfg) (\<lambda>cfg.
       last_adjustments (sw_syscalls sw) (sw_filter_add sw) cfg))))"

definition startup :: "startup_world \<Rightarrow> string list \<Rightarrow> string list \<Rightarrow> profile_cfg \<Rightarrow> profile_cfg result" where
  "startup sw envp argv cfg =
     bind_result (startup_options sw envp argv cfg) (\<lambda>(cfg, prog_index). startup_profile sw prog_index cfg)"

end
