(* ===== verification/Profile_Theorems.thy ===== *)
theory Profile_Theorems
  imports Profile_Steps
begin

text \<open>
  What the profile parser guarantees: the invariants of the configuration, the depth of includes, the file names that
  are kept for the file system, and the way of a \<open>seccomp.drop\<close> line and of \<open>protocol\<close> lines to the filters that the
  sandbox loads.
\<close>

subsection \<open>An example\<close>

definition plain_bridge :: Bridge where
  "plain_bridge = \<lparr>br_dev = None, br_mask = 0, br_mtu = 0, br_veth_name = None, br_ipsandbox = 0, br_masksandbox = 0,
     br_ip6sandbox = None, br_macsandbox = [0, 0, 0, 0, 0, 0], br_iprange_start = 0, br_iprange_end = 0,
     br_arg_ip_none = False, br_arg_ip_dhcp = False, br_arg_ip6_dhcp = False, br_configured = False\<rparr>"

definition plain_cfg :: profile_cfg where
  "plain_cfg = \<lparr>pc_args = \<lambda>_. 0, pc_strs = \<lambda>_. None, pc_rlimits = \<lambda>_. 0, pc_timeout = 0, pc_cpus = 0, pc_defaultgw = 0,
     pc_seccomp = demo_cfg, pc_env = [], pc_profile = [], pc_ignore = [],
     pc_bridges = [plain_bridge, plain_bridge, plain_bridge, plain_bridge], pc_landlock = [], pc_keep_fd = None,
     pc_dbus_user = DBUS_POLICY_ALLOW, pc_dbus_system = DBUS_POLICY_ALLOW\<rparr>"

definition plain_world :: "(string \<Rightarrow> string option) \<Rightarrow> profile_world" where
  "plain_world fs = \<lparr>pw_checkcfg = \<lambda>c. if c = CFG_SECCOMP_ERROR_ACTION then -1 else 1, pw_have = \<lambda>_. True, pw_root = False,
     pw_userns = True, pw_pid = 1000,
     pw_macros = \<lparr>me_homedir = ''/home/u'', me_uid = 1000, me_sysconfdir = ''/etc/firejail'', me_user_dirs = None,
       me_exists = \<lambda>_. False\<rparr>,
     pw_inet_pton6 = \<lambda>_. False, pw_is_link = \<lambda>_. False, pw_is_dir = \<lambda>_. False, pw_sandbox_exists = \<lambda>_. False,
     pw_error_action_str = None, pw_call = \<lambda>_ s. Inr s,
     pw_file = \<lambda>f. case fs f of None \<Rightarrow> NoAccess False | Some t \<Rightarrow> ProfileText t, pw_dir = \<lambda>_. None\<rparr>"

lemma plain_cfg_ok: "config_ok plain_cfg"
  by (simp add: config_ok_def plain_cfg_def plain_bridge_def bridge_ok_def seccomp_ok_def demo_cfg_def clean_list_def
      augmented.unset)

subsection \<open>Reading a line of a file\<close>

text \<open>A word that survives the cleaning of a line, and a path that can be included.\<close>

definition plain_word :: "string \<Rightarrow> bool" where
  "plain_word p \<longleftrightarrow> p \<noteq> [] \<and> list_all (\<lambda>c. c \<notin> {space, tab, newline, cr, CHR ''#'', NUL}) p"

lemma fgets_single:
  assumes "newline \<notin> set l" "length l + 1 < sz"
  shows "fgets_lines sz (l @ [newline]) = [l @ [newline]]"
  using fgets_lines_concat [of sz "[l]"] assms by simp

lemma two_words:
  assumes "plain_word a" "plain_word b"
  shows "line_remove_spaces (fst (cut_at (CHR ''#'') (cstr (a @ space # b @ [newline])))) = Some (a @ space # b)"
proof -
  let ?l = "a @ space # b @ [newline]"
  have n: "NUL \<notin> set ?l" "CHR ''#'' \<notin> set ?l" using assms by (auto simp: plain_word_def list_all_iff)
  then have c: "cstr ?l = ?l" by (auto simp: cstr_def takeWhile_eq_all_conv)
  have "takeWhile (\<lambda>c. c \<noteq> newline \<and> c \<noteq> cr) ?l = a @ space # b"
  proof -
    have "takeWhile (\<lambda>c. c \<noteq> newline \<and> c \<noteq> cr) ((a @ space # b) @ [newline]) = a @ space # b"
      using assms by (subst takeWhile_append2) (auto simp: plain_word_def list_all_iff)
    then show ?thesis by simp
  qed
  moreover have "map (\<lambda>c. if c = tab then space else c) (a @ space # b) = a @ space # b"
    using assms by (intro map_idI) (auto simp: plain_word_def list_all_iff)
  ultimately have "first_line ?l = a @ space # b" by (simp only: first_line_def)
  moreover have "space \<notin> set a \<and> a \<noteq> []" "space \<notin> set b \<and> b \<noteq> []" using assms by (auto simp: plain_word_def list_all_iff)
  then have "strtok space (a @ space # b) = [a, b]" by (simp add: strtok_word_sep strtok_word)
  ultimately show ?thesis
    by (simp add: c cut_at_no_sep [OF n(2)] line_remove_spaces_words)
qed

subsection \<open>The depth of includes\<close>

definition include_path :: "string \<Rightarrow> bool" where
  "include_path p \<longleftrightarrow> plain_word p \<and> hd p = slash \<and> length p < 8000 \<and> invalid_filename p False = Inr () \<and>
     gnu_basename p \<notin> {''disable-devel.inc'', ''disable-shell.inc''}"

lemma demo_path: "include_path ''/p''"
  by (simp add: include_path_def plain_word_def gnu_basename_def invalid_filename_def starts_with_def macro_id_def macro_table_def
      reject_meta_chars_def reject_cntrl_chars_def has_cntrl_chars_def iscntrl_def meta_chars_def)

text \<open>A file of a single include line.\<close>

definition includes_only :: "profile_world \<Rightarrow> string \<Rightarrow> string \<Rightarrow> bool" where
  "includes_only w f g \<longleftrightarrow> pw_file w f = ProfileText (''include '' @ g @ [newline])"

lemma expand_slash:
  assumes "p \<noteq> []" "hd p = slash"
  shows "expand_macros env p = Inr p"
proof -
  have "\<not> starts_with (CHR ''$'' # r) p" for r using assms by (cases p) (auto simp: starts_with_def)
  moreover have "macro_id p = None"
    using assms macro_id_chars [of p] by (cases "macro_id p") (auto simp: macro_table_def)
  ultimately show ?thesis using assms by (simp add: expand_macros_def resolve_macro_def)
qed

lemma starts_with_append: "starts_with pre (pre @ s)" and after_prefix_append: "after_prefix pre (pre @ s) = s"
  by (simp_all add: starts_with_def after_prefix_def)

lemma include_line:
  assumes "include_path p" "pc_ignore cfg = []"
  shows "profile_line rd w (''include '' @ p @ [newline]) cfg = rd p cfg"
proof -
  have p: "plain_word p" "p \<noteq> []" "hd p = slash" "slash \<in> set p"
    using assms(1) by (cases p; auto simp: include_path_def plain_word_def)+
  have i: "plain_word ''include''" by (simp add: plain_word_def)
  have "line_remove_spaces (fst (cut_at (CHR ''#'') (cstr (''include '' @ p @ [newline])))) = Some (''include '' @ p)"
    using two_words [OF i p(1)] by simp
  moreover have "\<not> starts_with ''whitelist-ro '' (''include '' @ p)" "''include '' @ p \<noteq> ''quiet''" "''include '' @ p \<noteq> []"
    by (simp_all add: starts_with_def)
  moreover have "\<not> is_in_ignore_list cfg x" for x by (simp add: is_in_ignore_list_def assms(2))
  ultimately show ?thesis
    unfolding profile_line_def
    by (simp only: option.case if_False if_True starts_with_append after_prefix_append expand_slash [OF p(2,3)] bind_result.simps
        include_file_def p(4) simp_thms)
qed

lemma read_include:
  assumes "includes_only w f g" "include_path f" "include_path g" "\<not> pw_is_dir w f" "pc_ignore cfg = []"
  shows "profile_read_level (Suc n) w f cfg =
    profile_read_level n w g (if n = MAX_INCLUDE_LEVEL then set_str ''profile_run_file'' (Some f) cfg else cfg)"
proof -
  have "profile_open w f cfg = Inr (Some (''include '' @ g @ [newline]))"
    using assms by (auto simp: profile_open_def include_path_def plain_word_def includes_only_def skipped_file_def)
  moreover have "fgets_lines MAX_READ ((''include '' @ g) @ [newline]) = [(''include '' @ g) @ [newline]]"
    using assms(3) by (intro fgets_single) (auto simp: include_path_def plain_word_def list_all_iff MAX_READ_def)
  moreover have "pc_ignore (if b then set_str x y cfg else cfg) = []" for b x y using assms(5) by (simp add: set_str_def)
  note include_line [OF assms(3) this, of "profile_read_level n w" w]
  ultimately show ?thesis by (simp add: fold_result_Nil)
qed

lemma read_include_chain:
  assumes "\<And>i. i \<le> k \<Longrightarrow> include_path (f i) \<and> \<not> pw_is_dir w (f i)" "\<And>i. i < k \<Longrightarrow> includes_only w (f i) (f (Suc i))" "pc_ignore cfg = []"
    and "n \<le> MAX_INCLUDE_LEVEL"
  shows "j \<le> k \<Longrightarrow> j \<le> n \<Longrightarrow> profile_read_level n w (f 0) cfg = profile_read_level (n - j) w (f j) cfg"
proof (induction j)
  case (Suc j)
  then obtain m where m: "n - j = Suc m" by (cases "n - j") auto
  then have "m \<noteq> MAX_INCLUDE_LEVEL" "n - Suc j = m" using assms(4) by auto
  with Suc m read_include [of w "f j" "f (Suc j)" cfg m] assms show ?case by (simp add: Suc_le_eq)
qed simp

text \<open>
  C16. Includes of any depth come to an end: along a chain of profiles each of which includes the next one, the file at
  depth 16 is still read, with the configuration unchanged on the way, and at depth 17 firejail stops with the error of
  the include level. A profile that includes itself is such a chain without an end.
\<close>

theorem profile_include_depth:
  assumes "\<And>i. i \<le> k \<Longrightarrow> include_path (f i) \<and> \<not> pw_is_dir w (f i)" "\<And>i. i < k \<Longrightarrow> includes_only w (f i) (f (Suc i))"
    and "pc_ignore cfg = []" "0 < k"
  shows "profile_read w (f 0) cfg =
    (if k \<le> MAX_INCLUDE_LEVEL
     then profile_read_level (Suc (MAX_INCLUDE_LEVEL - k)) w (f k) (set_str ''profile_run_file'' (Some (f 0)) cfg)
     else Inl (ProfileError ''maximum profile include level was reached'' (f (Suc MAX_INCLUDE_LEVEL))))"
proof -
  let ?cfg = "set_str ''profile_run_file'' (Some (f 0)) cfg" and ?g = "\<lambda>i. f (Suc i)"
  have c: "pc_ignore ?cfg = []" using assms(3) by (simp add: set_str_def)
  have first: "profile_read w (f 0) cfg = profile_read_level MAX_INCLUDE_LEVEL w (?g 0) ?cfg"
    using read_include [of w "f 0" "f 1" cfg MAX_INCLUDE_LEVEL] assms by (simp add: profile_read_def)
  have chain: "profile_read_level MAX_INCLUDE_LEVEL w (?g 0) ?cfg = profile_read_level (MAX_INCLUDE_LEVEL - j) w (?g j) ?cfg"
    if "j \<le> k - 1" "j \<le> MAX_INCLUDE_LEVEL" for j
    using assms(1,2,4) that by (intro read_include_chain [where k = "k - 1" and f = ?g, OF _ _ c]) auto
  show ?thesis
  proof (cases "k \<le> MAX_INCLUDE_LEVEL")
    case True
    then have "MAX_INCLUDE_LEVEL - (k - 1) = Suc (MAX_INCLUDE_LEVEL - k)" using assms(4) by simp
    with True first chain [of "k - 1"] assms(4) show ?thesis by simp
  next
    case False
    with first chain [of MAX_INCLUDE_LEVEL] show ?thesis by simp
  qed
qed

theorem profile_include_depth_witness:
  "profile_read (plain_world [''/p'' \<mapsto> ''include /p'' @ [newline]]) ''/p'' plain_cfg =
     Inl (ProfileError ''maximum profile include level was reached'' ''/p'')"
proof -
  let ?w = "plain_world [''/p'' \<mapsto> ''include /p'' @ [newline]]"
  have "includes_only ?w ''/p'' ''/p''" by (simp add: includes_only_def plain_world_def)
  with demo_path show ?thesis
    using profile_include_depth [of 17 "\<lambda>_. ''/p''" ?w plain_cfg]
    by (simp add: plain_world_def plain_cfg_def MAX_INCLUDE_LEVEL_def)
qed

subsection \<open>A profile of one line\<close>

lemma append_sep_eq: "c \<notin> set a \<Longrightarrow> c \<notin> set p \<Longrightarrow> a @ c # b = p @ c # d \<longleftrightarrow> a = p \<and> b = d"
proof (induction a arbitrary: p)
  case (Cons x a)
  then show ?case by (cases p) auto
qed (auto simp: Cons_eq_append_conv)

lemma single_line_profile:
  assumes "pw_file w f = ProfileText (a @ space # b @ [newline])" "plain_word a" "plain_word b" "length a + length b < 8000"
    and f: "include_path f" "\<not> pw_is_dir w f"
    and a: "a \<notin> {''whitelist-ro'', ''include''}"
  shows "profile_read w f cfg = bind_result (profile_check_line w (a @ space # b) (set_str ''profile_run_file'' (Some f) cfg))
     (\<lambda>(add, cfg'). Inr (if add then profile_add (a @ space # b) cfg' else cfg'))"
proof -
  have "profile_open w f cfg = Inr (Some (a @ space # b @ [newline]))"
    using assms by (auto simp: profile_open_def include_path_def plain_word_def skipped_file_def)
  moreover have "fgets_lines MAX_READ ((a @ space # b) @ [newline]) = [(a @ space # b) @ [newline]]"
    using assms(2,3,4) by (intro fgets_single) (auto simp: plain_word_def list_all_iff MAX_READ_def)
  moreover have n: "\<not> starts_with (p @ '' '') (a @ space # b)" if "plain_word p" "a \<noteq> p" for p
  proof
    assume "starts_with (p @ '' '') (a @ space # b)"
    then have "a @ space # b = p @ space # drop (Suc (length p)) (a @ space # b)"
      by (metis append.assoc append_Cons append_Nil append_take_drop_id length_append_singleton starts_with_def)
    moreover have "space \<notin> set a" "space \<notin> set p" using assms(2) that(1) by (auto simp: plain_word_def list_all_iff)
    ultimately show False using that(2) append_sep_eq [of space a p] by metis
  qed
  have "\<not> starts_with ''whitelist-ro '' (a @ space # b)" "\<not> starts_with ''include '' (a @ space # b)"
    using n [of "''whitelist-ro''"] n [of "''include''"] a by (simp_all add: plain_word_def)
  moreover have "a @ space # b \<noteq> ''quiet''"
  proof
    assume "a @ space # b = ''quiet''"
    then have "space \<in> set ''quiet''" by (metis in_set_conv_decomp)
    then show False by simp
  qed
  ultimately show ?thesis
    using two_words [OF assms(2,3)]
    by (simp add: profile_read_def profile_line_def fold_result_Nil)
qed

subsection \<open>Invariants\<close>

lemma demo_read:
  "profile_read (plain_world [''/p'' \<mapsto> ''dbus-user none'' @ [newline]]) ''/p'' plain_cfg =
     Inr ((set_str ''profile_run_file'' (Some ''/p'') plain_cfg)\<lparr>pc_dbus_user := DBUS_POLICY_BLOCK\<rparr>)"
proof -
  let ?w = "plain_world [''/p'' \<mapsto> ''dbus-user none'' @ [newline]]"
  have "profile_check_line ?w ''dbus-user none'' cfg = Inr (False, cfg\<lparr>pc_dbus_user := DBUS_POLICY_BLOCK\<rparr>)"
    if "pc_ignore cfg = []" "pc_args cfg = (\<lambda>_. 0)" for cfg
    using that by (simp add: profile_check_line.simps parse_conditional_def is_in_ignore_list_def profile_commands_def or_else_def
        check_names_def check_flags_def check_dbus_def starts_with_def after_prefix_def outcome_defs plain_world_def dbus_policy_def
        arg_set_def)
  with single_line_profile [of ?w "''/p''" "''dbus-user''" "''none''" plain_cfg] demo_path show ?thesis
    by (simp add: plain_word_def plain_world_def plain_cfg_def set_str_def)
qed

text \<open>
  Whatever the profiles contain, the configuration stays well formed: four network devices, each with an MTU between
  576 and 9198 or none, with a nonempty address range or none and with a unicast MAC address; at most 32 nonempty ignore
  entries; protocol, namespace and file descriptor lists that were built by the list functions, without duplicates or
  empty items; and system call lists of the permitted characters only.
\<close>

theorem profile_read_config_ok:
  assumes "config_ok cfg" "profile_read w fname cfg = Inr cfg'"
  shows "config_ok cfg'"
  using config_steps_ok [OF profile_read_steps [OF assms(2)] assms(1)] .

theorem profile_read_config_ok_witness:
  "config_ok ((set_str ''profile_run_file'' (Some ''/p'') plain_cfg)\<lparr>pc_dbus_user := DBUS_POLICY_BLOCK\<rparr>)"
  by (rule profile_read_config_ok [OF plain_cfg_ok demo_read])



subsection \<open>From profile lines to filters\<close>

text \<open>
  The protocol filter of a sandbox configured by profiles never overruns the array of fseccomp: whatever
  \<open>protocol\<close> lines the profiles and their includes have, the list that firejail hands to fseccomp fits.
\<close>

theorem profile_protocols_fit:
  assumes "config_ok cfg" "profile_read w fname cfg = Inr cfg'" "cfg_protocol (pc_seccomp cfg') = Some prlist"
  shows "protocol_build_filter env prlist out \<noteq> Inl BufferOverflow"
proof -
  have "config_ok cfg'" using config_steps_ok [OF profile_read_steps [OF assms(2)] assms(1)] .
  with assms(3) have "augmented (Some prlist)" by (simp add: config_ok_def seccomp_ok_def)
  then show ?thesis by (rule configured_protocols_fit)
qed

lemma seccomp_command_line:
  assumes "parse_conditional w cfg l = NoCondition" "\<not> is_in_ignore_list cfg l"
    and "check_names w l cfg = None" "check_flags w l cfg = None" "check_dbus w l cfg = None" "check_net w l cfg = None"
      "check_bridge w l cfg = None" "check_apparmor w l cfg = None" "check_seccomp w l cfg = finish c"
  shows "profile_check_line w l cfg = Inr (False, c)"
  using assms by (simp add: profile_check_line.simps [of w l] profile_commands_def or_else_def finish_def)

lemma drop_line:
  assumes "pc_ignore cfg = []" "pw_checkcfg w CFG_SECCOMP \<noteq> 0" "seccomp_check_list s = Inr l"
  shows "profile_check_line w (''seccomp.drop '' @ s) cfg =
    Inr (False, set_seccomp_cfg cfg (\<lambda>c. c\<lparr>arg_seccomp := True, cfg_seccomp_list_drop := Some l\<rparr>))"
  by (rule seccomp_command_line)
    (simp_all add: check_names_def check_flags_def check_dbus_def check_net_def check_bridge_def check_apparmor_def starts_with_def
      check_seccomp_def seccomp_list_def with_cfg_def after_def after_prefix_def parse_conditional_def is_in_ignore_list_def assms)

theorem profile_protocols_fit_witness:
  "\<exists>cfg'. profile_read (plain_world [''/p'' \<mapsto> ''protocol unix,inet,unix'' @ [newline]]) ''/p'' plain_cfg = Inr cfg' \<and>
     cfg_protocol (pc_seccomp cfg') = Some ''unix,inet'' \<and> protocol_build_filter demo_env ''unix,inet'' ''f'' \<noteq> Inl BufferOverflow"
proof -
  let ?w = "plain_world [''/p'' \<mapsto> ''protocol unix,inet,unix'' @ [newline]]"
  let ?c = "set_seccomp_cfg (set_str ''profile_run_file'' (Some ''/p'') plain_cfg) (cfg_protocol_update (\<lambda>_. Some ''unix,inet''))"
  have "profile_list_augment (Some []) (Some ''unix,inet,unix'') = Inr ''unix,inet''"
    by (subst augment_eval; simp add: strtok_def compress_items_def apply_item_def add_item_def MAX_LIST_def)
  then have "profile_list_augment None (Some ''unix,inet,unix'') = Inr ''unix,inet''" by (simp add: augment_unset)
  then have "profile_check_line ?w ''protocol unix,inet,unix'' (set_str ''profile_run_file'' (Some ''/p'') plain_cfg) = Inr (False, ?c)"
    by (intro seccomp_command_line)
      (simp_all add: check_names_def check_flags_def check_dbus_def check_net_def check_bridge_def check_apparmor_def starts_with_def
        check_seccomp_def with_cfg_def after_def after_prefix_def parse_conditional_def is_in_ignore_list_def plain_world_def
        plain_cfg_def set_str_def demo_cfg_def)
  with single_line_profile [of ?w "''/p''" "''protocol''" "''unix,inet,unix''" plain_cfg] demo_path
  have r: "profile_read ?w ''/p'' plain_cfg = Inr ?c" by (simp add: plain_word_def plain_world_def)
  moreover have p: "cfg_protocol (pc_seccomp ?c) = Some ''unix,inet''" by (simp add: set_seccomp_cfg_def)
  ultimately show ?thesis using profile_protocols_fit [OF plain_cfg_ok r p, of demo_env "''f''"] by blast
qed

text \<open>
  C1. \<open>seccomp.drop list\<close>, from the line of a profile to the verdict of the kernel: reading the profile configures the
  list, firejail runs fseccomp and fsec-optimize with it and loads the result, and the loaded filter refuses, with the
  configured action, exactly the listed calls that have a name, are not excluded and are not needed for the exec. (For
  a list of entries without error names that is short enough for the jump offsets.)
\<close>

theorem profile_drop_verdicts:
  assumes "bpf_vm run" "\<And>f. w_open w f > 0" "\<And>n. w_write w n = int n"
    and prof: "pw_file pw fname = ProfileText (''seccomp.drop '' @ list @ [newline])" "include_path fname" "\<not> pw_is_dir pw fname"
      "pw_checkcfg pw CFG_SECCOMP \<noteq> 0"
    and cfg: "pc_ignore cfg = []" "\<not> arg_seccomp_block_secondary (pc_seccomp cfg)" "\<not> arg_allow_debuggers (pc_seccomp cfg)"
      "error_action (cfg_seccomp_error_action (pc_seccomp cfg)) = Inr act"
    and list: "seccomp_check_list list = Inr list" "length list < 7000"
    and es: "list_entries (w_defined w) True list = Inr es" "list_all (\<lambda>e. snd e = -1) es"
    and len: "length (filter (\<lambda>e. 0 \<le> fst e) es) + 2 * length (filter (\<lambda>e. fst e < 0) es) \<le> 255"
  shows "\<exists>cfg' st' out. profile_read pw fname cfg = Inr cfg' \<and>
    seccomp_filter_drop w (pc_seccomp cfg') True st = Inr st' \<and>
    sb_filters st' = (RUN_SECCOMP_CFG, out) # sb_filters st \<and>
    (\<forall>s args. 0 \<le> s \<and> s < 2 ^ 30 \<longrightarrow> run out (call True s args) 0 =
       (if (s, -1) \<in> set es \<and> \<not> (0 < s \<and> (- s, -1) \<in> set es) \<and> known True s \<and> s \<notin> set (keep_nrs True)
        then act else SECCOMP_RET_ALLOW))"
proof -
  let ?c0 = "set_str ''profile_run_file'' (Some fname) cfg"
  let ?cfg = "set_seccomp_cfg ?c0 (\<lambda>c. c\<lparr>arg_seccomp := True, cfg_seccomp_list_drop := Some list\<rparr>)"
  have c: "plain_word list"
    using list(1) by (auto simp: seccomp_check_list_def plain_word_def list_all_iff c_isalnum_def digit_value_def split: if_splits)
  have "profile_read pw fname cfg = Inr ?cfg"
    using single_line_profile [of pw fname "''seccomp.drop''" list cfg] prof c list(2)
      drop_line [of ?c0 pw list list] cfg(1) list(1)
    by (simp add: plain_word_def set_str_def)
  moreover have "pc_seccomp ?cfg = (pc_seccomp cfg)\<lparr>arg_seccomp := True, cfg_seccomp_list_drop := Some list\<rparr>"
    by (simp add: set_seccomp_cfg_def set_str_def)
  ultimately show ?thesis
    using seccomp_drop_sandbox [OF assms(1-3), of "pc_seccomp ?cfg" list act es st] cfg es len by auto
qed

theorem profile_drop_verdicts_witness:
  "\<exists>cfg' st' out. profile_read (plain_world [''/p'' \<mapsto> ''seccomp.drop mount,execve,!chroot'' @ [newline]]) ''/p''
      (set_seccomp_cfg plain_cfg (\<lambda>c. c\<lparr>cfg_seccomp_error_action := Some ''kill''\<rparr>)) = Inr cfg' \<and>
    seccomp_filter_drop demo_world (pc_seccomp cfg') True demo_sandbox = Inr st' \<and>
    sb_filters st' = [(RUN_SECCOMP_CFG, out)] \<and>
    bpf_run out (call True 165 (\<lambda>_. 0)) 0 = SECCOMP_RET_KILL \<and>
    bpf_run out (call True 161 (\<lambda>_. 0)) 0 = SECCOMP_RET_ALLOW"
proof -
  let ?pw = "plain_world [''/p'' \<mapsto> ''seccomp.drop mount,execve,!chroot'' @ [newline]]"
    and ?cfg = "set_seccomp_cfg plain_cfg (\<lambda>c. c\<lparr>cfg_seccomp_error_action := Some ''kill''\<rparr>)"
    and ?es = "[(165, -1), (59, -1), (-161, -1)] :: (int \<times> int) list"
  have k: "known True 165" by (rule known_native [OF demo_names(1)]) (simp add: SYSCALL_ERROR_def INT_MAX_def)
  have w: "w_open demo_world f > 0" "w_write demo_world n = int n" for f n by (simp_all add: demo_world_def)
  have p: "pw_file ?pw ''/p'' = ProfileText (''seccomp.drop '' @ ''mount,execve,!chroot'' @ [newline])" "\<not> pw_is_dir ?pw ''/p''"
    "pw_checkcfg ?pw CFG_SECCOMP \<noteq> 0"
    by (simp_all add: plain_world_def)
  have c: "pc_ignore ?cfg = []" "\<not> arg_seccomp_block_secondary (pc_seccomp ?cfg)" "\<not> arg_allow_debuggers (pc_seccomp ?cfg)"
    "error_action (cfg_seccomp_error_action (pc_seccomp ?cfg)) = Inr SECCOMP_RET_KILL"
    by (simp_all add: set_seccomp_cfg_def plain_cfg_def demo_cfg_def error_action_def)
  have l: "seccomp_check_list ''mount,execve,!chroot'' = Inr ''mount,execve,!chroot''"
    by (simp add: seccomp_check_list_def c_isalnum_def digit_value_def)
  have "\<exists>cfg' st' out. profile_read ?pw ''/p'' ?cfg = Inr cfg' \<and>
      seccomp_filter_drop demo_world (pc_seccomp cfg') True demo_sandbox = Inr st' \<and>
      sb_filters st' = (RUN_SECCOMP_CFG, out) # sb_filters demo_sandbox \<and>
      (\<forall>s args. 0 \<le> s \<and> s < 2 ^ 30 \<longrightarrow> bpf_run out (call True s args) 0 =
         (if (s, -1 :: int) \<in> set ?es \<and> \<not> (0 < s \<and> (- s, -1 :: int) \<in> set ?es) \<and> known True s \<and> s \<notin> set (keep_nrs True)
          then SECCOMP_RET_KILL else SECCOMP_RET_ALLOW))"
    by (rule profile_drop_verdicts [OF ref_vm.bpf_vm_axioms w p(1) demo_path p(2,3) c l _ demo_list]) simp_all
  then obtain cfg' st' out where o: "profile_read ?pw ''/p'' ?cfg = Inr cfg'"
    "seccomp_filter_drop demo_world (pc_seccomp cfg') True demo_sandbox = Inr st'"
    "sb_filters st' = (RUN_SECCOMP_CFG, out) # sb_filters demo_sandbox"
    and v: "\<And>s args. 0 \<le> s \<Longrightarrow> s < 2 ^ 30 \<Longrightarrow> bpf_run out (call True s args) 0 =
       (if (s, -1 :: int) \<in> set ?es \<and> \<not> (0 < s \<and> (- s, -1 :: int) \<in> set ?es) \<and> known True s \<and> s \<notin> set (keep_nrs True)
        then SECCOMP_RET_KILL else SECCOMP_RET_ALLOW)"
    by blast
  have "bpf_run out (call True 165 (\<lambda>_. 0)) 0 = SECCOMP_RET_KILL" using k by (simp add: v keep_nrs_def)
  moreover have "bpf_run out (call True 161 (\<lambda>_. 0)) 0 = SECCOMP_RET_ALLOW" by (simp add: v)
  moreover have "sb_filters st' = [(RUN_SECCOMP_CFG, out)]" using o(3) by (simp add: demo_sandbox_def)
  ultimately show ?thesis using o(1,2) by blast
qed

subsection \<open>The entries for the file system\<close>

definition safe_name :: "string \<Rightarrow> bool" where
  "safe_name f \<longleftrightarrow>
     (\<exists>pre rest. f = pre @ rest \<and> (pre = [] \<or> pre \<in> set macro_names) \<and>
       list_all (\<lambda>c. \<not> iscntrl c \<and> c \<notin> set (meta_chars True)) rest) \<and>
     (\<nexists>a b. f = a @ ''..'' @ b)"

definition safe_entry :: "string \<Rightarrow> bool" where
  "safe_entry e \<longleftrightarrow> (\<forall>f. file_argument e = Some f \<longrightarrow> safe_name f)"

definition entries :: "string \<Rightarrow> profile_cfg \<Rightarrow> bool \<Rightarrow> profile_cfg \<Rightarrow> bool" where
  "entries ptr cfg add c \<longleftrightarrow>
     (add \<longrightarrow> safe_entry ptr) \<and> (\<exists>es. pc_profile c = pc_profile cfg @ es \<and> list_all safe_entry es)"

lemma strstr_None: "strstr s pat = None \<Longrightarrow> s \<noteq> a @ pat @ b"
proof (induction s arbitrary: a)
  case (Cons c s)
  then show ?case by (cases a) (auto split: if_splits)
qed (auto split: if_splits)

lemma valid_file: "invalid_filename f True = Inr u \<Longrightarrow> strstr f ''..'' = None \<Longrightarrow> safe_name f"
  unfolding safe_name_def using invalid_filename_ok [of f True u] strstr_None [of f "''..''"] by blast

lemma printer_entries: "list_all safe_entry [''blacklist /dev/lp*'', ''blacklist /run/cups/cups.sock'']"
proof -
  have "safe_name ''/dev/lp*''" "safe_name ''/run/cups/cups.sock''"
    by (rule valid_file; simp add: invalid_filename_def starts_with_def macro_id_def macro_table_def
      reject_meta_chars_def reject_cntrl_chars_def has_cntrl_chars_def iscntrl_def meta_chars_def)+
  then show ?thesis by (simp add: safe_entry_def file_argument_def file_prefixes_def starts_with_def after_prefix_def)
qed

lemma starts_with_append_iff: "starts_with pre ptr \<longleftrightarrow> (\<exists>r. ptr = pre @ r)"
  unfolding starts_with_def by (metis append_eq_conv_conj append_take_drop_id)

lemma other_command:
  "starts_with (CHR ''m'' # q) ptr \<Longrightarrow> safe_entry ptr" "starts_with (CHR ''d'' # q) ptr \<Longrightarrow> safe_entry ptr"
  "starts_with (CHR ''b'' # CHR ''i'' # q) ptr \<Longrightarrow> safe_entry ptr"
  unfolding starts_with_append_iff by (auto simp: safe_entry_def file_argument_def file_prefixes_def starts_with_def)

lemma entries_same: "pc_profile c = pc_profile cfg \<Longrightarrow> entries ptr cfg False c"
  by (simp add: entries_def)

lemma entries_kept: "safe_entry ptr \<Longrightarrow> pc_profile c = pc_profile cfg \<Longrightarrow> entries ptr cfg True c"
  by (simp add: entries_def)

lemmas entries_rules = sat_rules entries_same entries_kept

lemma dbus_rule_entries:
  "safe_entry ptr \<Longrightarrow> sat (entries ptr cfg) (dbus_name_rule w name cfg)" "safe_entry ptr \<Longrightarrow> sat (entries ptr cfg) (dbus_call_rule w name cfg)"
  unfolding dbus_name_rule_def dbus_call_rule_def by (intro entries_rules; simp)+

lemma names_entries: "sat (entries ptr cfg) (check_names w ptr cfg)"
  unfolding check_names_def set_sandbox_name_def
  by (intro entries_rules) (auto simp: store_defs profile_add_ignore_def split: if_splits intro: other_command)

lemma flags_entries: "sat (entries ptr cfg) (check_flags w ptr cfg)"
  unfolding check_flags_def check_user_namespace_def
  using printer_entries by (intro sat_rules) (simp_all add: entries_def store_defs set_seccomp_cfg_def profile_add_def)

lemma dbus_entries: "sat (entries ptr cfg) (check_dbus w ptr cfg)"
  unfolding check_dbus_def
  by (intro entries_rules dbus_rule_entries) (auto simp: store_defs intro: other_command)

lemma other_entries:
  "sat (entries ptr cfg) (check_net w ptr cfg)" "sat (entries ptr cfg) (check_bridge w ptr cfg)"
  "sat (entries ptr cfg) (check_apparmor w ptr cfg)" "sat (entries ptr cfg) (check_seccomp w ptr cfg)"
  "sat (entries ptr cfg) (check_landlock w ptr cfg)" "sat (entries ptr cfg) (check_filters w ptr cfg)"
  "sat (entries ptr cfg) (check_host w ptr cfg)" "sat (entries ptr cfg) (check_x11_commands w ptr cfg)"
  "sat (entries ptr cfg) (check_private_dirs w ptr cfg)" "sat (entries ptr cfg) (check_overlay w ptr cfg)"
  "sat (entries ptr cfg) (check_rlimit w ptr cfg)" "sat (entries ptr cfg) (check_start w ptr cfg)"
  unfolding check_net_def check_bridge_def check_apparmor_def check_seccomp_def check_landlock_def check_filters_def check_host_def
    check_x11_commands_def check_private_dirs_def check_overlay_def check_rlimit_def check_start_def
    netfilter_file_def with_bridge_def seccomp_list_def set_sandbox_name_def start_x11_def private_list_def start_overlay_def
    unsigned_limit_def size_limit_def
  by (intro entries_rules;
      simp add: store_defs set_seccomp_cfg_def net_none_def update_bridge_def ll_add_profile_def add_dns_def)+

lemma bind_entries: "sat (entries ptr cfg) (check_bind w ptr cfg)"
  unfolding check_bind_def
  by (auto intro!: entries_rules intro: other_command split: prod.splits option.splits)

lemma file_entries: "sat (entries ptr cfg) (check_files w ptr cfg)"
  unfolding check_files_def
  by (intro entries_rules) (auto simp: safe_entry_def store_defs intro: valid_file)

lemma command_entries: "sat (entries ptr cfg) (profile_commands w ptr cfg)"
  unfolding profile_commands_def foldr.simps comp_apply id_apply
  by (intro sat_or_else sat_None names_entries flags_entries dbus_entries other_entries bind_entries file_entries)

text \<open>The lines that add entries without a check.\<close>

definition whitelist_ro_line :: "string \<Rightarrow> bool" where
  "whitelist_ro_line buf \<longleftrightarrow>
     (\<exists>ptr. line_remove_spaces (fst (cut_at (CHR ''#'') (cstr buf))) = Some ptr \<and> starts_with ''whitelist-ro '' ptr)"

definition more_entries :: "profile_cfg \<Rightarrow> profile_cfg \<Rightarrow> bool" where
  "more_entries cfg c \<longleftrightarrow> (\<exists>es. pc_profile c = pc_profile cfg @ es \<and> list_all safe_entry es)"

interpretation me: profile_relation w "\<lambda>l. \<not> whitelist_ro_line l" more_entries for w
proof
  fix ptr cfg add c
  assume "profile_commands w ptr cfg = Some (Inr (add, c))"
  with command_entries [of ptr cfg w] show "more_entries cfg (if add then profile_add ptr c else c)"
    by (auto simp: sat_def entries_def more_entries_def profile_add_def)
qed (auto simp: more_entries_def set_arg_def set_str_def whitelist_ro_line_def)



text \<open>A \<open>whitelist-ro\<close> line is stored as it is, whatever the name is and even if the ignore list has the command.\<close>

theorem whitelist_ro_unchecked:
  assumes "plain_word f"
  shows "profile_line rd w (''whitelist-ro '' @ f @ [newline]) cfg =
    Inr (profile_add (''read-only '' @ f) (profile_add (''whitelist '' @ f) cfg))"
  using two_words [OF _ assms, of "''whitelist-ro''"]
  by (simp add: profile_line_def plain_word_def starts_with_def after_prefix_def)

text \<open>A \<open>shell none\<close> line is refused, although the parser has a warning for it: the comparison is with the bare prefix.\<close>

theorem shell_none_refused:
  "pc_ignore cfg = [] \<Longrightarrow> profile_check_line w ''shell none'' cfg = Inl (ProfileError ''invalid line'' ''shell none'')"
  by (simp add: profile_check_line.simps parse_conditional_def is_in_ignore_list_def profile_commands_def or_else_def
      check_names_def check_flags_def check_dbus_def check_net_def check_bridge_def check_apparmor_def check_seccomp_def
      check_landlock_def check_filters_def check_host_def check_x11_commands_def check_private_dirs_def check_overlay_def
      check_bind_def check_rlimit_def check_start_def check_files_def file_argument_def file_prefixes_def starts_with_def
      refuse_def Let_def)

subsection \<open>The network and the administrator\<close>

text \<open>The network set-up of the configuration, except that \<open>net none\<close> may have switched the devices off.\<close>

definition network_strs :: "string list" where
  "network_strs = [''arg_netns'', ''arg_netfilter_file'', ''arg_netfilter6_file'']"

definition network_kept :: "profile_cfg \<Rightarrow> profile_cfg \<Rightarrow> bool" where
  "network_kept cfg c \<longleftrightarrow>
     (pc_bridges c = pc_bridges cfg \<or> pc_bridges c = map (\<lambda>b. b\<lparr>br_configured := False\<rparr>) (pc_bridges cfg)) \<and>
     pc_defaultgw c = pc_defaultgw cfg \<and> (\<forall>n \<in> set network_strs. pc_strs c n = pc_strs cfg n)"

lemma network_kept_refl: "network_kept cfg cfg"
  by (simp add: network_kept_def)

lemma network_kept_trans: "network_kept a b \<Longrightarrow> network_kept b c \<Longrightarrow> network_kept a c"
  by (auto simp: network_kept_def o_def)

lemma network_kept_bridges:
  "pc_bridges c = pc_bridges cfg \<Longrightarrow> pc_defaultgw c = pc_defaultgw cfg \<Longrightarrow> (\<And>n. n \<in> set network_strs \<Longrightarrow> pc_strs c n = pc_strs cfg n) \<Longrightarrow>
     network_kept cfg c"
  by (simp add: network_kept_def)

lemma network_off: "pw_checkcfg w CFG_NETWORK = 0 \<Longrightarrow> with_network w cfg k = finish cfg"
  by (simp add: with_network_def with_have_def with_cfg_def)

lemma network_commands:
  assumes "pw_checkcfg w CFG_NETWORK = 0"
  shows "sat (\<lambda>_. network_kept cfg) (check_net w ptr cfg)" "sat (\<lambda>_. network_kept cfg) (check_bridge w ptr cfg)"
proof -
  have "network_kept cfg (net_none cfg)" by (simp add: network_kept_def net_none_def set_arg_def)
  then show "sat (\<lambda>_. network_kept cfg) (check_net w ptr cfg)"
    unfolding check_net_def netfilter_file_def network_off [OF assms] by (intro sat_rules network_kept_refl)
  show "sat (\<lambda>_. network_kept cfg) (check_bridge w ptr cfg)"
    unfolding check_bridge_def with_bridge_def network_off [OF assms] by (intro sat_rules network_kept_refl)
qed

lemma other_network:
  "sat (\<lambda>_. network_kept cfg) (check_names w ptr cfg)" "sat (\<lambda>_. network_kept cfg) (check_flags w ptr cfg)"
  "sat (\<lambda>_. network_kept cfg) (check_dbus w ptr cfg)" "sat (\<lambda>_. network_kept cfg) (check_apparmor w ptr cfg)"
  "sat (\<lambda>_. network_kept cfg) (check_seccomp w ptr cfg)"
  "sat (\<lambda>_. network_kept cfg) (check_landlock w ptr cfg)" "sat (\<lambda>_. network_kept cfg) (check_filters w ptr cfg)"
  "sat (\<lambda>_. network_kept cfg) (check_host w ptr cfg)" "sat (\<lambda>_. network_kept cfg) (check_x11_commands w ptr cfg)"
  "sat (\<lambda>_. network_kept cfg) (check_private_dirs w ptr cfg)" "sat (\<lambda>_. network_kept cfg) (check_overlay w ptr cfg)"
  "sat (\<lambda>_. network_kept cfg) (check_bind w ptr cfg)"
  "sat (\<lambda>_. network_kept cfg) (check_rlimit w ptr cfg)" "sat (\<lambda>_. network_kept cfg) (check_start w ptr cfg)"
  "sat (\<lambda>_. network_kept cfg) (check_files w ptr cfg)"
  unfolding check_names_def check_flags_def check_user_namespace_def check_dbus_def check_apparmor_def check_seccomp_def check_landlock_def check_filters_def check_host_def
    check_x11_commands_def check_private_dirs_def check_overlay_def check_bind_def check_rlimit_def check_start_def check_files_def
    dbus_name_rule_def dbus_call_rule_def
    seccomp_list_def set_sandbox_name_def start_x11_def private_list_def start_overlay_def
    unsigned_limit_def size_limit_def
  by (intro sat_rules network_kept_refl network_kept_bridges;
      (auto simp add: store_defs set_seccomp_cfg_def ll_add_profile_def add_dns_def profile_add_def profile_add_ignore_def
        network_strs_def split: if_splits)?)+

lemma commands_network:
  "pw_checkcfg w CFG_NETWORK = 0 \<Longrightarrow> sat (\<lambda>_. network_kept cfg) (profile_commands w ptr cfg)"
  unfolding profile_commands_def foldr.simps comp_apply id_apply
  by (intro sat_or_else sat_None other_network network_commands)

interpretation nk: profile_relation w "\<lambda>_. True" "\<lambda>cfg c. pw_checkcfg w CFG_NETWORK = 0 \<longrightarrow> network_kept cfg c" for w
proof
  fix ptr cfg add c
  assume "profile_commands w ptr cfg = Some (Inr (add, c))"
  with commands_network [of w cfg ptr]
  show "pw_checkcfg w CFG_NETWORK = 0 \<longrightarrow> network_kept cfg (if add then profile_add ptr c else c)"
    by (auto simp: sat_def network_kept_def profile_add_def)
qed (auto simp: network_kept_def network_strs_def set_arg_def set_str_def profile_add_def o_def)



end
