(* ===== verification/Startup.thy ===== *)
theory Startup
  imports Options Profile_Theorems
begin

text \<open>
  The start of a sandbox from the command line to its configuration. The options are sequences of the elementary changes of
  \<open>Profile_Steps\<close>, like profile lines, so that its invariants hold for the whole start.
\<close>

subsection \<open>The options are sequences of elementary changes\<close>

lemma sat_with_feature: "sat Q k \<Longrightarrow> sat Q (with_feature w c feature k)"
  by (simp add: with_feature_def exit_err_feature_def sat_refuse)

lemma sat_exits: "sat Q (exit_err_feature feature)" "sat Q (exit_after f)" "sat Q (with_pid w name f)"
  by (simp_all add: exit_err_feature_def exit_after_def with_pid_def sat_refuse sat_error sat_after)

lemma sat_only_root: "sat Q k \<Longrightarrow> sat Q (only_root w arg k)"
  by (simp add: only_root_def sat_refuse)

lemma sat_list: "(xs = [] \<Longrightarrow> sat Q a) \<Longrightarrow> (\<And>y ys. xs = y # ys \<Longrightarrow> sat Q (k y ys)) \<Longrightarrow> sat Q (case xs of [] \<Rightarrow> a | y # ys \<Rightarrow> k y ys)"
  by (simp split: list.splits)

lemmas option_rules = sat_rules sat_with_feature sat_exits sat_only_root sat_list sat_or_else

lemma sound_debug: "sound cfg (option_debug w arg cfg)"
  unfolding option_debug_def by (intro option_rules steps) (auto intro: steps simp: resettable_def)

lemma sound_seccomp_option:
  "(\<And>l c. clean_list (Some l) \<Longrightarrow> seccomp_ok c \<Longrightarrow> seccomp_ok (f l c)) \<Longrightarrow> (\<And>l c. seccomp_kept c (f l c)) \<Longrightarrow>
     sound cfg (seccomp_option w cfg enabled s f)"
  unfolding seccomp_option_def
  by (intro option_rules rtranclp.rtrancl_refl one_step config_step.seccomp)
    (auto simp: seccomp_check_list_def clean_list_def split: if_splits)

lemma sound_option_seccomp: "NUL \<notin> set arg \<Longrightarrow> sound cfg (option_seccomp w arg cfg)"
  unfolding option_seccomp_def
  by (intro sat_if sat_with_feature sound_augment [where sel = cfg_protocol] NUL_after_prefix sound_seccomp_option
      sat_finish sat_None sat_refuse seccomp_flag steps) (auto simp: seccomp_simps)

lemma sound_option_landlock: "sound cfg (option_landlock w arg cfg)"
  unfolding option_landlock_def ll_add_profile_def by (intro option_rules steps) (auto intro: steps)

lemma sound_option_filters: "NUL \<notin> set arg \<Longrightarrow> sound cfg (option_filters w arg cfg)"
  unfolding option_filters_def
  by (intro sound_augment [where sel = cfg_restrict_namespaces] NUL_after_prefix option_rules steps seccomp_flag)
    (auto simp: seccomp_simps all_namespaces_def)

lemma sound_option_limits: "sound cfg (option_limits w arg cfg)"
  unfolding option_limits_def by (intro option_rules sound_limits steps) (auto simp: resettable_def)

lemma sound_line_option:
  assumes "NUL \<notin> set line"
  shows "sound cfg (line_option w line cfg)"
  unfolding line_option_def
proof (intro sat_after sat_finish)
  fix r
  assume "profile_check_line w line cfg = Inr r"
  then have "config_steps cfg (if fst r then profile_add line (snd r) else snd r)"
    using cs.check_line [OF _ assms, of w cfg "fst r" "snd r"] by simp
  then show "config_steps cfg (profile_add line (snd r))" by (auto split: if_splits intro: steps)
qed

lemma sound_line_options:
  "NUL \<notin> set arg \<Longrightarrow> NUL \<notin> set (concat cmds) \<Longrightarrow> sound cfg (line_options w cmds arg cfg)"
proof (induction cmds)
  case (Cons cmd cmds)
  then show ?case by (auto simp: Let_def intro!: sound_line_option dest: NUL_after_prefix [of arg "''--'' @ cmd @ ''=''"])
qed (simp add: sat_None)

lemma sound_option_files: "NUL \<notin> set arg \<Longrightarrow> sound cfg (option_files w arg cfg)"
  unfolding option_files_def
  by (intro option_rules sound_line_option sound_line_options steps) (auto dest: NUL_after_prefix [of arg "''--bind=''"])

lemma sound_option_overlay: "sound cfg (option_overlay w arg cfg)"
  unfolding option_overlay_def by (intro option_rules steps sound_start_overlay) auto

lemma read_steps:
  "find_and_read w name ext cfg = Inr (b, c) \<Longrightarrow> config_steps cfg c"
  "read_named w ppath name ext cfg = Inr c \<Longrightarrow> config_steps cfg c"
  "include_option w s cfg = Inr c \<Longrightarrow> config_steps cfg c"
  "profile_option w s cfg = Inr c \<Longrightarrow> config_steps cfg c"
proof -
  show f: "find_and_read w name ext cfg = Inr (b, c) \<Longrightarrow> config_steps cfg c" for name ext b
    by (auto simp: find_and_read_def bind_result_eq_Inr_iff split: option.splits dest: profile_read_steps)
  show n: "read_named w ppath name ext cfg = Inr c \<Longrightarrow> config_steps cfg c" for ppath name ext
    by (auto simp: read_named_def bind_result_eq_Inr_iff split: if_splits dest: f)
  show "include_option w s cfg = Inr c \<Longrightarrow> config_steps cfg c"
    by (auto simp: include_option_def bind_result_eq_Inr_iff split: if_splits dest: n profile_read_steps)
  show "profile_option w s cfg = Inr c \<Longrightarrow> config_steps cfg c"
    by (auto simp: profile_option_def bind_result_eq_Inr_iff Let_def split: if_splits dest: n profile_read_steps)
qed

lemma add_ignore_steps: "profile_add_ignore s cfg = Inr c \<Longrightarrow> config_steps cfg c"
  by (auto simp: profile_add_ignore_def split: if_splits intro!: one_step config_step.ignore)

lemma sound_option_profile: "NUL \<notin> set arg \<Longrightarrow> sound cfg (option_profile w arg cfg)"
  unfolding option_profile_def
  by (intro sound_keep_fd NUL_after_prefix option_rules steps)
    (auto dest: read_steps add_ignore_steps)

lemma sound_private_option: "sound cfg (private_option w c feature flg var s cfg)"
  unfolding private_option_def by (intro option_rules steps) simp

lemma sound_option_writable: "sound cfg (option_writable w arg cfg)"
  unfolding option_writable_def by (intro option_rules sound_private_option steps) auto

lemma sound_option_private: "sound cfg (option_private w arg cfg)"
  unfolding option_private_def by (intro option_rules sound_private_option steps) (auto intro: steps)

lemma sound_option_names: "sound cfg (option_names w arg cfg)"
  unfolding option_names_def
  by (intro sound_env sound_set_name option_rules user_namespace_steps block_both steps) auto

lemma sound_option_dbus: "NUL \<notin> set arg \<Longrightarrow> sound cfg (option_dbus w arg cfg)"
  unfolding option_dbus_def
  by (intro option_rules sound_line_options steps one_step config_step.dbus_user config_step.dbus_system)
    (auto dest: dbus_policy_kept)

lemma sound_interface: "sound cfg (interface_option w dev cfg)"
  unfolding interface_option_def by (intro option_rules steps) simp

lemma sound_net_option: "sound cfg (net_option dev cfg)"
  unfolding net_option_def by (intro option_rules net_none_steps one_step config_step.bridge) (auto simp: bridge_ok_def)

lemma sound_option_net: "sound cfg (option_net w arg cfg)"
  unfolding option_net_def with_networking_def
  by (intro option_rules net_none_steps sound_interface sound_net_option steps) simp

lemma sound_bridge_option:
  "(\<And>b b'. f b = Inr b' \<Longrightarrow> bridge_ok b \<Longrightarrow> bridge_ok b') \<Longrightarrow> sound cfg (bridge_option w cfg f)"
  unfolding bridge_option_def with_networking_def by (intro option_rules one_step config_step.bridge)

lemma netmask_option_ok: "netmask_option s b = Inr b' \<Longrightarrow> bridge_ok b \<Longrightarrow> bridge_ok b'"
  by (auto simp: netmask_option_def bridge_ok_def split: if_splits option.splits)

lemma sound_option_bridge: "sound cfg (option_bridge w arg cfg)"
  unfolding option_bridge_def with_networking_def
  by (intro option_rules steps sound_bridge_option) (auto dest: bridge_commands_ok netmask_option_ok)

lemma sound_option_host: "sound cfg (option_host w arg cfg)"
  unfolding option_host_def netfilter_option_def with_networking_def add_dns_def
  by (intro option_rules steps) (auto intro: steps)

lemma sound_option_start: "sound cfg (option_start w rest arg cfg)"
  unfolding option_start_def by (intro option_rules steps sound_set_name) auto

lemma sound_options:
  assumes "NUL \<notin> set arg"
  shows "sound cfg (option_commands w rest arg cfg)"
  unfolding option_commands_def foldr.simps comp_apply id_apply
  by (intro sat_or_else sound_debug sound_option_seccomp [OF assms] sound_option_landlock sound_option_filters [OF assms]
      sound_option_limits sound_option_files [OF assms] sound_option_overlay sound_option_profile [OF assms]
      sound_option_writable sound_option_private sound_option_names sound_option_dbus [OF assms] sound_option_net
      sound_option_bridge sound_option_host sound_option_start)

subsection \<open>The start is a sequence of elementary changes\<close>

lemma sound_run_cmd: "sound cfg (run_cmd_and_exit w i rest arg cfg)"
proof -
  have "sound cfg (cmd_basic w arg)" unfolding cmd_basic_def by (intro option_rules)
  moreover have "sound cfg (cmd_trace w arg)"
    unfolding cmd_trace_def trace_command_def Let_def foldr.simps comp_apply id_apply by (intro option_rules)
  moreover have "sound cfg (cmd_print w rest arg)" unfolding cmd_print_def cmd_bandwidth_def by (intro option_rules)
  moreover have "sound cfg (cmd_transfer w rest arg cfg)"
    unfolding cmd_transfer_def transfer_command_def by (intro option_rules)
  moreover have "sound cfg (cmd_join w i rest arg cfg)"
    unfolding cmd_join_def by (intro option_rules steps) (auto intro: steps)
  ultimately show ?thesis unfolding run_cmd_and_exit_def by (intro sat_or_else)
qed

lemma run_command_steps: "run_command w i rest arg cfg = Inr c \<Longrightarrow> config_steps cfg c"
  using sound_run_cmd [of cfg w i rest arg] by (auto simp: run_command_def bind_result_eq_Inr_iff sat_def split: option.splits)

lemma program_name_steps: "0 < i \<Longrightarrow> program_name i arg cfg = Inr (c, p) \<Longrightarrow> config_steps cfg c"
  by (auto simp: program_name_def bind_result_eq_Inr_iff intro!: steps split: if_splits)

lemma no_option_steps:
  assumes "no_option i rest arg cfg = Inr (c, p)" "0 < i"
  shows "config_steps cfg c"
proof -
  have "config_steps cfg (set_arg ''arg_doubledash'' 1 cfg)" by (intro steps) simp
  then have "program_name (Suc i) a (set_arg ''arg_doubledash'' 1 cfg) = Inr (c, p) \<Longrightarrow> config_steps cfg c" for a
    using program_name_steps [of "Suc i"] by (metis rtranclp_trans zero_less_Suc)
  with assms program_name_steps [of i arg cfg c p] show ?thesis by (auto simp: no_option_def split: if_splits list.splits)
qed

text \<open>The strings of the kernel have no zero inside.\<close>

abbreviation c_strings :: "string list \<Rightarrow> bool" where
  "c_strings \<equiv> list_all (\<lambda>s. NUL \<notin> set s)"

lemma parse_options_steps:
  "parse_options w i args cfg = Inr (c, p) \<Longrightarrow> 0 < i \<Longrightarrow> c_strings args \<Longrightarrow> config_steps cfg c"
proof (induction args arbitrary: i cfg)
  case (Cons arg rest)
  from Cons.prems(1) obtain d where d: "run_command w i rest arg cfg = Inr d"
    and r: "(case option_commands w rest arg d of Some r \<Rightarrow> bind_result r (\<lambda>(_, c). parse_options w (Suc i) rest c)
       | None \<Rightarrow> no_option i rest arg d) = Inr (c, p)"
    by (auto simp: bind_result_eq_Inr_iff)
  have "config_steps d c"
  proof (cases "option_commands w rest arg d")
    case None
    with r Cons.prems(2) show ?thesis by (auto dest: no_option_steps)
  next
    case (Some x)
    with r obtain b e where e: "x = Inr (b, e)" "parse_options w (Suc i) rest e = Inr (c, p)" by (auto simp: bind_result_eq_Inr_iff)
    have "config_steps d e" using sound_options [of arg d w rest] Some e(1) Cons.prems(3) by (simp add: sat_def)
    moreover have "config_steps e c" using Cons.IH [OF e(2)] Cons.prems(3) by simp
    ultimately show ?thesis by (rule rtranclp_trans)
  qed
  with run_command_steps [OF d] show ?case by (rule rtranclp_trans)
qed simp

lemma stash_env_steps:
  assumes "stash_env envp cfg = Inr c"
  shows "config_steps cfg c"
proof -
  have "fold_result (\<lambda>s e. env_store s SETENV e) ss (pc_env cfg) = Inr e \<Longrightarrow> config_steps cfg (cfg\<lparr>pc_env := e\<rparr>)" for ss e
  proof (induction ss arbitrary: cfg)
    case (Cons s ss)
    then obtain e1 where "env_store s SETENV (pc_env cfg) = Inr e1" "fold_result (\<lambda>s e. env_store s SETENV e) ss e1 = Inr e"
      by (auto simp: bind_result_eq_Inr_iff)
    with Cons.IH [of "cfg\<lparr>pc_env := e1\<rparr>"] show ?case by (auto intro: converse_rtranclp_into_rtranclp config_step.env)
  qed (auto simp: intro: steps)
  with assms show ?thesis by (auto simp: stash_env_def bind_result_eq_Inr_iff split: if_splits)
qed

lemma early_output_steps: "config_steps cfg (early_output argv cfg)"
  unfolding early_output_def Let_def by (auto intro!: steps simp: resettable_def)

lemma allow_debuggers_steps: "allow_debuggers release cfg = Inr c \<Longrightarrow> config_steps cfg c"
  by (auto simp: allow_debuggers_def seccomp_simps split: option.splits if_splits intro!: steps seccomp_flag)

lemma early_paths_steps: "config_steps cfg (early_paths argv cfg)"
  unfolding early_paths_def Let_def by (auto intro!: steps)

lemma early_flags_steps: "early_flags w argv cfg = Inr c \<Longrightarrow> config_steps cfg c"
  by (cases "check_arg argv ''--oom='' False") (auto simp: early_flags_def Let_def bind_result_eq_Inr_iff split: if_splits intro!: steps)

lemma early_options_steps:
  assumes "early_options w release argv cfg = Inr c"
  shows "config_steps cfg c"
proof -
  from assms obtain d where d: "(if check_arg argv ''--allow-debuggers'' True \<noteq> 0 then allow_debuggers release (early_paths argv cfg)
      else Inr (early_paths argv cfg)) = Inr d" "early_flags w argv d = Inr c"
    by (auto simp: early_options_def bind_result_eq_Inr_iff)
  from d(1) have "config_steps (early_paths argv cfg) d" by (auto split: if_splits dest: allow_debuggers_steps)
  with early_paths_steps early_flags_steps [OF d(2)] show ?thesis by (metis rtranclp_trans)
qed

lemma drop_noroot_steps: "config_steps cfg (drop_noroot cfg)"
  unfolding drop_noroot_def by (auto intro: steps simp: resettable_def)

lemma check_options_steps: "check_options w cfg = Inr c \<Longrightarrow> config_steps cfg c"
  by (auto simp: check_options_def Let_def seccomp_simps split: if_splits intro!: drop_noroot_steps seccomp_flag)

lemma set_command_steps: "set_command w usershell p cfg = Inr c \<Longrightarrow> config_steps cfg c"
  by (auto simp: set_command_def bind_result_eq_Inr_iff split: if_splits option.splits intro!: steps)

lemma appimage_steps: "appimage_find_profile w archive cfg = Inr (b, c) \<Longrightarrow> config_steps cfg c"
  by (auto simp: appimage_find_profile_def Let_def split: if_splits option.splits profile_file.splits dest: read_steps)

lemma custom_profile_steps: "config_steps cfg c \<Longrightarrow> config_steps cfg (set_arg ''custom_profile'' 1 c)"
  by (intro steps) simp_all

lemma default_profile_steps: "default_profile w cfg = Inr c \<Longrightarrow> config_steps cfg c"
  by (auto simp: default_profile_def bind_result_eq_Inr_iff split: if_splits dest: read_steps intro: custom_profile_steps)

lemma load_profile_steps: "load_profile w cfg = Inr c \<Longrightarrow> config_steps cfg c"
  by (auto simp: load_profile_def bind_result_eq_Inr_iff split: if_splits option.splits
      dest!: read_steps appimage_steps default_profile_steps intro: custom_profile_steps rtranclp_trans)

lemmas command_defs = check_names_def check_flags_def check_dbus_def check_net_def check_bridge_def check_apparmor_def
  check_seccomp_def check_landlock_def check_filters_def check_host_def check_x11_commands_def check_private_dirs_def
  check_overlay_def check_bind_def check_rlimit_def check_start_def

text \<open>A blacklist line reaches the last command.\<close>

lemma blacklist_line:
  "profile_commands w (''blacklist '' @ f) cfg = check_files w (''blacklist '' @ f) cfg"
  "file_argument (''blacklist '' @ f) = Some f" "parse_conditional w cfg (''blacklist '' @ f) = NoCondition"
proof -
  have "list_all (\<lambda>c. c w (''blacklist '' @ f) cfg = None) [check_names, check_flags, check_dbus, check_net, check_bridge, check_apparmor,
      check_seccomp, check_landlock, check_filters, check_host, check_x11_commands, check_private_dirs, check_overlay, check_bind,
      check_rlimit, check_start]"
    by (simp add: command_defs starts_with_def)
  then show "profile_commands w (''blacklist '' @ f) cfg = check_files w (''blacklist '' @ f) cfg"
    by (simp add: profile_commands_def or_else_def split: option.splits)
  show "file_argument (''blacklist '' @ f) = Some f" "parse_conditional w cfg (''blacklist '' @ f) = NoCondition"
    by (simp_all add: file_argument_def file_prefixes_def starts_with_def after_prefix_def parse_conditional_def)
qed

lemma check_files_kept: "check_files w l cfg = Some (Inr (b, c)) \<Longrightarrow> c = cfg \<or> c = set_arg ''arg_whitelist'' 1 cfg"
  by (auto simp: check_files_def outcome_defs split: if_splits sum.splits option.splits)

lemma add_blacklist_steps:
  assumes "add_line w l cfg = Inr c" "l = ''blacklist '' @ f"
  shows "config_steps cfg c"
proof -
  from assms obtain b d where d: "profile_check_line w l cfg = Inr (b, d)" "c = profile_add l d"
    by (auto simp: add_line_def bind_result_eq_Inr_iff)
  have "d = cfg \<or> d = set_arg ''arg_whitelist'' 1 cfg"
    using d(1) blacklist_line(1) [of w f cfg] blacklist_line(3) [of w cfg f] check_files_kept [of w l cfg b d] unfolding profile_check_line.simps [of w l] assms(2) [symmetric]
    by (auto split: if_splits option.splits)
  then show ?thesis unfolding d(2) by (auto intro!: steps)
qed

lemma rmenv_steps:
  assumes "env_store a RMENV (pc_env cfg) = Inr e1" "env_store b RMENV e1 = Inr e"
  shows "config_steps cfg (cfg\<lparr>pc_env := e\<rparr>)"
proof -
  have "config_step cfg (cfg\<lparr>pc_env := e1\<rparr>)" using assms(1) by (rule config_step.env)
  moreover have "config_step (cfg\<lparr>pc_env := e1\<rparr>) (cfg\<lparr>pc_env := e1\<rparr>\<lparr>pc_env := e\<rparr>)"
    by (rule config_step.env [of b RMENV]) (simp add: assms(2))
  ultimately show ?thesis by simp
qed

lemma x11_block_steps:
  assumes "x11_block w sockets cfg = Inr c"
  shows "config_steps cfg c"
proof (cases "pw_have w ''HAVE_X11''")
  case True
  with assms obtain c1 c2 c3 e1 e where c: "add_line w (''blacklist '' @ ''/tmp/.X11-unix'') cfg = Inr c1"
      "add_line w (''blacklist '' @ ''${HOME}/.Xauthority'') c1 = Inr c2"
      "(case env_get (pc_env c2) ''XAUTHORITY'' None of None \<Rightarrow> Inr c2 | Some f \<Rightarrow> add_line w (''blacklist '' @ f) c2) = Inr c3"
      "env_store ''DISPLAY'' RMENV (pc_env c3) = Inr e1" "env_store ''XAUTHORITY'' RMENV e1 = Inr e" "c = c3\<lparr>pc_env := e\<rparr>"
    by (auto simp: x11_block_def bind_result_eq_Inr_iff split: if_splits)
  have "config_steps c2 c3" using c(3) add_blacklist_steps [OF _ refl, of w _ c2 c3] by (cases "env_get (pc_env c2) ''XAUTHORITY'' None") simp_all
  with add_blacklist_steps [OF c(1) refl] add_blacklist_steps [OF c(2) refl] rmenv_steps [OF c(4,5)] c(6) show ?thesis
    by (metis rtranclp_trans)
qed (use assms in \<open>simp add: x11_block_def\<close>)

lemma add_default_filters_kept:
  assumes "add_default_filters add c = Inr d"
  shows "seccomp_kept c d"
  using assms by (auto simp: add_default_filters_def bind_result_eq_Inr_iff seccomp_kept_def)

lemma add_default_filters_None: "add_default_filters None c = Inr d \<Longrightarrow> d = c"
  by (simp add: add_default_filters_def augment_default_def)

lemma last_adjustments_cases:
  assumes "last_adjustments defd add cfg = Inr c"
  obtains d v where "add_default_filters add (pc_seccomp cfg) = Inr d"
    "c = drop_noroot (set_arg ''arg_seccomp_postexec'' v (cfg\<lparr>pc_seccomp := d\<rparr>))"
  using assms by (auto simp: last_adjustments_def bind_result_eq_Inr_iff)

lemma startup_profile_steps:
  assumes "startup_profile sw p cfg = Inr c"
  obtains d where "config_steps cfg d" "last_adjustments (sw_syscalls sw) (sw_filter_add sw) d = Inr c"
proof -
  from assms obtain c1 c2 c3 c4 where c: "check_options (sw_profile sw) cfg = Inr c1"
    "set_command (sw_profile sw) (sw_usershell sw) p c1 = Inr c2" "load_profile (sw_profile sw) c2 = Inr c3"
    "(if arg_set c3 ''arg_x11_block'' then x11_block (sw_profile sw) (sw_x11_sockets sw) c3 else Inr c3) = Inr c4"
    and l: "last_adjustments (sw_syscalls sw) (sw_filter_add sw) c4 = Inr c"
    by (auto simp: startup_profile_def bind_result_eq_Inr_iff)
  have "config_steps c3 c4" using c(4) by (auto split: if_splits dest: x11_block_steps)
  with check_options_steps [OF c(1)] set_command_steps [OF c(2)] load_profile_steps [OF c(3)] have "config_steps cfg c4"
    by (metis rtranclp_trans)
  then show ?thesis using l by (rule that)
qed

lemma startup_options_steps:
  assumes "startup_options sw envp argv cfg = Inr (c, p)" "c_strings argv"
  shows "config_steps cfg c"
proof -
  from assms(1) obtain c1 c2 where c: "stash_env envp cfg = Inr c1"
    "early_options (sw_profile sw) (sw_release sw) argv (early_output argv c1) = Inr c2"
    "parse_options (sw_profile sw) 1 (tl argv) c2 = Inr (c, p)"
    by (auto simp: startup_options_def bind_result_eq_Inr_iff)
  have "c_strings (tl argv)" using assms(2) by (cases argv) simp_all
  with parse_options_steps [OF c(3)] stash_env_steps [OF c(1)] early_output_steps [of c1 argv] early_options_steps [OF c(2)]
  show ?thesis by (metis rtranclp_trans zero_less_one)
qed

subsection \<open>The configuration of the sandbox\<close>



definition demo_startup :: startup_world where
  "demo_startup = \<lparr>sw_profile = plain_world (\<lambda>_. None), sw_release = Some (6, 1), sw_usershell = ''/bin/bash'', sw_x11_sockets = False,
     sw_filter_add = None, sw_syscalls = \<lambda>_. True\<rparr>"

lemmas cmd_defs = cmd_basic_def cmd_trace_def trace_command_def cmd_print_def cmd_transfer_def cmd_join_def

lemmas option_defs = option_debug_def option_seccomp_def option_landlock_def option_filters_def option_limits_def option_files_def
  option_overlay_def option_profile_def option_writable_def option_private_def option_names_def option_dbus_def option_net_def
  option_bridge_def option_host_def option_start_def

lemma demo_noprofile:
  "run_cmd_and_exit w i rest ''--noprofile'' cfg = None" "run_cmd_and_exit w i rest ''--nosound'' cfg = None"
  "run_cmd_and_exit w i rest ''ls'' cfg = None"
  by (simp_all add: run_cmd_and_exit_def or_else_def cmd_defs starts_with_def Let_def)

lemma demo_options:
  "\<not> arg_set cfg ''custom_profile'' \<Longrightarrow> option_commands w rest ''--noprofile'' cfg =
     finish (set_arg ''arg_keep_config_pulse'' 1 (set_arg ''arg_noprofile'' 1 cfg))"
  "option_commands w rest ''--nosound'' cfg = finish (set_arg ''arg_nosound'' 1 cfg)"
  "option_commands w rest ''ls'' cfg = None"
  by (simp_all add: option_commands_def or_else_def option_defs starts_with_def Let_def finish_def)

definition demo_opts :: profile_cfg where
  "demo_opts = set_str ''command_name'' (Some ''ls'') (set_arg ''original_program_index'' 3 (set_arg ''arg_nosound'' 1
     (set_arg ''arg_keep_config_pulse'' 1 (set_arg ''arg_noprofile'' 1 (set_arg ''arg_nonewprivs'' 1 plain_cfg)))))"

lemma demo_startup_options:
  "startup_options demo_startup [] [''firejail'', ''--noprofile'', ''--nosound'', ''ls''] plain_cfg = Inr (demo_opts, Some 3)"
  by (simp add: startup_options_def length_checks_def MAX_ARGS_def MAX_ARG_LEN_def stash_env_def MAX_ENVS_def early_options_def
      early_paths_def early_flags_def early_output_def check_arg_def starts_with_def plain_cfg_def demo_startup_def plain_world_def
      run_command_def demo_noprofile demo_options no_option_def program_name_def extract_command_name_def gnu_basename_def
      is_blank_def finish_def store_defs demo_opts_def Let_def fun_upd_twist)

lemma demo_startup_profile: "\<exists>c. startup_profile demo_startup (Some 3) demo_opts = Inr c"
  by (simp add: startup_profile_def check_options_def drop_noroot_def store_defs demo_opts_def plain_cfg_def demo_cfg_def
      set_command_def load_profile_def last_adjustments_def add_default_filters_def augment_default_def demo_startup_def
      plain_world_def any_dhcp_def plain_bridge_def)



subsection \<open>Options and profile lines\<close>

definition configured :: "outcome \<Rightarrow> profile_cfg option" where
  "configured out = (case out of Some (Inr (_, c)) \<Rightarrow> Some c | _ \<Rightarrow> None)"

definition shared_flags :: "string list" where
  "shared_flags =
     [''allusers'', ''private'', ''private-dev'', ''keep-dev-ntsync'', ''keep-dev-shm'', ''private-tmp'', ''private-cwd'', ''private-cache'',
      ''private-etc'', ''tab'', ''nogroups'', ''noroot'', ''nonewprivs'', ''nosound'', ''noautopulse'', ''novideo'', ''no3d'', ''noprinters'', ''notv'',
      ''nodvd'', ''notpm'', ''nou2f'', ''noinput'', ''nodbus'', ''machine-id'', ''keep-config-pulse'', ''keep-shell-rc'', ''writable-etc'',
      ''writable-var'', ''keep-var-tmp'', ''writable-run-user'', ''writable-var-log'', ''disable-mnt'', ''deterministic-exit-code'',
      ''deterministic-shutdown'', ''ipc-namespace'', ''tracelog'', ''apparmor'', ''apparmor-replace'', ''seccomp'',
      ''seccomp.block-secondary'', ''memory-deny-write-execute'', ''restrict-namespaces'', ''netfilter'', ''netlock'', ''overlay'', ''overlay-tmpfs'']"

definition shared_args :: "string list" where
  "shared_args =
     [''protocol'', ''seccomp'', ''seccomp.32'', ''seccomp.drop'', ''seccomp.32.drop'', ''seccomp.keep'', ''seccomp.32.keep'',
      ''restrict-namespaces'', ''env'', ''rmenv'', ''rlimit-cpu'', ''rlimit-nofile'', ''rlimit-nproc'', ''rlimit-fsize'', ''rlimit-sigpending'',
      ''rlimit-as'', ''cpu'', ''nice'', ''timeout'', ''name'', ''hostname'', ''hosts-file'', ''dns'', ''veth-name'', ''iprange'', ''mac'', ''mtu'',
      ''ip'', ''ip6'', ''defaultgw'', ''netfilter'', ''netfilter6'', ''netns'', ''private-opt'', ''private-srv'', ''private-bin'', ''private-cwd'',
      ''overlay-named'', ''keep-fd'', ''apparmor'', ''dbus-user'', ''dbus-system'']"

definition full_features :: "profile_world \<Rightarrow> bool" where
  "full_features w \<longleftrightarrow> (\<forall>h. pw_have w h) \<and> (\<forall>c. c \<noteq> CFG_SECCOMP_ERROR_ACTION \<longrightarrow> pw_checkcfg w c \<noteq> 0)"

lemmas shared_simps = option_commands_def option_defs profile_commands_def command_defs or_else_def starts_with_def Let_def
  with_feature_def with_networking_def outcome_defs configured_def with_network_def after_prefix_def private_option_def private_list_def
  seccomp_option_def seccomp_list_def bridge_option_def with_bridge_def netfilter_option_def netfilter_file_def start_overlay_def
  set_sandbox_name_def

lemma shared_flags_equal:
  assumes "full_features w" "\<not> arg_seccomp (pc_seccomp cfg)" "\<not> arg_seccomp32 (pc_seccomp cfg)"
  shows "list_all (\<lambda>n. configured (option_commands w rest (''--'' @ n) cfg) = configured (profile_commands w n cfg)) shared_flags"
proof -
  have h: "pw_have w h" "pw_checkcfg w CFG_SECCOMP \<noteq> 0" "pw_checkcfg w CFG_NETWORK \<noteq> 0" "pw_checkcfg w CFG_USERNS \<noteq> 0"
    "pw_checkcfg w CFG_PRIVATE_ETC \<noteq> 0" "pw_checkcfg w CFG_PRIVATE_CACHE \<noteq> 0" "pw_checkcfg w CFG_TRACELOG \<noteq> 0"
    "pw_checkcfg w CFG_OVERLAYFS \<noteq> 0" for h
    using assms(1) by (simp_all add: full_features_def)
  show ?thesis
    unfolding shared_flags_def list.pred_inject
    by (intro conjI TrueI; simp add: shared_simps h assms(2,3) split: sum.split)
qed

lemma shared_args_equal:
  assumes "full_features w" "\<not> arg_seccomp (pc_seccomp cfg)" "\<not> arg_seccomp32 (pc_seccomp cfg)" "a \<noteq> []"
  shows "list_all (\<lambda>n. configured (option_commands w rest (''--'' @ n @ ''='' @ a) cfg) = configured (profile_commands w (n @ '' '' @ a) cfg))
    shared_args"
proof -
  have h: "pw_have w h" "pw_checkcfg w CFG_SECCOMP \<noteq> 0" "pw_checkcfg w CFG_NETWORK \<noteq> 0" "pw_checkcfg w CFG_PRIVATE_OPT \<noteq> 0"
    "pw_checkcfg w CFG_PRIVATE_SRV \<noteq> 0" "pw_checkcfg w CFG_PRIVATE_BIN \<noteq> 0" "pw_checkcfg w CFG_OVERLAYFS \<noteq> 0" for h
    using assms(1) by (simp_all add: full_features_def)
  show ?thesis
    unfolding shared_args_def list.pred_inject
    by (intro conjI TrueI; (simp add: shared_simps h assms(2-) unsigned_limit_def size_limit_def split: sum.split option.split; auto))
qed



subsection \<open>Faults of the start\<close>

text \<open>
  \<open>--include\<close> tests the access to the file the wrong way round: a name without a slash that is not a readable file is read as a
  file, which fails, and only the name of a readable file is searched for in the directories of the profiles.
\<close>

theorem include_option_inverted:
  assumes "expand_macros (pw_macros w) s = Inr f" "slash \<notin> set f"
  shows "(pw_file w f = NoAccess e \<and> \<not> local_file f \<longrightarrow> (\<exists>err. include_option w s cfg = Inl err)) \<and>
    (pw_file w f = ProfileText t \<and> profile_find_firejail w f False = None \<longrightarrow>
       include_option w s cfg = Inl (ProfileError ''no profile with name found'' f))"
proof -
  have "\<exists>err. profile_read w f cfg = Inl err" if "pw_file w f = NoAccess e" "\<not> local_file f"
    using that by (cases "invalid_filename f False") (auto simp: profile_read_def profile_open_def)
  with assms show ?thesis by (auto simp: include_option_def accessible_def read_named_def find_and_read_def)
qed

theorem include_option_inverted_witness:
  "(\<exists>err. include_option (plain_world (\<lambda>_. None)) ''a.inc'' plain_cfg = Inl err) \<and>
   include_option (plain_world [''a.inc'' \<mapsto> ''nosound'']) ''a.inc'' plain_cfg = Inl (ProfileError ''no profile with name found'' ''a.inc'')"
proof -
  have e: "expand_macros (pw_macros (plain_world fs)) ''a.inc'' = Inr ''a.inc''" for fs
    by (simp add: expand_macros_def plain_world_def starts_with_def resolve_macro_def macro_id_def macro_table_def)
  show ?thesis
    using include_option_inverted [OF e [of "\<lambda>_. None"], of False plain_cfg "[]"]
      include_option_inverted [OF e [of "[''a.inc'' \<mapsto> ''nosound'']"], of False plain_cfg "''nosound''"]
    by (simp add: plain_world_def local_file_def gnu_basename_def strstr.simps starts_with_def profile_find_firejail_def profile_find_def Let_def)
qed

text \<open>
  A file option whose name is on the ignore list is not checked, but its line is kept all the same: a name with \<open>..\<close>, control
  characters or meta characters gets through.
\<close>

theorem ignored_option_unchecked:
  assumes "''blacklist'' \<in> set (pc_ignore cfg)"
  shows "option_commands w rest (''--blacklist='' @ f) cfg = finish (profile_add (''blacklist '' @ f) cfg)"
proof -
  have "is_in_ignore_list cfg (''blacklist '' @ f)"
    using assms by (auto simp: is_in_ignore_list_def list_ex_iff starts_with_def intro!: bexI [of _ "''blacklist''"])
  moreover have "profile_check_line w l cfg = Inr (False, cfg)"
    if "is_in_ignore_list cfg l" "parse_conditional w cfg l = NoCondition" for l
    using that by (simp add: profile_check_line.simps [of w l])
  ultimately have "profile_check_line w (''blacklist '' @ f) cfg = Inr (False, cfg)" using blacklist_line(3) by blast
  then show ?thesis
    by (simp add: option_commands_def or_else_def option_defs starts_with_def Let_def line_option_def after_prefix_def outcome_defs)
qed

theorem ignored_option_unchecked_witness:
  "option_commands (plain_world (\<lambda>_. None)) [] ''--blacklist=../..'' (plain_cfg\<lparr>pc_ignore := [''blacklist'']\<rparr>) =
     finish (profile_add ''blacklist ../..'' (plain_cfg\<lparr>pc_ignore := [''blacklist'']\<rparr>))"
  using ignored_option_unchecked [of "plain_cfg\<lparr>pc_ignore := [''blacklist'']\<rparr>" "plain_world (\<lambda>_. None)" "[]" "''../..''"] by simp

text \<open>
  C32. \<open>seccomp.block-secondary\<close> switches the seccomp filter on only when it comes from the command line or a profile of the command
  line, because this is done before the profile of the program is read: from that profile the flag is set, but no filter at all is
  installed.
\<close>

definition block_profile :: startup_world where
  "block_profile = demo_startup\<lparr>sw_profile := (plain_world [''/etc/firejail/ls.profile'' \<mapsto> ''seccomp.block-secondary'' @ [newline]])
     \<lparr>pw_dir := \<lambda>_. Some [''ls.profile'']\<rparr>\<rparr>"

lemma block_profile_read:
  assumes "pc_ignore cfg = []"
  shows "profile_read (sw_profile block_profile) ''/etc/firejail/ls.profile'' cfg =
     Inr (set_seccomp_cfg (set_str ''profile_run_file'' (Some ''/etc/firejail/ls.profile'') cfg) (\<lambda>c. c\<lparr>arg_seccomp_block_secondary := True\<rparr>))"
proof -
  define l where "l = ''seccomp.block-secondary'' @ [newline]"
  let ?w = "sw_profile block_profile" let ?f = "''/etc/firejail/ls.profile''"
  have o: "profile_open ?w ?f cfg = Inr (Some l)"
    by (simp add: profile_open_def block_profile_def plain_world_def skipped_file_def gnu_basename_def invalid_filename_def starts_with_def
        macro_id_def macro_table_def reject_meta_chars_def reject_cntrl_chars_def has_cntrl_chars_def iscntrl_def meta_chars_def l_def)
  have f: "fgets_lines MAX_READ l = [l]"
    unfolding l_def by (intro fgets_single) (simp_all add: MAX_READ_def)
  have r: "line_remove_spaces (fst (cut_at (CHR ''#'') (cstr l))) = Some ''seccomp.block-secondary''"
    by (simp add: line_remove_spaces_def strip_blank_def is_blank_def cstr_def l_def)
  have "profile_check_line ?w ''seccomp.block-secondary'' c =
      Inr (False, set_seccomp_cfg c (\<lambda>c. c\<lparr>arg_seccomp_block_secondary := True\<rparr>))" if "pc_ignore c = []" for c
    using that by (simp add: profile_check_line.simps parse_conditional_def profile_commands_def or_else_def command_defs starts_with_def outcome_defs
        Let_def block_profile_def plain_world_def is_in_ignore_list_def)
  with assms show ?thesis
    by (simp add: profile_read_def o f r profile_line_def starts_with_def fold_result_Nil set_str_def)
qed

definition no_seccomp_cfg :: profile_cfg where
  "no_seccomp_cfg = set_str ''command_name'' (Some ''ls'') (plain_cfg\<lparr>pc_seccomp := demo_cfg\<lparr>arg_memory_deny_write_execute := False\<rparr>\<rparr>)"


end
