(* ===== verification/Drop_Privs.thy ===== *)
theory Drop_Privs
  imports Profile_Theorems
begin

text \<open>
  Groups of the sandboxed process: the supplementary groups that \<open>firejail/util.c\<close> keeps when it drops privileges, and
  the map of group numbers that \<open>firejail/main.c\<close> writes for the new user name space. The group data base and what
  \<open>access\<close> finds are parameters; a group that does not exist has the number 0.
\<close>

subsection \<open>Supplementary groups\<close>

definition MAX_GROUPS :: nat where "MAX_GROUPS = 1024"

record group_world =
  gw_group_id :: "string \<Rightarrow> u32"
  gw_user_groups :: "u32 list option"
  gw_gid :: u32
  gw_nvidia :: bool
  gw_seats :: bool

definition check_can_drop_all_groups :: "group_world \<Rightarrow> profile_cfg \<Rightarrow> bool" where
  "check_can_drop_all_groups gw cfg \<longleftrightarrow> \<not> (gw_nvidia gw \<and> \<not> arg_set cfg ''arg_no3d'') \<and> gw_seats gw"

definition find_group :: "u32 \<Rightarrow> u32 list \<Rightarrow> bool" where
  "find_group g groups = list_ex (\<lambda>x. g = x) groups"

definition copy_group_ifcont :: "group_world \<Rightarrow> u32 list \<Rightarrow> string \<Rightarrow> u32 list \<Rightarrow> u32 list" where
  "copy_group_ifcont gw groups groupname new_groups =
     (if MAX_GROUPS \<le> length new_groups then new_groups
      else let g = gw_group_id gw groupname in
        if g \<noteq> 0 \<and> find_group g groups then new_groups @ [g] else new_groups)"

text \<open>The groups of devices that are not disabled, in the order of both functions.\<close>

definition device_groups :: "profile_cfg \<Rightarrow> string list" where
  "device_groups cfg =
     (if arg_set cfg ''arg_nosound'' then [] else [''audio'', ''pipewire'']) @
     (if arg_set cfg ''arg_novideo'' then [] else [''video'']) @
     (if arg_set cfg ''arg_no3d'' then [] else [''render'', ''vglusers'']) @
     (if arg_set cfg ''arg_noprinters'' then [] else [''lp'']) @
     (if arg_set cfg ''arg_nodvd'' then [] else [''cdrom'', ''optical'']) @
     (if arg_set cfg ''arg_noinput'' then [] else [''input'']) @
     (if arg_set cfg ''arg_nou2f'' then [] else [''plugdev''])"

definition allowed_groups :: "string list" where
  "allowed_groups = [''firejail'', ''tty'', ''games'']"

text \<open>
  The groups that \<open>clean_supplementary_groups\<close> sets; \<open>gw_user_groups\<close> is the answer of \<open>getgrouplist\<close>, \<open>None\<close> when
  there are more than \<open>MAX_GROUPS\<close>. The call of \<open>setgroups\<close> with a list that is not empty may fail, and then all groups
  are dropped.
\<close>

definition clean_supplementary_groups :: "group_world \<Rightarrow> bool \<Rightarrow> profile_cfg \<Rightarrow> u32 list" where
  "clean_supplementary_groups gw setgroups_ok cfg =
     (if arg_set cfg ''arg_nogroups'' \<and> check_can_drop_all_groups gw cfg then []
      else case gw_user_groups gw of
        None \<Rightarrow> []
      | Some groups \<Rightarrow>
          (let new_groups = fold (copy_group_ifcont gw groups) (allowed_groups @ device_groups cfg) [] in
           if new_groups \<noteq> [] \<and> setgroups_ok then new_groups else []))"

text \<open>\<open>drop_privs\<close>: the supplementary groups afterwards; without an option they stay as they are.\<close>

definition drop_privs :: "group_world \<Rightarrow> bool \<Rightarrow> bool \<Rightarrow> profile_cfg \<Rightarrow> u32 list \<Rightarrow> u32 list" where
  "drop_privs gw setgroups_ok force_nogroups cfg current =
     (if gw_gid gw = 0 \<or> force_nogroups then []
      else if arg_set cfg ''arg_noroot'' \<or> arg_set cfg ''arg_nogroups'' then clean_supplementary_groups gw setgroups_ok cfg
      else current)"

subsection \<open>The map of groups\<close>

definition GIDMAP_SIZE :: nat where "GIDMAP_SIZE = 1024"

definition gid_line :: "u32 \<Rightarrow> string" where
  "gid_line g = fmt_d (sint g) @ '' '' @ fmt_d (sint g) @ '' 1'' @ [newline]"

text \<open>\<open>sprintf(ptr, \<dots>); ptr += strlen(ptr)\<close> on the rest of the array, with the final zero.\<close>

definition sprintf_gid :: "u32 \<Rightarrow> string \<Rightarrow> string result" where
  "sprintf_gid g gidmap =
     (if length gidmap + length (gid_line g) < GIDMAP_SIZE then Inr (gidmap @ gid_line g) else Inl BufferOverflow)"

definition add_gid :: "group_world \<Rightarrow> string \<Rightarrow> string \<Rightarrow> string result" where
  "add_gid gw name gidmap = (let g = gw_group_id gw name in if g \<noteq> 0 then sprintf_gid g gidmap else Inr gidmap)"

definition gid_map :: "group_world \<Rightarrow> profile_cfg \<Rightarrow> string result" where
  "gid_map gw cfg =
     bind_result (sprintf_gid (gw_gid gw) []) (\<lambda>t.
     bind_result (if \<not> arg_set cfg ''arg_nogroups'' \<or> \<not> check_can_drop_all_groups gw cfg
                  then fold_result (add_gid gw) (device_groups cfg) t else Inr t) (\<lambda>t.
       if arg_set cfg ''arg_nogroups'' then Inr t else fold_result (add_gid gw) allowed_groups t))"

text \<open>\<open>update_map\<close>: the text that is written, with commas replaced.\<close>

definition update_map :: "string \<Rightarrow> string" where
  "update_map mapping = map (\<lambda>c. if c = CHR '','' then newline else c) mapping"

subsection \<open>Which groups are kept and mapped\<close>

definition kept_ids :: "group_world \<Rightarrow> u32 list \<Rightarrow> string list \<Rightarrow> u32 list" where
  "kept_ids gw groups gs = filter (\<lambda>g. g \<noteq> 0 \<and> g \<in> set groups) (map (gw_group_id gw) gs)"

lemma copy_groups:
  "length acc + length gs \<le> MAX_GROUPS \<Longrightarrow> fold (copy_group_ifcont gw groups) gs acc = acc @ kept_ids gw groups gs"
proof (induction gs arbitrary: acc)
  case (Cons n ns)
  then show ?case
    by (auto simp: copy_group_ifcont_def kept_ids_def find_group_def list_ex_iff Let_def)
qed (simp add: kept_ids_def)

lemma device_groups_length: "length (device_groups cfg) \<le> 10"
  by (simp add: device_groups_def)

lemma groups_kept:
  assumes "arg_set cfg ''arg_noroot'' \<or> arg_set cfg ''arg_nogroups''" "g \<in> set (drop_privs gw ok force cfg current)"
  shows "g \<noteq> 0 \<and> (\<exists>us. gw_user_groups gw = Some us \<and> g \<in> set us) \<and>
    (\<exists>name. gw_group_id gw name = g \<and> (name \<in> set allowed_groups \<or> name \<in> set (device_groups cfg)))"
proof -
  have "length (allowed_groups @ device_groups cfg) \<le> MAX_GROUPS"
    using device_groups_length [of cfg] by (simp add: allowed_groups_def MAX_GROUPS_def)
  then have "fold (copy_group_ifcont gw us) (allowed_groups @ device_groups cfg) [] =
      kept_ids gw us (allowed_groups @ device_groups cfg)" for us
    using copy_groups [of "[]"] by (simp del: fold_append)
  then have k: "drop_privs gw ok force cfg current = kept_ids gw us (allowed_groups @ device_groups cfg)"
    if "gw_user_groups gw = Some us" "drop_privs gw ok force cfg current \<noteq> []" for us
    using assms(1) that by (auto simp: drop_privs_def clean_supplementary_groups_def Let_def simp del: fold_append split: if_splits)
  obtain us where us: "gw_user_groups gw = Some us"
    using assms by (cases "gw_user_groups gw") (auto simp: drop_privs_def clean_supplementary_groups_def split: if_splits)
  have "drop_privs gw ok force cfg current \<noteq> []" using assms(2) by auto
  from assms(2) [unfolded k [OF us this]] us show ?thesis by (auto simp: kept_ids_def)
qed

text \<open>
  C33. The supplementary groups that are left to the sandbox with \<open>noroot\<close> or \<open>nogroups\<close> are groups of the user, and each is one
  of the permitted groups or belongs to a device that is not disabled; with \<open>nogroups\<close> none is left where all groups can be dropped.
\<close>

theorem groups_restricted:
  assumes "arg_set cfg ''arg_noroot'' \<or> arg_set cfg ''arg_nogroups''"
  shows "(\<forall>g. g \<in> set (drop_privs gw ok force cfg current) \<longrightarrow>
            g \<noteq> 0 \<and> (\<exists>us. gw_user_groups gw = Some us \<and> g \<in> set us) \<and>
            (\<exists>name. gw_group_id gw name = g \<and> (name \<in> set allowed_groups \<or> name \<in> set (device_groups cfg)))) \<and>
         (arg_set cfg ''arg_nogroups'' \<and> check_can_drop_all_groups gw cfg \<longrightarrow> drop_privs gw ok force cfg current = [])"
proof (intro conjI allI impI)
  fix g
  assume "g \<in> set (drop_privs gw ok force cfg current)"
  note kept = groups_kept [OF assms this]
  show "g \<noteq> 0" by (rule kept [THEN conjunct1])
  show "\<exists>us. gw_user_groups gw = Some us \<and> g \<in> set us" by (rule kept [THEN conjunct2, THEN conjunct1])
  show "\<exists>name. gw_group_id gw name = g \<and> (name \<in> set allowed_groups \<or> name \<in> set (device_groups cfg))"
    by (rule kept [THEN conjunct2, THEN conjunct2])
qed (simp add: drop_privs_def clean_supplementary_groups_def)

definition demo_groups :: group_world where
  "demo_groups = \<lparr>gw_group_id = (\<lambda>n. if n = ''audio'' then 29 else if n = ''video'' then 44 else 0), gw_user_groups = Some [29, 44, 1000],
     gw_gid = 1000, gw_nvidia = False, gw_seats = True\<rparr>"

theorem groups_restricted_witness:
  "let cfg = set_arg ''arg_novideo'' 1 (set_arg ''arg_noroot'' 1 plain_cfg); gs = drop_privs demo_groups True False cfg [29, 44, 1000] in
   29 \<in> set gs \<and> 44 \<notin> set gs \<and> (\<exists>name. gw_group_id demo_groups name = 29 \<and> (name \<in> set allowed_groups \<or> name \<in> set (device_groups cfg)))"
proof -
  let ?cfg = "set_arg ''arg_novideo'' 1 (set_arg ''arg_noroot'' 1 plain_cfg)"
  let ?gs = "drop_privs demo_groups True False ?cfg [29, 44, 1000]"
  have g: "?gs = [29]"
    by (simp add: drop_privs_def clean_supplementary_groups_def demo_groups_def store_defs plain_cfg_def device_groups_def
        allowed_groups_def copy_group_ifcont_def find_group_def MAX_GROUPS_def Let_def)
  have "arg_set ?cfg ''arg_noroot'' \<or> arg_set ?cfg ''arg_nogroups''" by (simp add: store_defs)
  from groups_restricted [OF this, of demo_groups True False "[29, 44, 1000]"] g show ?thesis by (simp add: Let_def)
qed

text \<open>The entries of the map.\<close>

definition mapped_ids :: "group_world \<Rightarrow> profile_cfg \<Rightarrow> u32 list" where
  "mapped_ids gw cfg =
     gw_gid gw # filter (\<lambda>g. g \<noteq> 0) (map (gw_group_id gw)
       ((if \<not> arg_set cfg ''arg_nogroups'' \<or> \<not> check_can_drop_all_groups gw cfg then device_groups cfg else []) @
        (if arg_set cfg ''arg_nogroups'' then [] else allowed_groups)))"

lemma fmt_d_length: "length (fmt_d (sint (g :: u32))) \<le> 11"
proof -
  have "sint g < 2 ^ 31" "- (2 ^ 31) \<le> sint g" using sint_lt [of g] sint_ge [of g] by simp_all
  then have "nat (- sint g) < 10 ^ 10" "nat (sint g) < 10 ^ 10" by simp_all
  then show ?thesis
    using length_digits_of [of 10 "nat (- sint g)" 10] length_digits_of [of 10 "nat (sint g)" 10]
    by (simp add: fmt_d_def fmt_u_def)
qed

lemma gid_line_length: "length (gid_line g) \<le> 26"
  using fmt_d_length [of g] by (simp add: gid_line_def)

lemma fmt_d_comma: "CHR '','' \<notin> set (fmt_d i)"
proof -
  have "CHR '','' \<notin> set (digits_of 10 n)" for n
    using digits_of_digits [of 10 n] by (auto simp: list_all_iff digit_value_def Let_def)
  then show ?thesis by (simp add: fmt_d_def fmt_u_def)
qed

lemma add_gids:
  "length t + 26 * length gs < GIDMAP_SIZE \<Longrightarrow>
     fold_result (add_gid gw) gs t = Inr (t @ concat (map gid_line (filter (\<lambda>g. g \<noteq> 0) (map (gw_group_id gw) gs))))"
proof (induction gs arbitrary: t)
  case (Cons n ns)
  have "length (gid_line (gw_group_id gw n)) \<le> 26" by (rule gid_line_length)
  with Cons show ?case by (auto simp: add_gid_def sprintf_gid_def Let_def)
qed simp

text \<open>
  The map of groups is written without overrunning its array of 1024 bytes. It has one line for the group of the user and
  one for each group that is mapped, and with \<open>noroot\<close> every supplementary group that is kept is mapped, unless
  \<open>nogroups\<close> is given as well.
\<close>

theorem gid_map_fits:
  "\<exists>t. gid_map gw cfg = Inr t \<and> length t < GIDMAP_SIZE \<and> update_map t = concat (map gid_line (mapped_ids gw cfg)) \<and>
       (\<not> arg_set cfg ''arg_nogroups'' \<and> arg_set cfg ''arg_noroot'' \<longrightarrow> set (drop_privs gw ok force cfg current) \<subseteq> set (mapped_ids gw cfg))"
proof -
  let ?ids = "\<lambda>gs. concat (map gid_line (filter (\<lambda>g. g \<noteq> 0) (map (gw_group_id gw) gs)))"
  let ?dev = "if \<not> arg_set cfg ''arg_nogroups'' \<or> \<not> check_can_drop_all_groups gw cfg then device_groups cfg else []"
  have l: "length (?ids gs) \<le> 26 * length gs" for gs
    by (induction gs) (auto intro: add_mono gid_line_length)
  have dev: "length ?dev \<le> 10" using device_groups_length by simp
  let ?t1 = "gid_line (gw_gid gw)" let ?t2 = "?t1 @ ?ids ?dev"
  have t1: "length ?t1 \<le> 26" by (rule gid_line_length)
  then have 1: "sprintf_gid (gw_gid gw) [] = Inr ?t1" by (simp add: sprintf_gid_def GIDMAP_SIZE_def)
  have 2: "fold_result (add_gid gw) ?dev ?t1 = Inr ?t2"
    by (rule add_gids) (use dev t1 in \<open>simp add: GIDMAP_SIZE_def\<close>)
  have t2: "length ?t2 \<le> 286" using l [of ?dev] dev t1 by simp
  have 3: "fold_result (add_gid gw) allowed_groups ?t2 = Inr (?t2 @ ?ids allowed_groups)"
    by (rule add_gids) (use t2 in \<open>simp add: GIDMAP_SIZE_def allowed_groups_def\<close>)
  let ?t = "concat (map gid_line (mapped_ids gw cfg))"
  have "gid_map gw cfg = Inr ?t"
    using 1 2 3 by (cases "arg_set cfg ''arg_nogroups''"; cases "check_can_drop_all_groups gw cfg") (simp_all add: gid_map_def mapped_ids_def)
  moreover have "length ?t < GIDMAP_SIZE"
    using t2 l [of allowed_groups] by (cases "arg_set cfg ''arg_nogroups''") (simp_all add: mapped_ids_def GIDMAP_SIZE_def allowed_groups_def)
  moreover have "update_map ?t = ?t"
  proof -
    have "CHR '','' \<notin> set ?t" using fmt_d_comma by (auto simp: gid_line_def)
    then show ?thesis unfolding update_map_def by (intro map_idI) auto
  qed
  moreover have "set (drop_privs gw ok force cfg current) \<subseteq> set (mapped_ids gw cfg)"
    if "\<not> arg_set cfg ''arg_nogroups'' \<and> arg_set cfg ''arg_noroot''"
    using groups_kept [of cfg _ gw ok force current] that by (fastforce simp: mapped_ids_def)
  ultimately show ?thesis by auto
qed

theorem gid_map_fits_witness:
  "\<exists>t. gid_map demo_groups (set_arg ''arg_noroot'' 1 plain_cfg) = Inr t \<and> length t < GIDMAP_SIZE \<and>
     set (drop_privs demo_groups True False (set_arg ''arg_noroot'' 1 plain_cfg) [29]) \<subseteq> {1000, 29, 44}"
proof -
  have "mapped_ids demo_groups (set_arg ''arg_noroot'' 1 plain_cfg) = [1000, 29, 44]"
    by (simp add: mapped_ids_def demo_groups_def store_defs plain_cfg_def device_groups_def allowed_groups_def)
  with gid_map_fits [of demo_groups "set_arg ''arg_noroot'' 1 plain_cfg" True False "[29]"] show ?thesis
    by (auto simp: store_defs plain_cfg_def)
qed

end
