(* ===== verification/Paths.thy ===== *)
theory Paths
  imports Util Env
begin

text \<open>
  The search path of \<open>firejail/paths.c\<close>: the elements of \<open>PATH\<close> that profile entries with \<open>${PATH}\<close> stand for, and the
  search for a program in them. \<open>realpath("/bin")\<close> and what \<open>access\<close> and \<open>stat\<close> answer are parameters.
\<close>

subsection \<open>The elements of the path\<close>

definition DEFAULT_PATH :: string where
  "DEFAULT_PATH = ''/usr/local/bin:/usr/bin:/bin:/usr/local/sbin:/usr/sbin:/sbin''"

definition strip_slashes :: "string \<Rightarrow> string" where
  "strip_slashes elt = rev (dropWhile (\<lambda>c. c = slash) (rev elt))"

text \<open>
  The loop over the elements: \<open>bin_symlink\<close> is 0, or one more than the number of \<open>/bin\<close> and \<open>/usr/bin\<close> seen so far;
  \<open>sz\<close> is the size of the array, which holds the null pointer at its end too.
\<close>

fun fill_paths :: "nat \<Rightarrow> string list \<Rightarrow> nat \<Rightarrow> string list \<Rightarrow> string list result" where
  "fill_paths sz [] bin_symlink paths = (if length paths < sz then Inr paths else Inl BufferOverflow)"
| "fill_paths sz (e # es) bin_symlink paths =
     (if e = [] \<or> hd e \<noteq> slash then fill_paths sz es bin_symlink paths
      else let elt = strip_slashes e in
        if elt = [] then fill_paths sz es bin_symlink paths
        else let bin = (if 0 < bin_symlink \<and> (elt = ''/bin'' \<or> elt = ''/usr/bin'') then bin_symlink + 1 else bin_symlink) in
          if bin = 3 then fill_paths sz es 0 paths
          else if elt \<in> set paths then fill_paths sz es bin paths
          else if sz \<le> length paths then Inl BufferOverflow
          else fill_paths sz es bin (paths @ [elt]))"

definition path_array_size :: "string \<Rightarrow> nat" where
  "path_array_size path = length (filter (\<lambda>c. c = CHR '':'') path) + 2"

definition init_paths :: "bool \<Rightarrow> Env list \<Rightarrow> (string list \<times> Env list) result" where
  "init_paths bin_is_usr_bin env =
     (let found = env_get env ''PATH'' None;
          path = (case found of None \<Rightarrow> DEFAULT_PATH | Some p \<Rightarrow> p) in
      bind_result (if found = None then env_store_name_val ''PATH'' DEFAULT_PATH SETENV env else Inr env) (\<lambda>env.
      bind_result (fill_paths (path_array_size path) (split_on (CHR '':'') path) (if bin_is_usr_bin then 1 else 0) [])
        (\<lambda>paths. Inr (paths, env))))"

text \<open>\<open>longest_path_elt\<close>, and the search for a program. \<open>scratch\<close> is a buffer of its size plus that of the program and 2.\<close>

definition longest_path_elt :: "string list \<Rightarrow> nat" where
  "longest_path_elt paths = foldr (\<lambda>p m. max (length p) m) paths 0"

fun find_program :: "nat \<Rightarrow> (string \<Rightarrow> bool) \<Rightarrow> (string \<Rightarrow> bool option) \<Rightarrow> string list \<Rightarrow> string \<Rightarrow> bool result" where
  "find_program sz executable regular [] program = Inr False"
| "find_program sz executable regular (dir # ps) program =
     (let scratch = dir @ ''/'' @ program in
      if sz < length scratch + 1 then Inl BufferOverflow
      else if executable scratch
      then (case regular scratch of
              None \<Rightarrow> Inl (CannotOpen scratch)
            | Some reg \<Rightarrow> if reg then Inr True else find_program sz executable regular ps program)
      else find_program sz executable regular ps program)"

definition program_in_path :: "(string \<Rightarrow> bool) \<Rightarrow> (string \<Rightarrow> bool option) \<Rightarrow> string list \<Rightarrow> string \<Rightarrow> bool result" where
  "program_in_path executable regular paths program =
     (if program = [] \<or> slash \<in> set program \<or> program = ''.'' \<or> program = ''..'' then Inl AssertFailure
      else find_program (longest_path_elt paths + length program + 2) executable regular paths program)"

subsection \<open>What the elements look like\<close>

definition path_elt_ok :: "string \<Rightarrow> bool" where
  "path_elt_ok p \<longleftrightarrow> p \<noteq> [] \<and> hd p = slash \<and> last p \<noteq> slash \<and> CHR '':'' \<notin> set p"

lemma strip_slashes_props:
  assumes "strip_slashes e \<noteq> []"
  shows "hd (strip_slashes e) = hd e" "last (strip_slashes e) \<noteq> slash" "set (strip_slashes e) \<subseteq> set e"
proof -
  have e: "e = strip_slashes e @ rev (takeWhile (\<lambda>c. c = slash) (rev e))"
    unfolding strip_slashes_def by (metis rev_append rev_rev_ident takeWhile_dropWhile_id)
  show "hd (strip_slashes e) = hd e" using assms by (subst (2) e) simp
  show "last (strip_slashes e) \<noteq> slash"
    using assms hd_dropWhile [of "\<lambda>c. c = slash" "rev e"] by (simp add: strip_slashes_def last_rev)
  show "set (strip_slashes e) \<subseteq> set e" by (auto simp: strip_slashes_def dest: set_dropWhileD)
qed

lemma fill_paths_ok:
  assumes "length paths + length es < sz" "distinct paths" "list_all path_elt_ok paths" "list_all (\<lambda>e. CHR '':'' \<notin> set e) es"
  shows "\<exists>ps. fill_paths sz es bin paths = Inr ps \<and> distinct ps \<and> list_all path_elt_ok ps \<and> length ps < sz"
  using assms
proof (induction sz es bin paths rule: fill_paths.induct)
  case (2 sz e es bin paths)
  let ?elt = "strip_slashes e"
  have "path_elt_ok ?elt" if "e \<noteq> []" "hd e = slash" "?elt \<noteq> []"
    using that strip_slashes_props [OF that(3)] "2.prems"(4) by (auto simp: path_elt_ok_def)
  with 2 show ?case by (auto simp: Let_def)
qed auto

lemma split_on_length: "length (split_on c s) = length (filter (\<lambda>x. x = c) s) + 1"
  by (induction c s rule: split_on.induct) (auto simp: split: list.splits)

lemma find_program_spec:
  assumes "\<And>d. d \<in> set ps \<Longrightarrow> length d + length program + 2 \<le> sz"
    and "\<And>f. executable f \<Longrightarrow> regular f \<noteq> None"
  shows "find_program sz executable regular ps program =
    Inr (\<exists>d \<in> set ps. executable (d @ ''/'' @ program) \<and> regular (d @ ''/'' @ program) = Some True)"
  using assms(1)
proof (induction ps)
  case (Cons d ps)
  have "regular (d @ ''/'' @ program) \<noteq> None" if "executable (d @ ''/'' @ program)" using assms(2) that by blast
  moreover have "\<not> sz < length (d @ ''/'' @ program) + 1" using Cons.prems [of d] by simp
  ultimately show ?case using Cons by (cases "regular (d @ ''/'' @ program)") (auto simp: Let_def)
qed simp

lemma longest_bound: "d \<in> set ps \<Longrightarrow> length d \<le> longest_path_elt ps"
  by (induction ps) (auto simp: longest_path_elt_def)

text \<open>
  Whatever \<open>PATH\<close> is, its elements are found without overrunning the array: absolute directories without a final slash,
  each once. The search for a program in them stays within its buffer and finds it exactly if it is an executable
  regular file of one of them.
\<close>

theorem path_search:
  "\<exists>paths env'. init_paths b env = Inr (paths, env') \<and> distinct paths \<and> list_all path_elt_ok paths \<and>
     (program \<noteq> [] \<and> slash \<notin> set program \<and> program \<noteq> ''.'' \<and> program \<noteq> ''..'' \<and> (\<forall>f. executable f \<longrightarrow> regular f \<noteq> None) \<longrightarrow>
        program_in_path executable regular paths program =
          Inr (\<exists>d \<in> set paths. executable (d @ ''/'' @ program) \<and> regular (d @ ''/'' @ program) = Some True))"
proof -
  have fill: "\<exists>ps. fill_paths (path_array_size path) (split_on (CHR '':'') path) bin [] = Inr ps \<and> distinct ps \<and> list_all path_elt_ok ps"
    for path bin
    using fill_paths_ok [of "[]" "split_on (CHR '':'') path" "path_array_size path" bin] split_on_length [of "CHR '':''" path]
    by (auto simp: path_array_size_def list_all_iff dest: split_on_chars)
  obtain e where e: "env_store_name_val ''PATH'' DEFAULT_PATH SETENV env = Inr e"
    by (simp add: env_store_name_val_def)
  obtain paths env' where p: "init_paths b env = Inr (paths, env')" "distinct paths" "list_all path_elt_ok paths"
  proof (cases "env_get env ''PATH'' None")
    case None
    obtain ps where ps: "fill_paths (path_array_size DEFAULT_PATH) (split_on (CHR '':'') DEFAULT_PATH) (if b then 1 else 0) [] = Inr ps"
      "distinct ps" "list_all path_elt_ok ps" using fill by blast
    have "init_paths b env = Inr (ps, e)" by (simp only: init_paths_def None Let_def option.case simp_thms if_True e bind_result.simps ps(1))
    then show ?thesis using ps(2,3) by (rule that)
  next
    case (Some path)
    obtain ps where ps: "fill_paths (path_array_size path) (split_on (CHR '':'') path) (if b then 1 else 0) [] = Inr ps"
      "distinct ps" "list_all path_elt_ok ps" using fill by blast
    have "init_paths b env = Inr (ps, env)"
      by (simp only: init_paths_def Some Let_def option.case option.distinct if_False bind_result.simps ps(1))
    then show ?thesis using ps(2,3) by (rule that)
  qed
  have "program_in_path executable regular paths program =
      Inr (\<exists>d \<in> set paths. executable (d @ ''/'' @ program) \<and> regular (d @ ''/'' @ program) = Some True)"
    if "program \<noteq> []" "slash \<notin> set program" "program \<noteq> ''.''" "program \<noteq> ''..''" "\<forall>f. executable f \<longrightarrow> regular f \<noteq> None"
    using that longest_bound [of _ paths] by (simp add: program_in_path_def find_program_spec)
  with p show ?thesis by auto
qed

theorem path_search_witness:
  "\<exists>paths env'. init_paths False [\<lparr>e_name = ''PATH'', e_value = Some ''/a:b:/a/'', e_op = SETENV\<rparr>] = Inr (paths, env') \<and> paths = [''/a''] \<and>
     program_in_path (\<lambda>f. f = ''/a/ls'') (\<lambda>_. Some True) paths ''ls'' = Inr True"
proof -
  let ?env = "[\<lparr>e_name = ''PATH'', e_value = Some ''/a:b:/a/'', e_op = SETENV\<rparr>]"
  have i: "init_paths False ?env = Inr ([''/a''], ?env)"
    by (simp add: init_paths_def Let_def path_array_size_def strip_slashes_def)
  with path_search [of False ?env "''ls''" "\<lambda>f. f = ''/a/ls''" "\<lambda>_. Some True"] show ?thesis by auto
qed

text \<open>
  When \<open>/bin\<close> is a link to \<open>/usr/bin\<close>, one of them is to be left out; a repeated \<open>/usr/bin\<close> counts as the second one, and
  \<open>/bin\<close> stays.
\<close>

lemma bin_not_skipped:
  "\<exists>env'. init_paths True [\<lparr>e_name = ''PATH'', e_value = Some ''/usr/bin:/usr/bin:/bin'', e_op = SETENV\<rparr>] = Inr ([''/usr/bin'', ''/bin''], env')"
  by (simp add: init_paths_def Let_def path_array_size_def strip_slashes_def)

end
