(* ===== verification/Mountinfo.thy ===== *)
theory Mountinfo
  imports Profile_Theorems
begin

text \<open>
  The table of mounts, \<open>firejail/mountinfo.c\<close>: the lines of \<open>/proc/self/mountinfo\<close> with the octal escapes of the kernel,
  the last mount, and the mount points that a recursive remount covers. The text of the file is a parameter.
\<close>

subsection \<open>Lines\<close>

definition MAX_BUF :: nat where "MAX_BUF = 4096"

record MountData =
  mountid :: int
  fsname :: string
  mount_dir :: string
  fstype :: string

text \<open>\<open>strtok\<close> with a state: the next token and what is left, \<open>None\<close> at the end.\<close>

definition strtok_next :: "char \<Rightarrow> string \<Rightarrow> (string \<times> string) option" where
  "strtok_next c s =
     (let t = dropWhile (\<lambda>d. d = c) s in
      if t = [] then None else Some (takeWhile (\<lambda>d. d \<noteq> c) t, drop 1 (dropWhile (\<lambda>d. d \<noteq> c) t)))"

fun strtok_n :: "nat \<Rightarrow> char \<Rightarrow> string \<Rightarrow> (string list \<times> string) option" where
  "strtok_n 0 c s = Some ([], s)"
| "strtok_n (Suc n) c s =
     (case strtok_next c s of
        None \<Rightarrow> None
      | Some (t, r) \<Rightarrow> (case strtok_n n c r of None \<Rightarrow> None | Some (ts, r) \<Rightarrow> Some (t # ts, r)))"

abbreviation backslash :: char where "backslash \<equiv> CHR 0x5C"

definition read_oct :: "char \<Rightarrow> char \<Rightarrow> char \<Rightarrow> nat result" where
  "read_oct a b c =
     (if digit_value a < 8 \<and> digit_value b < 8 \<and> digit_value c < 8
      then Inr (digit_value a * 64 + digit_value b * 8 + digit_value c) else Inl AssertFailure)"

text \<open>\<open>unmangle_path\<close>: a character is written for every escape; the string ends at the first zero.\<close>

fun unmangle_loop :: "string \<Rightarrow> string result" where
  "unmangle_loop [] = Inr []"
| "unmangle_loop (c # s) =
     (if c = backslash
      then (case s of
              a # b # d # r \<Rightarrow>
                bind_result (read_oct a b d) (\<lambda>v. bind_result (unmangle_loop r) (\<lambda>t. Inr (char_of v # t)))
            | _ \<Rightarrow> Inl AssertFailure)
      else bind_result (unmangle_loop s) (\<lambda>t. Inr (c # t)))"

definition unmangle_path :: "string \<Rightarrow> string result" where
  "unmangle_path path = bind_result (unmangle_loop path) (\<lambda>t. Inr (cstr t))"

abbreviation mountinfo_error :: c_error where
  "mountinfo_error \<equiv> CannotRead ''/proc/self/mountinfo''"

definition parse_line :: "string \<Rightarrow> MountData result" where
  "parse_line line =
     (case strtok_n 5 space line of
        Some ([idw, _, _, fs, dir], r) \<Rightarrow>
          (case strtok_next (CHR ''-'') r of
             None \<Rightarrow> Inl mountinfo_error
           | Some (_, r) \<Rightarrow>
               (case strtok_next space r of
                  None \<Rightarrow> Inl mountinfo_error
                | Some (ty, _) \<Rightarrow>
                    if atoi idw < 0 then Inl mountinfo_error
                    else bind_result (unmangle_path fs) (\<lambda>fs. bind_result (unmangle_path dir) (\<lambda>dir.
                      Inr \<lparr>mountid = atoi idw, fsname = fs, mount_dir = dir, fstype = ty\<rparr>))))
      | _ \<Rightarrow> Inl mountinfo_error)"

text \<open>The last mount; without a line the buffer is the empty string.\<close>

definition get_last_mount :: "string \<Rightarrow> MountData result" where
  "get_last_mount mountinfo =
     (let ls = fgets_lines MAX_BUF mountinfo in parse_line (if ls = [] then [] else last ls))"

subsection \<open>The mount points below a directory\<close>

fun find_mount :: "int \<Rightarrow> string list \<Rightarrow> string list option result" where
  "find_mount i [] = Inr None"
| "find_mount i (l # ls) = bind_result (parse_line l) (\<lambda>m. if mountid m = i then Inr (Some ls) else find_mount i ls)"

definition below :: "string \<Rightarrow> string \<Rightarrow> bool" where
  "below path dir \<longleftrightarrow> starts_with path dir \<and> starts_with ''/'' (drop (length path) dir)"

definition collect_mount :: "string \<Rightarrow> string \<Rightarrow> string list \<Rightarrow> string list result" where
  "collect_mount path line rv =
     bind_result (parse_line line) (\<lambda>m. Inr (if below path (mount_dir m) then rv @ [mount_dir m] else rv))"

definition build_mount_array :: "string \<Rightarrow> int \<Rightarrow> string \<Rightarrow> string list option result" where
  "build_mount_array mountinfo i path =
     bind_result (find_mount i (fgets_lines MAX_BUF mountinfo)) (\<lambda>found.
       case found of
         None \<Rightarrow> Inr None
       | Some ls \<Rightarrow> bind_result (fold_result (collect_mount path) ls [path]) (\<lambda>rv. Inr (Some rv)))"

subsection \<open>The lines of the kernel\<close>

text \<open>
  What proc(5) says of a line: the mount, its parent, the device, the root of the mount and the mount point, both with
  some characters written as octal escapes, the options and fields up to a hyphen, the type, and the rest.
\<close>

definition octal :: "char \<Rightarrow> string" where
  "octal c = (let n = of_char c in [backslash, hex_digit (n div 64), hex_digit (n div 8 mod 8), hex_digit (n mod 8)])"

definition mangle :: "string \<Rightarrow> string \<Rightarrow> string" where
  "mangle esc s = concat (map (\<lambda>c. if c \<in> set esc then octal c else [c]) s)"

record mount_entry =
  me_id :: nat
  me_parent :: string
  me_device :: string
  me_root :: string
  me_point :: string
  me_options :: string
  me_type :: string
  me_rest :: string

definition entry_line :: "string \<Rightarrow> mount_entry \<Rightarrow> string" where
  "entry_line esc m =
     fmt_u (me_id m) @ space # me_parent m @ space # me_device m @ space # mangle esc (me_root m) @ space #
     mangle esc (me_point m) @ space # me_options m @ '' - '' @ me_type m @ space # me_rest m"

definition mount_word :: "string \<Rightarrow> bool" where
  "mount_word s \<longleftrightarrow> s \<noteq> [] \<and> space \<notin> set s \<and> newline \<notin> set s"

definition escapes_ok :: "string \<Rightarrow> bool" where
  "escapes_ok esc \<longleftrightarrow> {space, newline, backslash} \<subseteq> set esc"

definition entry_ok :: "string \<Rightarrow> mount_entry \<Rightarrow> bool" where
  "entry_ok esc m \<longleftrightarrow>
     me_id m < 2 ^ 31 \<and> mount_word (me_parent m) \<and> mount_word (me_device m) \<and> me_root m \<noteq> [] \<and> me_point m \<noteq> [] \<and>
     NUL \<notin> set (me_root m) \<and> NUL \<notin> set (me_point m) \<and>
     me_options m \<noteq> [] \<and> CHR ''-'' \<notin> set (me_options m) \<and> newline \<notin> set (me_options m) \<and> mount_word (me_type m) \<and>
     newline \<notin> set (me_rest m) \<and> length (entry_line esc m) + 1 < MAX_BUF"

definition mount_text :: "string \<Rightarrow> mount_entry list \<Rightarrow> string" where
  "mount_text esc ms = concat (map (\<lambda>m. entry_line esc m @ [newline]) ms)"

definition mount_data :: "mount_entry \<Rightarrow> MountData" where
  "mount_data m = \<lparr>mountid = int (me_id m), fsname = me_root m, mount_dir = me_point m, fstype = me_type m\<rparr>"

subsection \<open>Reading them back\<close>

lemma octal_digit: "n < 8 \<Longrightarrow> digit_value (hex_digit n) = n \<and> hex_digit n \<noteq> space \<and> hex_digit n \<noteq> newline"
  using less_16_cases [of n] digit_value_hex [of n] by (auto simp: hex_digit_def)

lemma octal_top: "(of_char c :: nat) div 64 < 8"
proof -
  have "(of_char c :: nat) < 256" by simp
  then show ?thesis by (intro less_mult_imp_div_less) linarith
qed

lemma octal_read:
  "read_oct (hex_digit (of_char c div 64)) (hex_digit (of_char c div 8 mod 8)) (hex_digit (of_char c mod 8)) = Inr (of_char c)"
proof -
  have "(n :: nat) div 64 * 64 + n div 8 mod 8 * 8 + n mod 8 = n" for n
  proof -
    have "n div 64 = n div 8 div 8" by (simp add: div_mult2_eq [symmetric])
    then show ?thesis using mult_div_mod_eq [of 8 n] mult_div_mod_eq [of 8 "n div 8"] by linarith
  qed
  then show ?thesis using octal_top [of c] by (simp add: read_oct_def octal_digit)
qed

lemma unmangle_mangle:
  assumes "backslash \<in> set esc"
  shows "unmangle_loop (mangle esc s) = Inr s"
proof (induction s)
  case (Cons c s)
  have m: "mangle esc (c # s) = (if c \<in> set esc then octal c else [c]) @ mangle esc s" by (simp add: mangle_def)
  show ?case
    using assms Cons octal_read [of c] by (auto simp: m octal_def Let_def)
qed (simp add: mangle_def)

lemma mangle_word:
  assumes "escapes_ok esc" "s \<noteq> []"
  shows "mount_word (mangle esc s)"
proof -
  have o: "space \<notin> set (octal c) \<and> newline \<notin> set (octal c)" for c
  proof -
    show ?thesis
      using octal_top [of c] octal_digit [of "of_char c div 64"] octal_digit [of "of_char c div 8 mod 8"] octal_digit [of "of_char c mod 8"]
      by (auto simp: octal_def Let_def)
  qed
  from assms(1) have e: "space \<in> set esc" "newline \<in> set esc" by (auto simp: escapes_ok_def)
  have "mangle esc s \<noteq> []" using assms(2) by (cases s) (auto simp: mangle_def octal_def Let_def)
  then show ?thesis using o e by (auto simp: mount_word_def mangle_def split: if_splits)
qed

lemma strtok_next_word:
  "w \<noteq> [] \<Longrightarrow> c \<notin> set w \<Longrightarrow> strtok_next c (w @ c # r) = Some (w, r)"
proof -
  assume w: "w \<noteq> []" "c \<notin> set w"
  then have "dropWhile (\<lambda>d. d = c) (w @ c # r) = w @ c # r" by (cases w) auto
  moreover have "takeWhile (\<lambda>d. d \<noteq> c) (w @ c # r) = w" "dropWhile (\<lambda>d. d \<noteq> c) (w @ c # r) = c # r"
    using w by (auto simp: takeWhile_append dropWhile_append)
  ultimately show ?thesis using w by (simp add: strtok_next_def)
qed

lemma strtok_next_sep: "strtok_next c (c # s) = strtok_next c s"
  by (simp add: strtok_next_def)

lemma fmt_u_word: "fmt_u n \<noteq> [] \<and> digit_value (hd (fmt_u n)) < 16 \<and> space \<notin> set (fmt_u n) \<and> newline \<notin> set (fmt_u n)"
proof -
  have d: "\<forall>c \<in> set (fmt_u n). digit_value c < 10" using digits_of_digits [of 10 n] by (simp add: fmt_u_def list_all_iff)
  moreover have "fmt_u n \<noteq> []" by (simp add: fmt_u_def)
  ultimately have "digit_value (hd (fmt_u n)) < 10" by (meson hd_in_set)
  moreover have "space \<notin> set (fmt_u n)" "newline \<notin> set (fmt_u n)" using d by (auto simp: digit_value_def)
  ultimately show ?thesis using \<open>fmt_u n \<noteq> []\<close> by simp
qed

lemma atoi_fmt_u: "n < 2 ^ 31 \<Longrightarrow> atoi (fmt_u n) = int n"
  using atoi_fmt_u_append [of n "[]"] by simp

lemma parse_entry_line:
  assumes "escapes_ok esc" "entry_ok esc m"
  shows "parse_line (entry_line esc m @ [newline]) = Inr (mount_data m)"
proof -
  have m: "mount_word (mangle esc (me_root m))" "mount_word (mangle esc (me_point m))"
    using assms by (auto intro!: mangle_word simp: entry_ok_def)
  have w: "mount_word s \<Longrightarrow> strtok_next space (s @ space # r) = Some (s, r)" for s r
    by (rule strtok_next_word) (auto simp: mount_word_def)
  have "strtok_next (CHR ''-'') (me_options m @ '' - '' @ r) = Some (me_options m @ '' '', space # r)" for r
    using strtok_next_word [of "me_options m @ '' ''" "CHR ''-''" "space # r"] assms(2) by (simp add: entry_ok_def)
  moreover have "strtok_next space (fmt_u (me_id m) @ space # r) = Some (fmt_u (me_id m), r)" for r
    using fmt_u_word by (intro strtok_next_word) auto
  moreover have "unmangle_path (mangle esc s) = Inr s" if "NUL \<notin> set s" for s
    using that assms(1) unmangle_mangle [of esc s] by (simp add: unmangle_path_def escapes_ok_def cstr_def)
      (metis takeWhile_eq_all_conv)
  moreover have "strtok_n 5 = strtok_n (Suc (Suc (Suc (Suc (Suc 0)))))" by (simp add: eval_nat_numeral)
  ultimately show ?thesis
    using assms(2) m
    by (simp add: parse_line_def entry_line_def w strtok_next_sep entry_ok_def atoi_fmt_u mount_data_def)
qed

lemma mount_text_lines:
  assumes "escapes_ok esc" "\<forall>m \<in> set ms. entry_ok esc m"
  shows "fgets_lines MAX_BUF (mount_text esc ms) = map (\<lambda>m. entry_line esc m @ [newline]) ms"
  using assms(2)
proof (induction ms)
  case (Cons m ms)
  let ?l = "entry_line esc m"
  have "newline \<notin> set ?l"
    using Cons.prems mangle_word [OF assms(1)] fmt_u_word by (auto simp: entry_line_def entry_ok_def mount_word_def)
  then have "takeWhile (\<lambda>c. c \<noteq> newline) (?l @ newline # mount_text esc ms) = ?l"
    by (subst takeWhile_append2) auto
  moreover have "length ?l + 1 < MAX_BUF" using Cons.prems by (simp add: entry_ok_def)
  ultimately have "fgets_line MAX_BUF (?l @ newline # mount_text esc ms) = ?l @ [newline]" by (simp add: fgets_line_def)
  moreover have "mount_text esc (m # ms) = ?l @ newline # mount_text esc ms" by (simp add: mount_text_def)
  ultimately show ?case using Cons by (simp add: fgets_lines.simps [of _ "?l @ newline # mount_text esc ms"])
qed (simp add: mount_text_def fgets_lines.simps fgets_line_def)

text \<open>The entries after the first one of a mount.\<close>

fun after_mount :: "nat \<Rightarrow> mount_entry list \<Rightarrow> mount_entry list option" where
  "after_mount i [] = None"
| "after_mount i (m # ms) = (if me_id m = i then Some ms else after_mount i ms)"

lemma after_mount_set: "after_mount i ms = Some rest \<Longrightarrow> set rest \<subseteq> set ms"
  by (induction i ms rule: after_mount.induct) (auto split: if_splits)

lemma find_mount_entries:
  assumes "escapes_ok esc" "\<forall>m \<in> set ms. entry_ok esc m"
  shows "find_mount (int i) (map (\<lambda>m. entry_line esc m @ [newline]) ms) =
    Inr (map_option (map (\<lambda>m. entry_line esc m @ [newline])) (after_mount i ms))"
  using assms(2) by (induction ms) (auto simp: parse_entry_line [OF assms(1)] mount_data_def)

lemma collect_mounts:
  assumes "escapes_ok esc" "\<forall>m \<in> set ms. entry_ok esc m"
  shows "fold_result (collect_mount path) (map (\<lambda>m. entry_line esc m @ [newline]) ms) rv =
    Inr (rv @ filter (below path) (map me_point ms))"
  using assms(2)
  by (induction ms arbitrary: rv) (auto simp: fold_result_Nil collect_mount_def parse_entry_line [OF assms(1)] mount_data_def)

lemma mount_array_entries:
  assumes "escapes_ok esc" "\<forall>m \<in> set ms. entry_ok esc m"
  shows "build_mount_array (mount_text esc ms) (int i) path =
    Inr (map_option (\<lambda>rest. path # filter (below path) (map me_point rest)) (after_mount i ms))"
proof -
  note lines = mount_text_lines [OF assms] find_mount_entries [OF assms]
  have "fold_result (collect_mount path) (map (\<lambda>m. entry_line esc m @ [newline]) rest) [path] =
      Inr (path # filter (below path) (map me_point rest))" if "after_mount i ms = Some rest" for rest
  proof -
    have "\<forall>m \<in> set rest. entry_ok esc m" using after_mount_set [OF that] assms(2) by blast
    then show ?thesis by (simp add: collect_mounts [OF assms(1)])
  qed
  then show "build_mount_array (mount_text esc ms) (int i) path =
      Inr (map_option (\<lambda>rest. path # filter (below path) (map me_point rest)) (after_mount i ms))"
    by (cases "after_mount i ms") (simp_all add: build_mount_array_def lines)
qed

lemma last_mount_entry:
  assumes "escapes_ok esc" "\<forall>m \<in> set ms. entry_ok esc m" "ms \<noteq> []"
  shows "get_last_mount (mount_text esc ms) = Inr (mount_data (last ms))"
  using assms parse_entry_line [OF assms(1), of "last ms"] by (simp add: get_last_mount_def mount_text_lines last_map)


definition demo_mount :: "nat \<Rightarrow> string \<Rightarrow> mount_entry" where
  "demo_mount i dir =
     \<lparr>me_id = i, me_parent = ''1'', me_device = ''8:1'', me_root = ''/'', me_point = dir, me_options = ''rw'',
      me_type = ''ext4'', me_rest = ''/dev/sda1 rw''\<rparr>"

lemma demo_mount_ok: "i < 10 \<Longrightarrow> dir \<in> {''/'', ''/home'', ''/home/a b''} \<Longrightarrow> entry_ok [space, newline, backslash] (demo_mount i dir)"
  by (auto simp: entry_ok_def demo_mount_def mount_word_def entry_line_def mangle_def octal_def fmt_u_def digits_of.simps MAX_BUF_def)


text \<open>Below the root directory no mount point is found, since a path does not begin with two slashes.\<close>

lemma root_array_alone:
  assumes "escapes_ok esc" "\<forall>m \<in> set ms. entry_ok esc m \<and> \<not> starts_with ''//'' (me_point m)" "after_mount i ms = Some rest"
  shows "build_mount_array (mount_text esc ms) (int i) ''/'' = Inr (Some [''/''])"
proof -
  have "\<not> below ''/'' d" if "\<not> starts_with ''//'' d" for d
    using that by (cases d; cases "tl d") (auto simp: below_def starts_with_def)
  then have "filter (below ''/'') (map me_point rest) = []"
    using assms(2) after_mount_set [OF assms(3)] by (auto simp: filter_empty_conv)
  then show ?thesis using mount_array_entries [of esc ms i "''/''"] assms by simp
qed

end
