(* ===== verification/Fs_Blacklist.thy ===== *)
theory Fs_Blacklist
  imports Paths Mountinfo
begin

text \<open>
  The file system of the sandbox, \<open>firejail/fs.c\<close> and \<open>firejail/fs_mkdir.c\<close>: the entries of the profile that hide, remount
  and create files, and the base file system.

  The state is the sequence of the changes of the file system so far. What the C library and the kernel answer about files,
  patterns and mounts is in \<open>fs_world\<close>; an answer may depend on the changes so far, since a file below a directory that
  has been hidden is not found any more.
\<close>

unbundle bit_operations_syntax

subsection \<open>Changes and answers\<close>

datatype OPERATION = BLACKLIST_FILE | BLACKLIST_NOLOG | MOUNT_READONLY | MOUNT_TMPFS | MOUNT_NOEXEC | MOUNT_RDWR | MOUNT_RDWR_NOCHECK

datatype fs_action =
    Disable OPERATION string bool  \<comment> \<open>an empty directory or file over the path, and whether it is a directory\<close>
  | Force_Disable OPERATION string  \<comment> \<open>over a path that cannot be resolved for lack of permissions\<close>
  | Bind_Self string
  | Remount string u64  \<comment> \<open>with these flags\<close>
  | Tmpfs string u64 string  \<comment> \<open>with these flags and options\<close>
  | Bind_Rec string string
  | Mount_New string string u64  \<comment> \<open>a new file system of a type\<close>
  | Umount string
  | Mkdir string
  | Mkfile string
  | Show string  \<comment> \<open>a bind of the file below a covered directory to its path\<close>
  | Symlink string string
  | Private_Home

type_synonym changes = "fs_action list"

datatype resolved = Resolved string | Denied | Missing

record file_stat =
  st_is_dir :: bool
  st_mode :: u32
  st_uid :: u32
  st_gid :: u32
  st_dev :: u64
  st_ino :: u64

text \<open>
  \<open>fw_stat\<close> follows links; \<open>fw_nofollow\<close> is the answer to \<open>safer_openat\<close> without following links and \<open>fstat\<close>, \<open>None\<close> also
  for the errors \<open>EACCES\<close> and \<open>EIO\<close> of the latter; \<open>fw_flags\<close> is that of \<open>fstatvfs\<close>. \<open>fw_mount_id\<close> is \<open>None\<close> for what
  is not a directory or has no mount id. \<open>fw_succeeds\<close> says whether a change can be made.
\<close>

record fs_world =
  fw_uid :: u32
  fw_homedir :: string
  fw_bindir :: string
  fw_paths :: "string list"
  fw_fnmatch :: "string \<Rightarrow> string \<Rightarrow> bool option"
  fw_macros :: "changes \<Rightarrow> macro_env"
  fw_glob :: "changes \<Rightarrow> string \<Rightarrow> string list option"
  fw_realpath :: "changes \<Rightarrow> string \<Rightarrow> resolved"
  fw_stat :: "changes \<Rightarrow> string \<Rightarrow> file_stat option"
  fw_can_open :: "changes \<Rightarrow> string \<Rightarrow> bool"
  fw_can_chdir :: "changes \<Rightarrow> string \<Rightarrow> bool"
  fw_is_link :: "changes \<Rightarrow> string \<Rightarrow> bool"
  fw_nofollow :: "changes \<Rightarrow> string \<Rightarrow> file_stat option"
  fw_flags :: "changes \<Rightarrow> string \<Rightarrow> u64 option"
  fw_mount_id :: "changes \<Rightarrow> string \<Rightarrow> int option"
  fw_mountinfo :: "changes \<Rightarrow> string"
  fw_succeeds :: "changes \<Rightarrow> fs_action \<Rightarrow> bool"

record fs_state =
  fs_actions :: changes
  fs_rebuild_etc :: "string list"

definition act :: "fs_action \<Rightarrow> fs_state \<Rightarrow> fs_state" where
  "act a st = st\<lparr>fs_actions := fs_actions st @ [a]\<rparr>"

definition can_do :: "fs_world \<Rightarrow> fs_action \<Rightarrow> fs_state \<Rightarrow> bool" where
  "can_do w a st \<longleftrightarrow> fw_succeeds w (fs_actions st) a"

definition act_or_exit :: "fs_world \<Rightarrow> string \<Rightarrow> fs_action \<Rightarrow> fs_state \<Rightarrow> fs_state result" where
  "act_or_exit w msg a st = (if can_do w a st then Inr (act a st) else Inl (ErrExit msg))"

definition try_act :: "fs_world \<Rightarrow> fs_action \<Rightarrow> fs_state \<Rightarrow> fs_state" where
  "try_act w a st = (if can_do w a st then act a st else st)"

subsection \<open>Mounting a tmpfs\<close>

definition MS_RDONLY :: u64 where "MS_RDONLY = 1"
definition MS_NOSUID :: u64 where "MS_NOSUID = 2"
definition MS_NODEV :: u64 where "MS_NODEV = 4"
definition MS_NOEXEC :: u64 where "MS_NOEXEC = 8"
definition MS_REMOUNT :: u64 where "MS_REMOUNT = 32"
definition MS_BIND :: u64 where "MS_BIND = 4096"
definition MS_REC :: u64 where "MS_REC = 16384"

lemmas mount_flags = MS_RDONLY_def MS_NOSUID_def MS_NODEV_def MS_NOEXEC_def MS_REMOUNT_def MS_BIND_def MS_REC_def

definition tmpfs_options :: "file_stat \<Rightarrow> string" where
  "tmpfs_options s =
     ''mode='' @ digits_of 8 (unat (st_mode s AND 4095)) @ '',uid='' @ fmt_u (unat (st_uid s)) @ '',gid='' @ fmt_u (unat (st_gid s))"

definition fs_tmpfs :: "fs_world \<Rightarrow> string \<Rightarrow> bool \<Rightarrow> fs_state \<Rightarrow> fs_state result" where
  "fs_tmpfs w dir check_owner st =
     (case fw_nofollow w (fs_actions st) dir of
        None \<Rightarrow> Inl (ErrExit ''while opening directory'')
      | Some s \<Rightarrow>
          if \<not> st_is_dir s then Inl (ErrExit ''while opening directory'')
          else if check_owner \<and> st_uid s \<noteq> fw_uid w then Inl (Exited ''cannot mount tmpfs: not owned by the current user'')
          else (case fw_flags w (fs_actions st) dir of
                  None \<Rightarrow> Inl (ErrExit ''fstatvfs'')
                | Some flags \<Rightarrow>
                    let flags = flags AND NOT (MS_RDONLY OR MS_BIND OR MS_REMOUNT) in
                    bind_result (act_or_exit w ''mounting tmpfs'' (Tmpfs dir (flags OR MS_NOSUID OR MS_NODEV) (tmpfs_options s)) st) (\<lambda>st.
                    bind_result (get_last_mount (fw_mountinfo w (fs_actions st))) (\<lambda>mdata.
                      if fstype mdata \<noteq> ''tmpfs'' \<or> mount_dir mdata \<noteq> dir then Inl (Exited ''invalid tmpfs mount'') else Inr st))))"

subsection \<open>Remounting\<close>

text \<open>
  The flags with which a path of the owner \<open>owner\<close> that is mounted with \<open>flags\<close> is remounted, \<open>None\<close> when nothing is done;
  the assertion fails for other operations.
\<close>

definition remount_flags :: "u32 \<Rightarrow> u32 \<Rightarrow> OPERATION \<Rightarrow> u64 \<Rightarrow> u64 option result" where
  "remount_flags uid owner op flags =
     (if op = MOUNT_RDWR \<or> op = MOUNT_RDWR_NOCHECK
      then Inr (if flags AND MS_RDONLY = 0 then None
                else if op \<noteq> MOUNT_RDWR_NOCHECK \<and> uid \<noteq> 0 \<and> owner \<noteq> uid then None
                else Some (flags AND NOT MS_RDONLY))
      else if op = MOUNT_NOEXEC
      then (let m = MS_NOEXEC OR MS_NODEV OR MS_NOSUID in Inr (if flags AND m = m then None else Some (flags OR m)))
      else if op = MOUNT_READONLY
      then Inr (if flags AND MS_RDONLY = MS_RDONLY then None else Some (flags OR MS_RDONLY))
      else Inl AssertFailure)"

text \<open>The path is bound to itself, opened again, compared and remounted; then the last mount is checked.\<close>

definition remount_path :: "fs_world \<Rightarrow> string \<Rightarrow> file_stat \<Rightarrow> u64 \<Rightarrow> fs_state \<Rightarrow> fs_state result" where
  "remount_path w path s flags st =
     (if \<not> can_do w (Bind_Self path) st then Inr st
      else let st = act (Bind_Self path) st in
        (case fw_nofollow w (fs_actions st) path of
           None \<Rightarrow> Inr st
         | Some s2 \<Rightarrow>
             if st_dev s \<noteq> st_dev s2 \<or> st_ino s \<noteq> st_ino s2 then Inl (Exited ''invalid mount'')
             else if \<not> can_do w (Remount path flags) st then Inr st
             else let st = act (Remount path flags) st in
               bind_result (get_last_mount (fw_mountinfo w (fs_actions st))) (\<lambda>mptr.
                 if mount_dir mptr \<noteq> path \<and> \<not> below path (mount_dir mptr) \<and> path \<noteq> ''/'' then Inl (Exited ''invalid mount'')
                 else Inr st)))"

definition fs_remount_simple :: "fs_world \<Rightarrow> OPERATION \<Rightarrow> string \<Rightarrow> fs_state \<Rightarrow> fs_state result" where
  "fs_remount_simple w op path st =
     (case fw_nofollow w (fs_actions st) path of
        None \<Rightarrow> Inr st
      | Some s \<Rightarrow>
          (case fw_flags w (fs_actions st) path of
             None \<Rightarrow> Inr st
           | Some flags \<Rightarrow>
               bind_result (remount_flags (fw_uid w) (st_uid s) op flags) (\<lambda>r.
                 case r of None \<Rightarrow> Inr st | Some flags \<Rightarrow> remount_path w path s flags st)))"

definition fs_remount_rec :: "fs_world \<Rightarrow> OPERATION \<Rightarrow> string \<Rightarrow> fs_state \<Rightarrow> fs_state result" where
  "fs_remount_rec w op path st =
     (case fw_mount_id w (fs_actions st) path of
        None \<Rightarrow> fs_remount_simple w op path st
      | Some i \<Rightarrow>
          bind_result (build_mount_array (fw_mountinfo w (fs_actions st)) i path) (\<lambda>arr.
            case arr of None \<Rightarrow> Inr st | Some arr \<Rightarrow> fold_result (fs_remount_simple w op) arr st))"

definition fs_remount :: "fs_world \<Rightarrow> OPERATION \<Rightarrow> bool \<Rightarrow> string \<Rightarrow> fs_state \<Rightarrow> fs_state result" where
  "fs_remount w op recursive path st =
     (case fw_realpath w (fs_actions st) path of
        Resolved rpath \<Rightarrow> if recursive then fs_remount_rec w op rpath st else fs_remount_simple w op rpath st
      | _ \<Rightarrow> Inr st)"

subsection \<open>A single file\<close>

definition is_blacklist_op :: "OPERATION \<Rightarrow> bool" where
  "is_blacklist_op op \<longleftrightarrow> op = BLACKLIST_FILE \<or> op = BLACKLIST_NOLOG"

text \<open>The owner check of a tmpfs: below the home directory and owned by the user, except for root.\<close>

definition tmpfs_allowed :: "fs_world \<Rightarrow> string \<Rightarrow> file_stat \<Rightarrow> bool" where
  "tmpfs_allowed w fname s \<longleftrightarrow> fw_uid w = 0 \<or> st_uid s = fw_uid w \<and> below (fw_homedir w) fname"

definition hide_file :: "fs_world \<Rightarrow> OPERATION \<Rightarrow> string \<Rightarrow> bool \<Rightarrow> fs_state \<Rightarrow> fs_state result" where
  "hide_file w op fname dir st =
     bind_result (act_or_exit w ''disable file'' (Disable op fname dir) st) (\<lambda>st.
       Inr (if starts_with ''/etc/'' fname then st\<lparr>fs_rebuild_etc := fname # fs_rebuild_etc st\<rparr> else st))"

definition modify_file :: "fs_world \<Rightarrow> OPERATION \<Rightarrow> string \<Rightarrow> string \<Rightarrow> file_stat \<Rightarrow> fs_state \<Rightarrow> fs_state result" where
  "modify_file w op filename fname s st =
     (if is_blacklist_op op
      then (if (fname = ''/bin'' \<or> fname = ''/usr/bin'') \<and> fw_is_link w (fs_actions st) filename \<and> st_is_dir s then Inr st
            else hide_file w op fname (st_is_dir s) st)
      else if op = MOUNT_READONLY \<or> op = MOUNT_RDWR \<or> op = MOUNT_NOEXEC then fs_remount_rec w op fname st
      else if op = MOUNT_TMPFS
      then (if st_is_dir s \<and> tmpfs_allowed w fname s then fs_tmpfs w fname (fw_uid w \<noteq> 0) st else Inr st)
      else Inl AssertFailure)"

definition disable_file :: "fs_world \<Rightarrow> OPERATION \<Rightarrow> string \<Rightarrow> fs_state \<Rightarrow> fs_state result" where
  "disable_file w op filename st =
     (case fw_realpath w (fs_actions st) filename of
        Missing \<Rightarrow> Inr st
      | Denied \<Rightarrow>
          Inr (if fw_can_open w (fs_actions st) filename then try_act w (Force_Disable op filename) st else st)
      | Resolved fname \<Rightarrow>
          if fname = fw_bindir w @ ''/firejail'' then Inr st
          else (case fw_stat w (fs_actions st) fname of None \<Rightarrow> Inr st | Some s \<Rightarrow> modify_file w op filename fname s st))"

subsection \<open>Patterns\<close>

text \<open>Whether a path may be blacklisted; \<open>fw_fnmatch\<close> is \<open>None\<close> for an error.\<close>

fun okay_to_blacklist :: "fs_world \<Rightarrow> string list \<Rightarrow> string \<Rightarrow> bool result" where
  "okay_to_blacklist w [] path = Inr True"
| "okay_to_blacklist w (p # ps) path =
     (case fw_fnmatch w p path of
        None \<Rightarrow> Inl (ProfileError ''failed to compare path with pattern'' p)
      | Some matched \<Rightarrow> if matched then Inr False else okay_to_blacklist w ps path)"

definition glob_path :: "fs_world \<Rightarrow> OPERATION \<Rightarrow> string list \<Rightarrow> string \<Rightarrow> fs_state \<Rightarrow> fs_state result" where
  "glob_path w op noblacklist path st =
     (if gnu_basename path = ''.'' \<or> gnu_basename path = ''..'' then Inr st
      else bind_result (if is_blacklist_op op then okay_to_blacklist w noblacklist path else Inr True) (\<lambda>okay.
        if okay then disable_file w op path st else Inr st))"

definition globbing :: "fs_world \<Rightarrow> OPERATION \<Rightarrow> string list \<Rightarrow> string \<Rightarrow> fs_state \<Rightarrow> fs_state result" where
  "globbing w op noblacklist pattern st =
     (case fw_glob w (fs_actions st) pattern of
        None \<Rightarrow> Inl (ProfileError ''failed to glob pattern'' pattern)
      | Some paths \<Rightarrow> fold_result (glob_path w op noblacklist) paths st)"

subsection \<open>Creating directories and files\<close>

definition run_user_dir :: "fs_world \<Rightarrow> string" where
  "run_user_dir w = ''/run/user/'' @ fmt_d (sint (fw_uid w))"

definition mkdir_check :: "fs_world \<Rightarrow> string \<Rightarrow> unit result" where
  "mkdir_check w fname =
     (if starts_with (fw_homedir w) fname \<or> starts_with ''/tmp'' fname \<or>
         starts_with (run_user_dir w @ ''/'') fname
      then Inr () else Inl (Exited ''only files or directories in user home, /tmp, or /run/user/<UID> are supported by mkdir''))"

text \<open>The components from \<open>cwd\<close> on; the loop ends at the first one that cannot be entered.\<close>

fun mkdir_recursive :: "fs_world \<Rightarrow> string \<Rightarrow> string list \<Rightarrow> fs_state \<Rightarrow> fs_state" where
  "mkdir_recursive w cwd [] st = st"
| "mkdir_recursive w cwd (subdir # ds) st =
     (let p = cwd @ ''/'' @ subdir in
      case fw_stat w (fs_actions st) p of
        None \<Rightarrow>
          if can_do w (Mkdir p) st
          then let st = act (Mkdir p) st in
            if fw_can_chdir w (fs_actions st) p then mkdir_recursive w p ds st else st
          else st
      | Some s \<Rightarrow>
          if st_is_dir s \<and> fw_can_chdir w (fs_actions st) p then mkdir_recursive w p ds st else st)"

definition expand_created :: "fs_world \<Rightarrow> string \<Rightarrow> fs_state \<Rightarrow> string result" where
  "expand_created w fname st =
     bind_result (invalid_filename fname False) (\<lambda>_.
     bind_result (expand_macros (fw_macros w (fs_actions st)) fname) (\<lambda>expanded.
     bind_result (mkdir_check w expanded) (\<lambda>_. Inr expanded)))"

definition fs_mkdir :: "fs_world \<Rightarrow> string \<Rightarrow> fs_state \<Rightarrow> fs_state result" where
  "fs_mkdir w fname st =
     bind_result (expand_created w fname st) (\<lambda>expanded.
       Inr (if fw_stat w (fs_actions st) expanded \<noteq> None then st else mkdir_recursive w [] (strtok slash expanded) st))"

definition fs_mkfile :: "fs_world \<Rightarrow> string \<Rightarrow> fs_state \<Rightarrow> fs_state result" where
  "fs_mkfile w fname st =
     bind_result (expand_created w fname st) (\<lambda>expanded.
       Inr (if fw_stat w (fs_actions st) expanded \<noteq> None then st else try_act w (Mkfile expanded) st))"

subsection \<open>The entries\<close>

definition PATH_macro :: string where "PATH_macro = ''${PATH}''"

text \<open>The names of a noblacklist entry; in the other entries the macros are expanded before \<open>${PATH}\<close> is looked for.\<close>

definition entry_names :: "fs_world \<Rightarrow> string \<Rightarrow> changes \<Rightarrow> string list result" where
  "entry_names w s c =
     (if starts_with PATH_macro s then Inr (map (\<lambda>p. p @ drop 7 s) (fw_paths w))
      else bind_result (expand_macros (fw_macros w c) s) (\<lambda>f. Inr [f]))"

definition pattern_names :: "fs_world \<Rightarrow> string \<Rightarrow> changes \<Rightarrow> string list result" where
  "pattern_names w s c =
     bind_result (expand_macros (fw_macros w c) s) (\<lambda>f.
       Inr (if starts_with PATH_macro f then map (\<lambda>p. p @ drop 7 f) (fw_paths w) else [f]))"

definition operations :: "(string \<times> OPERATION) list" where
  "operations =
     [(''blacklist '', BLACKLIST_FILE), (''blacklist-nolog '', BLACKLIST_NOLOG), (''read-only '', MOUNT_READONLY),
      (''read-write '', MOUNT_RDWR), (''noexec '', MOUNT_NOEXEC), (''tmpfs '', MOUNT_TMPFS)]"

definition entry_operation :: "string \<Rightarrow> (OPERATION \<times> string) option" where
  "entry_operation entry =
     map_option (\<lambda>(pre, op). (op, drop (length pre) entry)) (find (\<lambda>(pre, op). starts_with pre entry) operations)"

definition skipped_entry :: "string \<Rightarrow> bool" where
  "skipped_entry entry \<longleftrightarrow>
     starts_with ''whitelist '' entry \<or> starts_with ''nowhitelist '' entry \<or> starts_with ''dbus-'' entry \<or> entry = []"

text \<open>A bind entry whose directories are missing is reported and skipped.\<close>

definition bind_entry :: "fs_world \<Rightarrow> string \<Rightarrow> fs_state \<Rightarrow> fs_state result" where
  "bind_entry w s st =
     (case split_comma s of
        (_, None) \<Rightarrow> Inr st
      | (dname1, Some dname2) \<Rightarrow>
          if fw_stat w (fs_actions st) dname1 = None \<or> fw_stat w (fs_actions st) dname2 = None then Inr st
          else act_or_exit w ''mount bind'' (Bind_Rec dname1 dname2) st)"

definition fs_entry :: "fs_world \<Rightarrow> string \<Rightarrow> string list \<times> fs_state \<Rightarrow> (string list \<times> fs_state) result" where
  "fs_entry w entry = (\<lambda>(noblacklist, st).
     if skipped_entry entry then Inr (noblacklist, st)
     else if starts_with ''bind '' entry then bind_result (bind_entry w (drop 5 entry) st) (\<lambda>st. Inr (noblacklist, st))
     else if starts_with ''noblacklist '' entry
     then bind_result (entry_names w (drop 12 entry) (fs_actions st)) (\<lambda>enames. Inr (noblacklist @ enames, st))
     else case entry_operation entry of
       Some (op, s) \<Rightarrow>
         bind_result (pattern_names w s (fs_actions st)) (\<lambda>patterns.
         bind_result (fold_result (globbing w op noblacklist) patterns st) (\<lambda>st. Inr (noblacklist, st)))
     | None \<Rightarrow>
         bind_result
           (if starts_with ''mkdir '' entry then fs_mkdir w (drop 6 entry) st
            else if starts_with ''mkfile '' entry then fs_mkfile w (drop 7 entry) st
            else Inr st) (\<lambda>st. Inr (noblacklist, st)))"

definition fs_blacklist :: "fs_world \<Rightarrow> string list \<Rightarrow> fs_state \<Rightarrow> fs_state result" where
  "fs_blacklist w es st = bind_result (fold_result (fs_entry w) es ([], st)) (\<lambda>(_, st). Inr st)"

subsection \<open>The base file system\<close>

text \<open>\<open>fs_mnt\<close>: the directories of removable media, enforced or as entries.\<close>

definition mnt_dirs :: "string list" where
  "mnt_dirs = [''/mnt'', ''/media'', ''/run/mount'', ''/run/media'']"

definition disable_files :: "fs_world \<Rightarrow> string list \<Rightarrow> fs_state \<Rightarrow> fs_state result" where
  "disable_files w = fold_result (disable_file w BLACKLIST_FILE)"

definition fs_mnt :: "fs_world \<Rightarrow> bool \<Rightarrow> profile_cfg \<times> fs_state \<Rightarrow> (profile_cfg \<times> fs_state) result" where
  "fs_mnt w enforce = (\<lambda>(cfg, st).
     if enforce then bind_result (disable_files w mnt_dirs st) (\<lambda>st. Inr (cfg, st))
     else Inr (fold (\<lambda>d. profile_add (''blacklist '' @ d)) mnt_dirs cfg, st))"

definition mount_proc_sys :: "fs_world \<Rightarrow> profile_cfg \<Rightarrow> fs_state \<Rightarrow> fs_state result" where
  "mount_proc_sys w cfg st =
     bind_result (act_or_exit w ''mounting /proc/sys'' (Bind_Rec ''/proc/sys'' ''/proc/sys'') st) (\<lambda>st.
     bind_result (act_or_exit w ''mounting /proc/sys''
         (Remount ''/proc/sys'' (MS_BIND OR MS_REMOUNT OR MS_RDONLY OR MS_NOSUID OR MS_NOEXEC OR MS_NODEV OR MS_REC)) st) (\<lambda>st.
     let st = (if arg_set cfg ''arg_overlay'' then st else try_act w (Umount ''/sys'') st) in
     Inr (try_act w (Mount_New ''sysfs'' ''/sys'' (MS_RDONLY OR MS_NOSUID OR MS_NOEXEC OR MS_NODEV OR MS_REC)) st)))"

definition sys_files :: "string list" where
  "sys_files = [''/sys/power'', ''/sys/kernel/debug'', ''/sys/kernel/vmcoreinfo'', ''/sys/kernel/uevent_helper'']"

definition proc_files :: "string list" where
  "proc_files =
     [''/proc/sys/security'', ''/proc/sys/efi/vars'', ''/proc/sys/fs/binfmt_misc'', ''/proc/sys/kernel/core_pattern'',
      ''/proc/sys/kernel/modprobe'', ''/proc/sysrq-trigger'', ''/proc/sys/kernel/hotplug'', ''/proc/sys/vm/panic_on_oom'',
      ''/proc/irq'', ''/proc/bus'', ''/proc/sched_debug'', ''/proc/timer_list'', ''/proc/timer_stats'', ''/proc/kcore'',
      ''/proc/kallsyms'', ''/proc/mem'', ''/proc/kmem'']"

definition kernel_symbols :: "profile_cfg \<Rightarrow> string list" where
  "kernel_symbols cfg =
     (if arg_set cfg ''arg_allow_debuggers'' then [] else [''/usr/src/linux'', ''/lib/modules'', ''/usr/lib/debug'', ''/boot''])"

definition sys_entries :: "bool \<Rightarrow> profile_cfg \<Rightarrow> string list" where
  "sys_entries nvidia cfg =
     ''blacklist /sys/fs'' #
     (if nvidia \<and> \<not> arg_set cfg ''arg_no3d'' then [''whitelist /sys/module/nvidia*'', ''read-only /sys/module/nvidia*'']
      else [''blacklist /sys/module''])"

text \<open>The sockets in the run time directory: the directories are made first.\<close>

definition hide_created :: "fs_world \<Rightarrow> string \<Rightarrow> fs_state \<Rightarrow> fs_state result" where
  "hide_created w dir st =
     disable_file w BLACKLIST_FILE dir
       (if fw_stat w (fs_actions st) dir = None then try_act w (Mkdir dir) st else st)"

definition run_user_dirs :: "fs_world \<Rightarrow> profile_cfg \<Rightarrow> fs_state \<Rightarrow> fs_state result" where
  "run_user_dirs w cfg st =
     (let fname = run_user_dir w in
      if \<not> arg_set cfg ''arg_writable_run_user'' \<and> (case fw_stat w (fs_actions st) fname of None \<Rightarrow> False | Some s \<Rightarrow> st_is_dir s)
      then fold_result (hide_created w) [fname @ ''/gnupg'', fname @ ''/systemd''] st
      else Inr st)"

definition fs_proc_sys_dev_boot :: "fs_world \<Rightarrow> bool \<Rightarrow> profile_cfg \<times> fs_state \<Rightarrow> (profile_cfg \<times> fs_state) result" where
  "fs_proc_sys_dev_boot w nvidia = (\<lambda>(cfg, st).
     bind_result (mount_proc_sys w cfg st) (\<lambda>st.
     bind_result (disable_files w [''/sys/firmware'', ''/sys/hypervisor''] st) (\<lambda>st.
     bind_result (disable_files w (sys_files @ proc_files @ kernel_symbols cfg @ [''/selinux'', ''/dev/port'']) st) (\<lambda>st.
     bind_result (run_user_dirs w cfg st) (\<lambda>st.
     bind_result (if fw_uid w \<noteq> 0 then disable_files w [''/dev/kmsg'', ''/proc/kmsg''] st else Inr st) (\<lambda>st.
       Inr (fold profile_add (sys_entries nvidia cfg) cfg, st)))))))"

definition run_dirs :: "string list" where
  "run_dirs =
     [''/run/firejail/sandbox'', ''/run/firejail/network'', ''/run/firejail/bandwidth'', ''/run/firejail/name'',
      ''/run/firejail/profile'', ''/run/firejail/x11'']"

definition disable_config :: "fs_world \<Rightarrow> fs_state \<Rightarrow> fs_state result" where
  "disable_config w = disable_files w ((fw_homedir w @ ''/.config/firejail'') # run_dirs)"

text \<open>The remounts of \<open>fs_basic_fs\<close>, before the directories below \<open>/var\<close> are set up.\<close>

definition base_remounts :: "fs_world \<Rightarrow> profile_cfg \<Rightarrow> (OPERATION \<times> string) list" where
  "base_remounts w cfg =
     (let protect = (\<lambda>d. (MOUNT_READONLY, d) # (if fw_uid w \<noteq> 0 then [(MOUNT_NOEXEC, d)] else [])) in
      (if arg_set cfg ''arg_writable_etc'' then [] else protect ''/etc'') @
      (if arg_set cfg ''arg_writable_var'' then [] else protect ''/var'') @
      map (Pair MOUNT_READONLY) [''/usr'', ''/bin'', ''/sbin'', ''/lib'', ''/lib64'', ''/lib32'', ''/libx32''])"

definition basic_read_only :: "fs_world \<Rightarrow> profile_cfg \<Rightarrow> fs_state \<Rightarrow> fs_state result" where
  "basic_read_only w cfg st =
     bind_result (act_or_exit w ''mounting /proc'' (Mount_New ''proc'' ''/proc'' (MS_NOSUID OR MS_NOEXEC OR MS_NODEV OR MS_REC)) st)
       (fold_result (\<lambda>(op, d). fs_remount w op True d) (base_remounts w cfg))"

subsection \<open>Justified changes\<close>

text \<open>Every change from the first list to the second one has the property \<open>J\<close> of the changes before it.\<close>

inductive justified :: "(changes \<Rightarrow> fs_action \<Rightarrow> bool) \<Rightarrow> changes \<Rightarrow> changes \<Rightarrow> bool" for J where
  none: "justified J c c"
| add: "justified J c c' \<Longrightarrow> J c' a \<Longrightarrow> justified J c (c' @ [a])"

lemma justified_trans: "justified J b c \<Longrightarrow> justified J a b \<Longrightarrow> justified J a c"
  by (induction rule: justified.induct) (auto intro: justified.intros)

lemma justified_prefix: "justified J a b \<Longrightarrow> \<exists>d. b = a @ d"
  by (induction rule: justified.induct) auto

lemma justified_at:
  "justified J a b \<Longrightarrow> b = a @ pre @ x # post \<Longrightarrow> J (a @ pre) x"
proof (induction arbitrary: post rule: justified.induct)
  case (add c c' y)
  show ?case
  proof (cases post rule: rev_cases)
    case (snoc post' z)
    then show ?thesis using add by auto
  qed (use add in auto)
qed auto

lemma justified_mono: "justified J a b \<Longrightarrow> (\<And>c x. J c x \<Longrightarrow> K c x) \<Longrightarrow> justified K a b"
  by (induction rule: justified.induct) (auto intro: justified.intros)

text \<open>The steps of the state that make only such changes.\<close>

definition steps_by :: "(changes \<Rightarrow> fs_action \<Rightarrow> bool) \<Rightarrow> (fs_state \<Rightarrow> fs_state result) \<Rightarrow> bool" where
  "steps_by J f \<longleftrightarrow> (\<forall>st st'. f st = Inr st' \<longrightarrow> justified J (fs_actions st) (fs_actions st'))"

lemma steps_byI: "(\<And>st st'. f st = Inr st' \<Longrightarrow> justified J (fs_actions st) (fs_actions st')) \<Longrightarrow> steps_by J f"
  by (simp add: steps_by_def)

lemma steps_byD: "steps_by J f \<Longrightarrow> f st = Inr st' \<Longrightarrow> justified J (fs_actions st) (fs_actions st')"
  by (simp add: steps_by_def)

lemma steps_by_mono: "steps_by J f \<Longrightarrow> (\<And>c x. J c x \<Longrightarrow> K c x) \<Longrightarrow> steps_by K f"
  unfolding steps_by_def using justified_mono by metis

lemma steps_by_fold:
  assumes "\<And>x. x \<in> set xs \<Longrightarrow> steps_by J (f x)"
  shows "steps_by J (fold_result f xs)"
proof (rule steps_byI)
  fix st st'
  assume "fold_result f xs st = Inr st'"
  then show "justified J (fs_actions st) (fs_actions st')"
    using assms
  proof (induction xs arbitrary: st)
    case (Cons x xs)
    then obtain s where "f x st = Inr s" "fold_result f xs s = Inr st'" by (auto simp: bind_result_eq_Inr_iff)
    with Cons show ?case by (metis justified_trans list.set_intros steps_byD)
  qed (simp add: fold_result_Nil justified.none)
qed

lemma justified_act: "J (fs_actions st) a \<Longrightarrow> justified J (fs_actions st) (fs_actions (act a st))"
  by (simp add: act_def justified.add justified.none)

lemma steps_by_act_or_exit:
  "(\<And>c. J c a) \<Longrightarrow> steps_by J (act_or_exit w msg a)"
  by (auto intro!: steps_byI justified_act simp: act_or_exit_def split: if_splits)

lemma justified_try_act: "(\<And>c. J c a) \<Longrightarrow> justified J (fs_actions st) (fs_actions (try_act w a st))"
  by (simp add: try_act_def justified_act justified.none)

subsection \<open>What a change of a user may do\<close>

text \<open>
  A tmpfs of a user other than root covers a directory of the user below the home directory and has no set-user-id programs
  and devices; a remount adds restrictions, or lets the user write to what the user owns.
\<close>

definition restricts :: "u64 \<Rightarrow> u64 \<Rightarrow> bool" where
  "restricts old new \<longleftrightarrow> old AND new = old \<and> new AND NOT (MS_RDONLY OR MS_NOSUID OR MS_NODEV OR MS_NOEXEC) =
     old AND NOT (MS_RDONLY OR MS_NOSUID OR MS_NODEV OR MS_NOEXEC)"

definition owned_by_user :: "fs_world \<Rightarrow> changes \<Rightarrow> string \<Rightarrow> bool" where
  "owned_by_user w c p \<longleftrightarrow> (\<exists>s. fw_nofollow w c p = Some s \<and> st_uid s = fw_uid w)"

definition user_change :: "fs_world \<Rightarrow> changes \<Rightarrow> fs_action \<Rightarrow> bool" where
  "user_change w c a \<longleftrightarrow>
     (case a of
        Tmpfs d flags opts \<Rightarrow>
          owned_by_user w c d \<and> below (fw_homedir w) d \<and>
          flags AND (MS_NOSUID OR MS_NODEV) = MS_NOSUID OR MS_NODEV
      | Remount p flags \<Rightarrow>
          (\<exists>c0 old. c = c0 @ [Bind_Self p] \<and> fw_flags w c0 p = Some old \<and>
             (restricts old flags \<or> flags = old AND NOT MS_RDONLY \<and> owned_by_user w c0 p))
      | _ \<Rightarrow> True)"

lemma remount_flags_user:
  assumes "remount_flags uid owner op old = Inr (Some flags)" "op \<noteq> MOUNT_RDWR_NOCHECK" "uid \<noteq> 0"
  shows "restricts old flags \<or> flags = old AND NOT MS_RDONLY \<and> owner = uid"
proof -
  have "restricts old (old OR m)" if "m AND (MS_RDONLY OR MS_NOSUID OR MS_NODEV OR MS_NOEXEC) = m" for m
  proof -
    let ?r = "MS_RDONLY OR MS_NOSUID OR MS_NODEV OR MS_NOEXEC"
    have "m AND NOT ?r = 0" using that by (metis and.assoc and.right_idem bit.conj_cancel_right and_zero_eq)
    then have "(old OR m) AND NOT ?r = old AND NOT ?r" by (simp add: bit.conj_disj_distrib2)
    then show ?thesis by (simp add: restricts_def)
  qed
  moreover have "MS_RDONLY AND (MS_RDONLY OR MS_NOSUID OR MS_NODEV OR MS_NOEXEC) = MS_RDONLY"
    "(MS_NOEXEC OR MS_NODEV OR MS_NOSUID) AND (MS_RDONLY OR MS_NOSUID OR MS_NODEV OR MS_NOEXEC) = MS_NOEXEC OR MS_NODEV OR MS_NOSUID"
    by (simp_all add: mount_flags)
  ultimately show ?thesis using assms by (auto simp: remount_flags_def Let_def split: if_splits)
qed

subsection \<open>The changes for one path\<close>

text \<open>What it takes for the changes of \<open>disable_file\<close> on a path to have a property.\<close>

locale file_changes =
  fixes w :: fs_world and J :: "changes \<Rightarrow> fs_action \<Rightarrow> bool" and op :: OPERATION and path :: string
  assumes quiet: "J c (Bind_Self p)" "J c (Force_Disable op path)"
    and remount: "op \<noteq> MOUNT_RDWR_NOCHECK \<Longrightarrow> fw_nofollow w c p = Some s \<Longrightarrow> fw_flags w c p = Some old \<Longrightarrow>
      remount_flags (fw_uid w) (st_uid s) op old = Inr (Some flags) \<Longrightarrow> J (c @ [Bind_Self p]) (Remount p flags)"
    and tmpfs: "fw_nofollow w c p = Some s \<Longrightarrow> fw_uid w = 0 \<or> st_uid s = fw_uid w \<and> below (fw_homedir w) p \<Longrightarrow>
      J c (Tmpfs p (flags OR MS_NOSUID OR MS_NODEV) opts)"
    and hide: "is_blacklist_op op \<Longrightarrow> fw_realpath w c path = Resolved p \<Longrightarrow> p \<noteq> fw_bindir w @ ''/firejail'' \<Longrightarrow> J c (Disable op p d)"
begin

lemma remount_simple_steps:
  assumes "op \<noteq> MOUNT_RDWR_NOCHECK"
  shows "steps_by J (fs_remount_simple w op p)"
proof (rule steps_byI)
  fix st st' :: fs_state
  let ?c = "fs_actions st"
  assume r: "fs_remount_simple w op p st = Inr st'"
  show "justified J ?c (fs_actions st')"
  proof (cases "fs_actions st' = ?c")
    case False
    from r False obtain s old flags where f: "fw_nofollow w ?c p = Some s" "fw_flags w ?c p = Some old"
      "remount_flags (fw_uid w) (st_uid s) op old = Inr (Some flags)" "remount_path w p s flags st = Inr st'"
      by (auto simp: fs_remount_simple_def bind_result_eq_Inr_iff split: option.splits)
    have b: "justified J ?c (?c @ [Bind_Self p])" by (intro justified.intros quiet)
    note justified.add [OF b, OF remount [OF assms f(1-3)]]
    moreover have "fs_actions st' = ?c @ [Bind_Self p] \<or> fs_actions st' = (?c @ [Bind_Self p]) @ [Remount p flags]"
      using f(4) False by (auto simp: remount_path_def act_def Let_def bind_result_eq_Inr_iff split: if_splits option.splits)
    ultimately show ?thesis using b by auto
  qed (simp add: justified.none)
qed

lemma remount_rec_steps:
  assumes "op \<noteq> MOUNT_RDWR_NOCHECK"
  shows "steps_by J (fs_remount_rec w op p)"
proof (rule steps_byI)
  fix st st'
  assume r: "fs_remount_rec w op p st = Inr st'"
  note simple = remount_simple_steps [OF assms]
  show "justified J (fs_actions st) (fs_actions st')"
  proof (cases "fw_mount_id w (fs_actions st) p")
    case None
    with r show ?thesis using steps_byD [OF simple] by (simp add: fs_remount_rec_def)
  next
    case (Some i)
    with r show ?thesis
      using steps_byD [OF steps_by_fold [OF simple]]
      by (auto simp: fs_remount_rec_def bind_result_eq_Inr_iff justified.none split: option.splits)
  qed
qed

lemma tmpfs_steps:
  assumes "fs_tmpfs w d (fw_uid w \<noteq> 0) st = Inr st'" "tmpfs_allowed w d s"
  shows "justified J (fs_actions st) (fs_actions st')"
proof -
  from assms(1) obtain s' flags opts where t: "fw_nofollow w (fs_actions st) d = Some s'" "fw_uid w = 0 \<or> st_uid s' = fw_uid w"
    "fs_actions st' = fs_actions st @ [Tmpfs d (flags OR MS_NOSUID OR MS_NODEV) opts]"
    by (auto simp: fs_tmpfs_def bind_result_eq_Inr_iff act_or_exit_def act_def Let_def split: option.splits if_splits)
  with tmpfs [OF t(1)] assms(2) show ?thesis by (auto simp: tmpfs_allowed_def intro!: justified.intros)
qed

lemma disable_file_steps: "steps_by J (disable_file w op path)"
proof (rule steps_byI)
  fix st st' :: fs_state
  let ?c = "fs_actions st"
  assume d: "disable_file w op path st = Inr st'"
  show "justified J ?c (fs_actions st')"
  proof (cases "fw_realpath w ?c path")
    case (Resolved p)
    have h: "justified J ?c (fs_actions st')"
      if "hide_file w op p b st = Inr st'" "is_blacklist_op op" "p \<noteq> fw_bindir w @ ''/firejail''" for b
      using that Resolved
      by (auto simp: hide_file_def bind_result_eq_Inr_iff act_or_exit_def act_def intro!: justified.intros hide split: if_splits)
    have "justified J ?c (fs_actions st')" if "modify_file w op path p s st = Inr st'" "p \<noteq> fw_bindir w @ ''/firejail''" for s
      using that h tmpfs_steps [of p st st' s] steps_byD [OF remount_rec_steps, of p st st']
      by (auto simp: modify_file_def justified.none split: if_splits)
    then show ?thesis using d Resolved by (auto simp: disable_file_def justified.none split: if_splits option.splits)
  next
    case Denied
    have "justified J ?c (fs_actions (try_act w (Force_Disable op path) st))" by (intro justified_try_act quiet)
    then show ?thesis using d Denied by (auto simp: disable_file_def justified.none split: if_splits)
  qed (use d in \<open>simp add: disable_file_def justified.none\<close>)
qed

end

lemma user_file_changes:
  assumes "fw_uid w \<noteq> 0"
  shows "file_changes w (user_change w) op path"
proof
  fix c p s old flags
  assume "op \<noteq> MOUNT_RDWR_NOCHECK" "fw_nofollow w c p = Some s" "fw_flags w c p = Some old"
    "remount_flags (fw_uid w) (st_uid s) op old = Inr (Some flags)"
  with remount_flags_user [of "fw_uid w" "st_uid s" op old flags] assms show "user_change w (c @ [Bind_Self p]) (Remount p flags)"
    by (auto simp: user_change_def owned_by_user_def)
next
  fix c p s opts and flags :: u64
  assume "fw_nofollow w c p = Some s" "fw_uid w = 0 \<or> st_uid s = fw_uid w \<and> below (fw_homedir w) p"
  moreover have "(flags OR MS_NOSUID OR MS_NODEV) AND (MS_NOSUID OR MS_NODEV) = MS_NOSUID OR MS_NODEV"
    by (simp add: mount_flags bit.conj_disj_distrib2)
  ultimately show "user_change w c (Tmpfs p (flags OR MS_NOSUID OR MS_NODEV) opts)"
    using assms by (auto simp: user_change_def owned_by_user_def)
qed (simp_all add: user_change_def)

text \<open>The reason for hiding a file: a path that resolves to it, which is not firejail itself.\<close>

definition hides :: "fs_world \<Rightarrow> OPERATION \<Rightarrow> string \<Rightarrow> changes \<Rightarrow> fs_action \<Rightarrow> bool" where
  "hides w op path c a \<longleftrightarrow>
     (case a of Disable op' p d \<Rightarrow> op' = op \<and> is_blacklist_op op \<and> fw_realpath w c path = Resolved p \<and> p \<noteq> fw_bindir w @ ''/firejail''
      | _ \<Rightarrow> True)"

interpretation hidden: file_changes w "hides w op path" op path
  by unfold_locales (simp_all add: hides_def)

lemma globbing_changes:
  assumes "fw_uid w \<noteq> 0"
  shows "steps_by (user_change w) (globbing w op nb pattern)"
proof -
  have "steps_by (user_change w) (glob_path w op nb p)" for p
    by (auto intro!: steps_byI intro: steps_byD [OF file_changes.disable_file_steps [OF user_file_changes [OF assms]]]
        simp: glob_path_def bind_result_eq_Inr_iff justified.none split: if_splits)
  then have "steps_by (user_change w) (fold_result (glob_path w op nb) ps)" for ps by (intro steps_by_fold)
  note steps_byD [OF this]
  then show ?thesis by (auto intro!: steps_byI simp: globbing_def split: option.splits)
qed

lemma mkdir_steps:
  assumes "\<And>c p. J c (Mkdir p)"
  shows "justified J (fs_actions st) (fs_actions (mkdir_recursive w cwd ds st))"
proof (induction w cwd ds st rule: mkdir_recursive.induct)
  case (2 w cwd d ds st)
  have m: "justified J (fs_actions st) (fs_actions (act (Mkdir p) st))" for p using assms by (rule justified_act)
  note t = justified_trans [OF _ m [of "cwd @ slash # d"]]
  from 2 m show ?case by (auto simp: Let_def justified.none split: option.splits intro: t)
qed (simp add: justified.none)

lemma entry_steps:
  assumes "fs_entry w entry (nb, st) = Inr (nb', st')"
    and quiet: "\<And>c p. J c (Mkdir p)" "\<And>c p. J c (Mkfile p)" "\<And>c p q. J c (Bind_Rec p q)"
    and globs: "\<And>op s patterns pattern. entry_operation entry = Some (op, s) \<Longrightarrow> pattern_names w s (fs_actions st) = Inr patterns \<Longrightarrow>
      pattern \<in> set patterns \<Longrightarrow> steps_by J (globbing w op nb pattern)"
  shows "justified J (fs_actions st) (fs_actions st')"
proof -
  have b: "steps_by J (bind_entry w s)" for s
    by (auto intro!: steps_byI justified_act quiet simp: bind_entry_def act_or_exit_def justified.none
        split: prod.splits option.splits if_splits)
  have m: "steps_by J (fs_mkdir w s)" "steps_by J (fs_mkfile w s)" for s
    by (auto intro!: steps_byI justified_try_act mkdir_steps quiet simp: fs_mkdir_def fs_mkfile_def bind_result_eq_Inr_iff
        justified.none split: if_splits)
  have g: "justified J (fs_actions st) (fs_actions st')"
    if "entry_operation entry = Some (op, s)" "pattern_names w s (fs_actions st) = Inr ps" "fold_result (globbing w op nb) ps st = Inr st'" for op s ps
    using steps_byD [OF steps_by_fold [OF globs [OF that(1,2)]] that(3)] by blast
  show ?thesis
    using assms(1)
    by (auto simp: fs_entry_def bind_result_eq_Inr_iff justified.none split: if_splits option.splits
        intro: g steps_byD [OF b] steps_byD [OF m(1)] steps_byD [OF m(2)])
qed

lemma entry_changes:
  assumes "fs_entry w entry (nb, st) = Inr (nb', st')" "fw_uid w \<noteq> 0"
  shows "justified (user_change w) (fs_actions st) (fs_actions st')"
proof (rule entry_steps [OF assms(1)])
  show "steps_by (user_change w) (globbing w op nb pattern)" for op pattern by (rule globbing_changes [OF assms(2)])
qed (simp_all add: user_change_def)

lemma entries_changes:
  assumes "fold_result (fs_entry w) es (nb, st) = Inr (nb', st')" "fw_uid w \<noteq> 0"
  shows "justified (user_change w) (fs_actions st) (fs_actions st')"
  using assms(1)
proof (induction es arbitrary: nb st)
  case (Cons e es)
  then obtain nb1 st1 where "fs_entry w e (nb, st) = Inr (nb1, st1)" "fold_result (fs_entry w) es (nb1, st1) = Inr (nb', st')"
    by (auto simp: bind_result_eq_Inr_iff)
  with Cons.IH entry_changes assms(2) show ?case by (meson justified_trans)
qed (simp add: fold_result_Nil justified.none)

text \<open>
  C9. For a user other than root no profile can gain rights from its file entries: in the sequence of changes that
  \<open>fs_blacklist\<close> makes for any entries, every tmpfs covers a directory below the home directory that belongs to the user at
  that moment, and is mounted without set-user-id programs and devices; every remount keeps the flags of the mount it
  changes and only adds read-only, noexec, nodev and nosuid, or it removes nothing but read-only from a path that belongs
  to the user.
\<close>

theorem user_mounts_safe:
  assumes "fs_blacklist w es st = Inr st'" "fw_uid w \<noteq> 0" "fs_actions st' = fs_actions st @ pre @ a # post"
  shows "user_change w (fs_actions st @ pre) a"
proof -
  from assms(1) obtain nb where "fold_result (fs_entry w) es ([], st) = Inr (nb, st')"
    by (auto simp: fs_blacklist_def bind_result_eq_Inr_iff)
  from justified_at [OF entries_changes [OF this assms(2)] assms(3)] show ?thesis .
qed

subsection \<open>Which files are hidden\<close>

text \<open>The names that the noblacklist entries collect.\<close>

inductive collected :: "fs_world \<Rightarrow> string list \<Rightarrow> string list \<Rightarrow> bool" for w where
  no_entries: "collected w [] []"
| noblacklist: "collected w es nb \<Longrightarrow> starts_with ''noblacklist '' e \<Longrightarrow> entry_names w (drop 12 e) c = Inr ns \<Longrightarrow>
    collected w (es @ [e]) (nb @ ns)"
| other: "collected w es nb \<Longrightarrow> \<not> starts_with ''noblacklist '' e \<Longrightarrow> collected w (es @ [e]) nb"

definition permitted :: "fs_world \<Rightarrow> OPERATION \<Rightarrow> string list \<Rightarrow> string \<Rightarrow> bool" where
  "permitted w op noblacklist path \<longleftrightarrow>
     gnu_basename path \<noteq> ''.'' \<and> gnu_basename path \<noteq> ''..'' \<and>
     (is_blacklist_op op \<longrightarrow> (\<forall>p \<in> set noblacklist. fw_fnmatch w p path = Some False))"

lemma okay_to_blacklist_spec:
  "okay_to_blacklist w nb path = Inr b \<Longrightarrow> b = (\<forall>p \<in> set nb. fw_fnmatch w p path = Some False)"
  by (induction w nb path rule: okay_to_blacklist.induct) (auto split: option.splits if_splits)

lemma glob_path_cases:
  "glob_path w op nb path st = Inr st' \<Longrightarrow>
     (if permitted w op nb path then disable_file w op path st = Inr st' else st' = st)"
  by (auto simp: glob_path_def permitted_def bind_result_eq_Inr_iff split: if_splits dest!: okay_to_blacklist_spec)

text \<open>The reason that an entry gives.\<close>

definition pattern_hides :: "fs_world \<Rightarrow> OPERATION \<Rightarrow> string list \<Rightarrow> string \<Rightarrow> changes \<Rightarrow> fs_action \<Rightarrow> bool" where
  "pattern_hides w op nb pattern c a \<longleftrightarrow>
     (\<forall>op' p d. a = Disable op' p d \<longrightarrow>
        (\<exists>c0 paths path. fw_glob w c0 pattern = Some paths \<and> path \<in> set paths \<and> permitted w op nb path \<and> hides w op path c a))"

definition entry_hides :: "fs_world \<Rightarrow> string list \<Rightarrow> string \<Rightarrow> changes \<Rightarrow> fs_action \<Rightarrow> bool" where
  "entry_hides w nb entry c a \<longleftrightarrow>
     (\<forall>op' p d. a = Disable op' p d \<longrightarrow>
        (\<exists>op s c0 patterns pattern. entry_operation entry = Some (op, s) \<and> pattern_names w s c0 = Inr patterns \<and>
           pattern \<in> set patterns \<and> pattern_hides w op nb pattern c a))"

definition entries_hide :: "fs_world \<Rightarrow> string list \<Rightarrow> changes \<Rightarrow> fs_action \<Rightarrow> bool" where
  "entries_hide w es c a \<longleftrightarrow>
     (\<forall>op' p d. a = Disable op' p d \<longrightarrow>
        (\<exists>i nb. i < length es \<and> collected w (take i es) nb \<and> entry_hides w nb (es ! i) c a))"

lemma globbing_hides: "steps_by (pattern_hides w op nb pattern) (globbing w op nb pattern)"
proof (rule steps_byI)
  fix st st'
  assume "globbing w op nb pattern st = Inr st'"
  then obtain paths where g: "fw_glob w (fs_actions st) pattern = Some paths" "fold_result (glob_path w op nb) paths st = Inr st'"
    by (auto simp: globbing_def split: option.splits)
  have "steps_by (pattern_hides w op nb pattern) (glob_path w op nb path)" if "path \<in> set paths" for path
  proof (rule steps_byI)
    fix s s'
    assume r: "glob_path w op nb path s = Inr s'"
    show "justified (pattern_hides w op nb pattern) (fs_actions s) (fs_actions s')"
    proof (cases "permitted w op nb path")
      case True
      with glob_path_cases [OF r] have "justified (hides w op path) (fs_actions s) (fs_actions s')"
        by (auto intro: steps_byD [OF hidden.disable_file_steps])
      then show ?thesis using True that g(1) by (elim justified_mono) (auto simp: pattern_hides_def)
    next
      case False
      with glob_path_cases [OF r] show ?thesis by (simp add: justified.none)
    qed
  qed
  from steps_byD [OF steps_by_fold [OF this] g(2)] show "justified (pattern_hides w op nb pattern) (fs_actions st) (fs_actions st')" .
qed

lemma entry_hides_step:
  assumes "fs_entry w entry (nb, st) = Inr (nb', st')"
  shows "justified (entry_hides w nb entry) (fs_actions st) (fs_actions st')"
proof (rule entry_steps [OF assms])
  fix op s patterns pattern
  assume p: "entry_operation entry = Some (op, s)" "pattern_names w s (fs_actions st) = Inr patterns" "pattern \<in> set patterns"
  have "entry_hides w nb entry c a" if "pattern_hides w op nb pattern c a" for c a
    using that p unfolding entry_hides_def by blast
  then show "steps_by (entry_hides w nb entry) (globbing w op nb pattern)"
    using globbing_hides [of w op nb pattern] by (auto intro!: steps_byI dest!: steps_byD intro: justified_mono)
qed (simp_all add: entry_hides_def)

lemma starts_clash:
  assumes "starts_with p e" "starts_with q e"
  shows "take (length q) p = take (length p) q"
proof -
  have "take (length q) (take (length p) e) = take (length p) (take (length q) e)" by (simp add: min.commute)
  with assms show ?thesis by (simp add: starts_with_def)
qed

lemma operation_entry:
  assumes "entry_operation entry = Some (op, s)"
  shows "\<not> skipped_entry entry \<and> \<not> starts_with ''bind '' entry \<and> \<not> starts_with ''noblacklist '' entry"
proof -
  from assms obtain pre i where "starts_with pre entry" "i < length operations" "operations ! i = (pre, op)"
    by (auto simp: entry_operation_def find_Some_iff)
  then have "(pre, op) \<in> set operations" by (metis nth_mem)
  moreover have "pre \<noteq> []" "\<And>q. q \<in> {''whitelist '', ''nowhitelist '', ''dbus-'', ''bind '', ''noblacklist ''} \<Longrightarrow> take (length q) pre \<noteq> take (length pre) q"
    using calculation by (auto simp: operations_def)
  moreover have "entry \<noteq> []" using \<open>starts_with pre entry\<close> \<open>pre \<noteq> []\<close> by (auto simp: starts_with_def)
  ultimately show ?thesis using starts_clash [OF \<open>starts_with pre entry\<close>] by (auto simp: skipped_entry_def)
qed

lemma skipped_no_names:
  "skipped_entry entry \<or> starts_with ''bind '' entry \<Longrightarrow> \<not> starts_with ''noblacklist '' entry"
proof
  assume s: "skipped_entry entry \<or> starts_with ''bind '' entry" and n: "starts_with ''noblacklist '' entry"
  have "entry \<noteq> []" using n by (auto simp: starts_with_def)
  moreover have "\<not> starts_with q entry" if "q \<in> {''whitelist '', ''nowhitelist '', ''dbus-'', ''bind ''}" for q
    using starts_clash [OF n, of q] that by auto
  ultimately show False using s by (auto simp: skipped_entry_def)
qed

lemma entry_collects:
  assumes "fs_entry w e (nb, st) = Inr (nb', st')" "collected w es nb"
  shows "collected w (es @ [e]) nb'"
proof (cases "starts_with ''noblacklist '' e")
  case True
  with assms(1) skipped_no_names [of e] obtain ns where "entry_names w (drop 12 e) (fs_actions st) = Inr ns" "nb' = nb @ ns"
    by (auto simp: fs_entry_def bind_result_eq_Inr_iff split: if_splits)
  then show ?thesis using True assms(2) by (auto intro: collected.noblacklist)
next
  case False
  with assms(1) have "nb' = nb" by (auto simp: fs_entry_def bind_result_eq_Inr_iff split: if_splits option.splits)
  then show ?thesis using False assms(2) by (auto intro: collected.other)
qed

lemma entries_run:
  assumes "fold_result (fs_entry w) es ([], st) = Inr (nb, st')"
  shows "collected w es nb \<and> justified (entries_hide w es) (fs_actions st) (fs_actions st')"
  using assms
proof (induction es arbitrary: nb st' rule: rev_induct)
  case Nil
  then show ?case by (simp add: fold_result_Nil collected.no_entries justified.none)
next
  case (snoc e es)
  from snoc.prems obtain nb1 st1 where r: "fold_result (fs_entry w) es ([], st) = Inr (nb1, st1)" "fs_entry w e (nb1, st1) = Inr (nb, st')"
    by (auto simp: fold_result_append bind_result_eq_Inr_iff fold_result_Nil)
  note IH = snoc.IH [OF r(1)]
  have "entries_hide w (es @ [e]) c a" if "entries_hide w es c a" for c a
    unfolding entries_hide_def
  proof (intro allI impI)
    fix op p d
    assume "a = Disable op p d"
    with that obtain i nb where "i < length es" "collected w (take i es) nb" "entry_hides w nb (es ! i) c a"
      by (auto simp: entries_hide_def)
    then show "\<exists>i nb. i < length (es @ [e]) \<and> collected w (take i (es @ [e])) nb \<and> entry_hides w nb ((es @ [e]) ! i) c a"
      by (intro exI [of _ i] exI [of _ nb]) (simp add: nth_append)
  qed
  with IH have "justified (entries_hide w (es @ [e])) (fs_actions st) (fs_actions st1)" by (blast intro: justified_mono)
  moreover have "entries_hide w (es @ [e]) c a" if "entry_hides w nb1 e c a" for c a
    using that IH by (auto simp: entries_hide_def intro!: exI [of _ "length es"])
  then have "justified (entries_hide w (es @ [e])) (fs_actions st1) (fs_actions st')"
    by (blast intro: justified_mono entry_hides_step [OF r(2)])
  ultimately show ?case using entry_collects [OF r(2)] IH by (blast intro: justified_trans)
qed


text \<open>A step of a fold, with the rest of the fold after it.\<close>

lemma fold_result_at:
  "fold_result f xs s = Inr t \<Longrightarrow> x \<in> set xs \<Longrightarrow> \<exists>s1 s2 ys. f x s1 = Inr s2 \<and> set ys \<subseteq> set xs \<and> fold_result f ys s2 = Inr t"
proof (induction xs arbitrary: s)
  case (Cons y ys)
  from Cons.prems(1) obtain s' where f: "f y s = Inr s'" "fold_result f ys s' = Inr t" by (auto simp: bind_result_eq_Inr_iff)
  show ?case
  proof (cases "x = y")
    case True
    then show ?thesis using f by (metis set_subset_Cons)
  next
    case False
    then show ?thesis using Cons.IH [OF f(2)] Cons.prems(2) by auto
  qed
qed simp

lemma fs_entries_grow:
  "fold_result (fs_entry w) es (nb, st) = Inr (nb', st') \<Longrightarrow> \<exists>d. fs_actions st' = fs_actions st @ d"
proof (induction es arbitrary: nb st)
  case (Cons e es)
  then obtain nb1 st1 where "fs_entry w e (nb, st) = Inr (nb1, st1)" "fold_result (fs_entry w) es (nb1, st1) = Inr (nb', st')"
    by (auto simp: bind_result_eq_Inr_iff)
  with Cons.IH entry_hides_step justified_prefix show ?case by (metis append.assoc)
qed (simp add: fold_result_Nil)

text \<open>What has happened to a permitted path in the end.\<close>

definition dealt_with :: "fs_world \<Rightarrow> OPERATION \<Rightarrow> string \<Rightarrow> changes \<Rightarrow> bool" where
  "dealt_with w op path done_changes \<longleftrightarrow>
     (\<exists>c rest. done_changes = c @ rest \<and>
        (case fw_realpath w c path of
           Missing \<Rightarrow> True
         | Denied \<Rightarrow> \<not> fw_can_open w c path \<or> \<not> fw_succeeds w c (Force_Disable op path) \<or> (\<exists>r. rest = Force_Disable op path # r)
         | Resolved p \<Rightarrow>
             p = fw_bindir w @ ''/firejail'' \<or>
             (case fw_stat w c p of
                None \<Rightarrow> True
              | Some s \<Rightarrow>
                  (p = ''/bin'' \<or> p = ''/usr/bin'') \<and> fw_is_link w c path \<and> st_is_dir s \<or>
                  (\<exists>r. rest = Disable op p (st_is_dir s) # r))))"

lemma dealt_with_more: "dealt_with w op path c \<Longrightarrow> dealt_with w op path (c @ d)"
  unfolding dealt_with_def by (elim exE conjE) (rule exI, rule exI, rule conjI, simp, auto split: resolved.splits option.splits)

lemma disable_file_deals:
  assumes "disable_file w op path st = Inr st'" "is_blacklist_op op"
  shows "dealt_with w op path (fs_actions st')"
  using assms unfolding dealt_with_def
  by (intro exI [of _ "fs_actions st"] exI [of _ "drop (length (fs_actions st)) (fs_actions st')"])
    (auto simp: disable_file_def modify_file_def hide_file_def act_or_exit_def try_act_def can_do_def act_def bind_result_eq_Inr_iff
      split: resolved.splits option.splits if_splits)

lemma globbing_deals:
  assumes "globbing w op nb pattern st = Inr st'" "is_blacklist_op op"
  shows "\<exists>c paths. fw_glob w c pattern = Some paths \<and> (\<forall>path \<in> set paths. permitted w op nb path \<longrightarrow> dealt_with w op path (fs_actions st'))"
proof -
  from assms(1) obtain paths where g: "fw_glob w (fs_actions st) pattern = Some paths" "fold_result (glob_path w op nb) paths st = Inr st'"
    by (auto simp: globbing_def split: option.splits)
  have "dealt_with w op path (fs_actions st')" if "path \<in> set paths" "permitted w op nb path" for path
  proof -
    from fold_result_at [OF g(2) that(1)] obtain s1 s2 ys
      where f: "glob_path w op nb path s1 = Inr s2" "fold_result (glob_path w op nb) ys s2 = Inr st'" by blast
    from disable_file_deals assms(2) that(2) glob_path_cases [OF f(1)] have "dealt_with w op path (fs_actions s2)" by auto
    moreover have "\<exists>d. fs_actions st' = fs_actions s2 @ d"
    proof -
      have "steps_by (\<lambda>_ _. True) (glob_path w op nb q)" for q
        using glob_path_cases steps_byD [OF hidden.disable_file_steps]
        by (auto intro!: steps_byI split: if_splits simp: justified.none) (metis justified_mono justified.none)
      from steps_byD [OF steps_by_fold [OF this] f(2)] show ?thesis by (rule justified_prefix)
    qed
    ultimately show ?thesis using dealt_with_more by metis
  qed
  with g(1) show ?thesis by blast
qed


subsection \<open>An example\<close>

definition demo_mounts :: "mount_entry list" where
  "demo_mounts = [(demo_mount 2 ''/home/u'')\<lparr>me_type := ''tmpfs''\<rparr>]"

definition demo_stat :: file_stat where
  "demo_stat = \<lparr>st_is_dir = True, st_mode = 493, st_uid = 1000, st_gid = 1000, st_dev = 1, st_ino = 1\<rparr>"

definition demo_fs :: fs_world where
  "demo_fs =
     \<lparr>fw_uid = 1000, fw_homedir = ''/home'', fw_bindir = ''/usr/bin'', fw_paths = [''/usr/bin''], fw_fnmatch = (\<lambda>p q. Some (p = q)),
      fw_macros = (\<lambda>_. \<lparr>me_homedir = ''/home'', me_uid = 1000, me_sysconfdir = ''/etc/firejail'', me_user_dirs = None, me_exists = (\<lambda>_. False)\<rparr>),
      fw_glob = (\<lambda>_ p. Some [p]), fw_realpath = (\<lambda>_. Resolved), fw_stat = (\<lambda>_ _. Some demo_stat), fw_can_open = (\<lambda>_ _. True),
      fw_can_chdir = (\<lambda>_ _. True), fw_is_link = (\<lambda>_ _. False), fw_nofollow = (\<lambda>_ _. Some demo_stat), fw_flags = (\<lambda>_ _. Some 1),
      fw_mount_id = (\<lambda>_ _. None), fw_mountinfo = (\<lambda>_. mount_text [space, newline, backslash] demo_mounts),
      fw_succeeds = (\<lambda>_ _. True)\<rparr>"

definition start_state :: fs_state where
  "start_state = \<lparr>fs_actions = [], fs_rebuild_etc = []\<rparr>"

lemma demo_entry_ok:
  "dir \<in> {''/home/u'', ''/t'', ''/t/a''} \<Longrightarrow> entry_ok [space, newline, backslash] ((demo_mount 2 dir)\<lparr>me_type := ''tmpfs''\<rparr>)"
  by (auto simp: entry_ok_def demo_mount_def mount_word_def entry_line_def mangle_def octal_def fmt_u_def digits_of.simps MAX_BUF_def)

lemma demo_last_mount:
  assumes "dir \<in> {''/home/u'', ''/t'', ''/t/a''}"
  shows "get_last_mount (mount_text [space, newline, backslash] [(demo_mount 2 dir)\<lparr>me_type := ''tmpfs''\<rparr>]) =
    Inr \<lparr>mountid = 2, fsname = ''/'', mount_dir = dir, fstype = ''tmpfs''\<rparr>"
  using last_mount_entry [of "[space, newline, backslash]" "[(demo_mount 2 dir)\<lparr>me_type := ''tmpfs''\<rparr>]"] demo_entry_ok [OF assms]
  by (simp add: escapes_ok_def demo_mount_def mount_data_def)

lemmas demo_fs_simps = demo_fs_def start_state_def demo_stat_def fs_blacklist_def fs_entry_def skipped_entry_def starts_with_def
  entry_operation_def operations_def pattern_names_def PATH_macro_def expand_slash globbing_def glob_path_def gnu_basename_def
  is_blacklist_op_def disable_file_def modify_file_def fold_result_Nil entry_names_def

lemma demo_tmpfs:
  "\<exists>opts. fs_blacklist demo_fs [''tmpfs /home/u''] start_state = Inr \<lparr>fs_actions = [Tmpfs ''/home/u'' 6 opts], fs_rebuild_etc = []\<rparr>"
  by (simp add: demo_fs_simps tmpfs_allowed_def below_def fs_tmpfs_def act_or_exit_def can_do_def act_def demo_mounts_def demo_last_mount Let_def mount_flags)

theorem user_mounts_safe_witness:
  "fw_uid demo_fs \<noteq> 0 \<and>
   (\<exists>opts. fs_blacklist demo_fs [''tmpfs /home/u''] start_state = Inr \<lparr>fs_actions = [Tmpfs ''/home/u'' 6 opts], fs_rebuild_etc = []\<rparr> \<and>
      user_change demo_fs [] (Tmpfs ''/home/u'' 6 opts))"
proof -
  obtain opts where o: "fs_blacklist demo_fs [''tmpfs /home/u''] start_state = Inr \<lparr>fs_actions = [Tmpfs ''/home/u'' 6 opts], fs_rebuild_etc = []\<rparr>"
    using demo_tmpfs by blast
  have u: "fw_uid demo_fs \<noteq> 0" by (simp add: demo_fs_def)
  from user_mounts_safe [OF o u, of "[]" "Tmpfs ''/home/u'' 6 opts" "[]"] o u show ?thesis by (auto simp: start_state_def)
qed

lemma demo_blacklist:
  "fs_blacklist demo_fs [''noblacklist /a'', ''blacklist /b''] start_state =
     Inr \<lparr>fs_actions = [Disable BLACKLIST_FILE ''/b'' True], fs_rebuild_etc = []\<rparr>"
  by (simp add: demo_fs_simps hide_file_def act_or_exit_def can_do_def act_def)


lemma demo_collected: "collected demo_fs [''noblacklist /a''] nb \<Longrightarrow> nb = [''/a'']"
proof (erule collected.cases, goal_cases)
  case (2 es nb' e c ns)
  moreover have "collected demo_fs [] nb'" using 2 by simp
  then have "nb' = []" by (rule collected.cases) auto
  moreover have "e = ''noblacklist /a''" using 2 by simp
  ultimately show ?case by (simp add: entry_names_def PATH_macro_def starts_with_def expand_slash)
qed (auto simp: starts_with_def)


end
