(* ===== verification/Fs_Whitelist.thy ===== *)
theory Fs_Whitelist
  imports Fs_Blacklist
begin

text \<open>
  The whitelist, \<open>firejail/fs_whitelist.c\<close>: the whitelist and nowhitelist entries are resolved and attached to a top level
  directory; then a tmpfs is mounted on every top level directory, and the whitelisted files are bound into it again.

  The first loop goes over a list that grows while the loop runs, since a path that does not exist is tried as a pattern and
  the matching paths are appended as new entries. It need not end, and is a partial function; \<open>None\<close> stands for a loop that
  does not end.
\<close>

subsection \<open>State and answers\<close>

definition TOP_MAX :: nat where "TOP_MAX = 64"

datatype file_kind = Kind_Dir | Kind_Link | Kind_Other

text \<open>
  \<open>ww_lstat\<close> is the answer to \<open>lstat\<close> on a top level directory, \<open>ww_source\<close> that to opening a file below one that was opened
  before it is covered, without following links.
\<close>

record wl_world =
  ww_fs :: fs_world
  ww_private :: bool
  ww_reject :: "string list"
  ww_tmp_env :: "string option"
  ww_lstat :: "string \<Rightarrow> file_kind option"
  ww_can_open :: "string \<Rightarrow> bool"
  ww_source :: "string \<Rightarrow> string \<Rightarrow> file_kind option"

text \<open>The parameters that are attached to an entry.\<close>

record wparam_t =
  wp_file :: string
  wp_link :: "string option"
  wp_top :: string

record wl_state =
  wl_nowhitelist :: "string list"
  wl_topdirs :: "string list"
  wl_params :: "wparam_t list"

abbreviation homedir :: "wl_world \<Rightarrow> string" where "homedir w \<equiv> fw_homedir (ww_fs w)"

definition runuser :: "wl_world \<Rightarrow> string" where
  "runuser w = ''/run/user/'' @ fmt_u (unat (fw_uid (ww_fs w)))"

definition RUN_FIREJAIL_DIR :: string where "RUN_FIREJAIL_DIR = ''/run/firejail''"

definition whitelist_error :: "string \<Rightarrow> c_error" where
  "whitelist_error path = ProfileError ''invalid whitelist path'' path"

subsection \<open>Top level directories\<close>

definition reject_topdir :: "wl_world \<Rightarrow> string \<Rightarrow> bool" where
  "reject_topdir w dir \<longleftrightarrow> dir \<in> set (ww_reject w)"

text \<open>The result says whether the directory has been added.\<close>

definition add_topdir :: "wl_world \<Rightarrow> string \<Rightarrow> string \<Rightarrow> wl_state \<Rightarrow> (bool \<times> wl_state) result" where
  "add_topdir w dir path st =
     (if dir = ''/'' \<or> dir = ''/proc'' \<or> dir = ''/sys'' then Inl (whitelist_error path)
      else if ww_private w \<and> dir = homedir w then Inr (False, st)
      else (case ww_lstat w dir of
              None \<Rightarrow> Inr (False, st)
            | Some Kind_Link \<Rightarrow> Inr (False, st)
            | Some Kind_Other \<Rightarrow> Inl (whitelist_error path)
            | Some Kind_Dir \<Rightarrow>
                if reject_topdir w dir then Inr (False, st)
                else if TOP_MAX \<le> length (wl_topdirs st) then Inl (Exited ''too many whitelist top level directories'')
                else if \<not> ww_can_open w dir then Inl (CannotOpen dir)
                else Inr (True, st\<lparr>wl_topdirs := wl_topdirs st @ [dir]\<rparr>)))"

definition have_topdir :: "string \<Rightarrow> wl_state \<Rightarrow> bool" where
  "have_topdir dir st \<longleftrightarrow> dir \<in> set (wl_topdirs st)"

text \<open>\<open>have_topdir(...) || add_topdir(...)\<close>\<close>

definition need_topdir :: "wl_world \<Rightarrow> string \<Rightarrow> string \<Rightarrow> wl_state \<Rightarrow> (bool \<times> wl_state) result" where
  "need_topdir w dir path st = (if have_topdir dir st then Inr (True, st) else add_topdir w dir path st)"

text \<open>The path cut at the first slash after its first \<open>n\<close> characters.\<close>

definition cut_after :: "nat \<Rightarrow> string \<Rightarrow> string result" where
  "cut_after n path =
     (if slash \<in> set (drop n path) then Inr (take n path @ takeWhile (\<lambda>c. c \<noteq> slash) (drop n path))
      else Inl (whitelist_error path))"

definition extract_topdir :: "wl_world \<Rightarrow> string \<Rightarrow> string result" where
  "extract_topdir w path =
     (if below (homedir w) path then Inr (homedir w)
      else if below (runuser w) path then Inr (runuser w)
      else if below ''/sys/module'' path then Inr ''/sys/module''
      else if starts_with ''/usr/'' path then cut_after 5 path
      else if \<not> starts_with ''/'' path then Inl AssertFailure
      else cut_after 1 path)"

subsection \<open>The first loop\<close>

text \<open>A path that does not exist is tried as a pattern: the new entries.\<close>

definition glob_entries :: "wl_world \<Rightarrow> changes \<Rightarrow> string \<Rightarrow> string list result" where
  "glob_entries w c pattern =
     (case fw_glob (ww_fs w) c pattern of
        None \<Rightarrow> Inl (ProfileError ''failed to glob private-bin pattern'' pattern)
      | Some paths \<Rightarrow>
          Inr (map (\<lambda>p. ''whitelist '' @ p)
                 (filter (\<lambda>p. p \<noteq> pattern \<and> gnu_basename p \<noteq> ''.'' \<and> gnu_basename p \<noteq> ''..'') paths)))"

definition resolve_name :: "wl_world \<Rightarrow> changes \<Rightarrow> string \<Rightarrow> string option" where
  "resolve_name w c new_name =
     (if new_name = ''/dev/fd'' then Some ''/proc/self/fd''
      else if new_name = ''/dev/stdin'' then Some ''/proc/self/fd/0''
      else if new_name = ''/dev/stdout'' then Some ''/proc/self/fd/1''
      else if new_name = ''/dev/stderr'' then Some ''/proc/self/fd/2''
      else (case fw_realpath (ww_fs w) c new_name of Resolved f \<Rightarrow> Some f | _ \<Rightarrow> None))"

text \<open>An entry with a path and, if it is no nowhitelist entry, its top level directory; the result has the new entries.\<close>

definition attach :: "wl_world \<Rightarrow> changes \<Rightarrow> string option \<Rightarrow> string \<Rightarrow> wl_state \<Rightarrow> (string list \<times> wl_state) result" where
  "attach w c current_top new_name st =
     (if starts_with RUN_FIREJAIL_DIR new_name then Inr ([], st)
      else case resolve_name w c new_name of
        None \<Rightarrow>
          if current_top = None then Inr ([], st) else bind_result (glob_entries w c new_name) (\<lambda>new. Inr (new, st))
      | Some fname \<Rightarrow>
          if starts_with RUN_FIREJAIL_DIR fname then Inr ([], st)
          else (case current_top of
                  None \<Rightarrow> Inr ([], st\<lparr>wl_nowhitelist := wl_nowhitelist st @ [fname]\<rparr>)
                | Some tdir \<Rightarrow>
                    if fname \<in> set (wl_nowhitelist st) then Inr ([], st)
                    else Inr ([], st\<lparr>wl_params := wl_params st @
                           [\<lparr>wp_file = fname, wp_link = (if fw_is_link (ww_fs w) c new_name then Some new_name else None), wp_top = tdir\<rparr>]\<rparr>)))"

definition whitelist_name :: "wl_world \<Rightarrow> changes \<Rightarrow> bool \<Rightarrow> string \<Rightarrow> wl_state \<Rightarrow> (string list \<times> wl_state) result" where
  "whitelist_name w c nowhitelist new_name st =
     (if strstr new_name ''..'' \<noteq> None then Inl (whitelist_error new_name)
      else if nowhitelist then attach w c None new_name st
      else bind_result (extract_topdir w new_name) (\<lambda>dir.
           bind_result (need_topdir w dir new_name st) (\<lambda>(found, st).
             if found then attach w c (Some dir) new_name st else Inr ([], st))))"

definition whitelist_data :: "string \<Rightarrow> (bool \<times> string) option" where
  "whitelist_data entry =
     (if starts_with ''whitelist '' entry then Some (False, drop 10 entry)
      else if starts_with ''nowhitelist '' entry then Some (True, drop 12 entry)
      else None)"

definition whitelist_entry :: "wl_world \<Rightarrow> changes \<Rightarrow> string \<Rightarrow> wl_state \<Rightarrow> (string list \<times> wl_state) result" where
  "whitelist_entry w c entry st =
     (case whitelist_data entry of
        None \<Rightarrow> Inr ([], st)
      | Some (nowhitelist, dataptr) \<Rightarrow>
          bind_result (expand_macros (fw_macros (ww_fs w) c) dataptr) (\<lambda>expanded.
            if is_macro expanded \<and> macro_id expanded \<noteq> None
            then (if nowhitelist then Inr ([], st)
                  else bind_result (need_topdir w (homedir w) expanded st) (\<lambda>(_, st). Inr ([], st)))
            else if \<not> starts_with ''/'' expanded then Inl (whitelist_error expanded)
            else bind_result (clean_pathname expanded) (\<lambda>new_name. whitelist_name w c nowhitelist new_name st)))"

partial_function (option) whitelist_loop :: "wl_world \<Rightarrow> changes \<Rightarrow> string list \<Rightarrow> wl_state \<Rightarrow> wl_state result option" where
  "whitelist_loop w c es st =
     (case es of
        [] \<Rightarrow> Some (Inr st)
      | entry # rest \<Rightarrow>
          (case whitelist_entry w c entry st of
             Inl e \<Rightarrow> Some (Inl e)
           | Inr (new, st') \<Rightarrow> whitelist_loop w c (rest @ new) st'))"

subsection \<open>Covering the top level directories\<close>

definition make_dir :: "fs_world \<Rightarrow> string \<Rightarrow> fs_state \<Rightarrow> bool \<times> fs_state" where
  "make_dir w p st =
     (let st = try_act w (Mkdir p) st in
      (case fw_nofollow w (fs_actions st) p of None \<Rightarrow> False | Some s \<Rightarrow> st_is_dir s, st))"

fun mkpath_loop :: "fs_world \<Rightarrow> int \<Rightarrow> string \<Rightarrow> string list \<Rightarrow> fs_state \<Rightarrow> bool \<times> fs_state" where
  "mkpath_loop w i parent [] st = (True, st)"
| "mkpath_loop w i parent (tok # toks) st =
     (let p = parent @ ''/'' @ tok; (ok, st) = make_dir w p st in
      if ok \<and> fw_mount_id w (fs_actions st) p = Some i then mkpath_loop w i p toks st else (False, st))"

text \<open>The leading directories of \<open>relpath\<close>; the result says whether the path can be used.\<close>

definition whitelist_mkpath :: "fs_world \<Rightarrow> string \<Rightarrow> string \<Rightarrow> fs_state \<Rightarrow> (bool \<times> fs_state) result" where
  "whitelist_mkpath w parentdir relpath st =
     (case fw_nofollow w (fs_actions st) parentdir of
        None \<Rightarrow> Inl (ErrExit ''open'')
      | Some _ \<Rightarrow>
          (case fw_mount_id w (fs_actions st) parentdir of
             None \<Rightarrow> Inr (False, st)
           | Some i \<Rightarrow>
               if slash \<notin> set relpath then Inr (True, st)
               else let toks = strtok slash (rev (drop 1 (dropWhile (\<lambda>c. c \<noteq> slash) (rev relpath)))) in
                 if toks = [] then Inl AssertFailure else Inr (mkpath_loop w i parentdir toks st)))"

text \<open>The target of the mount: a directory may exist, a file must be new.\<close>

definition make_target :: "fs_world \<Rightarrow> file_kind \<Rightarrow> string \<Rightarrow> fs_state \<Rightarrow> bool \<times> fs_state" where
  "make_target w kind path st =
     (if kind = Kind_Dir then make_dir w path st
      else if can_do w (Mkfile path) st then (True, act (Mkfile path) st) else (False, st))"

definition mount_back :: "fs_world \<Rightarrow> string \<Rightarrow> fs_state \<Rightarrow> fs_state result" where
  "mount_back w path st =
     bind_result (act_or_exit w ''mount bind'' (Show path) st) (\<lambda>st.
     bind_result (get_last_mount (fw_mountinfo w (fs_actions st))) (\<lambda>mptr.
       if mount_dir mptr \<noteq> path \<and> \<not> below path (mount_dir mptr) then Inl (Exited ''invalid whitelist mount'')
       else if starts_with ''/'' (mount_dir mptr) \<and> slash \<notin> set (drop 1 (mount_dir mptr)) then Inl (Exited ''invalid whitelist mount'')
       else Inr st))"

definition whitelist_file :: "wl_world \<Rightarrow> string \<Rightarrow> string \<Rightarrow> fs_state \<Rightarrow> fs_state result" where
  "whitelist_file w tdir path st =
     (if \<not> below tdir path then Inr st
      else let relpath = drop (length tdir + 1) path in
        case ww_source w tdir relpath of
          None \<Rightarrow> Inr st
        | Some kind \<Rightarrow>
            if kind = Kind_Link then Inr st
            else bind_result (whitelist_mkpath (ww_fs w) tdir relpath st) (\<lambda>(ok, st).
              if \<not> ok then Inr st
              else case make_target (ww_fs w) kind path st of
                (ok, st) \<Rightarrow> if ok then mount_back (ww_fs w) path st else Inr st))"

definition whitelist_symlink :: "wl_world \<Rightarrow> string \<Rightarrow> string \<Rightarrow> string \<Rightarrow> fs_state \<Rightarrow> fs_state result" where
  "whitelist_symlink w tdir link target st =
     (if \<not> below tdir link then Inl AssertFailure
      else bind_result (whitelist_mkpath (ww_fs w) tdir (drop (length tdir + 1) link) st) (\<lambda>(ok, st).
        Inr (if ok then try_act (ww_fs w) (Symlink link target) st else st)))"

text \<open>The directory of firejail stays visible in \<open>/run\<close>.\<close>

definition restore_run :: "wl_world \<Rightarrow> string \<Rightarrow> fs_state \<Rightarrow> fs_state result" where
  "restore_run w tdir st =
     bind_result (act_or_exit (ww_fs w) ''mkdir'' (Mkdir RUN_FIREJAIL_DIR) st) (\<lambda>st.
     bind_result (act_or_exit (ww_fs w) ''mount bind'' (Show RUN_FIREJAIL_DIR) st) (\<lambda>st.
       whitelist_file w tdir (runuser w) st))"

definition pam_tmpdirs :: "wl_world \<Rightarrow> string list" where
  "pam_tmpdirs w =
     (let uid = fmt_u (unat (fw_uid (ww_fs w))) in
      if ww_tmp_env w = Some (''/tmp/user/'' @ uid) then [''/tmp/user'', ''/tmp/user/'' @ uid]
      else if ww_tmp_env w = Some (''/tmp/'' @ uid) then [''/tmp/'' @ uid]
      else [])"

definition tmpfs_topdir :: "wl_world \<Rightarrow> string \<Rightarrow> fs_state \<Rightarrow> fs_state result" where
  "tmpfs_topdir w tdir st =
     (if tdir = homedir w \<or> tdir = runuser w then Inr st
      else if tdir = ''/run'' \<and> \<not> fw_can_open (ww_fs w) (fs_actions st) RUN_FIREJAIL_DIR then Inl (ErrExit ''open'')
      else bind_result (fs_tmpfs (ww_fs w) tdir False st) (\<lambda>st.
           bind_result
             (if tdir = ''/run'' then restore_run w tdir st
              else if tdir = ''/tmp'' then fold_result (\<lambda>d. act_or_exit (ww_fs w) ''mkdir'' (Mkdir d)) (pam_tmpdirs w) st
              else Inr st) (\<lambda>st.
           whitelist_file w tdir (homedir w) st)))"

definition tmpfs_topdirs :: "wl_world \<Rightarrow> string list \<Rightarrow> fs_state \<Rightarrow> fs_state result" where
  "tmpfs_topdirs w topdirs st =
     bind_result (fold_result (tmpfs_topdir w) topdirs st) (\<lambda>st.
     bind_result (if homedir w \<in> set topdirs then act_or_exit (ww_fs w) ''private'' Private_Home st else Inr st) (\<lambda>st.
       if runuser w \<in> set topdirs \<and> runuser w \<noteq> homedir w then fs_tmpfs (ww_fs w) (runuser w) False st else Inr st))"

definition apply_param :: "wl_world \<Rightarrow> wparam_t \<Rightarrow> fs_state \<Rightarrow> fs_state result" where
  "apply_param w p st =
     bind_result (whitelist_file w (wp_top p) (wp_file p) st) (\<lambda>st.
       case wp_link p of None \<Rightarrow> Inr st | Some link \<Rightarrow> whitelist_symlink w (wp_top p) link (wp_file p) st)"

definition fs_whitelist :: "wl_world \<Rightarrow> string list \<Rightarrow> fs_state \<Rightarrow> fs_state result option" where
  "fs_whitelist w es st =
     (if es = [] then Some (Inr st)
      else map_option (\<lambda>r. bind_result r (\<lambda>wl.
             bind_result (tmpfs_topdirs w (wl_topdirs wl) st) (fold_result (apply_param w) (wl_params wl))))
           (whitelist_loop w (fs_actions st) es \<lparr>wl_nowhitelist = [], wl_topdirs = [], wl_params = []\<rparr>))"

subsection \<open>The result of the first loop\<close>

definition top_ok :: "wl_world \<Rightarrow> string \<Rightarrow> bool" where
  "top_ok w d \<longleftrightarrow> d \<noteq> ''/'' \<and> d \<noteq> ''/proc'' \<and> d \<noteq> ''/sys'' \<and> d \<notin> set (ww_reject w) \<and> ww_lstat w d = Some Kind_Dir \<and>
     ww_can_open w d \<and> (ww_private w \<longrightarrow> d \<noteq> homedir w)"

text \<open>The entries that the loop meets: those of the profile, and those that a pattern of such an entry adds.\<close>

definition entry_path :: "wl_world \<Rightarrow> changes \<Rightarrow> string \<Rightarrow> (bool \<times> string) option" where
  "entry_path w c entry =
     (case whitelist_data entry of
        None \<Rightarrow> None
      | Some (nowhitelist, dataptr) \<Rightarrow>
          (case bind_result (expand_macros (fw_macros (ww_fs w) c) dataptr) clean_pathname of
             Inl _ \<Rightarrow> None
           | Inr new_name \<Rightarrow> Some (nowhitelist, new_name)))"

inductive entry_of :: "wl_world \<Rightarrow> changes \<Rightarrow> string list \<Rightarrow> string \<Rightarrow> bool" for w c es where
  listed: "e \<in> set es \<Longrightarrow> entry_of w c es e"
| globbed: "entry_of w c es e \<Longrightarrow> entry_path w c e = Some (False, pattern) \<Longrightarrow> glob_entries w c pattern = Inr new \<Longrightarrow> e' \<in> set new \<Longrightarrow>
    entry_of w c es e'"

definition param_ok :: "wl_world \<Rightarrow> changes \<Rightarrow> string list \<Rightarrow> string list \<Rightarrow> wparam_t \<Rightarrow> bool" where
  "param_ok w c es topdirs p \<longleftrightarrow>
     wp_top p \<in> set topdirs \<and> \<not> starts_with RUN_FIREJAIL_DIR (wp_file p) \<and>
     (\<exists>e name. entry_of w c es e \<and> entry_path w c e = Some (False, name) \<and> resolve_name w c name = Some (wp_file p) \<and>
        strstr name ''..'' = None \<and> below (wp_top p) name \<and> (\<forall>l. wp_link p = Some l \<longrightarrow> l = name))"

definition wl_ok :: "wl_world \<Rightarrow> changes \<Rightarrow> string list \<Rightarrow> wl_state \<Rightarrow> bool" where
  "wl_ok w c es st \<longleftrightarrow>
     length (wl_topdirs st) \<le> TOP_MAX \<and> distinct (wl_topdirs st) \<and> (\<forall>d \<in> set (wl_topdirs st). top_ok w d) \<and>
     (\<forall>p \<in> set (wl_params st). param_ok w c es (wl_topdirs st) p)"

lemma cut_after_below:
  assumes "cut_after n path = Inr d"
  shows "below d path"
proof -
  from assms have s: "slash \<in> set (drop n path)" and d: "d = take n path @ takeWhile (\<lambda>c. c \<noteq> slash) (drop n path)"
    by (auto simp: cut_after_def split: if_splits)
  let ?r = "dropWhile (\<lambda>c. c \<noteq> slash) (drop n path)"
  have p: "path = d @ ?r" unfolding d by (simp add: append_take_drop_id)
  have "?r \<noteq> []" using s by (simp add: dropWhile_eq_Nil_conv)
  moreover from this have "hd ?r = slash" using hd_dropWhile by blast
  ultimately obtain t where "?r = slash # t" by (cases ?r) auto
  with p have "path = d @ slash # t" by simp
  then show ?thesis by (simp add: below_def starts_with_def)
qed

lemma extract_topdir_below: "extract_topdir w path = Inr d \<Longrightarrow> below d path"
  by (auto simp: extract_topdir_def dest: cut_after_below split: if_splits)

lemma need_topdir_ok:
  assumes "need_topdir w dir path st = Inr (found, st')" "wl_ok w c es st"
  shows "wl_ok w c es st' \<and> (found \<longrightarrow> dir \<in> set (wl_topdirs st'))"
  using assms
  by (auto simp: need_topdir_def have_topdir_def add_topdir_def reject_topdir_def wl_ok_def top_ok_def param_ok_def
      split: if_splits option.splits file_kind.splits)

lemma attach_ok:
  assumes "attach w c (Some dir) name st = Inr (new, st')" "wl_ok w c es st" "dir \<in> set (wl_topdirs st)" "below dir name"
    "strstr name ''..'' = None" "entry_of w c es e" "entry_path w c e = Some (False, name)"
  shows "wl_ok w c es st'"
proof -
  have "st' = st \<or> (\<exists>fname. resolve_name w c name = Some fname \<and> \<not> starts_with RUN_FIREJAIL_DIR fname \<and>
      st' = st\<lparr>wl_params := wl_params st @
        [\<lparr>wp_file = fname, wp_link = (if fw_is_link (ww_fs w) c name then Some name else None), wp_top = dir\<rparr>]\<rparr>)"
    using assms(1) by (auto simp: attach_def bind_result_eq_Inr_iff split: if_splits option.splits)
  moreover have "param_ok w c es (wl_topdirs st) \<lparr>wp_file = fname, wp_link = l, wp_top = dir\<rparr>"
    if "resolve_name w c name = Some fname" "\<not> starts_with RUN_FIREJAIL_DIR fname" "l = None \<or> l = Some name" for fname l
    using that assms(3-) unfolding param_ok_def by auto
  ultimately show ?thesis using assms(2) by (auto simp: wl_ok_def)
qed

lemma attach_new:
  "attach w c cur name st = Inr (new, st') \<Longrightarrow> new = [] \<or> cur \<noteq> None \<and> resolve_name w c name = None \<and> glob_entries w c name = Inr new"
  by (auto simp: attach_def bind_result_eq_Inr_iff split: if_splits option.splits)

lemma nowhitelist_ok: "attach w c None name st = Inr (new, st') \<Longrightarrow> wl_ok w c es st \<Longrightarrow> wl_ok w c es st'"
  by (auto simp: attach_def wl_ok_def param_ok_def split: if_splits option.splits)

lemma whitelist_entry_new:
  "whitelist_entry w c e st = Inr (new, st') \<Longrightarrow>
     new = [] \<or> (\<exists>name. entry_path w c e = Some (False, name) \<and> resolve_name w c name = None \<and> glob_entries w c name = Inr new)"
  by (auto simp: whitelist_entry_def whitelist_name_def entry_path_def bind_result_eq_Inr_iff split: if_splits option.splits sum.splits
      dest!: attach_new)

lemma whitelist_entry_ok:
  assumes "whitelist_entry w c e st = Inr (new, st')" "wl_ok w c es st" "entry_of w c es e"
  shows "wl_ok w c es st' \<and> (\<forall>n \<in> set new. entry_of w c es n)"
proof (cases "\<exists>nowl name. entry_path w c e = Some (nowl, name) \<and> whitelist_name w c nowl name st = Inr (new, st')")
  case True
  then obtain nowl name where n: "entry_path w c e = Some (nowl, name)" "whitelist_name w c nowl name st = Inr (new, st')" by blast
  show ?thesis
  proof (cases nowl)
    case True
    with n(2) have "attach w c None name st = Inr (new, st')" by (auto simp: whitelist_name_def split: if_splits)
    then show ?thesis using nowhitelist_ok attach_new assms(2) by fastforce
  next
    case False
    with n(2) obtain dir found st1 where d: "extract_topdir w name = Inr dir" "need_topdir w dir name st = Inr (found, st1)"
      "(if found then attach w c (Some dir) name st1 else Inr ([], st1)) = Inr (new, st')" "strstr name ''..'' = None"
      by (auto simp: whitelist_name_def bind_result_eq_Inr_iff split: if_splits)
    note st1 = need_topdir_ok [OF d(2) assms(2)]
    have p: "entry_path w c e = Some (False, name)" using n(1) False by simp
    show ?thesis
    proof (cases found)
      case True
      with d(3) have a: "attach w c (Some dir) name st1 = Inr (new, st')" by simp
      have "wl_ok w c es st'"
        using attach_ok [OF a _ _ extract_topdir_below [OF d(1)] d(4) assms(3) p] st1 True by blast
      moreover have "\<forall>n \<in> set new. entry_of w c es n" using attach_new [OF a] entry_of.globbed [OF assms(3) p] by auto
      ultimately show ?thesis using attach_new [OF a] p by auto
    next
      case False
      with d(3) st1 show ?thesis by auto
    qed
  qed
next
  case False
  with assms(1) have "new = [] \<and> (st' = st \<or> (\<exists>found path. need_topdir w (homedir w) path st = Inr (found, st')))"
    by (auto simp: whitelist_entry_def entry_path_def bind_result_eq_Inr_iff split: if_splits option.splits sum.splits)
  then show ?thesis using assms(2) need_topdir_ok by fastforce
qed

lemma whitelist_loop_ok:
  assumes "whitelist_loop w c es st = Some r"
  shows "\<forall>all st'. r = Inr st' \<longrightarrow> wl_ok w c all st \<longrightarrow> (\<forall>e \<in> set es. entry_of w c all e) \<longrightarrow> wl_ok w c all st'"
proof (rule whitelist_loop.raw_induct [OF _ assms, where P = "\<lambda>w c es st r. \<forall>all st'. r = Inr st' \<longrightarrow> wl_ok w c all st \<longrightarrow>
    (\<forall>e \<in> set es. entry_of w c all e) \<longrightarrow> wl_ok w c all st'"], goal_cases)
  case (1 loop w c es st r)
  show ?case
  proof (cases es)
    case Nil
    with 1(2) show ?thesis by auto
  next
    case (Cons e rest)
    show ?thesis
    proof (cases "whitelist_entry w c e st")
      case (Inl err)
      with 1(2) Cons show ?thesis by auto
    next
      case (Inr p)
      obtain new st1 where p: "p = (new, st1)" by (cases p)
      with 1(2) Cons Inr have "loop w c (rest @ new) st1 = Some r" by simp
      note IH = 1(1) [OF this]
      show ?thesis
      proof (intro allI impI)
        fix all st'
        assume r: "r = Inr st'" "wl_ok w c all st" "\<forall>e \<in> set es. entry_of w c all e"
        then have "wl_ok w c all st1 \<and> (\<forall>n \<in> set new. entry_of w c all n)"
          using whitelist_entry_ok [of w c e st new st1 all] Inr p Cons by simp
        then show "wl_ok w c all st'" using IH r Cons by auto
      qed
    qed
  qed
qed

subsection \<open>What becomes visible\<close>

definition start_lists :: wl_state where
  "start_lists = \<lparr>wl_nowhitelist = [], wl_topdirs = [], wl_params = []\<rparr>"

lemma start_lists_ok: "wl_ok w c es start_lists"
  by (simp add: wl_ok_def start_lists_def)

text \<open>
  The first loop leaves its tables well formed, whatever the entries are: at most 64 top level directories, each once,
  none of them the root directory, \<open>/proc\<close>, \<open>/sys\<close> or a directory that the administrator excludes, each a real directory
  and no link; every attached file comes from a whitelist entry, or from a path that the pattern of one matched, whose
  cleaned path has no two dots and lies below the top level directory it is attached to; a link lies there too, so that
  the assertion of \<open>whitelist_symlink\<close> holds; and no file of \<open>/run/firejail\<close> is attached.
\<close>

theorem whitelist_tables_ok:
  assumes "whitelist_loop w c es start_lists = Some (Inr wl)"
  shows "wl_ok w c es wl"
  using whitelist_loop_ok [OF assms] start_lists_ok by (blast intro: entry_of.listed)

text \<open>The changes of the second part.\<close>

definition reveals :: "wl_world \<Rightarrow> wl_state \<Rightarrow> changes \<Rightarrow> fs_action \<Rightarrow> bool" where
  "reveals w wl c a \<longleftrightarrow>
     (case a of
        Show p \<Rightarrow>
          p = RUN_FIREJAIL_DIR \<or>
          (\<exists>d \<in> set (wl_topdirs wl). below d p \<and> (p = homedir w \<or> p = runuser w \<or> (\<exists>q \<in> set (wl_params wl). wp_top q = d \<and> wp_file q = p)))
      | Tmpfs d flags opts \<Rightarrow> d \<in> set (wl_topdirs wl)
      | Symlink l t \<Rightarrow> (\<exists>q \<in> set (wl_params wl). wp_link q = Some l \<and> wp_file q = t)
      | Private_Home \<Rightarrow> homedir w \<in> set (wl_topdirs wl)
      | Mkdir p \<Rightarrow> True
      | Mkfile p \<Rightarrow> True
      | _ \<Rightarrow> False)"

lemma make_dir_reveals: "justified (reveals w wl) (fs_actions st) (fs_actions (snd (make_dir f p st)))"
  using justified_try_act [of "reveals w wl" "Mkdir p" st f] by (simp add: make_dir_def Let_def reveals_def)

lemma mkpath_loop_reveals: "justified (reveals w wl) (fs_actions st) (fs_actions (snd (mkpath_loop f i parent toks st)))"
proof (induction f i parent toks st rule: mkpath_loop.induct)
  case (2 f i parent tok toks st)
  obtain ok st1 where m: "make_dir f (parent @ ''/'' @ tok) st = (ok, st1)" by fastforce
  have j: "justified (reveals w wl) (fs_actions st) (fs_actions st1)" using make_dir_reveals [of w wl st f "parent @ ''/'' @ tok"] m by simp
  show ?case
  proof (cases "ok \<and> fw_mount_id f (fs_actions st1) (parent @ ''/'' @ tok) = Some i")
    case True
    with 2 [OF refl m [symmetric] refl] j m show ?thesis by (auto intro: justified_trans)
  next
    case False
    with j m show ?thesis by auto
  qed
qed (simp add: justified.none)

lemma mkpath_reveals:
  "whitelist_mkpath f parent rel st = Inr (ok, st') \<Longrightarrow> justified (reveals w wl) (fs_actions st) (fs_actions st')"
  using mkpath_loop_reveals [of w wl st f _ parent]
  by (auto simp: whitelist_mkpath_def Let_def justified.none split: option.splits if_splits) (metis snd_conv)

lemma make_target_reveals:
  "make_target f k p st = (ok, st') \<Longrightarrow> justified (reveals w wl) (fs_actions st) (fs_actions st')"
  using make_dir_reveals [of w wl st f p] justified_act [of "reveals w wl" st "Mkfile p"]
  by (auto simp: make_target_def reveals_def [of _ _ _ "Mkfile p"] justified.none split: if_splits)

lemma whitelist_file_reveals:
  assumes "whitelist_file w d p st = Inr st'" "\<And>c. below d p \<Longrightarrow> reveals w wl c (Show p)"
  shows "justified (reveals w wl) (fs_actions st) (fs_actions st')"
proof -
  consider "st' = st"
    | ok k st1 where "below d p" "whitelist_mkpath (ww_fs w) d (drop (length d + 1) p) st = Inr (ok, st1)" "st' = st1"
    | ok k st1 ok2 st2 where "below d p" "whitelist_mkpath (ww_fs w) d (drop (length d + 1) p) st = Inr (ok, st1)"
      "make_target (ww_fs w) k p st1 = (ok2, st2)" "st' = st2 \<or> mount_back (ww_fs w) p st2 = Inr st'"
    using assms(1)
    by (auto simp: whitelist_file_def Let_def bind_result_eq_Inr_iff split: if_splits option.splits prod.splits)
  then show ?thesis
  proof cases
    case (3 ok k st1 ok2 st2)
    have "justified (reveals w wl) (fs_actions st2) (fs_actions st')" if "mount_back (ww_fs w) p st2 = Inr st'"
      using that assms(2) [OF 3(1)] justified_act [of "reveals w wl" st2 "Show p"]
      by (auto simp: mount_back_def act_or_exit_def bind_result_eq_Inr_iff split: if_splits)
    with 3(4) have "justified (reveals w wl) (fs_actions st2) (fs_actions st')" by (auto simp: justified.none)
    with make_target_reveals [OF 3(3)] mkpath_reveals [OF 3(2)] show ?thesis by (metis justified_trans)
  qed (auto simp: justified.none intro: mkpath_reveals)
qed

lemma tmpfs_reveals:
  assumes "fs_tmpfs f d b st = Inr st'" "d \<in> set (wl_topdirs wl)"
  shows "justified (reveals w wl) (fs_actions st) (fs_actions st')"
proof -
  from assms(1) obtain flags opts where "fs_actions st' = fs_actions st @ [Tmpfs d flags opts]"
    by (auto simp: fs_tmpfs_def bind_result_eq_Inr_iff act_or_exit_def act_def Let_def split: option.splits if_splits)
  then show ?thesis using assms(2) by (auto simp: reveals_def intro!: justified.intros)
qed

lemma act_or_exit_reveals:
  "act_or_exit f msg a st = Inr st' \<Longrightarrow> (\<And>c. reveals w wl c a) \<Longrightarrow> justified (reveals w wl) (fs_actions st) (fs_actions st')"
  by (auto simp: act_or_exit_def intro: justified_act split: if_splits)

lemma restore_run_reveals:
  assumes "restore_run w d st = Inr st'" "d \<in> set (wl_topdirs wl)"
  shows "justified (reveals w wl) (fs_actions st) (fs_actions st')"
proof -
  from assms(1) obtain st1 st2 where r: "act_or_exit (ww_fs w) ''mkdir'' (Mkdir RUN_FIREJAIL_DIR) st = Inr st1"
    "act_or_exit (ww_fs w) ''mount bind'' (Show RUN_FIREJAIL_DIR) st1 = Inr st2" "whitelist_file w d (runuser w) st2 = Inr st'"
    by (auto simp: restore_run_def bind_result_eq_Inr_iff)
  have "justified (reveals w wl) (fs_actions st) (fs_actions st1)" "justified (reveals w wl) (fs_actions st1) (fs_actions st2)"
    using act_or_exit_reveals [OF r(1)] act_or_exit_reveals [OF r(2)] by (simp_all add: reveals_def)
  moreover have "justified (reveals w wl) (fs_actions st2) (fs_actions st')"
    using assms(2) by (intro whitelist_file_reveals [OF r(3)]) (auto simp: reveals_def)
  ultimately show ?thesis by (metis justified_trans)
qed

lemma tmpfs_topdir_reveals:
  assumes "d \<in> set (wl_topdirs wl)"
  shows "steps_by (reveals w wl) (tmpfs_topdir w d)"
proof (rule steps_byI)
  fix st st'
  assume t: "tmpfs_topdir w d st = Inr st'"
  show "justified (reveals w wl) (fs_actions st) (fs_actions st')"
  proof (cases "d = homedir w \<or> d = runuser w")
    case False
    obtain st1 st2 where r: "fs_tmpfs (ww_fs w) d False st = Inr st1"
      "(if d = ''/run'' then restore_run w d st1
        else if d = ''/tmp'' then fold_result (\<lambda>d. act_or_exit (ww_fs w) ''mkdir'' (Mkdir d)) (pam_tmpdirs w) st1 else Inr st1) = Inr st2"
      "whitelist_file w d (homedir w) st2 = Inr st'"
    proof -
      have "bind_result (fs_tmpfs (ww_fs w) d False st) (\<lambda>st. bind_result
          (if d = ''/run'' then restore_run w d st
           else if d = ''/tmp'' then fold_result (\<lambda>d. act_or_exit (ww_fs w) ''mkdir'' (Mkdir d)) (pam_tmpdirs w) st else Inr st)
          (whitelist_file w d (homedir w))) = Inr st'"
        using t False unfolding tmpfs_topdir_def by (simp split: if_splits)
      then show ?thesis using that unfolding bind_result_eq_Inr_iff by blast
    qed
    have m: "steps_by (reveals w wl) (fold_result (\<lambda>d. act_or_exit (ww_fs w) ''mkdir'' (Mkdir d)) ds)" for ds
      by (intro steps_by_fold steps_by_act_or_exit) (simp add: reveals_def)
    have "justified (reveals w wl) (fs_actions st1) (fs_actions st2)"
      using r(2) restore_run_reveals assms by (auto simp: justified.none intro: steps_byD [OF m] split: if_splits simp del: fold_result.simps)
    moreover have "justified (reveals w wl) (fs_actions st2) (fs_actions st')"
      using assms by (intro whitelist_file_reveals [OF r(3)]) (auto simp: reveals_def)
    ultimately show ?thesis using tmpfs_reveals [OF r(1) assms] by (metis justified_trans)
  qed (use t in \<open>auto simp: tmpfs_topdir_def justified.none\<close>)
qed

lemma tmpfs_topdirs_reveals:
  assumes "tmpfs_topdirs w (wl_topdirs wl) st = Inr st'"
  shows "justified (reveals w wl) (fs_actions st) (fs_actions st')"
proof -
  from assms obtain st1 st2 where t: "fold_result (tmpfs_topdir w) (wl_topdirs wl) st = Inr st1"
    "(if homedir w \<in> set (wl_topdirs wl) then act_or_exit (ww_fs w) ''private'' Private_Home st1 else Inr st1) = Inr st2"
    "(if runuser w \<in> set (wl_topdirs wl) \<and> runuser w \<noteq> homedir w then fs_tmpfs (ww_fs w) (runuser w) False st2 else Inr st2) = Inr st'"
    unfolding tmpfs_topdirs_def bind_result_eq_Inr_iff by blast
  have "justified (reveals w wl) (fs_actions st) (fs_actions st1)"
    using steps_byD [OF steps_by_fold t(1)] tmpfs_topdir_reveals by blast
  moreover have "justified (reveals w wl) (fs_actions st1) (fs_actions st2)"
    using t(2) by (auto simp: justified.none reveals_def split: if_splits intro: act_or_exit_reveals)
  moreover have "justified (reveals w wl) (fs_actions st2) (fs_actions st')"
    using t(3) by (auto simp: justified.none split: if_splits intro: tmpfs_reveals)
  ultimately show ?thesis by (metis justified_trans)
qed

lemma apply_param_reveals:
  assumes "q \<in> set (wl_params wl)" "wp_top q \<in> set (wl_topdirs wl)"
  shows "steps_by (reveals w wl) (apply_param w q)"
proof (rule steps_byI)
  fix st st'
  assume a: "apply_param w q st = Inr st'"
  then obtain st1 where f: "whitelist_file w (wp_top q) (wp_file q) st = Inr st1"
    "(case wp_link q of None \<Rightarrow> Inr st1 | Some l \<Rightarrow> whitelist_symlink w (wp_top q) l (wp_file q) st1) = Inr st'"
    unfolding apply_param_def bind_result_eq_Inr_iff by blast
  have "justified (reveals w wl) (fs_actions st) (fs_actions st1)"
    using assms by (intro whitelist_file_reveals [OF f(1)]) (auto simp: reveals_def)
  moreover have "justified (reveals w wl) (fs_actions st1) (fs_actions st')"
  proof (cases "wp_link q")
    case (Some l)
    with f(2) have w: "whitelist_symlink w (wp_top q) l (wp_file q) st1 = Inr st'" by simp
    then have "below (wp_top q) l" by (auto simp: whitelist_symlink_def split: if_splits)
    with w obtain z where z: "whitelist_mkpath (ww_fs w) (wp_top q) (drop (length (wp_top q) + 1) l) st1 = Inr z"
      "(case z of (ok, st) \<Rightarrow> Inr (if ok then try_act (ww_fs w) (Symlink l (wp_file q)) st else st)) = Inr st'"
      by (auto simp: whitelist_symlink_def bind_result_eq_Inr_iff simp del: split_paired_Ex)
    obtain ok st2 where "z = (ok, st2)" by (cases z)
    with z have s: "whitelist_mkpath (ww_fs w) (wp_top q) (drop (length (wp_top q) + 1) l) st1 = Inr (ok, st2)"
      "st' = (if ok then try_act (ww_fs w) (Symlink l (wp_file q)) st2 else st2)" by simp_all
    have "reveals w wl c (Symlink l (wp_file q))" for c using Some assms(1) by (auto simp: reveals_def)
    then have "justified (reveals w wl) (fs_actions st2) (fs_actions st')" by (simp add: s(2) justified_try_act justified.none)
    then show ?thesis using mkpath_reveals [OF s(1)] by (metis justified_trans)
  qed (use f(2) in \<open>simp add: justified.none\<close>)
  ultimately show "justified (reveals w wl) (fs_actions st) (fs_actions st')" by (metis justified_trans)
qed

text \<open>
  C10. The whitelist shows nothing but what its entries name. In the changes that \<open>fs_whitelist\<close> makes, every file that is
  bound again, the directory of firejail apart, lies below a top level directory that is allowed, and is the home
  directory or the run time directory of the user, or is the resolved path of a whitelist entry, or of a path that
  such an entry matched, whose own path lies below the same directory; no file of \<open>/run/firejail\<close> is shown through an
  entry. A tmpfs is only mounted on an allowed top level directory, and links are only made for the paths of entries.
\<close>

theorem whitelist_shows_named:
  assumes "fs_whitelist w es st = Some (Inr st')" "fs_actions st' = fs_actions st @ pre @ a # post"
  shows "case a of
      Show p \<Rightarrow>
        p = RUN_FIREJAIL_DIR \<or>
        (\<exists>d. top_ok w d \<and> below d p \<and>
           (p = homedir w \<or> p = runuser w \<or>
            \<not> starts_with RUN_FIREJAIL_DIR p \<and>
            (\<exists>e name. entry_of w (fs_actions st) es e \<and> entry_path w (fs_actions st) e = Some (False, name) \<and>
               resolve_name w (fs_actions st) name = Some p \<and> strstr name ''..'' = None \<and> below d name)))
    | Tmpfs d flags opts \<Rightarrow> top_ok w d
    | Symlink l t \<Rightarrow> \<exists>e. entry_of w (fs_actions st) es e \<and> entry_path w (fs_actions st) e = Some (False, l) \<and>
        resolve_name w (fs_actions st) l = Some t
    | Private_Home \<Rightarrow> top_ok w (homedir w)
    | Mkdir p \<Rightarrow> True
    | Mkfile p \<Rightarrow> True
    | _ \<Rightarrow> False"
proof -
  from assms have "es \<noteq> []" by (auto simp: fs_whitelist_def)
  with assms(1) obtain wl st1 where l: "whitelist_loop w (fs_actions st) es start_lists = Some (Inr wl)"
    "tmpfs_topdirs w (wl_topdirs wl) st = Inr st1" "fold_result (apply_param w) (wl_params wl) st1 = Inr st'"
    by (auto simp: fs_whitelist_def start_lists_def bind_result_eq_Inr_iff)
  have "\<forall>e \<in> set es. entry_of w (fs_actions st) es e" by (blast intro: entry_of.listed)
  with whitelist_loop_ok [OF l(1)] start_lists_ok have ok: "wl_ok w (fs_actions st) es wl" by blast
  then have "steps_by (reveals w wl) (fold_result (apply_param w) (wl_params wl))"
    by (intro steps_by_fold apply_param_reveals) (auto simp: wl_ok_def param_ok_def)
  with tmpfs_topdirs_reveals [OF l(2)] l(3) have "justified (reveals w wl) (fs_actions st) (fs_actions st')"
    by (metis justified_trans steps_byD)
  from justified_at [OF this assms(2)] have r: "reveals w wl (fs_actions st @ pre) a" .
  have t: "\<And>d. d \<in> set (wl_topdirs wl) \<Longrightarrow> top_ok w d" "\<And>q. q \<in> set (wl_params wl) \<Longrightarrow> param_ok w (fs_actions st) es (wl_topdirs wl) q"
    using ok by (auto simp: wl_ok_def)
  show ?thesis
  proof (cases a)
    case (Show p)
    with r consider "p = RUN_FIREJAIL_DIR" | d where "d \<in> set (wl_topdirs wl)" "below d p" "p = homedir w \<or> p = runuser w"
      | q where "q \<in> set (wl_params wl)" "wp_top q \<in> set (wl_topdirs wl)" "below (wp_top q) (wp_file q)" "p = wp_file q"
      by (auto simp: reveals_def)
    then show ?thesis
    proof cases
      case (3 q)
      with t(2) [OF 3(1)] obtain e name where "entry_of w (fs_actions st) es e" "entry_path w (fs_actions st) e = Some (False, name)"
        "resolve_name w (fs_actions st) name = Some p" "strstr name ''..'' = None" "below (wp_top q) name" "\<not> starts_with RUN_FIREJAIL_DIR p"
        by (auto simp: param_ok_def)
      with 3 t(1) [OF 3(2)] Show show ?thesis by auto
    qed (use Show t(1) in auto)
  next
    case (Symlink l t')
    with r t(2) show ?thesis by (auto simp: reveals_def param_ok_def) blast
  qed (use r t in \<open>auto simp: reveals_def\<close>)
qed

subsection \<open>Whether the first loop ends\<close>

definition settled :: "wl_world \<Rightarrow> changes \<Rightarrow> string \<Rightarrow> bool" where
  "settled w c e \<longleftrightarrow> (\<forall>name. entry_path w c e = Some (False, name) \<longrightarrow> resolve_name w c name \<noteq> None)"

lemma settled_loop:
  "\<forall>e \<in> set es. settled w c e \<Longrightarrow> \<exists>r. whitelist_loop w c es st = Some r"
proof (induction es arbitrary: st)
  case Nil
  then show ?case by (simp add: whitelist_loop.simps)
next
  case (Cons e es)
  show ?case
  proof (cases "whitelist_entry w c e st")
    case (Inr p)
    obtain new st' where p: "p = (new, st')" by (cases p)
    have "new = []" using whitelist_entry_new [of w c e st new st'] Inr p Cons.prems by (auto simp: settled_def)
    with Inr p Cons show ?thesis by (subst whitelist_loop.simps) simp
  qed (subst whitelist_loop.simps, simp)
qed

lemma mixed_loop:
  assumes "\<forall>pattern paths p. fw_glob (ww_fs w) c pattern = Some paths \<longrightarrow> p \<in> set paths \<longrightarrow> settled w c (''whitelist '' @ p)"
  shows "\<forall>e \<in> set fs. settled w c e \<Longrightarrow> \<exists>r. whitelist_loop w c (es @ fs) st = Some r"
proof (induction es arbitrary: fs st)
  case Nil
  then show ?case by (simp add: settled_loop)
next
  case (Cons e es)
  show ?case
  proof (cases "whitelist_entry w c e st")
    case (Inr p)
    obtain new st' where p: "p = (new, st')" by (cases p)
    have "\<forall>n \<in> set new. settled w c n"
      using whitelist_entry_new [of w c e st new st'] Inr p assms by (auto simp: glob_entries_def split: option.splits)
    with Cons.prems Cons.IH [of "fs @ new" st'] Inr p show ?thesis by (subst whitelist_loop.simps) auto
  qed (subst whitelist_loop.simps, simp)
qed


text \<open>
  A directory \<open>/t\<close> with two links, named with one and with two asterisks, to files that do not exist: each name is a pattern
  that matches the other one.
\<close>

definition star_fs :: fs_world where
  "star_fs = demo_fs\<lparr>fw_glob := (\<lambda>_ p. Some [''/t/.'', ''/t/..'', ''/t/*'', ''/t/**'']), fw_realpath := (\<lambda>_ _. Missing)\<rparr>"

definition demo_wl :: "fs_world \<Rightarrow> wl_world" where
  "demo_wl f =
     \<lparr>ww_fs = f, ww_private = False, ww_reject = [], ww_tmp_env = None, ww_lstat = (\<lambda>_. Some Kind_Dir), ww_can_open = (\<lambda>_. True),
      ww_source = (\<lambda>_ _. Some Kind_Dir)\<rparr>"

lemma clean_demo: "p \<in> {''/t/a'', ''/t/*'', ''/t/**''} \<Longrightarrow> clean_pathname p = Inr p"
  by (auto simp: clean_pathname_canonical segments_def path_of_def)

lemmas demo_wl_simps = demo_wl_def whitelist_entry_def whitelist_data_def starts_with_def expand_slash clean_demo is_macro_def
  whitelist_name_def extract_topdir_def below_def runuser_def cut_after_def need_topdir_def have_topdir_def add_topdir_def
  reject_topdir_def TOP_MAX_def attach_def RUN_FIREJAIL_DIR_def resolve_name_def glob_entries_def gnu_basename_def start_lists_def
  fmt_u_def digits_of.simps

lemma star_entry:
  assumes "wl_topdirs st = [] \<or> wl_topdirs st = [''/t'']" "p \<in> {''/t/*'', ''/t/**''}"
  shows "\<exists>q st'. whitelist_entry (demo_wl star_fs) c (''whitelist '' @ p) st = Inr ([''whitelist '' @ q], st') \<and>
    q \<in> {''/t/*'', ''/t/**''} \<and> wl_topdirs st' = [''/t'']"
  using assms by (auto simp: demo_wl_simps star_fs_def demo_fs_def)

lemma star_loop:
  assumes "whitelist_loop w c es st = Some r"
  shows "w = demo_wl star_fs \<longrightarrow> es \<noteq> [] \<longrightarrow> (\<forall>e \<in> set es. \<exists>p \<in> {''/t/*'', ''/t/**''}. e = ''whitelist '' @ p) \<longrightarrow>
    \<not> (wl_topdirs st = [] \<or> wl_topdirs st = [''/t''])"
proof (rule whitelist_loop.raw_induct [OF _ assms, where P = "\<lambda>w c es st r. w = demo_wl star_fs \<longrightarrow> es \<noteq> [] \<longrightarrow>
    (\<forall>e \<in> set es. \<exists>p \<in> {''/t/*'', ''/t/**''}. e = ''whitelist '' @ p) \<longrightarrow> \<not> (wl_topdirs st = [] \<or> wl_topdirs st = [''/t''])"], goal_cases)
  case (1 loop w c es st r)
  show ?case
  proof (intro impI notI)
    assume a: "w = demo_wl star_fs" "es \<noteq> []" "\<forall>e \<in> set es. \<exists>p \<in> {''/t/*'', ''/t/**''}. e = ''whitelist '' @ p"
      "wl_topdirs st = [] \<or> wl_topdirs st = [''/t'']"
    then obtain e rest p where e: "es = e # rest" "p \<in> {''/t/*'', ''/t/**''}" "e = ''whitelist '' @ p" by (cases es) auto
    from star_entry [OF a(4) e(2), of c] obtain q st' where q: "whitelist_entry w c e st = Inr ([''whitelist '' @ q], st')"
      "q \<in> {''/t/*'', ''/t/**''}" "wl_topdirs st' = [''/t'']" using a(1) e(3) by auto
    with 1(2) e(1) have "loop w c (rest @ [''whitelist '' @ q]) st' = Some r" by simp
    from 1(1) [OF this] a q(2,3) e(1) show False by auto
  qed
qed

text \<open>
  C36. The loop need not end. With two dangling links in a directory whose names are patterns that match each other, the
  entry \<open>whitelist /t/*\<close> makes the loop append entries for ever.
\<close>

theorem whitelist_loop_endless:
  "whitelist_loop (demo_wl star_fs) c [''whitelist /t/*''] start_lists = None"
proof (cases "whitelist_loop (demo_wl star_fs) c [''whitelist /t/*''] start_lists")
  case (Some r)
  then show ?thesis using star_loop [OF Some] by (simp add: start_lists_def)
qed simp

subsection \<open>An example\<close>

definition show_fs :: fs_world where
  "show_fs = demo_fs\<lparr>fw_mount_id := (\<lambda>_ _. Some 1),
     fw_mountinfo := (\<lambda>c. mount_text [space, newline, backslash]
       [(demo_mount 2 (case last c of Show p \<Rightarrow> p | _ \<Rightarrow> ''/t''))\<lparr>me_type := ''tmpfs''\<rparr>])\<rparr>"

definition demo_lists :: wl_state where
  "demo_lists = \<lparr>wl_nowhitelist = [], wl_topdirs = [''/t''], wl_params = [\<lparr>wp_file = ''/t/a'', wp_link = None, wp_top = ''/t''\<rparr>]\<rparr>"

lemma demo_loop: "whitelist_loop (demo_wl show_fs) c [''whitelist /t/a''] start_lists = Some (Inr demo_lists)"
proof -
  have "whitelist_entry (demo_wl show_fs) c ''whitelist /t/a'' start_lists = Inr ([], demo_lists)"
    by (simp add: demo_wl_simps show_fs_def demo_fs_def demo_lists_def)
  then show ?thesis by (subst whitelist_loop.simps) (simp add: whitelist_loop.simps [of _ _ "[]"])
qed

theorem whitelist_tables_ok_witness:
  "whitelist_loop (demo_wl show_fs) [] [''whitelist /t/a''] start_lists = Some (Inr demo_lists) \<and>
   wl_ok (demo_wl show_fs) [] [''whitelist /t/a''] demo_lists"
  using whitelist_tables_ok [OF demo_loop] demo_loop by simp

lemma demo_whitelist:
  "\<exists>opts st. fs_whitelist (demo_wl show_fs) [''whitelist /t/a''] start_state = Some (Inr st) \<and>
     fs_actions st = [Tmpfs ''/t'' 6 opts, Mkdir ''/t/a'', Show ''/t/a'']"
proof -
  let ?w = "demo_wl show_fs"
  obtain st1 opts where t: "tmpfs_topdirs ?w [''/t''] start_state = Inr st1" "fs_actions st1 = [Tmpfs ''/t'' 6 opts]"
    by (simp add: tmpfs_topdirs_def tmpfs_topdir_def fold_result_Nil fs_tmpfs_def act_or_exit_def can_do_def act_def start_state_def
        demo_wl_def show_fs_def demo_fs_def demo_stat_def runuser_def whitelist_file_def below_def starts_with_def demo_last_mount
        mount_flags Let_def)
  have "\<exists>st. whitelist_file ?w ''/t'' ''/t/a'' st1 = Inr st \<and> fs_actions st = fs_actions st1 @ [Mkdir ''/t/a'', Show ''/t/a'']"
    by (simp add: whitelist_file_def below_def starts_with_def Let_def demo_wl_def whitelist_mkpath_def show_fs_def demo_fs_def
        make_target_def make_dir_def try_act_def can_do_def act_def demo_stat_def mount_back_def act_or_exit_def demo_last_mount)
  then obtain st where "apply_param ?w \<lparr>wp_file = ''/t/a'', wp_link = None, wp_top = ''/t''\<rparr> st1 = Inr st"
    "fs_actions st = [Tmpfs ''/t'' 6 opts, Mkdir ''/t/a'', Show ''/t/a'']"
    using t(2) by (auto simp: apply_param_def)
  then have "fs_whitelist ?w [''whitelist /t/a''] start_state = Some (Inr st)"
    using t(1) demo_loop by (simp add: fs_whitelist_def start_lists_def demo_lists_def fold_result_Nil)
  with \<open>fs_actions st = _\<close> show ?thesis by blast
qed

theorem whitelist_shows_named_witness:
  "\<exists>opts st d. fs_whitelist (demo_wl show_fs) [''whitelist /t/a''] start_state = Some (Inr st) \<and>
     fs_actions st = [Tmpfs ''/t'' 6 opts, Mkdir ''/t/a'', Show ''/t/a''] \<and> top_ok (demo_wl show_fs) d \<and> below d ''/t/a''"
proof -
  obtain opts st where d: "fs_whitelist (demo_wl show_fs) [''whitelist /t/a''] start_state = Some (Inr st)"
    "fs_actions st = [Tmpfs ''/t'' 6 opts, Mkdir ''/t/a'', Show ''/t/a'']" using demo_whitelist by blast
  then have "fs_actions st = fs_actions start_state @ [Tmpfs ''/t'' 6 opts, Mkdir ''/t/a''] @ Show ''/t/a'' # []"
    by (simp add: start_state_def)
  from whitelist_shows_named [OF d(1) this] d show ?thesis by (auto simp: RUN_FIREJAIL_DIR_def)
qed


end
