(* ===== verification/Fnettrace_Hosts.thy ===== *)
theory Fnettrace_Hosts
  imports Radix
begin

text \<open>
  The traffic storage of \<open>fnettrace/main.c\<close>: nodes that are at once in a chain of the hash table and in the list for the display,
  and a list of unused nodes. The nodes are objects of an explicit heap, since each list is changed through the pointers in
  nodes that the other list shares.

  The loops over chains are partial functions: \<open>None\<close> means that a loop does not end, and following a null pointer is an
  error. The abstract view is the list of the flows in the order of the display; the operations on the heap are shown to
  implement those on that list, so that they always end and never meet a null pointer or a failed assertion.
\<close>

unbundle bit_operations_syntax

type_synonym addr = nat

record hnode =
  hnext :: "addr option"
  dnext :: "addr option"
  h_ip_src :: u32
  h_rnode :: "bool list option"
  h_bytes :: u32
  h_pkts :: u32
  h_port_src :: u16
  h_protocol :: int
  h_ip_instance :: u8
  h_ttl :: int

text \<open>The static variables; \<open>fresh\<close> is the first address that \<open>malloc\<close> has not handed out.\<close>

record hosts =
  heap :: "addr \<Rightarrow> hnode"
  fresh :: addr
  htable :: "u8 \<Rightarrow> addr option"
  dlist :: "addr option"
  hnode_unused :: "addr option"
  radix_tree :: radix

definition DISPLAY_TTL :: int where "DISPLAY_TTL = 4"
definition HNODE_MAX_MALLOC :: nat where "HNODE_MAX_MALLOC = 16"

definition null_pointer :: "'a result" where
  "null_pointer = Inl (Exited ''segmentation fault'')"

definition hash :: "u32 \<Rightarrow> u8" where
  "hash ip = ucast ip XOR ucast (drop_bit 8 ip) XOR ucast (drop_bit 16 ip) XOR ucast (drop_bit 24 ip)"

subsection \<open>Nodes\<close>

definition zero_node :: hnode where
  "zero_node = \<lparr>hnext = None, dnext = None, h_ip_src = 0, h_rnode = None, h_bytes = 0, h_pkts = 0, h_port_src = 0,
     h_protocol = 0, h_ip_instance = 0, h_ttl = 0\<rparr>"

definition set_node :: "addr \<Rightarrow> (hnode \<Rightarrow> hnode) \<Rightarrow> hosts \<Rightarrow> hosts" where
  "set_node a f s = s\<lparr>heap := (heap s)(a := f (heap s a))\<rparr>"

definition hrefill :: "hosts \<Rightarrow> hosts" where
  "hrefill s =
     (if hnode_unused s = None
      then let b = fresh s; e = b + HNODE_MAX_MALLOC in
        s\<lparr>heap := (\<lambda>a. if b \<le> a \<and> a < e then zero_node\<lparr>hnext := if a + 1 < e then Some (a + 1) else None\<rparr> else heap s a),
          fresh := e, hnode_unused := Some b\<rparr>
      else s)"

definition hmalloc :: "hosts \<Rightarrow> addr \<times> hosts" where
  "hmalloc s =
     (let s = hrefill s; rv = the (hnode_unused s) in (rv, s\<lparr>hnode_unused := hnext (heap s rv)\<rparr>))"

definition hfree :: "addr \<Rightarrow> hosts \<Rightarrow> hosts" where
  "hfree a s = s\<lparr>heap := (heap s)(a := zero_node\<lparr>hnext := hnode_unused s\<rparr>), hnode_unused := Some a\<rparr>"

subsection \<open>A change of a node of the prefix tree\<close>

fun update_at :: "bool list \<Rightarrow> (rnode \<Rightarrow> rnode) \<Rightarrow> rnode \<Rightarrow> rnode" where
  "update_at [] f t = f t"
| "update_at (b # p) f t = (if b then set_one t (update_at p f (rone t)) else set_zero t (update_at p f (rzero t)))"

definition count_pkt :: "rnode \<Rightarrow> rnode" where
  "count_pkt t = RNode (rzero t) (rone t) (rname t) (rpkts t + 1)"

definition at_rnode :: "bool list \<Rightarrow> (rnode \<Rightarrow> rnode) \<Rightarrow> radix \<Rightarrow> radix" where
  "at_rnode p f r = r\<lparr>rx_head := update_at p f (rx_head r)\<rparr>"

subsection \<open>Adding a packet\<close>

text \<open>The search in a chain; the count is \<open>ip_instance\<close>.\<close>

partial_function (option) find_loop ::
    "(addr \<Rightarrow> hnode) \<Rightarrow> u32 \<Rightarrow> int \<Rightarrow> u16 \<Rightarrow> addr option \<Rightarrow> int \<Rightarrow> (addr option \<times> int) option" where
  "find_loop h ip proto port ptr inst =
     (case ptr of
        None \<Rightarrow> Some (None, inst)
      | Some a \<Rightarrow>
          if h_ip_src (h a) = ip
          then if h_port_src (h a) = port \<and> h_protocol (h a) = proto then Some (Some a, inst + 1)
               else find_loop h ip proto port (hnext (h a)) (inst + 1)
          else find_loop h ip proto port (hnext (h a)) inst)"

partial_function (option) last_loop :: "(addr \<Rightarrow> hnode) \<Rightarrow> addr \<Rightarrow> addr option" where
  "last_loop h a = (case dnext (h a) of None \<Rightarrow> Some a | Some b \<Rightarrow> last_loop h b)"

definition add_known :: "addr \<Rightarrow> u32 \<Rightarrow> hosts \<Rightarrow> hosts result" where
  "add_known a n s =
     (let s = set_node a (\<lambda>x. x\<lparr>h_bytes := h_bytes x + n, h_pkts := h_pkts x + 1\<rparr>) s in
      case h_rnode (heap s a) of
        None \<Rightarrow> Inl AssertFailure
      | Some p \<Rightarrow> Inr (s\<lparr>radix_tree := at_rnode p count_pkt (radix_tree s)\<rparr>))"

definition hash_insert :: "u8 \<Rightarrow> addr \<Rightarrow> hosts \<Rightarrow> hosts" where
  "hash_insert h hnew s =
     (if htable s h = None then s\<lparr>htable := (htable s)(h := Some hnew)\<rparr>
      else let s = set_node hnew (\<lambda>x. x\<lparr>hnext := htable s h\<rparr>) s in s\<lparr>htable := (htable s)(h := Some hnew)\<rparr>)"

definition dlist_append :: "addr \<Rightarrow> hosts \<Rightarrow> hosts option" where
  "dlist_append hnew s =
     (let s = set_node hnew (\<lambda>x. x\<lparr>dnext := None\<rparr>) s in
      case dlist s of
        None \<Rightarrow> Some (s\<lparr>dlist := Some hnew\<rparr>)
      | Some a \<Rightarrow> map_option (\<lambda>l. set_node l (\<lambda>x. x\<lparr>dnext := Some hnew\<rparr>) s) (last_loop (heap s) a))"

definition find_rnode :: "u32 \<Rightarrow> radix \<Rightarrow> bool list \<times> radix" where
  "find_rnode ip r =
     (case radix_longest_prefix_match ip r of
        Some p \<Rightarrow> (p, r)
      | None \<Rightarrow> (case radix_add ip 0xffffffff None r of (r, p) \<Rightarrow> (p, r)))"

definition new_flow :: "u32 \<Rightarrow> int \<Rightarrow> u16 \<Rightarrow> u32 \<Rightarrow> int \<Rightarrow> hnode \<Rightarrow> hnode" where
  "new_flow ip proto port n inst x =
     x\<lparr>h_ip_src := ip, h_port_src := port, h_protocol := proto, hnext := None, h_bytes := n, h_pkts := 1,
       h_ip_instance := word_of_int (inst + 1), h_ttl := DISPLAY_TTL\<rparr>"

definition add_new :: "u32 \<Rightarrow> int \<Rightarrow> u16 \<Rightarrow> u32 \<Rightarrow> int \<Rightarrow> hosts \<Rightarrow> hosts option" where
  "add_new ip proto port n inst s =
     (case hmalloc s of (hnew, s) \<Rightarrow>
        map_option
          (\<lambda>s. case find_rnode ip (radix_tree s) of (p, r) \<Rightarrow>
             (set_node hnew (\<lambda>x. x\<lparr>h_rnode := Some p\<rparr>) s)\<lparr>radix_tree := at_rnode p count_pkt r\<rparr>)
          (dlist_append hnew (hash_insert (hash ip) hnew (set_node hnew (new_flow ip proto port n inst) s))))"

definition hnode_add :: "u32 \<Rightarrow> int \<Rightarrow> u16 \<Rightarrow> u32 \<Rightarrow> hosts \<Rightarrow> hosts result option" where
  "hnode_add ip proto port n s =
     (case find_loop (heap s) ip proto port (htable s (hash ip)) 0 of
        None \<Rightarrow> None
      | Some (Some a, _) \<Rightarrow> Some (add_known a n s)
      | Some (None, inst) \<Rightarrow> map_option Inr (add_new ip proto port n inst s))"

subsection \<open>Freeing a node\<close>

partial_function (option) prev_loop :: "(addr \<Rightarrow> hnode) \<Rightarrow> addr \<Rightarrow> addr option \<Rightarrow> addr option \<Rightarrow> addr option result option" where
  "prev_loop h elem prev ptr =
     (if ptr = Some elem then Some (Inr prev)
      else case ptr of None \<Rightarrow> Some null_pointer | Some a \<Rightarrow> prev_loop h elem (Some a) (hnext (h a)))"

definition hnode_free :: "addr \<Rightarrow> hosts \<Rightarrow> hosts result option" where
  "hnode_free elem s =
     (let h = hash (h_ip_src (heap s elem)) in
      if htable s h = None then Some (Inl AssertFailure)
      else map_option (\<lambda>r. bind_result r (\<lambda>prev.
        let nxt = hnext (heap s elem) in
        Inr (hfree elem
          (case prev of
             None \<Rightarrow> s\<lparr>htable := (htable s)(h := nxt)\<rparr>
           | Some p \<Rightarrow> set_node p (\<lambda>x. x\<lparr>hnext := nxt\<rparr>) s))))
        (prev_loop (heap s) elem None (htable s h)))"

text \<open>The element is taken off the list for the display, then freed.\<close>

definition dlist_drop :: "addr option \<Rightarrow> addr \<Rightarrow> hosts \<Rightarrow> hosts result option" where
  "dlist_drop prev ptr s =
     (let nxt = dnext (heap s ptr) in
      hnode_free ptr
        (case prev of
           None \<Rightarrow> s\<lparr>dlist := nxt\<rparr>
         | Some p \<Rightarrow> set_node p (\<lambda>x. x\<lparr>dnext := nxt\<rparr>) s))"

subsection \<open>Chains\<close>

fun chain :: "(addr \<Rightarrow> addr option) \<Rightarrow> addr option \<Rightarrow> addr list \<Rightarrow> bool" where
  "chain nx p [] \<longleftrightarrow> p = None"
| "chain nx p (a # as) \<longleftrightarrow> p = Some a \<and> chain nx (nx a) as"

named_theorems chains "facts on chains in the heap"

lemma chain_cong [chains]: "(\<And>a. a \<in> set as \<Longrightarrow> nx a = nx' a) \<Longrightarrow> chain nx p as = chain nx' p as"
  by (induction as arbitrary: p) auto

lemma chain_transfer: "chain nx p as \<Longrightarrow> (\<And>a. a \<in> set as \<Longrightarrow> nx' a = nx a) \<Longrightarrow> chain nx' p as"
  using chain_cong [of as nx' nx] by simp

lemma chain_upd [simp]: "a \<notin> set as \<Longrightarrow> chain (nx(a := v)) p as = chain nx p as"
  by (rule chain_cong) auto

lemma chain_unique: "chain nx p as \<Longrightarrow> chain nx p bs \<Longrightarrow> as = bs"
proof (induction as arbitrary: p bs)
  case Nil
  then show ?case by (cases bs) auto
next
  case (Cons a as)
  then show ?case by (cases bs) auto
qed

text \<open>A chain that goes through \<open>a\<close> has a part from there on.\<close>

lemma chain_from: "chain nx p (xs @ a # ys) \<Longrightarrow> chain nx (nx a) ys"
  by (induction xs arbitrary: p) auto

lemma chain_distinct [chains]: "chain nx p as \<Longrightarrow> distinct as"
proof (induction as arbitrary: p)
  case (Cons a as)
  have "a \<notin> set as"
  proof
    assume "a \<in> set as"
    then obtain xs ys where s: "as = xs @ a # ys" by (auto dest: split_list)
    then have "chain nx (nx a) ys" using Cons.prems by (auto intro: chain_from)
    with s Cons.prems have "as = ys" by (auto dest: chain_unique)
    with s show False by (metis length_Cons length_append not_add_less2 lessI less_add_Suc2 plus_nat.simps(2) add.commute)
  qed
  moreover have "distinct as" using Cons by auto
  ultimately show ?case by simp
qed simp

text \<open>A chain without one of its elements.\<close>

lemma chain_remove:
  assumes "chain nx p (xs @ a # ys)" "xs \<noteq> []"
  shows "chain (nx(last xs := nx a)) p (xs @ ys)"
proof -
  have d: "distinct (xs @ a # ys)" using assms(1) by (rule chain_distinct)
  have "chain nx p (xs @ a # ys) \<Longrightarrow> xs \<noteq> [] \<Longrightarrow> distinct (xs @ a # ys) \<Longrightarrow> chain (nx(last xs := nx a)) p (xs @ ys)" for p
  proof (induction xs arbitrary: p)
    case (Cons x xs)
    show ?case
    proof (cases "xs = []")
      case True
      then have "chain nx (nx a) ys" using Cons.prems by auto
      moreover have "x \<notin> set ys" using Cons.prems True by simp
      ultimately have "chain (nx(x := nx a)) (nx a) ys" using chain_upd [of x ys nx "nx a" "nx a"] by blast
      then show ?thesis using True Cons.prems by (auto simp: fun_upd_def)
    next
      case False
      then have "x \<noteq> last xs" using Cons.prems(3) by (metis distinct.simps(2) last_in_set append_Cons UnI1 set_append)
      with False Cons show ?thesis by simp
    qed
  qed simp
  with assms d show ?thesis by blast
qed

lemma chain_snoc:
  assumes "chain nx p as" "as \<noteq> []" "b \<notin> set as" "nx b = None"
  shows "chain (nx(last as := Some b)) p (as @ [b])"
proof -
  have d: "distinct as" using assms(1) by (rule chain_distinct)
  have "chain nx p as \<Longrightarrow> as \<noteq> [] \<Longrightarrow> distinct as \<Longrightarrow> b \<notin> set as \<Longrightarrow> chain (nx(last as := Some b)) p (as @ [b])" for p
  proof (induction as arbitrary: p)
    case (Cons x xs)
    show ?case
    proof (cases "xs = []")
      case True
      then show ?thesis using Cons.prems assms(4) by auto
    next
      case False
      then have "x \<noteq> last xs" using Cons.prems(3) by (metis distinct.simps(2) last_in_set)
      with False Cons show ?thesis by simp
    qed
  qed simp
  with assms d show ?thesis by blast
qed

text \<open>The loops on a chain.\<close>

definition flow_key :: "hnode \<Rightarrow> u32 \<times> int \<times> u16" where
  "flow_key x = (h_ip_src x, h_protocol x, h_port_src x)"

lemma find_loop_none:
  assumes "chain (\<lambda>a. hnext (h a)) p as" "\<forall>a \<in> set as. flow_key (h a) \<noteq> (ip, proto, port)"
  shows "find_loop h ip proto port p i = Some (None, i + int (length (filter (\<lambda>a. h_ip_src (h a) = ip) as)))"
  using assms
proof (induction as arbitrary: p i)
  case (Cons a as)
  then show ?case by (subst find_loop.simps) (auto simp: flow_key_def)
qed (simp add: find_loop.simps)

lemma find_loop_some:
  assumes "chain (\<lambda>a. hnext (h a)) p as" "a \<in> set as" "flow_key (h a) = (ip, proto, port)"
    "\<And>b. b \<in> set as \<Longrightarrow> flow_key (h b) = (ip, proto, port) \<Longrightarrow> b = a"
  shows "\<exists>j. find_loop h ip proto port p i = Some (Some a, j)"
  using assms
proof (induction as arbitrary: p i)
  case (Cons b as)
  show ?case
  proof (cases "flow_key (h b) = (ip, proto, port)")
    case True
    then have "b = a" using Cons.prems(4) [of b] by simp
    with True show ?thesis using Cons.prems(1) by (subst find_loop.simps) (simp add: flow_key_def)
  next
    case False
    then have a: "a \<in> set as" using Cons.prems(2,3) by auto
    have c: "chain (\<lambda>a. hnext (h a)) (hnext (h b)) as" using Cons.prems(1) by simp
    have ih: "\<exists>j. find_loop h ip proto port (hnext (h b)) i = Some (Some a, j)" for i
      by (rule Cons.IH [OF c a Cons.prems(3)]) (rule Cons.prems(4), simp_all)
    show ?thesis
      using ih [of i] ih [of "i + 1"] False Cons.prems(1) by (subst find_loop.simps) (auto simp: flow_key_def)
  qed
qed simp

lemma last_loop_chain: "chain (\<lambda>a. dnext (h a)) (Some a) as \<Longrightarrow> last_loop h a = Some (last as)"
proof (induction as arbitrary: a)
  case (Cons b as)
  then have "b = a" by simp
  with Cons show ?case by (cases as) (simp_all add: last_loop.simps [of h a])
qed simp

lemma prev_loop_chain:
  assumes "chain (\<lambda>a. hnext (h a)) p (xs @ e # ys)" "e \<notin> set xs"
  shows "prev_loop h e pr p = Some (Inr (if xs = [] then pr else Some (last xs)))"
  using assms
proof (induction xs arbitrary: p pr)
  case (Cons x xs)
  then show ?case by (subst prev_loop.simps) auto
qed (simp add: prev_loop.simps)

subsection \<open>The invariant of the storage\<close>

definition rnode_ok :: "radix \<Rightarrow> hnode \<Rightarrow> bool" where
  "rnode_ok r x \<longleftrightarrow> (\<exists>p. h_rnode x = Some p \<and> node_at (rx_head r) p \<noteq> Null)"

text \<open>
  The addresses of the nodes on display are \<open>ds\<close>, those of the chain with index \<open>h\<close> are \<open>bs h\<close>, and \<open>us\<close> are unused. A chain
  has the nodes on display whose address has its hash; a flow has one node; and the node of the prefix tree of a flow exists.
\<close>

definition hosts_inv :: "hosts \<Rightarrow> addr list \<Rightarrow> (u8 \<Rightarrow> addr list) \<Rightarrow> addr list \<Rightarrow> bool" where
  "hosts_inv s ds bs us \<longleftrightarrow>
     chain (\<lambda>a. dnext (heap s a)) (dlist s) ds \<and>
     (\<forall>h. chain (\<lambda>a. hnext (heap s a)) (htable s h) (bs h)) \<and>
     chain (\<lambda>a. hnext (heap s a)) (hnode_unused s) us \<and>
     (\<forall>h. set (bs h) = {a \<in> set ds. hash (h_ip_src (heap s a)) = h}) \<and>
     set us \<inter> set ds = {} \<and>
     (\<forall>a \<in> set ds \<union> set us. a < fresh s) \<and>
     inj_on (\<lambda>a. flow_key (heap s a)) (set ds) \<and>
     (\<forall>a \<in> set ds. rnode_ok (radix_tree s) (heap s a))"

lemma hosts_invD:
  assumes "hosts_inv s ds bs us"
  shows "chain (\<lambda>a. dnext (heap s a)) (dlist s) ds" "chain (\<lambda>a. hnext (heap s a)) (htable s h) (bs h)"
    "chain (\<lambda>a. hnext (heap s a)) (hnode_unused s) us" "set (bs h) = {a \<in> set ds. hash (h_ip_src (heap s a)) = h}"
    "set us \<inter> set ds = {}" "a \<in> set ds \<Longrightarrow> a < fresh s" "a \<in> set us \<Longrightarrow> a < fresh s"
    "inj_on (\<lambda>a. flow_key (heap s a)) (set ds)" "a \<in> set ds \<Longrightarrow> rnode_ok (radix_tree s) (heap s a)"
  using assms unfolding hosts_inv_def by auto

lemma bucket_sub: "hosts_inv s ds bs us \<Longrightarrow> set (bs h) \<subseteq> set ds"
  by (auto dest: hosts_invD(4))

text \<open>What may change without breaking the invariant: the contents of nodes on display, and anything outside.\<close>

definition same_links :: "hnode \<Rightarrow> hnode \<Rightarrow> bool" where
  "same_links x y \<longleftrightarrow> hnext x = hnext y \<and> dnext x = dnext y \<and> flow_key x = flow_key y \<and> h_rnode x = h_rnode y"

lemma hosts_inv_frame:
  assumes inv: "hosts_inv s ds bs us"
    and ds: "\<And>a. a \<in> set ds \<Longrightarrow> same_links (heap s' a) (heap s a)"
    and us: "\<And>a. a \<in> set us \<Longrightarrow> hnext (heap s' a) = hnext (heap s a)"
    and rest: "htable s' = htable s" "dlist s' = dlist s" "hnode_unused s' = hnode_unused s" "fresh s' = fresh s"
    and tree: "\<And>p. node_at (rx_head (radix_tree s)) p \<noteq> Null \<Longrightarrow> node_at (rx_head (radix_tree s')) p \<noteq> Null"
  shows "hosts_inv s' ds bs us"
proof -
  note i = hosts_invD [OF inv]
  have links: "hnext (heap s' a) = hnext (heap s a)" "dnext (heap s' a) = dnext (heap s a)"
    "flow_key (heap s' a) = flow_key (heap s a)" "h_ip_src (heap s' a) = h_ip_src (heap s a)"
    "h_rnode (heap s' a) = h_rnode (heap s a)" if "a \<in> set ds" for a
    using ds [OF that] by (simp_all add: same_links_def flow_key_def)
  have "chain (\<lambda>a. dnext (heap s' a)) (dlist s') ds"
    using i(1) rest(2) links(2) chain_cong [of ds "\<lambda>a. dnext (heap s' a)" "\<lambda>a. dnext (heap s a)"] by simp
  moreover have "chain (\<lambda>a. hnext (heap s' a)) (htable s' h) (bs h)" for h
  proof -
    have "hnext (heap s' a) = hnext (heap s a)" if "a \<in> set (bs h)" for a using that bucket_sub [OF inv, of h] links(1) by blast
    then show ?thesis
      using i(2) [of h] rest(1) chain_cong [of "bs h" "\<lambda>a. hnext (heap s' a)" "\<lambda>a. hnext (heap s a)"] by simp
  qed
  moreover have "chain (\<lambda>a. hnext (heap s' a)) (hnode_unused s') us"
    using i(3) rest(3) us chain_cong [of us "\<lambda>a. hnext (heap s' a)" "\<lambda>a. hnext (heap s a)"] by simp
  moreover have "set (bs h) = {a \<in> set ds. hash (h_ip_src (heap s' a)) = h}" for h using i(4) [of h] links(4) by auto
  moreover have "inj_on (\<lambda>a. flow_key (heap s' a)) (set ds)" using i(8) links(3) by (simp add: inj_on_def)
  moreover have "rnode_ok (radix_tree s') (heap s' a)" if "a \<in> set ds" for a
    using i(9) [OF that] links(5) [OF that] tree by (auto simp: rnode_ok_def)
  ultimately show ?thesis using i(5-7) rest(4) by (auto simp: hosts_inv_def)
qed

subsection \<open>Allocation\<close>

lemma chain_block:
  assumes "\<And>a. b \<le> a \<Longrightarrow> a < e \<Longrightarrow> nx a = (if a + 1 < e then Some (a + 1) else None)" "b < e"
  shows "chain nx (Some b) [b..<e]"
  using assms
proof (induction "e - b" arbitrary: b)
  case (Suc n)
  show ?case
  proof (cases "b + 1 < e")
    case True
    then have "chain nx (Some (b + 1)) [b + 1..<e]" using Suc by simp
    with True Suc.prems show ?thesis by (simp add: upt_conv_Cons [of b])
  next
    case False
    with Suc.prems have "[b..<e] = [b]" by (simp add: upt_conv_Cons)
    with False Suc.prems show ?thesis by simp
  qed
qed simp

lemma hrefill_inv:
  assumes inv: "hosts_inv s ds bs us"
  shows "\<exists>us'. us' \<noteq> [] \<and> hosts_inv (hrefill s) ds bs us' \<and> (\<forall>a \<in> set ds. heap (hrefill s) a = heap s a) \<and>
    radix_tree (hrefill s) = radix_tree s"
proof (cases "hnode_unused s")
  case None
  let ?b = "fresh s" let ?e = "fresh s + HNODE_MAX_MALLOC"
  note i = hosts_invD [OF inv]
  have us: "us = []" using i(3) None by (cases us) auto
  have old: "heap (hrefill s) a = heap s a" if "a \<in> set ds" for a
    using i(6) [OF that] None by (simp add: hrefill_def Let_def)
  have new: "hrefill s = s\<lparr>heap := heap (hrefill s), fresh := ?e, hnode_unused := Some ?b\<rparr>"
    using None by (simp add: hrefill_def Let_def)
  have "hosts_inv (s\<lparr>heap := heap (hrefill s)\<rparr>) ds bs us"
    by (rule hosts_inv_frame [OF inv]) (simp_all add: old us same_links_def)
  moreover have "chain (\<lambda>a. hnext (heap (hrefill s) a)) (Some ?b) [?b..<?e]"
    by (rule chain_block) (simp_all add: None hrefill_def Let_def HNODE_MAX_MALLOC_def)
  ultimately have "hosts_inv (hrefill s) ds bs [?b..<?e]"
    by (subst new) (auto simp: hosts_inv_def us HNODE_MAX_MALLOC_def)
  then show ?thesis using old None by (intro exI [of _ "[?b..<?e]"]) (simp add: HNODE_MAX_MALLOC_def hrefill_def Let_def)
next
  case (Some u)
  then have "us \<noteq> []" using hosts_invD(3) [OF inv] by (cases us) auto
  with Some inv show ?thesis by (auto simp: hrefill_def)
qed

lemma hmalloc_inv:
  assumes inv: "hosts_inv s ds bs us" and m: "hmalloc s = (a, s')"
  shows "\<exists>us'. hosts_inv s' ds bs us' \<and> a \<notin> set us' \<and> a \<notin> set ds \<and> a < fresh s' \<and>
    (\<forall>b \<in> set ds. heap s' b = heap s b) \<and> radix_tree s' = radix_tree s"
proof -
  obtain us' where us: "us' \<noteq> []" "hosts_inv (hrefill s) ds bs us'" "\<forall>a \<in> set ds. heap (hrefill s) a = heap s a"
    "radix_tree (hrefill s) = radix_tree s" using hrefill_inv [OF inv] by blast
  then obtain u vs where c: "us' = u # vs" by (cases us') auto
  note i = hosts_invD [OF us(2)]
  have d: "distinct us'" by (rule chain_distinct [OF i(3)])
  have a: "a = u" "s' = (hrefill s)\<lparr>hnode_unused := hnext (heap (hrefill s) u)\<rparr>"
    using m i(3) c by (auto simp: hmalloc_def Let_def)
  have "hosts_inv s' ds bs vs" using us(2) c by (auto simp: a hosts_inv_def)
  then show ?thesis using a us(3,4) i(5) i(7) [of u] c d by (intro exI [of _ vs]) auto
qed

subsection \<open>The prefix tree\<close>

text \<open>A change that does not touch the children of a node keeps every node there is.\<close>

definition keeps_children :: "(rnode \<Rightarrow> rnode) \<Rightarrow> bool" where
  "keeps_children f \<longleftrightarrow> (\<forall>t. f t \<noteq> Null \<and> rzero (f t) = rzero t \<and> rone (f t) = rone t)"

lemma keeps_nodes:
  assumes "keeps_children f" "node_at t q \<noteq> Null"
  shows "node_at (update_at p f t) q \<noteq> Null"
  using assms(2)
proof (induction p arbitrary: t q)
  case Nil
  then show ?case using assms(1) by (cases q) (auto simp: keeps_children_def)
next
  case (Cons b p)
  then show ?case by (cases q) (auto simp: set_one_def set_zero_def)
qed

lemma keeps_count: "keeps_children count_pkt"
  by (simp add: keeps_children_def count_pkt_def)

lemma set_name_nodes: "ptr \<noteq> Null \<Longrightarrow> node_at ptr q \<noteq> Null \<Longrightarrow> node_at (set_name ptr name) q \<noteq> Null"
  by (cases q) (auto simp: set_name_def)

lemma node_at_Cons: "node_at (RNode z one n k) q \<noteq> Null \<longleftrightarrow>
    (case q of [] \<Rightarrow> True | b # q \<Rightarrow> node_at (if b then one else z) q \<noteq> Null)"
  by (cases q) auto

lemma add_loop_nodes:
  "ptr \<noteq> Null \<Longrightarrow> add_loop k m lastm ip msk name ptr = (t, p) \<Longrightarrow>
    node_at t p \<noteq> Null \<and> (\<forall>q. node_at ptr q \<noteq> Null \<longrightarrow> node_at t q \<noteq> Null)"
proof (induction k arbitrary: m lastm ptr t p)
  case 0
  then show ?case by (auto simp: set_name_nodes set_name_not_Null)
next
  case (Suc k)
  show ?case
  proof (cases "m AND msk = 0")
    case True
    then show ?thesis using Suc.prems by (auto simp: set_name_nodes set_name_not_Null)
  next
    case False
    let ?nm = "if lastm OR m = msk then name else None"
    show ?thesis
    proof (cases "m AND ip \<noteq> 0")
      case True
      obtain c r where c: "add_loop k (drop_bit 1 m) (lastm OR m) ip msk name (addOne ptr ?nm) = (c, r)" by fastforce
      have t: "t = set_one ptr c" "p = True # r" using Suc.prems(2) True False c by (auto simp: Let_def)
      have "node_at c r \<noteq> Null \<and> (\<forall>q. node_at (addOne ptr ?nm) q \<noteq> Null \<longrightarrow> node_at c q \<noteq> Null)"
        by (rule Suc.IH [OF _ c]) (simp add: addOne_def new_node_def)
      moreover have "node_at (addOne ptr ?nm) q \<noteq> Null" if "node_at (rone ptr) q \<noteq> Null" for q
        using that by (cases "rone ptr = Null") (auto simp: addOne_def)
      ultimately show ?thesis using t by (auto simp: set_one_def node_at_Cons split: list.split)
    next
      case zero: False
      obtain c r where c: "add_loop k (drop_bit 1 m) (lastm OR m) ip msk name (addZero ptr ?nm) = (c, r)" by fastforce
      have t: "t = set_zero ptr c" "p = False # r" using Suc.prems(2) zero False c by (auto simp: Let_def)
      have "node_at c r \<noteq> Null \<and> (\<forall>q. node_at (addZero ptr ?nm) q \<noteq> Null \<longrightarrow> node_at c q \<noteq> Null)"
        by (rule Suc.IH [OF _ c]) (simp add: addZero_def new_node_def)
      moreover have "node_at (addZero ptr ?nm) q \<noteq> Null" if "node_at (rzero ptr) q \<noteq> Null" for q
        using that by (cases "rzero ptr = Null") (auto simp: addZero_def)
      ultimately show ?thesis using t by (auto simp: set_zero_def node_at_Cons split: list.split)
    qed
  qed
qed

lemma find_rnode_ok:
  assumes "find_rnode ip r = (p, r')"
  shows "node_at (rx_head r') p \<noteq> Null \<and> (\<forall>q. node_at (rx_head r) q \<noteq> Null \<longrightarrow> node_at (rx_head r') q \<noteq> Null)"
proof (cases "radix_longest_prefix_match ip r")
  case None
  define h where "h = (if rx_head r = Null then new_node None else rx_head r)"
  have n: "h \<noteq> Null" "node_at (rx_head r) q \<noteq> Null \<Longrightarrow> node_at h q \<noteq> Null" for q
    by (auto simp: h_def new_node_def)
  obtain t where t: "add_loop 32 0x80000000 0 ip 0xffffffff None h = (t, p)" "rx_head r' = t"
    using assms None by (auto simp: find_rnode_def radix_add_def h_def Let_def split: prod.splits)
  from add_loop_nodes [OF n(1) t(1)] n(2) t(2) show ?thesis by blast
next
  case (Some q)
  then have "p = q" "r' = r" using assms by (auto simp: find_rnode_def)
  moreover have "names_of r q \<noteq> None"
  proof -
    obtain n ns where f: "filter (\<lambda>n. names_of r (take n (bits 32 ip)) \<noteq> None) (rev [1..<33]) = n # ns" "q = take n (bits 32 ip)"
      using Some by (auto simp: radix_lpm_spec lpm_spec_def split: list.splits)
    have "n \<in> set (n # ns)" by simp
    then show ?thesis using f(2) by (simp flip: f(1))
  qed
  ultimately show ?thesis by (auto simp: name_at_def)
qed

subsection \<open>The flows on display\<close>

definition flow_of :: "hnode \<Rightarrow> hnode" where
  "flow_of x = x\<lparr>hnext := None, dnext := None\<rparr>"

definition hosts_rel :: "hosts \<Rightarrow> hnode list \<Rightarrow> bool" where
  "hosts_rel s fs \<longleftrightarrow> (\<exists>ds bs us. hosts_inv s ds bs us \<and> fs = map (\<lambda>a. flow_of (heap s a)) ds)"

text \<open>What adding a packet does to them: the flow it belongs to is counted up, or a flow is appended.\<close>

definition add_flow :: "u32 \<Rightarrow> int \<Rightarrow> u16 \<Rightarrow> u32 \<Rightarrow> hnode list \<times> radix \<Rightarrow> hnode list \<times> radix" where
  "add_flow ip proto port n fr =
     (case fr of (fs, r) \<Rightarrow>
      case find (\<lambda>f. flow_key f = (ip, proto, port)) fs of
        Some f \<Rightarrow>
          (map (\<lambda>g. if flow_key g = (ip, proto, port) then g\<lparr>h_bytes := h_bytes g + n, h_pkts := h_pkts g + 1\<rparr> else g) fs,
           at_rnode (the (h_rnode f)) count_pkt r)
      | None \<Rightarrow>
          (case find_rnode ip r of (p, r) \<Rightarrow>
            (fs @ [new_flow ip proto port n (int (length (filter (\<lambda>f. h_ip_src f = ip) fs))) zero_node\<lparr>h_rnode := Some p\<rparr>],
             at_rnode p count_pkt r)))"

lemma flow_key_flow_of [simp]: "flow_key (flow_of x) = flow_key x" "h_rnode (flow_of x) = h_rnode x" "h_ip_src (flow_of x) = h_ip_src x"
    "h_bytes (flow_of x) = h_bytes x" "h_pkts (flow_of x) = h_pkts x" "h_ttl (flow_of x) = h_ttl x"
    "flow_of (x\<lparr>h_bytes := b\<rparr>) = (flow_of x)\<lparr>h_bytes := b\<rparr>" "flow_of (x\<lparr>h_pkts := k\<rparr>) = (flow_of x)\<lparr>h_pkts := k\<rparr>"
    "flow_of (x\<lparr>h_ttl := t\<rparr>) = (flow_of x)\<lparr>h_ttl := t\<rparr>" "flow_of (x\<lparr>h_rnode := q\<rparr>) = (flow_of x)\<lparr>h_rnode := q\<rparr>" "flow_of (x\<lparr>dnext := d\<rparr>) = flow_of x" "flow_of (x\<lparr>hnext := d\<rparr>) = flow_of x"
  by (simp_all add: flow_key_def flow_of_def)

lemma find_map_unique:
  assumes "a \<in> set xs" "P (g a)" "\<forall>b \<in> set xs. b \<noteq> a \<longrightarrow> \<not> P (g b)"
  shows "find P (map g xs) = Some (g a)"
  using assms
proof (induction xs)
  case (Cons x xs)
  then show ?case by (cases "x = a") auto
qed simp

lemma add_known_refines:
  assumes inv: "hosts_inv s ds bs us" and a: "a \<in> set ds" "flow_key (heap s a) = (ip, proto, port)"
  shows "\<exists>s'. add_known a n s = Inr s' \<and> hosts_inv s' ds bs us \<and>
    (map (\<lambda>a. flow_of (heap s' a)) ds, radix_tree s') = add_flow ip proto port n (map (\<lambda>a. flow_of (heap s a)) ds, radix_tree s)"
proof -
  obtain p where p: "h_rnode (heap s a) = Some p" using hosts_invD(9) [OF inv a(1)] by (auto simp: rnode_ok_def)
  define s' where "s' = (set_node a (\<lambda>x. x\<lparr>h_bytes := h_bytes x + n, h_pkts := h_pkts x + 1\<rparr>) s)
    \<lparr>radix_tree := at_rnode p count_pkt (radix_tree s)\<rparr>"
  have uniq: "\<forall>b \<in> set ds. b \<noteq> a \<longrightarrow> flow_key (heap s b) \<noteq> (ip, proto, port)"
    using hosts_invD(8) [OF inv] a by (metis (mono_tags, lifting) inj_onD)
  have "add_known a n s = Inr s'" using p by (simp add: add_known_def s'_def set_node_def)
  moreover have "hosts_inv s' ds bs us"
    by (rule hosts_inv_frame [OF inv])
      (auto simp: s'_def set_node_def same_links_def flow_key_def at_rnode_def keeps_nodes [OF keeps_count])
  moreover have "find (\<lambda>f. flow_key f = (ip, proto, port)) (map (\<lambda>a. flow_of (heap s a)) ds) = Some (flow_of (heap s a))"
    by (rule find_map_unique) (use a uniq in auto)
  ultimately show ?thesis using p a uniq
    by (intro exI [of _ s']) (auto simp: add_flow_def s'_def set_node_def)
qed

text \<open>A node outside of every chain is linked into the table and the display.\<close>

lemma hash_insert_eq:
  "hnext (heap s a) = None \<Longrightarrow>
   hash_insert h a s = s\<lparr>heap := (heap s)(a := (heap s a)\<lparr>hnext := htable s h\<rparr>), htable := (htable s)(h := Some a)\<rparr>"
proof -
  assume "hnext (heap s a) = None"
  then have "(heap s a)\<lparr>hnext := None\<rparr> = heap s a" by (cases "heap s a") simp
  then show ?thesis by (cases s) (auto simp: hash_insert_def set_node_def Let_def)
qed

lemma dlist_append_eq:
  assumes "chain (\<lambda>a. dnext (heap s a)) (dlist s) ds" "a \<notin> set ds"
  shows "dlist_append a s =
    (let h = (heap s)(a := (heap s a)\<lparr>dnext := None\<rparr>) in
     Some (if ds = [] then s\<lparr>heap := h, dlist := Some a\<rparr>
           else s\<lparr>heap := h(last ds := (heap s (last ds))\<lparr>dnext := Some a\<rparr>)\<rparr>))"
proof (cases ds)
  case Nil
  then show ?thesis using assms(1) by (simp add: dlist_append_def set_node_def Let_def)
next
  case (Cons d es)
  let ?h = "(heap s)(a := (heap s a)\<lparr>dnext := None\<rparr>)"
  have "chain (\<lambda>b. dnext (?h b)) (dlist s) ds"
    by (rule chain_transfer [OF assms(1)]) (use assms(2) in auto)
  then have "chain (\<lambda>b. dnext (?h b)) (Some d) ds" using assms(1) Cons by simp
  then have "last_loop ?h d = Some (last ds)" by (rule last_loop_chain)
  moreover have "last ds \<noteq> a" using assms(2) Cons last_in_set [of ds] by auto
  ultimately show ?thesis using assms(1) Cons by (simp add: dlist_append_def set_node_def Let_def)
qed

lemma linked_inv:
  assumes inv: "hosts_inv s ds bs us" and a: "a \<notin> set ds" "a \<notin> set us" "a < fresh s"
    and x: "flow_key (heap s a) \<notin> (\<lambda>a. flow_key (heap s a)) ` set ds" and h: "h = hash (h_ip_src (heap s a))"
    and p: "node_at (rx_head r) p \<noteq> Null" "\<And>q. node_at (rx_head (radix_tree s)) q \<noteq> Null \<Longrightarrow> node_at (rx_head r) q \<noteq> Null"
    and dn: "\<And>b. dnext (heap t b) = (if b = a then None else if ds \<noteq> [] \<and> b = last ds then Some a else dnext (heap s b))"
    and hn: "\<And>b. hnext (heap t b) = (if b = a then htable s h else hnext (heap s b))"
    and key: "\<And>b. flow_key (heap t b) = flow_key (heap s b)" "\<And>b. h_ip_src (heap t b) = h_ip_src (heap s b)"
    and rn: "\<And>b. h_rnode (heap t b) = (if b = a then Some p else h_rnode (heap s b))"
    and rest: "htable t = (htable s)(h := Some a)" "hnode_unused t = hnode_unused s" "fresh t = fresh s"
      "dlist t = (if ds = [] then Some a else dlist s)" "rx_head (radix_tree t) = rx_head r"
  shows "hosts_inv t (ds @ [a]) (bs(h := a # bs h)) us"
proof -
  note i = hosts_invD [OF inv]
  have l: "ds \<noteq> [] \<Longrightarrow> last ds \<noteq> a" using a(1) last_in_set [of ds] by auto
  have "chain (\<lambda>b. dnext (heap t b)) (dlist t) (ds @ [a])"
  proof (cases "ds = []")
    case True
    then show ?thesis by (simp add: rest dn)
  next
    case False
    let ?nx = "(\<lambda>b. dnext (heap s b))(a := None)"
    have c: "chain ?nx (dlist s) ds" using i(1) a(1) by simp
    have eq: "(\<lambda>b. dnext (heap t b)) = ?nx(last ds := Some a)"
      using False l by (auto simp: dn)
    show ?thesis unfolding eq using chain_snoc [OF c False a(1)] False by (simp add: rest)
  qed
  moreover have "chain (\<lambda>b. hnext (heap t b)) (htable t k) ((bs(h := a # bs h)) k)" for k
  proof -
    have "a \<notin> set (bs k)" using a(1) bucket_sub [OF inv] by auto
    then have "chain (\<lambda>b. hnext (heap t b)) (htable s k) (bs k)" by (intro chain_transfer [OF i(2)]) (auto simp: hn)
    then show ?thesis by (cases "k = h") (simp_all add: rest hn)
  qed
  moreover have "chain (\<lambda>b. hnext (heap t b)) (hnode_unused t) us"
    unfolding rest by (rule chain_transfer [OF i(3)]) (use a(2) in \<open>auto simp: hn\<close>)
  moreover have "set ((bs(h := a # bs h)) k) = {b \<in> set (ds @ [a]). hash (h_ip_src (heap t b)) = k}" for k
    using i(4) [of k] h by (auto simp: key)
  moreover have "inj_on (\<lambda>b. flow_key (heap t b)) (set (ds @ [a]))"
  proof -
    have "inj_on (\<lambda>b. flow_key (heap s b)) (insert a (set ds))" using i(8) x by (subst inj_on_insert) blast
    then show ?thesis by (simp add: key)
  qed
  moreover have "rnode_ok (radix_tree t) (heap t b)" if "b \<in> set (ds @ [a])" for b
    using i(9) [of b] that p by (auto simp: rnode_ok_def rn rest)
  ultimately show ?thesis using i(5-7) a by (auto simp: hosts_inv_def rest)
qed

lemma link_inv:
  assumes inv: "hosts_inv s ds bs us" and a: "a \<notin> set ds" "a \<notin> set us" "a < fresh s"
    and x: "hnext (heap s a) = None" "flow_key (heap s a) \<notin> (\<lambda>a. flow_key (heap s a)) ` set ds"
    and h: "h = hash (h_ip_src (heap s a))"
    and p: "node_at (rx_head r) p \<noteq> Null" "\<And>q. node_at (rx_head (radix_tree s)) q \<noteq> Null \<Longrightarrow> node_at (rx_head r) q \<noteq> Null"
  shows "\<exists>s'. dlist_append a (hash_insert h a s) = Some s' \<and> radix_tree s' = radix_tree s \<and>
    hosts_inv ((set_node a (\<lambda>x. x\<lparr>h_rnode := Some p\<rparr>) s')\<lparr>radix_tree := r\<rparr>) (ds @ [a]) (bs(h := a # bs h)) us \<and>
    (\<forall>b \<in> set ds. flow_of (heap s' b) = flow_of (heap s b)) \<and> flow_of (heap s' a) = flow_of (heap s a)"
proof -
  note i = hosts_invD [OF inv]
  define s1 where "s1 = hash_insert h a s"
  have s1: "s1 = s\<lparr>heap := (heap s)(a := (heap s a)\<lparr>hnext := htable s h\<rparr>), htable := (htable s)(h := Some a)\<rparr>"
    unfolding s1_def by (rule hash_insert_eq [OF x(1)])
  have "chain (\<lambda>b. dnext (heap s1 b)) (dlist s1) ds"
    using chain_transfer [OF i(1), of "\<lambda>b. dnext (heap s1 b)"] a(1) by (auto simp: s1)
  from dlist_append_eq [OF this a(1)]
  obtain s' where s': "dlist_append a s1 = Some s'" by (auto simp: Let_def)
  define t where "t = (set_node a (\<lambda>x. x\<lparr>h_rnode := Some p\<rparr>) s')\<lparr>radix_tree := r\<rparr>"
  have e: "ds = [] \<Longrightarrow> s' = s1\<lparr>heap := (heap s1)(a := (heap s1 a)\<lparr>dnext := None\<rparr>), dlist := Some a\<rparr>"
    "ds \<noteq> [] \<Longrightarrow> s' = s1\<lparr>heap := (heap s1)(a := (heap s1 a)\<lparr>dnext := None\<rparr>, last ds := (heap s1 (last ds))\<lparr>dnext := Some a\<rparr>)\<rparr>"
    using s' dlist_append_eq [OF \<open>chain (\<lambda>b. dnext (heap s1 b)) (dlist s1) ds\<close> a(1)] by (auto simp: Let_def)
  have l: "ds \<noteq> [] \<Longrightarrow> last ds \<noteq> a" using a(1) last_in_set [of ds] by auto
  have dn: "dnext (heap t b) = (if b = a then None else if ds \<noteq> [] \<and> b = last ds then Some a else dnext (heap s b))" for b
    using l by (cases "ds = []") (auto simp: t_def e s1 set_node_def)
  have hn: "hnext (heap t b) = (if b = a then htable s h else hnext (heap s b))" for b
    using l by (cases "ds = []") (auto simp: t_def e s1 set_node_def)
  have key: "flow_key (heap t b) = flow_key (heap s b)" "h_ip_src (heap t b) = h_ip_src (heap s b)" for b
    using l by (cases "ds = []"; auto simp: t_def e s1 set_node_def flow_key_def)+
  have rn: "h_rnode (heap t b) = (if b = a then Some p else h_rnode (heap s b))" for b
    using l by (cases "ds = []") (auto simp: t_def e s1 set_node_def)
  have rest: "htable t = (htable s)(h := Some a)" "hnode_unused t = hnode_unused s" "fresh t = fresh s"
    "dlist t = (if ds = [] then Some a else dlist s)" "rx_head (radix_tree t) = rx_head r"
    by (cases "ds = []"; simp add: t_def e s1 set_node_def)+
  have "hosts_inv t (ds @ [a]) (bs(h := a # bs h)) us" by (rule linked_inv [OF inv a x(2) h p dn hn key rn rest])
  moreover have "flow_of (heap s' b) = flow_of (heap s b)" for b
    using l by (cases "ds = []") (auto simp: e s1)
  moreover have "radix_tree s' = radix_tree s" by (cases "ds = []") (simp_all add: e s1)
  ultimately show ?thesis using s' by (auto simp: s1_def t_def)
qed

lemma add_new_refines:
  assumes inv: "hosts_inv s ds bs us" and new: "\<forall>a \<in> set ds. flow_key (heap s a) \<noteq> (ip, proto, port)"
    and i: "i = int (length (filter (\<lambda>a. h_ip_src (heap s a) = ip) ds))"
  shows "\<exists>s' ds' bs' us'. add_new ip proto port n i s = Some s' \<and> hosts_inv s' ds' bs' us' \<and>
    (map (\<lambda>a. flow_of (heap s' a)) ds', radix_tree s') = add_flow ip proto port n (map (\<lambda>a. flow_of (heap s a)) ds, radix_tree s)"
proof -
  obtain a s1 where m: "hmalloc s = (a, s1)" by fastforce
  obtain us' where us: "hosts_inv s1 ds bs us'" "a \<notin> set us'" "a \<notin> set ds" "a < fresh s1"
    "\<forall>b \<in> set ds. heap s1 b = heap s b" "radix_tree s1 = radix_tree s" using hmalloc_inv [OF inv m] by blast
  define s2 where "s2 = set_node a (new_flow ip proto port n i) s1"
  obtain p r where pr: "find_rnode ip (radix_tree s) = (p, r)" by fastforce
  have inv2: "hosts_inv s2 ds bs us'"
    by (rule hosts_inv_frame [OF us(1)]) (use us(2,3) in \<open>auto simp: s2_def set_node_def same_links_def\<close>)
  have a2: "hnext (heap s2 a) = None" "flow_key (heap s2 a) = (ip, proto, port)" "h_ip_src (heap s2 a) = ip"
    by (simp_all add: s2_def set_node_def new_flow_def flow_key_def)
  have old: "heap s2 b = heap s b" if "b \<in> set ds" for b using that us(3,5) by (auto simp: s2_def set_node_def)
  have t2: "radix_tree s2 = radix_tree s" "fresh s2 = fresh s1" using us(6) by (simp_all add: s2_def set_node_def)
  have k: "flow_key (heap s2 a) \<notin> (\<lambda>a. flow_key (heap s2 a)) ` set ds" using new old by (auto simp: a2)
  have r: "node_at (rx_head (at_rnode p count_pkt r)) p \<noteq> Null"
    "node_at (rx_head (radix_tree s2)) q \<noteq> Null \<Longrightarrow> node_at (rx_head (at_rnode p count_pkt r)) q \<noteq> Null" for q
    using find_rnode_ok [OF pr] keeps_nodes [OF keeps_count] by (auto simp: at_rnode_def t2)
  obtain s3 where s3: "dlist_append a (hash_insert (hash ip) a s2) = Some s3" "radix_tree s3 = radix_tree s"
    "hosts_inv ((set_node a (\<lambda>x. x\<lparr>h_rnode := Some p\<rparr>) s3)\<lparr>radix_tree := at_rnode p count_pkt r\<rparr>) (ds @ [a]) (bs(hash ip := a # bs (hash ip))) us'"
    "\<forall>b \<in> set ds. flow_of (heap s3 b) = flow_of (heap s2 b)" "flow_of (heap s3 a) = flow_of (heap s2 a)"
    using link_inv [OF inv2 us(3,2) _ a2(1) k _ r, of "hash ip"] us(4) a2(3) t2 by auto
  define s4 where "s4 = (set_node a (\<lambda>x. x\<lparr>h_rnode := Some p\<rparr>) s3)\<lparr>radix_tree := at_rnode p count_pkt r\<rparr>"
  have "add_new ip proto port n i s = Some s4"
    using m s3(1,2) pr by (simp add: add_new_def s2_def s4_def)
  moreover have "hosts_inv s4 (ds @ [a]) (bs(hash ip := a # bs (hash ip))) us'" using s3(3) by (simp add: s4_def)
  moreover have "map (\<lambda>a. flow_of (heap s4 a)) (ds @ [a]) =
      map (\<lambda>a. flow_of (heap s a)) ds @ [new_flow ip proto port n i zero_node\<lparr>h_rnode := Some p\<rparr>]"
  proof -
    have "flow_of (heap s4 a) = (flow_of (heap s2 a))\<lparr>h_rnode := Some p\<rparr>"
      using s3(5) by (simp add: s4_def set_node_def)
    also have "\<dots> = new_flow ip proto port n i zero_node\<lparr>h_rnode := Some p\<rparr>"
      by (simp add: s2_def set_node_def flow_of_def new_flow_def zero_node_def)
    finally show ?thesis using s3(4) old us(3) by (auto simp: s4_def set_node_def)
  qed
  moreover have "find (\<lambda>f. flow_key f = (ip, proto, port)) (map (\<lambda>a. flow_of (heap s a)) ds) = None"
    using new by (auto simp: find_None_iff)
  ultimately show ?thesis
    by (intro exI [of _ s4] exI [of _ "ds @ [a]"] exI [of _ "bs(hash ip := a # bs (hash ip))"] exI [of _ us'])
      (simp add: add_flow_def pr i s4_def filter_map comp_def)
qed

lemma same_ip_bucket:
  assumes "hosts_inv s ds bs us"
  shows "length (filter (\<lambda>a. h_ip_src (heap s a) = ip) (bs (hash ip))) = length (filter (\<lambda>a. h_ip_src (heap s a) = ip) ds)"
proof -
  note i = hosts_invD [OF assms]
  have "distinct (bs (hash ip))" "distinct ds" by (rule chain_distinct [OF i(2)], rule chain_distinct [OF i(1)])
  moreover have "set (filter (\<lambda>a. h_ip_src (heap s a) = ip) (bs (hash ip))) = set (filter (\<lambda>a. h_ip_src (heap s a) = ip) ds)"
    using i(4) [of "hash ip"] by auto
  ultimately show ?thesis by (metis distinct_card distinct_filter)
qed

lemma hnode_add_rel:
  assumes "hosts_rel s fs"
  shows "\<exists>s' fs'. hnode_add ip proto port n s = Some (Inr s') \<and> hosts_rel s' fs' \<and>
    (fs', radix_tree s') = add_flow ip proto port n (fs, radix_tree s)"
proof -
  obtain ds bs us where inv: "hosts_inv s ds bs us" and fs: "fs = map (\<lambda>a. flow_of (heap s a)) ds"
    using assms by (auto simp: hosts_rel_def)
  note i = hosts_invD [OF inv]
  show ?thesis
  proof (cases "\<exists>a \<in> set ds. flow_key (heap s a) = (ip, proto, port)")
    case True
    then obtain a where a: "a \<in> set ds" "flow_key (heap s a) = (ip, proto, port)" by blast
    have "a \<in> set (bs (hash ip))" using a i(4) [of "hash ip"] by (auto simp: flow_key_def)
    moreover have "b = a" if "b \<in> set (bs (hash ip))" "flow_key (heap s b) = (ip, proto, port)" for b
      using that a i(8) bucket_sub [OF inv] by (metis (mono_tags, lifting) inj_onD subsetD)
    ultimately obtain j where j: "find_loop (heap s) ip proto port (htable s (hash ip)) 0 = Some (Some a, j)"
      using find_loop_some [OF i(2) _ a(2)] by blast
    obtain s' where s': "add_known a n s = Inr s'" "hosts_inv s' ds bs us"
      "(map (\<lambda>a. flow_of (heap s' a)) ds, radix_tree s') = add_flow ip proto port n (fs, radix_tree s)"
      using add_known_refines [OF inv a] fs by blast
    then have "hnode_add ip proto port n s = Some (Inr s')" using j by (simp add: hnode_add_def)
    with s'(2,3) show ?thesis unfolding hosts_rel_def by blast
  next
    case False
    then have new: "\<forall>a \<in> set ds. flow_key (heap s a) \<noteq> (ip, proto, port)" by blast
    define k where "k = int (length (filter (\<lambda>a. h_ip_src (heap s a) = ip) ds))"
    have "\<forall>a \<in> set (bs (hash ip)). flow_key (heap s a) \<noteq> (ip, proto, port)" using new bucket_sub [OF inv] by blast
    from find_loop_none [OF i(2) this, of 0] same_ip_bucket [OF inv, of ip]
    have j: "find_loop (heap s) ip proto port (htable s (hash ip)) 0 = Some (None, k)" by (simp add: k_def)
    obtain s' ds' bs' us' where s': "add_new ip proto port n k s = Some s'" "hosts_inv s' ds' bs' us'"
      "(map (\<lambda>a. flow_of (heap s' a)) ds', radix_tree s') = add_flow ip proto port n (fs, radix_tree s)"
      using add_new_refines [OF inv new k_def] fs by blast
    then have "hnode_add ip proto port n s = Some (Inr s')" using j by (simp add: hnode_add_def)
    with s'(2,3) show ?thesis unfolding hosts_rel_def by blast
  qed
qed

subsection \<open>Dropping a flow\<close>

definition before :: "addr list \<Rightarrow> addr option" where
  "before xs = (if xs = [] then None else Some (last xs))"

lemma before_in: "before xs = Some c \<Longrightarrow> c \<in> set xs"
  by (auto simp: before_def split: if_splits)

text \<open>A chain without its element \<open>a\<close>: either its start or the pointer before \<open>a\<close> is set to the next element.\<close>

lemma chain_cut:
  assumes "chain nx p (xs @ a # ys)" "\<And>c. c \<noteq> a \<Longrightarrow> nx' c = (if before xs = Some c then nx a else nx c)"
  shows "chain nx' (if xs = [] then nx a else p) (xs @ ys)"
proof -
  have "chain (case before xs of None \<Rightarrow> nx | Some l \<Rightarrow> nx(l := nx a)) (if xs = [] then nx a else p) (xs @ ys)"
    using assms(1) chain_remove [OF assms(1)] by (cases "xs = []") (auto simp: before_def)
  moreover have "nx' c = (case before xs of None \<Rightarrow> nx | Some l \<Rightarrow> nx(l := nx a)) c" if "c \<in> set (xs @ ys)" for c
  proof -
    have "c \<noteq> a" using that chain_distinct [OF assms(1)] by auto
    then show ?thesis using assms(2) by (auto split: option.split)
  qed
  ultimately show ?thesis by (rule chain_transfer)
qed

text \<open>The invariant of a state in which a node has left both of its chains and is the first of the unused ones.\<close>

lemma unlink_inv:
  assumes inv: "hosts_inv s (xs @ a # ys) bs us" and h: "h = hash (h_ip_src (heap s a))" and b: "bs h = vs @ a # ws"
    and dn: "\<And>c. c \<noteq> a \<Longrightarrow> dnext (heap t c) = (if before xs = Some c then dnext (heap s a) else dnext (heap s c))"
    and hn: "\<And>c. c \<noteq> a \<Longrightarrow> hnext (heap t c) = (if before vs = Some c then hnext (heap s a) else hnext (heap s c))"
    and flow: "\<And>c. c \<noteq> a \<Longrightarrow> flow_of (heap t c) = flow_of (heap s c)"
    and rest: "fresh t = fresh s" "radix_tree t = radix_tree s" "hnode_unused t = Some a" "hnext (heap t a) = hnode_unused s"
      "dlist t = (if xs = [] then dnext (heap s a) else dlist s)"
      "\<And>k. htable t k = (if k = h \<and> vs = [] then hnext (heap s a) else htable s k)"
  shows "hosts_inv t (xs @ ys) (bs(h := vs @ ws)) (a # us)"
proof -
  note i = hosts_invD [OF inv]
  have dist: "distinct (xs @ a # ys)" by (rule chain_distinct [OF i(1)])
  then have ne: "c \<noteq> a" if "c \<in> set (xs @ ys)" for c using that by auto
  have c: "chain (\<lambda>c. hnext (heap s c)) (htable s h) (vs @ a # ws)" using i(2) [of h] b by simp
  have bdist: "distinct (vs @ a # ws)" by (rule chain_distinct [OF c])
  have key: "flow_key (heap t c) = flow_key (heap s c)" "h_ip_src (heap t c) = h_ip_src (heap s c)"
    "h_rnode (heap t c) = h_rnode (heap s c)" if "c \<noteq> a" for c
    using flow [OF that] by (metis flow_key_flow_of)+
  have in_h: "hash (h_ip_src (heap s d)) = h \<and> d \<in> set (xs @ a # ys)" if "d \<in> set (vs @ a # ws)" for d
    using that i(4) [of h] b by auto
  have other: "chain (\<lambda>c. hnext (heap t c)) p as"
    if "chain (\<lambda>c. hnext (heap s c)) p as" "\<And>c. c \<in> set as \<Longrightarrow> c \<notin> set (vs @ a # ws)" for p as
  proof (rule chain_transfer [OF that(1)])
    show "hnext (heap t c) = hnext (heap s c)" if "c \<in> set as" for c
      using \<open>\<And>c. c \<in> set as \<Longrightarrow> c \<notin> set (vs @ a # ws)\<close> [OF that] before_in [of vs c] hn [of c] by auto
  qed
  have "chain (\<lambda>c. dnext (heap t c)) (dlist t) (xs @ ys)" unfolding rest by (rule chain_cut [OF i(1) dn])
  moreover have "chain (\<lambda>c. hnext (heap t c)) (htable t k) ((bs(h := vs @ ws)) k)" for k
  proof (cases "k = h")
    case True
    then show ?thesis using chain_cut [OF c hn] by (simp add: rest)
  next
    case False
    have "c \<notin> set (vs @ a # ws)" if "c \<in> set (bs k)" for c using that i(4) [of k] in_h [of c] False by auto
    then show ?thesis using other [OF i(2)] False by (simp add: rest)
  qed
  moreover have "chain (\<lambda>c. hnext (heap t c)) (hnode_unused t) (a # us)"
    using other [OF i(3)] i(5) in_h by (fastforce simp: rest)
  moreover have "set ((bs(h := vs @ ws)) k) = {c \<in> set (xs @ ys). hash (h_ip_src (heap t c)) = k}" for k
  proof -
    have "set ((bs(h := vs @ ws)) k) = {c \<in> set (xs @ ys). hash (h_ip_src (heap s c)) = k}"
      using i(4) [of k] dist bdist b h by (cases "k = h") auto
    then show ?thesis using ne key(2) by auto
  qed
  moreover have "inj_on (\<lambda>c. flow_key (heap t c)) (set (xs @ ys))"
  proof -
    have "inj_on (\<lambda>c. flow_key (heap s c)) (set (xs @ ys))" using i(8) by (rule inj_on_subset) auto
    moreover have "flow_key (heap t c) = flow_key (heap s c)" if "c \<in> set (xs @ ys)" for c by (rule key(1) [OF ne [OF that]])
    ultimately show ?thesis by (simp add: inj_on_def)
  qed
  moreover have "rnode_ok (radix_tree t) (heap t c)" if "c \<in> set (xs @ ys)" for c
    using i(9) [of c] that key(3) [OF ne [OF that]] by (auto simp: rnode_ok_def rest)
  ultimately show ?thesis using i(5-7) dist unfolding hosts_inv_def rest(1) by auto
qed

lemma dlist_drop_inv:
  assumes inv: "hosts_inv s (xs @ a # ys) bs us"
  shows "\<exists>s' bs'. dlist_drop (before xs) a s = Some (Inr s') \<and> hosts_inv s' (xs @ ys) bs' (a # us) \<and>
    radix_tree s' = radix_tree s \<and> (\<forall>b \<in> set (xs @ ys). flow_of (heap s' b) = flow_of (heap s b))"
proof -
  note i = hosts_invD [OF inv]
  have dist: "distinct (xs @ a # ys)" by (rule chain_distinct [OF i(1)])
  define h where "h = hash (h_ip_src (heap s a))"
  have "a \<in> set (bs h)" using i(4) [of h] by (simp add: h_def)
  then obtain vs ws where b: "bs h = vs @ a # ws" by (auto dest: split_list)
  have bdist: "distinct (vs @ a # ws)" using chain_distinct [OF i(2), of h] b by simp
  define s1 where "s1 = (case before xs of None \<Rightarrow> s\<lparr>dlist := dnext (heap s a)\<rparr>
    | Some p \<Rightarrow> set_node p (\<lambda>x. x\<lparr>dnext := dnext (heap s a)\<rparr>) s)"
  have same1: "hnext (heap s1 c) = hnext (heap s c)" "hash (h_ip_src (heap s1 a)) = h" "htable s1 = htable s" for c
    by (auto simp: s1_def set_node_def h_def split: option.split)
  define t where "t = hfree a (case before vs of None \<Rightarrow> s1\<lparr>htable := (htable s1)(h := hnext (heap s1 a))\<rparr>
    | Some p \<Rightarrow> set_node p (\<lambda>x. x\<lparr>hnext := hnext (heap s1 a)\<rparr>) s1)"
  have l: "before xs \<noteq> Some a" "before vs \<noteq> Some a" using dist bdist by (auto dest: before_in)
  have "prev_loop (heap s1) a None (htable s1 h) = Some (Inr (before vs))"
  proof -
    have "chain (\<lambda>c. hnext (heap s1 c)) (htable s1 h) (vs @ a # ws)" using i(2) [of h] by (simp add: same1 b)
    from prev_loop_chain [OF this, of None] bdist show ?thesis by (simp add: before_def)
  qed
  moreover have "htable s1 h \<noteq> None" using i(2) [of h] b by (cases vs) (auto simp: same1)
  ultimately have "hnode_free a s1 = Some (Inr t)" by (simp add: hnode_free_def Let_def same1(2) t_def)
  then have run: "dlist_drop (before xs) a s = Some (Inr t)" by (simp add: dlist_drop_def Let_def s1_def)
  have flow: "flow_of (heap t c) = flow_of (heap s c)" if "c \<noteq> a" for c
    using that l by (auto simp: t_def hfree_def s1_def set_node_def split: option.split)
  have "hosts_inv t (xs @ ys) (bs(h := vs @ ws)) (a # us)"
  proof (rule unlink_inv [OF inv h_def b])
    show "dnext (heap t c) = (if before xs = Some c then dnext (heap s a) else dnext (heap s c))" if "c \<noteq> a" for c
      using that l by (auto simp: t_def hfree_def s1_def set_node_def split: option.split)
    show "hnext (heap t c) = (if before vs = Some c then hnext (heap s a) else hnext (heap s c))" if "c \<noteq> a" for c
      using that l by (auto simp: t_def hfree_def same1 set_node_def split: option.split)
  qed (auto simp: flow, auto simp: t_def hfree_def s1_def set_node_def before_def)
  moreover have "radix_tree t = radix_tree s" by (simp add: t_def hfree_def s1_def set_node_def split: option.split)
  moreover have "flow_of (heap t c) = flow_of (heap s c)" if "c \<in> set (xs @ ys)" for c
  proof (rule flow)
    show "c \<noteq> a" using that dist by auto
  qed
  ultimately show ?thesis using run by blast
qed

text \<open>
  What the monitor relies on: adding a packet always succeeds and counts it for its flow, with the entry of the prefix tree
  that the flow has, and the entries of all flows exist.
\<close>

locale flow_storage =
  fixes rel :: "'s \<Rightarrow> hnode list \<Rightarrow> bool"
    and add :: "u32 \<Rightarrow> int \<Rightarrow> u16 \<Rightarrow> u32 \<Rightarrow> 's \<Rightarrow> 's result option"
    and tree :: "'s \<Rightarrow> radix"
  assumes add_rel: "rel s fs \<Longrightarrow> \<exists>s' fs'. add ip proto port n s = Some (Inr s') \<and> rel s' fs' \<and>
      (fs', tree s') = add_flow ip proto port n (fs, tree s)"
    and entries_exist: "rel s fs \<Longrightarrow> f \<in> set fs \<Longrightarrow> rnode_ok (tree s) f"

interpretation hs: flow_storage hosts_rel hnode_add radix_tree
proof
  show "\<exists>s' fs'. hnode_add ip proto port n s = Some (Inr s') \<and> hosts_rel s' fs' \<and>
      (fs', radix_tree s') = add_flow ip proto port n (fs, radix_tree s)" if "hosts_rel s fs" for s fs ip proto port n
    by (rule hnode_add_rel [OF that])
  show "rnode_ok (radix_tree s) f" if "hosts_rel s fs" "f \<in> set fs" for s fs f
    using that hosts_invD(9) by (fastforce simp: hosts_rel_def rnode_ok_def)
qed

end
