(* ===== verification/Fnettrace_Packets.thy ===== *)
theory Fnettrace_Packets
  imports Bpf Net_Common
begin

text \<open>
  The packet parsers of \<open>fnettrace-dns/main.c\<close>, \<open>fnettrace-sni/main.c\<close> and \<open>fnettrace-icmp/main.c\<close>, with the filters they attach
  to their sockets.

  The buffer is the whole array into which \<open>recvfrom\<close> writes: a packet, and after it whatever the array holds. An access past
  its end is the error \<open>BufferOverflow\<close>. The time of day that starts a line is a parameter. The kernel runs the filters; its
  interpreter is the locale \<open>packet_vm\<close>, which \<open>packet_run\<close> interprets.
\<close>

unbundle bit_operations_syntax

subsection \<open>Access to the buffer\<close>

definition PACKET_BUF_SIZE :: nat where "PACKET_BUF_SIZE = 64 * 1024"

definition get8 :: "u8 list \<Rightarrow> nat \<Rightarrow> u8 result" where
  "get8 buf i = (if i < length buf then Inr (buf ! i) else Inl BufferOverflow)"

definition put8 :: "nat \<Rightarrow> u8 \<Rightarrow> u8 list \<Rightarrow> u8 list result" where
  "put8 i b buf = (if i < length buf then Inr (buf[i := b]) else Inl BufferOverflow)"

text \<open>\<open>memcpy\<close> and \<open>ntohs\<close>, \<open>ntohl\<close>.\<close>

definition get16 :: "u8 list \<Rightarrow> nat \<Rightarrow> u16 result" where
  "get16 buf i =
     bind_result (get8 buf i) (\<lambda>a. bind_result (get8 buf (i + 1)) (\<lambda>b. Inr (push_bit 8 (ucast a) OR ucast b)))"

definition get32 :: "u8 list \<Rightarrow> nat \<Rightarrow> u32 result" where
  "get32 buf i =
     bind_result (get16 buf i) (\<lambda>a. bind_result (get16 buf (i + 2)) (\<lambda>b. Inr (push_bit 16 (ucast a) OR ucast b)))"

text \<open>The string at an address of the buffer, up to a zero.\<close>

definition string_at :: "u8 list \<Rightarrow> nat \<Rightarrow> string result" where
  "string_at buf i =
     (let s = drop i buf in
      if 0 \<in> set s then Inr (map (\<lambda>b. char_of (unat b)) (takeWhile (\<lambda>b. b \<noteq> 0) s)) else Inl BufferOverflow)"

definition LAST_SIZE :: nat where "LAST_SIZE = 512"

text \<open>A line is printed unless it is the last one again; \<open>snprintf\<close> cuts it to the array.\<close>

definition filter_output :: "string \<Rightarrow> string \<Rightarrow> string list \<times> string" where
  "filter_output txtline lastline = (let tmp = take (LAST_SIZE - 1) txtline in if tmp \<noteq> lastline then ([tmp], tmp) else ([], lastline))"

subsection \<open>DNS\<close>

text \<open>The labels of the name from \<open>ptr\<close> on; their lengths are overwritten by dots. \<open>None\<close> is an invalid packet.\<close>

function dns_loop :: "u8 list \<Rightarrow> nat \<Rightarrow> nat \<Rightarrow> (u8 list \<times> nat) option result" where
  "dns_loop buf ptr len =
     bind_result (get8 buf ptr) (\<lambda>b.
       if b \<noteq> 0 \<and> len < 255
       then (if 63 < b then Inr None else dns_loop (buf[ptr := 0x2E]) (ptr + unat b + 1) (len + unat b + 1))
       else Inr (if b \<noteq> 0 then None else Some (buf, ptr)))"
  by pat_completeness auto
termination by (relation "measure (\<lambda>(buf, ptr, len). 255 - len)") auto

declare dns_loop.simps [simp del]

definition dns_line :: "string \<Rightarrow> u32 \<Rightarrow> string \<Rightarrow> u16 \<Rightarrow> bool \<Rightarrow> string" where
  "dns_line stamp ip_src name type nxdomain =
     stamp @ ''  '' @ fmt_s_left 15 (print_ip ip_src) @ ''  DNS '' @ name @ '' (type '' @ fmt_u (unat type) @ '')'' @
     (if nxdomain then '' NXDOMAIN'' else '''')"

definition dns_error :: "string \<Rightarrow> u32 \<Rightarrow> string" where
  "dns_error stamp ip_src =
     stamp @ ''  '' @ replicate (15 - length (print_ip ip_src)) (CHR '' '') @ print_ip ip_src @ ''  Error: invalid DNS packet''"

text \<open>The result has the printed lines and the last line.\<close>

definition print_dns :: "string \<Rightarrow> string \<Rightarrow> u32 \<Rightarrow> u8 list \<Rightarrow> nat \<Rightarrow> (string list \<times> string) result" where
  "print_dns stamp lastline ip_src buf pkt =
     bind_result (get8 buf (pkt + 3)) (\<lambda>flags.
     bind_result (get8 buf (pkt + 4)) (\<lambda>q1.
     bind_result (get8 buf (pkt + 5)) (\<lambda>q2.
       if q1 \<noteq> 0 \<or> q2 \<noteq> 1 then Inr ([dns_error stamp ip_src], lastline)
       else bind_result (dns_loop buf (pkt + 12) 0) (\<lambda>r.
         case r of
           None \<Rightarrow> Inr ([dns_error stamp ip_src], lastline)
         | Some (buf, ptr) \<Rightarrow>
             bind_result (get16 buf (ptr + 1)) (\<lambda>type.
             bind_result (string_at buf (pkt + 13)) (\<lambda>name.
               Inr (filter_output (dns_line stamp ip_src name type (flags AND 3 = 3)) lastline)))))))"

definition is_local :: "u32 \<Rightarrow> bool" where
  "is_local ip \<longleftrightarrow>
     ip AND 0xff000000 = 0x7f000000 \<or> ip AND 0xff000000 = 0x0a000000 \<or> ip AND 0xffff0000 = 0xc0a80000 \<or> ip AND 0xfff00000 = 0xac100000"

text \<open>One packet of the loop in \<open>run_trace\<close>; \<open>bytes\<close> is the result of \<open>recvfrom\<close> as an unsigned number.\<close>

definition ip_hlen :: "u8 \<Rightarrow> u8" where "ip_hlen b = (b AND 0x0f) * 4"

definition dns_packet :: "bool \<Rightarrow> string \<Rightarrow> string \<Rightarrow> u8 list \<Rightarrow> u32 \<Rightarrow> (string list \<times> string) result" where
  "dns_packet arg_nolocal stamp lastline buf bytes =
     (if 14 + 20 + 8 \<le> bytes
      then bind_result (get8 buf 14) (\<lambda>b.
           let h = unat (ip_hlen b) in
           bind_result (get16 buf (14 + h)) (\<lambda>port_src.
           bind_result (get8 buf (14 + 9)) (\<lambda>protocol.
           bind_result (get32 buf (14 + 12)) (\<lambda>ip_src.
             if arg_nolocal \<and> is_local ip_src then Inr ([], lastline)
             else if port_src = 53 \<and> protocol = 0x11 then print_dns stamp lastline ip_src buf (14 + h + 8)
             else Inr ([], lastline)))))
      else Inr ([], lastline))"

subsection \<open>SNI\<close>

text \<open>Whether the fields of a server name are at \<open>ptr\<close>, with the length of the name; reads stop at the first mismatch.\<close>

definition sni_match :: "u8 list \<Rightarrow> nat \<Rightarrow> u16 option result" where
  "sni_match buf ptr =
     bind_result (get8 buf ptr) (\<lambda>b0. if b0 \<noteq> 0 then Inr None else
     bind_result (get8 buf (ptr + 1)) (\<lambda>b1. if b1 \<noteq> 0 then Inr None else
     bind_result (get8 buf (ptr + 2)) (\<lambda>b2. if b2 \<noteq> 0 \<and> b2 \<noteq> 1 then Inr None else
     bind_result (get8 buf (ptr + 6)) (\<lambda>b6. if b6 \<noteq> 0 then Inr None else
     bind_result (get16 buf (ptr + 2)) (\<lambda>len1.
     bind_result (get16 buf (ptr + 4)) (\<lambda>len2.
     bind_result (get16 buf (ptr + 7)) (\<lambda>len3.
       Inr (if unat len1 = unat len2 + 2 \<and> unat len1 = unat len3 + 5 then Some len3 else None))))))))"

text \<open>The search: \<open>n\<close> steps are left.\<close>

fun sni_loop :: "u8 list \<Rightarrow> nat \<Rightarrow> nat \<Rightarrow> (nat \<times> u16) option result" where
  "sni_loop buf ptr 0 = Inr None"
| "sni_loop buf ptr (Suc n) =
     bind_result (sni_match buf ptr) (\<lambda>r. case r of Some len3 \<Rightarrow> Inr (Some (ptr, len3)) | None \<Rightarrow> sni_loop buf (ptr + 1) n)"

definition sni_line :: "string \<Rightarrow> u32 \<Rightarrow> string \<Rightarrow> string" where
  "sni_line stamp ip_dest name = stamp @ ''  '' @ fmt_s_left 15 (print_ip ip_dest) @ ''  SNI '' @ name"

definition no_sni :: "string \<Rightarrow> u32 \<Rightarrow> string" where
  "no_sni stamp ip_dest = stamp @ ''  '' @ fmt_s_left 15 (print_ip ip_dest) @ ''  no SNI''"

definition print_tls :: "string \<Rightarrow> string \<Rightarrow> u32 \<Rightarrow> u8 list \<Rightarrow> nat \<Rightarrow> u32 \<Rightarrow> (string list \<times> string) result" where
  "print_tls stamp lastline ip_dest buf pkt len =
     bind_result (get8 buf pkt) (\<lambda>b0.
     if b0 \<noteq> 0x16 then Inr ([], lastline)
     else bind_result (get8 buf (pkt + 5)) (\<lambda>b5.
       if b5 \<noteq> 0x01 then Inr ([], lastline)
       else bind_result (sni_loop buf pkt (unat (len - 20))) (\<lambda>r.
         case r of
           None \<Rightarrow> Inr ([no_sni stamp ip_dest], lastline)
         | Some (ptr, len3) \<Rightarrow>
             bind_result (put8 (ptr + 9 + unat len3) 0 buf) (\<lambda>buf.
             bind_result (string_at buf (ptr + 9)) (\<lambda>name.
               Inr (filter_output (sni_line stamp ip_dest name) lastline))))))"

definition tcp_hlen :: "u8 \<Rightarrow> u8" where "tcp_hlen b = drop_bit 2 (b AND 0xf0)"

definition sni_packet :: "string \<Rightarrow> string \<Rightarrow> u8 list \<Rightarrow> u32 \<Rightarrow> (string list \<times> string) result" where
  "sni_packet stamp lastline buf bytes =
     (if 14 + 20 + 20 \<le> bytes
      then bind_result (get8 buf 14) (\<lambda>b.
           let h = ip_hlen b in
           bind_result (get32 buf (14 + 16)) (\<lambda>ip_dest.
           bind_result (get8 buf (14 + unat h + 12)) (\<lambda>t.
             print_tls stamp lastline ip_dest buf (14 + unat h + unat (tcp_hlen t)) (bytes - 14 - ucast h - ucast (tcp_hlen t)))))
      else Inr ([], lastline))"

subsection \<open>ICMP\<close>

definition type_description :: "string list" where
  "type_description =
     [''Echo reply'', ''unassigned'', ''unassigned'', ''Destination unreachable'', ''Source quench'', ''Redirect message'', ''unassigned'',
      ''unassigned'', ''Echo request'', ''Router advertisement'', ''Router solicitation'', ''Time exceeded'', ''Bad IP header'', ''Timestamp'',
      ''Timestamp replay'', ''Information request'', ''Information reply'', ''Address mask request'', ''Address mask reply'']"

definition code_dest_unreachable :: "string list" where
  "code_dest_unreachable =
     [''Network unreachable'', ''Host unreachable'', ''Protocol unreachable'', ''Port unreachable'',
      ''Fragmentation required, and DF flag set'', ''Source route failed'', ''Network unknown'', ''Host unknown'', ''Source host isolated'',
      ''Network administratively prohibited'', ''Host administratively prohibited'', ''Network unreachable for ToS'',
      ''Host unreachable for ToS'', ''Communication administratively prohibited'', ''Host Precedence Violation'',
      ''Precedence cutoff in effect'']"

definition code_redirect_message :: "string list" where
  "code_redirect_message =
     [''Datagram for the Network'', ''Datagram for the Host'', ''Datagram for the ToS & network'', ''Datagram for the ToS & host'']"

definition code_time_exceeded :: "string list" where
  "code_time_exceeded = [''TTL expired in transit'', ''Fragment reassembly time exceeded'']"

definition code_bad_ip_header :: "string list" where
  "code_bad_ip_header = [''Pointer indicates the error'', ''Missing a required option'', ''Bad length'']"

text \<open>An entry of an array of strings.\<close>

definition entry_at :: "string list \<Rightarrow> nat \<Rightarrow> string result" where
  "entry_at arr i = (if i < length arr then Inr (arr ! i) else Inl BufferOverflow)"

definition icmp_type :: "u8 \<Rightarrow> string result" where
  "icmp_type type = (if type < 19 then entry_at type_description (unat type) else Inr (fmt_u (unat type)))"

definition icmp_code :: "u8 \<Rightarrow> u8 \<Rightarrow> string result" where
  "icmp_code type code =
     (if type = 3 \<and> code < 16 then entry_at code_dest_unreachable (unat code)
      else if type = 5 \<and> code < 4 then entry_at code_redirect_message (unat code)
      else if type = 11 \<and> code < 2 then entry_at code_time_exceeded (unat code)
      else if type = 12 \<and> code < 3 then entry_at code_bad_ip_header (unat code)
      else Inr (fmt_u (unat code)))"

definition print_icmp :: "string \<Rightarrow> u32 \<Rightarrow> u32 \<Rightarrow> u8 \<Rightarrow> u8 \<Rightarrow> u32 \<Rightarrow> string result" where
  "print_icmp stamp ip_dest ip_src type code icmp_bytes =
     bind_result (icmp_type type) (\<lambda>ty. bind_result (icmp_code type code) (\<lambda>co.
       Inr (stamp @ ''  '' @ print_ip ip_src @ '' -> '' @ print_ip ip_dest @ '' - '' @ fmt_u (unat icmp_bytes) @ '' bytes - '' @ ty @ ''/'' @ co)))"

definition icmp_packet :: "string \<Rightarrow> u8 list \<Rightarrow> u32 \<Rightarrow> string list result" where
  "icmp_packet stamp buf bytes =
     (if 14 + 20 + 2 \<le> bytes
      then bind_result (get8 buf 14) (\<lambda>b.
           let h = unat (ip_hlen b) in
           bind_result (get8 buf (14 + h)) (\<lambda>type.
           bind_result (get8 buf (14 + h + 1)) (\<lambda>code.
           bind_result (get32 buf (14 + 16)) (\<lambda>ip_dest.
           bind_result (get32 buf (14 + 12)) (\<lambda>ip_src.
           bind_result (print_icmp stamp ip_dest ip_src type code bytes) (\<lambda>l. Inr [l]))))))
      else Inr [])"

subsection \<open>DNS names are printed as they are\<close>

definition encode_name :: "u8 list list \<Rightarrow> u8 list" where
  "encode_name ls = concat (map (\<lambda>l. of_nat (length l) # l) ls) @ [0]"

definition dotted :: "u8 list list \<Rightarrow> u8 list" where
  "dotted ls = concat (map (\<lambda>l. 0x2E # l) ls)"

definition label_ok :: "u8 list \<Rightarrow> bool" where
  "label_ok l \<longleftrightarrow> l \<noteq> [] \<and> length l \<le> 63 \<and> 0 \<notin> set l"

definition chars :: "u8 list \<Rightarrow> string" where
  "chars bs = map (\<lambda>b. char_of (unat b)) bs"

lemma label_byte: "label_ok l \<Longrightarrow> (of_nat (length l) :: u8) \<noteq> 0 \<and> unat (of_nat (length l) :: u8) = length l \<and> \<not> 63 < (of_nat (length l) :: u8)"
proof -
  assume l: "label_ok l"
  then have u: "unat (of_nat (length l) :: u8) = length l" by (simp add: unsigned_of_nat take_bit_nat_eq_self label_ok_def)
  moreover have "(of_nat (length l) :: u8) \<noteq> 0" using u l by (metis label_ok_def length_0_conv unat_0)
  ultimately show ?thesis using l by (simp add: word_less_nat_alt label_ok_def)
qed

lemma dns_loop_name:
  assumes "list_all label_ok ls" "len + length (dotted ls) \<le> 256"
  shows "dns_loop (pre @ encode_name ls @ post) (length pre) len =
    Inr (Some (pre @ dotted ls @ 0 # post, length pre + length (dotted ls)))"
  using assms
proof (induction ls arbitrary: pre len)
  case Nil
  then show ?case by (simp add: dns_loop.simps get8_def encode_name_def dotted_def)
next
  case (Cons l ls)
  let ?n = "of_nat (length l) :: u8"
  have l: "label_ok l" using Cons.prems(1) by simp
  then have len: "len < 255" using Cons.prems(2) by (cases l) (auto simp: dotted_def label_ok_def)
  have e: "encode_name (l # ls) = ?n # l @ encode_name ls" "dotted (l # ls) = (0x2E # l) @ dotted ls"
    by (simp_all add: encode_name_def dotted_def)
  have "dns_loop (pre @ encode_name (l # ls) @ post) (length pre) len =
      dns_loop ((pre @ 0x2E # l) @ encode_name ls @ post) (length (pre @ 0x2E # l)) (len + length l + 1)"
    using label_byte [OF l] len by (subst dns_loop.simps) (simp add: get8_def e nth_append)
  with Cons.IH [of "len + length l + 1" "pre @ 0x2E # l"] Cons.prems e show ?case by simp
qed

text \<open>
  The query of a DNS packet is printed as it is encoded: for labels of 1 to 63 bytes without a zero and of at most 254
  bytes together, the line shows the labels with dots between them, the type of the query, and whether the answer is
  that the domain does not exist.
\<close>

theorem print_dns_name:
  assumes "length front = pkt" "length header = 12" "header ! 4 = 0" "header ! 5 = 1"
    "ls \<noteq> []" "list_all label_ok ls" "length (dotted ls) \<le> 254"
  shows "print_dns stamp lastline ip (front @ header @ encode_name ls @ t1 # t0 # rest) pkt =
    Inr (filter_output
      (dns_line stamp ip (chars (drop 1 (dotted ls))) (push_bit 8 (ucast t1) OR ucast t0) (header ! 3 AND 3 = 3)) lastline)"
proof -
  let ?buf = "front @ header @ encode_name ls @ t1 # t0 # rest"
  have h: "get8 ?buf (pkt + 3) = Inr (header ! 3)" "get8 ?buf (pkt + 4) = Inr 0" "get8 ?buf (pkt + 5) = Inr 1"
    using assms(1-4) by (simp_all add: get8_def nth_append)
  have loop: "dns_loop ?buf (pkt + 12) 0 = Inr (Some ((front @ header) @ dotted ls @ 0 # t1 # t0 # rest, pkt + 12 + length (dotted ls)))"
    using dns_loop_name [OF assms(6), of 0 "front @ header" "t1 # t0 # rest"] assms(1,2,7) by simp
  obtain c cs where d: "dotted ls = c # cs" "0 \<notin> set cs"
  proof -
    have "0 \<notin> set (dotted ls)" using assms(6) by (auto simp: dotted_def label_ok_def list_all_iff)
    moreover have "dotted ls \<noteq> []" using assms(5) by (cases ls) (auto simp: dotted_def)
    ultimately show ?thesis using that by (cases "dotted ls") auto
  qed
  let ?b = "(front @ header) @ dotted ls @ 0 # t1 # t0 # rest"
  have "get16 ?b (pkt + 12 + length (dotted ls) + 1) = Inr (push_bit 8 (ucast t1) OR ucast t0)"
    using assms(1,2) by (simp add: get16_def get8_def nth_append)
  moreover have "string_at ?b (pkt + 13) = Inr (chars (drop 1 (dotted ls)))"
  proof -
    have "drop (pkt + 13) ?b = cs @ 0 # t1 # t0 # rest" using assms(1,2) d(1) by simp
    moreover have "takeWhile (\<lambda>b. b \<noteq> 0) (cs @ 0 # t1 # t0 # rest) = cs" using d(2) by (subst takeWhile_append2) auto
    ultimately show ?thesis by (simp add: string_at_def chars_def d(1))
  qed
  ultimately show ?thesis by (simp add: print_dns_def h loop)
qed

lemma dns_loop_bounds:
  "ptr < length buf \<Longrightarrow> (len < 255 \<longrightarrow> ptr + (255 - len) + 64 < length buf) \<Longrightarrow>
   \<exists>r. dns_loop buf ptr len = Inr r \<and>
     (\<forall>buf' p. r = Some (buf', p) \<longrightarrow> length buf' = length buf \<and> ptr \<le> p \<and> p < length buf \<and> buf' ! p = 0 \<and>
        p \<le> ptr + (if len < 255 then 255 - len + 64 else 0) \<and> drop p buf' = drop p buf)"
proof (induction buf ptr len rule: dns_loop.induct)
  case (1 buf ptr len)
  let ?b = "buf ! ptr"
  show ?case
  proof (cases "?b \<noteq> 0 \<and> len < 255 \<and> \<not> 63 < ?b")
    case False
    then show ?thesis using "1.prems" by (subst dns_loop.simps) (auto simp: get8_def)
  next
    case True
    then have b: "unat ?b \<le> 63" by (simp add: word_less_nat_alt linorder_not_less)
    have g: "get8 buf ptr = Inr ?b" using "1.prems"(1) by (simp add: get8_def)
    have s: "dns_loop buf ptr len = dns_loop (buf[ptr := 0x2E]) (ptr + unat ?b + 1) (len + unat ?b + 1)"
      using True by (subst dns_loop.simps) (simp add: g)
    have "ptr + unat ?b + 1 < length (buf[ptr := 0x2E])"
      "len + unat ?b + 1 < 255 \<longrightarrow> ptr + unat ?b + 1 + (255 - (len + unat ?b + 1)) + 64 < length (buf[ptr := 0x2E])"
      using "1.prems" True b by auto
    from "1.IH" [of ?b, OF _ _ this] True obtain r where r: "dns_loop (buf[ptr := 0x2E]) (ptr + unat ?b + 1) (len + unat ?b + 1) = Inr r"
      "\<forall>buf' p. r = Some (buf', p) \<longrightarrow> length buf' = length buf \<and> ptr + unat ?b + 1 \<le> p \<and> p < length buf \<and> buf' ! p = 0 \<and>
        p \<le> ptr + unat ?b + 1 + (if len + unat ?b + 1 < 255 then 255 - (len + unat ?b + 1) + 64 else 0) \<and>
        drop p buf' = drop p (buf[ptr := 0x2E])"
      by auto
    show ?thesis
      unfolding s r(1) using r(2) True b by (auto simp: drop_update_cancel split: if_splits)
  qed
qed

lemma ip_hlen_bound: "unat (ip_hlen b) \<le> 60"
proof -
  have "b AND 0x0f \<le> 0x0f" by (rule word_and_le1)
  then have "unat (b AND 0x0f) \<le> 15" by (simp add: word_le_nat_alt)
  then show ?thesis by (simp add: ip_hlen_def unat_word_ariths)
qed

lemma tcp_hlen_bound: "unat (tcp_hlen b) \<le> 60"
proof -
  have "b AND 0xf0 \<le> 0xf0" by (rule word_and_le1)
  then have "unat (b AND 0xf0) \<le> 240" by (simp add: word_le_nat_alt)
  then show ?thesis by (simp add: tcp_hlen_def drop_bit_eq_div unat_div)
qed

lemma get8_in: "i < length buf \<Longrightarrow> get8 buf i = Inr (buf ! i)"
  by (simp add: get8_def)

lemma get16_in: "i + 1 < length buf \<Longrightarrow> \<exists>v. get16 buf i = Inr v"
  by (simp add: get16_def get8_in)

lemma get32_in: "i + 3 < length buf \<Longrightarrow> \<exists>v. get32 buf i = Inr v"
  using get16_in [of i buf] get16_in [of "i + 2" buf] by (auto simp: get32_def)

lemma print_dns_bounds:
  assumes "length buf = PACKET_BUF_SIZE" "pkt \<le> 82" "0 \<in> set (drop 95 buf)"
  shows "\<exists>r. print_dns stamp lastline ip buf pkt = Inr r"
proof -
  have len: "length buf = 65536" using assms(1) by (simp add: PACKET_BUF_SIZE_def)
  obtain r where r: "dns_loop buf (pkt + 12) 0 = Inr r"
    "\<forall>buf' p. r = Some (buf', p) \<longrightarrow> length buf' = length buf \<and> pkt + 12 \<le> p \<and> p < length buf \<and> buf' ! p = 0 \<and> p \<le> pkt + 12 + 319 \<and>
       drop p buf' = drop p buf"
    using dns_loop_bounds [of "pkt + 12" buf 0] len assms(2) by auto
  have "\<exists>t n. get16 buf' (p + 1) = Inr t \<and> string_at buf' (pkt + 13) = Inr n" if "r = Some (buf', p)" for buf' p
  proof -
    have p: "length buf' = length buf" "pkt + 12 \<le> p" "p < length buf" "buf' ! p = 0" "p \<le> pkt + 331" "drop p buf' = drop p buf"
      using r(2) that by auto
    have "\<exists>t. get16 buf' (p + 1) = Inr t" using p len assms(2) by (intro get16_in) simp
    moreover have "0 \<in> set (drop (pkt + 13) buf')"
    proof (cases "p = pkt + 12")
      case True
      have "drop 95 xs = drop (95 - p) (drop p xs)" for xs :: "u8 list" using True assms(2) by simp
      then have "drop 95 buf' = drop 95 buf" using p(6) by metis
      then have "0 \<in> set (drop 95 buf')" using assms(3) by simp
      moreover have "set (drop 95 buf') \<subseteq> set (drop (pkt + 13) buf')" using assms(2) by (intro set_drop_subset_set_drop) simp
      ultimately show ?thesis by blast
    next
      case False
      then have "drop (pkt + 13) buf' ! (p - (pkt + 13)) = 0" using p by simp
      moreover have "p - (pkt + 13) < length (drop (pkt + 13) buf')" using p False by simp
      ultimately show ?thesis by (metis nth_mem)
    qed
    ultimately show ?thesis by (auto simp: string_at_def)
  qed
  with r(1) len assms(2) show ?thesis
    by (cases r) (auto simp: print_dns_def get8_in split: option.splits)
qed

subsection \<open>The search for a server name\<close>

lemma sni_match_cases:
  "sni_match buf ptr = Inl e \<Longrightarrow> e = BufferOverflow"
  by (auto simp: sni_match_def get16_def get8_def split: if_splits)

lemma sni_match_in:
  assumes "p + 20 < length buf"
  shows "\<exists>r. sni_match buf p = Inr r \<and> (\<forall>l. r = Some l \<longrightarrow> unat l \<le> 506)"
proof -
  have len1: "unat ((push_bit 8 (ucast a) OR ucast b) :: u16) \<le> 511" if "a = 0 \<or> a = 1" for a b :: u8
  proof -
    let ?x = "(push_bit 8 (ucast a) OR ucast b) :: u16"
    have b: "bit b n \<Longrightarrow> n < 8" for n by (metis bit_imp_le_length len_bit0 len_num1 nat_mult_1_right numeral_Bit0_eq_double mult_2_right)
    have a: "bit a n \<Longrightarrow> n = 0" for n using that by (auto simp: bit_1_iff)
    have "?x AND mask 9 = ?x"
      by (intro bit_eqI) (auto simp: bit_and_iff bit_or_iff bit_push_bit_iff bit_unsigned_iff bit_mask_iff dest: a b)
    then have "?x \<le> mask 9" by (metis word_and_le1)
    then show ?thesis by (simp add: word_le_nat_alt mask_eq_decr_exp)
  qed
  define v1 :: u16 where "v1 = push_bit 8 (ucast (buf ! (p + 2))) OR ucast (buf ! (p + 2 + 1))"
  have "get16 buf (p + 2) = Inr v1" using assms by (simp add: get16_def get8_in v1_def)
  moreover obtain v2 v3 where "get16 buf (p + 4) = Inr v2" "get16 buf (p + 7) = Inr v3"
    using get16_in [of "p + 4" buf] get16_in [of "p + 7" buf] assms by auto
  moreover have "unat v1 \<le> 511" if "buf ! (p + 2) = 0 \<or> buf ! (p + 2) = 1" unfolding v1_def using that by (rule len1)
  ultimately show ?thesis using assms by (auto simp: sni_match_def get8_in)
qed

lemma sni_loop_overrun:
  assumes "\<forall>q\<ge>p. \<forall>l. sni_match buf q \<noteq> Inr (Some l)" "p \<le> length buf" "length buf < p + n"
  shows "sni_loop buf p n = Inl BufferOverflow"
  using assms
proof (induction n arbitrary: p)
  case (Suc n)
  show ?case
  proof (cases "sni_match buf p")
    case (Inl e)
    then show ?thesis using sni_match_cases by simp
  next
    case (Inr r)
    then have "p < length buf" using Suc.prems by (auto simp: sni_match_def get8_def split: if_splits)
    moreover have "r = None" using Inr Suc.prems(1) by (cases r) auto
    ultimately show ?thesis using Suc Inr by simp
  qed
qed simp

lemma sni_loop_inside:
  "p + n + 20 \<le> length buf \<Longrightarrow> \<exists>r. sni_loop buf p n = Inr r \<and> (\<forall>q l. r = Some (q, l) \<longrightarrow> q < p + n \<and> unat l \<le> 506)"
proof (induction n arbitrary: p)
  case (Suc n)
  obtain r where r: "sni_match buf p = Inr r" "\<forall>l. r = Some l \<longrightarrow> unat l \<le> 506" using sni_match_in [of p buf] Suc.prems by auto
  show ?case
  proof (cases r)
    case None
    with Suc.IH [of "p + 1"] Suc.prems r show ?thesis by auto
  qed (use r in auto)
qed simp

text \<open>
  C37. A short TLS packet makes the search run out of the array. If fewer than twenty bytes follow the TCP header, the unsigned
  bound of the search wraps; unless the fields of a server name happen to be somewhere behind in the array, the search
  reads past its end. With at least twenty bytes and 516 bytes to spare behind the packet the search stays inside.
\<close>

theorem print_tls_bounds:
  assumes "length buf = PACKET_BUF_SIZE" "get8 buf pkt = Inr 0x16" "get8 buf (pkt + 5) = Inr 0x01"
  shows "(len < 20 \<and> (\<forall>p. pkt \<le> p \<longrightarrow> (\<forall>l. sni_match buf p \<noteq> Inr (Some l))) \<longrightarrow>
      print_tls stamp lastline ip buf pkt len = Inl BufferOverflow) \<and>
    (20 \<le> len \<and> pkt + unat len + 516 \<le> PACKET_BUF_SIZE \<longrightarrow> (\<exists>r. print_tls stamp lastline ip buf pkt len = Inr r))"
proof (intro conjI impI)
  assume a: "len < 20 \<and> (\<forall>p. pkt \<le> p \<longrightarrow> (\<forall>l. sni_match buf p \<noteq> Inr (Some l)))"
  have "pkt < length buf" using assms(2) by (auto simp: get8_def split: if_splits)
  moreover have "length buf < pkt + unat (len - 20)"
    using a assms(1) by (simp add: unat_sub_if' word_le_nat_alt word_less_nat_alt PACKET_BUF_SIZE_def)
  ultimately show "print_tls stamp lastline ip buf pkt len = Inl BufferOverflow"
    using sni_loop_overrun [of pkt buf "unat (len - 20)"] a assms by (simp add: print_tls_def)
next
  assume a: "20 \<le> len \<and> pkt + unat len + 516 \<le> PACKET_BUF_SIZE"
  have n: "unat (len - 20) = unat len - 20" using a by (simp add: unat_sub_if' word_le_nat_alt)
  have "unat len \<ge> 20" using a by (simp add: word_le_nat_alt)
  then obtain r where r: "sni_loop buf pkt (unat (len - 20)) = Inr r"
    "\<forall>q l. r = Some (q, l) \<longrightarrow> q < pkt + (unat len - 20) \<and> unat l \<le> 506"
    using sni_loop_inside [of pkt "unat (len - 20)" buf] a n assms(1) by auto
  have "\<exists>b s. put8 (q + 9 + unat l) 0 buf = Inr b \<and> string_at b (q + 9) = Inr s" if "r = Some (q, l)" for q l
  proof -
    have i: "q + 9 + unat l < length buf" using r(2) that a \<open>unat len \<ge> 20\<close> assms(1) by fastforce
    have "drop (q + 9) (buf[q + 9 + unat l := 0]) ! unat l = 0" using i by simp
    moreover have "unat l < length (drop (q + 9) (buf[q + 9 + unat l := 0]))" using i by simp
    ultimately have "0 \<in> set (drop (q + 9) (buf[q + 9 + unat l := 0]))" by (metis nth_mem)
    with i show ?thesis by (simp add: put8_def string_at_def)
  qed
  with r(1) assms(2,3) show "\<exists>r. print_tls stamp lastline ip buf pkt len = Inr r"
    by (cases r) (auto simp: print_tls_def)
qed

definition be16 :: "nat \<Rightarrow> u8 list" where
  "be16 n = [of_nat (n div 256), of_nat n]"

definition sni_extension :: "u8 list \<Rightarrow> u8 list" where
  "sni_extension name = [0, 0] @ be16 (length name + 5) @ be16 (length name + 3) @ [0] @ be16 (length name) @ name"

lemma get8_drop: "drop i buf = x # r \<Longrightarrow> get8 buf i = Inr x"
  by (metis get8_in hd_drop_conv_nth drop_all leI list.sel(1) list.simps(3))

lemma join16:
  assumes "n < 2 ^ 16"
  shows "push_bit 8 (ucast (of_nat (n div 256) :: u8)) OR ucast (of_nat n :: u8) = (of_nat n :: u16)"
proof (rule bit_eqI)
  fix k
  assume "possible_bit TYPE(u16) k"
  then have k: "k < 16" by simp
  have d: "n div 256 = drop_bit 8 n" by (simp add: drop_bit_eq_div)
  show "bit (push_bit 8 (ucast (of_nat (n div 256) :: u8)) OR ucast (of_nat n :: u8) :: u16) k = bit (of_nat n :: u16) k"
    using k unfolding d by (auto simp: bit_or_iff bit_push_bit_iff bit_unsigned_iff bit_of_nat_iff bit_drop_bit_eq)
qed

lemma get16_be16:
  assumes "drop i buf = be16 n @ r" "n < 2 ^ 16"
  shows "get16 buf i = Inr (of_nat n)"
proof -
  from assms(1) have "drop i buf = of_nat (n div 256) # of_nat n # r" by (simp add: be16_def)
  moreover from this have "drop (i + 1) buf = of_nat n # r" by (metis Suc_eq_plus1 drop_Suc list.sel(3) tl_drop)
  ultimately show ?thesis using join16 [OF assms(2)] by (simp add: get16_def get8_drop)
qed

text \<open>
  The server name of a TLS client hello is printed: when the extension is the first place of the packet where the fields
  of a server name match, and it lies more than twenty bytes before the end, the line shows the name.
\<close>

theorem print_tls_name:
  assumes "length front = pkt" "5 < length body" "body ! 0 = 0x16" "body ! 5 = 0x01" "length name \<le> 506" "0 \<notin> set name"
    and "20 \<le> len" "length body < unat len - 20"
    and buf: "buf = front @ body @ sni_extension name @ b # rest"
    and first: "\<forall>p. pkt \<le> p \<and> p < pkt + length body \<longrightarrow> sni_match buf p = Inr None"
  shows "print_tls stamp lastline ip buf pkt len = Inr (filter_output (sni_line stamp ip (chars name)) lastline)"
proof -
  let ?e = "pkt + length body" and ?n = "length name"
  have n: "unat (len - 20) = unat len - 20" using assms(7) by (simp add: unat_sub_if' word_le_nat_alt)
  have words: "unat (of_nat (?n + 5) :: u16) = ?n + 5" "unat (of_nat (?n + 3) :: u16) = ?n + 3" "unat (of_nat ?n :: u16) = ?n"
    using assms(5) by (simp_all add: unsigned_of_nat take_bit_nat_eq_self del: of_nat_add)
  have length: "length buf = ?e + 9 + ?n + 1 + length rest" using buf assms(1) by (simp add: sni_extension_def be16_def)
  have fields: "drop ?e buf = 0 # 0 # be16 (?n + 5) @ be16 (?n + 3) @ 0 # be16 ?n @ name @ b # rest"
    "drop (?e + 1) buf = 0 # be16 (?n + 5) @ be16 (?n + 3) @ 0 # be16 ?n @ name @ b # rest"
    "drop (?e + 2) buf = be16 (?n + 5) @ be16 (?n + 3) @ 0 # be16 ?n @ name @ b # rest"
    "drop (?e + 4) buf = be16 (?n + 3) @ 0 # be16 ?n @ name @ b # rest"
    "drop (?e + 6) buf = 0 # be16 ?n @ name @ b # rest" "drop (?e + 7) buf = be16 ?n @ name @ b # rest"
    using buf assms(1) by (simp_all add: sni_extension_def be16_def)
  have "(?n + 5) div 256 = 0 \<or> (?n + 5) div 256 = 1" using assms(5) by auto
  then have b2: "get8 buf (?e + 2) = Inr 0 \<or> get8 buf (?e + 2) = Inr 1"
    using get8_drop [of "?e + 2" buf "of_nat ((?n + 5) div 256)"] fields(3) by (auto simp: be16_def)
  have "get16 buf (?e + 2) = Inr (of_nat (?n + 5))" "get16 buf (?e + 4) = Inr (of_nat (?n + 3))" "get16 buf (?e + 7) = Inr (of_nat ?n)"
    by (rule get16_be16, (rule fields), (use assms(5) in simp))+
  then have m: "sni_match buf ?e = Inr (Some (of_nat ?n))"
    using get8_drop [OF fields(1)] get8_drop [OF fields(2)] get8_drop [OF fields(5)] b2 assms(5) words
    by (auto simp: sni_match_def simp del: of_nat_add)
  have "sni_loop buf p k = Inr (Some (?e, of_nat ?n))" if "pkt \<le> p" "p \<le> ?e" "?e < p + k" for p k
    using that
  proof (induction k arbitrary: p)
    case (Suc k)
    show ?case
    proof (cases "p = ?e")
      case True
      then show ?thesis using m by simp
    next
      case False
      then show ?thesis using Suc first by simp
    qed
  qed simp
  then have loop: "sni_loop buf pkt (unat (len - 20)) = Inr (Some (?e, of_nat ?n))" using n assms(8) by simp
  have d: "drop (?e + 9) (buf[?e + 9 + ?n := 0]) = name @ 0 # rest"
    using buf assms(1) by (simp add: drop_update_swap sni_extension_def be16_def)
  have "takeWhile (\<lambda>b. b \<noteq> 0) (name @ 0 # rest) = name" using assms(6) by (subst takeWhile_append2) auto
  with d have "string_at (buf[?e + 9 + ?n := 0]) (?e + 9) = Inr (chars name)" by (simp add: string_at_def chars_def)
  moreover have "get8 buf pkt = Inr 0x16" "get8 buf (pkt + 5) = Inr 0x01" using buf assms(1-4) by (auto simp: get8_def nth_append)
  ultimately show ?thesis using loop length words(3) by (simp add: print_tls_def put8_def)
qed

subsection \<open>The socket filters\<close>

definition insn :: "u16 \<Rightarrow> u8 \<Rightarrow> u8 \<Rightarrow> u32 \<Rightarrow> sock_filter" where
  "insn c t f v = \<lparr>bpf_code = c, bpf_jt = t, bpf_jf = f, bpf_k = v\<rparr>"

definition dns_bpf :: "sock_filter list" where
  "dns_bpf =
     [insn 0x28 0 0 0x0000000c, insn 0x15 0 8 0x00000800, insn 0x30 0 0 0x00000017, insn 0x15 0 6 0x00000011,
      insn 0x28 0 0 0x00000014, insn 0x45 4 0 0x00001fff, insn 0xb1 0 0 0x0000000e, insn 0x48 0 0 0x0000000e,
      insn 0x15 0 1 0x00000035, insn 0x6 0 0 0x00040000, insn 0x6 0 0 0x00000000]"

definition icmp_bpf :: "sock_filter list" where
  "icmp_bpf =
     [insn 0x28 0 0 0x0000000c, insn 0x15 0 3 0x00000800, insn 0x30 0 0 0x00000017, insn 0x15 0 1 0x00000001,
      insn 0x6 0 0 0x00040000, insn 0x6 0 0 0x00000000]"

definition sni_bpf :: "sock_filter list" where
  "sni_bpf =
     [insn 0x28 0 0 0x0000000c, insn 0x15 29 0 0x000086dd, insn 0x15 0 28 0x00000800, insn 0x30 0 0 0x00000017,
      insn 0x15 0 26 0x00000006, insn 0x28 0 0 0x00000014, insn 0x45 24 0 0x00001fff, insn 0xb1 0 0 0x0000000e,
      insn 0x48 0 0 0x0000000e, insn 0x15 4 0 0x000001bb, insn 0x15 3 0 0x00000355, insn 0x48 0 0 0x00000010,
      insn 0x15 1 0 0x000001bb, insn 0x15 0 17 0x00000355, insn 0x50 0 0 0x0000001a, insn 0x54 0 0 0x000000f0,
      insn 0x74 0 0 0x00000002, insn 0xc 0 0 0x00000000, insn 0x7 0 0 0x00000000, insn 0x50 0 0 0x0000000e,
      insn 0x15 0 10 0x00000016, insn 0xb1 0 0 0x0000000e, insn 0x50 0 0 0x0000001a, insn 0x54 0 0 0x000000f0,
      insn 0x74 0 0 0x00000002, insn 0x4 0 0 0x00000005, insn 0xc 0 0 0x00000000, insn 0x7 0 0 0x00000000,
      insn 0x50 0 0 0x0000000e, insn 0x15 0 1 0x00000001, insn 0x6 0 0 0x00040000, insn 0x6 0 0 0x00000000]"

text \<open>
  What the kernel documents of the instructions that are used: loads of a byte or of two bytes of the packet, at a fixed
  place or relative to the index register; the length of the IP header into the index register; arithmetic; jumps; and the
  end. A load past the end of the packet rejects it.
\<close>

definition load8 :: "u8 list \<Rightarrow> u32 \<Rightarrow> u32 option" where
  "load8 p i = (if unat i < length p then Some (ucast (p ! unat i)) else None)"

definition load16 :: "u8 list \<Rightarrow> u32 \<Rightarrow> u32 option" where
  "load16 p i =
     (if unat i + 1 < length p then Some (push_bit 8 (ucast (p ! unat i)) OR ucast (p ! (unat i + 1))) else None)"

locale packet_vm =
  fixes run :: "sock_filter list \<Rightarrow> u8 list \<Rightarrow> u32 \<Rightarrow> u32 \<Rightarrow> u32"
  assumes ldh_abs: "run (insn 0x28 t f v # is) p a x = (case load16 p v of None \<Rightarrow> 0 | Some b \<Rightarrow> run is p b x)"
    and ldb_abs: "run (insn 0x30 t f v # is) p a x = (case load8 p v of None \<Rightarrow> 0 | Some b \<Rightarrow> run is p b x)"
    and ldh_ind: "run (insn 0x48 t f v # is) p a x = (case load16 p (x + v) of None \<Rightarrow> 0 | Some b \<Rightarrow> run is p b x)"
    and ldb_ind: "run (insn 0x50 t f v # is) p a x = (case load8 p (x + v) of None \<Rightarrow> 0 | Some b \<Rightarrow> run is p b x)"
    and ldx_msh: "run (insn 0xb1 t f v # is) p a x = (case load8 p v of None \<Rightarrow> 0 | Some b \<Rightarrow> run is p a (4 * (b AND 0xf)))"
    and jeq: "run (insn 0x15 t f v # is) p a x = run (drop (unat (if a = v then t else f)) is) p a x"
    and jset: "run (insn 0x45 t f v # is) p a x = run (drop (unat (if a AND v \<noteq> 0 then t else f)) is) p a x"
    and and_k: "run (insn 0x54 t f v # is) p a x = run is p (a AND v) x"
    and rsh_k: "run (insn 0x74 t f v # is) p a x = run is p (drop_bit (unat v) a) x"
    and add_k: "run (insn 0x4 t f v # is) p a x = run is p (a + v) x"
    and add_x: "run (insn 0xc t f v # is) p a x = run is p (a + x) x"
    and tax: "run (insn 0x7 t f v # is) p a x = run is p a a"
    and ret: "run (insn 0x6 t f v # is) p a x = v"
begin

lemmas steps = ldh_abs ldb_abs ldh_ind ldb_ind ldx_msh jeq jset and_k rsh_k add_k add_x tax ret

end

text \<open>An interpreter with these laws.\<close>

function packet_run :: "sock_filter list \<Rightarrow> u8 list \<Rightarrow> u32 \<Rightarrow> u32 \<Rightarrow> u32" where
  "packet_run [] p a x = 0"
| "packet_run (i # is) p a x =
     (let c = bpf_code i; v = bpf_k i in
      if c = 0x28 then (case load16 p v of None \<Rightarrow> 0 | Some b \<Rightarrow> packet_run is p b x)
      else if c = 0x30 then (case load8 p v of None \<Rightarrow> 0 | Some b \<Rightarrow> packet_run is p b x)
      else if c = 0x48 then (case load16 p (x + v) of None \<Rightarrow> 0 | Some b \<Rightarrow> packet_run is p b x)
      else if c = 0x50 then (case load8 p (x + v) of None \<Rightarrow> 0 | Some b \<Rightarrow> packet_run is p b x)
      else if c = 0xb1 then (case load8 p v of None \<Rightarrow> 0 | Some b \<Rightarrow> packet_run is p a (4 * (b AND 0xf)))
      else if c = 0x15 then packet_run (drop (unat (if a = v then bpf_jt i else bpf_jf i)) is) p a x
      else if c = 0x45 then packet_run (drop (unat (if a AND v \<noteq> 0 then bpf_jt i else bpf_jf i)) is) p a x
      else if c = 0x54 then packet_run is p (a AND v) x
      else if c = 0x74 then packet_run is p (drop_bit (unat v) a) x
      else if c = 0x4 then packet_run is p (a + v) x
      else if c = 0xc then packet_run is p (a + x) x
      else if c = 0x7 then packet_run is p a a
      else if c = 0x6 then v
      else 0)"
  by pat_completeness auto
termination by (relation "measure (\<lambda>(is, _). length is)") auto

interpretation pr: packet_vm packet_run
  by unfold_locales (simp_all add: insn_def Let_def)

text \<open>The packets that the filters are meant for.\<close>

definition ipv4_unfragmented :: "u8 list \<Rightarrow> u32 \<Rightarrow> bool" where
  "ipv4_unfragmented p protocol \<longleftrightarrow>
     load16 p 12 = Some 0x800 \<and> load8 p 23 = Some protocol \<and> (case load16 p 20 of None \<Rightarrow> False | Some f \<Rightarrow> f AND 0x1fff = 0)"

definition dns_selected :: "u8 list \<Rightarrow> bool" where
  "dns_selected p \<longleftrightarrow>
     ipv4_unfragmented p 0x11 \<and> (case load8 p 14 of None \<Rightarrow> False | Some b \<Rightarrow> load16 p (4 * (b AND 0xf) + 14) = Some 53)"

text \<open>A TCP packet from or to the ports 443 and 853 whose payload starts a handshake with a client hello.\<close>

definition tls_port :: "u32 \<Rightarrow> bool" where
  "tls_port port \<longleftrightarrow> port = 443 \<or> port = 853"

definition payload :: "u8 list \<Rightarrow> u32 \<Rightarrow> u32 option" where
  "payload p x = map_option (\<lambda>b. drop_bit 2 (b AND 0xf0) + x) (load8 p (x + 26))"

definition client_hello :: "u8 list \<Rightarrow> u32 \<Rightarrow> bool" where
  "client_hello p x \<longleftrightarrow>
     (case load16 p (x + 14) of
        None \<Rightarrow> False
      | Some sport \<Rightarrow> tls_port sport \<or> (case load16 p (x + 16) of None \<Rightarrow> False | Some dport \<Rightarrow> tls_port dport)) \<and>
     (case payload p x of None \<Rightarrow> False | Some y \<Rightarrow> load8 p (y + 14) = Some 0x16 \<and> load8 p (y + 5 + 14) = Some 0x01)"

definition sni_selected :: "u8 list \<Rightarrow> bool" where
  "sni_selected p \<longleftrightarrow>
     ipv4_unfragmented p 6 \<and> (case load8 p 14 of None \<Rightarrow> False | Some b \<Rightarrow> client_hello p (4 * (b AND 0xf)))"

text \<open>
  The filters that the tracers attach select what they are documented to select: for every packet, the filter of
  \<open>fnettrace-dns\<close> accepts it exactly if it is an unfragmented IPv4 UDP packet from port 53, that of \<open>fnettrace-icmp\<close> exactly
  if it is an ICMP packet, and that of \<open>fnettrace-sni\<close> exactly if it is a TCP packet from or to port 443 or 853 whose
  payload starts a TLS handshake with a client hello.
\<close>

theorem socket_filters_select:
  assumes "packet_vm run"
  shows "run dns_bpf p a x = (if dns_selected p then 0x40000 else 0) \<and>
    run icmp_bpf p a x = (if load16 p 12 = Some 0x800 \<and> load8 p 23 = Some 1 then 0x40000 else 0) \<and>
    run sni_bpf p a x = (if sni_selected p then 0x40000 else 0)"
proof (intro conjI)
  note steps = packet_vm.steps [OF assms]
  show "run dns_bpf p a x = (if dns_selected p then 0x40000 else 0)"
    by (simp add: dns_bpf_def steps dns_selected_def ipv4_unfragmented_def split: option.splits)
  show "run icmp_bpf p a x = (if load16 p 12 = Some 0x800 \<and> load8 p 23 = Some 1 then 0x40000 else 0)"
    by (simp add: icmp_bpf_def steps split: option.splits)
  show "run sni_bpf p a x = (if sni_selected p then 0x40000 else 0)"
    by (simp add: sni_bpf_def steps sni_selected_def ipv4_unfragmented_def client_hello_def payload_def tls_port_def split: option.splits)
qed

theorem socket_filters_select_witness:
  "packet_vm packet_run \<and> packet_run dns_bpf (replicate 64 0) 0 0 = (if dns_selected (replicate 64 0) then 0x40000 else 0)"
  using socket_filters_select [OF pr.packet_vm_axioms, of "replicate 64 0" 0 0] pr.packet_vm_axioms by simp

text \<open>
  Whatever a packet of \<open>fnettrace-dns\<close> holds, no access leaves the array, if some byte of the rest of the array is zero; that
  byte ends the name of a query for the root domain.
\<close>

lemma dns_packet_safe:
  assumes "length buf = PACKET_BUF_SIZE" "0 \<in> set (drop 95 buf)"
  shows "\<exists>r. dns_packet nolocal stamp lastline buf bytes = Inr r"
proof (cases "14 + 20 + 8 \<le> bytes")
  case True
  have len: "length buf = 65536" using assms(1) by (simp add: PACKET_BUF_SIZE_def)
  let ?h = "unat (ip_hlen (buf ! 14))"
  have h: "?h \<le> 60" by (rule ip_hlen_bound)
  obtain port ip where g: "get16 buf (14 + ?h) = Inr port" "get32 buf (14 + 12) = Inr ip"
    using get16_in [of "14 + ?h" buf] get32_in [of "14 + 12" buf] h len by auto
  obtain r where "print_dns stamp lastline ip buf (14 + ?h + 8) = Inr r"
    using print_dns_bounds [OF assms(1) _ assms(2), where pkt = "14 + ?h + 8" and stamp = stamp and lastline = lastline and ip = ip] h by auto
  with True g len show ?thesis by (simp add: dns_packet_def get8_in Let_def)
qed (simp add: dns_packet_def)

theorem print_dns_name_witness:
  "print_dns ''12:00:00'' [] 0x08080808 ([] @ [0, 0, 0, 3, 0, 1, 0, 0, 0, 0, 0, 0] @ encode_name [[97], [98, 99]] @ 0 # 1 # []) 0 =
     Inr (filter_output (dns_line ''12:00:00'' 0x08080808 ''a.bc'' 1 True) [])"
proof -
  have d: "drop 1 (dotted [[97], [98, 99]]) = [97, 0x2E, 98, 99]" by (simp add: dotted_def)
  have "chars [97, 0x2E, 98, 99] = ''a.bc''" by code_simp
  moreover have "length (dotted [[97 :: u8], [98, 99]]) \<le> 254" by (simp add: dotted_def)
  moreover have "list_all label_ok [[97 :: u8], [98, 99]]" by (simp add: label_ok_def)
  ultimately show ?thesis
    using print_dns_name [where front = "[]" and pkt = "0" and header = "[0, 0, 0, 3, 0, 1, 0, 0, 0, 0, 0, 0]"
      and ls = "[[97], [98, 99]]" and stamp = "''12:00:00''" and lastline = "[]" and ip = "0x08080808"
      and ?t1.0 = "0" and ?t0.0 = "1" and rest = "[]"] d by simp
qed

definition short_buf :: "u8 list" where
  "short_buf = [0x16, 3, 1, 5, 5, 1] @ replicate 65530 0"

lemma short_buf_match: "sni_match short_buf p \<noteq> Inr (Some l)"
proof -
  have n: "short_buf ! i = 0" if "6 \<le> i" "i < 65536" for i using that by (simp add: short_buf_def nth_append)
  have l: "length short_buf = 65536" by (simp add: short_buf_def)
  consider "p \<in> {0, 1, 2, 3, 4, 5}" | "6 \<le> p" by fastforce
  then show ?thesis
  proof cases
    case 1
    have "short_buf ! q \<noteq> 0 \<and> q < length short_buf" if "q \<in> {0, 1, 2, 3, 4, 5}" for q
      using that by (auto simp: short_buf_def nth_append)
    then show ?thesis using 1 by (simp add: sni_match_def get8_in)
  next
    case 2
    then show ?thesis by (auto simp: sni_match_def get16_def get8_def l n split: if_splits)
  qed
qed

theorem print_tls_bounds_witness:
  "length short_buf = PACKET_BUF_SIZE \<and> print_tls ''12:00:00'' [] 0x08080808 short_buf 0 6 = Inl BufferOverflow"
proof -
  have l: "length short_buf = PACKET_BUF_SIZE" by (simp add: short_buf_def PACKET_BUF_SIZE_def)
  have "get8 short_buf 0 = Inr 0x16" "get8 short_buf (0 + 5) = Inr 0x01" by (simp_all add: get8_def short_buf_def nth_append)
  from print_tls_bounds [OF l this, where len = "6" and stamp = "''12:00:00''" and lastline = "[]" and ip = "0x08080808"] short_buf_match l show ?thesis by simp
qed

theorem print_tls_name_witness:
  "print_tls ''12:00:00'' [] 0x08080808 ([] @ [0x16, 3, 1, 5, 5, 1] @ sni_extension [97] @ 0 # []) 0 60 =
     Inr (filter_output (sni_line ''12:00:00'' 0x08080808 (chars [97])) [])"
proof -
  let ?buf = "[] @ [0x16, 3, 1, 5, 5, 1] @ sni_extension [97] @ 0 # []"
  have "sni_match ?buf p = Inr None" if "0 \<le> p \<and> p < 0 + length [0x16 :: u8, 3, 1, 5, 5, 1]" for p
  proof -
    from that have "p \<in> {0, 1, 2, 3, 4, 5}" by auto
    then have "p < length ?buf \<and> ?buf ! p \<noteq> 0" by (auto simp: sni_extension_def)
    then show ?thesis by (simp add: sni_match_def get8_in)
  qed
  then show ?thesis
    by (intro print_tls_name [where body = "[0x16, 3, 1, 5, 5, 1]" and front = "[]" and b = 0 and rest = "[]"]) simp_all
qed

end
