(* ===== verification/Fnettrace_Monitor.thy ===== *)
theory Fnettrace_Monitor
  imports Fnettrace_Hosts Fnettrace_Packets Util Env
begin

text \<open>
  The monitor of \<open>fnettrace\<close>: \<open>event.c\<close>, \<open>hostnames.c\<close> and the display and the main loop of \<open>main.c\<close>, on the storage of
  \<open>Fnettrace_Hosts\<close>.

  One round of the loop is \<open>trace_step\<close>; what \<open>select\<close> and the following reads give is its argument. The answers of
  \<open>geoiplookup\<close> are a parameter, which may depend on the number of calls so far.
\<close>

unbundle bit_operations_syntax

definition LINE_MAX :: nat where "LINE_MAX = 2048"
definition DISPLAY_INTERVAL :: u32 where "DISPLAY_INTERVAL = 2"
definition DISPLAY_BW_UNITS :: u32 where "DISPLAY_BW_UNITS = 20"
definition BWMAX_CNT :: nat where "BWMAX_CNT = 8"
definition PROTOCOL_ICMP :: int where "PROTOCOL_ICMP = 0"
definition PROTOCOL_SSH :: int where "PROTOCOL_SSH = -1"

text \<open>A C string in a buffer; a \<open>snprintf\<close> into an array; \<open>%10s\<close>.\<close>

definition c_string :: "string \<Rightarrow> string" where
  "c_string = takeWhile (\<lambda>c. c \<noteq> CHR 0x00)"

definition fmt_s_right :: "nat \<Rightarrow> string \<Rightarrow> string" where
  "fmt_s_right w s = replicate (w - length s) (CHR '' '') @ s"

definition escape_seq :: "string \<Rightarrow> string" where
  "escape_seq s = CHR 0x1B # s"

subsection \<open>Events\<close>

type_synonym ev_state = "string list \<times> int"

definition ev_clear :: "ev_state \<Rightarrow> ev_state" where
  "ev_clear ev = ([], 0)"

lemma cut_at_shorter: "cut_at c s = (l, Some r) \<Longrightarrow> length r < length s"
  by (induction s arbitrary: l r) (auto split: if_splits prod.splits intro: less_SucI)

function ev_add :: "string \<Rightarrow> ev_state \<Rightarrow> ev_state" where
  "ev_add str ev =
     (if str = [] then ev
      else case cut_at newline str of (line, rest) \<Rightarrow>
        if fst ev \<noteq> [] \<and> hd (fst ev) = line then ev
        else let ev = (fst ev @ [line], snd ev + 1) in
          case rest of None \<Rightarrow> ev | Some r \<Rightarrow> ev_add r ev)"
  by pat_completeness auto
termination
  by (relation "measure (\<lambda>(str, ev). length str)") (auto dest!: sym [of _ "cut_at _ _"] cut_at_shorter)

declare ev_add.simps [simp del]

definition ansi_red :: "string \<Rightarrow> string" where
  "ansi_red s = escape_seq ''[91m'' @ s @ escape_seq ''[0m''"

definition ansi_faint :: "string \<Rightarrow> string" where
  "ansi_faint s = escape_seq ''[2m'' @ s @ escape_seq ''[0m''"

definition ansi_clrscr :: string where
  "ansi_clrscr = escape_seq ''[1;1H'' @ escape_seq ''[0J''"

definition ev_print :: "bool \<Rightarrow> ev_state \<Rightarrow> string" where
  "ev_print to_stdout ev =
     concat (map (\<lambda>str. ''   '' @
       (if (strstr str ''NXDOMAIN'' \<noteq> None \<or> strstr str ''SSH connection'' \<noteq> None) \<and> to_stdout
        then ansi_red str else str) @ [newline]) (fst ev))"

subsection \<open>Names of hosts\<close>

text \<open>What \<open>access\<close> and \<open>popen\<close> say, with the output of the program.\<close>

datatype geo_answer = NoProgram | PopenFailed | Output string

record geo =
  geoip_calls :: int
  geoip_not_found :: bool
  geo_buf :: string

definition GEO_BUF :: nat where "GEO_BUF = 1024"

text \<open>\<open>fgets\<close> leaves the rest of the static buffer as it is.\<close>

definition geo_read :: "string \<Rightarrow> string \<Rightarrow> string" where
  "geo_read out buf =
     (let l = fgets_line GEO_BUF out; b = l @ CHR 0x00 # drop (length l + 1) buf in
      if newline \<in> set (c_string b) then b[length (takeWhile (\<lambda>c. c \<noteq> newline) b) := CHR 0x00] else b)"

definition geo_name :: "string \<Rightarrow> string option" where
  "geo_name b =
     (if take 22 b = ''GeoIP Country Edition:'' \<and> take 1 (drop 22 b) = '' '' \<and> take 2 (drop 25 b) = '', ''
      then Some (let rv = c_string (drop 27 b) in if rv = ''United States'' then ''US'' else rv)
      else None)"

definition retrieve_hostname :: "(int \<Rightarrow> u32 \<Rightarrow> geo_answer) \<Rightarrow> u32 \<Rightarrow> geo \<Rightarrow> string option \<times> geo" where
  "retrieve_hostname geoip ip g =
     (if geoip_not_found g then (None, g)
      else case geoip (geoip_calls g) ip of
        NoProgram \<Rightarrow> (None, g\<lparr>geoip_not_found := True\<rparr>)
      | PopenFailed \<Rightarrow> (None, g\<lparr>geoip_calls := geoip_calls g + 1, geoip_not_found := True\<rparr>)
      | Output out \<Rightarrow>
          let g = g\<lparr>geoip_calls := geoip_calls g + 1\<rparr> in
          if fgets_line GEO_BUF out = [] then (None, g)
          else let b = geo_read out (geo_buf g) in (geo_name b, g\<lparr>geo_buf := b\<rparr>))"

definition hostnames_line :: "string \<Rightarrow> radix \<Rightarrow> radix result" where
  "hostnames_line buf r =
     (let start = dropWhile is_blank buf in
      if start \<noteq> [] \<and> hd start = CHR ''#'' then Inr r
      else let start = fst (cut_at newline (fst (cut_at (CHR ''#'') start))) in
        if start = [] then Inr r
        else case cut_at (CHR '' '') start of
          (_, None) \<Rightarrow> Inl (Exited ''invalid line'')
        | (addr, Some name) \<Rightarrow>
            if name = [] then Inl (Exited ''invalid line'')
            else case atocidr addr of
              None \<Rightarrow> Inl (Exited ''invalid line'')
            | Some (ip, msk) \<Rightarrow> Inr (fst (radix_add ip msk (Some name) r)))"

definition load_hostnames :: "string option \<Rightarrow> radix \<Rightarrow> radix result" where
  "load_hostnames content r =
     (case content of None \<Rightarrow> Inr r | Some s \<Rightarrow> fold_result hostnames_line (fgets_lines GEO_BUF s) r)"

subsection \<open>The display\<close>

record stats =
  stats_pkts :: u32
  stats_icmp_echo :: u32
  stats_dns :: u32
  stats_dns_dot :: u32
  stats_dns_doh :: u32
  stats_dns_doq :: u32
  stats_tls :: u32
  stats_quic :: u32
  stats_tor :: u32
  stats_http :: u32
  stats_ssh :: u32

definition clear_stats :: stats where
  "clear_stats = \<lparr>stats_pkts = 0, stats_icmp_echo = 0, stats_dns = 0, stats_dns_dot = 0, stats_dns_doh = 0, stats_dns_doq = 0,
     stats_tls = 0, stats_quic = 0, stats_tor = 0, stats_http = 0, stats_ssh = 0\<rparr>"

definition print_bw :: "u32 \<Rightarrow> string" where
  "print_bw units =
     (let units = (if DISPLAY_BW_UNITS < units then DISPLAY_BW_UNITS else units) in
      map (\<lambda>i. if i < unat units then CHR ''*'' else CHR '' '') [0..<unat DISPLAY_BW_UNITS] @ '' '')"

text \<open>\<open>snprintf(line, LINE_MAX, ...)\<close> with its result, then \<open>adjust_line\<close>.\<close>

definition adjust_line :: "string \<Rightarrow> nat \<Rightarrow> nat \<Rightarrow> string" where
  "adjust_line str len cols =
     (let len = (if LINE_MAX < len then LINE_MAX else len) in
      if 4 < cols \<and> cols < len then take cols (str[cols - 1 := newline]) else str)"

definition display_line :: "nat \<Rightarrow> string \<Rightarrow> string" where
  "display_line cols txtline = adjust_line (take (LINE_MAX - 1) txtline) (length txtline) cols"

text \<open>The static array of \<open>adjust_bandwidth\<close> and its index.\<close>

definition adjust_bandwidth :: "u32 \<Rightarrow> u32 list \<times> nat \<Rightarrow> u32 \<times> u32 list \<times> nat" where
  "adjust_bandwidth bw hist =
     (let arr = (fst hist)[snd hist := bw];
          sm = fold (\<lambda>x s. s + x) arr 0 div of_nat BWMAX_CNT;
          mx = fold (\<lambda>x m. if m > x then m else x) arr 0;
          inst = snd hist + 1
      in (if mx < sm div 2 then sm else mx, arr, if BWMAX_CNT \<le> inst then 0 else inst))"

definition ports :: "(u16 \<times> string) list" where
  "ports = [(20, ''FTP''), (21, ''FTP''), (22, ''SSH''), (23, ''telnet''), (25, ''SMTP''), (43, ''WHOIS''), (67, ''DHCP''),
     (68, ''DHCP''), (69, ''TFTP''), (80, ''HTTP''), (109, ''POP2''), (110, ''POP3''), (113, ''IRC''), (123, ''NTP''),
     (161, ''SNMP''), (162, ''SNMP''), (194, ''IRC'')]"

definition common_port :: "u16 \<Rightarrow> string option" where
  "common_port port =
     (if 6660 \<le> port \<and> port \<le> 10162
      then (if 6660 \<le> port \<and> port \<le> 6669 then Some ''IRC''
            else if port = 6679 then Some ''IRC''
            else if port = 6771 then Some ''BitTorrent''
            else if 6881 \<le> port \<and> port \<le> 6999 then Some ''BitTorrent''
            else if port = 9001 \<or> port = 9030 \<or> port = 9040 \<or> port = 9050 \<or> port = 9051 \<or> port = 9150 then Some ''Tor''
            else if port = 10161 \<or> port = 10162 then Some ''secure SNMP''
            else None)
      else if port \<le> 194 then map_of ports port
      else None)"

definition is_dns_name :: "string \<Rightarrow> bool" where
  "is_dns_name name \<longleftrightarrow> strstr name ''DNS'' \<noteq> None"

text \<open>The protocol that is shown, and the packets that are counted for it.\<close>

definition show_protocol :: "u16 \<Rightarrow> int \<Rightarrow> u32 \<Rightarrow> string \<Rightarrow> stats \<Rightarrow> string \<times> stats" where
  "show_protocol port proto n name st =
     (if port = 443 \<and> proto = 0x06
      then let st = st\<lparr>stats_tls := stats_tls st + n\<rparr> in
        if is_dns_name name then (''DoH'', st\<lparr>stats_dns_doh := stats_dns_doh st + n\<rparr>) else (''TLS'', st)
      else if port = 443 \<and> proto = 0x11
      then let st = st\<lparr>stats_quic := stats_quic st + n\<rparr> in
        if is_dns_name name then (''DoQ'', st\<lparr>stats_dns_doq := stats_dns_doq st + n\<rparr>) else (''QUIC'', st)
      else if port = 53 then (''DNS'', st\<lparr>stats_dns := stats_dns st + n\<rparr>)
      else if port = 853
      then (if proto = 0x06 then (''DoT'', st\<lparr>stats_dns_dot := stats_dns_dot st + n\<rparr>)
            else if proto = 0x11 then (''DoQ'', st\<lparr>stats_dns_doq := stats_dns_doq st + n\<rparr>)
            else ('''', st))
      else case common_port port of
        Some protocol \<Rightarrow>
          (protocol,
           if protocol = ''HTTP'' then st\<lparr>stats_http := stats_http st + n\<rparr>
           else if protocol = ''Tor'' then st\<lparr>stats_tor := stats_tor st + n\<rparr>
           else if protocol = ''SSH'' then st\<lparr>stats_ssh := stats_ssh st + n\<rparr>
           else st)
      | None \<Rightarrow>
          if proto = 0x11 then (''UDP'', st)
          else if proto = 0x06 then (''TCP'', st)
          else if proto = PROTOCOL_SSH then (''SSH'', st\<lparr>stats_ssh := stats_ssh st + n\<rparr>)
          else ('''', st))"

definition show_bytes :: "u32 \<Rightarrow> string" where
  "show_bytes n =
     take 10
       (if DISPLAY_INTERVAL * 1024 * 1024 * 2 < n then fmt_u (unat (n div (DISPLAY_INTERVAL * 1024 * 1024))) @ '' MB/s''
        else if DISPLAY_INTERVAL * 1024 * 2 < n then fmt_u (unat (n div (DISPLAY_INTERVAL * 1024))) @ '' KB/s''
        else fmt_u (unat (n div DISPLAY_INTERVAL)) @ '' B/s '')"

definition show_flow :: "u32 \<Rightarrow> hnode \<Rightarrow> string \<Rightarrow> string \<Rightarrow> string" where
  "show_flow bw x protocol name =
     (let bwunit = bw div DISPLAY_BW_UNITS;
          bwline = (if bwunit = 0 then print_bw 0 else print_bw (h_bytes x div bwunit))
      in fmt_s_right 10 (show_bytes (h_bytes x)) @ '' '' @ bwline @ '' '' @ print_ip (h_ip_src x) @
         (if uint (h_port_src x) = PROTOCOL_ICMP then '' (ICMP) '' @ name
          else '':'' @ fmt_u (unat (h_port_src x)) @ '' ('' @ protocol @ '') '' @ name) @ [newline])"

definition give_name :: "string \<Rightarrow> rnode \<Rightarrow> rnode" where
  "give_name name t = RNode (rzero t) (rone t) (Some name) (rpkts t)"

text \<open>The name of the entry of the prefix tree, looked up if it has none.\<close>

definition fill_name :: "(int \<Rightarrow> u32 \<Rightarrow> geo_answer) \<Rightarrow> u32 \<Rightarrow> bool list \<Rightarrow> radix \<Rightarrow> geo \<Rightarrow> string \<times> radix \<times> geo" where
  "fill_name geoip ip p r g =
     (case names_of r p of
        Some name \<Rightarrow> (name, r, g)
      | None \<Rightarrow>
          case retrieve_hostname geoip ip g of (v, g) \<Rightarrow>
            let name = (case v of Some name \<Rightarrow> name | None \<Rightarrow> '' '') in
            (name, at_rnode p (give_name name) r, g))"

record display =
  ds_hosts :: hosts
  ds_stats :: stats
  ds_geo :: geo
  ds_out :: "string list"

text \<open>A flow that stays: the line and the changes of its node.\<close>

definition show_step :: "(int \<Rightarrow> u32 \<Rightarrow> geo_answer) \<Rightarrow> u32 \<Rightarrow> nat \<Rightarrow> addr \<Rightarrow> display \<Rightarrow> display result" where
  "show_step geoip bw cols a d =
     (let s = ds_hosts d; x = heap s a in
      case h_rnode x of
        None \<Rightarrow> null_pointer
      | Some p \<Rightarrow>
          case fill_name geoip (h_ip_src x) p (radix_tree s) (ds_geo d) of (name, r, g) \<Rightarrow>
          case show_protocol (h_port_src x) (h_protocol x) (h_pkts x) name (ds_stats d) of (protocol, st) \<Rightarrow>
            Inr \<lparr>ds_hosts = (set_node a (\<lambda>x. x\<lparr>h_ttl := if h_bytes x \<noteq> 0 then DISPLAY_TTL else h_ttl x, h_bytes := 0, h_pkts := 0\<rparr>) s)
                   \<lparr>radix_tree := r\<rparr>,
                 ds_stats = st, ds_geo = g, ds_out = ds_out d @ [display_line cols (show_flow bw x protocol name)]\<rparr>)"

partial_function (option) print_loop ::
    "(int \<Rightarrow> u32 \<Rightarrow> geo_answer) \<Rightarrow> u32 \<Rightarrow> nat \<Rightarrow> addr option \<Rightarrow> addr option \<Rightarrow> display \<Rightarrow> display result option" where
  "print_loop geoip bw cols prev ptr d =
     (case ptr of
        None \<Rightarrow> Some (Inr d)
      | Some a \<Rightarrow>
          let nxt = dnext (heap (ds_hosts d) a);
              d = d\<lparr>ds_hosts := set_node a (\<lambda>x. x\<lparr>h_ttl := h_ttl x - 1\<rparr>) (ds_hosts d)\<rparr>
          in if 0 < h_ttl (heap (ds_hosts d) a)
             then (case show_step geoip bw cols a d of
                     Inl e \<Rightarrow> Some (Inl e)
                   | Inr d \<Rightarrow> print_loop geoip bw cols (Some a) nxt d)
             else (case dlist_drop prev a (ds_hosts d) of
                     None \<Rightarrow> None
                   | Some (Inl e) \<Rightarrow> Some (Inl e)
                   | Some (Inr s) \<Rightarrow> print_loop geoip bw cols prev nxt (d\<lparr>ds_hosts := s\<rparr>)))"

definition stats_line :: "u32 \<Rightarrow> string" where
  "stats_line bw =
     fmt_s_right 32
       (if 1024 * 1024 * DISPLAY_INTERVAL < bw then fmt_u (unat (bw div (1024 * 1024 * DISPLAY_INTERVAL))) @ '' MB/s ''
        else fmt_u (unat (bw div (1024 * DISPLAY_INTERVAL))) @ '' KB/s '') @
     '' '' @ escape_seq ''[2m'' @ ''address:port (protocol) network'' @ escape_seq ''[0m'' @ [newline]"

text \<open>\<open>cols\<close> is the width of the terminal, 80 if it is unknown.\<close>

definition hnode_print ::
    "(int \<Rightarrow> u32 \<Rightarrow> geo_answer) \<Rightarrow> nat \<Rightarrow> u32 \<Rightarrow> u32 list \<times> nat \<Rightarrow> display \<Rightarrow> ((u32 list \<times> nat) \<times> display) result option" where
  "hnode_print geoip cols bw hist d =
     (let bw = (if bw < 1024 * DISPLAY_INTERVAL then 1024 * DISPLAY_INTERVAL else bw);
          cols = (if LINE_MAX < cols then LINE_MAX else cols)
      in case adjust_bandwidth bw hist of (bw, hist) \<Rightarrow>
         map_option (\<lambda>r. bind_result r (\<lambda>d.
             Inr (hist, d\<lparr>ds_out := ds_out d @ [ansi_faint (''(D)isplay, (S)ave, (C)lear, e(X)it'' @ [newline])]\<rparr>)))
           (print_loop geoip bw cols None (dlist (ds_hosts d))
             (d\<lparr>ds_out := ds_out d @ [ansi_clrscr, display_line cols (stats_line bw)]\<rparr>)))"

subsection \<open>The main loop\<close>

record monitor = display +
  m_hist :: "u32 list \<times> nat"
  m_events :: ev_state
  m_p1 :: bool
  m_p2 :: bool
  m_bw :: u32
  m_last :: u32
  m_files :: "(string \<times> string) list"
  m_running :: bool

text \<open>
  What is ready, in the order in which the loop looks: a key with the line that is typed after it and whether the file of that
  name can be opened; the output of a helper, as the local buffer after \<open>read\<close> with the number of bytes; a packet, as the
  receive buffer with the result of \<open>recvfrom\<close>.
\<close>

datatype ready =
    Timeout
  | Key "char option" "string option" bool
  | Sni string nat
  | Dns string nat
  | Udp "u8 list" u32
  | Icmp "u8 list" u32
  | Tcp "u8 list" u32

definition print_stats :: "bool \<Rightarrow> monitor \<Rightarrow> string result" where
  "print_stats to_stdout m =
     (let st = ds_stats m; n = (\<lambda>w. fmt_u (unat (w :: u32))); hint = (\<lambda>t. if to_stdout then ansi_faint t else t) in
      bind_result (radix_print True (radix_tree (ds_hosts m))) (\<lambda>ipmap.
        Inr (''Stats: '' @ n (stats_pkts st) @ '' packets'' @ [newline] @
             ''   encrypted: TLS '' @ n (stats_tls st) @ '', QUIC '' @ n (stats_quic st) @ '', Tor '' @ n (stats_tor st) @ [newline] @
             ''   unencrypted: HTTP '' @ n (stats_http st) @ [newline] @
             ''   C&C backchannel: SSH '' @ n (stats_ssh st) @ '', PING '' @ n (stats_icmp_echo st) @ '', DNS '' @ n (stats_dns st) @
               '', DoH '' @ n (stats_dns_doh st) @ '', DoT '' @ n (stats_dns_dot st) @ '', DoQ '' @ n (stats_dns_doq st) @ [newline] @
             [newline, newline] @ ''IP map'' @ hint (''  - network (packets)'' @ [newline]) @ ipmap @
             [newline, newline] @ ''Events '' @ fmt_d (snd (m_events m)) @ hint ('' - time address data'' @ [newline]) @
             ev_print to_stdout (m_events m))))"

definition to_screen :: "string \<Rightarrow> monitor \<Rightarrow> monitor" where
  "to_screen s m = m\<lparr>ds_out := ds_out m @ [s]\<rparr>"

definition save_stats :: "string option \<Rightarrow> bool \<Rightarrow> monitor \<Rightarrow> monitor result" where
  "save_stats typed opened m =
     (let m = to_screen ''The file is saved in /tmp directory. Please enter the file name: '' m in
      case typed of
        None \<Rightarrow> Inl (ErrExit ''fgets'')
      | Some t \<Rightarrow>
          case cut_at newline (''/tmp/'' @ c_string (fgets_line LINE_MAX t)) of
            (_, None) \<Rightarrow> Inr (to_screen (''Error: invalid file name'' @ [newline]) m)
          | (fname, Some _) \<Rightarrow>
              if \<not> opened then Inr (to_screen (''Error: cannot open file '' @ fname @ [newline]) m)
              else bind_result (print_stats False m) (\<lambda>txt.
                Inr (to_screen (''Saving stats in '' @ fname @ '' file...'' @ [newline]) (m\<lparr>m_files := m_files m @ [(fname, txt)]\<rparr>))))"

definition ansi_bold :: "string \<Rightarrow> string" where
  "ansi_bold s = escape_seq ''[1m'' @ s @ escape_seq ''[0m''"

definition separator :: string where
  "separator = replicate 74 (CHR ''_'') @ [newline]"

definition key_step :: "char option \<Rightarrow> string option \<Rightarrow> bool \<Rightarrow> monitor \<Rightarrow> monitor result" where
  "key_step c typed opened m =
     (if c = Some (CHR ''c'') \<or> c = Some (CHR ''C'')
      then Inr (m\<lparr>ds_stats := clear_stats, m_events := ev_clear (m_events m),
                  ds_hosts := (ds_hosts m)\<lparr>radix_tree := radix_clear_data (radix_tree (ds_hosts m))\<rparr>\<rparr>)
      else if c = Some (CHR ''d'') \<or> c = Some (CHR ''D'')
      then bind_result (print_stats True m) (\<lambda>txt.
        Inr (to_screen ([newline, newline] @ ansi_bold separator @ txt @ ansi_bold separator @ ansi_faint ''press any key to continue...'') m))
      else if c = Some (CHR ''s'') \<or> c = Some (CHR ''S'') then save_stats typed opened m
      else if c = Some (CHR ''x'') \<or> c = Some (CHR ''X'') then Inr (m\<lparr>m_running := False\<rparr>)
      else Inr m)"

text \<open>The output of a helper; the rest of the local buffer is compared, too, when fewer bytes were read.\<close>

definition helper_events :: "string \<Rightarrow> string \<Rightarrow> nat \<Rightarrow> ev_state \<Rightarrow> ev_state" where
  "helper_events hello buf sz ev = (if take 9 buf = hello then ev else ev_add (c_string (take sz buf)) ev)"

text \<open>The flow that a packet belongs to, and whether it starts an SSH connection.\<close>

definition packet_flow :: "bool \<Rightarrow> u8 list \<Rightarrow> (u32 \<times> int \<times> u16 \<times> bool) result" where
  "packet_flow icmp buf =
     bind_result (get32 buf 12) (\<lambda>ip.
     if icmp then Inr (ip, PROTOCOL_ICMP, 0, False)
     else bind_result (get8 buf 0) (\<lambda>b0.
       let hlen = unat (ip_hlen b0) in
       bind_result (get16 buf hlen) (\<lambda>port.
       bind_result (get8 buf 9) (\<lambda>proto.
         if proto = 6
         then bind_result (get8 buf (hlen + 12)) (\<lambda>dataoffset.
           let q = hlen + unat (drop_bit 2 dataoffset) in
           if length buf < q + 4 then Inl BufferOverflow
           else let ssh = take 4 (drop q buf) = [0x53, 0x53, 0x48, 0x2D] in
             Inr (ip, if ssh then PROTOCOL_SSH else 6, port, ssh))
         else Inr (ip, uint proto, port, False)))))"

definition ssh_event :: "string \<Rightarrow> u32 \<Rightarrow> string" where
  "ssh_event stamp ip = stamp @ ''  '' @ fmt_s_left 15 (print_ip ip) @ ''  SSH connection''"

definition icmp_echo :: "u8 list \<Rightarrow> bool result" where
  "icmp_echo buf =
     bind_result (get8 buf 0) (\<lambda>b0. bind_result (get8 buf (unat (ip_hlen b0))) (\<lambda>t. Inr (t = 0 \<or> t = 8)))"

definition packet_step :: "string \<Rightarrow> bool \<Rightarrow> u8 list \<Rightarrow> u32 \<Rightarrow> monitor \<Rightarrow> monitor result option" where
  "packet_step stamp icmp buf sz m =
     (if sz < 20 then Some (Inr m)
      else case (get8 buf 12, get8 buf 16) of
        (Inr src, Inr dst) \<Rightarrow>
          if src = 127 \<or> dst = 127 then Some (Inr m)
          else (case packet_flow icmp buf of
            Inl e \<Rightarrow> Some (Inl e)
          | Inr (ip, proto, port, ssh) \<Rightarrow>
              let m = m\<lparr>m_bw := m_bw m + sz + 14, m_events := if ssh then ev_add (ssh_event stamp ip) (m_events m) else m_events m\<rparr> in
              map_option (\<lambda>r. bind_result r (\<lambda>s. bind_result (if icmp then icmp_echo buf else Inr False) (\<lambda>echo.
                  let st = (ds_stats m)\<lparr>stats_pkts := stats_pkts (ds_stats m) + 1\<rparr> in
                  Inr (m\<lparr>ds_hosts := s, ds_stats := if echo then st\<lparr>stats_icmp_echo := stats_icmp_echo st + 1\<rparr> else st\<rparr>))))
                (hnode_add ip proto port (sz + 14) (ds_hosts m)))
      | _ \<Rightarrow> Some (Inl BufferOverflow))"

text \<open>
  \<open>FD_ISSET\<close> of the descriptor of a helper that is not there, -1: the program is built with \<open>_FORTIFY_SOURCE\<close>, whose check of
  the index aborts it.
\<close>

definition helper_set :: "bool \<Rightarrow> 'a result option \<Rightarrow> 'a result option" where
  "helper_set there k = (if there then k else Some (Inl BufferOverflow))"

definition ready_step :: "string \<Rightarrow> ready \<Rightarrow> monitor \<Rightarrow> monitor result option" where
  "ready_step stamp rdy m =
     (case rdy of
        Timeout \<Rightarrow> Some (Inr m)
      | Key c typed opened \<Rightarrow> Some (key_step c typed opened m)
      | Sni buf sz \<Rightarrow>
          helper_set (m_p1 m) (Some (Inr (m\<lparr>m_p1 := sz \<noteq> 0, m_events := helper_events ''SNI trace'' buf sz (m_events m)\<rparr>)))
      | Dns buf sz \<Rightarrow>
          helper_set (m_p1 m) (helper_set (m_p2 m)
            (Some (Inr (m\<lparr>m_p2 := sz \<noteq> 0, m_events := helper_events ''DNS trace'' buf sz (m_events m)\<rparr>))))
      | Udp buf sz \<Rightarrow> helper_set (m_p1 m) (helper_set (m_p2 m) (packet_step stamp False buf sz m))
      | Icmp buf sz \<Rightarrow> helper_set (m_p1 m) (helper_set (m_p2 m) (packet_step stamp True buf sz m))
      | Tcp buf sz \<Rightarrow> helper_set (m_p1 m) (helper_set (m_p2 m) (packet_step stamp False buf sz m)))"

text \<open>One round: \<open>now\<close> is the time, \<open>stamp\<close> its text.\<close>

definition trace_step :: "(int \<Rightarrow> u32 \<Rightarrow> geo_answer) \<Rightarrow> nat \<Rightarrow> u32 \<times> string \<times> ready \<Rightarrow> monitor \<Rightarrow> monitor result option" where
  "trace_step geoip cols inp m =
     (case inp of (now, stamp, rdy) \<Rightarrow>
      if now mod DISPLAY_INTERVAL = 1 \<and> m_last m \<noteq> now
      then (case hnode_print geoip cols (m_bw m) (m_hist m) (display.truncate m) of
              None \<Rightarrow> None
            | Some (Inl e) \<Rightarrow> Some (Inl e)
            | Some (Inr (hist, d)) \<Rightarrow>
                ready_step stamp rdy
                  (display.extend d (monitor.fields hist (m_events m) (m_p1 m) (m_p2 m) 0 now (m_files m) (m_running m))))
      else ready_step stamp rdy m)"

fun run_trace :: "(int \<Rightarrow> u32 \<Rightarrow> geo_answer) \<Rightarrow> nat \<Rightarrow> (u32 \<times> string \<times> ready) list \<Rightarrow> monitor \<Rightarrow> monitor result option" where
  "run_trace geoip cols [] m = Some (Inr m)"
| "run_trace geoip cols (inp # inps) m =
     (if \<not> m_running m then Some (Inr m)
      else case trace_step geoip cols inp m of
        None \<Rightarrow> None
      | Some (Inl e) \<Rightarrow> Some (Inl e)
      | Some (Inr m) \<Rightarrow> run_trace geoip cols inps m)"

text \<open>The state after the names are loaded and the helpers are started.\<close>

definition start_monitor :: "bool \<Rightarrow> bool \<Rightarrow> radix \<Rightarrow> monitor" where
  "start_monitor p1 p2 r =
     \<lparr>ds_hosts = \<lparr>heap = (\<lambda>_. zero_node), fresh = 0, htable = (\<lambda>_. None), dlist = None, hnode_unused = None, radix_tree = r\<rparr>,
      ds_stats = clear_stats, ds_geo = \<lparr>geoip_calls = 0, geoip_not_found = False, geo_buf = replicate GEO_BUF (CHR 0x00)\<rparr>,
      ds_out = [], m_hist = (replicate BWMAX_CNT 0, 0), m_events = ([], 0), m_p1 = p1, m_p2 = p2, m_bw = 0, m_last = 0,
      m_files = [], m_running = True\<rparr>"

subsection \<open>The prefix tree stays printable\<close>

definition radix_ok :: "radix \<Rightarrow> bool" where
  "radix_ok r \<longleftrightarrow> height (rx_head r) \<le> 33"

lemma update_height:
  assumes "keeps_children f" "node_at t p \<noteq> Null"
  shows "height (update_at p f t) = height t"
  using assms(2)
proof (induction p arbitrary: t)
  case Nil
  then have "t \<noteq> Null" "f t \<noteq> Null" using assms(1) by (auto simp: keeps_children_def)
  then show ?case using assms(1) by (simp add: height_node keeps_children_def)
next
  case (Cons b p)
  then have "t \<noteq> Null" by (cases b) auto
  with Cons show ?case by (cases t) (auto simp: set_one_def set_zero_def)
qed

lemma radix_ok_print:
  assumes "radix_ok r"
  shows "\<exists>text. radix_print with_pkts r = Inr text"
proof (cases "rx_head r")
  case (RNode z one n p)
  have "snd (print_tree z 1 with_pkts (word_of_nat 0)) = word_of_nat 0"
    "snd (print_tree one 1 with_pkts (word_of_nat 1)) = word_of_nat 1"
    using assms RNode by (intro print_tree_sum; simp add: radix_ok_def)+
  then show ?thesis using RNode by (simp add: radix_print_def case_prod_beta)
qed (simp add: radix_print_def)

lemma keeps_give_name: "keeps_children (give_name name)"
  by (simp add: keeps_children_def give_name_def)

lemma at_rnode_ok:
  assumes "keeps_children f" "node_at (rx_head r) p \<noteq> Null"
  shows "radix_ok (at_rnode p f r) = radix_ok r" "node_at (rx_head r) q \<noteq> Null \<Longrightarrow> node_at (rx_head (at_rnode p f r)) q \<noteq> Null"
  using assms by (simp_all add: radix_ok_def at_rnode_def update_height keeps_nodes)

lemma fill_name_ok:
  assumes "fill_name geoip ip p r g = (name, r', g')" "node_at (rx_head r) p \<noteq> Null" "radix_ok r"
  shows "radix_ok r' \<and> (\<forall>q. node_at (rx_head r) q \<noteq> Null \<longrightarrow> node_at (rx_head r') q \<noteq> Null)"
  using assms at_rnode_ok [OF keeps_give_name assms(2)]
  by (auto simp: fill_name_def Let_def split: option.splits prod.splits)

lemma find_rnode_radix_ok: "find_rnode ip r = (p, r') \<Longrightarrow> radix_ok r \<Longrightarrow> radix_ok r'"
  using radix_add_height [of r ip "0xffffffff" None]
  by (auto simp: find_rnode_def radix_ok_def split: option.splits prod.splits)

lemma clear_data_height: "height (clear_data t) = height t"
  by (induction t) auto

lemma clear_data_node: "node_at (clear_data t) p \<noteq> Null \<longleftrightarrow> node_at t p \<noteq> Null"
proof (induction p arbitrary: t)
  case Nil
  then show ?case by (cases t) auto
next
  case (Cons b p)
  then show ?case by (cases t) auto
qed

lemma radix_clear_ok: "radix_ok (radix_clear_data r) = radix_ok r"
  by (cases "rx_head r") (simp_all add: radix_ok_def radix_clear_data_def clear_data_height)

lemma radix_clear_node: "node_at (rx_head (radix_clear_data r)) p \<noteq> Null \<longleftrightarrow> node_at (rx_head r) p \<noteq> Null"
proof (cases "rx_head r")
  case (RNode z one n k)
  then show ?thesis using clear_data_node by (cases p) (auto simp: radix_clear_data_def)
qed (simp add: radix_clear_data_def)

subsection \<open>The traffic on display\<close>

text \<open>The specification: per flow, its bytes and packets since the last display and the displays it has left.\<close>

type_synonym traffic = "(u32 \<times> int \<times> u16) \<times> u32 \<times> u32 \<times> int"

definition traffic_of :: "hnode \<Rightarrow> traffic" where
  "traffic_of x = (flow_key x, h_bytes x, h_pkts x, h_ttl x)"

definition spec_packet :: "u32 \<times> int \<times> u16 \<Rightarrow> u32 \<Rightarrow> traffic list \<Rightarrow> traffic list" where
  "spec_packet k n ts =
     (if k \<in> fst ` set ts then map (\<lambda>(k', b, p, t). if k' = k then (k', b + n, p + 1, t) else (k', b, p, t)) ts
      else ts @ [(k, n, 1, DISPLAY_TTL)])"

definition spec_age :: "traffic list \<Rightarrow> traffic list" where
  "spec_age ts = map (\<lambda>(k, b, p, t). (k, 0, 0, if b \<noteq> 0 then DISPLAY_TTL else t - 1)) (filter (\<lambda>(k, b, p, t). 1 < t) ts)"

definition spec_received :: "bool \<Rightarrow> u8 list \<Rightarrow> u32 \<Rightarrow> traffic list \<Rightarrow> traffic list" where
  "spec_received icmp buf sz ts =
     (if sz < 20 \<or> buf ! 12 = 127 \<or> buf ! 16 = 127 then ts
      else case packet_flow icmp buf of Inl _ \<Rightarrow> ts | Inr (ip, proto, port, _) \<Rightarrow> spec_packet (ip, proto, port) (sz + 14) ts)"

fun spec_ready :: "ready \<Rightarrow> traffic list \<Rightarrow> traffic list" where
  "spec_ready (Udp buf sz) ts = spec_received False buf sz ts"
| "spec_ready (Tcp buf sz) ts = spec_received False buf sz ts"
| "spec_ready (Icmp buf sz) ts = spec_received True buf sz ts"
| "spec_ready _ ts = ts"

fun stops :: "ready \<Rightarrow> bool" where
  "stops (Key c _ _) \<longleftrightarrow> c = Some (CHR ''x'') \<or> c = Some (CHR ''X'')"
| "stops _ \<longleftrightarrow> False"

fun spec_run :: "(u32 \<times> string \<times> ready) list \<Rightarrow> u32 \<Rightarrow> traffic list \<Rightarrow> traffic list" where
  "spec_run [] seen ts = ts"
| "spec_run ((now, _, rdy) # inps) seen ts =
     (let due = (now mod DISPLAY_INTERVAL = 1 \<and> seen \<noteq> now);
          ts = spec_ready rdy (if due then spec_age ts else ts)
      in if stops rdy then ts else spec_run inps (if due then now else seen) ts)"

text \<open>What the theorem asks of the environment: the helpers live, the buffer is the array, and a typed line can be read.\<close>

fun input_ok :: "ready \<Rightarrow> bool" where
  "input_ok (Sni buf sz) \<longleftrightarrow> sz \<noteq> 0"
| "input_ok (Dns buf sz) \<longleftrightarrow> sz \<noteq> 0"
| "input_ok (Udp buf sz) \<longleftrightarrow> length buf = PACKET_BUF_SIZE"
| "input_ok (Tcp buf sz) \<longleftrightarrow> length buf = PACKET_BUF_SIZE"
| "input_ok (Icmp buf sz) \<longleftrightarrow> length buf = PACKET_BUF_SIZE"
| "input_ok (Key c typed opened) \<longleftrightarrow> typed \<noteq> None"
| "input_ok Timeout \<longleftrightarrow> True"

lemma traffic_of_flow [simp]: "traffic_of (flow_of x) = traffic_of x"
  by (simp add: traffic_of_def)

lemma add_flow_traffic:
  assumes "add_flow ip proto port n (fs, r) = (fs', r')"
  shows "map traffic_of fs' = spec_packet (ip, proto, port) n (map traffic_of fs)"
proof (cases "find (\<lambda>f. flow_key f = (ip, proto, port)) fs")
  case None
  then have "(ip, proto, port) \<notin> fst ` set (map traffic_of fs)" by (auto simp: find_None_iff traffic_of_def)
  moreover obtain p where "fs' = fs @ [new_flow ip proto port n (int (length (filter (\<lambda>f. h_ip_src f = ip) fs))) zero_node\<lparr>h_rnode := Some p\<rparr>]"
    using assms None by (auto simp: add_flow_def split: prod.splits)
  ultimately show ?thesis by (simp add: spec_packet_def traffic_of_def new_flow_def flow_key_def)
next
  case (Some f)
  then have "f \<in> set fs" "flow_key f = (ip, proto, port)" by (auto simp: find_Some_iff)
  then have "(ip, proto, port) \<in> fst ` set (map traffic_of fs)" by (force simp: traffic_of_def)
  moreover have "fs' = map (\<lambda>g. if flow_key g = (ip, proto, port) then g\<lparr>h_bytes := h_bytes g + n, h_pkts := h_pkts g + 1\<rparr> else g) fs"
    using assms Some by (simp add: add_flow_def)
  ultimately show ?thesis by (auto simp: spec_packet_def traffic_of_def flow_key_def)
qed

lemma add_flow_radix_ok:
  assumes "add_flow ip proto port n (fs, r) = (fs', r')" "radix_ok r" "\<And>f. f \<in> set fs \<Longrightarrow> rnode_ok r f"
  shows "radix_ok r'"
proof (cases "find (\<lambda>f. flow_key f = (ip, proto, port)) fs")
  case None
  obtain p r1 where p: "find_rnode ip r = (p, r1)" by fastforce
  then have "r' = at_rnode p count_pkt r1" using assms(1) None by (simp add: add_flow_def)
  then show ?thesis using find_rnode_ok [OF p] find_rnode_radix_ok [OF p assms(2)] at_rnode_ok(1) [OF keeps_count] by simp
next
  case (Some f)
  then have "rnode_ok r f" using assms(3) by (metis find_Some_iff nth_mem)
  then obtain p where "h_rnode f = Some p" "node_at (rx_head r) p \<noteq> Null" by (auto simp: rnode_ok_def)
  then show ?thesis using assms(1,2) Some at_rnode_ok(1) [OF keeps_count] by (auto simp: add_flow_def)
qed


context flow_storage
begin

lemma add_counts:
  assumes "rel s fs" "radix_ok (tree s)"
  shows "\<exists>s' fs'. add ip proto port n s = Some (Inr s') \<and> rel s' fs' \<and> radix_ok (tree s') \<and>
    map traffic_of fs' = spec_packet (ip, proto, port) n (map traffic_of fs)"
proof -
  obtain s' fs' where s': "add ip proto port n s = Some (Inr s')" "rel s' fs'" "(fs', tree s') = add_flow ip proto port n (fs, tree s)"
    using add_rel [OF assms(1)] by blast
  from add_flow_radix_ok [OF s'(3) [symmetric] assms(2) entries_exist [OF assms(1)]] add_flow_traffic [OF s'(3) [symmetric]] s'(1,2)
  show ?thesis by blast
qed

end

subsection \<open>The display implements ageing\<close>

abbreviation traffic_at :: "hosts \<Rightarrow> addr list \<Rightarrow> traffic list" where
  "traffic_at s ds \<equiv> map (\<lambda>a. traffic_of (heap s a)) ds"

lemma show_step_inv:
  assumes inv: "hosts_inv (ds_hosts d) ds bs us" and a: "a \<in> set ds" and ok: "radix_ok (radix_tree (ds_hosts d))"
  shows "\<exists>d'. show_step geoip bw cols a d = Inr d' \<and> hosts_inv (ds_hosts d') ds bs us \<and> radix_ok (radix_tree (ds_hosts d')) \<and>
    heap (ds_hosts d') = (heap (ds_hosts d))(a := (heap (ds_hosts d) a)
      \<lparr>h_ttl := if h_bytes (heap (ds_hosts d) a) \<noteq> 0 then DISPLAY_TTL else h_ttl (heap (ds_hosts d) a), h_bytes := 0, h_pkts := 0\<rparr>)"
proof -
  let ?s = "ds_hosts d" let ?x = "heap ?s a"
  obtain p where p: "h_rnode ?x = Some p" "node_at (rx_head (radix_tree ?s)) p \<noteq> Null"
    using hosts_invD(9) [OF inv a] by (auto simp: rnode_ok_def)
  obtain name r g where f: "fill_name geoip (h_ip_src ?x) p (radix_tree ?s) (ds_geo d) = (name, r, g)" by (metis prod_cases3)
  obtain protocol st where q: "show_protocol (h_port_src ?x) (h_protocol ?x) (h_pkts ?x) name (ds_stats d) = (protocol, st)" by fastforce
  define s' where "s' = (set_node a (\<lambda>x. x\<lparr>h_ttl := if h_bytes x \<noteq> 0 then DISPLAY_TTL else h_ttl x, h_bytes := 0, h_pkts := 0\<rparr>) ?s)
    \<lparr>radix_tree := r\<rparr>"
  have r: "radix_ok r" "node_at (rx_head (radix_tree ?s)) q \<noteq> Null \<Longrightarrow> node_at (rx_head r) q \<noteq> Null" for q
    using fill_name_ok [OF f p(2) ok] by blast+
  have "hosts_inv s' ds bs us"
    by (rule hosts_inv_frame [OF inv]) (auto simp: s'_def set_node_def same_links_def flow_key_def r(2))
  then show ?thesis using p f q r(1)
    by (auto simp: show_step_def s'_def set_node_def Let_def)
qed

definition head_of :: "addr list \<Rightarrow> addr option" where
  "head_of ys = (case ys of [] \<Rightarrow> None | y # _ \<Rightarrow> Some y)"

lemma chain_next: "chain nx p (xs @ a # ys) \<Longrightarrow> nx a = head_of ys"
  by (drule chain_from) (cases ys; simp add: head_of_def)

lemma traffic_cong:
  assumes "\<And>b. b \<in> set ds \<Longrightarrow> flow_of (heap s' b) = flow_of (heap s b)"
  shows "traffic_at s' ds = traffic_at s ds"
  using assms by (auto intro: map_cong) (metis traffic_of_flow)

lemma print_loop_ages:
  assumes "hosts_inv (ds_hosts d) (xs @ ys) bs us" "radix_ok (radix_tree (ds_hosts d))"
  shows "\<exists>d' zs bs' us'. print_loop geoip bw cols (before xs) (head_of ys) d = Some (Inr d') \<and>
    hosts_inv (ds_hosts d') (xs @ zs) bs' us' \<and> radix_ok (radix_tree (ds_hosts d')) \<and>
    traffic_at (ds_hosts d') (xs @ zs) = traffic_at (ds_hosts d) xs @ spec_age (traffic_at (ds_hosts d) ys)"
  using assms
proof (induction ys arbitrary: xs bs us d)
  case Nil
  then show ?case by (intro exI [of _ d] exI [of _ "[]"]) (auto simp: print_loop.simps head_of_def spec_age_def)
next
  case (Cons a ys)
  let ?s = "ds_hosts d" let ?x = "heap ?s a"
  define d1 where "d1 = d\<lparr>ds_hosts := set_node a (\<lambda>x. x\<lparr>h_ttl := h_ttl x - 1\<rparr>) ?s\<rparr>"
  have inv1: "hosts_inv (ds_hosts d1) (xs @ a # ys) bs us"
    by (rule hosts_inv_frame [OF Cons.prems(1)]) (auto simp: d1_def set_node_def same_links_def flow_key_def)
  have ok1: "radix_ok (radix_tree (ds_hosts d1))" using Cons.prems(2) by (simp add: d1_def set_node_def)
  have h1: "heap (ds_hosts d1) = (heap ?s)(a := ?x\<lparr>h_ttl := h_ttl ?x - 1\<rparr>)" by (simp add: d1_def set_node_def)
  have dist: "distinct (xs @ a # ys)" by (rule chain_distinct [OF hosts_invD(1) [OF inv1]])
  have nxt: "dnext ?x = head_of ys" using chain_next [OF hosts_invD(1) [OF Cons.prems(1)]] by simp
  have old: "traffic_at (ds_hosts d1) xs = traffic_at ?s xs" "traffic_at (ds_hosts d1) ys = traffic_at ?s ys"
    using dist by (auto simp: h1)
  show ?case
  proof (cases "0 < h_ttl (heap (ds_hosts d1) a)")
    case True
    obtain d2 where d2: "show_step geoip bw cols a d1 = Inr d2" "hosts_inv (ds_hosts d2) (xs @ a # ys) bs us"
      "radix_ok (radix_tree (ds_hosts d2))"
      "heap (ds_hosts d2) = (heap (ds_hosts d1))(a := (heap (ds_hosts d1) a)
        \<lparr>h_ttl := if h_bytes (heap (ds_hosts d1) a) \<noteq> 0 then DISPLAY_TTL else h_ttl (heap (ds_hosts d1) a), h_bytes := 0, h_pkts := 0\<rparr>)"
      using show_step_inv [OF inv1 in_set_conv_decomp [THEN iffD2, OF exI, OF exI, OF refl] ok1] by blast
    have inv2: "hosts_inv (ds_hosts d2) ((xs @ [a]) @ ys) bs us" using d2(2) by simp
    have b: "before (xs @ [a]) = Some a" by (simp add: before_def)
    have run: "print_loop geoip bw cols (before xs) (head_of (a # ys)) d = print_loop geoip bw cols (before (xs @ [a])) (head_of ys) d2"
      using True d2(1) nxt by (subst print_loop.simps) (simp add: head_of_def d1_def b Let_def)
    have "traffic_at (ds_hosts d2) xs = traffic_at ?s xs" "traffic_at (ds_hosts d2) ys = traffic_at ?s ys"
      using dist old by (auto simp: d2(4))
    moreover have "spec_age (traffic_at ?s (a # ys)) = traffic_of (heap (ds_hosts d2) a) # spec_age (traffic_at ?s ys)"
      using True by (simp add: d2(4) h1 spec_age_def traffic_of_def flow_key_def)
    ultimately have "traffic_at (ds_hosts d2) (xs @ [a]) @ spec_age (traffic_at (ds_hosts d2) ys) =
        traffic_at ?s xs @ spec_age (traffic_at ?s (a # ys))" by (simp del: map_eq_conv)
    with Cons.IH [OF inv2 d2(3)] show ?thesis unfolding run by (metis append.assoc append_Cons append_Nil)
  next
    case False
    obtain s2 bs2 where s2: "dlist_drop (before xs) a (ds_hosts d1) = Some (Inr s2)" "hosts_inv s2 (xs @ ys) bs2 (a # us)"
      "radix_tree s2 = radix_tree (ds_hosts d1)" "\<forall>b \<in> set (xs @ ys). flow_of (heap s2 b) = flow_of (heap (ds_hosts d1) b)"
      using dlist_drop_inv [OF inv1] by blast
    have run: "print_loop geoip bw cols (before xs) (head_of (a # ys)) d =
        print_loop geoip bw cols (before xs) (head_of ys) (d1\<lparr>ds_hosts := s2\<rparr>)"
      using False s2(1) nxt by (subst print_loop.simps) (simp add: head_of_def d1_def Let_def)
    have "traffic_at s2 xs = traffic_at ?s xs" "traffic_at s2 ys = traffic_at ?s ys"
      using traffic_cong [of xs s2 "ds_hosts d1"] traffic_cong [of ys s2 "ds_hosts d1"] s2(4) old by auto
    moreover have "spec_age (traffic_at ?s (a # ys)) = spec_age (traffic_at ?s ys)"
      using False by (simp add: h1 spec_age_def traffic_of_def)
    ultimately show ?thesis
      using Cons.IH [of "d1\<lparr>ds_hosts := s2\<rparr>" xs bs2 "a # us"] s2(2,3) ok1 unfolding run by (simp del: map_eq_conv)
  qed
qed

lemma hnode_print_ages:
  assumes "hosts_rel (ds_hosts d) fs" "radix_ok (radix_tree (ds_hosts d))"
  shows "\<exists>h d' fs'. hnode_print geoip cols bw hist d = Some (Inr (h, d')) \<and> hosts_rel (ds_hosts d') fs' \<and>
    radix_ok (radix_tree (ds_hosts d')) \<and> map traffic_of fs' = spec_age (map traffic_of fs)"
proof -
  obtain ds bs us where i: "hosts_inv (ds_hosts d) ds bs us" "fs = map (\<lambda>a. flow_of (heap (ds_hosts d) a)) ds"
    using assms(1) by (auto simp: hosts_rel_def)
  have hd: "dlist (ds_hosts d) = head_of ds" using hosts_invD(1) [OF i(1)] by (cases ds) (auto simp: head_of_def)
  obtain bw' hist' where a: "adjust_bandwidth (if bw < 1024 * DISPLAY_INTERVAL then 1024 * DISPLAY_INTERVAL else bw) hist = (bw', hist')"
    by (metis surj_pair)
  define c where "c = (if LINE_MAX < cols then LINE_MAX else cols)"
  define d0 where "d0 = d\<lparr>ds_out := ds_out d @ [ansi_clrscr, display_line c (stats_line bw')]\<rparr>"
  have "hosts_inv (ds_hosts d0) ([] @ ds) bs us" "radix_ok (radix_tree (ds_hosts d0))" using i(1) assms(2) by (simp_all add: d0_def)
  from print_loop_ages [OF this, of geoip bw' c]
  obtain d1 zs bs' us' where d1: "print_loop geoip bw' c None (dlist (ds_hosts d)) d0 = Some (Inr d1)"
    "hosts_inv (ds_hosts d1) zs bs' us'" "radix_ok (radix_tree (ds_hosts d1))"
    "traffic_at (ds_hosts d1) zs = spec_age (traffic_at (ds_hosts d) ds)" by (auto simp: before_def hd d0_def)
  have "hosts_rel (ds_hosts d1) (map (\<lambda>a. flow_of (heap (ds_hosts d1) a)) zs)" using d1(2) by (auto simp: hosts_rel_def)
  with d1 a i(2) show ?thesis
    by (auto simp: hnode_print_def Let_def c_def d0_def comp_def)
qed

subsection \<open>The monitor implements the specification\<close>

definition monitor_rel :: "monitor \<Rightarrow> traffic list \<Rightarrow> bool" where
  "monitor_rel m ts \<longleftrightarrow> radix_ok (radix_tree (ds_hosts m)) \<and> (\<exists>fs. hosts_rel (ds_hosts m) fs \<and> ts = map traffic_of fs)"

lemma packet_flow_in:
  assumes "length buf = PACKET_BUF_SIZE"
  shows "\<exists>ip proto port ssh. packet_flow icmp buf = Inr (ip, proto, port, ssh)"
proof -
  have l: "length buf = 65536" using assms by (simp add: PACKET_BUF_SIZE_def)
  obtain ip where ip: "get32 buf 12 = Inr ip" using get32_in [of 12 buf] l by auto
  define h where "h = unat (ip_hlen (buf ! 0))"
  have h: "h \<le> 60" unfolding h_def by (rule ip_hlen_bound)
  obtain port where port: "get16 buf h = Inr port" using get16_in [of h buf] h l by auto
  have "unat (drop_bit 2 d) < 256" for d :: u8 using unsigned_less [of "drop_bit 2 d", where ?'a = nat] by simp
  then have "\<not> length buf < h + unat (drop_bit 2 d) + 4" for d :: u8
  proof -
    have "unat (drop_bit 2 d) < 256" by fact
    then show ?thesis using h l by linarith
  qed
  with ip port h l show ?thesis
    by (cases icmp; cases "buf ! 9 = 6") (auto simp: packet_flow_def get8_in Let_def simp flip: h_def)
qed

lemma packet_step_rel:
  assumes rel: "monitor_rel m ts" and l: "length buf = PACKET_BUF_SIZE"
  shows "\<exists>m'. packet_step stamp icmp buf sz m = Some (Inr m') \<and> monitor_rel m' (spec_received icmp buf sz ts) \<and>
    m_p1 m' = m_p1 m \<and> m_p2 m' = m_p2 m \<and> m_last m' = m_last m \<and> m_running m' = m_running m"
proof -
  have i: "get8 buf i = Inr (buf ! i)" if "i \<le> 60" for i using that l by (simp add: get8_in PACKET_BUF_SIZE_def)
  obtain fs where fs: "hosts_rel (ds_hosts m) fs" "ts = map traffic_of fs" "radix_ok (radix_tree (ds_hosts m))"
    using rel by (auto simp: monitor_rel_def)
  show ?thesis
  proof (cases "sz < 20 \<or> buf ! 12 = 127 \<or> buf ! 16 = 127")
    case True
    then show ?thesis using rel by (auto simp: packet_step_def spec_received_def i)
  next
    case False
    obtain ip proto port ssh where f: "packet_flow icmp buf = Inr (ip, proto, port, ssh)" using packet_flow_in [OF l] by blast
    obtain s' fs' where s': "hnode_add ip proto port (sz + 14) (ds_hosts m) = Some (Inr s')" "hosts_rel s' fs'" "radix_ok (radix_tree s')"
      "map traffic_of fs' = spec_packet (ip, proto, port) (sz + 14) ts"
      using hs.add_counts [OF fs(1,3)] fs(2) by blast
    obtain echo where e: "(if icmp then icmp_echo buf else Inr False) = Inr echo"
      using i [OF ip_hlen_bound] i [of 0] by (cases icmp) (simp_all add: icmp_echo_def)
    show ?thesis
      using False f s' e by (auto simp: packet_step_def spec_received_def i Let_def monitor_rel_def)
  qed
qed

lemma hosts_rel_tree:
  assumes "hosts_rel s fs" "\<And>p. node_at (rx_head (radix_tree s)) p \<noteq> Null \<Longrightarrow> node_at (rx_head r) p \<noteq> Null"
  shows "hosts_rel (s\<lparr>radix_tree := r\<rparr>) fs"
proof -
  obtain ds bs us where i: "hosts_inv s ds bs us" "fs = map (\<lambda>a. flow_of (heap s a)) ds" using assms(1) by (auto simp: hosts_rel_def)
  have "hosts_inv (s\<lparr>radix_tree := r\<rparr>) ds bs us"
    by (rule hosts_inv_frame [OF i(1)]) (simp_all add: same_links_def assms(2))
  with i(2) show ?thesis by (auto simp: hosts_rel_def)
qed

lemma key_step_rel:
  assumes "monitor_rel m ts" "typed \<noteq> None"
  shows "\<exists>m'. key_step c typed opened m = Inr m' \<and> monitor_rel m' ts \<and> m_p1 m' = m_p1 m \<and> m_p2 m' = m_p2 m \<and>
    m_last m' = m_last m \<and> m_running m' = (m_running m \<and> \<not> stops (Key c typed opened))"
proof -
  have ok: "radix_ok (radix_tree (ds_hosts m))" using assms(1) by (simp add: monitor_rel_def)
  have st: "\<exists>t. print_stats b m' = Inr t" if "ds_hosts m' = ds_hosts m" for b m'
  proof -
    obtain t where "radix_print True (radix_tree (ds_hosts m)) = Inr t" using radix_ok_print [OF ok] by blast
    then show ?thesis using that by (simp add: print_stats_def Let_def)
  qed
  obtain t where t: "typed = Some t" using assms(2) by auto
  have save: "\<exists>m'. save_stats typed opened m = Inr m' \<and> ds_hosts m' = ds_hosts m \<and> m_p1 m' = m_p1 m \<and> m_p2 m' = m_p2 m \<and>
      m_last m' = m_last m \<and> m_running m' = m_running m"
    using st [of "to_screen ''The file is saved in /tmp directory. Please enter the file name: '' m" False] t
    by (auto simp: save_stats_def Let_def to_screen_def split: prod.split option.split)
  obtain out where "print_stats True m = Inr out" using st [of m True] by blast
  then have display: "\<exists>o1. key_step (Some c) typed opened m = Inr (to_screen o1 m)" if "c = CHR ''d'' \<or> c = CHR ''D''" for c
    using that by (auto simp: key_step_def)
  have clear: "monitor_rel (m\<lparr>ds_stats := clear_stats, m_events := ev_clear (m_events m),
      ds_hosts := (ds_hosts m)\<lparr>radix_tree := radix_clear_data (radix_tree (ds_hosts m))\<rparr>\<rparr>) ts"
    using assms(1) radix_clear_node by (auto simp: monitor_rel_def radix_clear_ok intro!: hosts_rel_tree)
  have same: "monitor_rel m' ts" if "ds_hosts m' = ds_hosts m" for m' using that assms(1) by (simp add: monitor_rel_def)
  consider "c = Some (CHR ''c'') \<or> c = Some (CHR ''C'')" | d where "c = Some d" "d = CHR ''d'' \<or> d = CHR ''D''"
    | "c = Some (CHR ''s'') \<or> c = Some (CHR ''S'')" | "c = Some (CHR ''x'') \<or> c = Some (CHR ''X'')"
    | "c \<notin> Some ` set ''cCdDsSxX''" by (cases c) auto
  then show ?thesis
  proof cases
    case 1
    with clear show ?thesis by (auto simp: key_step_def)
  next
    case 2
    with display [OF 2(2)] same show ?thesis by (auto simp: to_screen_def)
  next
    case 3
    with save same show ?thesis by (fastforce simp: key_step_def)
  next
    case 4
    with same show ?thesis by (auto simp: key_step_def)
  next
    case 5
    then show ?thesis using assms(1) by (auto simp: key_step_def)
  qed
qed

lemma ready_step_rel:
  assumes rel: "monitor_rel m ts" and there: "m_p1 m" "m_p2 m" and inp: "input_ok rdy"
  shows "\<exists>m'. ready_step stamp rdy m = Some (Inr m') \<and> monitor_rel m' (spec_ready rdy ts) \<and> m_p1 m' \<and> m_p2 m' \<and>
    m_last m' = m_last m \<and> m_running m' = (m_running m \<and> \<not> stops rdy)"
proof (cases rdy)
  case (Key c typed opened)
  then show ?thesis using key_step_rel [OF rel, of typed c opened] inp there by (auto simp: ready_step_def)
next
  case (Udp buf sz)
  then show ?thesis using packet_step_rel [OF rel, of buf stamp False sz] inp there by (auto simp: ready_step_def helper_set_def)
next
  case (Icmp buf sz)
  then show ?thesis using packet_step_rel [OF rel, of buf stamp True sz] inp there by (auto simp: ready_step_def helper_set_def)
next
  case (Tcp buf sz)
  then show ?thesis using packet_step_rel [OF rel, of buf stamp False sz] inp there by (auto simp: ready_step_def helper_set_def)
qed (use rel there inp in \<open>simp_all add: ready_step_def helper_set_def monitor_rel_def\<close>)

lemma trace_step_rel:
  assumes rel: "monitor_rel m ts" and there: "m_p1 m" "m_p2 m" and inp: "input_ok rdy"
  shows "\<exists>m'. trace_step geoip cols (now, stamp, rdy) m = Some (Inr m') \<and>
    monitor_rel m' (spec_ready rdy (if now mod DISPLAY_INTERVAL = 1 \<and> m_last m \<noteq> now then spec_age ts else ts)) \<and> m_p1 m' \<and> m_p2 m' \<and>
    m_last m' = (if now mod DISPLAY_INTERVAL = 1 \<and> m_last m \<noteq> now then now else m_last m) \<and> m_running m' = (m_running m \<and> \<not> stops rdy)"
proof (cases "now mod DISPLAY_INTERVAL = 1 \<and> m_last m \<noteq> now")
  case True
  obtain fs where fs: "hosts_rel (ds_hosts (display.truncate m)) fs" "ts = map traffic_of fs"
      "radix_ok (radix_tree (ds_hosts (display.truncate m)))"
    using rel by (auto simp: monitor_rel_def display.defs)
  obtain h d fs' where p: "hnode_print geoip cols (m_bw m) (m_hist m) (display.truncate m) = Some (Inr (h, d))"
    "hosts_rel (ds_hosts d) fs'" "radix_ok (radix_tree (ds_hosts d))" "map traffic_of fs' = spec_age ts"
    using hnode_print_ages [OF fs(1,3)] fs(2) by blast
  define m1 where "m1 = display.extend d (monitor.fields h (m_events m) (m_p1 m) (m_p2 m) 0 now (m_files m) (m_running m))"
  have m1: "ds_hosts m1 = ds_hosts d" "m_p1 m1 = m_p1 m" "m_p2 m1 = m_p2 m" "m_last m1 = now" "m_running m1 = m_running m"
    by (simp_all add: m1_def display.defs monitor.defs)
  have "monitor_rel m1 (spec_age ts)" using p(2-4) by (auto simp: monitor_rel_def m1(1))
  moreover have "trace_step geoip cols (now, stamp, rdy) m = ready_step stamp rdy m1" using True p(1) by (simp add: trace_step_def m1_def)
  ultimately show ?thesis using ready_step_rel [of m1 "spec_age ts" rdy stamp] there inp True by (simp add: m1)
next
  case False
  then show ?thesis using ready_step_rel [OF rel there inp, of stamp] by (auto simp: trace_step_def)
qed

lemma run_trace_rel:
  assumes "monitor_rel m ts" "m_p1 m" "m_p2 m" "m_running m" "list_all (\<lambda>(now, stamp, rdy). input_ok rdy) inps"
  shows "\<exists>m'. run_trace geoip cols inps m = Some (Inr m') \<and> monitor_rel m' (spec_run inps (m_last m) ts)"
  using assms
proof (induction inps arbitrary: m ts)
  case (Cons inp inps)
  obtain now stamp rdy where i: "inp = (now, stamp, rdy)" by (cases inp)
  then have "input_ok rdy" using Cons.prems(5) by simp
  from trace_step_rel [OF Cons.prems(1-3) this, of geoip cols now stamp]
  obtain m' where m': "trace_step geoip cols inp m = Some (Inr m')" "m_p1 m'" "m_p2 m'" "m_running m' = (\<not> stops rdy)"
    "monitor_rel m' (spec_ready rdy (if now mod DISPLAY_INTERVAL = 1 \<and> m_last m \<noteq> now then spec_age ts else ts))"
    "m_last m' = (if now mod DISPLAY_INTERVAL = 1 \<and> m_last m \<noteq> now then now else m_last m)"
    using Cons.prems(4) i by auto
  show ?case
  proof (cases "stops rdy")
    case True
    then show ?thesis using m' Cons.prems(4) i by (cases inps) (auto simp: Let_def)
  next
    case False
    then show ?thesis using Cons.IH [OF m'(5,2,3)] m'(1,4,6) Cons.prems(4,5) i by (simp add: Let_def)
  qed
qed auto

lemma load_radix_ok: "load_hostnames content r = Inr r' \<Longrightarrow> radix_ok r \<Longrightarrow> radix_ok r'"
proof (cases content)
  case (Some s)
  assume l: "load_hostnames content r = Inr r'" "radix_ok r"
  have step: "radix_ok t'" if "hostnames_line b t = Inr t'" "radix_ok t" for b t t'
    using that radix_add_height by (auto simp: hostnames_line_def radix_ok_def Let_def split: if_splits option.splits prod.splits)
  have "fold_result hostnames_line bs t = Inr t' \<Longrightarrow> radix_ok t \<Longrightarrow> radix_ok t'" for bs t t'
    by (induction bs arbitrary: t) (auto simp: bind_result_eq_Inr_iff dest: step)
  with l Some show ?thesis by (simp add: load_hostnames_def)
qed (simp add: load_hostnames_def)

lemma start_rel: "radix_ok r \<Longrightarrow> monitor_rel (start_monitor p1 p2 r) []"
  by (auto simp: monitor_rel_def start_monitor_def hosts_rel_def hosts_inv_def intro!: exI [of _ "\<lambda>_. []"] exI [of _ "[]"])

lemma start_run:
  assumes "load_hostnames content empty_radix = Inr r" "list_all (\<lambda>(now, stamp, rdy). input_ok rdy) inps"
  shows "\<exists>m. run_trace geoip cols inps (start_monitor True True r) = Some (Inr m) \<and> monitor_rel m (spec_run inps 0 [])"
proof -
  have "radix_ok r" using load_radix_ok [OF assms(1)] by (simp add: radix_ok_def empty_radix_def)
  from run_trace_rel [OF start_rel [OF this] _ _ _ assms(2)] show ?thesis by (simp add: start_monitor_def)
qed

text \<open>
  C11. The monitor implements its specification. Whatever packets arrive, whatever keys are pressed and whenever the display is
  due, while the two helpers run, the program with its nodes shared between hash chains, display list and pool goes on
  without following a null pointer, failing an assertion, leaving the buffer or looping, and its display list shows the
  flows of the specification: each flow once, in the order of its first packet, with the bytes and packets since the last
  display and the number of displays it has left.
\<close>

theorem monitor_refines:
  assumes "load_hostnames content empty_radix = Inr r" "list_all (\<lambda>(now, stamp, rdy). input_ok rdy) inps"
  shows "\<exists>m fs. run_trace geoip cols inps (start_monitor True True r) = Some (Inr m) \<and> hosts_rel (ds_hosts m) fs \<and>
    map traffic_of fs = spec_run inps 0 []"
proof -
  obtain m where "run_trace geoip cols inps (start_monitor True True r) = Some (Inr m)" "monitor_rel m (spec_run inps 0 [])"
    using start_run [OF assms] by blast
  then show ?thesis by (auto simp: monitor_rel_def)
qed

theorem monitor_refines_witness:
  "\<exists>m fs. run_trace (\<lambda>_ _. NoProgram) 80 [(2, ''12:00:00'', Udp (replicate PACKET_BUF_SIZE 1) 60), (3, ''12:00:01'', Timeout)]
      (start_monitor True True empty_radix) = Some (Inr m) \<and> hosts_rel (ds_hosts m) fs \<and>
    map traffic_of fs = spec_run [(2, ''12:00:00'', Udp (replicate PACKET_BUF_SIZE 1) 60), (3, ''12:00:01'', Timeout)] 0 []"
  by (rule monitor_refines [of None]) (simp_all add: load_hostnames_def)

lemma hosts_rel_empty: "hosts_rel s [] \<Longrightarrow> dlist s = None"
  by (auto simp: hosts_rel_def dest: hosts_invD(1))

text \<open>
  Traffic of a flow that was quiet is lost. A flow that is shown and then has no packets for three displays has one display
  left; a packet that arrives now is added to it, but the time to live is only renewed when the flow is shown, and the
  next display drops it first: the packet is never shown nor counted for its protocol.
\<close>

theorem late_traffic_lost:
  assumes "load_hostnames content empty_radix = Inr r" "length buf = PACKET_BUF_SIZE"
    "20 \<le> sz" "sz \<le> 65536" "buf ! 12 \<noteq> 127" "buf ! 16 \<noteq> 127"
  shows "\<exists>m. run_trace geoip cols
      [(2, st, Udp buf sz), (3, st, Timeout), (5, st, Timeout), (7, st, Timeout), (9, st, Timeout), (10, st, Udp buf sz), (11, st, Timeout)]
      (start_monitor True True r) = Some (Inr m) \<and> dlist (ds_hosts m) = None"
proof -
  let ?inps = "[(2, st, Udp buf sz), (3, st, Timeout), (5, st, Timeout), (7, st, Timeout), (9, st, Timeout), (10, st, Udp buf sz), (11, st, Timeout)]"
  obtain ip proto port ssh where f: "packet_flow False buf = Inr (ip, proto, port, ssh)" using packet_flow_in [OF assms(2)] by blast
  have "unat (sz + 14) = unat sz + 14" using assms(4) by (simp add: unat_word_ariths(1) word_le_nat_alt)
  then have n: "sz + 14 \<noteq> 0" by auto
  have "\<not> sz < 20" using assms(3) by simp
  then have "spec_run ?inps 0 [] = []"
    using f n assms(5,6) by (simp add: Let_def spec_received_def spec_packet_def spec_age_def DISPLAY_INTERVAL_def DISPLAY_TTL_def)
  moreover obtain m where "run_trace geoip cols ?inps (start_monitor True True r) = Some (Inr m)" "monitor_rel m (spec_run ?inps 0 [])"
    using start_run [OF assms(1), of ?inps] assms(2) by auto
  ultimately show ?thesis by (auto simp: monitor_rel_def intro: hosts_rel_empty)
qed

theorem late_traffic_lost_witness:
  "\<exists>m. run_trace (\<lambda>_ _. NoProgram) 80
      [(2, '''', Udp (replicate PACKET_BUF_SIZE 1) 60), (3, '''', Timeout), (5, '''', Timeout), (7, '''', Timeout), (9, '''', Timeout),
       (10, '''', Udp (replicate PACKET_BUF_SIZE 1) 60), (11, '''', Timeout)]
      (start_monitor True True empty_radix) = Some (Inr m) \<and> dlist (ds_hosts m) = None"
  by (rule late_traffic_lost [of None]) (simp_all add: load_hostnames_def PACKET_BUF_SIZE_def del: replicate.simps)

text \<open>
  When a helper ends, the monitor does not go on without it: its descriptor becomes -1 and is still looked up in the set
  of ready descriptors, which is outside of the array, as soon as the next packet arrives. The same happens at once if
  a helper could not be started.
\<close>

theorem helper_end_aborts:
  "run_trace geoip cols [(0, stamp, Sni sbuf 0), (0, stamp, Udp buf sz)] (start_monitor True p2 r) = Some (Inl BufferOverflow) \<and>
   run_trace geoip cols [(0, stamp, Udp buf sz)] (start_monitor False p2 r) = Some (Inl BufferOverflow)"
  by (simp add: trace_step_def ready_step_def helper_set_def start_monitor_def)

subsection \<open>Events and bandwidth\<close>

text \<open>
  Events are lost to the filter of duplicates. If the first line of what a helper wrote equals the very first event that is
  kept, the rest of the text is dropped with it, whatever it says; a line that repeats any other event is added again.
\<close>

theorem events_lost:
  assumes "newline \<notin> set e" "e \<noteq> []"
  shows "ev_add (e @ newline # rest) (e # es, n) = (e # es, n) \<and>
    (f \<noteq> e \<longrightarrow> ev_add e (f # es, n) = (f # es @ [e], n + 1))"
  using assms by (auto simp: ev_add.simps [of "e @ newline # rest"] ev_add.simps [of e] c_lib)

theorem events_lost_witness:
  "ev_add (''a'' @ newline # ''b'') ([''a''], 1) = ([''a''], 1) \<and> ev_add ''a'' ([''b'', ''a''], 2) = ([''b'', ''a'', ''a''], 3)"
  using events_lost [of "''a''" "''b''" "[]" 1 "''b''"] events_lost [of "''a''" "''b''" "[''a'']" 2 "''b''"] by simp

text \<open>
  The bandwidth on the scale is the largest of the last eight: the average is never more than twice the maximum, so the
  other branch is dead, also when the sum of the eight values wraps.
\<close>

theorem adjust_bandwidth_max:
  assumes "length arr = BWMAX_CNT" "i < BWMAX_CNT"
  shows "adjust_bandwidth bw (arr, i) = (Max (set (arr[i := bw])), arr[i := bw], (i + 1) mod BWMAX_CNT)"
proof -
  define xs where "xs = arr[i := bw]"
  have l: "length xs = 8" "xs \<noteq> []" using assms by (auto simp: xs_def BWMAX_CNT_def)
  have mx: "fold (\<lambda>x m. if m > x then m else x) ys a = Max (insert a (set ys))" for ys and a :: u32
  proof (induction ys arbitrary: a)
    case (Cons y ys)
    have "(if a > y then a else y) = max a y" by (auto simp: max_def)
    then show ?case using Cons [of "max a y"] by (cases "ys = []") (simp_all add: max.assoc)
  qed simp
  define mxv where "mxv = Max (set xs)"
  have m: "fold (\<lambda>x m. if m > x then m else x) xs 0 = mxv"
    using mx [of xs 0] l(2) by (simp add: mxv_def max_def)
  have le: "unat x \<le> unat mxv" if "x \<in> set xs" for x using that by (simp add: mxv_def word_le_nat_alt [symmetric])
  have "\<not> mxv < fold (\<lambda>x s. s + x) xs 0 div 8 div 2"
  proof (cases "unat mxv < 2 ^ 28")
    case True
    have "unat (fold (\<lambda>x s. s + x) ys a) \<le> unat a + length ys * unat mxv" if "set ys \<subseteq> set xs" for ys a
      using that
    proof (induction ys arbitrary: a)
      case (Cons y ys)
      have "unat (a + y) \<le> unat a + unat mxv" using le [of y] Cons.prems by (simp add: unat_word_ariths(1))
      with Cons.IH [of "a + y"] Cons.prems show ?case by simp
    qed simp
    from this [of xs 0] have "unat (fold (\<lambda>x s. s + x) xs 0) \<le> 8 * unat mxv" by (simp add: l)
    then show ?thesis by (simp add: word_less_nat_alt unat_div)
  next
    case False
    have "unat (fold (\<lambda>x s. s + x) xs 0) < 2 ^ 32" using unsigned_less [of "fold (\<lambda>x s. s + x) xs 0 :: u32", where ?'a = nat] by simp
    then show ?thesis using False by (simp add: word_less_nat_alt unat_div)
  qed
  moreover have "(if BWMAX_CNT \<le> i + 1 then 0 else i + 1) = (i + 1) mod BWMAX_CNT"
    using assms(2) by (cases "i + 1 = BWMAX_CNT") simp_all
  ultimately show ?thesis using m by (auto simp: adjust_bandwidth_def Let_def BWMAX_CNT_def simp flip: xs_def mxv_def split: if_splits)
qed

theorem adjust_bandwidth_max_witness:
  "adjust_bandwidth 5 ([1, 2, 3, 9, 0, 0, 0, 0], 3) = (Max (set ([1, 2, 3, 9, 0, 0, 0, 0][3 := 5])), [1, 2, 3, 9, 0, 0, 0, 0][3 := 5], (3 + 1) mod BWMAX_CNT)"
  by (rule adjust_bandwidth_max) (simp_all add: BWMAX_CNT_def)

text \<open>A line of the display fits into the terminal, unless that has fewer than five columns.\<close>

lemma display_line_fits:
  assumes "4 < cols" "cols \<le> LINE_MAX"
  shows "length (display_line cols s) \<le> cols"
  using assms by (auto simp: display_line_def adjust_line_def Let_def)

end
