(* ===== verification/Fids.thy ===== *)
theory Fids
  imports Blake2b Util
begin

text \<open>
  The intrusion detection of \<open>fids\<close>: \<open>main.c\<close>, \<open>db.c\<close> and \<open>db_exclude.c\<close>. With \<open>--init\<close> it writes a line for every file that
  the configuration names, with \<open>--check\<close> it compares the files with the lines of an earlier run.

  The file system is the record \<open>fsys\<close> of what the system calls answer. The level of directories is a parameter, since the
  code restores it; the level of includes is part of the state, since the code does not always do so. Messages to the standard
  error are values; the progress that is shown every 500 files is left out.
\<close>

unbundle bit_operations_syntax

text \<open>
  The answers of the file system: \<open>readlink\<close> succeeds; \<open>stat\<close> says that it is a directory; the entries; the bytes, or \<open>None\<close> if
  \<open>open\<close> or \<open>lseek\<close> fail; the mode; the matches of \<open>glob\<close>; a configuration file with whether root owns it.
\<close>

record fsys =
  fs_link :: "string \<Rightarrow> bool"
  fs_dir :: "string \<Rightarrow> bool"
  fs_entries :: "string \<Rightarrow> string list option"
  fs_bytes :: "string \<Rightarrow> u8 list option"
  fs_mode :: "string \<Rightarrow> u32 option"
  fs_glob :: "string \<Rightarrow> string list option"
  fs_config :: "string \<Rightarrow> (bool \<times> string) option"

record db_entry =
  db_fname :: string
  db_checksum :: string
  db_mode :: string
  db_checked :: bool

datatype ids_msg =
    TooDeep string
  | Opening string
  | Loading string
  | Modified string
  | Permissions string string string
  | NewFile string
  | Removed string
  | Initialized int
  | Scanned int int int int int

fun is_warning :: "ids_msg \<Rightarrow> bool" where
  "is_warning (Modified _) = True"
| "is_warning (Permissions _ _ _) = True"
| "is_warning (NewFile _) = True"
| "is_warning (Removed _) = True"
| "is_warning _ = False"

record ids =
  arg_init :: bool
  arg_check :: bool
  include_level :: int
  f_scanned :: int
  f_modified :: int
  f_new :: int
  f_removed :: int
  f_permissions :: int
  excludes :: "string list"
  database :: "nat \<Rightarrow> db_entry list"
  ids_out :: "string list"
  ids_err :: "ids_msg list"

definition MAX_DIR_LEVEL :: nat where "MAX_DIR_LEVEL = 20"
definition IDS_MAX_INCLUDE_LEVEL :: int where "IDS_MAX_INCLUDE_LEVEL = 10"
definition HASH_MAX :: nat where "HASH_MAX = 2048"
definition IDS_BUF :: nat where "IDS_BUF = 4096"
definition KEY_SIZE :: nat where "KEY_SIZE = 256"

subsection \<open>The database\<close>

text \<open>A character is a signed byte.\<close>

fun hash_loop :: "u64 \<Rightarrow> string \<Rightarrow> u64" where
  "hash_loop h [] = h"
| "hash_loop h (c # s) = hash_loop (push_bit 5 h + h + scast (of_char c :: u8)) s"

definition hash_name :: "string \<Rightarrow> nat" where
  "hash_name s = unat (hash_loop 5381 s AND (of_nat HASH_MAX - 1))"

definition db_add :: "string \<Rightarrow> string \<Rightarrow> string \<Rightarrow> (nat \<Rightarrow> db_entry list) \<Rightarrow> nat \<Rightarrow> db_entry list" where
  "db_add fname checksum md db =
     (let h = hash_name fname in
      db(h := \<lparr>db_fname = fname, db_checksum = checksum, db_mode = md, db_checked = False\<rparr> # db h))"

text \<open>The first entry of the name in a chain is marked.\<close>

fun mark :: "string \<Rightarrow> db_entry list \<Rightarrow> db_entry option \<times> db_entry list" where
  "mark fname [] = (None, [])"
| "mark fname (e # es) =
     (if fname = db_fname e then (Some e, e\<lparr>db_checked := True\<rparr> # es)
      else case mark fname es of (r, es) \<Rightarrow> (r, e # es))"

definition db_check :: "string \<Rightarrow> string \<Rightarrow> string \<Rightarrow> ids \<Rightarrow> ids" where
  "db_check fname checksum md s =
     (let h = hash_name fname in
      case mark fname (database s h) of
        (Some e, es) \<Rightarrow>
          let s = s\<lparr>database := (database s)(h := es)\<rparr>;
              s = (if checksum \<noteq> db_checksum e
                   then s\<lparr>f_modified := f_modified s + 1, ids_err := ids_err s @ [Modified fname]\<rparr> else s)
          in if md \<noteq> db_mode e
             then s\<lparr>f_permissions := f_permissions s + 1, ids_err := ids_err s @ [Permissions fname (db_mode e) md]\<rparr> else s
      | (None, _) \<Rightarrow> s\<lparr>f_new := f_new s + 1, ids_err := ids_err s @ [NewFile fname]\<rparr>)"

definition db_missing :: "ids \<Rightarrow> ids" where
  "db_missing s =
     (let missing = filter (\<lambda>e. \<not> db_checked e) (concat (map (database s) [0..<HASH_MAX])) in
      s\<lparr>f_removed := f_removed s + int (length missing), ids_err := ids_err s @ map (\<lambda>e. Removed (db_fname e)) missing\<rparr>)"

definition db_line :: "string \<Rightarrow> (nat \<Rightarrow> db_entry list) \<Rightarrow> (nat \<Rightarrow> db_entry list) result" where
  "db_line buf db =
     (case cut_at tab buf of
        (_, None) \<Rightarrow> Inl (Exited ''database corrupted'')
      | (md, Some r) \<Rightarrow>
          case cut_at tab r of
            (_, None) \<Rightarrow> Inl (Exited ''database corrupted'')
          | (checksum, Some r) \<Rightarrow>
              case cut_at newline r of
                (_, None) \<Rightarrow> Inl (Exited ''database corrupted'')
              | (fname, Some _) \<Rightarrow> Inr (db_add fname checksum md db))"

definition db_init :: "string \<Rightarrow> ids \<Rightarrow> ids result" where
  "db_init stdin s =
     bind_result (fold_result db_line (fgets_lines IDS_BUF stdin) (database s)) (\<lambda>db. Inr (s\<lparr>database := db\<rparr>))"

definition db_exclude_add :: "string \<Rightarrow> ids \<Rightarrow> ids" where
  "db_exclude_add fname s = s\<lparr>excludes := fname # excludes s\<rparr>"

definition db_exclude_check :: "string \<Rightarrow> ids \<Rightarrow> bool" where
  "db_exclude_check fname s \<longleftrightarrow> list_ex (\<lambda>e. take (length e) fname = e) (excludes s)"

subsection \<open>Files\<close>

definition mode_bit :: "u32 \<Rightarrow> nat \<Rightarrow> char \<Rightarrow> char" where
  "mode_bit md n c = (if bit md n then c else CHR ''-'')"

definition file_mode :: "u32 option \<Rightarrow> string" where
  "file_mode st =
     (case st of
        None \<Rightarrow> ''''
      | Some md \<Rightarrow> map (\<lambda>(n, c). mode_bit md n c) (zip (rev [0..<9]) ''rwxrwxrwx''))"

text \<open>The bytes of \<open>"empty"\<close> with its final zero stand for the contents of an empty file.\<close>

definition hashed_bytes :: "u8 list \<Rightarrow> u8 list" where
  "hashed_bytes content = (if content = [] then [0x65, 0x6D, 0x70, 0x74, 0x79, 0] else content)"

definition str_checksum :: "u8 list \<Rightarrow> string" where
  "str_checksum sums = concat (map (\<lambda>b. fmt_x_prec 2 (unat b)) sums)"

text \<open>\<open>stack\<close> is what the uninitialised buffer of the hash holds.\<close>

definition checksum_of :: "u8 list \<Rightarrow> u8 list \<Rightarrow> string" where
  "checksum_of stack content =
     (case blake2b stack (KEY_SIZE div 8) (hashed_bytes content) of
        Some c \<Rightarrow> str_checksum c
      | None \<Rightarrow> '''')"

definition ids_line :: "string \<Rightarrow> string \<Rightarrow> string \<Rightarrow> string" where
  "ids_line md checksum fname = md @ [tab] @ checksum @ [tab] @ fname @ [newline]"

definition file_checksum :: "u8 list \<Rightarrow> fsys \<Rightarrow> string \<Rightarrow> ids \<Rightarrow> ids result" where
  "file_checksum stack fs fname s =
     (case fs_bytes fs fname of
        None \<Rightarrow> Inr s
      | Some content \<Rightarrow>
          let sums = checksum_of stack content; md = file_mode (fs_mode fs fname) in
          bind_result
            (if arg_init s then Inr (s\<lparr>ids_out := ids_out s @ [ids_line md sums fname]\<rparr>)
             else if arg_check s then Inr (db_check fname sums md s)
             else Inl AssertFailure)
            (\<lambda>s. Inr (s\<lparr>f_scanned := f_scanned s + 1\<rparr>)))"

function list_directory :: "u8 list \<Rightarrow> fsys \<Rightarrow> nat \<Rightarrow> string \<Rightarrow> ids \<Rightarrow> ids result" where
  "list_directory stack fs level fname s =
     (if MAX_DIR_LEVEL < level then Inr (s\<lparr>ids_err := ids_err s @ [TooDeep fname]\<rparr>)
      else if db_exclude_check fname s then Inr s
      else if fs_link fs fname then Inr s
      else if \<not> fs_dir fs fname then file_checksum stack fs fname s
      else case fs_entries fs fname of
        None \<Rightarrow> Inr s
      | Some ents \<Rightarrow>
          fold_result (\<lambda>e s. if e = ''.'' \<or> e = ''..'' then Inr s else list_directory stack fs (level + 1) (fname @ ''/'' @ e) s) ents s)"
  by pat_completeness auto
termination
  by (relation "measure (\<lambda>(stack, fs, level, fname, s). Suc MAX_DIR_LEVEL - level)") auto

declare list_directory.simps [simp del]

definition ids_globbing :: "u8 list \<Rightarrow> fsys \<Rightarrow> string \<Rightarrow> ids \<Rightarrow> ids result" where
  "ids_globbing stack fs fname s =
     (if fname = ''/'' then Inr s
      else case fs_glob fs fname of
        None \<Rightarrow> Inl (Exited ''failed to glob pattern'')
      | Some paths \<Rightarrow> fold_result (list_directory stack fs 1) paths s)"

subsection \<open>The configuration\<close>

definition ids_trim :: "string \<Rightarrow> string" where
  "ids_trim buf = rev (dropWhile is_blank (rev (dropWhile is_blank (fst (cut_at (CHR ''#'') (fst (cut_at newline buf)))))))"

definition in_home :: "string \<Rightarrow> string \<Rightarrow> string" where
  "in_home homedir s = (if take 7 s = ''${HOME}'' then homedir @ drop 7 s else s)"

text \<open>One line; \<open>inc\<close> processes an included file.\<close>

definition config_entry :: "u8 list \<Rightarrow> fsys \<Rightarrow> string \<Rightarrow> (string \<Rightarrow> ids \<Rightarrow> ids result) \<Rightarrow> string \<Rightarrow> ids \<Rightarrow> ids result" where
  "config_entry stack fs homedir inc buf s =
     (let start = ids_trim buf in
      if start = [] then Inr s
      else if take 7 start = ''include''
      then let ptr = drop 7 start in
        if ptr = [] \<or> \<not> is_blank (hd ptr) then Inl (Exited ''invalid line'')
        else let f = dropWhile is_blank ptr in inc (if take 1 f = ''/'' then f else ''/etc/firejail/'' @ f) s
      else if hd start = CHR ''!'' then Inr (db_exclude_add (in_home homedir (tl start)) s)
      else ids_globbing stack fs (in_home homedir start) s)"

fun process_config :: "nat \<Rightarrow> u8 list \<Rightarrow> fsys \<Rightarrow> string \<Rightarrow> string \<Rightarrow> ids \<Rightarrow> ids result" where
  "process_config 0 stack fs homedir fname s = Inl OutOfFuel"
| "process_config (Suc n) stack fs homedir fname s =
     (let s = s\<lparr>include_level := include_level s + 1\<rparr> in
      if IDS_MAX_INCLUDE_LEVEL \<le> include_level s then Inl (Exited ''maximum include level'')
      else let s = s\<lparr>ids_err := ids_err s @ [Opening fname]\<rparr> in
        case fs_config fs fname of
          None \<Rightarrow> if include_level s = 1 then Inl (CannotOpen fname) else Inr s
        | Some (root, content) \<Rightarrow>
            if \<not> root then Inl (NotOwnedByRoot fname)
            else bind_result
              (fold_result (config_entry stack fs homedir (process_config n stack fs homedir)) (fgets_lines IDS_BUF content)
                (s\<lparr>ids_err := ids_err s @ [Loading fname]\<rparr>))
              (\<lambda>s. Inr (s\<lparr>include_level := include_level s - 1\<rparr>)))"

definition IDS_CONFIG :: string where "IDS_CONFIG = ''/etc/firejail/ids.config''"

definition ids_start :: ids where
  "ids_start = \<lparr>arg_init = False, arg_check = False, include_level = 0, f_scanned = 0, f_modified = 0, f_new = 0, f_removed = 0,
     f_permissions = 0, excludes = [], database = (\<lambda>_. []), ids_out = [], ids_err = []\<rparr>"

definition run_config :: "u8 list \<Rightarrow> fsys \<Rightarrow> string \<Rightarrow> ids \<Rightarrow> ids result" where
  "run_config stack fs homedir = process_config 10 stack fs homedir IDS_CONFIG"

definition summary :: "ids \<Rightarrow> ids" where
  "summary s = s\<lparr>ids_err := ids_err s @ [Scanned (f_scanned s) (f_modified s) (f_permissions s) (f_new s) (f_removed s)]\<rparr>"

fun ids_flags :: "string list \<Rightarrow> ids \<Rightarrow> ids result" where
  "ids_flags [] s = Inr s"
| "ids_flags (a # as) s =
     (if a = ''-h'' \<or> a = ''-?'' \<or> a = ''--help'' then Inl (Exited ''usage'')
      else if a = ''--init'' then ids_flags as (s\<lparr>arg_init := True\<rparr>)
      else if a = ''--check'' then ids_flags as (s\<lparr>arg_check := True\<rparr>)
      else if take 2 a = ''--'' then Inl InvalidArguments
      else ids_flags as s)"

text \<open>\<open>main\<close> on the arguments after the name of the program.\<close>

definition fids_main :: "u8 list \<Rightarrow> fsys \<Rightarrow> string \<Rightarrow> string list \<Rightarrow> ids result" where
  "fids_main stack fs stdin args =
     bind_result (ids_flags args ids_start) (\<lambda>s.
     if length args \<noteq> 2 then Inl InvalidArguments
     else let homedir = args ! 1 in
       if arg_init s = arg_check s then Inl InvalidArguments
       else if arg_init s
       then bind_result (run_config stack fs homedir s) (\<lambda>s. Inr (s\<lparr>ids_err := ids_err s @ [Initialized (f_scanned s)]\<rparr>))
       else bind_result (db_init stdin s) (\<lambda>s. bind_result (run_config stack fs homedir s) (\<lambda>s. Inr (db_missing (summary s)))))"

subsection \<open>Lines of the database\<close>

type_synonym entry = "string \<times> string \<times> string"

abbreviation entry_name :: "entry \<Rightarrow> string" where
  "entry_name e \<equiv> snd (snd e)"

definition line_of :: "entry \<Rightarrow> string" where
  "line_of e = (case e of (md, sums, fname) \<Rightarrow> ids_line md sums fname)"

text \<open>What the program itself writes has no tabs in the first two fields; a file name that fits is another matter.\<close>

definition fields_ok :: "entry \<Rightarrow> bool" where
  "fields_ok e \<longleftrightarrow> (case e of (md, sums, fname) \<Rightarrow> tab \<notin> set md \<and> newline \<notin> set md \<and> tab \<notin> set sums \<and> newline \<notin> set sums)"

definition line_fits :: "entry \<Rightarrow> bool" where
  "line_fits e \<longleftrightarrow> newline \<notin> set (entry_name e) \<and> length (line_of e) < IDS_BUF"

lemma ids_text_lines:
  assumes "list_all fields_ok es" "list_all line_fits es"
  shows "fgets_lines IDS_BUF (concat (map line_of es)) = map line_of es"
proof -
  define ls where "ls = map (\<lambda>(md, sums, fname). md @ [tab] @ sums @ [tab] @ fname) es"
  have l: "map line_of es = map (\<lambda>l. l @ [newline]) ls" by (simp add: ls_def line_of_def ids_line_def case_prod_beta)
  have "list_all (\<lambda>l. newline \<notin> set l \<and> length l + 1 < IDS_BUF) ls"
    using assms by (auto simp: ls_def list_all_iff line_fits_def fields_ok_def line_of_def ids_line_def)
  from fgets_lines_concat [OF this] show ?thesis by (simp add: l)
qed

lemma db_line_entry:
  assumes "fields_ok (md, sums, fname)" "newline \<notin> set fname"
  shows "db_line (line_of (md, sums, fname)) db = Inr (db_add fname sums md db)"
  using assms by (simp add: db_line_def line_of_def ids_line_def fields_ok_def c_lib)

definition db_load :: "entry list \<Rightarrow> (nat \<Rightarrow> db_entry list) \<Rightarrow> nat \<Rightarrow> db_entry list" where
  "db_load es db = fold (\<lambda>(md, sums, fname). db_add fname sums md) es db"

lemma db_init_load:
  assumes "list_all fields_ok es" "list_all line_fits es"
  shows "db_init (concat (map line_of es)) s = Inr (s\<lparr>database := db_load es (database s)\<rparr>)"
proof -
  have "fold_result db_line (map line_of es) db = Inr (db_load es db)" for db
    using assms by (induction es arbitrary: db) (auto simp: db_load_def line_fits_def db_line_entry)
  then show ?thesis by (simp add: db_init_def ids_text_lines [OF assms])
qed

lemma line_of_inject:
  assumes "fields_ok e" "fields_ok e'" "line_of e = line_of e'"
  shows "e = e'"
proof -
  obtain m c f where e: "e = (m, c, f)" by (cases e)
  obtain m' c' f' where e': "e' = (m', c', f')" by (cases e')
  have cut: "cut_at tab (line_of (m, c, f)) = (m, Some (c @ tab # f @ [newline]))" "cut_at tab (c @ tab # f @ [newline]) = (c, Some (f @ [newline]))"
    if "fields_ok (m, c, f)" for m c f
    using that by (simp_all add: line_of_def ids_line_def fields_ok_def c_lib)
  have m: "m = m'" "c @ tab # f @ [newline] = c' @ tab # f' @ [newline]"
    using cut(1) [of m c f] cut(1) [of m' c' f'] assms by (auto simp: e e')
  have "(c, Some (f @ [newline])) = (c', Some (f' @ [newline]))"
    using cut(2) [of m c f] cut(2) [of m' c' f'] assms(1,2) unfolding e e' m(2) by simp
  with m(1) show ?thesis by (simp add: e e')
qed

lemma map_line_of_inject:
  "list_all fields_ok es \<Longrightarrow> list_all fields_ok es' \<Longrightarrow> map line_of es = map line_of es' \<Longrightarrow> es = es'"
proof (induction es arbitrary: es')
  case (Cons e es)
  then show ?case by (cases es') (auto intro: line_of_inject)
qed simp

subsection \<open>The fields that the program writes\<close>

lemma hex_digit_char: "d < 16 \<Longrightarrow> hex_digit d \<notin> {tab, newline}"
  by (drule less_16_cases) (auto simp: hex_digit_def)

lemma digits_16_chars: "{tab, newline} \<inter> set (digits_of 16 n) = {}"
proof (induction n rule: less_induct)
  case (less n)
  show ?case
  proof (cases "n < 16")
    case True
    then show ?thesis using hex_digit_char by (auto simp: digits_of.simps [of _ n])
  next
    case False
    then show ?thesis using less [of "n div 16"] hex_digit_char [of "n mod 16"] by (auto simp: digits_of.simps [of _ n])
  qed
qed

lemma str_checksum_chars: "tab \<notin> set (str_checksum c) \<and> newline \<notin> set (str_checksum c)"
  using digits_16_chars by (auto simp: str_checksum_def fmt_x_prec_def fmt_x_def)

lemma checksum_chars: "tab \<notin> set (checksum_of stack b) \<and> newline \<notin> set (checksum_of stack b)"
  using str_checksum_chars by (auto simp: checksum_of_def split: option.split)

lemma file_mode_chars: "tab \<notin> set (file_mode st) \<and> newline \<notin> set (file_mode st)"
proof -
  have "set (file_mode st) \<subseteq> {CHR ''r'', CHR ''w'', CHR ''x'', CHR ''-''}"
    by (auto simp: file_mode_def mode_bit_def split: option.splits if_splits dest: set_zip_rightD)
  then show ?thesis by auto
qed

definition entry_of :: "u8 list \<Rightarrow> fsys \<Rightarrow> string \<Rightarrow> u8 list \<Rightarrow> entry" where
  "entry_of stack fs fname content = (file_mode (fs_mode fs fname), checksum_of stack content, fname)"

lemma entry_of_ok: "fields_ok (entry_of stack fs fname content)"
  using checksum_chars file_mode_chars by (simp add: fields_ok_def entry_of_def)

subsection \<open>A check does what an initialisation would write\<close>

text \<open>What a check observes of its state, and the effect of a scanned file on it.\<close>

definition observed :: "ids \<Rightarrow> ids" where
  "observed s = s\<lparr>include_level := 0, f_scanned := 0, excludes := [], ids_out := [], ids_err := filter is_warning (ids_err s)\<rparr>"

definition replay_entry :: "entry \<Rightarrow> ids \<Rightarrow> ids" where
  "replay_entry e = (case e of (md, sums, fname) \<Rightarrow> db_check fname sums md)"

definition lockstep :: "ids \<Rightarrow> ids \<Rightarrow> ids \<Rightarrow> bool" where
  "lockstep o0 s t \<longleftrightarrow>
     arg_init s \<and> \<not> arg_init t \<and> arg_check t \<and> include_level s = include_level t \<and> f_scanned s = f_scanned t \<and> excludes s = excludes t \<and>
     (\<exists>es. list_all fields_ok es \<and> ids_out s = map line_of es \<and> observed t = fold replay_entry es o0)"

lemma lockstep_fold:
  assumes "\<And>x s t. x \<in> set xs \<Longrightarrow> lockstep o0 s t \<Longrightarrow> rel_sum (=) (lockstep o0) (f x s) (f x t)" "lockstep o0 s t"
  shows "rel_sum (=) (lockstep o0) (fold_result f xs s) (fold_result f xs t)"
  using assms
proof (induction xs arbitrary: s t)
  case (Cons x xs)
  have "rel_sum (=) (lockstep o0) (f x s) (f x t)" using Cons.prems by simp
  then show ?case using Cons.IH Cons.prems(1) by (cases "f x s"; cases "f x t") auto
qed simp

lemma observed_check: "observed (db_check fname sums md t) = db_check fname sums md (observed t)"
  by (auto simp: db_check_def observed_def Let_def split: option.split prod.split)

lemma check_control: "include_level (db_check fname sums md t) = include_level t" "f_scanned (db_check fname sums md t) = f_scanned t"
    "excludes (db_check fname sums md t) = excludes t" "arg_init (db_check fname sums md t) = arg_init t"
    "arg_check (db_check fname sums md t) = arg_check t"
  by (auto simp: db_check_def Let_def split: option.split prod.split)

lemma lockstep_file:
  assumes "lockstep o0 s t"
  shows "rel_sum (=) (lockstep o0) (file_checksum stack fs fname s) (file_checksum stack fs fname t)"
proof (cases "fs_bytes fs fname")
  case (Some content)
  obtain es where es: "list_all fields_ok es" "ids_out s = map line_of es" "observed t = fold replay_entry es o0"
    using assms by (auto simp: lockstep_def)
  let ?e = "entry_of stack fs fname content"
  have "list_all fields_ok (es @ [?e])" using es(1) entry_of_ok by simp
  moreover have "ids_out s @ [line_of ?e] = map line_of (es @ [?e])" using es(2) by simp
  moreover have "observed (replay_entry ?e t) = fold replay_entry (es @ [?e]) o0"
    using es(3) by (simp add: replay_entry_def entry_of_def observed_check)
  ultimately show ?thesis
    using assms Some by (auto simp: file_checksum_def lockstep_def Let_def check_control replay_entry_def entry_of_def line_of_def observed_def
        intro!: exI [of _ "es @ [?e]"])
qed (use assms in \<open>simp add: file_checksum_def\<close>)

lemma lockstep_list_directory:
  "lockstep o0 s t \<Longrightarrow> rel_sum (=) (lockstep o0) (list_directory stack fs level fname s) (list_directory stack fs level fname t)"
proof (induction "Suc MAX_DIR_LEVEL - level" arbitrary: level fname s t rule: less_induct)
  case less
  have ex: "db_exclude_check fname s = db_exclude_check fname t" using less.prems by (simp add: lockstep_def db_exclude_check_def)
  show ?case
  proof (cases "MAX_DIR_LEVEL < level \<or> db_exclude_check fname t \<or> fs_link fs fname")
    case True
    then show ?thesis using less.prems ex
      by (auto simp: list_directory.simps [of stack fs level fname] lockstep_def observed_def)
  next
    case False
    have "rel_sum (=) (lockstep o0)
        (fold_result (\<lambda>e s. if e = ''.'' \<or> e = ''..'' then Inr s else list_directory stack fs (level + 1) (fname @ ''/'' @ e) s) ents s)
        (fold_result (\<lambda>e s. if e = ''.'' \<or> e = ''..'' then Inr s else list_directory stack fs (level + 1) (fname @ ''/'' @ e) s) ents t)" for ents
    proof (rule lockstep_fold [OF _ less.prems])
      fix e s t assume "lockstep o0 s t"
      moreover have "Suc MAX_DIR_LEVEL - (level + 1) < Suc MAX_DIR_LEVEL - level" using False by auto
      ultimately show "rel_sum (=) (lockstep o0)
          (if e = ''.'' \<or> e = ''..'' then Inr s else list_directory stack fs (level + 1) (fname @ ''/'' @ e) s)
          (if e = ''.'' \<or> e = ''..'' then Inr t else list_directory stack fs (level + 1) (fname @ ''/'' @ e) t)"
        using less.hyps by simp
    qed
    then show ?thesis using less.prems ex False lockstep_file [OF less.prems]
      by (auto simp: list_directory.simps [of stack fs level fname] split: option.split)
  qed
qed

lemma lockstep_config_entry:
  assumes "\<And>f s t. lockstep o0 s t \<Longrightarrow> rel_sum (=) (lockstep o0) (inc f s) (inc f t)" "lockstep o0 s t"
  shows "rel_sum (=) (lockstep o0) (config_entry stack fs homedir inc buf s) (config_entry stack fs homedir inc buf t)"
proof -
  have "rel_sum (=) (lockstep o0) (ids_globbing stack fs f s) (ids_globbing stack fs f t)" for f
    using lockstep_fold [OF lockstep_list_directory assms(2)] assms(2) by (auto simp: ids_globbing_def split: option.split)
  moreover have "lockstep o0 (db_exclude_add f s) (db_exclude_add f t)" for f
    using assms(2) by (auto simp: lockstep_def db_exclude_add_def observed_def)
  ultimately show ?thesis using assms by (auto simp: config_entry_def Let_def)
qed

lemma lockstep_bind:
  "rel_sum (=) R x y \<Longrightarrow> (\<And>s t. R s t \<Longrightarrow> rel_sum (=) R (f s) (g t)) \<Longrightarrow> rel_sum (=) R (bind_result x f) (bind_result y g)"
  by (cases x; cases y) auto

lemma lockstep_upd:
  assumes "lockstep o0 s t"
  shows "lockstep o0 (s\<lparr>include_level := include_level s + k\<rparr>) (t\<lparr>include_level := include_level t + k\<rparr>)"
    "\<not> is_warning w \<Longrightarrow> lockstep o0 (s\<lparr>ids_err := ids_err s @ [w]\<rparr>) (t\<lparr>ids_err := ids_err t @ [w]\<rparr>)"
  using assms by (auto simp: lockstep_def observed_def)

lemma lockstep_process_config:
  "lockstep o0 s t \<Longrightarrow> rel_sum (=) (lockstep o0) (process_config n stack fs homedir fname s) (process_config n stack fs homedir fname t)"
proof (induction n arbitrary: fname s t)
  case (Suc n)
  define s1 where "s1 = (s\<lparr>include_level := include_level s + 1\<rparr>)\<lparr>ids_err := ids_err s @ [Opening fname]\<rparr>"
  define t1 where "t1 = (t\<lparr>include_level := include_level t + 1\<rparr>)\<lparr>ids_err := ids_err t @ [Opening fname]\<rparr>"
  have 1: "lockstep o0 s1 t1" using lockstep_upd(2) [OF lockstep_upd(1) [OF Suc.prems, of 1], of "Opening fname"] by (simp add: s1_def t1_def)
  have 2: "lockstep o0 (s1\<lparr>ids_err := ids_err s1 @ [Loading fname]\<rparr>) (t1\<lparr>ids_err := ids_err t1 @ [Loading fname]\<rparr>)"
    by (rule lockstep_upd(2) [OF 1]) simp
  have "rel_sum (=) (lockstep o0)
      (bind_result (fold_result (config_entry stack fs homedir (process_config n stack fs homedir)) ls (s1\<lparr>ids_err := ids_err s1 @ [Loading fname]\<rparr>))
        (\<lambda>s. Inr (s\<lparr>include_level := include_level s - 1\<rparr>)))
      (bind_result (fold_result (config_entry stack fs homedir (process_config n stack fs homedir)) ls (t1\<lparr>ids_err := ids_err t1 @ [Loading fname]\<rparr>))
        (\<lambda>s. Inr (s\<lparr>include_level := include_level s - 1\<rparr>)))" for ls
    by (rule lockstep_bind, rule lockstep_fold [OF lockstep_config_entry [OF Suc.IH] 2]) (auto dest: lockstep_upd(1) [where k = "-1"])
  moreover have "include_level s = include_level t" using Suc.prems by (simp add: lockstep_def)
  ultimately show ?case using 1 by (auto simp: Let_def s1_def t1_def split: option.split)
qed simp

subsection \<open>The hash table as a table of names\<close>

lemma hash_name_less: "hash_name f < HASH_MAX"
proof -
  have "(of_nat HASH_MAX - 1 :: u64) = mask 11" by (simp add: HASH_MAX_def mask_eq_exp_minus_1)
  then have "hash_name f = take_bit 11 (unat (hash_loop 5381 f))" by (simp add: hash_name_def unsigned_take_bit_eq flip: take_bit_eq_mask)
  also have "\<dots> < 2 ^ 11" by (rule take_bit_nat_less_exp)
  finally show ?thesis by (simp add: HASH_MAX_def)
qed

text \<open>The entries of a database that was loaded from lines, of which those with the names in \<open>C\<close> were checked.\<close>

definition loaded_entry :: "string set \<Rightarrow> entry \<Rightarrow> db_entry" where
  "loaded_entry C e = (case e of (md, sums, fname) \<Rightarrow>
     \<lparr>db_fname = fname, db_checksum = sums, db_mode = md, db_checked = fname \<in> C\<rparr>)"

definition table :: "entry list \<Rightarrow> string set \<Rightarrow> nat \<Rightarrow> db_entry list" where
  "table es C h = map (loaded_entry C) (filter (\<lambda>e. hash_name (entry_name e) = h) (rev es))"

lemma loaded_simps [simp]: "db_fname (loaded_entry C e) = entry_name e" "db_checksum (loaded_entry C e) = fst (snd e)" "db_mode (loaded_entry C e) = fst e"
    "db_checked (loaded_entry C e) = (entry_name e \<in> C)" "(loaded_entry C e)\<lparr>db_checked := True\<rparr> = loaded_entry (insert (entry_name e) C) e"
  by (simp_all add: loaded_entry_def case_prod_beta)

lemma loaded_other [simp]: "entry_name x \<noteq> f \<Longrightarrow> loaded_entry (insert f C) x = loaded_entry C x"
  by (auto simp: loaded_entry_def split: prod.splits)

lemma db_load_table: "db_load es (\<lambda>_. []) = table es {}"
proof (induction es rule: rev_induct)
  case (snoc e es)
  then show ?case by (auto simp: db_load_def table_def db_add_def loaded_entry_def Let_def fun_eq_iff split: prod.splits)
qed (simp add: db_load_def table_def)

lemma distinct_map_later: "distinct (map g (e # es)) \<Longrightarrow> x \<in> set es \<Longrightarrow> g x \<noteq> g e"
  by (auto simp: rev_image_eqI)

lemma mark_loaded:
  assumes "distinct (map entry_name es)"
  shows "mark f (map (loaded_entry C) es) =
    (map_option (loaded_entry C) (find (\<lambda>e. entry_name e = f) es), map (loaded_entry (insert f C)) es)"
  using assms
proof (induction es)
  case (Cons e es)
  show ?case
  proof (cases "entry_name e = f")
    case True
    have "loaded_entry (insert f C) x = loaded_entry C x" if "x \<in> set es" for x
      using distinct_map_later [OF Cons.prems that] True by (intro loaded_other) simp
    with True show ?thesis by (cases e) auto
  next
    case False
    with Cons show ?thesis by auto
  qed
qed simp

lemma find_rev_distinct:
  assumes "distinct (map entry_name es)"
  shows "find (\<lambda>e. entry_name e = f) (filter (\<lambda>e. hash_name (entry_name e) = hash_name f) (rev es)) = find (\<lambda>e. entry_name e = f) es"
proof -
  have f: "find P (filter Q xs) = find P xs" if "\<And>x. P x \<Longrightarrow> Q x" for P Q and xs :: "entry list"
    using that by (induction xs) auto
  have s: "find (\<lambda>e. entry_name e = f) (xs @ [e]) =
      (case find (\<lambda>e. entry_name e = f) xs of Some x \<Rightarrow> Some x | None \<Rightarrow> if entry_name e = f then Some e else None)" for xs e
    by (induction xs) auto
  have "find (\<lambda>e. entry_name e = f) (rev es) = find (\<lambda>e. entry_name e = f) es"
    using assms
  proof (induction es)
    case (Cons e es)
    have "find (\<lambda>e. entry_name e = f) es = None" if "entry_name e = f" using distinct_map_later [OF Cons.prems] that unfolding find_None_iff by metis
    with Cons show ?case by (auto simp: s split: option.splits)
  qed simp
  then show ?thesis
    using f [of "\<lambda>e. entry_name e = f" "\<lambda>e. hash_name (entry_name e) = hash_name f" "rev es"] by simp
qed

definition report :: "entry list \<Rightarrow> entry \<Rightarrow> ids_msg list" where
  "report es e = (case e of (md, sums, fname) \<Rightarrow>
     case find (\<lambda>e. entry_name e = fname) es of
       None \<Rightarrow> [NewFile fname]
     | Some (md0, sums0, _) \<Rightarrow>
         (if sums \<noteq> sums0 then [Modified fname] else []) @ (if md \<noteq> md0 then [Permissions fname md0 md] else []))"

lemma check_entry_table:
  assumes "distinct (map entry_name es)" "database s = table es C"
  shows "database (replay_entry e s) = table es (insert (entry_name e) C) \<and> ids_err (replay_entry e s) = ids_err s @ report es e"
proof -
  obtain md sums f where e: "e = (md, sums, f)" by (cases e)
  let ?b = "filter (\<lambda>e. hash_name (entry_name e) = hash_name f) (rev es)"
  have d: "distinct (map entry_name ?b)" using assms(1) by (simp add: rev_map [symmetric] distinct_map_filter)
  have m: "mark f (table es C (hash_name f)) =
      (map_option (loaded_entry C) (find (\<lambda>e. entry_name e = f) es), map (loaded_entry (insert f C)) ?b)"
    unfolding table_def mark_loaded [OF d] find_rev_distinct [OF assms(1)] ..
  have t: "table es (insert f C) = (table es C)(hash_name f := map (loaded_entry (insert f C)) ?b)"
    by (auto simp: table_def fun_eq_iff intro!: loaded_other)
  have n: "table es (insert f C) = table es C" if "find (\<lambda>e. entry_name e = f) es = None"
    using that by (auto simp: find_None_iff table_def fun_eq_iff loaded_entry_def split: prod.splits)
  show ?thesis
  proof (cases "find (\<lambda>e. entry_name e = f) es")
    case None
    then show ?thesis using assms(2) m n by (simp add: replay_entry_def db_check_def e report_def)
  next
    case (Some x)
    then show ?thesis using assms(2) m t by (cases x) (simp add: replay_entry_def db_check_def e report_def Let_def)
  qed
qed

lemma check_entries_table:
  assumes "distinct (map entry_name es)" "database s = table es C"
  shows "database (fold replay_entry es' s) = table es (C \<union> entry_name ` set es') \<and>
    ids_err (fold replay_entry es' s) = ids_err s @ concat (map (report es) es')"
  using assms(2)
proof (induction es' arbitrary: s C)
  case (Cons e es')
  from check_entry_table [OF assms(1) Cons.prems, of e] Cons.IH [of "replay_entry e s" "insert (entry_name e) C"] show ?case by simp
qed simp

lemma mset_buckets: "mset (concat (map (\<lambda>h. filter (\<lambda>x. g x = h) xs) [0..<n])) = mset (filter (\<lambda>x. g x < (n :: nat)) xs)"
proof (induction n)
  case (Suc n)
  have "mset (filter (\<lambda>x. g x < Suc n) xs) = mset (filter (\<lambda>x. g x < n) xs) + mset (filter (\<lambda>x. g x = n) xs)"
    by (induction xs) (auto simp: less_Suc_eq)
  with Suc show ?case by simp
qed simp

lemma db_missing_table:
  assumes "database s = table es C"
  shows "\<exists>rem. ids_err (db_missing s) = ids_err s @ rem \<and>
    mset rem = mset (map (\<lambda>e. Removed (entry_name e)) (filter (\<lambda>e. entry_name e \<notin> C) es))"
proof -
  let ?bs = "concat (map (\<lambda>h. filter (\<lambda>e. hash_name (entry_name e) = h) (rev es)) [0..<HASH_MAX])"
  have c: "concat (map (table es C) [0..<HASH_MAX]) = map (loaded_entry C) ?bs" by (simp add: table_def [abs_def] map_concat comp_def)
  have "mset ?bs = mset es" using mset_buckets [of "\<lambda>e. hash_name (entry_name e)" "rev es" HASH_MAX] hash_name_less by simp
  then have "mset (map (\<lambda>e. Removed (entry_name e)) (filter (\<lambda>e. entry_name e \<notin> C) ?bs)) =
      mset (map (\<lambda>e. Removed (entry_name e)) (filter (\<lambda>e. entry_name e \<notin> C) es))" by (simp only: mset_map mset_filter)
  then show ?thesis using assms c by (auto simp: db_missing_def Let_def filter_map comp_def)
qed

subsection \<open>What a check reports\<close>

definition init_state :: ids where
  "init_state = ids_start\<lparr>arg_init := True\<rparr>"

definition check_state :: "(nat \<Rightarrow> db_entry list) \<Rightarrow> ids" where
  "check_state db = ids_start\<lparr>arg_check := True, database := db\<rparr>"

lemma home_flag: "take 1 home = ''/'' \<Longrightarrow> ids_flags [home] s = Inr s"
  by (cases home) auto

lemma fids_main_init:
  assumes "take 1 home = ''/''"
  shows "fids_main stack fs inp [''--init'', home] =
    bind_result (run_config stack fs home init_state) (\<lambda>s. Inr (s\<lparr>ids_err := ids_err s @ [Initialized (f_scanned s)]\<rparr>))"
  using home_flag [OF assms] by (simp add: fids_main_def init_state_def ids_start_def)

lemma fids_main_check:
  assumes "take 1 home = ''/''"
  shows "fids_main stack fs inp [''--check'', home] =
    bind_result (db_init inp (ids_start\<lparr>arg_check := True\<rparr>)) (\<lambda>s.
      bind_result (run_config stack fs home s) (\<lambda>s. Inr (db_missing (summary s))))"
  using home_flag [OF assms] by (simp add: fids_main_def ids_start_def)

lemma run_config_lockstep:
  "rel_sum (=) (lockstep (observed (check_state db))) (run_config stack fs home init_state) (run_config stack fs home (check_state db))"
  unfolding run_config_def
  by (rule lockstep_process_config) (simp add: lockstep_def init_state_def check_state_def ids_start_def)

lemma init_entries:
  assumes "fids_main stack fs inp [''--init'', home] = Inr s" "take 1 home = ''/''"
  shows "\<exists>es. list_all fields_ok es \<and> ids_out s = map line_of es"
proof -
  obtain s0 where s0: "run_config stack fs home init_state = Inr s0" "ids_out s = ids_out s0"
    using assms by (auto simp: fids_main_init bind_result_eq_Inr_iff)
  with run_config_lockstep [of "\<lambda>_. []" stack fs home] show ?thesis
    by (cases "run_config stack fs home (check_state (\<lambda>_. []))") (auto simp: lockstep_def)
qed

lemma removed_are_warnings: "mset ws = mset (map Removed xs) \<Longrightarrow> filter is_warning ws = ws"
proof -
  assume "mset ws = mset (map Removed xs)"
  then have "set ws = Removed ` set xs" by (metis mset_eq_setD set_map)
  then show ?thesis by (auto simp: filter_id_conv)
qed

lemma observed_fields: "database (observed t) = database t" "ids_err (observed t) = filter is_warning (ids_err t)"
  by (simp_all add: observed_def)

lemma check_against:
  assumes home: "take 1 home = ''/''"
    and db: "list_all fields_ok es1" "list_all line_fits es1" "distinct (map entry_name es1)"
    and init2: "fids_main stack fs inp [''--init'', home] = Inr s2" "ids_out s2 = map line_of es2" "list_all fields_ok es2"
  shows "\<exists>t gone. fids_main stack fs (concat (map line_of es1)) [''--check'', home] = Inr t \<and>
    filter is_warning (ids_err t) = concat (map (report es1) es2) @ gone \<and>
    mset gone = mset (map (\<lambda>e. Removed (entry_name e)) (filter (\<lambda>e. entry_name e \<notin> entry_name ` set es2) es1))"
proof -
  define db1 where "db1 = table es1 {}"
  obtain s where s: "run_config stack fs home init_state = Inr s" "ids_out s = map line_of es2"
    using init2(1,2) by (auto simp: fids_main_init [OF home] bind_result_eq_Inr_iff)
  obtain t where t: "run_config stack fs home (check_state db1) = Inr t" "lockstep (observed (check_state db1)) s t"
    using run_config_lockstep [of db1 stack fs home] s(1) by (cases "run_config stack fs home (check_state db1)") auto
  obtain es where es: "list_all fields_ok es" "ids_out s = map line_of es" "observed t = fold replay_entry es (observed (check_state db1))"
    using t(2) by (auto simp: lockstep_def)
  have "es = es2" by (rule map_line_of_inject [OF es(1) init2(3)]) (use es(2) s(2) in simp)
  have o: "database (observed (check_state db1)) = table es1 {}" "ids_err (observed (check_state db1)) = []"
    by (simp_all add: check_state_def observed_def db1_def ids_start_def)
  have d: "database t = table es1 (entry_name ` set es2)" "filter is_warning (ids_err t) = concat (map (report es1) es2)"
    using check_entries_table [OF db(3) o(1), of es] o(2) \<open>es = es2\<close> unfolding es(3) [symmetric]
    by (simp_all add: observed_fields)
  have init: "db_init (concat (map line_of es1)) (ids_start\<lparr>arg_check := True\<rparr>) = Inr (check_state db1)"
    by (simp add: db_init_load [OF db(1,2)] check_state_def db1_def ids_start_def db_load_table)
  obtain gone where g: "ids_err (db_missing (summary t)) = ids_err (summary t) @ gone"
    "mset gone = mset (map (\<lambda>e. Removed (entry_name e)) (filter (\<lambda>e. entry_name e \<notin> entry_name ` set es2) es1))"
    using db_missing_table [of "summary t" es1 "entry_name ` set es2"] d(1) by (auto simp: summary_def)
  have "filter is_warning gone = gone"
    using g(2) removed_are_warnings [of gone "map entry_name (filter (\<lambda>e. entry_name e \<notin> entry_name ` set es2) es1)"] by (simp add: comp_def)
  then have "filter is_warning (ids_err (db_missing (summary t))) = concat (map (report es1) es2) @ gone"
    using g(1) d(2) by (simp add: summary_def)
  then show ?thesis using init t(1) g(2) by (auto simp: fids_main_check [OF home])
qed

text \<open>
  C14. The check reports exactly the differences. When the database was written by an initialisation on one state of the file
  system, with file names that fit on a line and are scanned once, a check on another state warns about a file exactly if an
  initialisation there would write another checksum, another mode or a name that is not in the database, in the order of
  the scan, and then about the names of the database that it would not write.
\<close>

theorem ids_check_reports:
  assumes "take 1 home = ''/''"
    and "fids_main stack1 fs1 inp1 [''--init'', home] = Inr s1" "ids_out s1 = map line_of es1"
    and "list_all fields_ok es1" "list_all line_fits es1" "distinct (map entry_name es1)"
    and "fids_main stack2 fs2 inp2 [''--init'', home] = Inr s2" "ids_out s2 = map line_of es2" "list_all fields_ok es2"
  shows "\<exists>t gone. fids_main stack2 fs2 (concat (ids_out s1)) [''--check'', home] = Inr t \<and>
    filter is_warning (ids_err t) = concat (map (report es1) es2) @ gone \<and>
    mset gone = mset (map (\<lambda>e. Removed (entry_name e)) (filter (\<lambda>e. entry_name e \<notin> entry_name ` set es2) es1))"
  unfolding assms(3) by (rule check_against [OF assms(1,4-9)])

lemma find_map_unique_name: "distinct (map entry_name es) \<Longrightarrow> e \<in> set es \<Longrightarrow> find (\<lambda>x. entry_name x = entry_name e) es = Some e"
proof (induction es)
  case (Cons x es)
  then show ?case using distinct_map_later [OF Cons.prems(1), of e] by (cases "x = e") auto
qed simp

text \<open>A check right after an initialisation is silent.\<close>

lemma ids_unchanged_silent:
  assumes "take 1 home = ''/''" "fids_main stack fs inp [''--init'', home] = Inr s" "ids_out s = map line_of es"
    "list_all fields_ok es" "list_all line_fits es" "distinct (map entry_name es)"
  shows "\<exists>t. fids_main stack fs (concat (ids_out s)) [''--check'', home] = Inr t \<and> filter is_warning (ids_err t) = []"
proof -
  have "report es e = []" if "e \<in> set es" for e
  proof -
    have "find (\<lambda>x. entry_name x = entry_name e) es = Some e"
      using find_map_unique_name [OF assms(6) that] .
    then show ?thesis by (auto simp: report_def split: prod.splits)
  qed
  then have r: "concat (map (report es) es) = []" by simp
  obtain t gone where t: "fids_main stack fs (concat (ids_out s)) [''--check'', home] = Inr t"
    "filter is_warning (ids_err t) = concat (map (report es) es) @ gone"
    "mset gone = mset (map (\<lambda>e. Removed (entry_name e)) (filter (\<lambda>e. entry_name e \<notin> entry_name ` set es) es))"
    using check_against [OF assms(1,4-6,2-4)] assms(3) by auto
  have "filter (\<lambda>e. entry_name e \<notin> entry_name ` set es) es = []" by (simp add: filter_empty_conv)
  then have "gone = []" using t(3) by simp
  then show ?thesis using t(1,2) r by auto
qed

subsection \<open>The levels of includes\<close>

lemma include_level_list_directory: "list_directory stack fs level fname s = Inr t \<Longrightarrow> include_level t = include_level s"
proof (induction "Suc MAX_DIR_LEVEL - level" arbitrary: level fname s t rule: less_induct)
  case less
  have leaf: "file_checksum stack fs fname s = Inr t \<Longrightarrow> include_level t = include_level s" for s t
    by (auto simp: file_checksum_def Let_def check_control bind_result_eq_Inr_iff split: option.splits if_splits)
  show ?case
  proof (cases "MAX_DIR_LEVEL < level")
    case False
    have dir: "include_level t = include_level s"
      if "fold_result (\<lambda>e s. if e = ''.'' \<or> e = ''..'' then Inr s else list_directory stack fs (level + 1) (fname @ ''/'' @ e) s) ents s = Inr t" for ents
      by (rule fold_result_inv [where I = "\<lambda>x. include_level x = include_level s", OF _ _ that])
        (use less.hyps [of "level + 1"] False in \<open>auto split: if_splits\<close>)
    show ?thesis using less.prems False leaf dir
      by (auto simp: list_directory.simps [of stack fs level fname] split: if_splits option.splits)
  qed (use less.prems in \<open>auto simp: list_directory.simps [of stack fs level fname]\<close>)
qed

lemma include_level_globbing: "ids_globbing stack fs f s = Inr t \<Longrightarrow> include_level t = include_level s"
  by (auto simp: ids_globbing_def split: if_splits option.splits
      elim!: fold_result_inv [where I = "\<lambda>x. include_level x = include_level s", rotated 2] dest: include_level_list_directory)

text \<open>The level never falls below its value at the start of a file, since a missing file leaves it raised.\<close>

lemma include_level_config:
  "process_config n stack fs homedir fname s = Inr t \<Longrightarrow> include_level s \<le> include_level t"
proof (induction n arbitrary: fname s t)
  case (Suc n)
  have step: "include_level s \<le> include_level t"
    if "config_entry stack fs homedir (process_config n stack fs homedir) b s = Inr t" for b s t
    using that Suc.IH include_level_globbing
    by (fastforce simp: config_entry_def db_exclude_add_def Let_def split: if_splits)
  have "include_level s \<le> include_level t"
    if "fold_result (config_entry stack fs homedir (process_config n stack fs homedir)) ls s = Inr t" for ls s t
    by (rule fold_result_inv [where I = "\<lambda>x. include_level s \<le> include_level x", OF _ _ that]) (auto dest!: step)
  from this [of _ "s\<lparr>include_level := include_level s + 1, ids_err := ids_err s @ [Opening fname, Loading fname]\<rparr>"] Suc.prems show ?case
    by (force simp: Let_def bind_result_eq_Inr_iff split: if_splits option.splits prod.splits)
qed simp

lemma list_directory_fuel: "list_directory stack fs level fname s \<noteq> Inl OutOfFuel"
proof (induction "Suc MAX_DIR_LEVEL - level" arbitrary: level fname s rule: less_induct)
  case less
  have leaf: "file_checksum stack fs fname s \<noteq> Inl OutOfFuel" by (auto simp: file_checksum_def Let_def split: option.splits)
  show ?case
  proof (cases "MAX_DIR_LEVEL < level")
    case False
    have "fold_result (\<lambda>e s. if e = ''.'' \<or> e = ''..'' then Inr s else list_directory stack fs (level + 1) (fname @ ''/'' @ e) s) ents s \<noteq> Inl OutOfFuel" for ents
      using less [of "level + 1"] False by (auto dest!: fold_result_Inl split: if_splits)
    then show ?thesis using leaf by (auto simp: list_directory.simps [of stack fs level fname] split: option.splits)
  qed (simp add: list_directory.simps [of stack fs level fname])
qed

lemma config_fuel:
  "IDS_MAX_INCLUDE_LEVEL - int n \<le> include_level s \<Longrightarrow> n \<noteq> 0 \<Longrightarrow> process_config n stack fs homedir fname s \<noteq> Inl OutOfFuel"
proof (induction n arbitrary: fname s)
  case (Suc n)
  define s1 where "s1 = s\<lparr>include_level := include_level s + 1, ids_err := ids_err s @ [Opening fname, Loading fname]\<rparr>"
  show ?case
  proof (cases "IDS_MAX_INCLUDE_LEVEL \<le> include_level s + 1")
    case False
    then have n: "n \<noteq> 0" using Suc.prems(1) by auto
    have "fold_result (config_entry stack fs homedir (process_config n stack fs homedir)) ls x \<noteq> Inl OutOfFuel"
      if "IDS_MAX_INCLUDE_LEVEL - int n \<le> include_level x" for ls x
      using that
    proof (induction ls arbitrary: x)
      case (Cons l ls)
      have "config_entry stack fs homedir (process_config n stack fs homedir) l x \<noteq> Inl OutOfFuel"
        using Suc.IH [OF Cons.prems n] list_directory_fuel
        by (auto simp: config_entry_def ids_globbing_def Let_def split: option.splits dest!: fold_result_Inl)
      moreover have "IDS_MAX_INCLUDE_LEVEL - int n \<le> include_level y"
        if "config_entry stack fs homedir (process_config n stack fs homedir) l x = Inr y" for y
        using that Cons.prems include_level_config include_level_globbing
        by (fastforce simp: config_entry_def db_exclude_add_def Let_def split: if_splits)
      ultimately show ?case using Cons.IH by (cases "config_entry stack fs homedir (process_config n stack fs homedir) l x") auto
    qed simp
    from this [of s1] Suc.prems(1) show ?thesis
      by (auto simp: Let_def s1_def bind_result_eq_Inl_iff split: option.splits)
  qed (simp add: Let_def)
qed simp

text \<open>
  The levels are enough: ten calls of \<open>process_config\<close> inside one another are never exceeded, so that the scan ends with the
  program's own error at the latest.
\<close>

theorem ids_scan_ends: "run_config stack fs home init_state \<noteq> Inl OutOfFuel"
  unfolding run_config_def by (rule config_fuel) (simp_all add: IDS_MAX_INCLUDE_LEVEL_def init_state_def ids_start_def)

subsection \<open>Faults of the check\<close>



text \<open>A file that two patterns of the configuration cover is reported as removed although it is there.\<close>

theorem ids_twice_removed:
  assumes "database s = db_load [e, e] (\<lambda>_. [])"
  shows "Removed (entry_name e) \<in> set (ids_err (db_missing (replay_entry e s)))"
proof -
  obtain md sums f where e: "e = (md, sums, f)" by (cases e)
  let ?s = "replay_entry e s"
  have "database ?s (hash_name f) = [loaded_entry {f} e, loaded_entry {} e]"
    using assms by (simp add: replay_entry_def db_check_def Let_def e db_load_table table_def)
  then have "loaded_entry {} e \<in> set (concat (map (database ?s) [0..<HASH_MAX]))" using hash_name_less [of f] by (auto simp: e intro!: bexI [of _ "hash_name f"])
  then show ?thesis using imageI [of "loaded_entry {} e" _ "\<lambda>e. Removed (db_fname e)"] by (auto simp: db_missing_def Let_def)
qed

text \<open>The summary always says that no file was removed: the removed files are counted after it is printed.\<close>

theorem ids_removed_uncounted:
  assumes "fids_main stack fs inp [''--check'', home] = Inr t" "take 1 home = ''/''"
  shows "\<exists>a b c d. Scanned a b c d 0 \<in> set (ids_err t)"
proof -
  obtain db t1 where t1: "run_config stack fs home (check_state db) = Inr t1" "t = db_missing (summary t1)"
    using assms(1) by (auto simp: fids_main_check [OF assms(2)] db_init_def check_state_def ids_start_def bind_result_eq_Inr_iff)
  have "lockstep (observed (check_state db)) s t1" if "run_config stack fs home init_state = Inr s" for s
    using run_config_lockstep [of db stack fs home] t1(1) that by simp
  then obtain es where es: "observed t1 = fold replay_entry es (observed (check_state db))"
    using run_config_lockstep [of db stack fs home] t1(1) by (cases "run_config stack fs home init_state") (auto simp: lockstep_def)
  have "f_removed (fold replay_entry es o0) = f_removed o0" for o0
    by (induction es arbitrary: o0) (auto simp: replay_entry_def db_check_def Let_def split: prod.splits option.splits)
  then have "f_removed (observed t1) = f_removed (observed (check_state db))" unfolding es .
  then have "f_removed (observed t1) = 0" by (simp add: observed_def check_state_def ids_start_def)
  then have "f_removed t1 = 0" by (simp add: observed_def)
  then show ?thesis using t1(2) by (auto simp: summary_def db_missing_def Let_def)
qed

lemma length_checksum: "length (checksum_of stack b) \<le> 64"
proof -
  have d: "length (fmt_x_prec 2 (unat x)) = 2" for x :: u8
  proof -
    have x: "unat x < 256" using unsigned_less [of x, where ?'a = nat] by simp
    then have "unat x div 16 < 16" by (simp add: less_mult_imp_div_less)
    then have "length (digits_of 16 (unat x)) \<le> 2" by (simp add: digits_of.simps [of _ "unat x"] digits_of.simps [of _ "unat x div 16"])
    then show ?thesis by (simp add: fmt_x_prec_def fmt_x_def)
  qed
  have "length (str_checksum c) = 2 * length c" for c by (induction c) (simp_all add: str_checksum_def d)
  moreover have "ctx_outlen (update m ctx) = ctx_outlen ctx" for m ctx
    unfolding update_def by (induction m arbitrary: ctx) simp_all
  then have "length c = 32" if "blake2b stack 32 m = Some c" for c m
    using that by (auto simp: blake2b_def init_ctx_def final_def split: if_splits)
  ultimately show ?thesis by (auto simp: checksum_of_def KEY_SIZE_def split: option.split)
qed

text \<open>A file system with one file that the configuration names.\<close>

definition one_file :: "u8 list \<Rightarrow> u32 \<Rightarrow> fsys" where
  "one_file content md = \<lparr>fs_link = (\<lambda>_. False), fs_dir = (\<lambda>_. False), fs_entries = (\<lambda>_. None),
     fs_bytes = (\<lambda>f. if f = ''/a'' then Some content else None), fs_mode = (\<lambda>_. Some md), fs_glob = (\<lambda>p. Some [p]),
     fs_config = (\<lambda>f. if f = IDS_CONFIG then Some (True, ''/a'' @ [newline]) else None)\<rparr>"

lemma one_file_simps [simp]:
  "fs_link (one_file c md) f = False" "fs_dir (one_file c md) f = False" "fs_bytes (one_file c md) ''/a'' = Some c"
  "fs_glob (one_file c md) f = Some [f]" "fs_config (one_file c md) IDS_CONFIG = Some (True, ''/a'' @ [newline])"
  by (simp_all add: one_file_def)

lemma one_file_init:
  "\<exists>s. fids_main stack (one_file content md) [] [''--init'', ''/h''] = Inr s \<and>
    ids_out s = map line_of [entry_of stack (one_file content md) ''/a'' content]"
proof -
  have l: "fgets_lines IDS_BUF (''/a'' @ [newline]) = [''/a'' @ [newline]]"
    using fgets_lines_concat [of IDS_BUF "[''/a'']"] by (simp add: IDS_BUF_def)
  have e: "config_entry stack (one_file content md) ''/h'' inc (''/a'' @ [newline]) s = list_directory stack (one_file content md) 1 ''/a'' s" for inc s
    by (simp add: config_entry_def ids_trim_def is_blank_def in_home_def ids_globbing_def Let_def fold_result_Nil)
  have d: "list_directory stack (one_file content md) 1 ''/a'' s =
      Inr (s\<lparr>ids_out := ids_out s @ [line_of (entry_of stack (one_file content md) ''/a'' content)], f_scanned := f_scanned s + 1\<rparr>)"
    if "arg_init s" "excludes s = []" for s
    using that by (simp add: list_directory.simps db_exclude_check_def MAX_DIR_LEVEL_def file_checksum_def entry_of_def line_of_def Let_def)
  have n: "(10 :: nat) = Suc 9" by simp
  show ?thesis unfolding fids_main_init [of "''/h''", simplified] run_config_def n process_config.simps(2)
    using l by (simp add: Let_def IDS_MAX_INCLUDE_LEVEL_def init_state_def ids_start_def e [simplified] d [simplified] fold_result_Nil)
qed


theorem ids_check_reports_witness:
  "\<exists>s1. fids_main [] (one_file [1] 0x1A4) [] [''--init'', ''/h''] = Inr s1 \<and>
    (\<exists>t gone. fids_main [] (one_file [1] 0x1FF) (concat (ids_out s1)) [''--check'', ''/h''] = Inr t \<and>
      filter is_warning (ids_err t) =
        concat (map (report [entry_of [] (one_file [1] 0x1A4) ''/a'' [1]]) [entry_of [] (one_file [1] 0x1FF) ''/a'' [1]]) @ gone \<and>
      mset gone = mset (map (\<lambda>e. Removed (entry_name e))
        (filter (\<lambda>e. entry_name e \<notin> entry_name ` set [entry_of [] (one_file [1] 0x1FF) ''/a'' [1]]) [entry_of [] (one_file [1] 0x1A4) ''/a'' [1]])))"
proof -
  let ?e1 = "entry_of [] (one_file [1] 0x1A4) ''/a'' [1]" let ?e2 = "entry_of [] (one_file [1] 0x1FF) ''/a'' [1]"
  obtain s1 where s1: "fids_main [] (one_file [1] 0x1A4) [] [''--init'', ''/h''] = Inr s1" "ids_out s1 = map line_of [?e1]"
    using one_file_init by blast
  obtain s2 where s2: "fids_main [] (one_file [1] 0x1FF) [] [''--init'', ''/h''] = Inr s2" "ids_out s2 = map line_of [?e2]"
    using one_file_init by blast
  have "length (file_mode (fs_mode (one_file [1] 0x1A4) ''/a'')) \<le> 9" by (simp add: file_mode_def split: option.split)
  then have "line_fits ?e1" using length_checksum [of "[]" "[1]"]
    by (simp add: line_fits_def entry_of_def line_of_def ids_line_def IDS_BUF_def)
  then show ?thesis
    using ids_check_reports [OF _ s1 _ _ _ s2] s1(1) entry_of_ok by simp
qed


text \<open>
  A missing file of an include leaves the level raised: nine of them in the configuration are as many as nine files that
  include one another, and the scan is refused.
\<close>

theorem ids_missing_includes:
  assumes "fs_config fs IDS_CONFIG = Some (True, concat (replicate 9 (''include x'' @ [newline])))" "fs_config fs ''/etc/firejail/x'' = None"
  shows "run_config stack fs home init_state = Inl (Exited ''maximum include level'')"
proof -
  have r: "concat (replicate 9 (''include x'' @ [newline])) = concat (map (\<lambda>l. l @ [newline]) (replicate 9 ''include x''))" by simp
  have l: "fgets_lines IDS_BUF (concat (replicate 9 (''include x'' @ [newline]))) = replicate 9 (''include x'' @ [newline])"
    unfolding r by (subst fgets_lines_concat) (simp_all add: IDS_BUF_def list_all_iff)
  have e: "config_entry stack fs home inc (''include x'' @ [newline]) s = inc ''/etc/firejail/x'' s" for inc s
    by (simp add: config_entry_def ids_trim_def is_blank_def Let_def)
  have miss: "process_config 9 stack fs home ''/etc/firejail/x'' s =
      (if 10 \<le> include_level s + 1 then Inl (Exited ''maximum include level'')
       else if include_level s = 0 then Inl (CannotOpen ''/etc/firejail/x'')
       else Inr (s\<lparr>include_level := include_level s + 1, ids_err := ids_err s @ [Opening ''/etc/firejail/x'']\<rparr>))" for s
    using assms(2) process_config.simps(2) [of 8] by (simp add: Let_def IDS_MAX_INCLUDE_LEVEL_def)
  have many: "fold_result (config_entry stack fs home (process_config 9 stack fs home)) (replicate k (''include x'' @ [newline])) s =
      Inl (Exited ''maximum include level'')" if "1 \<le> include_level s" "10 \<le> include_level s + int k" "k \<noteq> 0 \<or> 10 \<le> include_level s" "include_level s < 10" for k s
    using that
  proof (induction k arbitrary: s)
    case (Suc k)
    show ?case
    proof (cases "10 \<le> include_level s + 1")
      case True
      then show ?thesis by (simp add: e [simplified] miss [simplified])
    next
      case False
      with Suc show ?thesis by (cases "k = 0") (auto simp: e [simplified] miss [simplified])
    qed
  qed simp
  show ?thesis
    unfolding run_config_def using assms(1) process_config.simps(2) [of 9] l
      many [of "init_state\<lparr>include_level := 1, ids_err := [Opening IDS_CONFIG, Loading IDS_CONFIG]\<rparr>" 9]
    by (simp add: Let_def IDS_MAX_INCLUDE_LEVEL_def init_state_def ids_start_def)
qed

end
