(* ===== verification/Users.thy ===== *)
theory Users
  imports Checkcfg
begin

text \<open>
  Users: the database of those who may run the program, \<open>lib/firejail_user.c\<close>, and \<open>firejail/restrict_users.c\<close>, which hides
  the other users of the system from a sandbox.

  Files are their contents. What \<open>restrict_users\<close> does to the file system is a sequence of actions; which of them succeed is
  a parameter.
\<close>

subsection \<open>The database of users\<close>

definition USER_BUF :: nat where "USER_BUF = 4098"

text \<open>A line of \<open>login.defs\<close>: the two limits, whether the file is refused, and whether reading stops.\<close>

definition login_line :: "string \<Rightarrow> int \<times> int \<Rightarrow> (int \<times> int) option" where
  "login_line buf mins =
     (if take 1 buf = ''#'' then Some mins
      else let ptr = dropWhile is_blank (cstr buf) in
        if take 7 ptr = ''UID_MIN''
        then (case scan_int_d (drop 7 ptr) of None \<Rightarrow> None | Some (n, _) \<Rightarrow> if n < 0 then None else Some (n, snd mins))
        else if take 7 ptr = ''GID_MIN''
        then (case scan_int_d (drop 7 ptr) of None \<Rightarrow> None | Some (n, _) \<Rightarrow> if n < 0 then None else Some (fst mins, n))
        else Some mins)"

fun login_loop :: "string list \<Rightarrow> int \<times> int \<Rightarrow> (int \<times> int) option" where
  "login_loop [] mins = Some mins"
| "login_loop (buf # bufs) mins =
     (case login_line buf mins of
        None \<Rightarrow> None
      | Some mins \<Rightarrow> if (if take 1 buf = ''#'' then False else fst mins \<noteq> 0 \<and> snd mins \<noteq> 0) then Some mins else login_loop bufs mins)"

text \<open>The contents of the two places of \<open>login.defs\<close>.\<close>

definition init_uid_gid_min :: "string option \<Rightarrow> string option \<Rightarrow> int \<times> int \<Rightarrow> int \<times> int" where
  "init_uid_gid_min etc usr mins =
     (if fst mins \<noteq> 0 \<and> snd mins \<noteq> 0 then mins
      else case (case etc of None \<Rightarrow> usr | Some c \<Rightarrow> Some c) of
        None \<Rightarrow> (1000, 1000)
      | Some c \<Rightarrow>
          case login_loop (fgets_lines USER_BUF c) mins of
            None \<Rightarrow> (1000, 1000)
          | Some mins \<Rightarrow> if fst mins = 0 \<or> snd mins = 0 then (1000, 1000) else mins)"

datatype userdb = NoDatabase | Unreadable | Database string

definition user_line :: "string \<Rightarrow> string \<Rightarrow> bool" where
  "user_line name buf \<longleftrightarrow> take 1 buf \<noteq> ''#'' \<and> fst (cut_at newline (cstr buf)) = name"

definition user_found :: "userdb \<Rightarrow> string \<Rightarrow> bool result" where
  "user_found db name =
     (if name = ''root'' then Inr True
      else if name = ''nobody'' then Inr False
      else case db of
        NoDatabase \<Rightarrow> Inr True
      | Unreadable \<Rightarrow> Inl (CannotOpen ''firejail.users'')
      | Database content \<Rightarrow> Inr (list_ex (user_line name) (fgets_lines USER_BUF content)))"

text \<open>The check also reads the two limits, once.\<close>

definition firejail_user_check ::
    "string option \<Rightarrow> string option \<Rightarrow> string \<Rightarrow> userdb \<Rightarrow> int \<times> int \<Rightarrow> (bool \<times> int \<times> int) result" where
  "firejail_user_check etc usr name db mins =
     bind_result (user_found db name) (\<lambda>b. Inr (b, init_uid_gid_min etc usr mins))"

text \<open>
  \<open>getpwnam\<close> says whether the system has the user; opening the file for appending can fail. A new file is created without
  the check.
\<close>

definition firejail_user_add ::
    "(string \<Rightarrow> bool) \<Rightarrow> bool \<Rightarrow> string option \<Rightarrow> string option \<Rightarrow> string \<Rightarrow> userdb \<times> int \<times> int \<Rightarrow> (userdb \<times> int \<times> int) result" where
  "firejail_user_add getpwnam opens etc usr name st =
     (case st of (db, mins) \<Rightarrow>
      if \<not> getpwnam name then Inl (Exited ''user not found on this system'')
      else bind_result (if db = NoDatabase then Inr (False, mins) else firejail_user_check etc usr name db mins) (\<lambda>(found, mins).
        if found then Inr (db, mins)
        else if \<not> opens then Inr (db, mins)
        else Inr (Database ((case db of Database c \<Rightarrow> c | _ \<Rightarrow> []) @ name @ [newline]), mins)))"

subsection \<open>Actions and answers\<close>

datatype user_action =
    Tmpfs_Over string
  | Make_Dir string
  | Make_Path string
  | Set_Perms string u32 u32 u32
  | Fchmod string u32
  | Fchown string u32 u32
  | Bring_Back string
  | Create_File string string
  | Bind_File string string
  | Fs_Log string

datatype account_file = Absent | Link | Closed | Content string

datatype home_stat = Home_Closed | Home_Denied | Home_Failed | Home_Stat u32 u32 u32

text \<open>
  \<open>ue_home\<close> is what opening the home directory and then \<open>fstat\<close> give: the directory cannot be opened, \<open>fstat\<close> fails with
  \<open>EACCES\<close>, or with another error, or the owner, group and mode. \<open>ue_run\<close> says whether the directory of the user below
  \<open>/run/user\<close> can be opened, \<open>ue_creates\<close> which files can be created. What a system call answers may depend on what was done
  before it.
\<close>

record user_env =
  ue_uid :: u32
  ue_gid :: u32
  ue_uid_min :: int
  ue_gid_min :: int
  ue_homedir :: string
  ue_private :: bool
  ue_home :: home_stat
  ue_run :: bool
  ue_passwd :: account_file
  ue_group :: account_file
  ue_creates :: "string \<Rightarrow> bool"
  ue_succeeds :: "user_action list \<Rightarrow> user_action \<Rightarrow> bool"

record users =
  us_actions :: "user_action list"
  ulist :: "string list"

definition do_action :: "user_env \<Rightarrow> string \<Rightarrow> user_action \<Rightarrow> users \<Rightarrow> users result" where
  "do_action w msg a s = (if ue_succeeds w (us_actions s) a then Inr (s\<lparr>us_actions := us_actions s @ [a]\<rparr>) else Inl (ErrExit msg))"

definition fs_log :: "string \<Rightarrow> users \<Rightarrow> users" where
  "fs_log msg s = s\<lparr>us_actions := us_actions s @ [Fs_Log msg]\<rparr>"

definition ulist_add :: "string \<Rightarrow> string list \<Rightarrow> string list" where
  "ulist_add user ul = user # ul"

definition ulist_find :: "string list \<Rightarrow> string \<Rightarrow> bool" where
  "ulist_find ul user \<longleftrightarrow> list_ex (\<lambda>u. u = user) ul"

subsection \<open>Directories\<close>

definition home_dir :: "user_env \<Rightarrow> users \<Rightarrow> users result" where
  "home_dir w s =
     (if ue_succeeds w (us_actions s) (Make_Dir (ue_homedir w)) then Inr (s\<lparr>us_actions := us_actions s @ [Make_Dir (ue_homedir w)]\<rparr>)
      else bind_result (do_action w ''mkpath'' (Make_Path (ue_homedir w)) s) (do_action w ''mkdir'' (Make_Dir (ue_homedir w))))"

definition sanitize_home :: "user_env \<Rightarrow> users \<Rightarrow> users result" where
  "sanitize_home w s =
     (if ue_uid w = 0 then Inl AssertFailure
      else case ue_home w of
        Home_Closed \<Rightarrow> Inr s
      | Home_Denied \<Rightarrow> Inr s
      | Home_Failed \<Rightarrow> Inl (ErrExit ''fstat'')
      | Home_Stat uid gid md \<Rightarrow>
          bind_result (do_action w ''mount tmpfs'' (Tmpfs_Over ''/home'') s) (\<lambda>s.
          bind_result (home_dir w (fs_log ''tmpfs /home'' s)) (\<lambda>s.
          bind_result (do_action w ''set_perms'' (Set_Perms (ue_homedir w) uid gid md) (fs_log (''mkdir '' @ ue_homedir w) s)) (\<lambda>s.
          bind_result (do_action w ''mount bind'' (Bring_Back (ue_homedir w)) s) (\<lambda>s.
            Inr (if \<not> ue_private w then fs_log (''whitelist '' @ ue_homedir w) s else s))))))"

definition run_dir :: "user_env \<Rightarrow> string" where
  "run_dir w = ''/run/user/'' @ fmt_u (unat (ue_uid w))"

definition sanitize_run :: "user_env \<Rightarrow> users \<Rightarrow> users result" where
  "sanitize_run w s =
     (if \<not> ue_run w then Inr s
      else
        bind_result (do_action w ''mount tmpfs'' (Tmpfs_Over ''/run/user'') s) (\<lambda>s.
        bind_result (do_action w ''mkdir'' (Make_Dir (run_dir w)) (fs_log ''tmpfs /run/user'' s)) (\<lambda>s.
        bind_result (do_action w ''set_perms'' (Set_Perms (run_dir w) (ue_uid w) (ue_gid w) 0x1C0) (fs_log (''mkdir '' @ run_dir w) s)) (\<lambda>s.
        bind_result (do_action w ''mount bind'' (Bring_Back (run_dir w)) s) (\<lambda>s.
          Inr (fs_log (''whitelist '' @ run_dir w) s))))))"

subsection \<open>The files of accounts\<close>

definition ACCOUNT_BUF :: nat where "ACCOUNT_BUF = 1024"

text \<open>The name, and the text from the number on, of a line \<open>name:password:number:...\<close>.\<close>

definition account_fields :: "string \<Rightarrow> (string \<times> string) option" where
  "account_fields buf =
     (case cut_at (CHR '':'') buf of
        (_, None) \<Rightarrow> None
      | (name, Some r) \<Rightarrow>
          case cut_at (CHR '':'') r of
            (_, None) \<Rightarrow> None
          | (_, Some ptr) \<Rightarrow> if ptr = [] then None else Some (name, ptr))"

definition account_number :: "string \<Rightarrow> int option" where
  "account_number ptr = (case scan_int_d ptr of None \<Rightarrow> None | Some (n, _) \<Rightarrow> if n < 0 then None else Some n)"

text \<open>A line of \<open>/etc/passwd\<close>: the text written so far and the users that are left out; \<open>None\<close> is the jump to \<open>errout\<close>.\<close>

definition passwd_line :: "user_env \<Rightarrow> string \<Rightarrow> string \<times> string list \<Rightarrow> (string \<times> string list) option" where
  "passwd_line w buf s =
     (case s of (out, ul) \<Rightarrow>
      let buf = cstr buf in
      if buf = [] \<or> hd buf = CHR ''#'' then Some (out, ul)
      else case account_fields buf of
        None \<Rightarrow> None
      | Some (name, ptr) \<Rightarrow>
          case account_number ptr of
            None \<Rightarrow> None
          | Some uid \<Rightarrow>
              if uid < ue_uid_min w \<or> uid = 65534 then Some (out @ buf, ul)
              else if word_of_int uid \<noteq> ue_uid w then Some (out, ulist_add name ul)
              else Some (out @ buf, ul))"

text \<open>What was written and the users that were found before an error stay.\<close>

fun passwd_loop :: "user_env \<Rightarrow> string list \<Rightarrow> string \<times> string list \<Rightarrow> bool \<times> string \<times> string list" where
  "passwd_loop w [] s = (True, s)"
| "passwd_loop w (buf # bufs) s = (case passwd_line w buf s of None \<Rightarrow> (False, s) | Some s \<Rightarrow> passwd_loop w bufs s)"

definition RUN_PASSWD_FILE :: string where "RUN_PASSWD_FILE = ''/run/firejail/mnt/passwd''"
definition RUN_GROUP_FILE :: string where "RUN_GROUP_FILE = ''/run/firejail/mnt/group''"
definition RUN_RO_FILE :: string where "RUN_RO_FILE = ''/run/firejail/firejail.ro.file''"

text \<open>The new file is put over the old one and hidden itself; after an error nothing is mounted.\<close>

definition write_file :: "string \<Rightarrow> string \<Rightarrow> users \<Rightarrow> users" where
  "write_file new out s = s\<lparr>us_actions := us_actions s @ [Create_File new out]\<rparr>"

definition install_file :: "user_env \<Rightarrow> string \<Rightarrow> string \<Rightarrow> bool \<times> string \<Rightarrow> users \<Rightarrow> users result" where
  "install_file w new old r s =
     (if \<not> fst r then Inr (write_file new (snd r) s)
      else
        bind_result (do_action w ''chmod'' (Fchmod new 0x1A4) (write_file new (snd r) s)) (\<lambda>s.
        bind_result (do_action w ''chown'' (Fchown new 0 0) s) (\<lambda>s.
        bind_result (do_action w ''mount'' (Bind_File new old) s) (\<lambda>s.
        bind_result (do_action w ''mount'' (Bind_File RUN_RO_FILE new) s) (\<lambda>s.
          Inr (fs_log (''create '' @ old) s))))))"

definition sanitize_passwd :: "user_env \<Rightarrow> users \<Rightarrow> users result" where
  "sanitize_passwd w s =
     (if ue_passwd w = Absent then Inr s
      else if ue_uid_min w = 0 then Inl AssertFailure
      else case ue_passwd w of
        Link \<Rightarrow> Inl (Exited ''invalid /etc/passwd'')
      | Content c \<Rightarrow>
          if \<not> ue_creates w RUN_PASSWD_FILE then Inr s
          else (case passwd_loop w (fgets_lines ACCOUNT_BUF c) ([], ulist s) of
              (ok, out, ul) \<Rightarrow> install_file w RUN_PASSWD_FILE ''/etc/passwd'' (ok, out) (s\<lparr>ulist := ul\<rparr>))
      | _ \<Rightarrow> Inr s)"

text \<open>The tokens of \<open>strtok(ptr, ",\n")\<close>.\<close>

definition member_tokens :: "string \<Rightarrow> string list" where
  "member_tokens s = strtok (CHR '','') (map (\<lambda>c. if c = newline then CHR '','' else c) s)"

definition copy_line :: "string list \<Rightarrow> string \<Rightarrow> string \<Rightarrow> string option" where
  "copy_line ul buf ptr =
     (case cut_at (CHR '':'') ptr of
        (_, None) \<Rightarrow> None
      | (_, Some r) \<Rightarrow>
          if r = [] \<or> hd r = newline then Some buf
          else Some (take (length buf - length r) buf @ join_with (CHR '','') (filter (\<lambda>t. \<not> ulist_find ul t) (member_tokens r)) @ [newline]))"

definition group_line :: "user_env \<Rightarrow> string list \<Rightarrow> string \<Rightarrow> string \<Rightarrow> string option" where
  "group_line w ul buf out =
     (let buf = cstr buf in
      if buf = [] \<or> hd buf = CHR ''#'' then Some out
      else case account_fields buf of
        None \<Rightarrow> None
      | Some (name, ptr) \<Rightarrow>
          case account_number ptr of
            None \<Rightarrow> None
          | Some gid \<Rightarrow>
              if gid < ue_gid_min w \<or> gid = 65534 then map_option (\<lambda>l. out @ l) (copy_line ul buf ptr)
              else if word_of_int gid \<noteq> ue_gid w then Some out
              else map_option (\<lambda>l. out @ l) (copy_line ul buf ptr))"

fun group_loop :: "user_env \<Rightarrow> string list \<Rightarrow> string list \<Rightarrow> string \<Rightarrow> bool \<times> string" where
  "group_loop w ul [] out = (True, out)"
| "group_loop w ul (buf # bufs) out = (case group_line w ul buf out of None \<Rightarrow> (False, out) | Some out \<Rightarrow> group_loop w ul bufs out)"

definition sanitize_group :: "user_env \<Rightarrow> users \<Rightarrow> users result" where
  "sanitize_group w s =
     (if ue_group w = Absent then Inr s
      else if ue_gid_min w = 0 then Inl AssertFailure
      else case ue_group w of
        Link \<Rightarrow> Inl (Exited ''invalid /etc/group'')
      | Content c \<Rightarrow>
          if \<not> ue_creates w RUN_GROUP_FILE then Inr s
          else install_file w RUN_GROUP_FILE ''/etc/group'' (group_loop w (ulist s) (fgets_lines ACCOUNT_BUF c) []) s
      | _ \<Rightarrow> Inr s)"

definition restrict_users :: "user_env \<Rightarrow> bool \<Rightarrow> users \<Rightarrow> users result" where
  "restrict_users w arg_allusers s =
     (if arg_allusers \<or> ue_uid w = 0 then Inr s
      else
        bind_result
          (if take 6 (ue_homedir w) = ''/home/'' then sanitize_home w s
           else bind_result (do_action w ''mount tmpfs'' (Tmpfs_Over ''/home'') s) (\<lambda>s. Inr (fs_log ''tmpfs /home'' s))) (\<lambda>s.
        bind_result (sanitize_run w s) (\<lambda>s.
        bind_result (sanitize_passwd w s) (sanitize_group w))))"

subsection \<open>Accounts\<close>

text \<open>The name, password, number and remaining fields of an account; a group has its members there.\<close>

type_synonym 'r account = "string \<times> string \<times> nat \<times> 'r"

abbreviation plain_text :: "string \<Rightarrow> bool" where
  "plain_text s \<equiv> newline \<notin> set s \<and> NUL \<notin> set s"

fun account_text :: "string account \<Rightarrow> string" where
  "account_text (name, pw, n, rest) = name @ CHR '':'' # pw @ CHR '':'' # fmt_u n @ CHR '':'' # rest"

fun account_ok :: "string account \<Rightarrow> bool" where
  "account_ok (name, pw, n, rest) \<longleftrightarrow>
     CHR '':'' \<notin> set name \<and> plain_text name \<and> take 1 name \<noteq> ''#'' \<and> CHR '':'' \<notin> set pw \<and> plain_text pw \<and> n < 2 ^ 31 \<and>
     plain_text rest \<and> length (account_text (name, pw, n, rest)) + 1 < ACCOUNT_BUF"

definition member_name :: "string \<Rightarrow> bool" where
  "member_name m \<longleftrightarrow> m \<noteq> [] \<and> CHR '','' \<notin> set m \<and> plain_text m"

fun group_account :: "string list account \<Rightarrow> string account" where
  "group_account (name, pw, n, ms) = (name, pw, n, join_with (CHR '','') ms)"

fun group_ok :: "string list account \<Rightarrow> bool" where
  "group_ok (name, pw, n, ms) \<longleftrightarrow> account_ok (group_account (name, pw, n, ms)) \<and> list_all member_name ms"

text \<open>The accounts that a sandbox of the user shows: those of the system, and the own one.\<close>

definition shown :: "int \<Rightarrow> u32 \<Rightarrow> 'r account \<Rightarrow> bool" where
  "shown mn own a \<longleftrightarrow> (case a of (_, _, n, _) \<Rightarrow> int n < mn \<or> n = 65534 \<or> word_of_nat n = own)"

definition hidden_users :: "int \<Rightarrow> u32 \<Rightarrow> string account list \<Rightarrow> string list" where
  "hidden_users mn own as = map fst (filter (\<lambda>a. \<not> shown mn own a) as)"

definition account_lines :: "string account list \<Rightarrow> string" where
  "account_lines as = concat (map (\<lambda>a. account_text a @ [newline]) as)"

fun without_members :: "string list \<Rightarrow> string list account \<Rightarrow> string list account" where
  "without_members us (name, pw, n, ms) = (name, pw, n, filter (\<lambda>m. m \<notin> set us) ms)"

definition group_lines :: "string list account list \<Rightarrow> string" where
  "group_lines gs = account_lines (map group_account gs)"

lemma fmt_u_chars: "CHR '':'' \<notin> set (fmt_u n)" "newline \<notin> set (fmt_u n)" "NUL \<notin> set (fmt_u n)"
  using digits_of_digits [of 10 n] by (auto simp: fmt_u_def list_all_iff digit_value_def)

lemma account_fields_text:
  "account_ok (name, pw, n, rest) \<Longrightarrow>
   account_fields (account_text (name, pw, n, rest) @ [newline]) = Some (name, fmt_u n @ CHR '':'' # rest @ [newline])"
  by (simp add: account_fields_def cut_at_append fmt_u_def)

lemma account_number_text: "n < 2 ^ 31 \<Longrightarrow> account_number (fmt_u n @ CHR '':'' # r) = Some (int n)"
  by (simp add: account_number_def scan_int_d_def scan_u_fmt_u atoi_fmt_u_append digit_value_def)

lemma cstr_account: "account_ok a \<Longrightarrow> cstr (account_text a @ [newline]) = account_text a @ [newline]"
  by (cases a) (auto simp: cstr_def takeWhile_eq_all_conv fmt_u_chars)

lemma account_text_first: "account_ok a \<Longrightarrow> account_text a \<noteq> [] \<and> hd (account_text a) \<noteq> CHR ''#''"
proof -
  assume "account_ok a"
  moreover obtain name pw n rest where "a = (name, pw, n, rest)" by (cases a)
  ultimately show ?thesis by (cases name) auto
qed

lemma account_file_lines:
  assumes "list_all account_ok as"
  shows "fgets_lines ACCOUNT_BUF (account_lines as @ r) = map (\<lambda>a. account_text a @ [newline]) as @ fgets_lines ACCOUNT_BUF r"
proof -
  have "list_all (\<lambda>l. newline \<notin> set l \<and> length l + 1 < ACCOUNT_BUF) (map account_text as)"
    using assms by (auto simp: list_all_iff fmt_u_chars)
  from fgets_lines_append [OF this, of r] show ?thesis by (simp add: account_lines_def comp_def)
qed

lemma passwd_line_account:
  assumes "account_ok a"
  shows "passwd_line w (account_text a @ [newline]) (out, ul) =
    Some (if shown (ue_uid_min w) (ue_uid w) a then (out @ account_text a @ [newline], ul) else (out, fst a # ul))"
proof -
  obtain name pw n rest where a: "a = (name, pw, n, rest)" by (cases a)
  have n: "n < 2 ^ 31" using assms by (simp add: a)
  show ?thesis
    using cstr_account [OF assms] account_text_first [OF assms]
    by (simp add: passwd_line_def a account_fields_text [OF assms [unfolded a]] account_number_text [OF n] shown_def ulist_add_def
        Let_def del: account_text.simps)
qed

lemma passwd_loop_accounts:
  "list_all account_ok as \<Longrightarrow>
   passwd_loop w (map (\<lambda>a. account_text a @ [newline]) as @ bufs) (out, ul) =
   passwd_loop w bufs (out @ account_lines (filter (shown (ue_uid_min w) (ue_uid w)) as),
     rev (hidden_users (ue_uid_min w) (ue_uid w) as) @ ul)"
  by (induction as arbitrary: out ul) (auto simp: passwd_line_account account_lines_def hidden_users_def)

lemma member_tokens_join:
  assumes "list_all member_name ms"
  shows "member_tokens (join_with (CHR '','') ms @ [newline]) = ms"
proof -
  have t: "strtok (CHR '','') (join_with (CHR '','') ms @ '','') = ms"
    using assms
  proof (induction "CHR '',''" ms rule: join_with.induct)
    case 1
    then show ?case using strtok_append_sep [of "CHR '',''" "[]" "[]"] by simp
  qed (simp_all add: member_name_def strtok_word_sep)
  have "newline \<notin> set (join_with (CHR '','') ms)"
    using assms by (induction "CHR '',''" ms rule: join_with.induct) (auto simp: member_name_def)
  then have "map (\<lambda>c. if c = newline then CHR '','' else c) (join_with (CHR '','') ms) = join_with (CHR '','') ms"
    by (auto intro!: map_idI)
  with t show ?thesis by (simp add: member_tokens_def)
qed

lemma take_append_exact: "take (length (xs @ ys) - length ys) (xs @ ys) = xs"
  by simp

lemma copy_line_account:
  assumes "group_ok (name, pw, n, ms)"
  shows "copy_line ul (account_text (group_account (name, pw, n, ms)) @ [newline]) (fmt_u n @ CHR '':'' # join_with (CHR '','') ms @ [newline]) =
    Some (account_text (group_account (without_members ul (name, pw, n, ms))) @ [newline])"
proof -
  let ?r = "join_with (CHR '','') ms @ [newline]"
  have ms: "list_all member_name ms" using assms by simp
  have c: "cut_at (CHR '':'') (fmt_u n @ CHR '':'' # ?r) = (fmt_u n, Some ?r)" by (simp add: cut_at_append fmt_u_chars)
  have f: "filter (\<lambda>t. \<not> ulist_find ul t) ms = filter (\<lambda>m. m \<notin> set ul) ms"
    by (rule filter_cong) (auto simp: ulist_find_def list_ex_iff)
  show ?thesis
  proof (cases "ms = []")
    case True
    then show ?thesis unfolding copy_line_def c by simp
  next
    case False
    with ms have "hd ?r \<noteq> newline" by (cases "(CHR '','', ms)" rule: join_with.cases) (auto simp: member_name_def hd_append dest: hd_in_set)
    moreover have "take (length (account_text (group_account (name, pw, n, ms)) @ [newline]) - length ?r)
        (account_text (group_account (name, pw, n, ms)) @ [newline]) = account_text (name, pw, n, [])"
      using take_append_exact [of "account_text (name, pw, n, [])" ?r] by simp
    ultimately show ?thesis unfolding copy_line_def c by (simp add: member_tokens_join [OF ms] f)
  qed
qed

lemma group_line_account:
  assumes "group_ok g"
  shows "group_line w ul (account_text (group_account g) @ [newline]) out =
    Some (if shown (ue_gid_min w) (ue_gid w) g then out @ account_text (group_account (without_members ul g)) @ [newline] else out)"
proof -
  obtain name pw n ms where g: "g = (name, pw, n, ms)" by (cases g)
  have ok: "account_ok (name, pw, n, join_with (CHR '','') ms)" and n: "n < 2 ^ 31" using assms by (simp_all add: g)
  show ?thesis
    using cstr_account [OF ok] account_text_first [OF ok] copy_line_account [OF assms [unfolded g], of ul]
    by (simp add: group_line_def g account_fields_text [OF ok] account_number_text [OF n] shown_def
        Let_def del: account_text.simps group_ok.simps)
qed

lemma group_loop_accounts:
  "list_all group_ok gs \<Longrightarrow>
   group_loop w ul (map (\<lambda>g. account_text (group_account g) @ [newline]) gs @ bufs) out =
   group_loop w ul bufs (out @ group_lines (map (without_members ul) (filter (shown (ue_gid_min w) (ue_gid w)) gs)))"
  by (induction gs arbitrary: out) (auto simp: group_line_account group_lines_def account_lines_def)

lemma group_file_lines:
  assumes "list_all group_ok gs"
  shows "fgets_lines ACCOUNT_BUF (group_lines gs @ r) =
    map (\<lambda>g. account_text (group_account g) @ [newline]) gs @ fgets_lines ACCOUNT_BUF r"
proof -
  have "list_all account_ok (map group_account gs)" using assms by (auto simp: list_all_iff simp del: account_ok.simps)
  from account_file_lines [OF this, of r] show ?thesis by (simp add: group_lines_def comp_def)
qed

subsection \<open>What the sandbox sees\<close>

abbreviation put_over :: "string \<Rightarrow> string \<Rightarrow> string \<Rightarrow> user_action list" where
  "put_over new old content \<equiv>
     [Create_File new content, Fchmod new 0x1A4, Fchown new 0 0, Bind_File new old, Bind_File RUN_RO_FILE new, Fs_Log (''create '' @ old)]"

lemma install_file_ok:
  "(\<And>l a. ue_succeeds w l a) \<Longrightarrow>
   install_file w new old (True, out) s = Inr (s\<lparr>us_actions := us_actions s @ put_over new old out\<rparr>)"
  by (simp add: install_file_def write_file_def do_action_def fs_log_def)

lemma sanitize_home_total:
  assumes "\<And>l a. ue_succeeds w l a" "ue_uid w \<noteq> 0" "ue_home w \<noteq> Home_Failed"
  shows "\<exists>acts. sanitize_home w s = Inr \<lparr>us_actions = acts, ulist = ulist s\<rparr>"
  using assms by (cases s) (auto simp: sanitize_home_def home_dir_def do_action_def fs_log_def split: home_stat.splits)

lemma sanitize_run_total:
  assumes "\<And>l a. ue_succeeds w l a"
  shows "\<exists>acts. sanitize_run w s = Inr \<lparr>us_actions = acts, ulist = ulist s\<rparr>"
  using assms by (cases s) (auto simp: sanitize_run_def do_action_def fs_log_def)

text \<open>
  C39. In a sandbox of an ordinary user, when the account files are well formed and the system calls succeed,
  \<open>/etc/passwd\<close> is covered by exactly the entries of the system accounts (below \<open>UID_MIN\<close>, and nobody) and of the user, in
  their order, and \<open>/etc/group\<close> by exactly the system groups and the user's own, with every hidden user taken out of the
  lists of members. The new files are hidden as well.
\<close>

theorem restrict_users_shows:
  assumes "\<And>l a. ue_succeeds w l a" "\<And>f. ue_creates w f" "ue_uid w \<noteq> 0" "ue_home w \<noteq> Home_Failed"
    and "ue_uid_min w \<noteq> 0" "ue_gid_min w \<noteq> 0"
    and "ue_passwd w = Content (account_lines as)" "list_all account_ok as"
    and "ue_group w = Content (group_lines gs)" "list_all group_ok gs"
  shows "\<exists>acts s. restrict_users w False \<lparr>us_actions = [], ulist = []\<rparr> = Inr s \<and>
    us_actions s = acts @
      put_over RUN_PASSWD_FILE ''/etc/passwd'' (account_lines (filter (shown (ue_uid_min w) (ue_uid w)) as)) @
      put_over RUN_GROUP_FILE ''/etc/group''
        (group_lines (map (without_members (hidden_users (ue_uid_min w) (ue_uid w) as)) (filter (shown (ue_gid_min w) (ue_gid w)) gs)))"
proof -
  have nil: "fgets_lines ACCOUNT_BUF [] = []" by (simp add: fgets_lines.simps fgets_line_def)
  let ?us = "rev (hidden_users (ue_uid_min w) (ue_uid w) as)"
  have p: "sanitize_passwd w s =
      Inr (s\<lparr>us_actions := us_actions s @
        put_over RUN_PASSWD_FILE ''/etc/passwd'' (account_lines (filter (shown (ue_uid_min w) (ue_uid w)) as)), ulist := ?us\<rparr>)"
    if "ulist s = []" for s
    using passwd_loop_accounts [OF assms(8), of w "[]" "[]" "[]"] account_file_lines [OF assms(8), of "[]"] that assms(2,5,7)
    by (simp add: sanitize_passwd_def nil install_file_ok [OF assms(1)])
  have wm: "without_members ?us = without_members (hidden_users (ue_uid_min w) (ue_uid w) as)"
    by (rule ext) (auto elim!: without_members.elims)
  have g: "sanitize_group w s =
      Inr (s\<lparr>us_actions := us_actions s @ put_over RUN_GROUP_FILE ''/etc/group''
        (group_lines (map (without_members (ulist s)) (filter (shown (ue_gid_min w) (ue_gid w)) gs)))\<rparr>)" for s
    using group_loop_accounts [OF assms(10), of w "ulist s" "[]" "[]"] group_file_lines [OF assms(10), of "[]"] assms(2,6,9)
    by (simp add: sanitize_group_def nil install_file_ok [OF assms(1)])
  define s0 where "s0 = (if take 6 (ue_homedir w) = ''/home/'' then sanitize_home w \<lparr>us_actions = [], ulist = []\<rparr>
    else bind_result (do_action w ''mount tmpfs'' (Tmpfs_Over ''/home'') \<lparr>us_actions = [], ulist = []\<rparr>) (\<lambda>s. Inr (fs_log ''tmpfs /home'' s)))"
  have "\<exists>acts. s0 = Inr \<lparr>us_actions = acts, ulist = []\<rparr>"
    using sanitize_home_total [OF assms(1,3,4), of "\<lparr>us_actions = [], ulist = []\<rparr>"] assms(1)
    by (simp add: s0_def do_action_def fs_log_def)
  then obtain acts where a: "s0 = Inr \<lparr>us_actions = acts, ulist = []\<rparr>" by blast
  obtain acts2 where "sanitize_run w \<lparr>us_actions = acts, ulist = []\<rparr> = Inr \<lparr>us_actions = acts2, ulist = []\<rparr>"
    using sanitize_run_total [OF assms(1), of "\<lparr>us_actions = acts, ulist = []\<rparr>"] by auto
  then have "restrict_users w False \<lparr>us_actions = [], ulist = []\<rparr> =
      bind_result (sanitize_passwd w \<lparr>us_actions = acts2, ulist = []\<rparr>) (sanitize_group w)"
    using assms(3) a by (simp add: restrict_users_def s0_def [symmetric])
  then show ?thesis by (simp add: p g wm)
qed

abbreviation two_users :: user_env where
  "two_users \<equiv>
     \<lparr>ue_uid = 1000, ue_gid = 1000, ue_uid_min = 1000, ue_gid_min = 1000, ue_homedir = ''/home/a'', ue_private = False,
      ue_home = Home_Stat 1000 1000 0x41C0, ue_run = True,
      ue_passwd = Content (account_lines [(''root'', ''x'', 0, ''0:''), (''a'', ''x'', 1000, ''1000:''), (''b'', ''x'', 1001, ''1001:'')]),
      ue_group = Content (group_lines [(''games'', ''x'', 60, [''a'', ''b'']), (''b'', ''x'', 1001, [])]),
      ue_creates = \<lambda>_. True, ue_succeeds = \<lambda>_ _. True\<rparr>"

theorem restrict_users_shows_witness:
  "\<exists>acts s. restrict_users two_users False \<lparr>us_actions = [], ulist = []\<rparr> = Inr s \<and>
    us_actions s = acts @
      put_over RUN_PASSWD_FILE ''/etc/passwd'' (account_lines [(''root'', ''x'', 0, ''0:''), (''a'', ''x'', 1000, ''1000:'')]) @
      put_over RUN_GROUP_FILE ''/etc/group'' (group_lines [(''games'', ''x'', 60, [''a''])])"
proof -
  have d: "fmt_u 0 = ''0''" "fmt_u 60 = ''60''" "fmt_u 1000 = ''1000''" "fmt_u 1001 = ''1001''"
    by (simp_all add: fmt_u_def digits_of.simps hex_digit_def)
  show ?thesis
    using restrict_users_shows [of two_users "[(''root'', ''x'', 0, ''0:''), (''a'', ''x'', 1000, ''1000:''), (''b'', ''x'', 1001, ''1001:'')]"
        "[(''games'', ''x'', 60, [''a'', ''b'']), (''b'', ''x'', 1001, [])]"]
    by (simp add: shown_def hidden_users_def d ACCOUNT_BUF_def member_name_def)
qed

text \<open>What the sandbox sees of \<open>/etc/passwd\<close> when nothing is put over it.\<close>

definition passwd_uncovered :: "users \<Rightarrow> bool" where
  "passwd_uncovered s \<longleftrightarrow> list_all (\<lambda>a. case a of Bind_File _ old \<Rightarrow> old \<noteq> ''/etc/passwd'' | _ \<Rightarrow> True) (us_actions s)"

lemma uncovered_log [simp]: "passwd_uncovered (fs_log msg s) = passwd_uncovered s"
  by (simp add: passwd_uncovered_def fs_log_def)

lemma uncovered_write [simp]: "passwd_uncovered (write_file new out s) = passwd_uncovered s"
  by (simp add: passwd_uncovered_def write_file_def)

lemma uncovered_ulist [simp]: "passwd_uncovered (s\<lparr>ulist := ul\<rparr>) = passwd_uncovered s"
  by (simp add: passwd_uncovered_def)

lemma uncovered_home: "sanitize_home w s = Inr s' \<Longrightarrow> passwd_uncovered s \<Longrightarrow> passwd_uncovered s'"
  by (auto simp: sanitize_home_def home_dir_def bind_result_eq_Inr_iff passwd_uncovered_def do_action_def fs_log_def
      split: if_splits home_stat.splits)

lemma uncovered_run: "sanitize_run w s = Inr s' \<Longrightarrow> passwd_uncovered s \<Longrightarrow> passwd_uncovered s'"
  by (auto simp: sanitize_run_def bind_result_eq_Inr_iff passwd_uncovered_def do_action_def fs_log_def split: if_splits)

lemma uncovered_group: "sanitize_group w s = Inr s' \<Longrightarrow> passwd_uncovered s \<Longrightarrow> passwd_uncovered s'"
  by (auto simp: sanitize_group_def install_file_def bind_result_eq_Inr_iff passwd_uncovered_def do_action_def fs_log_def write_file_def
      RUN_GROUP_FILE_def split: if_splits account_file.splits)

lemma passwd_gives_up:
  assumes "list_all account_ok as"
  shows "passwd_loop w (fgets_lines ACCOUNT_BUF (account_lines as @ newline # r)) (out, ul) =
    (False, out @ account_lines (filter (shown (ue_uid_min w) (ue_uid w)) as), rev (hidden_users (ue_uid_min w) (ue_uid w) as) @ ul)"
proof -
  have "fgets_lines ACCOUNT_BUF (newline # r) = [newline] # fgets_lines ACCOUNT_BUF r"
    using fgets_lines_append [of ACCOUNT_BUF "[[]]" r] by (simp add: ACCOUNT_BUF_def)
  moreover have "passwd_line w [newline] st = None" for st
    by (simp add: passwd_line_def cstr_def account_fields_def split: prod.splits)
  ultimately show ?thesis by (simp add: account_file_lines [OF assms] passwd_loop_accounts [OF assms])
qed

text \<open>
  C40. An empty line in \<open>/etc/passwd\<close> is meant to be skipped, but the test looks for an empty buffer while the line
  still has its newline. The clean-up then gives up with a warning and the sandbox starts with the system's own
  \<open>/etc/passwd\<close>, all users included.
\<close>

theorem empty_line_shows_all:
  assumes "ue_passwd w = Content (account_lines as @ newline # r)" "list_all account_ok as"
    and "restrict_users w arg_allusers \<lparr>us_actions = [], ulist = []\<rparr> = Inr s"
  shows "passwd_uncovered s"
proof -
  have p: "passwd_uncovered s2" if "sanitize_passwd w s1 = Inr s2" "passwd_uncovered s1" for s1 s2
    using that assms(1)
    by (auto simp: sanitize_passwd_def passwd_gives_up [OF assms(2)] install_file_def split: if_splits)
  have u: "passwd_uncovered \<lparr>us_actions = [], ulist = []\<rparr>" by (simp add: passwd_uncovered_def)
  show ?thesis
    using assms(3) p u uncovered_home uncovered_run uncovered_group
    by (fastforce simp: restrict_users_def bind_result_eq_Inr_iff do_action_def passwd_uncovered_def fs_log_def split: if_splits)
qed

theorem empty_line_shows_all_witness:
  "\<exists>s. restrict_users
      (two_users\<lparr>ue_passwd := Content (account_lines [(''a'', ''x'', 1000, ''1000:'')] @ newline # ''b:x:1001:1001:''), ue_group := Absent\<rparr>)
      False \<lparr>us_actions = [], ulist = []\<rparr> = Inr s \<and> passwd_uncovered s"
proof -
  let ?w = "two_users\<lparr>ue_passwd := Content (account_lines [(''a'', ''x'', 1000, ''1000:'')] @ newline # ''b:x:1001:1001:''), ue_group := Absent\<rparr>"
  have ok: "list_all account_ok [(''a'', ''x'', 1000, ''1000:'')]" by (simp add: ACCOUNT_BUF_def fmt_u_def digits_of.simps)
  have "\<exists>s. restrict_users ?w False \<lparr>us_actions = [], ulist = []\<rparr> = Inr s"
    using passwd_gives_up [OF ok, of ?w "''b:x:1001:1001:''"]
    by (simp add: restrict_users_def sanitize_home_def home_dir_def sanitize_run_def sanitize_passwd_def sanitize_group_def
        do_action_def fs_log_def install_file_def)
  then obtain s where "restrict_users ?w False \<lparr>us_actions = [], ulist = []\<rparr> = Inr s" by blast
  with empty_line_shows_all [OF _ ok this, of "''b:x:1001:1001:''"] show ?thesis by auto
qed

subsection \<open>Adding users\<close>

text \<open>A database as the program writes it: a user in every line.\<close>

definition user_name :: "string \<Rightarrow> bool" where
  "user_name u \<longleftrightarrow> plain_text u \<and> u \<noteq> [] \<and> hd u \<noteq> CHR ''#'' \<and> length u + 1 < USER_BUF"

definition user_lines :: "string list \<Rightarrow> string" where
  "user_lines us = concat (map (\<lambda>u. u @ [newline]) us)"

lemma user_found_lines:
  assumes "list_all user_name us"
  shows "user_found (Database (user_lines us)) u = Inr (u = ''root'' \<or> u \<noteq> ''nobody'' \<and> u \<in> set us)"
proof -
  have l: "fgets_lines USER_BUF (user_lines us) = map (\<lambda>u. u @ [newline]) us"
    using assms fgets_lines_append [of USER_BUF us "[]"]
    by (simp add: user_lines_def list_all_iff user_name_def fgets_lines.simps [of _ "[]"] fgets_line_def)
  have "user_line u (v @ [newline]) \<longleftrightarrow> u = v" if "v \<in> set us" for v
  proof -
    from that assms have v: "plain_text v" "v \<noteq> []" "hd v \<noteq> CHR ''#''" by (auto simp: list_all_iff user_name_def)
    then have "cstr (v @ [newline]) = v @ [newline]" by (auto simp: cstr_def takeWhile_eq_all_conv)
    moreover have "take 1 (v @ [newline]) \<noteq> ''#''" using v by (cases v) auto
    ultimately show ?thesis using v(1) cut_at_append [of newline v "[]"] by (auto simp: user_line_def)
  qed
  then show ?thesis by (auto simp: user_found_def l list_ex_iff)
qed

text \<open>
  C0. Adding a user to a database that the program wrote lets that user, except nobody, start the program, and changes
  nothing for any other user. The database that did not exist let everyone in; once a user has been added, only that
  user and root are let in.
\<close>

theorem user_add_check:
  assumes "firejail_user_add getpwnam True etc usr name (db, mins) = Inr (db', mins')"
    and "db = NoDatabase \<and> us = [] \<or> db = Database (user_lines us)" "list_all user_name us" "user_name name"
  shows "user_found db' u = Inr (u = ''root'' \<or> u \<noteq> ''nobody'' \<and> (u = name \<or> u \<in> set us))"
proof (cases "db' = db")
  case True
  with assms have "db = Database (user_lines us)" "user_found db name = Inr True"
    by (auto simp: firejail_user_add_def firejail_user_check_def bind_result_eq_Inr_iff split: if_splits)
  then show ?thesis using True user_found_lines [OF assms(3)] by auto
next
  case False
  with assms have "db' = Database (user_lines (us @ [name]))"
    by (auto simp: firejail_user_add_def firejail_user_check_def bind_result_eq_Inr_iff user_lines_def split: if_splits)
  then show ?thesis using False user_found_lines [of "us @ [name]" u] assms(3,4) by auto
qed

theorem user_add_check_witness:
  "user_found (Database (user_lines [''alice'', ''bob''])) ''bob'' = Inr True \<and>
   user_found (Database (user_lines [''alice'', ''bob''])) ''alice'' = Inr True \<and>
   user_found (Database (user_lines [''alice'', ''bob''])) ''carol'' = Inr False"
proof -
  have us: "list_all user_name [''alice'']" "user_name ''bob''" by (simp_all add: user_name_def USER_BUF_def)
  have "firejail_user_add (\<lambda>_. True) True None None ''bob'' (Database (user_lines [''alice'']), 1000, 1000) =
      Inr (Database (user_lines [''alice'', ''bob'']), 1000, 1000)"
    by (simp add: firejail_user_add_def firejail_user_check_def user_found_lines [OF us(1)] init_uid_gid_min_def)
       (simp add: user_lines_def)
  from user_add_check [OF this disjI2 [OF refl] us] show ?thesis by simp
qed

text \<open>A database that was edited and lacks the last newline loses both users.\<close>

theorem names_joined:
  "firejail_user_add (\<lambda>_. True) True None None ''bob'' (Database ''alice'', 1000, 1000) =
     Inr (Database (user_lines [''alicebob'']), 1000, 1000) \<and>
   user_found (Database ''alice'') ''alice'' = Inr True \<and>
   user_found (Database (user_lines [''alicebob''])) ''alice'' = Inr False \<and>
   user_found (Database (user_lines [''alicebob''])) ''bob'' = Inr False"
proof -
  have f: "fgets_lines USER_BUF ''alice'' = [''alice'']" by (simp add: fgets_lines.simps fgets_line_def USER_BUF_def)
  have u: "user_found (Database ''alice'') n = Inr (n = ''root'' \<or> n = ''alice'')" for n
    by (auto simp: user_found_def f user_line_def cstr_def)
  have "list_all user_name [''alicebob'']" by (simp add: user_name_def USER_BUF_def)
  from user_found_lines [OF this] show ?thesis
    by (simp add: firejail_user_add_def firejail_user_check_def u init_uid_gid_min_def) (simp add: user_lines_def)
qed

end
