(* ===== verification/Spec2Isabelle.thy ===== *)
theory Spec2Isabelle
  imports Fseccomp_Main Fsec_Print Radix Blake2b Cmdline Sbox Startup Drop_Privs Fs_Whitelist Fnettrace_Monitor Fids Users
begin

text \<open>
  A verification development for firejail, the C sandboxing program under \<open>src/firejail/src\<close>.

  \<^bold>\<open>The program.\<close> \<open>firejail\<close> reads options and profiles into a configuration, builds a sandbox (name spaces, file
  system, network, capabilities, seccomp filters) and runs an application in it. It delegates work to small helper
  programs that it runs in a sandbox of their own: \<open>fseccomp\<close> writes seccomp filters to files, \<open>fsec-optimize\<close> rewrites
  a filter file, \<open>fsec-print\<close> lists one, \<open>fnettrace\<close> monitors traffic, \<open>fids\<close> detects changes of files. The core logic
  is what decides which system calls, capabilities and environment variables the sandboxed program gets, and that is
  what is modelled first.

  \<^bold>\<open>The theories\<close>, from the bottom:

  \<^item> \<open>Firejail_Prelude\<close>: integer widths, the result type with one constructor per error exit, folding of fallible
    steps, and the functions of the C library that the sources call (\<open>strtok\<close>, \<open>strtol\<close>, \<open>strchr\<close>, \<dots>).
    \<open>C_Format\<close>: the conversions of \<open>printf\<close> that are used.
  \<^item> \<open>Bpf\<close>: the macros of \<open>include/seccomp.h\<close> and the kernel's filter interpreter as the locale \<open>bpf_vm\<close>, which every
    verdict theorem takes as a parameter; \<open>bpf_run\<close> interprets it.
  \<^item> \<open>Syscall_Tables\<close>, \<open>Errno_Table\<close>, \<open>Syscall_Groups\<close>, \<open>Syscall_List\<close>: \<open>lib/syscall.c\<close> and \<open>lib/errno.c\<close> with the
    generated tables: lookups and their inverses, the groups, the parser of system call lists, and the split of a list
    into the calls that can be blocked before the application is executed and those that cannot.
  \<^item> \<open>Seccomp_File\<close>, \<open>Fseccomp\<close>, \<open>Namespaces\<close>, \<open>Protocol\<close>, \<open>Fseccomp_Main\<close>: the program \<open>fseccomp\<close>, file by file.
    A filter file is the list of instructions written to it. \<open>Fseccomp_Verdicts\<close> has the theorems on what the kernel
    decides with each filter.
  \<^item> \<open>Optimizer\<close> and \<open>Fsec_Print\<close>: the programs \<open>fsec-optimize\<close> and \<open>fsec-print\<close>.
  \<^item> \<open>Net_Common\<close>, \<open>Util\<close>, \<open>Macros\<close>, \<open>Dbus_Names\<close>: addresses from \<open>include/common.h\<close>; the cleaning and validation of
    lines, paths, names, sizes and characters from \<open>firejail/util.c\<close> and \<open>lib/common.c\<close>; the directory macros of
    \<open>firejail/macros.c\<close>; and the D-Bus names and rules of \<open>firejail/dbus.c\<close>.
  \<^item> \<open>Env\<close>, \<open>Cmdline\<close>, \<open>Caps\<close>, \<open>Profile_List\<close>, \<open>Sbox\<close>, \<open>Firejail_Seccomp\<close>: the parts of \<open>firejail\<close> itself, from
    \<open>firejail/env.c\<close>, \<open>cmdline.c\<close>, \<open>caps.c\<close>, the list functions of \<open>profile.c\<close>, \<open>sbox.c\<close>, and \<open>seccomp.c\<close> with
    \<open>protocol.c\<close> and the part of \<open>sandbox.c\<close> that sets the filters. \<open>Firejail_Seccomp\<close> runs the models of the helper
    programs on the files of the sandbox, so that its theorems go from the configuration to the verdict.
  \<^item> \<open>Checkcfg\<close>: the run time configuration \<open>firejail/checkcfg.c\<close>, the parser of \<open>firejail.config\<close> and its queries.
  \<^item> \<open>Profile\<close>: the profile parser \<open>firejail/profile.c\<close>, command by command, with conditionals, the ignore list and the
    inclusion of files. The configuration is a record; variables that are only set are kept in stores by their C name.
    \<open>Profile_Steps\<close> shows that every command is a sequence of elementary changes of the configuration, an inductive step
    relation, and proves invariants by induction on it; \<open>Profile_Theorems\<close> has the resulting properties.
  \<^item> \<open>Options\<close>: the command line of \<open>firejail/main.c\<close>: commands, options, the checks after them, the choice of the
    profile and the adjustments before the sandbox is cloned, on the same configuration. \<open>Startup\<close> shows that options
    are elementary changes too and has the properties of the whole start; \<open>Drop_Privs\<close> has the supplementary groups of
    \<open>firejail/util.c\<close> and the map of groups of \<open>firejail/main.c\<close>.
  \<^item> \<open>Paths\<close>, \<open>Mountinfo\<close>, \<open>Fs_Blacklist\<close>: the search path of \<open>firejail/paths.c\<close>, the table of mounts of
    \<open>firejail/mountinfo.c\<close>, and \<open>firejail/fs.c\<close> with \<open>fs_mkdir.c\<close>: the file entries of a profile, remounts and the base
    of the file system. The state is the sequence of the changes of the file system; what the kernel answers may depend
    on the changes so far. The locale \<open>file_changes\<close> says what it takes for every change for a path to have a property.
    \<open>Fs_Whitelist\<close> is \<open>firejail/fs_whitelist.c\<close> on the same state, with its growing list of entries as a partial
    function. \<open>Users\<close>: the users that may run the program, \<open>lib/firejail_user.c\<close>, and \<open>firejail/restrict_users.c\<close>,
    which hides the others from a sandbox.
  \<^item> \<open>Radix\<close>: the prefix tree of \<open>fnettrace\<close>. \<open>Blake2b\<close>: the hash of \<open>fids\<close>, and \<open>Fids\<close> the program
    itself, with its hash table shown to be the table of the written names.
  \<^item> \<open>Fnettrace_Packets\<close>: the packet parsers of \<open>fnettrace-dns\<close>, \<open>fnettrace-sni\<close> and \<open>fnettrace-icmp\<close> on the receive
    buffer, and the filters they attach to their sockets with the kernel's interpreter as the locale \<open>packet_vm\<close>.
    \<open>Fnettrace_Hosts\<close> is the storage of \<open>fnettrace/main.c\<close> on an explicit heap, with nodes that are in a hash chain, the
    display list or the pool, and its interface \<open>flow_storage\<close>; \<open>Fnettrace_Monitor\<close> has the events, the names of hosts, the
    display and the main loop, and shows that they implement a list of counters per flow.

  \<^bold>\<open>How the code is represented.\<close> A function that changes static variables takes and returns them as a record; a
  callback with its \<open>void *\<close> argument is a function on that record; \<open>exit(1)\<close> and a failed assertion are values
  \<open>Inl e\<close>; writing past an array is the error \<open>BufferOverflow\<close>, so that its absence is a theorem; \<open>unsigned char\<close> jump
  offsets, instruction words and capability masks are words of their width; strings are lists of characters without
  the final zero, except where the code writes zeros into a buffer (\<open>Profile_List\<close>). The kernel and the compiler's
  headers are parameters: what \<open>open\<close>, \<open>write\<close> and \<open>prctl\<close> answer, which \<open>SYS_\<close> macros are defined, the filter
  interpreter (locale \<open>bpf_vm\<close>) and the capability bounding set (locale \<open>capbset\<close>), each interpreted by an executable
  instance. Output that only \<open>arg_debug\<close> asks for, memory exhaustion and file permissions are left out. The build is
  that of x86-64 Linux with the i386 tables as secondary architecture.

  \<^bold>\<open>What is shown.\<close> For each filter, which calls it refuses and with which action, over every call number and
  argument, including the error entries and exclusions of lists; that the optimiser keeps the verdicts, with the bound
  on the number of rules up to which its eight bit offsets do not wrap and an example beyond it; the whole way of
  \<open>seccomp.drop\<close> from the line of a profile to the verdict; that no profile makes the configuration ill formed or takes
  a restriction back, that the file names it keeps are checked, and that includes end at the documented depth; the same
  for the whole start from the command line, where nothing after the options relaxes them, and that an option and the
  profile line of its name agree; that a sandbox without an error has every filter that was
  asked for, and that a process that joins it gets the same ones; which groups are kept and mapped; that the
  file entries hide exactly what they name and no entry of a user gains rights on the file system, that the whitelist shows nothing but what its entries name; round trips of tables, lists, listings and quoted
  command lines; the refinement of longest prefix matching by the tree, of the RFC 7693 specification by the
  incremental hash, and of the documented list operations by the in-place compression; which variables, capabilities
  and system calls are left for a helper. Some theorems state faults of the program: 32 bit options that have no
  effect, the wrapping offset, the kill action of the helper filter, profile lines and options that escape the checks,
  and a profile command that comes too late.

  \<^bold>\<open>Bounds.\<close> \<open>syscall_check_list\<close> recurses through groups; its bound of four levels is proved enough for the groups
  of the source, and a larger bound changes nothing. \<open>profile_read_level\<close> recurses on the include levels that are left,
  and no level left is the error exit of the program itself. \<open>whitelist_loop\<close> need not end; when it does is a theorem, and
  so is an example where it does not. Every other loop is structural or has a termination proof.

  \<^bold>\<open>Not modelled.\<close> The network and X11 functions that profile commands and options call are parameters. Networking, X11 and D-Bus set-up, the monitors and
  the maintenance tools are sequences of system calls or reports about other processes and stay outside, as do the
  preload libraries. The Python code beside firejail is a training framework and no part of the program.
\<close>

end
